(* ===== verification/XrPrelude.thy ===== *)
theory XrPrelude
  imports Main "HOL-Library.Word"
begin

text \<open>
  Shared vocabulary of the development: the machine integer types of the C code, the
  bus status codes of \<^verbatim>\<open>src/src/ebus.h\<close>, little-endian byte views of 32-bit values,
  the copy primitive \<^verbatim>\<open>CopyWithLength\<close>, and the generic lemmas on words, bits and
  byte arrays that the component theories use.

  A C array of fixed size is a function from \<^typ>\<open>nat\<close>; the theories prove
  that the indices the code forms lie inside the declared size.
\<close>

unbundle bit_operations_syntax

type_synonym u8 = "8 word"
type_synonym u16 = "16 word"
type_synonym u32 = "32 word"
type_synonym u64 = "64 word"
type_synonym bytes = "nat \<Rightarrow> u8"

text \<open>Collections of facts that groups of proofs share.\<close>

named_theorems xr_arith \<open>bounds and index arithmetic of masks and shifts\<close>
named_theorems xr_upd \<open>effects of the copy primitives on byte arrays\<close>

section \<open>Bus status codes\<close>

datatype EBusSuccess = EBUSSUCCESS | EBUSERROR

section \<open>Bytes of a 32-bit value\<close>

text \<open>The host is little-endian (README): byte \<open>i\<close> of a word in memory is bits \<open>8i..8i+7\<close>.\<close>

definition byte_of :: "u32 \<Rightarrow> nat \<Rightarrow> u8" where
  "byte_of w i = ucast (drop_bit (8 * i) w)"

definition bytes_of_u32 :: "u32 \<Rightarrow> u8 list" where
  "bytes_of_u32 w = [byte_of w 0, byte_of w 1, byte_of w 2, byte_of w 3]"

fun u32_of_bytes :: "u8 list \<Rightarrow> u32" where
  "u32_of_bytes [] = 0"
| "u32_of_bytes (b # bs) = ucast b OR push_bit 8 (u32_of_bytes bs)"

lemma length_bytes_of_u32 [simp]: "length (bytes_of_u32 w) = 4"
  by (simp add: bytes_of_u32_def)

lemma bit_byte_of [simp]: "bit (byte_of w i) k \<longleftrightarrow> k < 8 \<and> bit w (8 * i + k)"
  by (auto simp: byte_of_def bit_simps add.commute)

lemma less_4_cases: "i < 4 \<longleftrightarrow> i = 0 \<or> i = 1 \<or> i = 2 \<or> i = (3::nat)"
  by auto

lemma nth_bytes_of_u32: "i < 4 \<Longrightarrow> bytes_of_u32 w ! i = byte_of w i"
  by (auto simp: bytes_of_u32_def less_4_cases)

lemma bit_u32_of_bytes:
  "bit (u32_of_bytes bs) n \<longleftrightarrow> n < 32 \<and> n div 8 < length bs \<and> bit (bs ! (n div 8)) (n mod 8)"
proof (induction bs arbitrary: n)
  case Nil
  then show ?case by simp
next
  case (Cons b bs)
  show ?case
  proof (cases "n < 8")
    case True
    then show ?thesis by (auto simp: bit_simps)
  next
    case False
    then have *: "n div 8 = Suc ((n - 8) div 8)" "(n - 8) mod 8 = n mod 8"
      by (simp_all add: le_div_geq le_mod_geq)
    have "\<not> bit b n" using False by (auto dest: bit_imp_le_length)
    then show ?thesis
      using False Cons.IH [of "n - 8"] by (auto simp: bit_simps *)
  qed
qed

lemma u32_of_bytes_of_u32 [simp]: "u32_of_bytes (bytes_of_u32 w) = w"
proof (rule bit_word_eqI)
  fix n assume "n < LENGTH(32)"
  then have "n < 32" "n div 8 < 4" by simp_all
  then show "bit (u32_of_bytes (bytes_of_u32 w)) n \<longleftrightarrow> bit w n"
    by (simp add: bit_u32_of_bytes nth_bytes_of_u32)
qed

lemma byte_of_u32_of_bytes:
  "length bs = 4 \<Longrightarrow> i < 4 \<Longrightarrow> byte_of (u32_of_bytes bs) i = bs ! i"
  by (rule bit_word_eqI) (auto simp: bit_u32_of_bytes)

lemma bytes_of_u32_of_bytes: "length bs = 4 \<Longrightarrow> bytes_of_u32 (u32_of_bytes bs) = bs"
  by (rule nth_equalityI) (simp_all add: nth_bytes_of_u32 byte_of_u32_of_bytes)

section \<open>Byte arrays\<close>

text \<open>
  \<open>peek\<close> reads and \<open>poke\<close> overwrites a run of bytes; \<open>CopyWithLength\<close> of
  \<^verbatim>\<open>ebus.h\<close> copies \<open>n\<close> bytes between host buffers, whatever the case of its
  switch on the length.
\<close>

definition peek :: "bytes \<Rightarrow> nat \<Rightarrow> nat \<Rightarrow> u8 list" where
  "peek mem a n = map mem [a..<a + n]"

definition poke :: "bytes \<Rightarrow> nat \<Rightarrow> u8 list \<Rightarrow> bytes" where
  "poke mem a bs = (\<lambda>i. if a \<le> i \<and> i < a + length bs then bs ! (i - a) else mem i)"

definition CopyWithLength :: "bytes \<Rightarrow> nat \<Rightarrow> u8 list \<Rightarrow> nat \<Rightarrow> bytes" where
  "CopyWithLength dest off src n = poke dest off (take n src)"

definition CopyWithLengthZext :: "bytes \<Rightarrow> nat \<Rightarrow> nat \<Rightarrow> u32" where
  "CopyWithLengthZext src off n = u32_of_bytes (peek src off n)"

lemma length_peek [simp]: "length (peek mem a n) = n"
  by (simp add: peek_def)

lemma nth_peek [simp]: "i < n \<Longrightarrow> peek mem a n ! i = mem (a + i)"
  by (simp add: peek_def)

lemma poke_in [xr_upd]: "a \<le> i \<Longrightarrow> i < a + length bs \<Longrightarrow> poke mem a bs i = bs ! (i - a)"
  by (simp add: poke_def)

lemma poke_out [xr_upd]: "\<not> (a \<le> i \<and> i < a + length bs) \<Longrightarrow> poke mem a bs i = mem i"
  by (auto simp: poke_def)

lemma peek_poke_same: "length bs = n \<Longrightarrow> peek (poke mem a bs) a n = bs"
  by (rule nth_equalityI) (simp_all add: poke_def)

lemma peek_poke_disjoint:
  "a + n \<le> b \<or> b + length bs \<le> a \<Longrightarrow> peek (poke mem b bs) a n = peek mem a n"
  by (rule nth_equalityI) (auto simp: poke_def)

lemma peek_cong: "(\<And>i. i < n \<Longrightarrow> f (a + i) = g (b + i)) \<Longrightarrow> peek f a n = peek g b n"
  by (rule nth_equalityI) simp_all

section \<open>Linear search over an index range\<close>

lemma find_upt_None:
  "(\<And>i. a \<le> i \<Longrightarrow> i < b \<Longrightarrow> \<not> P i) \<Longrightarrow> List.find P [a..<b] = None"
  by (simp add: find_None_iff)

lemma find_upt_Some:
  assumes "a \<le> i" "i < b" "P i" and least: "\<And>j. a \<le> j \<Longrightarrow> j < i \<Longrightarrow> \<not> P j"
  shows "List.find P [a..<b] = Some i"
proof -
  have "[a..<b] = [a..<i] @ i # [Suc i..<b]"
    using assms(1,2) by (metis le_add_diff_inverse less_imp_le_nat upt_add_eq_append upt_conv_Cons)
  moreover have "List.find P ([a..<i] @ i # xs) = Some i" for xs
    using assms(1,3) least by (induction "i - a" arbitrary: a) (auto simp: upt_conv_Cons)
  ultimately show ?thesis by simp
qed

lemma find_upt_SomeD:
  "List.find P [a..<b] = Some i \<Longrightarrow> a \<le> i \<and> i < b \<and> P i \<and> (\<forall>j. a \<le> j \<and> j < i \<longrightarrow> \<not> P j)"
proof -
  assume f: "List.find P [a..<b] = Some i"
  then obtain k where k: "k < b - a" "P (a + k)" "i = a + k" and "\<forall>j<k. \<not> P (a + j)"
    by (auto simp: find_Some_iff)
  then have "\<not> P j" if "a \<le> j" "j < i" for j
    using that by (auto dest: spec [of _ "j - a"])
  then show ?thesis using k by auto
qed

section \<open>Word arithmetic\<close>

lemma unat_and_mask [xr_arith]: "unat ((w :: 'a::len word) AND mask n) = unat w mod 2 ^ n"
proof -
  have "unat (w AND mask n) = take_bit n (unat w)"
    unfolding take_bit_eq_mask [symmetric] by (rule unsigned_take_bit_eq)
  then show ?thesis by (simp only: take_bit_eq_mod)
qed

lemma unat_drop_bit [xr_arith]: "unat (drop_bit n (w :: 'a::len word)) = unat w div 2 ^ n"
  by (rule trans [OF unat_drop_bit_eq]) (rule drop_bit_eq_div)

lemma unat_and_le [xr_arith]: "unat ((w :: 'a::len word) AND v) \<le> unat v"
  by (simp add: word_and_le1 word_le_nat_alt [symmetric])

lemma unat_ucast_mod: "unat (ucast (w :: 'a::len word) :: 'b::len word) = unat w mod 2 ^ LENGTH('b)"
  by (simp only: unsigned_ucast_eq take_bit_eq_mod)

lemma and_push_bit_neq_0:
  "(w :: 'a::len word) AND push_bit n 1 \<noteq> 0 \<longleftrightarrow> bit w n"
proof
  assume "bit w n"
  then have "bit (w AND push_bit n 1) n"
    by (auto simp: bit_simps dest: bit_imp_le_length)
  then show "w AND push_bit n 1 \<noteq> 0" by auto
next
  assume "w AND push_bit n 1 \<noteq> 0"
  then obtain k where "bit (w AND push_bit n 1) k"
    by (metis bit_eqI bit_0_eq bot_apply bot_bool_def)
  then show "bit w n" by (auto simp: bit_simps)
qed

text \<open>Single-bit masks of the two widths the code tests.\<close>

lemma flag_bits_u32:
  "(w :: u32) AND 1 \<noteq> 0 \<longleftrightarrow> bit w 0" "w AND 2 \<noteq> 0 \<longleftrightarrow> bit w 1" "w AND 4 \<noteq> 0 \<longleftrightarrow> bit w 2"
  "w AND 8 \<noteq> 0 \<longleftrightarrow> bit w 3" "w AND 16 \<noteq> 0 \<longleftrightarrow> bit w 4" "w AND 128 \<noteq> 0 \<longleftrightarrow> bit w 7"
  using and_push_bit_neq_0 [of w 0] and_push_bit_neq_0 [of w 1] and_push_bit_neq_0 [of w 2]
    and_push_bit_neq_0 [of w 3] and_push_bit_neq_0 [of w 4] and_push_bit_neq_0 [of w 7]
  by simp_all

lemma flag_bits_u64:
  "(w :: u64) AND 1 \<noteq> 0 \<longleftrightarrow> bit w 0" "w AND 2 \<noteq> 0 \<longleftrightarrow> bit w 1" "w AND 4 \<noteq> 0 \<longleftrightarrow> bit w 2"
  "w AND 8 \<noteq> 0 \<longleftrightarrow> bit w 3" "w AND 16 \<noteq> 0 \<longleftrightarrow> bit w 4"
  using and_push_bit_neq_0 [of w 0] and_push_bit_neq_0 [of w 1] and_push_bit_neq_0 [of w 2]
    and_push_bit_neq_0 [of w 3] and_push_bit_neq_0 [of w 4]
  by simp_all

lemma flag_zero_u32:
  "(w :: u32) AND 1 = 0 \<longleftrightarrow> \<not> bit w 0"
  "w AND 2 = 0 \<longleftrightarrow> \<not> bit w 1"
  "w AND 4 = 0 \<longleftrightarrow> \<not> bit w 2"
  "w AND 8 = 0 \<longleftrightarrow> \<not> bit w 3"
  "w AND 16 = 0 \<longleftrightarrow> \<not> bit w 4"
  "w AND 128 = 0 \<longleftrightarrow> \<not> bit w 7"
  using flag_bits_u32 [of w] by blast+

lemma flag_zero_u64:
  "(w :: u64) AND 1 = 0 \<longleftrightarrow> \<not> bit w 0"
  "w AND 2 = 0 \<longleftrightarrow> \<not> bit w 1"
  "w AND 4 = 0 \<longleftrightarrow> \<not> bit w 2"
  "w AND 8 = 0 \<longleftrightarrow> \<not> bit w 3"
  "w AND 16 = 0 \<longleftrightarrow> \<not> bit w 4"
  using flag_bits_u64 [of w] by blast+

lemma bit_u32_numerals:
  "bit (2 :: u32) n \<longleftrightarrow> n = 1" "bit (4 :: u32) n \<longleftrightarrow> n = 2" "bit (8 :: u32) n \<longleftrightarrow> n = 3"
proof -
  have *: "bit (push_bit k 1 :: u32) n \<longleftrightarrow> n = k" if "k < 32" for k
    using that by (auto simp: bit_exp_iff)
  show "bit (2 :: u32) n \<longleftrightarrow> n = 1" using * [of 1] by simp
  show "bit (4 :: u32) n \<longleftrightarrow> n = 2" using * [of 2] by simp
  show "bit (8 :: u32) n \<longleftrightarrow> n = 3" using * [of 3] by simp
qed

end
