(* ===== verification/Lsic.thy ===== *)
theory Lsic
  imports XrPrelude
begin

text \<open>
  The local interrupt controller, \<^verbatim>\<open>src/src/lsic.c\<close>: one \<open>Lsic\<close> per processor
  with two mask and two pending registers of 32 bits, an interrupt priority level and
  the summary flag \<open>InterruptPending\<close> the interpreter polls. Every operation takes
  the table \<open>LsicTable\<close> and returns it updated; \<open>present\<close> says which
  entries of \<^verbatim>\<open>XrProcessorTable\<close> are not null. The interrupt lock is taken and
  released around each body, so each operation is one atomic step.
\<close>

section \<open>State\<close>

record Lsic =
  Registers :: "nat \<Rightarrow> u32"
  LowIplMask :: u32
  HighIplMask :: u32
  InterruptPending :: bool

type_synonym LsicTable = "nat \<Rightarrow> Lsic"

abbreviation (input) "LSIC_MASK_0 \<equiv> 0 :: nat"
abbreviation (input) "LSIC_MASK_1 \<equiv> 1 :: nat"
abbreviation (input) "LSIC_PENDING_0 \<equiv> 2 :: nat"
abbreviation (input) "LSIC_PENDING_1 \<equiv> 3 :: nat"
abbreviation (input) "LSIC_CLAIM_COMPLETE \<equiv> 4 :: nat"
abbreviation (input) "LSIC_IPL \<equiv> 5 :: nat"
abbreviation (input) "XR_PROC_MAX \<equiv> 16 :: nat"

definition LsicIplMasks :: "u32 list" where
  "LsicIplMasks =
    [0x00000001, 0x00000003, 0x00000007, 0x0000000F,
     0x0000001F, 0x0000003F, 0x0000007F, 0x000000FF,
     0x000001FF, 0x000003FF, 0x000007FF, 0x00000FFF,
     0x00001FFF, 0x00003FFF, 0x00007FFF, 0x0000FFFF,
     0x0001FFFF, 0x0003FFFF, 0x0007FFFF, 0x000FFFFF,
     0x001FFFFF, 0x003FFFFF, 0x007FFFFF, 0x00FFFFFF,
     0x01FFFFFF, 0x03FFFFFF, 0x07FFFFFF, 0x0FFFFFFF,
     0x1FFFFFFF, 0x3FFFFFFF, 0x7FFFFFFF, 0xFFFFFFFF]"

section \<open>Operations\<close>

text \<open>The assignment to \<open>InterruptPending\<close> that closes every update.\<close>

definition LsicUpdatePending :: "Lsic \<Rightarrow> Lsic" where
  "LsicUpdatePending l = l\<lparr>InterruptPending :=
     (NOT (Registers l LSIC_MASK_0)) AND Registers l LSIC_PENDING_0 AND LowIplMask l \<noteq> 0 \<or>
     (NOT (Registers l LSIC_MASK_1)) AND Registers l LSIC_PENDING_1 AND HighIplMask l \<noteq> 0\<rparr>"

definition LsicInterruptTargeted :: "nat \<Rightarrow> nat \<Rightarrow> LsicTable \<Rightarrow> LsicTable" where
  "LsicInterruptTargeted cpu intsrc T =
    (let l = T cpu;
         srcbmp = intsrc div 32;
         srcbmpoff = intsrc mod 32;
         r = LSIC_PENDING_0 + srcbmp;
         l1 = l\<lparr>Registers := (Registers l)(r := Registers l r OR push_bit srcbmpoff 1)\<rparr>
     in T(cpu := LsicUpdatePending l1))"

text \<open>\<open>None\<close> is the call of \<^verbatim>\<open>abort\<close> on a source outside 1..63.\<close>

fun LsicBroadcast :: "(nat \<Rightarrow> bool) \<Rightarrow> nat \<Rightarrow> nat list \<Rightarrow> LsicTable \<Rightarrow> LsicTable" where
  "LsicBroadcast present intsrc [] T = T"
| "LsicBroadcast present intsrc (i # is) T =
     LsicBroadcast present intsrc is
       (if present i then LsicInterruptTargeted i intsrc T else T)"

definition LsicInterrupt :: "(nat \<Rightarrow> bool) \<Rightarrow> nat \<Rightarrow> LsicTable \<Rightarrow> LsicTable option" where
  "LsicInterrupt present intsrc T =
    (if intsrc \<ge> 64 \<or> intsrc = 0 then None
     else Some (LsicBroadcast present intsrc [0..<XR_PROC_MAX] T))"

definition LsicWriteRegister :: "nat \<Rightarrow> u32 \<Rightarrow> Lsic \<Rightarrow> Lsic option" where
  "LsicWriteRegister r value l =
    (if r = LSIC_MASK_0 \<or> r = LSIC_MASK_1 then
       Some (l\<lparr>Registers := (Registers l)(r := value)\<rparr>)
     else if r = LSIC_PENDING_0 then
       (if value = 0 then Some (l\<lparr>Registers := (Registers l)(LSIC_PENDING_0 := 0)\<rparr>)
        else Some (l\<lparr>Registers := (Registers l)(LSIC_PENDING_0 :=
                      Registers l LSIC_PENDING_0 OR (value AND NOT 1))\<rparr>))
     else if r = LSIC_PENDING_1 then
       (if value = 0 then Some (l\<lparr>Registers := (Registers l)(LSIC_PENDING_1 := 0)\<rparr>)
        else Some (l\<lparr>Registers := (Registers l)(LSIC_PENDING_1 :=
                      Registers l LSIC_PENDING_1 OR (value AND NOT 1))\<rparr>))
     else if r = LSIC_CLAIM_COMPLETE then
       (if value \<ge> 64 then None
        else let p = LSIC_PENDING_0 + unat (drop_bit 5 value)
             in Some (l\<lparr>Registers := (Registers l)(p :=
                  Registers l p AND NOT (push_bit (unat (value AND 31)) 1))\<rparr>))
     else if r = LSIC_IPL then
       (if value \<ge> 64 then None
        else let l1 = l\<lparr>Registers := (Registers l)(LSIC_IPL := value)\<rparr>
             in if value \<ge> 32
                then Some (l1\<lparr>LowIplMask := 0xFFFFFFFF,
                              HighIplMask := LsicIplMasks ! unat (value - 32)\<rparr>)
                else Some (l1\<lparr>LowIplMask := LsicIplMasks ! unat value, HighIplMask := 0\<rparr>))
     else None)"

definition LsicWrite :: "(nat \<Rightarrow> bool) \<Rightarrow> nat \<Rightarrow> u32 \<Rightarrow> LsicTable \<Rightarrow> EBusSuccess \<times> LsicTable" where
  "LsicWrite present reg value T =
    (let cpu = reg div 8; r = reg mod 8
     in if cpu \<ge> XR_PROC_MAX then (EBUSERROR, T)
        else if \<not> present cpu then (EBUSERROR, T)
        else case LsicWriteRegister r value (T cpu) of
               None \<Rightarrow> (EBUSERROR, T)
             | Some l \<Rightarrow> (EBUSSUCCESS, T(cpu := LsicUpdatePending l)))"

definition LsicSourceActive :: "Lsic \<Rightarrow> nat \<Rightarrow> bool" where
  "LsicSourceActive l i =
    (drop_bit (i mod 32) ((NOT (Registers l (LSIC_MASK_0 + i div 32)))
       AND Registers l (LSIC_PENDING_0 + i div 32)) AND 1 \<noteq> 0)"

definition LsicClaim :: "Lsic \<Rightarrow> u32" where
  "LsicClaim l =
    (case List.find (LsicSourceActive l) [1..<Suc (unat (Registers l LSIC_IPL))] of
       Some i \<Rightarrow> of_nat i
     | None \<Rightarrow> 0)"

definition LsicRead :: "(nat \<Rightarrow> bool) \<Rightarrow> nat \<Rightarrow> LsicTable \<Rightarrow> EBusSuccess \<times> u32 option" where
  "LsicRead present reg T =
    (let cpu = reg div 8; r = reg mod 8; l = T cpu
     in if cpu \<ge> XR_PROC_MAX then (EBUSERROR, None)
        else if \<not> present cpu then (EBUSERROR, None)
        else if r = LSIC_MASK_0 \<or> r = LSIC_MASK_1 \<or> r = LSIC_PENDING_0 \<or> r = LSIC_PENDING_1
                \<or> r = LSIC_IPL
             then (EBUSSUCCESS, Some (Registers l r))
        else if r = LSIC_CLAIM_COMPLETE then (EBUSSUCCESS, Some (LsicClaim l))
        else (EBUSERROR, None))"

definition LsicReset :: "LsicTable \<Rightarrow> LsicTable" where
  "LsicReset T = T"

text \<open>The zero-initialised C object.\<close>

definition LsicZero :: Lsic where
  "LsicZero = \<lparr>Registers = (\<lambda>_. 0), LowIplMask = 0, HighIplMask = 0, InterruptPending = False\<rparr>"

section \<open>Single bits of the registers\<close>

lemma word_neq_0_iff_bit: "(w :: u32) \<noteq> 0 \<longleftrightarrow> (\<exists>k<32. bit w k)"
proof
  assume "w \<noteq> 0"
  then obtain k where "bit w k" by (metis bit_0_eq bit_word_eqI zero_word_def bot_apply bot_bool_def)
  moreover from this have "k < 32" by (auto dest: bit_imp_le_length)
  ultimately show "\<exists>k<32. bit w k" by blast
qed auto

lemma LsicSourceActive_bit:
  "i < 64 \<Longrightarrow> LsicSourceActive l i \<longleftrightarrow>
     \<not> bit (Registers l (LSIC_MASK_0 + i div 32)) (i mod 32) \<and>
     bit (Registers l (LSIC_PENDING_0 + i div 32)) (i mod 32)"
  by (auto simp: LsicSourceActive_def flag_bits_u32 bit_simps)

lemma LsicSourceActive_high:
  assumes "k < 32"
  shows "LsicSourceActive l (k + 32) \<longleftrightarrow>
     \<not> bit (Registers l LSIC_MASK_1) k \<and> bit (Registers l LSIC_PENDING_1) k"
proof -
  have "(k + 32) div 32 = 1" "(k + 32) mod 32 = k" using assms by simp_all
  then show ?thesis using assms by (simp add: LsicSourceActive_bit)
qed

lemma LsicIplMasks_nth: "k < 32 \<Longrightarrow> LsicIplMasks ! k = mask (Suc k)"
proof -
  have "list_all (\<lambda>k. LsicIplMasks ! k = mask (Suc k)) [0..<32]"
    by code_simp
  then show "k < 32 \<Longrightarrow> LsicIplMasks ! k = mask (Suc k)"
    by (simp add: list_all_iff)
qed

section \<open>Well-formed controllers\<close>

text \<open>
  The level register holds 0..63, source 0 is never pending, the two level masks hold
  exactly the sources up to the level (bit 0 of the low mask is irrelevant: its source
  is never pending), and the summary flag is up to date.
\<close>

definition lsic_ipl :: "Lsic \<Rightarrow> nat" where
  "lsic_ipl l = unat (Registers l LSIC_IPL)"

definition lsic_inv :: "Lsic \<Rightarrow> bool" where
  "lsic_inv l \<longleftrightarrow>
     lsic_ipl l < 64 \<and>
     \<not> bit (Registers l LSIC_PENDING_0) 0 \<and>
     (\<forall>k. 0 < k \<and> k < 32 \<longrightarrow> (bit (LowIplMask l) k \<longleftrightarrow> k \<le> lsic_ipl l)) \<and>
     (\<forall>k<32. bit (HighIplMask l) k \<longleftrightarrow> k + 32 \<le> lsic_ipl l) \<and>
     InterruptPending l = InterruptPending (LsicUpdatePending l)"

lemma LsicUpdatePending_simps [simp]:
  "Registers (LsicUpdatePending l) = Registers l"
  "LowIplMask (LsicUpdatePending l) = LowIplMask l"
  "HighIplMask (LsicUpdatePending l) = HighIplMask l"
  "lsic_ipl (LsicUpdatePending l) = lsic_ipl l"
  "LsicUpdatePending (LsicUpdatePending l) = LsicUpdatePending l"
  by (simp_all add: LsicUpdatePending_def lsic_ipl_def)

text \<open>The part of the invariant that \<open>LsicUpdatePending\<close> completes.\<close>

definition lsic_pre :: "Lsic \<Rightarrow> bool" where
  "lsic_pre l \<longleftrightarrow>
     lsic_ipl l < 64 \<and>
     \<not> bit (Registers l LSIC_PENDING_0) 0 \<and>
     (\<forall>k. 0 < k \<and> k < 32 \<longrightarrow> (bit (LowIplMask l) k \<longleftrightarrow> k \<le> lsic_ipl l)) \<and>
     (\<forall>k<32. bit (HighIplMask l) k \<longleftrightarrow> k + 32 \<le> lsic_ipl l)"

lemma lsic_inv_pre: "lsic_inv l \<Longrightarrow> lsic_pre l"
  by (simp add: lsic_inv_def lsic_pre_def)

lemma lsic_inv_update: "lsic_pre l \<Longrightarrow> lsic_inv (LsicUpdatePending l)"
  by (simp add: lsic_inv_def lsic_pre_def)

lemma lsic_inv_zero: "lsic_inv LsicZero"
  by (simp add: lsic_inv_def LsicZero_def lsic_ipl_def LsicUpdatePending_def)

text \<open>The summary flag, read as a statement about sources.\<close>

lemma InterruptPending_iff:
  assumes "lsic_inv l"
  shows "InterruptPending l \<longleftrightarrow> (\<exists>i. 0 < i \<and> i \<le> lsic_ipl l \<and> LsicSourceActive l i)"
    (is "_ \<longleftrightarrow> ?R")
proof -
  let ?lo = "(NOT (Registers l LSIC_MASK_0)) AND Registers l LSIC_PENDING_0 AND LowIplMask l"
  let ?hi = "(NOT (Registers l LSIC_MASK_1)) AND Registers l LSIC_PENDING_1 AND HighIplMask l"
  have flag: "InterruptPending l \<longleftrightarrow> ?lo \<noteq> 0 \<or> ?hi \<noteq> 0"
    using assms by (simp add: lsic_inv_def LsicUpdatePending_def)
  have "bit ?lo k \<longleftrightarrow> 0 < k \<and> k \<le> lsic_ipl l \<and> LsicSourceActive l k" if "k < 32" for k
    using assms that by (cases "k = 0") (auto simp: bit_simps lsic_inv_def LsicSourceActive_bit)
  then have lo: "?lo \<noteq> 0 \<longleftrightarrow> (\<exists>k. 0 < k \<and> k < 32 \<and> k \<le> lsic_ipl l \<and> LsicSourceActive l k)"
    unfolding word_neq_0_iff_bit by blast
  have "bit ?hi k \<longleftrightarrow> k + 32 \<le> lsic_ipl l \<and> LsicSourceActive l (k + 32)" if "k < 32" for k
    using assms that by (auto simp: bit_simps lsic_inv_def LsicSourceActive_high)
  then have hi: "?hi \<noteq> 0 \<longleftrightarrow> (\<exists>k<32. k + 32 \<le> lsic_ipl l \<and> LsicSourceActive l (k + 32))"
    unfolding word_neq_0_iff_bit by blast
  have "?R \<longleftrightarrow> (\<exists>k. 0 < k \<and> k < 32 \<and> k \<le> lsic_ipl l \<and> LsicSourceActive l k) \<or>
               (\<exists>k<32. k + 32 \<le> lsic_ipl l \<and> LsicSourceActive l (k + 32))" (is "_ = (?A \<or> ?B)")
  proof
    assume ?R
    then obtain i where i: "0 < i" "i \<le> lsic_ipl l" "LsicSourceActive l i" by blast
    have "i < 64" using i(2) assms by (simp add: lsic_inv_def)
    show "?A \<or> ?B"
    proof (cases "i < 32")
      case False
      with \<open>i < 64\<close> i have "i - 32 < 32 \<and> i - 32 + 32 \<le> lsic_ipl l \<and> LsicSourceActive l (i - 32 + 32)"
        by simp
      then show ?thesis by blast
    qed (use i in blast)
  qed (auto intro: exI [of _ "_ + 32"])
  then show ?thesis using flag lo hi by blast
qed

lemma LsicClaim_Some:
  assumes "lsic_ipl l < 64" and "0 < i" and "i \<le> lsic_ipl l" and "LsicSourceActive l i"
    and "\<And>j. 0 < j \<Longrightarrow> j < i \<Longrightarrow> \<not> LsicSourceActive l j"
  shows "LsicClaim l = of_nat i"
proof -
  have "List.find (LsicSourceActive l) [1..<Suc (unat (Registers l LSIC_IPL))] = Some i"
    by (rule find_upt_Some) (use assms in \<open>auto simp: lsic_ipl_def\<close>)
  then show ?thesis by (simp add: LsicClaim_def)
qed

lemma LsicClaim_None:
  "(\<And>i. 0 < i \<Longrightarrow> i \<le> lsic_ipl l \<Longrightarrow> \<not> LsicSourceActive l i) \<Longrightarrow> LsicClaim l = 0"
  by (simp add: LsicClaim_def lsic_ipl_def find_upt_None del: upt_Suc)

lemma LsicClaim_neq_0:
  assumes "lsic_ipl l < 64"
  shows "LsicClaim l \<noteq> 0 \<longleftrightarrow> (\<exists>i. 0 < i \<and> i \<le> lsic_ipl l \<and> LsicSourceActive l i)"
proof
  assume "\<exists>i. 0 < i \<and> i \<le> lsic_ipl l \<and> LsicSourceActive l i"
  then obtain i where i: "0 < i \<and> i \<le> lsic_ipl l \<and> LsicSourceActive l i"
    and least: "\<And>j. j < i \<Longrightarrow> \<not> (0 < j \<and> j \<le> lsic_ipl l \<and> LsicSourceActive l j)"
    using exists_least_iff [of "\<lambda>i. 0 < i \<and> i \<le> lsic_ipl l \<and> LsicSourceActive l i"] by auto
  have "LsicClaim l = of_nat i"
    by (rule LsicClaim_Some) (use assms i least in \<open>auto dest: order.strict_trans1\<close>)
  moreover have "i < 64" using i assms by simp
  ultimately show "LsicClaim l \<noteq> 0"
    using i by (simp add: word_of_nat_eq_0_iff dvd_def) (auto)
qed (use LsicClaim_None in blast)

section \<open>Preservation\<close>

lemma lsic_pre_write:
  assumes "lsic_pre l" and "LsicWriteRegister r value l = Some l'"
  shows "lsic_pre l'"
proof -
  have ipl: "lsic_pre (l\<lparr>Registers := (Registers l)(LSIC_IPL := value),
      LowIplMask := 0xFFFFFFFF, HighIplMask := LsicIplMasks ! unat (value - 32)\<rparr>)"
    if v: "value < 64" "32 \<le> value"
  proof -
    have n: "unat value < 64" "32 \<le> unat value"
      using v by (simp_all add: word_less_nat_alt word_le_nat_alt)
    then have u: "unat (value - 32) = unat value - 32"
      by (simp add: unat_sub v)
    have low: "bit (0xFFFFFFFF :: u32) k" if "k < 32" for k
    proof -
      have "(0xFFFFFFFF :: u32) = - 1" by simp
      then show ?thesis using that by (simp only: bit_minus_1_iff) simp
    qed
    show ?thesis
      using assms(1) n
      by (auto simp: lsic_pre_def lsic_ipl_def u LsicIplMasks_nth bit_mask_iff low
        simp del: bit_numeral_word_iff)
  qed
  have ipl': "lsic_pre (l\<lparr>Registers := (Registers l)(LSIC_IPL := value),
      LowIplMask := LsicIplMasks ! unat value, HighIplMask := 0\<rparr>)"
    if v: "value < 32"
  proof -
    have "unat value < 32" using v by (simp add: word_less_nat_alt)
    then show ?thesis
      using assms(1) by (auto simp: lsic_pre_def lsic_ipl_def LsicIplMasks_nth bit_simps)
  qed
  have claim: "unat (drop_bit 5 value) = 0 \<or> unat (drop_bit 5 value) = 1" if "value < 64"
    using that by (auto simp: unat_drop_bit word_less_nat_alt)
  show ?thesis
    using assms(2) ipl ipl' claim assms(1)
    by (auto simp: LsicWriteRegister_def Let_def not_le split: if_splits)
       (auto simp: lsic_pre_def lsic_ipl_def bit_simps numeral_2_eq_2)
qed

lemma lsic_inv_targeted:
  assumes "lsic_inv (T i)" and "0 < src" and "src < 64"
  shows "lsic_inv (LsicInterruptTargeted cpu src T i)"
proof -
  have "src div 32 = 0 \<or> src div 32 = 1" using assms(3) by auto
  moreover have "src mod 32 \<noteq> 0" if "src div 32 = 0" using assms(2) that by (auto simp: div_eq_0_iff)
  ultimately have "lsic_pre ((T cpu)\<lparr>Registers := (Registers (T cpu))(2 + src div 32 :=
      Registers (T cpu) (2 + src div 32) OR push_bit (src mod 32) 1)\<rparr>)" if "cpu = i"
    using lsic_inv_pre [OF assms(1)] that
    by (auto simp: lsic_pre_def lsic_ipl_def bit_simps numeral_2_eq_2)
  then show ?thesis
    using assms(1) by (auto simp: LsicInterruptTargeted_def Let_def intro!: lsic_inv_update)
qed

lemma lsic_inv_broadcast:
  assumes "0 < src" and "src < 64"
  shows "lsic_inv (T i) \<Longrightarrow> lsic_inv (LsicBroadcast present src cpus T i)"
  by (induction cpus arbitrary: T) (auto intro: lsic_inv_targeted assms)

lemma lsic_inv_write:
  "lsic_inv (T i) \<Longrightarrow> lsic_inv (snd (LsicWrite present reg value T) i)"
  by (auto simp: LsicWrite_def Let_def intro!: lsic_inv_update intro: lsic_pre_write lsic_inv_pre
      split: option.split)

text \<open>The controllers of a run: from the zero-initialised table, by any operation.\<close>

inductive lsic_reach :: "(nat \<Rightarrow> bool) \<Rightarrow> LsicTable \<Rightarrow> bool" for present where
  start: "lsic_reach present (\<lambda>_. LsicZero)"
| broadcast: "lsic_reach present T \<Longrightarrow> LsicInterrupt present src T = Some T' \<Longrightarrow> lsic_reach present T'"
| targeted: "lsic_reach present T \<Longrightarrow> 0 < src \<Longrightarrow> src < 64 \<Longrightarrow>
    lsic_reach present (LsicInterruptTargeted cpu src T)"
| reg_write: "lsic_reach present T \<Longrightarrow> LsicWrite present reg value T = (st, T') \<Longrightarrow> lsic_reach present T'"

lemma lsic_reach_inv: "lsic_reach present T \<Longrightarrow> lsic_inv (T i)"
proof (induction rule: lsic_reach.induct)
  case (broadcast T src T')
  then show ?case
    by (auto simp: LsicInterrupt_def lsic_inv_broadcast split: if_splits)
next
  case (reg_write T r v st T')
  then show ?case using lsic_inv_write [of T i present r v] by simp
qed (simp_all add: lsic_inv_zero lsic_inv_targeted)

section \<open>Delivery\<close>

lemma targeted_other [simp]: "i \<noteq> cpu \<Longrightarrow> LsicInterruptTargeted cpu src T i = T i"
  by (simp add: LsicInterruptTargeted_def Let_def)

lemma targeted_ipl [simp]: "lsic_ipl (LsicInterruptTargeted cpu src T i) = lsic_ipl (T i)"
  if "src < 64"
proof -
  have "src div 32 = 0 \<or> src div 32 = 1" using that by auto
  then show ?thesis by (auto simp: LsicInterruptTargeted_def Let_def lsic_ipl_def)
qed

lemma targeted_mask [simp]:
  "j < 2 \<Longrightarrow> Registers (LsicInterruptTargeted cpu src T i) j = Registers (T i) j"
  by (simp add: LsicInterruptTargeted_def Let_def)

lemma targeted_pending:
  assumes "src < 64" "j < 64"
  shows "bit (Registers (LsicInterruptTargeted cpu src T cpu) (2 + j div 32)) (j mod 32) \<longleftrightarrow>
         bit (Registers (T cpu) (2 + j div 32)) (j mod 32) \<or> j = src"
proof (cases "j div 32 = src div 32")
  case True
  then have "j = src \<longleftrightarrow> j mod 32 = src mod 32" by (metis div_mult_mod_eq)
  then show ?thesis
    using True by (auto simp: LsicInterruptTargeted_def Let_def bit_simps)
qed (auto simp: LsicInterruptTargeted_def Let_def)

lemma targeted_active:
  assumes "src < 64" "j < 64"
  shows "LsicSourceActive (LsicInterruptTargeted cpu src T i) j \<longleftrightarrow>
     LsicSourceActive (T i) j \<or>
     i = cpu \<and> j = src \<and> \<not> bit (Registers (T i) (j div 32)) (j mod 32)"
proof (cases "i = cpu")
  case True
  have "j div 32 < 2" using assms(2) by auto
  then show ?thesis
    using True targeted_pending [OF assms, of cpu T] by (auto simp: LsicSourceActive_bit assms(2))
qed simp

lemma broadcast_active:
  assumes "src < 64" "j < 64"
  shows "LsicSourceActive (LsicBroadcast present src cpus T i) j \<longleftrightarrow>
     LsicSourceActive (T i) j \<or>
     i \<in> set cpus \<and> present i \<and> j = src \<and> \<not> bit (Registers (T i) (j div 32)) (j mod 32)"
proof (induction cpus arbitrary: T)
  case (Cons c cs)
  have "j div 32 < 2" using assms(2) by auto
  then show ?case
    using Cons targeted_active [OF assms, of c T i] by auto
qed simp

lemma broadcast_ipl: "src < 64 \<Longrightarrow> lsic_ipl (LsicBroadcast present src cpus T i) = lsic_ipl (T i)"
  by (induction cpus arbitrary: T) auto

section \<open>Properties\<close>

text \<open>
  Claim C21. In every reachable interrupt controller the summary flag the interpreter
  polls is set exactly when a read of the claim register returns a source, and what
  that read returns is the lowest-numbered source that is pending, not masked, not
  zero and not above the priority level.
\<close>

theorem lsic_flag_iff_claim:
  assumes "lsic_reach present T"
  shows "InterruptPending (T i) = (LsicClaim (T i) \<noteq> 0)
    \<and> (LsicClaim (T i) \<noteq> 0 \<longrightarrow>
        (let n = unat (LsicClaim (T i)) in
          0 < n \<and> n \<le> unat (Registers (T i) LSIC_IPL) \<and> LsicSourceActive (T i) n
          \<and> (\<forall>j. 0 < j \<and> j < n \<longrightarrow> \<not> LsicSourceActive (T i) j)))"
proof -
  have inv: "lsic_inv (T i)" using assms by (rule lsic_reach_inv)
  then have lt: "lsic_ipl (T i) < 64" by (simp add: lsic_inv_def)
  have "InterruptPending (T i) = (LsicClaim (T i) \<noteq> 0)"
    using InterruptPending_iff [OF inv] LsicClaim_neq_0 [OF lt] by blast
  moreover have "let n = unat (LsicClaim (T i)) in
          0 < n \<and> n \<le> unat (Registers (T i) LSIC_IPL) \<and> LsicSourceActive (T i) n
          \<and> (\<forall>j. 0 < j \<and> j < n \<longrightarrow> \<not> LsicSourceActive (T i) j)" if nz: "LsicClaim (T i) \<noteq> 0"
  proof -
    obtain n where f: "List.find (LsicSourceActive (T i)) [1..<Suc (lsic_ipl (T i))] = Some n"
      and c: "LsicClaim (T i) = of_nat n"
      using nz by (auto simp: LsicClaim_def lsic_ipl_def split: option.splits)
    have n: "1 \<le> n \<and> n < Suc (lsic_ipl (T i)) \<and> LsicSourceActive (T i) n
        \<and> (\<forall>j. 1 \<le> j \<and> j < n \<longrightarrow> \<not> LsicSourceActive (T i) j)"
      using find_upt_SomeD [OF f] .
    then have "unat (LsicClaim (T i)) = n"
      using lt c by (simp add: unat_of_nat)
    then show ?thesis using n by (auto simp: Let_def lsic_ipl_def Suc_le_eq)
  qed
  ultimately show ?thesis by blast
qed

text \<open>A table with level 63 in processor 0 and source 7 pending there.\<close>

definition lsic_sample :: LsicTable where
  "lsic_sample = LsicInterruptTargeted 0 7 (snd (LsicWrite (\<lambda>_. True) LSIC_IPL 63 (\<lambda>_. LsicZero)))"

lemma lsic_sample_reach: "lsic_reach (\<lambda>_. True) lsic_sample"
  unfolding lsic_sample_def
  by (rule lsic_reach.targeted [OF lsic_reach.reg_write [OF lsic_reach.start]], rule surjective_pairing)
    simp_all

lemma lsic_sample_eqs:
  "InterruptPending (lsic_sample 0)" "Registers (lsic_sample 0) 0 = 0"
  "Registers (lsic_sample 0) LSIC_IPL = 63"
  by (simp_all add: lsic_sample_def LsicInterruptTargeted_def LsicUpdatePending_def LsicWrite_def
      LsicWriteRegister_def LsicZero_def LsicIplMasks_def Let_def)

lemma lsic_flag_iff_claim_witness: "InterruptPending (lsic_sample 0) \<and> LsicClaim (lsic_sample 0) \<noteq> 0"
  using lsic_flag_iff_claim [OF lsic_sample_reach, of 0] lsic_sample_eqs by simp

text \<open>
  A broadcast of a legal source in a reachable state returns a table in which
  exactly the present processors have gained exactly that source, and every present
  processor that does not mask it and whose level admits it sees its summary flag set.
\<close>

theorem lsic_broadcast_delivers:
  assumes "lsic_reach present T" and "0 < src" and "src < 64"
  shows "\<exists>T'. LsicInterrupt present src T = Some T' \<and>
    (\<forall>i<XR_PROC_MAX. \<forall>j<64. LsicSourceActive (T' i) j =
       (LsicSourceActive (T i) j \<or>
        present i \<and> j = src \<and> \<not> bit (Registers (T i) (src div 32)) (src mod 32))) \<and>
    (\<forall>i<XR_PROC_MAX. present i \<and> \<not> bit (Registers (T i) (src div 32)) (src mod 32) \<and>
       src \<le> unat (Registers (T i) LSIC_IPL) \<longrightarrow> InterruptPending (T' i))"
proof -
  let ?T = "LsicBroadcast present src [0..<XR_PROC_MAX] T"
  have some: "LsicInterrupt present src T = Some ?T"
    using assms(2,3) by (simp add: LsicInterrupt_def)
  have active: "LsicSourceActive (?T i) j =
       (LsicSourceActive (T i) j \<or>
        present i \<and> j = src \<and> \<not> bit (Registers (T i) (src div 32)) (src mod 32))"
    if "i < XR_PROC_MAX" "j < 64" for i j
    using broadcast_active [OF assms(3) that(2), of present "[0..<XR_PROC_MAX]" T i] that(1)
    by auto
  have "InterruptPending (?T i)"
    if "i < XR_PROC_MAX" "present i" "\<not> bit (Registers (T i) (src div 32)) (src mod 32)"
      "src \<le> lsic_ipl (T i)" for i
  proof -
    have "lsic_inv (?T i)"
      by (rule lsic_reach_inv [OF lsic_reach.broadcast [OF assms(1) some]])
    moreover have "src \<le> lsic_ipl (?T i)" using that(4) by (simp add: broadcast_ipl assms(3))
    moreover have "LsicSourceActive (?T i) src" using active [of i src] that assms by simp
    ultimately show ?thesis using assms(2) by (auto simp: InterruptPending_iff)
  qed
  then show ?thesis using some active by (auto simp: lsic_ipl_def)
qed

lemma lsic_broadcast_delivers_witness:
  "\<exists>T'. LsicInterrupt (\<lambda>_. True) 40 lsic_sample = Some T' \<and> InterruptPending (T' 0)"
proof -
  have "unat (Registers (lsic_sample 0) LSIC_IPL) = 63" by (simp add: lsic_sample_eqs)
  moreover have "\<not> bit (Registers (lsic_sample 0) 1) 8"
    by (simp add: lsic_sample_def LsicInterruptTargeted_def LsicUpdatePending_def LsicWrite_def
      LsicWriteRegister_def LsicZero_def Let_def)
  ultimately show ?thesis
    using lsic_broadcast_delivers [OF lsic_sample_reach, of 40] by fastforce
qed

text \<open>
  Writing a source number below 64 to the claim/complete register of a present
  processor succeeds, clears exactly that source, leaves every other source and every
  other processor's controller as it was, and keeps masks and level.
\<close>

theorem lsic_complete_clears:
  assumes "cpu < XR_PROC_MAX" and "present cpu" and "v < 64"
  shows "\<exists>T'. LsicWrite present (8 * cpu + LSIC_CLAIM_COMPLETE) v T = (EBUSSUCCESS, T') \<and>
    (\<forall>j<64. LsicSourceActive (T' cpu) j = (LsicSourceActive (T cpu) j \<and> j \<noteq> unat v)) \<and>
    (\<forall>i. i \<noteq> cpu \<longrightarrow> T' i = T i)"
proof -
  have n: "unat v < 64" using assms(3) by (simp add: word_less_nat_alt)
  have reg: "(8 * cpu + 4) div 8 = cpu" "(8 * cpu + 4) mod 8 = 4" by simp_all
  have p: "unat (drop_bit 5 v) = unat v div 32" by (simp add: unat_drop_bit)
  have "v AND 31 = v AND mask 5" by (simp add: mask_eq_exp_minus_1)
  then have o: "unat (v AND 31) = unat v mod 32" by (simp add: unat_and_mask)
  define l where "l = (T cpu)\<lparr>Registers := (Registers (T cpu))(2 + unat v div 32 :=
      Registers (T cpu) (2 + unat v div 32) AND NOT (push_bit (unat v mod 32) 1))\<rparr>"
  have wr: "LsicWriteRegister 4 v (T cpu) = Some l"
    using assms(3) by (simp add: LsicWriteRegister_def Let_def p o l_def not_le)
  have "LsicSourceActive l j \<longleftrightarrow> LsicSourceActive (T cpu) j \<and> j \<noteq> unat v" if "j < 64" for j
  proof (cases "j div 32 = unat v div 32")
    case True
    then have "j = unat v \<longleftrightarrow> j mod 32 = unat v mod 32" by (metis div_mult_mod_eq)
    moreover have "j div 32 < 2" using that by auto
    ultimately show ?thesis
      using True that by (auto simp: LsicSourceActive_bit l_def bit_simps)
  next
    case False
    moreover have "j div 32 < 2" using that by auto
    ultimately show ?thesis using that by (auto simp: LsicSourceActive_bit l_def)
  qed
  moreover have "LsicSourceActive (LsicUpdatePending l) j = LsicSourceActive l j" for j
    by (simp add: LsicSourceActive_def)
  moreover have "LsicWrite present (8 * cpu + 4) v T = (EBUSSUCCESS, T(cpu := LsicUpdatePending l))"
    using assms by (simp only: LsicWrite_def reg Let_def wr) simp
  ultimately show ?thesis by auto
qed

lemma lsic_complete_clears_witness:
  "\<exists>T'. LsicWrite (\<lambda>_. True) (8 * 0 + LSIC_CLAIM_COMPLETE) 7 lsic_sample = (EBUSSUCCESS, T') \<and>
     \<not> LsicSourceActive (T' 0) 7"
  using lsic_complete_clears [of 0 "\<lambda>_. True" 7 lsic_sample] by fastforce

end
