(* ===== verification/Ram256.thy ===== *)
theory Ram256
  imports XrPrelude
begin

text \<open>
  The RAM boards, \<^verbatim>\<open>src/src/ram256.c\<close>: eight slots of at most 32MB behind bus
  branches 0 and 1, their read, write and translate handlers, and the distribution of
  each node's memory over its two slots at start-up. The locale \<open>byte_memory\<close>
  states what a client of a memory may rely on (a read returns the bytes last
  written, other bytes keep their value, an address range is accessible or not whatever
  the contents); both branches are interpretations of it.
\<close>

section \<open>The contract of a byte memory\<close>

text \<open>
  \<open>inv\<close>: what the memory's operations keep true; \<open>window a\<close>: the addresses the
  memory decodes; \<open>acc a n\<close>: the \<open>n\<close> bytes from \<open>a\<close> can be accessed; \<open>byte m x\<close>: the
  byte stored at address \<open>x\<close>.
\<close>

locale byte_memory =
  fixes rd :: "u32 \<Rightarrow> nat \<Rightarrow> 'm \<Rightarrow> EBusSuccess \<times> u8 list"
    and wr :: "u32 \<Rightarrow> u8 list \<Rightarrow> nat \<Rightarrow> 'm \<Rightarrow> EBusSuccess \<times> 'm"
    and inv :: "'m \<Rightarrow> bool"
    and acc :: "u32 \<Rightarrow> nat \<Rightarrow> 'm \<Rightarrow> bool"
    and byte :: "'m \<Rightarrow> u32 \<Rightarrow> u8"
    and window :: "u32 \<Rightarrow> bool"
    and maxlen :: nat
  assumes rd_acc: "inv m \<Longrightarrow> window a \<Longrightarrow> n \<le> maxlen \<Longrightarrow> acc a n m \<Longrightarrow>
      rd a n m = (EBUSSUCCESS, map (\<lambda>i. byte m (a + of_nat i)) [0..<n])"
    and rd_fail: "inv m \<Longrightarrow> window a \<Longrightarrow> n \<le> maxlen \<Longrightarrow> \<not> acc a n m \<Longrightarrow>
      rd a n m = (EBUSERROR, [])"
    and wr_acc: "inv m \<Longrightarrow> window a \<Longrightarrow> n \<le> maxlen \<Longrightarrow> acc a n m \<Longrightarrow> n \<le> length bs \<Longrightarrow>
      \<exists>m'. wr a bs n m = (EBUSSUCCESS, m') \<and> inv m' \<and>
        (\<forall>x. window x \<longrightarrow> byte m' x =
          (if unat (x - a) < n then bs ! unat (x - a) else byte m x)) \<and>
        (\<forall>b k. acc b k m' = acc b k m)"
    and wr_fail: "inv m \<Longrightarrow> window a \<Longrightarrow> n \<le> maxlen \<Longrightarrow> \<not> acc a n m \<Longrightarrow>
      wr a bs n m = (EBUSERROR, m)"
    and window_closed: "inv m \<Longrightarrow> window a \<Longrightarrow> n \<le> maxlen \<Longrightarrow> acc a n m \<Longrightarrow> i < n \<Longrightarrow>
      window (a + of_nat i)"
    and small: "maxlen < 2 ^ 32"
begin

lemma write_cases:
  assumes "inv m" "window a" "n \<le> maxlen" "n \<le> length bs"
  obtains (ok) m' where "wr a bs n m = (EBUSSUCCESS, m')" "acc a n m" "inv m'"
      "\<And>x. window x \<Longrightarrow> byte m' x = (if unat (x - a) < n then bs ! unat (x - a) else byte m x)"
      "\<And>b k. acc b k m' = acc b k m"
  | (fail) "wr a bs n m = (EBUSERROR, m)" "\<not> acc a n m"
proof (cases "acc a n m")
  case True
  then show ?thesis using wr_acc [OF assms(1-3) _ assms(4)] ok by blast
qed (use wr_fail [OF assms(1-3)] fail in blast)

lemma write_inv:
  "inv m \<Longrightarrow> window a \<Longrightarrow> n \<le> maxlen \<Longrightarrow> n \<le> length bs \<Longrightarrow> inv (snd (wr a bs n m))"
  by (rule write_cases [of m a n bs]) auto

lemma read_after_write:
  assumes "inv m" "window a" "n \<le> maxlen" "n \<le> length bs"
    and w: "wr a bs n m = (EBUSSUCCESS, m')"
  shows "rd a n m' = (EBUSSUCCESS, take n bs)"
  using assms(1-4)
proof (cases rule: write_cases)
  case (ok m'')
  then have m: "m'' = m'" using w by simp
  have "map (\<lambda>i. byte m' (a + of_nat i)) [0..<n] = take n bs"
  proof (rule nth_equalityI)
    fix i assume "i < length (map (\<lambda>i. byte m' (a + of_nat i)) [0..<n])"
    then have i: "i < n" by simp
    then have "unat (of_nat i :: u32) = i"
      using assms(3) small by (simp add: unat_of_nat)
    then show "map (\<lambda>i. byte m' (a + of_nat i)) [0..<n] ! i = take n bs ! i"
      using i ok(4) [OF window_closed [OF assms(1-3) ok(2) i]] m by simp
  qed (use assms(4) in simp)
  then show ?thesis using rd_acc [of m' a n] ok assms(2,3) m by simp
qed (use w in simp)

lemma write_status:
  assumes "inv m" "window a" "n \<le> maxlen" "n \<le> length bs"
  shows "fst (wr a bs n m) = fst (rd a n m)"
  using assms by (cases rule: write_cases) (simp_all add: rd_acc rd_fail assms)

lemma read_other:
  assumes "inv m" "window a" "window b" "n \<le> maxlen" "k \<le> maxlen" "n \<le> length bs"
    and w: "wr a bs n m = (st, m')"
    and apart: "\<And>i. i < k \<Longrightarrow> n \<le> unat (b + of_nat i - a)"
  shows "rd b k m' = rd b k m"
  using assms(1,2,4,6)
proof (cases rule: write_cases)
  case (ok m'')
  then have m: "m'' = m'" using w by simp
  show ?thesis
  proof (cases "acc b k m")
    case acc: True
    have "map (\<lambda>i. byte m' (b + of_nat i)) [0..<k] = map (\<lambda>i. byte m (b + of_nat i)) [0..<k]"
      using ok(4) [OF window_closed [OF assms(1,3,5) acc]] apart m by (simp add: leD)
    then show ?thesis
      using rd_acc [of m' b k] rd_acc [of m b k] acc ok m assms by simp
  next
    case False
    then show ?thesis using rd_fail [of m' b k] rd_fail [of m b k] ok m assms by simp
  qed
next
  case fail
  then show ?thesis using w by simp
qed

end

section \<open>State and handlers\<close>

record Ram =
  RAMSlots :: "nat \<Rightarrow> bytes"
  RAMSlotSizes :: "nat \<Rightarrow> u32"

abbreviation (input) "RAMSLOTSIZE \<equiv> 33554432 :: u32"
abbreviation (input) "RAMSLOTCOUNT \<equiv> 8 :: nat"
abbreviation (input) "XR_NODE_MAX \<equiv> 4 :: nat"
abbreviation (input) "SLOTS_PER_NODE \<equiv> 2 :: nat"
abbreviation (input) "EBUSBRANCHSIZE \<equiv> 134217728 :: u32"

text \<open>Branch 0: \<open>length\<close> is a \<^verbatim>\<open>uint32_t\<close>, so \<open>offset+length\<close> is a 32-bit sum.\<close>

definition RAMWrite :: "u32 \<Rightarrow> u8 list \<Rightarrow> nat \<Rightarrow> Ram \<Rightarrow> EBusSuccess \<times> Ram" where
  "RAMWrite address src len ram =
    (let slot = unat (drop_bit 25 address);
         offset = address AND (RAMSLOTSIZE - 1)
     in if offset + of_nat len > RAMSlotSizes ram slot then (EBUSERROR, ram)
        else (EBUSSUCCESS, ram\<lparr>RAMSlots := (RAMSlots ram)(slot :=
                CopyWithLength (RAMSlots ram slot) (unat offset) src len)\<rparr>))"

definition RAMRead :: "u32 \<Rightarrow> nat \<Rightarrow> Ram \<Rightarrow> EBusSuccess \<times> u8 list" where
  "RAMRead address len ram =
    (let slot = unat (drop_bit 25 address);
         offset = address AND (RAMSLOTSIZE - 1)
     in if offset + of_nat len > RAMSlotSizes ram slot then (EBUSERROR, [])
        else (EBUSSUCCESS, peek (RAMSlots ram slot) (unat offset) len))"

text \<open>A host pointer is a slot and an offset into it; \<open>None\<close> is the null pointer.\<close>

definition RAMTranslate :: "u32 \<Rightarrow> Ram \<Rightarrow> (nat \<times> nat) option" where
  "RAMTranslate address ram =
    (let slot = unat (drop_bit 25 address);
         offset = address AND (RAMSLOTSIZE - 1)
     in if offset \<ge> RAMSlotSizes ram slot then None else Some (slot, unat offset))"

text \<open>Branch 1: the second 128MB.\<close>

definition RAMWriteExt :: "u32 \<Rightarrow> u8 list \<Rightarrow> nat \<Rightarrow> Ram \<Rightarrow> EBusSuccess \<times> Ram" where
  "RAMWriteExt address src len ram =
    (let address = address + EBUSBRANCHSIZE;
         slot = unat (drop_bit 25 address);
         offset = address AND (RAMSLOTSIZE - 1)
     in if offset + of_nat len > RAMSlotSizes ram slot then (EBUSERROR, ram)
        else (EBUSSUCCESS, ram\<lparr>RAMSlots := (RAMSlots ram)(slot :=
                CopyWithLength (RAMSlots ram slot) (unat offset) src len)\<rparr>))"

definition RAMReadExt :: "u32 \<Rightarrow> nat \<Rightarrow> Ram \<Rightarrow> EBusSuccess \<times> u8 list" where
  "RAMReadExt address len ram =
    (let address = address + EBUSBRANCHSIZE;
         slot = unat (drop_bit 25 address);
         offset = address AND (RAMSLOTSIZE - 1)
     in if offset + of_nat len > RAMSlotSizes ram slot then (EBUSERROR, [])
        else (EBUSSUCCESS, peek (RAMSlots ram slot) (unat offset) len))"

definition RAMTranslateExt :: "u32 \<Rightarrow> Ram \<Rightarrow> (nat \<times> nat) option" where
  "RAMTranslateExt address ram =
    (let address = address + EBUSBRANCHSIZE;
         slot = unat (drop_bit 25 address);
         offset = address AND (RAMSLOTSIZE - 1)
     in if offset \<ge> RAMSlotSizes ram slot then None else Some (slot, unat offset))"

lemma RAMWriteExt_eq: "RAMWriteExt address = RAMWrite (address + EBUSBRANCHSIZE)"
  by (intro ext) (simp add: RAMWriteExt_def RAMWrite_def Let_def)

lemma RAMReadExt_eq: "RAMReadExt address = RAMRead (address + EBUSBRANCHSIZE)"
  by (intro ext) (simp add: RAMReadExt_def RAMRead_def Let_def)

section \<open>Distribution of the nodes' memory\<close>

text \<open>
  The \<^verbatim>\<open>while\<close> loop of \<open>RAMInit\<close> for one node: \<open>sizes\<close> is
  \<^verbatim>\<open>RAMSlotSizes\<close>, \<open>i\<close> the slot counter that wraps at \<open>SLOTS_PER_NODE\<close>.
\<close>

function RAMStack :: "nat \<Rightarrow> nat \<Rightarrow> u32 \<Rightarrow> (nat \<Rightarrow> u32) \<Rightarrow> (nat \<Rightarrow> u32) \<times> u32" where
  "RAMStack nodeid i noderam sizes =
    (if noderam \<ge> 0x400000 then
       let i = (if i \<ge> SLOTS_PER_NODE then 0 else i);
           s = nodeid * SLOTS_PER_NODE + i
       in RAMStack nodeid (i + 1) (noderam - 0x400000) (sizes(s := sizes s + 0x400000))
     else (sizes, noderam))"
  by pat_completeness auto
termination
  by (relation "measure (\<lambda>(nodeid, i, noderam, sizes). unat noderam)")
     (auto simp: word_le_nat_alt unat_sub)

declare RAMStack.simps [simp del]

definition RAMInitNode :: "nat \<Rightarrow> u32 \<Rightarrow> (nat \<Rightarrow> u32) \<Rightarrow> (nat \<Rightarrow> u32)" where
  "RAMInitNode nodeid noderam sizes =
    (if noderam \<noteq> 0 then
       let (sizes', rest) = RAMStack nodeid 0 noderam sizes;
           s = nodeid * SLOTS_PER_NODE + 0
       in sizes'(s := sizes' s + rest)
     else sizes)"

fun RAMInitNodes :: "nat list \<Rightarrow> (nat \<Rightarrow> u32) \<Rightarrow> (nat \<Rightarrow> u32) \<Rightarrow> (nat \<Rightarrow> u32)" where
  "RAMInitNodes [] noderam sizes = sizes"
| "RAMInitNodes (n # ns) noderam sizes = RAMInitNodes ns noderam (RAMInitNode n (noderam n) sizes)"

text \<open>
  \<open>None\<close> is the error return when \<^verbatim>\<open>malloc\<close> fails for a slot of nonzero size;
  \<open>heap s\<close> is the block it returns for slot \<open>s\<close>.
\<close>

definition RAMInit :: "(nat \<Rightarrow> bytes option) \<Rightarrow> (nat \<Rightarrow> u32) \<Rightarrow> Ram option" where
  "RAMInit heap noderam =
    (let sizes = RAMInitNodes [0..<XR_NODE_MAX] noderam (\<lambda>_. 0)
     in if \<exists>s \<in> {0..<RAMSLOTCOUNT}. sizes s \<noteq> 0 \<and> heap s = None then None
        else Some \<lparr>RAMSlots = (\<lambda>s. case heap s of Some b \<Rightarrow> b | None \<Rightarrow> (\<lambda>_. 0)),
                   RAMSlotSizes = sizes\<rparr>)"

section \<open>The branches are byte memories\<close>

definition ram_window :: "u32 \<Rightarrow> bool" where
  "ram_window a \<longleftrightarrow> unat a < 2 ^ 28"

definition ram_off :: "u32 \<Rightarrow> nat" where
  "ram_off a = unat a mod 2 ^ 25"

definition ram_slot :: "u32 \<Rightarrow> nat" where
  "ram_slot a = unat a div 2 ^ 25"

definition ram_byte :: "Ram \<Rightarrow> u32 \<Rightarrow> u8" where
  "ram_byte ram a = RAMSlots ram (ram_slot a) (ram_off a)"

definition ram_acc :: "u32 \<Rightarrow> nat \<Rightarrow> Ram \<Rightarrow> bool" where
  "ram_acc a n ram \<longleftrightarrow> ram_off a + n \<le> unat (RAMSlotSizes ram (ram_slot a))"

text \<open>No slot is larger than its 32MB window: what \<open>RAMInit\<close> establishes.\<close>

definition ram_sized :: "(nat \<Rightarrow> u32) \<Rightarrow> bool" where
  "ram_sized sizes \<longleftrightarrow> (\<forall>s. unat (sizes s) \<le> 2 ^ 25)"

lemma ram_offset: "a AND (RAMSLOTSIZE - 1) = a AND mask 25"
  by (simp add: mask_eq_exp_minus_1)

lemma ram_simps:
  "unat (drop_bit 25 a) = ram_slot a" "unat (a AND (RAMSLOTSIZE - 1)) = ram_off a" for a :: u32
  by (simp_all only: ram_offset unat_and_mask unat_drop_bit ram_slot_def ram_off_def)

lemma ram_off_less: "ram_off a < 2 ^ 25"
  by (simp add: ram_off_def)

lemma ram_fits:
  assumes "n \<le> 4096"
  shows "(a AND (RAMSLOTSIZE - 1)) + of_nat n > s \<longleftrightarrow> unat s < ram_off a + n"
proof -
  have "unat (of_nat n :: u32) = n" using assms by (simp add: unat_of_nat)
  moreover have "ram_off a + n < 2 ^ 32" using assms ram_off_less [of a] by simp
  ultimately have "unat ((a AND (RAMSLOTSIZE - 1)) + of_nat n) = ram_off a + n"
    by (subst unat_add_lem [THEN iffD1]) (simp_all only: ram_simps, simp_all)
  then show ?thesis by (simp only: word_less_nat_alt)
qed

lemma RAMRead_eq:
  "n \<le> 4096 \<Longrightarrow> RAMRead a n ram =
    (if ram_acc a n ram then (EBUSSUCCESS, peek (RAMSlots ram (ram_slot a)) (ram_off a) n)
     else (EBUSERROR, []))"
  by (simp only: RAMRead_def Let_def ram_fits ram_simps) (auto simp: ram_acc_def)

lemma RAMWrite_eq:
  "n \<le> 4096 \<Longrightarrow> RAMWrite a bs n ram =
    (if ram_acc a n ram then (EBUSSUCCESS, ram\<lparr>RAMSlots := (RAMSlots ram)(ram_slot a :=
        poke (RAMSlots ram (ram_slot a)) (ram_off a) (take n bs))\<rparr>)
     else (EBUSERROR, ram))"
  by (simp only: RAMWrite_def Let_def ram_fits ram_simps CopyWithLength_def)
     (auto simp: ram_acc_def)


lemma div_eq_decomp: "a mod m + i < m \<Longrightarrow> (a + i) div m = a div (m :: nat)"
  by (metis add.assoc add_cancel_right_right div_less div_mult_mod_eq div_mult_self3 gr_zeroI not_less_zero)

lemma mod_eq_decomp: "a mod m + i < m \<Longrightarrow> (a + i) mod m = a mod m + (i :: nat)"
  by (metis mod_add_left_eq mod_less)

lemma ram_step:
  assumes "ram_off a + i < 2 ^ 25"
  shows "ram_slot (a + of_nat i) = ram_slot a" "ram_off (a + of_nat i) = ram_off a + i"
    "unat (a + of_nat i) = unat a + i"
proof -
  have "unat a = ram_slot a * 2 ^ 25 + ram_off a"
    by (simp add: ram_slot_def ram_off_def)
  moreover have "ram_slot a < 2 ^ 7"
    using unsigned_less [of a, where 'a = nat] by (simp add: ram_slot_def)
  ultimately have lt: "unat a + i < 2 ^ 32" using assms by simp
  have "i < 2 ^ 32" using assms by simp
  then show u: "unat (a + of_nat i) = unat a + i"
    using lt by (subst unat_add_lem [THEN iffD1]) (simp_all add: unat_of_nat)
  have i: "unat a mod 2 ^ 25 + i < 2 ^ 25" using assms by (simp only: ram_off_def)
  show "ram_slot (a + of_nat i) = ram_slot a"
    unfolding ram_slot_def u using i by (simp only: div_eq_decomp)
  show "ram_off (a + of_nat i) = ram_off a + i"
    unfolding ram_off_def u using i by (simp only: mod_eq_decomp)
qed


lemma ram_step_conv:
  assumes "unat (x - a) < n" "ram_off a + n \<le> 2 ^ 25"
  shows "ram_slot x = ram_slot a" "ram_off x = ram_off a + unat (x - a)"
  using ram_step [of a "unat (x - a)"] assms by simp_all

lemma ram_apart:
  assumes "ram_slot x = ram_slot a" "ram_off a \<le> ram_off x"
  shows "unat (x - a) = ram_off x - ram_off a"
proof -
  have "unat x = ram_slot x * 2 ^ 25 + ram_off x" "unat a = ram_slot a * 2 ^ 25 + ram_off a"
    by (simp_all add: ram_slot_def ram_off_def)
  then show ?thesis using assms by (simp add: unat_sub word_le_nat_alt)
qed

definition ram_inv :: "Ram \<Rightarrow> bool" where
  "ram_inv ram \<longleftrightarrow> ram_sized (RAMSlotSizes ram)"

lemma ram_acc_bound: "ram_inv ram \<Longrightarrow> ram_acc a n ram \<Longrightarrow> ram_off a + n \<le> 2 ^ 25"
  unfolding ram_inv_def ram_sized_def ram_acc_def using order_trans by blast

lemma ram_acc_upd [simp]: "ram_acc a n (ram\<lparr>RAMSlots := S\<rparr>) = ram_acc a n ram"
  by (simp add: ram_acc_def)

lemma ram_inv_upd [simp]: "ram_inv (ram\<lparr>RAMSlots := S\<rparr>) = ram_inv ram"
  by (simp add: ram_inv_def)

lemma ram_read_bytes:
  assumes "ram_inv ram" "ram_acc a n ram"
  shows "peek (RAMSlots ram (ram_slot a)) (ram_off a) n = map (\<lambda>i. ram_byte ram (a + of_nat i)) [0..<n]"
proof (rule nth_equalityI)
  fix i assume i: "i < length (peek (RAMSlots ram (ram_slot a)) (ram_off a) n)"
  have "ram_off a + i < 2 ^ 25" using ram_acc_bound [OF assms] i by simp
  then show "peek (RAMSlots ram (ram_slot a)) (ram_off a) n ! i
      = map (\<lambda>i. ram_byte ram (a + of_nat i)) [0..<n] ! i"
    using i by (simp add: ram_byte_def ram_step)
qed simp

lemma ram_write_byte:
  assumes "ram_inv ram" "ram_acc a n ram" "n \<le> length bs"
  shows "ram_byte (ram\<lparr>RAMSlots := (RAMSlots ram)(ram_slot a :=
        poke (RAMSlots ram (ram_slot a)) (ram_off a) (take n bs))\<rparr>) x
    = (if unat (x - a) < n then bs ! unat (x - a) else ram_byte ram x)"
proof (cases "unat (x - a) < n")
  case True
  then show ?thesis
    using ram_step_conv [OF True ram_acc_bound [OF assms(1,2)]] assms(3)
    by (simp add: ram_byte_def poke_def)
next
  case False
  then show ?thesis
    using ram_apart [of x a] assms(3) by (auto simp: ram_byte_def poke_def)
qed

lemma ram_window_step:
  assumes "ram_inv ram" "ram_acc a n ram" "i < n" "unat a < 2 ^ k" "25 \<le> k" "k \<le> 32"
  shows "unat (a + of_nat i) < 2 ^ k"
proof -
  have "ram_off a + i < 2 ^ 25" using ram_acc_bound [OF assms(1,2)] assms(3) by simp
  then have "unat (a + of_nat i) div 2 ^ 25 = unat a div 2 ^ 25"
    using ram_step(1) by (simp add: ram_slot_def)
  moreover have "(2 :: nat) ^ k = 2 ^ (k - 25) * 2 ^ 25"
    using assms(5) by (simp only: power_add [symmetric]) simp
  ultimately show ?thesis
    using assms(4) by (simp only: div_less_iff_less_mult [symmetric] zero_less_power zero_less_numeral)
qed

text \<open>Branch 0 decodes the offsets below 128MB, branch 1 the same offsets with the base added.\<close>

definition branch_window :: "u32 \<Rightarrow> bool" where
  "branch_window a \<longleftrightarrow> unat a < 2 ^ 27"

definition ext :: "u32 \<Rightarrow> u32" where
  "ext a = a + EBUSBRANCHSIZE"

lemma ext_diff: "ext x - ext a = x - a"
  by (simp add: ext_def)

lemma ext_add: "ext (a + b) = ext a + b"
  by (simp add: ext_def)

interpretation ram: byte_memory RAMRead RAMWrite ram_inv ram_acc ram_byte branch_window 4096
proof unfold_locales
  fix a :: u32 and n i :: nat and m :: Ram
  assume "ram_inv m" "branch_window a" "ram_acc a n m" "i < n"
  then show "branch_window (a + word_of_nat i)"
    unfolding branch_window_def by (intro ram_window_step) simp_all
qed (auto simp: RAMRead_eq RAMWrite_eq ram_read_bytes ram_write_byte)

interpretation ramext: byte_memory RAMReadExt RAMWriteExt ram_inv
  "\<lambda>a. ram_acc (ext a)" "\<lambda>m a. ram_byte m (ext a)" branch_window 4096
proof unfold_locales
  fix a :: u32 and n i :: nat and m :: Ram
  assume as: "ram_inv m" "branch_window a" "ram_acc (ext a) n m" "i < n"
  have "unat (ext a) = unat a + 2 ^ 27"
    using as(2) unfolding ext_def branch_window_def
    by (subst unat_add_lem [THEN iffD1]) simp_all
  moreover from this as(2) have w: "unat (ext a) < 2 ^ 28" by (simp add: branch_window_def)
  moreover have "unat (ext a + of_nat i) < 2 ^ 28"
    using ram_window_step [OF as(1,3,4) w] by simp
  moreover have "unat (ext a + of_nat i) = unat (ext a) + i"
    using ram_acc_bound [OF as(1,3)] as(4) by (intro ram_step) simp
  ultimately have lt: "unat a + i < 2 ^ 27" by simp
  then have "unat (of_nat i :: u32) = i" by (simp add: unat_of_nat)
  then have "unat (a + of_nat i) = unat a + i"
    using lt by (subst unat_add_lem [THEN iffD1]) simp_all
  then show "branch_window (a + word_of_nat i)"
    using lt by (simp add: branch_window_def)
qed (auto simp: RAMReadExt_eq [folded ext_def] RAMWriteExt_eq [folded ext_def] RAMRead_eq RAMWrite_eq
    ram_read_bytes ram_write_byte ext_diff ext_add)

section \<open>What start-up establishes\<close>

text \<open>Units of 4MB that the first and the second slot of a node get, from slot \<open>i\<close> on.\<close>

definition units_first :: "nat \<Rightarrow> nat \<Rightarrow> nat" where
  "units_first i q = (if i = 1 then q div 2 else (q + 1) div 2)"

lemma RAMStack_closed:
  assumes "i \<le> 2"
  shows "RAMStack n i r sizes =
    (let q = unat r div 2 ^ 22; f = units_first i q in
      (sizes(2 * n := sizes (2 * n) + of_nat (f * 2 ^ 22),
             2 * n + 1 := sizes (2 * n + 1) + of_nat ((q - f) * 2 ^ 22)),
       of_nat (unat r mod 2 ^ 22)))"
  using assms
proof (induction n i r sizes rule: RAMStack.induct)
  case (1 n i r sizes)
  show ?case
  proof (cases "r \<ge> 0x400000")
    case False
    then have "unat r < 2 ^ 22" by (simp add: not_le word_less_nat_alt)
    then show ?thesis
      using False by (auto simp: RAMStack.simps [of n i] units_first_def fun_eq_iff Let_def)
  next
    case True
    then have r: "unat r \<ge> 2 ^ 22" by (simp add: word_le_nat_alt)
    have u: "unat (r - 0x400000) = unat r - 2 ^ 22" using True by (simp add: unat_sub)
    define q where "q = (unat r - 2 ^ 22) div 2 ^ 22"
    have q: "unat r div 2 ^ 22 = Suc q" "unat r mod 2 ^ 22 = (unat r - 2 ^ 22) mod 2 ^ 22"
      using r by (simp_all add: q_def le_div_geq le_mod_geq)
    define j where "j = (if i \<ge> 2 then 0 else i)"
    have j: "j + 1 \<le> 2" "j = 0 \<or> j = 1" using 1(2) by (auto simp: j_def)
    have f: "units_first (j + 1) q = (if j = 0 then units_first i (Suc q) - 1 else units_first i (Suc q))"
      "j = 0 \<Longrightarrow> 0 < units_first i (Suc q)" "units_first i (Suc q) \<le> Suc q"
      "j = 1 \<Longrightarrow> units_first i (Suc q) \<le> q"
      using 1(2) by (auto simp: units_first_def j_def split: if_splits)
    have "RAMStack n i r sizes =
        RAMStack n (j + 1) (r - 0x400000) (sizes(n * 2 + j := sizes (n * 2 + j) + 0x400000))"
      using True by (simp add: RAMStack.simps [of n i] j_def Let_def)
    also have "\<dots> = (let f = units_first (j + 1) q;
        sizes' = sizes(n * 2 + j := sizes (n * 2 + j) + 0x400000) in
      (sizes'(2 * n := sizes' (2 * n) + of_nat (f * 2 ^ 22),
             2 * n + 1 := sizes' (2 * n + 1) + of_nat ((q - f) * 2 ^ 22)),
       of_nat ((unat r - 2 ^ 22) mod 2 ^ 22)))"
      using 1(1) [OF True j_def refl j(1)] by (simp only: q_def u Let_def)
    finally have step: "RAMStack n i r sizes = \<dots>" .
    have n2: "n * 2 = 2 * n" by simp
    have w: "of_nat (Suc k * 2 ^ 22) = 0x400000 + (of_nat (k * 2 ^ 22) :: u32)" for k
      by (simp add: distrib_right)
    from j(2) show ?thesis
    proof
      assume j0: "j = 0"
      then obtain f' where f': "units_first i (Suc q) = Suc f'"
        using f(2) gr0_implies_Suc by blast
      then show ?thesis
        using f(1) j0 unfolding step q Let_def n2 f'
        by (simp only: w if_True refl diff_Suc_1 add_0_right diff_Suc_Suc) (simp add: add.assoc)
    next
      assume j1: "j = 1"
      then have sd: "Suc q - units_first i (Suc q) = Suc (q - units_first i (Suc q))"
        using f(4) by (simp add: Suc_diff_le)
      have f1: "units_first (j + 1) q = units_first i (Suc q)" using f(1) j1 by simp
      show ?thesis
        using j1 unfolding step q Let_def n2 sd f1
        by (simp only: w) (simp add: add.assoc fun_upd_twist)
    qed
  qed
qed

text \<open>The closed form for one node, and for all four.\<close>

definition first_slot_bytes :: "nat \<Rightarrow> nat" where
  "first_slot_bytes r = (r div 2 ^ 22 + 1) div 2 * 2 ^ 22 + r mod 2 ^ 22"

definition second_slot_bytes :: "nat \<Rightarrow> nat" where
  "second_slot_bytes r = r div 2 ^ 22 div 2 * 2 ^ 22"

lemma slot_bytes_sum: "first_slot_bytes r + second_slot_bytes r = r"
proof -
  have "(q + 1) div 2 + q div 2 = q" for q :: nat by simp
  then have "((r div 2 ^ 22 + 1) div 2 + r div 2 ^ 22 div 2) * 2 ^ 22 + r mod 2 ^ 22 = r"
    by (simp del: add_2_eq_Suc')
  then show ?thesis
    unfolding first_slot_bytes_def second_slot_bytes_def add_mult_distrib by simp
qed

lemma RAMInitNode_closed:
  "RAMInitNode n r sizes = sizes(2 * n := sizes (2 * n) + of_nat (first_slot_bytes (unat r)),
     2 * n + 1 := sizes (2 * n + 1) + of_nat (second_slot_bytes (unat r)))"
proof (cases "r = 0")
  case False
  have "q - (q + 1) div 2 = q div 2" for q :: nat by simp
  then have "RAMStack n 0 r sizes =
      (sizes(2 * n := sizes (2 * n) + of_nat ((unat r div 2 ^ 22 + 1) div 2 * 2 ^ 22),
             2 * n + 1 := sizes (2 * n + 1) + of_nat (unat r div 2 ^ 22 div 2 * 2 ^ 22)),
       of_nat (unat r mod 2 ^ 22))"
    by (simp only: RAMStack_closed units_first_def Let_def) simp
  then show ?thesis
    using False by (auto simp: RAMInitNode_def first_slot_bytes_def second_slot_bytes_def
      fun_eq_iff mult.commute [of n 2] Let_def)
qed (auto simp: RAMInitNode_def first_slot_bytes_def second_slot_bytes_def)

lemma RAMInitNodes_closed:
  assumes "distinct ns"
  shows "RAMInitNodes ns noderam sizes s =
    (if s div 2 \<in> set ns then sizes s + of_nat (if even s then first_slot_bytes (unat (noderam (s div 2)))
       else second_slot_bytes (unat (noderam (s div 2)))) else sizes s)"
  using assms
proof (induction ns arbitrary: sizes)
  case (Cons n ns)
  have "s = 2 * n \<longleftrightarrow> s div 2 = n \<and> even s" "s = Suc (2 * n) \<longleftrightarrow> s div 2 = n \<and> odd s"
    by (auto elim: oddE)
  then show ?case
    using Cons by (auto simp: RAMInitNode_closed)
qed simp

definition ram_node_legal :: "u32 \<Rightarrow> bool" where
  "ram_node_legal r \<longleftrightarrow> unat r \<le> 60 * 2 ^ 20 \<or> unat r = 64 * 2 ^ 20"

lemma slot_bytes_bound:
  assumes "unat r \<le> 60 * 2 ^ 20 \<or> unat r = 64 * 2 ^ 20"
  shows "first_slot_bytes (unat r) \<le> 2 ^ 25" "second_slot_bytes (unat r) \<le> 2 ^ 25"
proof -
  define q m where "q = unat r div 2 ^ 22" and "m = unat r mod 2 ^ 22"
  have r: "unat r = q * 2 ^ 22 + m" "m < 2 ^ 22" by (simp_all add: q_def m_def)
  have q: "q \<le> 14 \<or> q = 15 \<and> m = 0 \<or> q = 16 \<and> m = 0"
  proof -
    consider "q \<le> 14" | "q = 15" | "16 \<le> q" by linarith
    then show ?thesis using assms r by cases auto
  qed
  have "Suc q div 2 \<le> 7" "q div 2 \<le> 7" if "q \<le> 14" using that by simp_all
  then show "first_slot_bytes (unat r) \<le> 2 ^ 25" "second_slot_bytes (unat r) \<le> 2 ^ 25"
    using q r(2) unfolding first_slot_bytes_def second_slot_bytes_def
      q_def [symmetric] m_def [symmetric] by auto
qed

lemma RAMInit_sizes:
  assumes "RAMInit heap noderam = Some ram"
  shows "RAMSlotSizes ram s = (if s < RAMSLOTCOUNT then
      of_nat (if even s then first_slot_bytes (unat (noderam (s div 2)))
              else second_slot_bytes (unat (noderam (s div 2)))) else 0)"
proof -
  have "RAMSlotSizes ram s = RAMInitNodes [0..<XR_NODE_MAX] noderam (\<lambda>_. 0) s"
    using assms by (auto simp: RAMInit_def Let_def split: if_splits)
  moreover have "s div 2 \<in> set [0..<XR_NODE_MAX] \<longleftrightarrow> s < RAMSLOTCOUNT" by auto
  ultimately show ?thesis by (simp only: RAMInitNodes_closed distinct_upt if_distrib) auto
qed

lemma unat_of_nat_le: "k \<le> 2 ^ 25 \<Longrightarrow> unat (of_nat k :: u32) = k"
  by (simp add: unat_of_nat)

section \<open>Properties\<close>

text \<open>
  Start-up: if every node asks for at most 60MB, or exactly 64MB, and the host
  has the memory, then each node's two slots hold together exactly the memory the node
  asks for, no slot is larger than its 32MB window, and every access of at most a page
  that stays inside a slot is accepted.
\<close>

theorem RAMInit_distributes:
  assumes "\<And>n. n < XR_NODE_MAX \<Longrightarrow> ram_node_legal (noderam n)"
    and "\<And>s. s < RAMSLOTCOUNT \<Longrightarrow> heap s \<noteq> None"
  shows "\<exists>ram. RAMInit heap noderam = Some ram \<and> ram_inv ram \<and>
    (\<forall>n<XR_NODE_MAX. unat (RAMSlotSizes ram (2 * n)) + unat (RAMSlotSizes ram (2 * n + 1))
       = unat (noderam n))"
proof -
  obtain ram where ram: "RAMInit heap noderam = Some ram"
    using assms(2) by (auto simp: RAMInit_def Let_def)
  note sz = RAMInit_sizes [OF ram]
  have b: "first_slot_bytes (unat (noderam n)) \<le> 2 ^ 25"
    "second_slot_bytes (unat (noderam n)) \<le> 2 ^ 25" if "n < XR_NODE_MAX" for n
    using slot_bytes_bound [of "noderam n"] assms(1) [OF that] by (simp_all add: ram_node_legal_def)
  have "unat (RAMSlotSizes ram s) \<le> 2 ^ 25" for s
    using b [of "s div 2"] by (auto simp: sz unat_of_nat_le)
  then have "ram_inv ram" by (simp add: ram_inv_def ram_sized_def)
  moreover have "unat (RAMSlotSizes ram (2 * n)) + unat (RAMSlotSizes ram (2 * n + 1))
       = unat (noderam n)" if "n < XR_NODE_MAX" for n
    using that b [OF that] slot_bytes_sum [of "unat (noderam n)"]
    by (simp add: sz unat_of_nat_le)
  ultimately show ?thesis using ram by blast
qed

lemma RAMInit_distributes_witness:
  "\<exists>ram. RAMInit (\<lambda>_. Some (\<lambda>_. 0)) (\<lambda>n. if n = 0 then 0x3C00000 else 0) = Some ram \<and> ram_inv ram \<and>
    (\<forall>n<XR_NODE_MAX. unat (RAMSlotSizes ram (2 * n)) + unat (RAMSlotSizes ram (2 * n + 1))
       = unat ((if n = 0 then 0x3C00000 else 0) :: u32))"
  by (rule RAMInit_distributes) (auto simp: ram_node_legal_def)

text \<open>
  RAM behind branch 0: whatever a successful write of up to a page stored is what a
  read of the same range returns, reads of disjoint ranges are unaffected, a write succeeds
  exactly where a read does, and the size invariant is kept; a failed write changes nothing.
\<close>

theorem ram_read_after_write:
  assumes "ram_inv m" "branch_window a" "n \<le> 4096" "n \<le> length bs"
    and "RAMWrite a bs n m = (st, m')"
  shows "ram_inv m' \<and> st = fst (RAMRead a n m) \<and> (st = EBUSERROR \<longrightarrow> m' = m) \<and>
    (st = EBUSSUCCESS \<longrightarrow> RAMRead a n m' = (EBUSSUCCESS, take n bs)) \<and>
    (\<forall>b k. branch_window b \<and> k \<le> 4096 \<and> (\<forall>i<k. n \<le> unat (b + of_nat i - a)) \<longrightarrow>
       RAMRead b k m' = RAMRead b k m)"
  using ram.write_inv [OF assms(1-4)] ram.write_status [OF assms(1-4)]
    ram.read_after_write [OF assms(1-4)] ram.read_other [OF assms(1,2) _ assms(3) _ assms(4,5)]
    ram.wr_fail [OF assms(1-3)] ram.wr_acc [OF assms(1-3) _ assms(4)] assms(5)
  by (cases "ram_acc a n m") auto

definition ram_sample :: Ram where
  "ram_sample = \<lparr>RAMSlots = (\<lambda>_ _. 0), RAMSlotSizes = (\<lambda>s. if s = 0 then 0x400000 else 0)\<rparr>"

lemma ram_read_after_write_witness:
  "\<exists>m'. RAMWrite 0x1000 [1, 2, 3, 4] 4 ram_sample = (EBUSSUCCESS, m') \<and>
     RAMRead 0x1000 4 m' = (EBUSSUCCESS, [1, 2, 3, 4])"
proof -
  have inv: "ram_inv ram_sample" by (simp add: ram_inv_def ram_sized_def ram_sample_def)
  obtain st m' where w: "RAMWrite 0x1000 [1, 2, 3, 4] 4 ram_sample = (st, m')" by (rule prod.exhaust)
  moreover have "st = EBUSSUCCESS"
    using w by (simp add: RAMWrite_def ram_sample_def split: if_splits)
  ultimately show ?thesis
    using ram_read_after_write [OF inv _ _ _ w] by (simp add: branch_window_def)
qed

text \<open>
  Between 60MB and 64MB exclusive the remainder is added to a first slot that is
  already full: a node configured with 63MB has a first slot of 35MB behind a 32MB window,
  so 3MB of its memory are addressed by no access.
\<close>

theorem RAMInit_63MB_overflows:
  "RAMInitNode 0 0x3F00000 (\<lambda>_. 0) 0 = 0x2300000 \<and> RAMInitNode 0 0x3F00000 (\<lambda>_. 0) 1 = 0x1C00000
   \<and> (\<forall>a. unat (a AND (RAMSLOTSIZE - 1)) < 0x2000000)"
  using ram_off_less
  by (simp only: ram_simps RAMInitNode_closed first_slot_bytes_def second_slot_bytes_def) auto

end
