(* ===== verification/XrProc.thy ===== *)
theory XrProc
  imports XrPrelude
begin

text \<open>
  The processor object \<open>struct _XrProcessor\<close> of \<^verbatim>\<open>src/src/xr.h\<close> with the structures it
  contains (cached instructions, basic blocks, prediction tables, virtual pages), and
  the reset and exception entry code of \<^verbatim>\<open>src/src/xr17032fast.c\<close> lines 503-629.

  Fields hold what the C fields hold. A one-byte flag that only takes 0 and 1 is a
  \<^typ>\<open>bool\<close>; array indices, line states and cache indices, which are stored and compared
  but never computed with, are \<^typ>\<open>nat\<close>. The doubly linked lists of \<^verbatim>\<open>queue.h\<close> are lists
  of pool indices, head first (theory \<open>Queue\<close> relates the two). Host pointers into the
  three per-processor pools are indices; \<^term>\<open>None\<close> is the null pointer.
\<close>

section \<open>Cached instructions and basic blocks\<close>

text \<open>
  The instruction handlers a \<open>Func\<close> pointer can hold, \<open>XrExecute...\<close> in the source, grouped
  by kind: register operations, immediate operations, memory operations, control flow
  (the handlers that end a block by a dispatch), and the rest.
\<close>

datatype XrRegFunc = ExecuteNor | ExecuteOr | ExecuteXor | ExecuteAnd | ExecuteSltSigned
  | ExecuteSlt | ExecuteSub | ExecuteAdd | ExecuteLsh | ExecuteRsh | ExecuteAsh | ExecuteRor
  | ExecuteMod | ExecuteDivSigned | ExecuteDiv | ExecuteMul

datatype XrImmFunc = ExecuteOri | ExecuteXori | ExecuteAndi | ExecuteSltiSigned | ExecuteSlti
  | ExecuteSubi | ExecuteAddi | ExecuteAdr

datatype XrMemFunc =
    ExecuteStoreLongRegOffset | ExecuteStoreIntRegOffset | ExecuteStoreByteRegOffset
  | ExecuteLoadLongRegOffset | ExecuteLoadIntRegOffset | ExecuteLoadByteRegOffset
  | ExecuteStoreLongImmOffsetImm | ExecuteStoreIntImmOffsetImm | ExecuteStoreByteImmOffsetImm
  | ExecuteStoreLongImmOffsetReg | ExecuteStoreIntImmOffsetReg | ExecuteStoreByteImmOffsetReg
  | ExecuteLoadLongImmOffset | ExecuteLoadIntImmOffset | ExecuteLoadByteImmOffset
  | ExecuteSC | ExecuteLL

datatype XrFlowFunc = ExecuteBpo | ExecuteBpe | ExecuteBge | ExecuteBle | ExecuteBgt
  | ExecuteBlt | ExecuteBne | ExecuteBeq | ExecuteB | ExecuteJalr | ExecuteJal | ExecuteJ
  | SpecialLinkageInstruction

datatype XrSysFunc = ExecuteIllegalInstruction | ExecuteSys | ExecuteBrk | ExecuteWmb
  | ExecuteMb | ExecutePause | ExecuteRfe | ExecuteHlt | ExecuteMtcr | ExecuteMfcr
  | ExecuteVirtualLsh | ExecuteVirtualRsh | ExecuteVirtualAsh | ExecuteVirtualRor

datatype XrFunc = FReg XrRegFunc | FImm XrImmFunc | FMem XrMemFunc | FFlow XrFlowFunc
  | FSys XrSysFunc

record XrCachedInst =
  Func :: XrFunc
  Imm32_1 :: u32
  Imm8_1 :: u8
  Imm8_2 :: u8

text \<open>
  A back pointer (\<^verbatim>\<open>XrIblock **\<close>) is either a path slot of a block or a slot of a jump
  prediction table.
\<close>

datatype XrPathRef = BlockPath nat nat | PtablePath nat nat

text \<open>
  \<open>CachedPaths\<close> holds block indices, except that in a block with \<open>HasPtable\<close> slot 0 holds
  the index of its prediction table (the code casts the pointer).
\<close>

record XrIblock =
  IbVpage :: nat
  CachedPaths :: "nat \<Rightarrow> nat option"
  CachedBy :: "nat \<Rightarrow> XrPathRef option"
  IbPc :: u32
  IbAsid :: u32
  IbCycles :: u8
  CachedByFifoIndex :: u8
  PteFlags :: u32
  HasPtable :: bool
  Insts :: "nat \<Rightarrow> XrCachedInst"

record XrJalrPredictionTable =
  PtIblocks :: "nat \<Rightarrow> nat option"
  PtPcs :: "nat \<Rightarrow> u32"

record XrVirtualPage =
  IblockVpnList :: "nat list"
  VpVpn :: u32
  References :: u32

record XrIblockCache =
  Iblocks :: "nat \<Rightarrow> XrIblock"
  Ptables :: "nat \<Rightarrow> XrJalrPredictionTable"
  Vpages :: "nat \<Rightarrow> XrVirtualPage"
  IblockFreeList :: "nat list"
  PtableFreeList :: "nat list"
  VpageFreeList :: "nat list"
  IblockLruList :: "nat list"
  IblockHashBuckets :: "nat \<Rightarrow> nat list"
  VpageHashBuckets :: "nat \<Rightarrow> nat list"

section \<open>The processor\<close>

record XrProcessor =
  Itb :: "nat \<Rightarrow> u64"
  Dtb :: "nat \<Rightarrow> u64"
  ItbLastResult :: u64
  ItbLastVpn :: u32
  DtbLastVpn :: u32
  DtbLastResult :: u32
  Ibc :: XrIblockCache
  IcTags :: "nat \<Rightarrow> u32"
  DcTags :: "nat \<Rightarrow> u32"
  WbIndices :: "nat \<Rightarrow> nat"
  TimerInterruptCounter :: u32
  WbFillIndex :: u32
  WbWriteIndex :: u32
  WbCycles :: u32
  Reg :: "nat \<Rightarrow> u32"
  Cr :: "nat \<Rightarrow> u32"
  Pc :: u32
  Dispatches :: u8
  ProcId :: nat
  Progress :: int
  CyclesDone :: u32
  CyclesGoal :: u32
  PauseCalls :: u32
  CyclesThisRound :: u32
  IcReplacementIndex :: u32
  DcReplacementIndex :: u32
  Ic :: bytes
  Dc :: bytes
  IcFlags :: "nat \<Rightarrow> nat"
  DcFlags :: "nat \<Rightarrow> nat"
  DcIndexToWbIndex :: "nat \<Rightarrow> nat"
  NmiMaskCounter :: u8
  Locked :: bool
  LastTbMissWasWrite :: bool
  UserBreak :: bool
  Halted :: bool
  Running :: bool
  NoMore :: bool

section \<open>Constants\<close>

abbreviation (input) "XR_WB_DEPTH \<equiv> 4 :: nat"
abbreviation (input) "XR_DC_LINE_COUNT \<equiv> 2048 :: nat"
abbreviation (input) "XR_IC_LINE_COUNT \<equiv> 2048 :: nat"
abbreviation (input) "XR_CACHE_INDEX_INVALID \<equiv> 4294967295 :: nat"
abbreviation (input) "XR_WB_INDEX_INVALID \<equiv> 255 :: nat"
abbreviation (input) "XR_LINE_INVALID \<equiv> 0 :: nat"
abbreviation (input) "XR_LINE_SHARED \<equiv> 1 :: nat"
abbreviation (input) "XR_LINE_EXCLUSIVE \<equiv> 2 :: nat"
abbreviation (input) "XR_POLL_MAX \<equiv> 32 :: int"
abbreviation (input) "XR_PAUSE_MAX \<equiv> 256 :: u32"
abbreviation (input) "NMI_MASK_CYCLES \<equiv> 64 :: u8"
abbreviation (input) "XR_FAKE_ZERO_REGISTER \<equiv> 32 :: nat"
abbreviation (input) "XR_FAKE_SHIFT_SINK \<equiv> 33 :: nat"
abbreviation (input) "LR \<equiv> 31 :: nat"

text \<open>Control registers.\<close>

abbreviation (input) "RS \<equiv> 0 :: nat"
abbreviation (input) "WHAMI \<equiv> 1 :: nat"
abbreviation (input) "EB \<equiv> 5 :: nat"
abbreviation (input) "EPC \<equiv> 6 :: nat"
abbreviation (input) "EBADADDR \<equiv> 7 :: nat"
abbreviation (input) "TBMISSADDR \<equiv> 9 :: nat"
abbreviation (input) "TBPC \<equiv> 10 :: nat"
abbreviation (input) "ITBPTE \<equiv> 16 :: nat"
abbreviation (input) "ITBTAG \<equiv> 17 :: nat"
abbreviation (input) "ITBINDEX \<equiv> 18 :: nat"
abbreviation (input) "ITBCTRL \<equiv> 19 :: nat"
abbreviation (input) "ICACHECTRL \<equiv> 20 :: nat"
abbreviation (input) "ITBADDR \<equiv> 21 :: nat"
abbreviation (input) "DTBPTE \<equiv> 24 :: nat"
abbreviation (input) "DTBTAG \<equiv> 25 :: nat"
abbreviation (input) "DTBINDEX \<equiv> 26 :: nat"
abbreviation (input) "DTBCTRL \<equiv> 27 :: nat"
abbreviation (input) "DCACHECTRL \<equiv> 28 :: nat"
abbreviation (input) "DTBADDR \<equiv> 29 :: nat"

text \<open>Bits of \<open>RS\<close> and exception codes.\<close>

abbreviation (input) "RS_USER \<equiv> 1 :: u32"
abbreviation (input) "RS_INT \<equiv> 2 :: u32"
abbreviation (input) "RS_MMU \<equiv> 4 :: u32"
abbreviation (input) "RS_TBMISS \<equiv> 8 :: u32"
abbreviation (input) "RS_LEGACY \<equiv> 128 :: u32"

abbreviation (input) "XR_EXC_INT \<equiv> 1 :: u32"
abbreviation (input) "XR_EXC_SYS \<equiv> 2 :: u32"
abbreviation (input) "XR_EXC_BUS \<equiv> 4 :: u32"
abbreviation (input) "XR_EXC_NMI \<equiv> 5 :: u32"
abbreviation (input) "XR_EXC_BRK \<equiv> 6 :: u32"
abbreviation (input) "XR_EXC_INV \<equiv> 7 :: u32"
abbreviation (input) "XR_EXC_PRV \<equiv> 8 :: u32"
abbreviation (input) "XR_EXC_UNA \<equiv> 9 :: u32"
abbreviation (input) "XR_EXC_PGF \<equiv> 12 :: u32"
abbreviation (input) "XR_EXC_PGW \<equiv> 13 :: u32"
abbreviation (input) "XR_EXC_ITB \<equiv> 14 :: u32"
abbreviation (input) "XR_EXC_DTB \<equiv> 15 :: u32"
end
