(* ===== verification/Exceptions.thy ===== *)
theory Exceptions
  imports XrProc
begin

text \<open>
  Reset and exception entry, \<^verbatim>\<open>src/src/xr17032fast.c\<close> lines 503-629, with the register
  part of the return from an exception (\<open>XrExecuteRfe\<close>, line 1120) they are paired with:
  the mode stack of \<open>RS\<close>, the exception cause field and the vector.
\<close>

section \<open>Reset\<close>

definition XrReset :: "XrProcessor \<Rightarrow> XrProcessor" where
  "XrReset proc = proc\<lparr>
     Pc := 0xFFFE1000,
     Cr := (Cr proc)(RS := 0, EB := 0,
             ICACHECTRL := push_bit 16 11 OR push_bit 8 1 OR 4,
             DCACHECTRL := push_bit 16 11 OR push_bit 8 1 OR 4,
             WHAMI := of_nat (ProcId proc)),
     Reg := (Reg proc)(XR_FAKE_ZERO_REGISTER := 0),
     ItbLastVpn := - 1,
     DtbLastVpn := - 1,
     IcReplacementIndex := 0,
     DcReplacementIndex := 0,
     WbWriteIndex := 0,
     WbCycles := 0,
     WbFillIndex := 0,
     WbIndices := (\<lambda>i. if i < XR_WB_DEPTH then XR_CACHE_INDEX_INVALID else WbIndices proc i),
     DcIndexToWbIndex := (\<lambda>i. if i < XR_DC_LINE_COUNT then XR_WB_INDEX_INVALID
                               else DcIndexToWbIndex proc i),
     PauseCalls := 0,
     NmiMaskCounter := NMI_MASK_CYCLES,
     LastTbMissWasWrite := False,
     UserBreak := False,
     Halted := False,
     Running := True,
     Dispatches := 0\<rparr>"

section \<open>Exception entry\<close>

definition XrPushMode :: "XrProcessor \<Rightarrow> XrProcessor" where
  "XrPushMode proc = proc\<lparr>Cr := (Cr proc)(RS :=
     (Cr proc RS AND 0xFF0000FF) OR push_bit 8 (Cr proc RS AND 0xFFFF))\<rparr>"

definition XrSetEcause :: "XrProcessor \<Rightarrow> u32 \<Rightarrow> XrProcessor" where
  "XrSetEcause proc exc = proc\<lparr>Cr := (Cr proc)(RS :=
     (Cr proc RS AND 0x0FFFFFFF) OR push_bit 28 exc)\<rparr>"

definition XrVectorException :: "XrProcessor \<Rightarrow> u32 \<Rightarrow> XrProcessor" where
  "XrVectorException proc exc =
    (if Cr proc EB = 0 then XrReset proc
     else
       let newmode = Cr proc RS AND 0xFC;
           newmode = (if Cr proc RS AND RS_LEGACY \<noteq> 0 then newmode AND NOT RS_MMU else newmode)
       in proc\<lparr>Pc := Cr proc EB OR push_bit 8 exc,
               Cr := (Cr proc)(RS := (Cr proc RS AND 0xFFFFFF00) OR newmode),
               NmiMaskCounter := NMI_MASK_CYCLES,
               Progress := XR_POLL_MAX\<rparr>)"

definition XrBasicException :: "XrProcessor \<Rightarrow> u32 \<Rightarrow> u32 \<Rightarrow> XrProcessor" where
  "XrBasicException proc exc pc =
    XrVectorException (XrSetEcause (XrPushMode (proc\<lparr>Cr := (Cr proc)(EPC := pc)\<rparr>)) exc) exc"

text \<open>
  The state change of \<open>XrExecuteRfe\<close> once the privilege check has passed (lines 1135-1141).
\<close>

definition XrRfeRestore :: "XrProcessor \<Rightarrow> XrProcessor" where
  "XrRfeRestore proc = proc\<lparr>
     Pc := (if Cr proc RS AND RS_TBMISS \<noteq> 0 then Cr proc TBPC else Cr proc EPC),
     Cr := (Cr proc)(RS := (Cr proc RS AND 0xF0000000) OR (drop_bit 8 (Cr proc RS) AND 0xFFFF))\<rparr>"

section \<open>The status register\<close>

text \<open>
  \<open>RS\<close> is a stack of three mode bytes (current mode in bits 0-7) below four unused bits and
  the exception cause in bits 28-31.
\<close>

definition mode_byte :: "u32 \<Rightarrow> nat \<Rightarrow> u32" where
  "mode_byte rs k = take_bit 8 (drop_bit (8 * k) rs)"

definition ecause :: "u32 \<Rightarrow> u32" where
  "ecause rs = drop_bit 28 rs"

text \<open>What exception entry makes of a mode: user and interrupt bits cleared, and the MMU bit too
  when legacy exceptions are on.\<close>

definition entry_mode :: "u32 \<Rightarrow> u32" where
  "entry_mode m = (if bit m 7 then m AND 0xF8 else m AND 0xFC)"

lemma rs_masks:
  "(0xFF0000FF :: u32) = mask 32 AND NOT (push_bit 8 (mask 16))"
  "(0xFFFF :: u32) = mask 16" "(0x0FFFFFFF :: u32) = mask 28"
  "(0xFFFFFF00 :: u32) = push_bit 8 (mask 24)" "(0xF0000000 :: u32) = push_bit 28 (mask 4)"
  "(0xFC :: u32) = push_bit 2 (mask 6)" "(0xF8 :: u32) = push_bit 3 (mask 5)"
  "(NOT RS_MMU :: u32) = NOT (push_bit 2 1)"
  by (simp_all add: mask_eq_exp_minus_1)

lemma bit_push_mode:
  "n < 32 \<Longrightarrow> bit (Cr (XrPushMode proc) RS) n \<longleftrightarrow>
     (if n < 8 then bit (Cr proc RS) n
      else if n < 24 then bit (Cr proc RS) (n - 8) else bit (Cr proc RS) n)"
  unfolding XrPushMode_def rs_masks by (auto simp: bit_simps)

text \<open>The status word after the whole entry sequence, bit by bit.\<close>

lemma bit_set_ecause:
  "n < 32 \<Longrightarrow> bit (Cr (XrSetEcause proc exc) RS) n \<longleftrightarrow>
     (if n < 28 then bit (Cr proc RS) n else bit exc (n - 28))"
  unfolding XrSetEcause_def rs_masks by (auto simp: bit_simps)

lemma bit_vector:
  assumes "Cr proc EB \<noteq> 0" "n < 32"
  shows "bit (Cr (XrVectorException proc exc) RS) n \<longleftrightarrow>
     (if n < 8 then 2 \<le> n \<and> bit (Cr proc RS) n \<and> \<not> (n = 2 \<and> bit (Cr proc RS) 7)
      else bit (Cr proc RS) n)"
  using assms(2)
  by (simp only: XrVectorException_def Let_def assms(1) if_False flag_bits_u32 rs_masks)
     (auto simp: bit_simps bit_u32_numerals simp del: bit_numeral_word_iff)

lemma push_mode_simps [simp]:
  "j \<noteq> RS \<Longrightarrow> Cr (XrPushMode proc) j = Cr proc j" "Reg (XrPushMode proc) = Reg proc"
  "Pc (XrPushMode proc) = Pc proc"
  by (simp_all add: XrPushMode_def)

lemma set_ecause_simps [simp]:
  "j \<noteq> RS \<Longrightarrow> Cr (XrSetEcause proc exc) j = Cr proc j" "Reg (XrSetEcause proc exc) = Reg proc"
  "Pc (XrSetEcause proc exc) = Pc proc"
  by (simp_all add: XrSetEcause_def)

lemma vector_simps:
  assumes "Cr proc EB \<noteq> 0"
  shows "j \<noteq> RS \<Longrightarrow> Cr (XrVectorException proc exc) j = Cr proc j"
    "Reg (XrVectorException proc exc) = Reg proc"
    "Pc (XrVectorException proc exc) = Cr proc EB OR push_bit 8 exc"
  using assms by (simp_all add: XrVectorException_def Let_def)

lemma bit_basic_exception:
  assumes "Cr proc EB \<noteq> 0" "n < 32"
  shows "bit (Cr (XrBasicException proc exc pc) RS) n \<longleftrightarrow>
     (if n < 8 then 2 \<le> n \<and> bit (Cr proc RS) n \<and> \<not> (n = 2 \<and> bit (Cr proc RS) 7)
      else if n < 24 then bit (Cr proc RS) (n - 8)
      else if n < 28 then bit (Cr proc RS) n
      else bit exc (n - 28))"
  using assms by (auto simp: XrBasicException_def bit_vector bit_set_ecause bit_push_mode)

lemma basic_exception_simps:
  assumes "Cr proc EB \<noteq> 0"
  shows "j \<noteq> RS \<Longrightarrow> Cr (XrBasicException proc exc pc) j = (if j = EPC then pc else Cr proc j)"
    "Reg (XrBasicException proc exc pc) = Reg proc"
    "Pc (XrBasicException proc exc pc) = Cr proc EB OR push_bit 8 exc"
  using assms by (simp_all add: XrBasicException_def vector_simps)

lemma bit_rfe:
  "n < 32 \<Longrightarrow> bit (Cr (XrRfeRestore proc) RS) n \<longleftrightarrow>
     (if n < 16 then bit (Cr proc RS) (n + 8) else 28 \<le> n \<and> bit (Cr proc RS) n)"
  unfolding XrRfeRestore_def rs_masks by (auto simp: bit_simps ac_simps)

lemma rfe_pc: "Pc (XrRfeRestore proc) = (if bit (Cr proc RS) 3 then Cr proc TBPC else Cr proc EPC)"
  by (simp add: XrRfeRestore_def flag_bits_u32)

lemma rfe_simps [simp]:
  "j \<noteq> RS \<Longrightarrow> Cr (XrRfeRestore proc) j = Cr proc j" "Reg (XrRfeRestore proc) = Reg proc"
  by (simp_all add: XrRfeRestore_def)

lemma take_bit_eqI:
  "(\<And>n. n < k \<Longrightarrow> bit v n = bit w n) \<Longrightarrow> take_bit k v = take_bit k (w :: u32)"
  by (rule bit_eqI) (auto simp: bit_take_bit_iff)

lemma ecause_eqI:
  assumes "\<And>n. n < 4 \<Longrightarrow> bit rs (28 + n) = bit exc n"
  shows "ecause rs = take_bit 4 exc"
proof (rule bit_eqI)
  fix n
  show "bit (ecause rs) n = bit (take_bit 4 exc) n"
    using assms by (cases "n < 4") (auto simp: ecause_def bit_simps dest: bit_imp_le_length)
qed

section \<open>Properties\<close>

text \<open>
  Claim C15. Exception entry with a vector base installed runs the handler at the vector of
  its code in kernel mode with interrupts off, records the code and the return address, and
  leaves the general registers alone; with no base installed it resets the processor.
\<close>

theorem exception_entry:
  "(Cr proc EB \<noteq> 0 \<longrightarrow>
     Pc (XrBasicException proc exc pc) = Cr proc EB OR push_bit 8 exc \<and>
     Cr (XrBasicException proc exc pc) RS AND (RS_USER OR RS_INT) = 0 \<and>
     ecause (Cr (XrBasicException proc exc pc) RS) = take_bit 4 exc \<and>
     mode_byte (Cr (XrBasicException proc exc pc) RS) 1 = mode_byte (Cr proc RS) 0 \<and>
     mode_byte (Cr (XrBasicException proc exc pc) RS) 2 = mode_byte (Cr proc RS) 1 \<and>
     Cr (XrBasicException proc exc pc) EPC = pc \<and>
     Reg (XrBasicException proc exc pc) = Reg proc) \<and>
   (Cr proc EB = 0 \<longrightarrow>
     Pc (XrBasicException proc exc pc) = 0xFFFE1000 \<and> Cr (XrBasicException proc exc pc) RS = 0)"
proof (intro conjI impI)
  assume eb: "Cr proc EB \<noteq> 0"
  let ?rs = "Cr (XrBasicException proc exc pc) RS"
  show "Pc (XrBasicException proc exc pc) = Cr proc EB OR push_bit 8 exc"
    "Cr (XrBasicException proc exc pc) EPC = pc" "Reg (XrBasicException proc exc pc) = Reg proc"
    using eb by (simp_all add: basic_exception_simps)
  have "?rs AND mask 2 = 0"
    by (rule bit_eqI) (auto simp: bit_simps bit_basic_exception eb)
  then show "?rs AND (RS_USER OR RS_INT) = 0" by (simp add: mask_eq_exp_minus_1)
  show "ecause ?rs = take_bit 4 exc"
    by (rule ecause_eqI) (simp add: bit_basic_exception eb)
  show "mode_byte ?rs 1 = mode_byte (Cr proc RS) 0" "mode_byte ?rs 2 = mode_byte (Cr proc RS) 1"
    unfolding mode_byte_def by (rule bit_eqI; auto simp: bit_simps bit_basic_exception eb)+
next
  assume "Cr proc EB = 0"
  then show "Pc (XrBasicException proc exc pc) = 0xFFFE1000" "Cr (XrBasicException proc exc pc) RS = 0"
    by (simp_all add: XrBasicException_def XrVectorException_def XrReset_def)
qed

text \<open>
  Returning from an exception taken outside a TB miss handler resumes at the
  recorded address with the two innermost modes and the general registers as they were
  before the exception, and with the cause of the exception still in \<open>RS\<close>.
\<close>

theorem exception_return_roundtrip:
  assumes "Cr proc EB \<noteq> 0" and "Cr proc RS AND RS_TBMISS = 0"
  shows "let proc' = XrRfeRestore (XrBasicException proc exc pc) in
     Pc proc' = pc \<and> Reg proc' = Reg proc \<and>
     take_bit 16 (Cr proc' RS) = take_bit 16 (Cr proc RS) \<and>
     ecause (Cr proc' RS) = take_bit 4 exc \<and>
     (\<forall>j. j \<noteq> RS \<and> j \<noteq> EPC \<longrightarrow> Cr proc' j = Cr proc j)"
proof -
  have t: "\<not> bit (Cr proc RS) 3" using assms(2) flag_bits_u32 by blast
  have "take_bit 16 (Cr (XrRfeRestore (XrBasicException proc exc pc)) RS) = take_bit 16 (Cr proc RS)"
    by (rule take_bit_eqI) (simp add: bit_rfe bit_basic_exception assms(1))
  moreover have "ecause (Cr (XrRfeRestore (XrBasicException proc exc pc)) RS) = take_bit 4 exc"
    by (rule ecause_eqI) (simp add: bit_rfe bit_basic_exception assms(1))
  ultimately show ?thesis
    using assms(1) t by (simp add: Let_def rfe_pc bit_basic_exception basic_exception_simps)
qed

text \<open>A processor with every field zero but the one named.\<close>

definition proc_zero :: XrProcessor where
  "proc_zero = \<lparr>Itb = (\<lambda>_. 0xFFF0000000000000), Dtb = (\<lambda>_. 0xFFF0000000000000),
     ItbLastResult = 0, ItbLastVpn = - 1, DtbLastVpn = - 1, DtbLastResult = 0,
     Ibc = \<lparr>Iblocks = (\<lambda>_. \<lparr>IbVpage = 0, CachedPaths = (\<lambda>_. None), CachedBy = (\<lambda>_. None), IbPc = 0,
              IbAsid = 0, IbCycles = 0, CachedByFifoIndex = 0, PteFlags = 0, HasPtable = False,
              Insts = (\<lambda>_. \<lparr>Func = FSys ExecuteIllegalInstruction, Imm32_1 = 0, Imm8_1 = 0, Imm8_2 = 0\<rparr>)\<rparr>),
            Ptables = (\<lambda>_. \<lparr>PtIblocks = (\<lambda>_. None), PtPcs = (\<lambda>_. 0)\<rparr>),
            Vpages = (\<lambda>_. \<lparr>IblockVpnList = [], VpVpn = 0, References = 0\<rparr>),
            IblockFreeList = [], PtableFreeList = [], VpageFreeList = [], IblockLruList = [],
            IblockHashBuckets = (\<lambda>_. []), VpageHashBuckets = (\<lambda>_. [])\<rparr>,
     IcTags = (\<lambda>_. 0), DcTags = (\<lambda>_. 0), WbIndices = (\<lambda>_. XR_CACHE_INDEX_INVALID),
     TimerInterruptCounter = 0, WbFillIndex = 0, WbWriteIndex = 0, WbCycles = 0,
     Reg = (\<lambda>_. 0), Cr = (\<lambda>_. 0), Pc = 0, Dispatches = 0, ProcId = 0, Progress = 0,
     CyclesDone = 0, CyclesGoal = 0, PauseCalls = 0, CyclesThisRound = 0,
     IcReplacementIndex = 0, DcReplacementIndex = 0, Ic = (\<lambda>_. 0), Dc = (\<lambda>_. 0),
     IcFlags = (\<lambda>_. XR_LINE_INVALID), DcFlags = (\<lambda>_. XR_LINE_INVALID),
     DcIndexToWbIndex = (\<lambda>_. XR_WB_INDEX_INVALID), NmiMaskCounter = 0, Locked = False,
     LastTbMissWasWrite = False, UserBreak = False, Halted = False, Running = True, NoMore = False\<rparr>"

lemma exception_return_roundtrip_witness:
  "Pc (XrRfeRestore (XrBasicException (proc_zero\<lparr>Cr := (\<lambda>_. 0)(EB := 0x1000, RS := 7)\<rparr>)
     XR_EXC_SYS 0x2004)) = 0x2004"
  using exception_return_roundtrip [of "proc_zero\<lparr>Cr := (\<lambda>_. 0)(EB := 0x1000, RS := 7)\<rparr>"
      XR_EXC_SYS "0x2004"] by (simp add: Let_def)

lemma exception_entry_witness:
  "Pc (XrBasicException (proc_zero\<lparr>Cr := (\<lambda>_. 0)(EB := 0x1000, RS := 7)\<rparr>) XR_EXC_SYS 0x2004) = 0x1200"
  using exception_entry [of "proc_zero\<lparr>Cr := (\<lambda>_. 0)(EB := 0x1000, RS := 7)\<rparr>" XR_EXC_SYS "0x2004"]
  by simp

end
