(* ===== verification/XrTb.thy ===== *)
theory XrTb
  imports Exceptions
begin

text \<open>
  Address translation, \<^verbatim>\<open>src/src/xraccess.inc.c\<close> (\<open>XrLookupItb\<close>, \<open>XrLookupDtb\<close>,
  \<open>XrTranslate\<close>): the two 32-entry translation buffers, the one-entry lookup hints, the
  software-handled miss (which saves the missed address and pushes the mode once, at the
  outermost miss), page faults, and the checks of user and write access.
\<close>

abbreviation (input) "XR_TB_SIZE \<equiv> 32 :: nat"
abbreviation (input) "PTE_VALID \<equiv> 1 :: u64"
abbreviation (input) "PTE_WRITABLE \<equiv> 2 :: u64"
abbreviation (input) "PTE_KERNEL \<equiv> 4 :: u64"
abbreviation (input) "PTE_NONCACHED \<equiv> 8 :: u64"
abbreviation (input) "PTE_GLOBAL \<equiv> 16 :: u64"

section \<open>Lookup\<close>

text \<open>The match test of one entry: a global entry is compared by page number only.\<close>

definition tb_match :: "u32 \<Rightarrow> u64 \<Rightarrow> bool" where
  "tb_match matching tmp =
    (let mask = (if tmp AND PTE_GLOBAL \<noteq> 0 then 0xFFFFF else 0xFFFFFFFF :: u32)
     in drop_bit 32 tmp AND ucast mask = ucast (matching AND mask))"

text \<open>The miss path common to both buffers saves the address once per nested series of misses.\<close>

definition tb_miss_enter :: "u32 \<Rightarrow> XrProcessor \<Rightarrow> XrProcessor" where
  "tb_miss_enter virtual proc =
    (if Cr proc RS AND RS_TBMISS = 0 then
       let p = XrPushMode proc
       in p\<lparr>Cr := (Cr p)(TBMISSADDR := virtual, TBPC := Pc p, RS := Cr p RS OR RS_TBMISS)\<rparr>
     else proc)"

definition XrLookupItb :: "XrProcessor \<Rightarrow> u32 \<Rightarrow> u64 option \<times> XrProcessor" where
  "XrLookupItb proc virtual =
    (let vpn = drop_bit 12 virtual;
         matching = (Cr proc ITBTAG AND 0xFFF00000) OR vpn
     in case List.find (\<lambda>i. tb_match matching (Itb proc i)) [0..<XR_TB_SIZE] of
          Some i \<Rightarrow> (Some (Itb proc i), proc)
        | None \<Rightarrow>
            let proc = proc\<lparr>Cr := (Cr proc)(ITBTAG := matching,
                           ITBADDR := (Cr proc ITBADDR AND 0xFFC00000) OR push_bit 2 vpn),
                         LastTbMissWasWrite := False\<rparr>
            in (None, XrVectorException (tb_miss_enter virtual proc) XR_EXC_ITB))"

definition XrLookupDtb :: "XrProcessor \<Rightarrow> u32 \<Rightarrow> bool \<Rightarrow> u64 option \<times> XrProcessor" where
  "XrLookupDtb proc virtual writing =
    (let vpn = drop_bit 12 virtual;
         matching = (Cr proc DTBTAG AND 0xFFF00000) OR vpn
     in case List.find (\<lambda>i. tb_match matching (Dtb proc i)) [0..<XR_TB_SIZE] of
          Some i \<Rightarrow> (Some (Dtb proc i), proc)
        | None \<Rightarrow>
            let proc = proc\<lparr>Cr := (Cr proc)(DTBTAG := matching,
                           DTBADDR := (Cr proc DTBADDR AND 0xFFC00000) OR push_bit 2 vpn),
                         LastTbMissWasWrite := writing\<rparr>
            in (None, XrVectorException (tb_miss_enter virtual proc) XR_EXC_DTB))"

section \<open>Translation\<close>

text \<open>The entry \<open>XrTranslate\<close> works with: the hint if it is for this page, else a lookup.\<close>

definition tb_entry :: "XrProcessor \<Rightarrow> u32 \<Rightarrow> bool \<Rightarrow> bool \<Rightarrow> u64 option \<times> XrProcessor" where
  "tb_entry proc virtual writing ifetch =
    (let vpn = drop_bit 12 virtual
     in if ifetch then
          (if ItbLastVpn proc = vpn then (Some (ItbLastResult proc), proc)
           else XrLookupItb proc virtual)
        else
          (if DtbLastVpn proc = vpn then (Some (ucast (DtbLastResult proc)), proc)
           else XrLookupDtb proc virtual writing))"

definition page_fault_code :: "bool \<Rightarrow> u32" where
  "page_fault_code writing = (if writing then XR_EXC_PGW else XR_EXC_PGF)"

text \<open>The invalid-entry path: inside a miss handler the original miss is reported.\<close>

definition page_fault :: "XrProcessor \<Rightarrow> u32 \<Rightarrow> bool \<Rightarrow> XrProcessor" where
  "page_fault proc virtual writing =
    (if Cr proc RS AND RS_TBMISS \<noteq> 0 then
       let p = proc\<lparr>Cr := (Cr proc)(EBADADDR := Cr proc TBMISSADDR, EPC := Cr proc TBPC,
                     RS := Cr proc RS AND NOT RS_TBMISS)\<rparr>;
           writing = LastTbMissWasWrite proc
       in XrVectorException (XrSetEcause p (page_fault_code writing)) (page_fault_code writing)
     else
       let p = XrPushMode (proc\<lparr>Cr := (Cr proc)(EBADADDR := virtual, EPC := Pc proc)\<rparr>)
       in XrVectorException (XrSetEcause p (page_fault_code writing)) (page_fault_code writing))"

definition XrTranslate ::
    "XrProcessor \<Rightarrow> u32 \<Rightarrow> bool \<Rightarrow> bool \<Rightarrow> (u32 \<times> u32) option \<times> XrProcessor" where
  "XrTranslate proc virtual writing ifetch =
    (case tb_entry proc virtual writing ifetch of
       (None, proc) \<Rightarrow> (None, proc)
     | (Some tbe, proc) \<Rightarrow>
         if tbe AND PTE_VALID = 0 then (None, page_fault proc virtual writing)
         else if tbe AND PTE_KERNEL \<noteq> 0 \<and> Cr proc RS AND RS_USER \<noteq> 0 then
           (None, XrBasicException (proc\<lparr>Cr := (Cr proc)(EBADADDR := virtual)\<rparr>)
                    (page_fault_code writing) (Pc proc))
         else if writing \<and> tbe AND PTE_WRITABLE = 0 then
           (None, XrBasicException (proc\<lparr>Cr := (Cr proc)(EBADADDR := virtual)\<rparr>)
                    (page_fault_code writing) (Pc proc))
         else
           (Some (ucast (push_bit 7 (tbe AND 0x1FFFFE0) + ucast (virtual AND 0xFFF)),
                  ucast (tbe AND 31)),
            if ifetch then proc\<lparr>ItbLastVpn := drop_bit 12 virtual, ItbLastResult := tbe\<rparr>
            else proc\<lparr>DtbLastVpn := drop_bit 12 virtual, DtbLastResult := ucast tbe\<rparr>))"

section \<open>Hints\<close>

text \<open>
  A hint names an entry that is still in the buffer. A virtual page number has 20 bits, so
  the reset value \<open>-1\<close> of the hint matches no address.
\<close>

definition itb_hint_ok :: "XrProcessor \<Rightarrow> bool" where
  "itb_hint_ok proc \<longleftrightarrow> (ItbLastVpn proc = - 1 \<or>
     (\<exists>i<XR_TB_SIZE. tb_match ((Cr proc ITBTAG AND 0xFFF00000) OR ItbLastVpn proc) (Itb proc i) \<and>
        Itb proc i = ItbLastResult proc))"

definition dtb_hint_ok :: "XrProcessor \<Rightarrow> bool" where
  "dtb_hint_ok proc \<longleftrightarrow> (DtbLastVpn proc = - 1 \<or>
     (\<exists>i<XR_TB_SIZE. tb_match ((Cr proc DTBTAG AND 0xFFF00000) OR DtbLastVpn proc) (Dtb proc i) \<and>
        ucast (Dtb proc i) = DtbLastResult proc))"

lemma vpn_neq_minus_1: "drop_bit 12 (v :: u32) \<noteq> - 1"
proof
  assume "drop_bit 12 v = - 1"
  then have "bit (drop_bit 12 v) 31" by (simp only: bit_minus_1_iff) simp
  then show False by (auto simp: bit_drop_bit_eq dest: bit_imp_le_length)
qed

text \<open>The bits of an entry that translation uses lie in its low half.\<close>

lemma low_half_and:
  "ucast (ucast (e :: u64) :: u32) AND (m :: u64) = e AND m" if "m AND 0xFFFFFFFF = m"
proof (rule bit_eqI)
  fix n
  have m: "m AND mask 32 = m" using that by (simp add: mask_eq_exp_minus_1)
  have "bit m n \<Longrightarrow> n < 32"
    by (subst (asm) m [symmetric]) (simp add: bit_and_iff bit_mask_iff)
  then show "bit (ucast (ucast e :: u32) AND m) n = bit (e AND m) n"
    by (auto simp: bit_simps)
qed

lemma ucast_up_down [simp]: "ucast (ucast (x :: u32) :: u64) = x"
  by (rule bit_eqI) (auto simp: bit_simps dest: bit_imp_le_length)

text \<open>The entry used by a successful translation, and what was checked.\<close>

lemma XrTranslate_Some:
  assumes "XrTranslate proc v w f = (Some (pa, fl), proc')"
  obtains tbe where "tb_entry proc v w f = (Some tbe, proc)"
    "tbe AND PTE_VALID \<noteq> 0" "tbe AND PTE_KERNEL \<noteq> 0 \<longrightarrow> Cr proc RS AND RS_USER = 0"
    "w \<longrightarrow> tbe AND PTE_WRITABLE \<noteq> 0"
    "pa = ucast (push_bit 7 (tbe AND 0x1FFFFE0) + ucast (v AND 0xFFF))" "fl = ucast (tbe AND 31)"
    "proc' = (if f then proc\<lparr>ItbLastVpn := drop_bit 12 v, ItbLastResult := tbe\<rparr>
              else proc\<lparr>DtbLastVpn := drop_bit 12 v, DtbLastResult := ucast tbe\<rparr>)"
proof -
  obtain r p where e: "tb_entry proc v w f = (r, p)" by (rule prod.exhaust)
  then obtain tbe where r: "r = Some tbe"
    using assms by (cases r) (simp_all add: XrTranslate_def)
  have p: "p = proc"
    using e unfolding r
    by (auto simp: tb_entry_def XrLookupItb_def XrLookupDtb_def Let_def split: if_splits option.splits)
  show thesis
    by (rule that) (use assms e r p in \<open>auto simp: XrTranslate_def split: if_splits\<close>)
qed

lemma tb_entry_Some:
  assumes "tb_entry proc v w f = (Some tbe, p)" "itb_hint_ok proc" "dtb_hint_ok proc"
  obtains i where "i < XR_TB_SIZE"
    "tb_match ((Cr proc (if f then ITBTAG else DTBTAG) AND 0xFFF00000) OR drop_bit 12 v)
       (if f then Itb proc i else Dtb proc i)"
    "ucast tbe = (ucast (if f then Itb proc i else Dtb proc i) :: u32)"
    "f \<Longrightarrow> tbe = Itb proc i"
proof (cases f)
  case True
  then show thesis
    using assms(1,2) that
    by (auto simp: tb_entry_def itb_hint_ok_def XrLookupItb_def Let_def vpn_neq_minus_1
        split: if_splits option.splits dest!: find_upt_SomeD)
next
  case False
  then show thesis
    using assms(1,3) that
    by (auto simp: tb_entry_def dtb_hint_ok_def XrLookupDtb_def Let_def vpn_neq_minus_1
        split: if_splits option.splits dest!: find_upt_SomeD)
qed


text \<open>The low bits of an entry, as the checks and the physical address read them.\<close>

lemma ucast_and_low:
  "ucast (a :: u64) = (ucast (b :: u64) :: u32) \<Longrightarrow> m AND 0xFFFFFFFF = m \<Longrightarrow> a AND m = b AND m"
  using low_half_and [of m a] low_half_and [of m b] by simp

lemma phys_arith:
  fixes e :: u64 and v :: u32
  shows "unat (ucast (push_bit 7 (e AND 0x1FFFFE0) + ucast (v AND 0xFFF)) :: u32)
    = unat e div 32 mod 2 ^ 20 * 4096 + unat v mod 4096"
proof -
  have m1: "(0x1FFFFE0 :: u64) = push_bit 5 (mask 20)" and m2: "(0xFFF :: u32) = mask 12"
    by (simp_all add: mask_eq_exp_minus_1)
  have "e AND push_bit 5 (mask 20) = push_bit 5 (take_bit 20 (drop_bit 5 e))"
    by (rule bit_eqI) (auto simp: bit_simps)
  then have "push_bit 7 (e AND 0x1FFFFE0) = push_bit 12 (take_bit 20 (drop_bit 5 e))"
    unfolding m1 by simp
  also have "unat \<dots> = unat e div 32 mod 2 ^ 20 * 2 ^ 12"
  proof -
    have "unat (take_bit 20 (drop_bit 5 e)) = unat e div 32 mod 2 ^ 20"
      by (simp only: unsigned_take_bit_eq unat_drop_bit) (simp add: take_bit_eq_mod)
    moreover have "unat e div 32 mod 2 ^ 20 * 2 ^ 12 < 2 ^ 64"
      using mod_less_divisor [of "2 ^ 20" "unat e div 32"] by (simp add: less_imp_le_nat)
    ultimately show ?thesis
      by (simp add: push_bit_eq_mult unat_word_ariths)
  qed
  finally have h: "unat (push_bit 7 (e AND 0x1FFFFE0)) = unat e div 32 mod 2 ^ 20 * 2 ^ 12" .
  have l: "unat (ucast (v AND 0xFFF) :: u64) = unat v mod 4096"
    unfolding m2 by (simp add: unat_ucast_mod unat_and_mask)
  have "unat e div 32 mod 2 ^ 20 * 2 ^ 12 + unat v mod 4096 < 2 ^ 32"
  proof -
    have "unat e div 32 mod 2 ^ 20 \<le> 2 ^ 20 - 1" by simp
    then show ?thesis by simp
  qed
  then show ?thesis
    using h l by (simp add: unat_ucast_mod unat_word_ariths)
qed


section \<open>Miss and return\<close>

lemma bit_tb_miss_enter:
  "n < 32 \<Longrightarrow> bit (Cr (tb_miss_enter v proc) RS) n \<longleftrightarrow>
     (if bit (Cr proc RS) 3 then bit (Cr proc RS) n
      else n = 3 \<or> bit (Cr (XrPushMode proc) RS) n)"
  by (auto simp: tb_miss_enter_def Let_def flag_zero_u32 bit_or_iff bit_u32_numerals
      simp del: bit_numeral_word_iff)

lemma tb_miss_enter_simps:
  "\<not> bit (Cr proc RS) 3 \<Longrightarrow> Cr (tb_miss_enter v proc) TBPC = Pc proc"
  "\<not> bit (Cr proc RS) 3 \<Longrightarrow> Cr (tb_miss_enter v proc) TBMISSADDR = v"
  "bit (Cr proc RS) 3 \<Longrightarrow> tb_miss_enter v proc = proc"
  "j \<notin> {RS, TBPC, TBMISSADDR} \<Longrightarrow> Cr (tb_miss_enter v proc) j = Cr proc j"
  "Reg (tb_miss_enter v proc) = Reg proc"
  by (auto simp: tb_miss_enter_def Let_def flag_zero_u32)

text \<open>
  Both lookups miss in the same way: they differ in the tag and address registers, which
  take no part in what follows, and in the vector.
\<close>

lemma lookup_None:
  assumes "XrLookupItb proc v = (None, p) \<or> XrLookupDtb proc v w = (None, p)"
  obtains proc0 exc where "p = XrVectorException (tb_miss_enter v proc0) exc"
    "Cr proc0 RS = Cr proc RS" "Cr proc0 EB = Cr proc EB" "Pc proc0 = Pc proc"
    "Cr proc0 TBPC = Cr proc TBPC" "Cr proc0 TBMISSADDR = Cr proc TBMISSADDR"
    "Reg proc0 = Reg proc"
proof (cases "XrLookupItb proc v = (None, p)")
  case True
  then have "p = XrVectorException (tb_miss_enter v (proc\<lparr>Cr := (Cr proc)(
      ITBTAG := (Cr proc ITBTAG AND 0xFFF00000) OR drop_bit 12 v,
      ITBADDR := (Cr proc ITBADDR AND 0xFFC00000) OR push_bit 2 (drop_bit 12 v)),
      LastTbMissWasWrite := False\<rparr>)) XR_EXC_ITB"
    by (auto simp: XrLookupItb_def Let_def split: option.splits)
  then show thesis by (rule that) simp_all
next
  case False
  then have "XrLookupDtb proc v w = (None, p)" using assms by blast
  then have "p = XrVectorException (tb_miss_enter v (proc\<lparr>Cr := (Cr proc)(
      DTBTAG := (Cr proc DTBTAG AND 0xFFF00000) OR drop_bit 12 v,
      DTBADDR := (Cr proc DTBADDR AND 0xFFC00000) OR push_bit 2 (drop_bit 12 v)),
      LastTbMissWasWrite := w\<rparr>)) XR_EXC_DTB"
    by (auto simp: XrLookupDtb_def Let_def split: option.splits)
  then show thesis by (rule that) simp_all
qed

section \<open>Properties\<close>


text \<open>A processor with one valid, writable, user entry for page 5 in each buffer, in mode \<open>rs\<close>.\<close>

definition tb_sample :: "u32 \<Rightarrow> XrProcessor" where
  "tb_sample rs = proc_zero\<lparr>Itb := (Itb proc_zero)(7 := 0x0000000500000023),
     Dtb := (Dtb proc_zero)(7 := 0x0000000500000023), Cr := (\<lambda>_. 0)(EB := 0x1000, RS := rs),
     Pc := 0x5008\<rparr>"

lemma tb_sample_simps:
  "Itb (tb_sample rs) i = (if i = 7 then 0x0000000500000023 else 0xFFF0000000000000)"
  "Dtb (tb_sample rs) i = (if i = 7 then 0x0000000500000023 else 0xFFF0000000000000)"
  "Cr (tb_sample rs) = (\<lambda>_. 0)(EB := 0x1000, RS := rs)" "Pc (tb_sample rs) = 0x5008"
  "ItbLastVpn (tb_sample rs) = - 1" "DtbLastVpn (tb_sample rs) = - 1"
  by (simp_all add: tb_sample_def proc_zero_def)

lemma tb_sample_match:
  "tb_match 5 0x0000000500000023" "\<not> tb_match 5 0xFFF0000000000000"
  "\<not> tb_match 9 0x0000000500000023" "\<not> tb_match 9 0xFFF0000000000000"
  "\<not> tb_match 10 0x0000000500000023" "\<not> tb_match 10 0xFFF0000000000000"
  by (simp_all add: tb_match_def)

lemma tb_sample_translate: "\<exists>fl proc'. XrTranslate (tb_sample 7) 0x5123 True False = (Some (0x1123, fl), proc')"
proof -
  have "List.find (\<lambda>i. tb_match 5 (Dtb (tb_sample 7) i)) [0..<32] = Some 7"
    by (rule find_upt_Some) (simp_all add: tb_sample_simps tb_sample_match)
  then show ?thesis
    by (simp add: XrTranslate_def tb_entry_def XrLookupDtb_def Let_def tb_sample_simps del: upt_rec_numeral)
qed


text \<open>
  Claim C35. A TB miss taken outside a miss handler can be returned from: RFE resumes at the
  missing instruction with both saved modes intact. While the handler keeps the saved state,
  a second miss inside it changes neither the saved address nor the return, and a page
  fault inside it reports the address and the instruction of the original miss and returns
  there too.
\<close>

theorem tb_miss_return:
  assumes "Cr proc EB \<noteq> 0" and "Cr proc RS AND RS_TBMISS = 0"
    and "XrLookupItb proc v = (None, p1) \<or> XrLookupDtb proc v w = (None, p1)"
    and "Cr h RS = Cr p1 RS" "Cr h EB = Cr p1 EB" "Cr h TBPC = Cr p1 TBPC"
      "Cr h TBMISSADDR = Cr p1 TBMISSADDR"
    and "XrLookupItb h v2 = (None, p2) \<or> XrLookupDtb h v2 w2 = (None, p2)"
  shows "Cr p1 TBMISSADDR = v \<and> Cr p2 TBMISSADDR = v
    \<and> Pc (XrRfeRestore p1) = Pc proc \<and> take_bit 16 (Cr (XrRfeRestore p1) RS) = take_bit 16 (Cr proc RS)
    \<and> Pc (XrRfeRestore p2) = Pc proc \<and> take_bit 16 (Cr (XrRfeRestore p2) RS) = take_bit 16 (Cr proc RS)
    \<and> (let p3 = page_fault h v2 w2 in Cr p3 EBADADDR = v \<and> Cr p3 EPC = Pc proc \<and>
        Pc (XrRfeRestore p3) = Pc proc \<and>
        take_bit 16 (Cr (XrRfeRestore p3) RS) = take_bit 16 (Cr proc RS))"
proof -
  have t: "\<not> bit (Cr proc RS) 3" using assms(2) by (simp add: flag_zero_u32)
  obtain q1 e1 where q1: "p1 = XrVectorException (tb_miss_enter v q1) e1" "Cr q1 RS = Cr proc RS"
    "Cr q1 EB = Cr proc EB" "Pc q1 = Pc proc"
    using lookup_None [OF assms(3)] by metis
  have eb1: "Cr (tb_miss_enter v q1) EB \<noteq> 0" using assms(1) q1(3) by (simp add: tb_miss_enter_simps)
  have p1: "Cr p1 TBPC = Pc proc" "Cr p1 TBMISSADDR = v" "Cr p1 EB \<noteq> 0"
    using t q1 eb1 assms(1) by (simp_all add: vector_simps tb_miss_enter_simps)
  have b1: "bit (Cr p1 RS) n \<longleftrightarrow> bit (Cr proc RS) (n - 8)" if "8 \<le> n" "n < 24" for n
    using that t q1 eb1 by (simp add: bit_vector bit_tb_miss_enter bit_push_mode)
  have b13: "bit (Cr p1 RS) 3"
    using t q1 eb1 by (simp add: bit_vector bit_tb_miss_enter bit_push_mode)
  obtain q2 e2 where q2: "p2 = XrVectorException (tb_miss_enter v2 q2) e2" "Cr q2 RS = Cr h RS"
    "Cr q2 EB = Cr h EB" "Cr q2 TBPC = Cr h TBPC" "Cr q2 TBMISSADDR = Cr h TBMISSADDR"
    using lookup_None [OF assms(8)] by metis
  have h: "bit (Cr h RS) 3" "Cr h EB \<noteq> 0" using b13 p1(3) assms(4,5) by simp_all
  have e2: "tb_miss_enter v2 q2 = q2" using h q2(2) by (simp add: tb_miss_enter_simps)
  have p2: "Cr p2 TBPC = Pc proc" "Cr p2 TBMISSADDR = v"
    "\<And>n. n < 32 \<Longrightarrow> 3 \<le> n \<Longrightarrow> bit (Cr p2 RS) n \<longleftrightarrow> bit (Cr p1 RS) n"
    using q2 h assms(4,6,7) p1 unfolding q2(1) e2 by (auto simp: vector_simps bit_vector)
  let ?w = "LastTbMissWasWrite h"
  let ?h = "h\<lparr>Cr := (Cr h)(EBADADDR := Cr h TBMISSADDR, EPC := Cr h TBPC, RS := Cr h RS AND NOT RS_TBMISS)\<rparr>"
  have p3: "page_fault h v2 w2 = XrVectorException (XrSetEcause ?h (page_fault_code ?w)) (page_fault_code ?w)"
    using h(1) flag_bits_u32(4) [of "Cr h RS"] by (simp add: page_fault_def Let_def)
  have eb3: "Cr (XrSetEcause ?h (page_fault_code ?w)) EB \<noteq> 0" using h(2) by simp
  have c3: "Cr (page_fault h v2 w2) EBADADDR = v" "Cr (page_fault h v2 w2) EPC = Pc proc"
    unfolding p3 using eb3 p1 assms(6,7) by (simp_all add: vector_simps)
  have b3: "bit (Cr (page_fault h v2 w2) RS) n \<longleftrightarrow> n \<noteq> 3 \<and> bit (Cr p1 RS) n" if "3 \<le> n" "n < 24" for n
    unfolding p3 using eb3 that assms(4)
    by (auto simp: bit_vector bit_set_ecause bit_simps bit_u32_numerals simp del: bit_numeral_word_iff)
  have "take_bit 16 (Cr (XrRfeRestore p1) RS) = take_bit 16 (Cr proc RS)"
    "take_bit 16 (Cr (XrRfeRestore p2) RS) = take_bit 16 (Cr proc RS)"
    "take_bit 16 (Cr (XrRfeRestore (page_fault h v2 w2)) RS) = take_bit 16 (Cr proc RS)"
    by (rule take_bit_eqI, simp add: bit_rfe b1 p2 b3)+
  then show ?thesis
    using p1 p2 b13 c3 b3 [of 3] by (simp add: rfe_pc Let_def)
qed

lemma tb_miss_return_witness:
  "\<exists>p. XrLookupItb (tb_sample 7) 0x9000 = (None, p) \<and> Pc (XrRfeRestore p) = 0x5008"
proof -
  have f: "List.find (\<lambda>i. tb_match t (Itb (tb_sample 7) i)) [0..<32] = None" if "t = 9 \<or> t = 10" for t
    using that by (auto intro!: find_upt_None simp: tb_sample_simps tb_sample_match)
  obtain p where m: "XrLookupItb (tb_sample 7) 0x9000 = (None, p)"
    using f [of 9] by (simp add: XrLookupItb_def Let_def tb_sample_simps del: upt_rec_numeral)
  define h where "h = p\<lparr>Itb := Itb (tb_sample 7), Cr := (Cr p)(ITBTAG := 0)\<rparr>"
  obtain q where n: "XrLookupItb h 0xA000 = (None, q)"
    using f [of 10] by (simp add: XrLookupItb_def Let_def h_def del: upt_rec_numeral)
  have "Cr (tb_sample 7) EB \<noteq> 0" "Cr (tb_sample 7) RS AND RS_TBMISS = 0" "Pc (tb_sample 7) = 0x5008"
    by (simp_all add: tb_sample_simps)
  moreover have "Cr h RS = Cr p RS" "Cr h EB = Cr p EB" "Cr h TBPC = Cr p TBPC"
    "Cr h TBMISSADDR = Cr p TBMISSADDR"
    by (simp_all add: h_def)
  ultimately show ?thesis
    using tb_miss_return [OF _ _ disjI1 [OF m] _ _ _ _ disjI1 [OF n]] m by auto
qed

end
