(* ===== verification/Decode.thy ===== *)
theory Decode
  imports XrProc
begin

text \<open>
  The decoder, \<^verbatim>\<open>src/src/xr17032fast.c\<close> lines 2131-2898. A decode routine writes the cached
  instruction at slot \<open>inst\<close> of the block's instruction array \<open>insts\<close> (or two of them, when
  the instruction has an inline shift), leaving the fields it does not set as they were,
  and returns the next free slot, or \<^term>\<open>None\<close> when the instruction ends the block.
\<close>

type_synonym XrDecodeInstructionF =
  "XrProcessor \<Rightarrow> (nat \<Rightarrow> XrCachedInst) \<Rightarrow> nat \<Rightarrow> u32 \<Rightarrow> u32 \<Rightarrow>
   nat option \<times> (nat \<Rightarrow> XrCachedInst)"

section \<open>Macros\<close>

definition SignExt23 :: "u32 \<Rightarrow> u32" where
  "SignExt23 n = signed_drop_bit 9 (push_bit 9 n)"

definition SignExt16 :: "u32 \<Rightarrow> u32" where
  "SignExt16 n = signed_drop_bit 16 (push_bit 16 n)"

definition SignExt5 :: "u32 \<Rightarrow> u32" where
  "SignExt5 n = signed_drop_bit 27 (push_bit 27 n)"

text \<open>A source register of zero outside TB miss handlers is redirected to the fake zero register.\<close>

definition XR_REDIRECT_ZERO_SRC :: "XrProcessor \<Rightarrow> u32 \<Rightarrow> u32" where
  "XR_REDIRECT_ZERO_SRC proc src =
    (if Cr proc RS AND RS_TBMISS = 0 \<and> src = 0 then of_nat XR_FAKE_ZERO_REGISTER else src)"

section \<open>Decode routines\<close>

definition XrDecodeIllegalInstruction :: XrDecodeInstructionF where
  "XrDecodeIllegalInstruction proc insts inst ir pc =
    (None, insts(inst := (insts inst)\<lparr>Func := FSys ExecuteIllegalInstruction\<rparr>))"

definition XrDecodeRfe :: XrDecodeInstructionF where
  "XrDecodeRfe proc insts inst ir pc =
    (None, insts(inst := (insts inst)\<lparr>Func := FSys ExecuteRfe\<rparr>))"

definition XrDecodeHlt :: XrDecodeInstructionF where
  "XrDecodeHlt proc insts inst ir pc =
    (None, insts(inst := (insts inst)\<lparr>Func := FSys ExecuteHlt\<rparr>))"

definition XrDecodeMtcr :: XrDecodeInstructionF where
  "XrDecodeMtcr proc insts inst ir pc =
    (Some (inst + 1), insts(inst := (insts inst)\<lparr>
       Func := FSys ExecuteMtcr,
       Imm8_1 := ucast (XR_REDIRECT_ZERO_SRC proc (drop_bit 11 ir AND 31)),
       Imm8_2 := ucast (drop_bit 16 ir AND 31)\<rparr>))"

definition XrDecodeMfcr :: XrDecodeInstructionF where
  "XrDecodeMfcr proc insts inst ir pc =
    (Some (inst + 1), insts(inst := (insts inst)\<lparr>
       Func := FSys ExecuteMfcr,
       Imm8_1 := ucast (drop_bit 6 ir AND 31),
       Imm8_2 := ucast (drop_bit 16 ir AND 31)\<rparr>))"

definition XrDecodeFunctions101001 :: "nat \<Rightarrow> XrDecodeInstructionF" where
  "XrDecodeFunctions101001 n =
    (if n = 11 then XrDecodeRfe else if n = 12 then XrDecodeHlt
     else if n = 14 then XrDecodeMtcr else if n = 15 then XrDecodeMfcr
     else XrDecodeIllegalInstruction)"

definition XrDecodeSys :: XrDecodeInstructionF where
  "XrDecodeSys proc insts inst ir pc =
    (Some (inst + 1), insts(inst := (insts inst)\<lparr>Func := FSys ExecuteSys\<rparr>))"

definition XrDecodeBrk :: XrDecodeInstructionF where
  "XrDecodeBrk proc insts inst ir pc =
    (Some (inst + 1), insts(inst := (insts inst)\<lparr>Func := FSys ExecuteBrk\<rparr>))"

definition XrDecodeWmb :: XrDecodeInstructionF where
  "XrDecodeWmb proc insts inst ir pc =
    (Some (inst + 1), insts(inst := (insts inst)\<lparr>Func := FSys ExecuteWmb\<rparr>))"

definition XrDecodeMb :: XrDecodeInstructionF where
  "XrDecodeMb proc insts inst ir pc =
    (Some (inst + 1), insts(inst := (insts inst)\<lparr>Func := FSys ExecuteMb\<rparr>))"

definition XrDecodePause :: XrDecodeInstructionF where
  "XrDecodePause proc insts inst ir pc =
    (Some (inst + 1), insts(inst := (insts inst)\<lparr>Func := FSys ExecutePause\<rparr>))"

definition XrDecodeSC :: XrDecodeInstructionF where
  "XrDecodeSC proc insts inst ir pc =
    (Some (inst + 1), insts(inst := (insts inst)\<lparr>
       Func := FMem ExecuteSC,
       Imm8_1 := ucast (drop_bit 6 ir AND 31),
       Imm8_2 := ucast (XR_REDIRECT_ZERO_SRC proc (drop_bit 11 ir AND 31)),
       Imm32_1 := XR_REDIRECT_ZERO_SRC proc (drop_bit 16 ir AND 31)\<rparr>))"

definition XrDecodeLL :: XrDecodeInstructionF where
  "XrDecodeLL proc insts inst ir pc =
    (Some (inst + 1), insts(inst := (insts inst)\<lparr>
       Func := FMem ExecuteLL,
       Imm8_1 := ucast (drop_bit 6 ir AND 31),
       Imm8_2 := ucast (XR_REDIRECT_ZERO_SRC proc (drop_bit 11 ir AND 31))\<rparr>))"

text \<open>An inline shift becomes a virtual instruction into the fake shift register.\<close>

definition XrVirtualShiftInstructionTable :: "nat \<Rightarrow> XrFunc" where
  "XrVirtualShiftInstructionTable n = FSys
    ([ExecuteVirtualLsh, ExecuteVirtualRsh, ExecuteVirtualAsh, ExecuteVirtualRor] ! n)"

definition XrRegShiftFunctionTable :: "nat \<Rightarrow> XrFunc" where
  "XrRegShiftFunctionTable n = FReg ([ExecuteLsh, ExecuteRsh, ExecuteAsh, ExecuteRor] ! n)"

definition XR_INSERT_SHIFT :: "u32 \<Rightarrow> (nat \<Rightarrow> XrCachedInst) \<Rightarrow> nat \<Rightarrow> u32 \<Rightarrow>
    (nat \<Rightarrow> XrCachedInst) \<times> nat \<times> u32" where
  "XR_INSERT_SHIFT ir insts inst rb =
    (if drop_bit 21 ir AND 31 \<noteq> 0 then
       (insts(inst := (insts inst)\<lparr>
       Func := XrVirtualShiftInstructionTable (unat (drop_bit 26 ir AND 3)),
                Imm8_1 := ucast rb, Imm8_2 := ucast (drop_bit 21 ir AND 31)\<rparr>),
        inst + 1, of_nat XR_FAKE_SHIFT_SINK)
     else (insts, inst, rb))"

definition XrDecodeMod :: XrDecodeInstructionF where
  "XrDecodeMod proc insts inst ir pc =
    (let (insts, inst, rb) = XR_INSERT_SHIFT ir insts inst (XR_REDIRECT_ZERO_SRC proc (drop_bit 16 ir AND 31))
     in (Some (inst + 1), insts(inst := (insts inst)\<lparr>Func := FReg ExecuteMod,
           Imm8_1 := ucast (drop_bit 6 ir AND 31),
           Imm8_2 := ucast (XR_REDIRECT_ZERO_SRC proc (drop_bit 11 ir AND 31)), Imm32_1 := rb\<rparr>)))"

definition XrDecodeDivSigned :: XrDecodeInstructionF where
  "XrDecodeDivSigned proc insts inst ir pc =
    (let (insts, inst, rb) = XR_INSERT_SHIFT ir insts inst (XR_REDIRECT_ZERO_SRC proc (drop_bit 16 ir AND 31))
     in (Some (inst + 1), insts(inst := (insts inst)\<lparr>Func := FReg ExecuteDivSigned,
           Imm8_1 := ucast (drop_bit 6 ir AND 31),
           Imm8_2 := ucast (XR_REDIRECT_ZERO_SRC proc (drop_bit 11 ir AND 31)), Imm32_1 := rb\<rparr>)))"

definition XrDecodeDiv :: XrDecodeInstructionF where
  "XrDecodeDiv proc insts inst ir pc =
    (let (insts, inst, rb) = XR_INSERT_SHIFT ir insts inst (XR_REDIRECT_ZERO_SRC proc (drop_bit 16 ir AND 31))
     in (Some (inst + 1), insts(inst := (insts inst)\<lparr>Func := FReg ExecuteDiv,
           Imm8_1 := ucast (drop_bit 6 ir AND 31),
           Imm8_2 := ucast (XR_REDIRECT_ZERO_SRC proc (drop_bit 11 ir AND 31)), Imm32_1 := rb\<rparr>)))"

definition XrDecodeMul :: XrDecodeInstructionF where
  "XrDecodeMul proc insts inst ir pc =
    (let (insts, inst, rb) = XR_INSERT_SHIFT ir insts inst (XR_REDIRECT_ZERO_SRC proc (drop_bit 16 ir AND 31))
     in (Some (inst + 1), insts(inst := (insts inst)\<lparr>Func := FReg ExecuteMul,
           Imm8_1 := ucast (drop_bit 6 ir AND 31),
           Imm8_2 := ucast (XR_REDIRECT_ZERO_SRC proc (drop_bit 11 ir AND 31)), Imm32_1 := rb\<rparr>)))"

definition XrDecodeFunctions110001 :: "nat \<Rightarrow> XrDecodeInstructionF" where
  "XrDecodeFunctions110001 n =
    (if n = 0 then XrDecodeSys else if n = 1 then XrDecodeBrk else if n = 2 then XrDecodeWmb
     else if n = 3 then XrDecodeMb else if n = 6 then XrDecodePause else if n = 8 then XrDecodeSC
     else if n = 9 then XrDecodeLL else if n = 11 then XrDecodeMod
     else if n = 12 then XrDecodeDivSigned else if n = 13 then XrDecodeDiv
     else if n = 15 then XrDecodeMul else XrDecodeIllegalInstruction)"

definition XrDecodeNor :: XrDecodeInstructionF where
  "XrDecodeNor proc insts inst ir pc =
    (let (insts, inst, rb) = XR_INSERT_SHIFT ir insts inst (XR_REDIRECT_ZERO_SRC proc (drop_bit 16 ir AND 31))
     in (Some (inst + 1), insts(inst := (insts inst)\<lparr>Func := FReg ExecuteNor,
           Imm8_1 := ucast (drop_bit 6 ir AND 31),
           Imm8_2 := ucast (XR_REDIRECT_ZERO_SRC proc (drop_bit 11 ir AND 31)), Imm32_1 := rb\<rparr>)))"

definition XrDecodeOr :: XrDecodeInstructionF where
  "XrDecodeOr proc insts inst ir pc =
    (let (insts, inst, rb) = XR_INSERT_SHIFT ir insts inst (XR_REDIRECT_ZERO_SRC proc (drop_bit 16 ir AND 31))
     in (Some (inst + 1), insts(inst := (insts inst)\<lparr>Func := FReg ExecuteOr,
           Imm8_1 := ucast (drop_bit 6 ir AND 31),
           Imm8_2 := ucast (XR_REDIRECT_ZERO_SRC proc (drop_bit 11 ir AND 31)), Imm32_1 := rb\<rparr>)))"

definition XrDecodeXor :: XrDecodeInstructionF where
  "XrDecodeXor proc insts inst ir pc =
    (let (insts, inst, rb) = XR_INSERT_SHIFT ir insts inst (XR_REDIRECT_ZERO_SRC proc (drop_bit 16 ir AND 31))
     in (Some (inst + 1), insts(inst := (insts inst)\<lparr>Func := FReg ExecuteXor,
           Imm8_1 := ucast (drop_bit 6 ir AND 31),
           Imm8_2 := ucast (XR_REDIRECT_ZERO_SRC proc (drop_bit 11 ir AND 31)), Imm32_1 := rb\<rparr>)))"

definition XrDecodeAnd :: XrDecodeInstructionF where
  "XrDecodeAnd proc insts inst ir pc =
    (let (insts, inst, rb) = XR_INSERT_SHIFT ir insts inst (XR_REDIRECT_ZERO_SRC proc (drop_bit 16 ir AND 31))
     in (Some (inst + 1), insts(inst := (insts inst)\<lparr>Func := FReg ExecuteAnd,
           Imm8_1 := ucast (drop_bit 6 ir AND 31),
           Imm8_2 := ucast (XR_REDIRECT_ZERO_SRC proc (drop_bit 11 ir AND 31)), Imm32_1 := rb\<rparr>)))"

definition XrDecodeSltSigned :: XrDecodeInstructionF where
  "XrDecodeSltSigned proc insts inst ir pc =
    (let (insts, inst, rb) = XR_INSERT_SHIFT ir insts inst (XR_REDIRECT_ZERO_SRC proc (drop_bit 16 ir AND 31))
     in (Some (inst + 1), insts(inst := (insts inst)\<lparr>Func := FReg ExecuteSltSigned,
           Imm8_1 := ucast (drop_bit 6 ir AND 31),
           Imm8_2 := ucast (XR_REDIRECT_ZERO_SRC proc (drop_bit 11 ir AND 31)), Imm32_1 := rb\<rparr>)))"

definition XrDecodeSlt :: XrDecodeInstructionF where
  "XrDecodeSlt proc insts inst ir pc =
    (let (insts, inst, rb) = XR_INSERT_SHIFT ir insts inst (XR_REDIRECT_ZERO_SRC proc (drop_bit 16 ir AND 31))
     in (Some (inst + 1), insts(inst := (insts inst)\<lparr>Func := FReg ExecuteSlt,
           Imm8_1 := ucast (drop_bit 6 ir AND 31),
           Imm8_2 := ucast (XR_REDIRECT_ZERO_SRC proc (drop_bit 11 ir AND 31)), Imm32_1 := rb\<rparr>)))"

definition XrDecodeSub :: XrDecodeInstructionF where
  "XrDecodeSub proc insts inst ir pc =
    (let (insts, inst, rb) = XR_INSERT_SHIFT ir insts inst (XR_REDIRECT_ZERO_SRC proc (drop_bit 16 ir AND 31))
     in (Some (inst + 1), insts(inst := (insts inst)\<lparr>Func := FReg ExecuteSub,
           Imm8_1 := ucast (drop_bit 6 ir AND 31),
           Imm8_2 := ucast (XR_REDIRECT_ZERO_SRC proc (drop_bit 11 ir AND 31)), Imm32_1 := rb\<rparr>)))"

definition XrDecodeAdd :: XrDecodeInstructionF where
  "XrDecodeAdd proc insts inst ir pc =
    (let (insts, inst, rb) = XR_INSERT_SHIFT ir insts inst (XR_REDIRECT_ZERO_SRC proc (drop_bit 16 ir AND 31))
     in (Some (inst + 1), insts(inst := (insts inst)\<lparr>Func := FReg ExecuteAdd,
           Imm8_1 := ucast (drop_bit 6 ir AND 31),
           Imm8_2 := ucast (XR_REDIRECT_ZERO_SRC proc (drop_bit 11 ir AND 31)), Imm32_1 := rb\<rparr>)))"

definition XrDecodeRegShifts :: XrDecodeInstructionF where
  "XrDecodeRegShifts proc insts inst ir pc =
    (Some (inst + 1), insts(inst := (insts inst)\<lparr>
       Func := XrRegShiftFunctionTable (unat (drop_bit 26 ir AND 3)),
       Imm8_1 := ucast (drop_bit 6 ir AND 31),
       Imm8_2 := ucast (XR_REDIRECT_ZERO_SRC proc (drop_bit 11 ir AND 31)),
       Imm32_1 := XR_REDIRECT_ZERO_SRC proc (drop_bit 16 ir AND 31)\<rparr>))"

definition XrDecodeStoreLongRegOffset :: XrDecodeInstructionF where
  "XrDecodeStoreLongRegOffset proc insts inst ir pc =
    (let (insts, inst, rb) = XR_INSERT_SHIFT ir insts inst (XR_REDIRECT_ZERO_SRC proc (drop_bit 16 ir AND 31))
     in (Some (inst + 1), insts(inst := (insts inst)\<lparr>Func := FMem ExecuteStoreLongRegOffset,
           Imm8_1 := ucast (XR_REDIRECT_ZERO_SRC proc (drop_bit 6 ir AND 31)),
           Imm8_2 := ucast (XR_REDIRECT_ZERO_SRC proc (drop_bit 11 ir AND 31)), Imm32_1 := rb\<rparr>)))"

definition XrDecodeStoreIntRegOffset :: XrDecodeInstructionF where
  "XrDecodeStoreIntRegOffset proc insts inst ir pc =
    (let (insts, inst, rb) = XR_INSERT_SHIFT ir insts inst (XR_REDIRECT_ZERO_SRC proc (drop_bit 16 ir AND 31))
     in (Some (inst + 1), insts(inst := (insts inst)\<lparr>Func := FMem ExecuteStoreIntRegOffset,
           Imm8_1 := ucast (XR_REDIRECT_ZERO_SRC proc (drop_bit 6 ir AND 31)),
           Imm8_2 := ucast (XR_REDIRECT_ZERO_SRC proc (drop_bit 11 ir AND 31)), Imm32_1 := rb\<rparr>)))"

definition XrDecodeStoreByteRegOffset :: XrDecodeInstructionF where
  "XrDecodeStoreByteRegOffset proc insts inst ir pc =
    (let (insts, inst, rb) = XR_INSERT_SHIFT ir insts inst (XR_REDIRECT_ZERO_SRC proc (drop_bit 16 ir AND 31))
     in (Some (inst + 1), insts(inst := (insts inst)\<lparr>Func := FMem ExecuteStoreByteRegOffset,
           Imm8_1 := ucast (XR_REDIRECT_ZERO_SRC proc (drop_bit 6 ir AND 31)),
           Imm8_2 := ucast (XR_REDIRECT_ZERO_SRC proc (drop_bit 11 ir AND 31)), Imm32_1 := rb\<rparr>)))"

definition XrDecodeLoadLongRegOffset :: XrDecodeInstructionF where
  "XrDecodeLoadLongRegOffset proc insts inst ir pc =
    (let (insts, inst, rb) = XR_INSERT_SHIFT ir insts inst (XR_REDIRECT_ZERO_SRC proc (drop_bit 16 ir AND 31))
     in (Some (inst + 1), insts(inst := (insts inst)\<lparr>Func := FMem ExecuteLoadLongRegOffset,
           Imm8_1 := ucast (drop_bit 6 ir AND 31),
           Imm8_2 := ucast (XR_REDIRECT_ZERO_SRC proc (drop_bit 11 ir AND 31)), Imm32_1 := rb\<rparr>)))"

definition XrDecodeLoadIntRegOffset :: XrDecodeInstructionF where
  "XrDecodeLoadIntRegOffset proc insts inst ir pc =
    (let (insts, inst, rb) = XR_INSERT_SHIFT ir insts inst (XR_REDIRECT_ZERO_SRC proc (drop_bit 16 ir AND 31))
     in (Some (inst + 1), insts(inst := (insts inst)\<lparr>Func := FMem ExecuteLoadIntRegOffset,
           Imm8_1 := ucast (drop_bit 6 ir AND 31),
           Imm8_2 := ucast (XR_REDIRECT_ZERO_SRC proc (drop_bit 11 ir AND 31)), Imm32_1 := rb\<rparr>)))"

definition XrDecodeLoadByteRegOffset :: XrDecodeInstructionF where
  "XrDecodeLoadByteRegOffset proc insts inst ir pc =
    (let (insts, inst, rb) = XR_INSERT_SHIFT ir insts inst (XR_REDIRECT_ZERO_SRC proc (drop_bit 16 ir AND 31))
     in (Some (inst + 1), insts(inst := (insts inst)\<lparr>Func := FMem ExecuteLoadByteRegOffset,
           Imm8_1 := ucast (drop_bit 6 ir AND 31),
           Imm8_2 := ucast (XR_REDIRECT_ZERO_SRC proc (drop_bit 11 ir AND 31)), Imm32_1 := rb\<rparr>)))"

definition XrDecodeFunctions111001 :: "nat \<Rightarrow> XrDecodeInstructionF" where
  "XrDecodeFunctions111001 n =
    [XrDecodeNor,
     XrDecodeOr,
     XrDecodeXor,
     XrDecodeAnd,
     XrDecodeSltSigned,
     XrDecodeSlt,
     XrDecodeSub,
     XrDecodeAdd,
     XrDecodeRegShifts,
     XrDecodeStoreLongRegOffset,
     XrDecodeStoreIntRegOffset,
     XrDecodeStoreByteRegOffset,
     XrDecodeIllegalInstruction,
     XrDecodeLoadLongRegOffset,
     XrDecodeLoadIntRegOffset,
     XrDecodeLoadByteRegOffset] ! n"

definition XrDecodeLui :: XrDecodeInstructionF where
  "XrDecodeLui proc insts inst ir pc =
    (Some (inst + 1), insts(inst := (insts inst)\<lparr>
       Func := FImm ExecuteOri,
       Imm8_1 := ucast (drop_bit 6 ir AND 31),
       Imm8_2 := ucast (XR_REDIRECT_ZERO_SRC proc (drop_bit 11 ir AND 31)),
       Imm32_1 := push_bit 16 (drop_bit 16 ir)\<rparr>))"

definition XrDecodeBpo :: XrDecodeInstructionF where
  "XrDecodeBpo proc insts inst ir pc =
    (None, insts(inst := (insts inst)\<lparr>
       Func := FFlow ExecuteBpo,
       Imm8_1 := ucast (XR_REDIRECT_ZERO_SRC proc (drop_bit 6 ir AND 31)),
       Imm32_1 := pc + SignExt23 (push_bit 2 (drop_bit 11 ir))\<rparr>))"

definition XrDecodeStoreLongImmOffsetImm :: XrDecodeInstructionF where
  "XrDecodeStoreLongImmOffsetImm proc insts inst ir pc =
    (Some (inst + 1), insts(inst := (insts inst)\<lparr>
       Func := FMem ExecuteStoreLongImmOffsetImm,
       Imm8_1 := ucast (XR_REDIRECT_ZERO_SRC proc (drop_bit 6 ir AND 31)),
       Imm8_2 := ucast (drop_bit 11 ir AND 31),
       Imm32_1 := push_bit 2 (drop_bit 16 ir)\<rparr>))"

definition XrDecodeOri :: XrDecodeInstructionF where
  "XrDecodeOri proc insts inst ir pc =
    (Some (inst + 1), insts(inst := (insts inst)\<lparr>
       Func := FImm ExecuteOri,
       Imm8_1 := ucast (drop_bit 6 ir AND 31),
       Imm8_2 := ucast (XR_REDIRECT_ZERO_SRC proc (drop_bit 11 ir AND 31)),
       Imm32_1 := drop_bit 16 ir\<rparr>))"

definition XrDecodeBpe :: XrDecodeInstructionF where
  "XrDecodeBpe proc insts inst ir pc =
    (None, insts(inst := (insts inst)\<lparr>
       Func := FFlow ExecuteBpe,
       Imm8_1 := ucast (XR_REDIRECT_ZERO_SRC proc (drop_bit 6 ir AND 31)),
       Imm32_1 := pc + SignExt23 (push_bit 2 (drop_bit 11 ir))\<rparr>))"

definition XrDecodeStoreIntImmOffsetImm :: XrDecodeInstructionF where
  "XrDecodeStoreIntImmOffsetImm proc insts inst ir pc =
    (Some (inst + 1), insts(inst := (insts inst)\<lparr>
       Func := FMem ExecuteStoreIntImmOffsetImm,
       Imm8_1 := ucast (XR_REDIRECT_ZERO_SRC proc (drop_bit 6 ir AND 31)),
       Imm8_2 := ucast (drop_bit 11 ir AND 31),
       Imm32_1 := push_bit 1 (drop_bit 16 ir)\<rparr>))"

definition XrDecodeXori :: XrDecodeInstructionF where
  "XrDecodeXori proc insts inst ir pc =
    (Some (inst + 1), insts(inst := (insts inst)\<lparr>
       Func := FImm ExecuteXori,
       Imm8_1 := ucast (drop_bit 6 ir AND 31),
       Imm8_2 := ucast (XR_REDIRECT_ZERO_SRC proc (drop_bit 11 ir AND 31)),
       Imm32_1 := drop_bit 16 ir\<rparr>))"

definition XrDecodeBge :: XrDecodeInstructionF where
  "XrDecodeBge proc insts inst ir pc =
    (None, insts(inst := (insts inst)\<lparr>
       Func := FFlow ExecuteBge,
       Imm8_1 := ucast (XR_REDIRECT_ZERO_SRC proc (drop_bit 6 ir AND 31)),
       Imm32_1 := pc + SignExt23 (push_bit 2 (drop_bit 11 ir))\<rparr>))"

definition XrDecodeStoreByteImmOffsetImm :: XrDecodeInstructionF where
  "XrDecodeStoreByteImmOffsetImm proc insts inst ir pc =
    (Some (inst + 1), insts(inst := (insts inst)\<lparr>
       Func := FMem ExecuteStoreByteImmOffsetImm,
       Imm8_1 := ucast (XR_REDIRECT_ZERO_SRC proc (drop_bit 6 ir AND 31)),
       Imm8_2 := ucast (drop_bit 11 ir AND 31),
       Imm32_1 := drop_bit 16 ir\<rparr>))"

definition XrDecodeAndi :: XrDecodeInstructionF where
  "XrDecodeAndi proc insts inst ir pc =
    (Some (inst + 1), insts(inst := (insts inst)\<lparr>
       Func := FImm ExecuteAndi,
       Imm8_1 := ucast (drop_bit 6 ir AND 31),
       Imm8_2 := ucast (XR_REDIRECT_ZERO_SRC proc (drop_bit 11 ir AND 31)),
       Imm32_1 := drop_bit 16 ir\<rparr>))"

definition XrDecodeBle :: XrDecodeInstructionF where
  "XrDecodeBle proc insts inst ir pc =
    (None, insts(inst := (insts inst)\<lparr>
       Func := FFlow ExecuteBle,
       Imm8_1 := ucast (XR_REDIRECT_ZERO_SRC proc (drop_bit 6 ir AND 31)),
       Imm32_1 := pc + SignExt23 (push_bit 2 (drop_bit 11 ir))\<rparr>))"

definition XrDecodeSltiSigned :: XrDecodeInstructionF where
  "XrDecodeSltiSigned proc insts inst ir pc =
    (Some (inst + 1), insts(inst := (insts inst)\<lparr>
       Func := FImm ExecuteSltiSigned,
       Imm8_1 := ucast (drop_bit 6 ir AND 31),
       Imm8_2 := ucast (XR_REDIRECT_ZERO_SRC proc (drop_bit 11 ir AND 31)),
       Imm32_1 := SignExt16 (drop_bit 16 ir)\<rparr>))"

definition XrDecodeBgt :: XrDecodeInstructionF where
  "XrDecodeBgt proc insts inst ir pc =
    (None, insts(inst := (insts inst)\<lparr>
       Func := FFlow ExecuteBgt,
       Imm8_1 := ucast (XR_REDIRECT_ZERO_SRC proc (drop_bit 6 ir AND 31)),
       Imm32_1 := pc + SignExt23 (push_bit 2 (drop_bit 11 ir))\<rparr>))"

definition XrDecode101001 :: XrDecodeInstructionF where
  "XrDecode101001 proc insts inst ir pc =
    XrDecodeFunctions101001 (unat (drop_bit 28 ir)) proc insts inst ir pc"

definition XrDecodeStoreLongImmOffsetReg :: XrDecodeInstructionF where
  "XrDecodeStoreLongImmOffsetReg proc insts inst ir pc =
    (Some (inst + 1), insts(inst := (insts inst)\<lparr>
       Func := FMem ExecuteStoreLongImmOffsetReg,
       Imm8_1 := ucast (XR_REDIRECT_ZERO_SRC proc (drop_bit 6 ir AND 31)),
       Imm8_2 := ucast (XR_REDIRECT_ZERO_SRC proc (drop_bit 11 ir AND 31)),
       Imm32_1 := push_bit 2 (drop_bit 16 ir)\<rparr>))"

definition XrDecodeLoadLongImmOffset :: XrDecodeInstructionF where
  "XrDecodeLoadLongImmOffset proc insts inst ir pc =
    (Some (inst + 1), insts(inst := (insts inst)\<lparr>
       Func := FMem ExecuteLoadLongImmOffset,
       Imm8_1 := ucast (drop_bit 6 ir AND 31),
       Imm8_2 := ucast (XR_REDIRECT_ZERO_SRC proc (drop_bit 11 ir AND 31)),
       Imm32_1 := push_bit 2 (drop_bit 16 ir)\<rparr>))"

definition XrDecodeSlti :: XrDecodeInstructionF where
  "XrDecodeSlti proc insts inst ir pc =
    (Some (inst + 1), insts(inst := (insts inst)\<lparr>
       Func := FImm ExecuteSlti,
       Imm8_1 := ucast (drop_bit 6 ir AND 31),
       Imm8_2 := ucast (XR_REDIRECT_ZERO_SRC proc (drop_bit 11 ir AND 31)),
       Imm32_1 := drop_bit 16 ir\<rparr>))"

definition XrDecodeBlt :: XrDecodeInstructionF where
  "XrDecodeBlt proc insts inst ir pc =
    (None, insts(inst := (insts inst)\<lparr>
       Func := FFlow ExecuteBlt,
       Imm8_1 := ucast (XR_REDIRECT_ZERO_SRC proc (drop_bit 6 ir AND 31)),
       Imm32_1 := pc + SignExt23 (push_bit 2 (drop_bit 11 ir))\<rparr>))"

definition XrDecode110001 :: XrDecodeInstructionF where
  "XrDecode110001 proc insts inst ir pc =
    XrDecodeFunctions110001 (unat (drop_bit 28 ir)) proc insts inst ir pc"

definition XrDecodeStoreIntImmOffsetReg :: XrDecodeInstructionF where
  "XrDecodeStoreIntImmOffsetReg proc insts inst ir pc =
    (Some (inst + 1), insts(inst := (insts inst)\<lparr>
       Func := FMem ExecuteStoreIntImmOffsetReg,
       Imm8_1 := ucast (XR_REDIRECT_ZERO_SRC proc (drop_bit 6 ir AND 31)),
       Imm8_2 := ucast (XR_REDIRECT_ZERO_SRC proc (drop_bit 11 ir AND 31)),
       Imm32_1 := push_bit 1 (drop_bit 16 ir)\<rparr>))"

definition XrDecodeLoadIntImmOffset :: XrDecodeInstructionF where
  "XrDecodeLoadIntImmOffset proc insts inst ir pc =
    (Some (inst + 1), insts(inst := (insts inst)\<lparr>
       Func := FMem ExecuteLoadIntImmOffset,
       Imm8_1 := ucast (drop_bit 6 ir AND 31),
       Imm8_2 := ucast (XR_REDIRECT_ZERO_SRC proc (drop_bit 11 ir AND 31)),
       Imm32_1 := push_bit 1 (drop_bit 16 ir)\<rparr>))"

definition XrDecodeSubi :: XrDecodeInstructionF where
  "XrDecodeSubi proc insts inst ir pc =
    (Some (inst + 1), insts(inst := (insts inst)\<lparr>
       Func := FImm ExecuteSubi,
       Imm8_1 := ucast (drop_bit 6 ir AND 31),
       Imm8_2 := ucast (XR_REDIRECT_ZERO_SRC proc (drop_bit 11 ir AND 31)),
       Imm32_1 := drop_bit 16 ir\<rparr>))"

definition XrDecodeBne :: XrDecodeInstructionF where
  "XrDecodeBne proc insts inst ir pc =
    (None, insts(inst := (insts inst)\<lparr>
       Func := FFlow ExecuteBne,
       Imm8_1 := ucast (XR_REDIRECT_ZERO_SRC proc (drop_bit 6 ir AND 31)),
       Imm32_1 := pc + SignExt23 (push_bit 2 (drop_bit 11 ir))\<rparr>))"

definition XrDecodeJalr :: XrDecodeInstructionF where
  "XrDecodeJalr proc insts inst ir pc =
    (None, insts(inst := (insts inst)\<lparr>
       Func := FFlow ExecuteJalr,
       Imm8_1 := ucast (drop_bit 6 ir AND 31),
       Imm8_2 := ucast (XR_REDIRECT_ZERO_SRC proc (drop_bit 11 ir AND 31)),
       Imm32_1 := push_bit 2 (drop_bit 16 ir)\<rparr>))"

definition XrDecodeAdr :: XrDecodeInstructionF where
  "XrDecodeAdr proc insts inst ir pc =
    (Some (inst + 1), insts(inst := (insts inst)\<lparr>
       Func := FImm ExecuteAdr,
       Imm8_1 := ucast (drop_bit 6 ir AND 31),
       Imm32_1 := pc + (ir AND 0xFFFF0000)\<rparr>))"

definition XrDecode111001 :: XrDecodeInstructionF where
  "XrDecode111001 proc insts inst ir pc =
    XrDecodeFunctions111001 (unat (drop_bit 28 ir)) proc insts inst ir pc"

definition XrDecodeStoreByteImmOffsetReg :: XrDecodeInstructionF where
  "XrDecodeStoreByteImmOffsetReg proc insts inst ir pc =
    (Some (inst + 1), insts(inst := (insts inst)\<lparr>
       Func := FMem ExecuteStoreByteImmOffsetReg,
       Imm8_1 := ucast (XR_REDIRECT_ZERO_SRC proc (drop_bit 6 ir AND 31)),
       Imm8_2 := ucast (XR_REDIRECT_ZERO_SRC proc (drop_bit 11 ir AND 31)),
       Imm32_1 := drop_bit 16 ir\<rparr>))"

definition XrDecodeLoadByteImmOffset :: XrDecodeInstructionF where
  "XrDecodeLoadByteImmOffset proc insts inst ir pc =
    (Some (inst + 1), insts(inst := (insts inst)\<lparr>
       Func := FMem ExecuteLoadByteImmOffset,
       Imm8_1 := ucast (drop_bit 6 ir AND 31),
       Imm8_2 := ucast (XR_REDIRECT_ZERO_SRC proc (drop_bit 11 ir AND 31)),
       Imm32_1 := drop_bit 16 ir\<rparr>))"

definition XrDecodeAddi :: XrDecodeInstructionF where
  "XrDecodeAddi proc insts inst ir pc =
    (Some (inst + 1), insts(inst := (insts inst)\<lparr>
       Func := FImm ExecuteAddi,
       Imm8_1 := ucast (drop_bit 6 ir AND 31),
       Imm8_2 := ucast (XR_REDIRECT_ZERO_SRC proc (drop_bit 11 ir AND 31)),
       Imm32_1 := drop_bit 16 ir\<rparr>))"

definition XrDecodeBeq :: XrDecodeInstructionF where
  "XrDecodeBeq proc insts inst ir pc =
    (let r = (ucast (XR_REDIRECT_ZERO_SRC proc (drop_bit 6 ir AND 31)) :: u8);
         c = (insts inst)\<lparr>
       Imm32_1 := pc + SignExt23 (push_bit 2 (drop_bit 11 ir)),
       Imm8_1 := r\<rparr>
     in if unat r = XR_FAKE_ZERO_REGISTER then (None, insts(inst := c\<lparr>
       Func := FFlow ExecuteB\<rparr>))
        else (None, insts(inst := c\<lparr>Func := FFlow ExecuteBeq\<rparr>)))"

definition XrDecodeLowSix :: "nat \<Rightarrow> XrDecodeInstructionF" where
  "XrDecodeLowSix n =
    (if n = 4 then XrDecodeLui else
     if n = 5 then XrDecodeBpo else
     if n = 10 then XrDecodeStoreLongImmOffsetImm else
     if n = 12 then XrDecodeOri else
     if n = 13 then XrDecodeBpe else
     if n = 18 then XrDecodeStoreIntImmOffsetImm else
     if n = 20 then XrDecodeXori else
     if n = 21 then XrDecodeBge else
     if n = 26 then XrDecodeStoreByteImmOffsetImm else
     if n = 28 then XrDecodeAndi else
     if n = 29 then XrDecodeBle else
     if n = 36 then XrDecodeSltiSigned else
     if n = 37 then XrDecodeBgt else
     if n = 41 then XrDecode101001 else
     if n = 42 then XrDecodeStoreLongImmOffsetReg else
     if n = 43 then XrDecodeLoadLongImmOffset else
     if n = 44 then XrDecodeSlti else
     if n = 45 then XrDecodeBlt else
     if n = 48 then XrDecodeAdr else
     if n = 49 then XrDecode110001 else
     if n = 50 then XrDecodeStoreIntImmOffsetReg else
     if n = 51 then XrDecodeLoadIntImmOffset else
     if n = 52 then XrDecodeSubi else
     if n = 53 then XrDecodeBne else
     if n = 56 then XrDecodeJalr else
     if n = 57 then XrDecode111001 else
     if n = 58 then XrDecodeStoreByteImmOffsetReg else
     if n = 59 then XrDecodeLoadByteImmOffset else
     if n = 60 then XrDecodeAddi else
     if n = 61 then XrDecodeBeq else
     XrDecodeIllegalInstruction)"

definition XrDecodeJal :: XrDecodeInstructionF where
  "XrDecodeJal proc insts inst ir pc =
    (None, insts(inst := (insts inst)\<lparr>
       Func := FFlow ExecuteJal,
       Imm32_1 := (pc AND 0x80000000) OR push_bit 2 (drop_bit 3 ir)\<rparr>))"

definition XrDecodeJ :: XrDecodeInstructionF where
  "XrDecodeJ proc insts inst ir pc =
    (None, insts(inst := (insts inst)\<lparr>
       Func := FFlow ExecuteJ,
       Imm32_1 := (pc AND 0x80000000) OR push_bit 2 (drop_bit 3 ir)\<rparr>))"

definition XrDecodeMajor :: XrDecodeInstructionF where
  "XrDecodeMajor proc insts inst ir pc = XrDecodeLowSix (unat (ir AND 63)) proc insts inst ir pc"

definition XrDecodeLowThree :: "nat \<Rightarrow> XrDecodeInstructionF" where
  "XrDecodeLowThree n =
    (if n = 6 then XrDecodeJ else if n = 7 then XrDecodeJal else XrDecodeMajor)"

end
