(* ===== verification/ExecuteReg.thy ===== *)
theory ExecuteReg
  imports Exceptions Decode "HOL-Library.Signed_Division"
begin

text \<open>
  The instruction handlers that touch only their own processor, \<^verbatim>\<open>src/src/xr17032fast.c\<close>
  lines 719-867, 959-975, 1007-1020, 1065-1163, 1434-1453, 1732-1829, 2043-2129. A handler gets the
  block and the slot it executes and ends with a tail call or a return; the model returns
  which (\<open>XrTail\<close>) with the updated processor.
\<close>

section \<open>Tail calls\<close>

text \<open>\<open>TailAbort\<close> is the end of the host process (a trap or \<^verbatim>\<open>abort\<close>).\<close>

datatype XrTail = TailInst nat nat | TailCheckConditions | TailReturn | TailAbort

type_synonym XrInstImplF = "XrProcessor \<Rightarrow> nat \<Rightarrow> nat \<Rightarrow> XrTail \<times> XrProcessor"

definition XrInst :: "XrProcessor \<Rightarrow> nat \<Rightarrow> nat \<Rightarrow> XrCachedInst" where
  "XrInst proc block inst = Insts (Iblocks (Ibc proc) block) inst"

definition XR_NEXT_NO_PC :: XrInstImplF where
  "XR_NEXT_NO_PC proc block inst = (TailInst block (inst + 1), proc)"

definition XR_NEXT :: XrInstImplF where
  "XR_NEXT proc block inst = XR_NEXT_NO_PC (proc\<lparr>Pc := Pc proc + 4\<rparr>) block inst"

definition XR_DISPATCH :: "XrProcessor \<Rightarrow> nat \<Rightarrow> nat \<Rightarrow> XrTail \<times> XrProcessor" where
  "XR_DISPATCH proc block nextblock =
    (let proc' = proc\<lparr>CyclesDone := CyclesDone proc + ucast (IbCycles (Iblocks (Ibc proc) block)),
                      Dispatches := Dispatches proc + 1\<rparr>
     in if Dispatches proc AND 31 = 0 then (TailReturn, proc') else (TailInst nextblock 0, proc'))"

definition XR_TRIVIAL_EXIT :: "XrProcessor \<Rightarrow> nat \<Rightarrow> XrTail \<times> XrProcessor" where
  "XR_TRIVIAL_EXIT proc block =
    (TailCheckConditions,
     proc\<lparr>CyclesDone := CyclesDone proc + ucast (IbCycles (Iblocks (Ibc proc) block))\<rparr>)"

definition XR_EARLY_EXIT :: "XrProcessor \<Rightarrow> nat \<Rightarrow> XrTail \<times> XrProcessor" where
  "XR_EARLY_EXIT proc inst = (TailReturn, proc\<lparr>CyclesDone := CyclesDone proc + of_nat inst\<rparr>)"

definition XR_SET_RD :: "XrProcessor \<Rightarrow> nat \<Rightarrow> nat \<Rightarrow> u32 \<Rightarrow> XrProcessor" where
  "XR_SET_RD proc block inst v =
    proc\<lparr>Reg := (Reg proc)(unat (Imm8_1 (XrInst proc block inst)) := v)\<rparr>"

definition XR_REG_RD :: "XrProcessor \<Rightarrow> nat \<Rightarrow> nat \<Rightarrow> u32" where
  "XR_REG_RD proc block inst = Reg proc (unat (Imm8_1 (XrInst proc block inst)))"

definition XR_REG_RA :: "XrProcessor \<Rightarrow> nat \<Rightarrow> nat \<Rightarrow> u32" where
  "XR_REG_RA proc block inst = Reg proc (unat (Imm8_2 (XrInst proc block inst)))"

definition XR_REG_RB :: "XrProcessor \<Rightarrow> nat \<Rightarrow> nat \<Rightarrow> u32" where
  "XR_REG_RB proc block inst = Reg proc (unat (Imm32_1 (XrInst proc block inst)))"

text \<open>
  For \<open>n = 0\<close> the C expression shifts by the width; the second operand is then 0 here and
  \<open>x\<close> on the host, and the disjunction is \<open>x\<close> either way.
\<close>

definition RoR :: "u32 \<Rightarrow> u32 \<Rightarrow> u32" where
  "RoR x n = (let n = unat (n AND 31) in drop_bit n x OR push_bit (32 - n) x)"

section \<open>Register and immediate operations\<close>

definition XrExecuteNor :: XrInstImplF where
  "XrExecuteNor proc block inst =
    XR_NEXT (XR_SET_RD proc block inst (NOT (XR_REG_RA proc block inst OR XR_REG_RB proc block inst))) block inst"

definition XrExecuteOr :: XrInstImplF where
  "XrExecuteOr proc block inst =
    XR_NEXT (XR_SET_RD proc block inst (XR_REG_RA proc block inst OR XR_REG_RB proc block inst)) block inst"

definition XrExecuteXor :: XrInstImplF where
  "XrExecuteXor proc block inst =
    XR_NEXT (XR_SET_RD proc block inst (XR_REG_RA proc block inst XOR XR_REG_RB proc block inst)) block inst"

definition XrExecuteAnd :: XrInstImplF where
  "XrExecuteAnd proc block inst =
    XR_NEXT (XR_SET_RD proc block inst (XR_REG_RA proc block inst AND XR_REG_RB proc block inst)) block inst"

definition XrExecuteSltSigned :: XrInstImplF where
  "XrExecuteSltSigned proc block inst =
    XR_NEXT (XR_SET_RD proc block inst (
       (if sint (XR_REG_RA proc block inst) < sint (XR_REG_RB proc block inst) then 1 else 0))) block inst"

definition XrExecuteSlt :: XrInstImplF where
  "XrExecuteSlt proc block inst =
    XR_NEXT (XR_SET_RD proc block inst (
       (if XR_REG_RA proc block inst < XR_REG_RB proc block inst then 1 else 0))) block inst"

definition XrExecuteSub :: XrInstImplF where
  "XrExecuteSub proc block inst =
    XR_NEXT (XR_SET_RD proc block inst (XR_REG_RA proc block inst - XR_REG_RB proc block inst)) block inst"

definition XrExecuteAdd :: XrInstImplF where
  "XrExecuteAdd proc block inst =
    XR_NEXT (XR_SET_RD proc block inst (XR_REG_RA proc block inst + XR_REG_RB proc block inst)) block inst"

definition XrExecuteLsh :: XrInstImplF where
  "XrExecuteLsh proc block inst =
    XR_NEXT (XR_SET_RD proc block inst (
       push_bit (unat (XR_REG_RA proc block inst AND 31)) (XR_REG_RB proc block inst))) block inst"

definition XrExecuteRsh :: XrInstImplF where
  "XrExecuteRsh proc block inst =
    XR_NEXT (XR_SET_RD proc block inst (
       drop_bit (unat (XR_REG_RA proc block inst AND 31)) (XR_REG_RB proc block inst))) block inst"

definition XrExecuteAsh :: XrInstImplF where
  "XrExecuteAsh proc block inst =
    XR_NEXT (XR_SET_RD proc block inst (
       signed_drop_bit (unat (XR_REG_RA proc block inst AND 31)) (XR_REG_RB proc block inst))) block inst"

definition XrExecuteRor :: XrInstImplF where
  "XrExecuteRor proc block inst =
    XR_NEXT (XR_SET_RD proc block inst (
       RoR (XR_REG_RB proc block inst) (XR_REG_RA proc block inst AND 31))) block inst"

definition XrExecuteMod :: XrInstImplF where
  "XrExecuteMod proc block inst =
    XR_NEXT (XR_SET_RD proc block inst (
       (if XR_REG_RB proc block inst = 0 then 0 else XR_REG_RA proc block inst mod XR_REG_RB proc block inst))) block inst"

text \<open>The host division traps on the one overflowing quotient.\<close>

definition XrExecuteDivSigned :: XrInstImplF where
  "XrExecuteDivSigned proc block inst =
    (let val = XR_REG_RB proc block inst
     in if val = 0 then XR_NEXT (XR_SET_RD proc block inst 0) block inst
        else if XR_REG_RA proc block inst = 0x80000000 \<and> val = - 1 then (TailAbort, proc)
        else XR_NEXT (XR_SET_RD proc block inst
               (word_of_int (sint (XR_REG_RA proc block inst) sdiv sint val))) block inst)"

definition XrExecuteDiv :: XrInstImplF where
  "XrExecuteDiv proc block inst =
    XR_NEXT (XR_SET_RD proc block inst (
       (if XR_REG_RB proc block inst = 0 then 0 else XR_REG_RA proc block inst div XR_REG_RB proc block inst))) block inst"

definition XrExecuteMul :: XrInstImplF where
  "XrExecuteMul proc block inst =
    XR_NEXT (XR_SET_RD proc block inst (XR_REG_RA proc block inst * XR_REG_RB proc block inst)) block inst"

definition XrExecuteOri :: XrInstImplF where
  "XrExecuteOri proc block inst =
    XR_NEXT (XR_SET_RD proc block inst (
       XR_REG_RA proc block inst OR Imm32_1 (XrInst proc block inst))) block inst"

definition XrExecuteXori :: XrInstImplF where
  "XrExecuteXori proc block inst =
    XR_NEXT (XR_SET_RD proc block inst (
       XR_REG_RA proc block inst XOR Imm32_1 (XrInst proc block inst))) block inst"

definition XrExecuteAndi :: XrInstImplF where
  "XrExecuteAndi proc block inst =
    XR_NEXT (XR_SET_RD proc block inst (
       XR_REG_RA proc block inst AND Imm32_1 (XrInst proc block inst))) block inst"

definition XrExecuteSltiSigned :: XrInstImplF where
  "XrExecuteSltiSigned proc block inst =
    XR_NEXT (XR_SET_RD proc block inst (
       (if sint (XR_REG_RA proc block inst) < sint (Imm32_1 (XrInst proc block inst)) then 1 else 0))) block inst"

definition XrExecuteSlti :: XrInstImplF where
  "XrExecuteSlti proc block inst =
    XR_NEXT (XR_SET_RD proc block inst (
       (if XR_REG_RA proc block inst < Imm32_1 (XrInst proc block inst) then 1 else 0))) block inst"

definition XrExecuteSubi :: XrInstImplF where
  "XrExecuteSubi proc block inst =
    XR_NEXT (XR_SET_RD proc block inst (
       XR_REG_RA proc block inst - Imm32_1 (XrInst proc block inst))) block inst"

definition XrExecuteAddi :: XrInstImplF where
  "XrExecuteAddi proc block inst =
    XR_NEXT (XR_SET_RD proc block inst (
       XR_REG_RA proc block inst + Imm32_1 (XrInst proc block inst))) block inst"

definition XrExecuteAdr :: XrInstImplF where
  "XrExecuteAdr proc block inst =
    XR_NEXT (XR_SET_RD proc block inst (Imm32_1 (XrInst proc block inst))) block inst"

definition XrExecuteVirtualLsh :: XrInstImplF where
  "XrExecuteVirtualLsh proc block inst =
    XR_NEXT_NO_PC (proc\<lparr>Reg := (Reg proc)(XR_FAKE_SHIFT_SINK :=
       push_bit (unat (Imm8_2 (XrInst proc block inst))) (XR_REG_RD proc block inst))\<rparr>) block inst"

definition XrExecuteVirtualRsh :: XrInstImplF where
  "XrExecuteVirtualRsh proc block inst =
    XR_NEXT_NO_PC (proc\<lparr>Reg := (Reg proc)(XR_FAKE_SHIFT_SINK :=
       drop_bit (unat (Imm8_2 (XrInst proc block inst))) (XR_REG_RD proc block inst))\<rparr>) block inst"

definition XrExecuteVirtualAsh :: XrInstImplF where
  "XrExecuteVirtualAsh proc block inst =
    XR_NEXT_NO_PC (proc\<lparr>Reg := (Reg proc)(XR_FAKE_SHIFT_SINK :=
       signed_drop_bit (unat (Imm8_2 (XrInst proc block inst))) (XR_REG_RD proc block inst))\<rparr>) block inst"

definition XrExecuteVirtualRor :: XrInstImplF where
  "XrExecuteVirtualRor proc block inst =
    XR_NEXT_NO_PC (proc\<lparr>Reg := (Reg proc)(XR_FAKE_SHIFT_SINK :=
       RoR (XR_REG_RD proc block inst) (ucast (Imm8_2 (XrInst proc block inst))))\<rparr>) block inst"

section \<open>Instructions that enter or leave the kernel\<close>

definition XrExecuteIllegalInstruction :: XrInstImplF where
  "XrExecuteIllegalInstruction proc block inst =
    XR_TRIVIAL_EXIT (XrBasicException proc XR_EXC_INV (Pc proc)) block"

definition XrExecuteSys :: XrInstImplF where
  "XrExecuteSys proc block inst =
    XR_TRIVIAL_EXIT (XrBasicException proc XR_EXC_SYS (Pc proc + 4)) block"

definition XrExecuteBrk :: XrInstImplF where
  "XrExecuteBrk proc block inst =
    XR_TRIVIAL_EXIT (XrBasicException proc XR_EXC_BRK (Pc proc + 4)) block"

definition XrExecutePause :: XrInstImplF where
  "XrExecutePause proc block inst =
    (let proc' = proc\<lparr>PauseCalls := PauseCalls proc + 1\<rparr>
     in if PauseCalls proc \<ge> XR_PAUSE_MAX then XR_EARLY_EXIT (proc'\<lparr>Pc := Pc proc' + 4\<rparr>) inst
        else XR_NEXT proc' block inst)"

definition XrExecuteRfe :: XrInstImplF where
  "XrExecuteRfe proc block inst =
    (let proc = proc\<lparr>Locked := False\<rparr>
     in if Cr proc RS AND RS_USER \<noteq> 0
        then XR_EARLY_EXIT (XrBasicException proc XR_EXC_PRV (Pc proc)) inst
        else XR_TRIVIAL_EXIT (XrRfeRestore proc) block)"

definition XrExecuteHlt :: XrInstImplF where
  "XrExecuteHlt proc block inst =
    (if Cr proc RS AND RS_USER \<noteq> 0
     then XR_EARLY_EXIT (XrBasicException proc XR_EXC_PRV (Pc proc)) inst
     else XR_TRIVIAL_EXIT (proc\<lparr>Halted := True, Pc := Pc proc + 4\<rparr>) block)"

definition XrExecuteMfcr :: XrInstImplF where
  "XrExecuteMfcr proc block inst =
    (if Cr proc RS AND RS_USER \<noteq> 0
     then XR_EARLY_EXIT (XrBasicException proc XR_EXC_PRV (Pc proc)) inst
     else let proc = proc\<lparr>NmiMaskCounter := NMI_MASK_CYCLES\<rparr>
          in XR_NEXT (XR_SET_RD proc block inst
               (Cr proc (unat (Imm8_2 (XrInst proc block inst))))) block inst)"

section \<open>The handler a pointer denotes\<close>

fun XrRegImpl :: "XrRegFunc \<Rightarrow> XrInstImplF" where
  "XrRegImpl ExecuteNor = XrExecuteNor"
| "XrRegImpl ExecuteOr = XrExecuteOr"
| "XrRegImpl ExecuteXor = XrExecuteXor"
| "XrRegImpl ExecuteAnd = XrExecuteAnd"
| "XrRegImpl ExecuteSltSigned = XrExecuteSltSigned"
| "XrRegImpl ExecuteSlt = XrExecuteSlt"
| "XrRegImpl ExecuteSub = XrExecuteSub"
| "XrRegImpl ExecuteAdd = XrExecuteAdd"
| "XrRegImpl ExecuteLsh = XrExecuteLsh"
| "XrRegImpl ExecuteRsh = XrExecuteRsh"
| "XrRegImpl ExecuteAsh = XrExecuteAsh"
| "XrRegImpl ExecuteRor = XrExecuteRor"
| "XrRegImpl ExecuteMod = XrExecuteMod"
| "XrRegImpl ExecuteDivSigned = XrExecuteDivSigned"
| "XrRegImpl ExecuteDiv = XrExecuteDiv"
| "XrRegImpl ExecuteMul = XrExecuteMul"

fun XrImmImpl :: "XrImmFunc \<Rightarrow> XrInstImplF" where
  "XrImmImpl ExecuteOri = XrExecuteOri"
| "XrImmImpl ExecuteXori = XrExecuteXori"
| "XrImmImpl ExecuteAndi = XrExecuteAndi"
| "XrImmImpl ExecuteSltiSigned = XrExecuteSltiSigned"
| "XrImmImpl ExecuteSlti = XrExecuteSlti"
| "XrImmImpl ExecuteSubi = XrExecuteSubi"
| "XrImmImpl ExecuteAddi = XrExecuteAddi"
| "XrImmImpl ExecuteAdr = XrExecuteAdr"

text \<open>\<open>None\<close>: the handler uses the caches, in theory \<open>Execute\<close>.\<close>

fun XrSysImpl :: "XrSysFunc \<Rightarrow> XrInstImplF option" where
  "XrSysImpl ExecuteIllegalInstruction = Some XrExecuteIllegalInstruction"
| "XrSysImpl ExecuteSys = Some XrExecuteSys"
| "XrSysImpl ExecuteBrk = Some XrExecuteBrk"
| "XrSysImpl ExecuteWmb = None"
| "XrSysImpl ExecuteMb = None"
| "XrSysImpl ExecutePause = Some XrExecutePause"
| "XrSysImpl ExecuteRfe = Some XrExecuteRfe"
| "XrSysImpl ExecuteHlt = Some XrExecuteHlt"
| "XrSysImpl ExecuteMtcr = None"
| "XrSysImpl ExecuteMfcr = Some XrExecuteMfcr"
| "XrSysImpl ExecuteVirtualLsh = Some XrExecuteVirtualLsh"
| "XrSysImpl ExecuteVirtualRsh = Some XrExecuteVirtualRsh"
| "XrSysImpl ExecuteVirtualAsh = Some XrExecuteVirtualAsh"
| "XrSysImpl ExecuteVirtualRor = Some XrExecuteVirtualRor"

fun XrLocalImpl :: "XrFunc \<Rightarrow> XrInstImplF option" where
  "XrLocalImpl (FReg f) = Some (XrRegImpl f)"
| "XrLocalImpl (FImm f) = Some (XrImmImpl f)"
| "XrLocalImpl (FSys f) = XrSysImpl f"
| "XrLocalImpl (FMem f) = None"
| "XrLocalImpl (FFlow f) = None"

end
