(* ===== verification/Isa.thy ===== *)
theory Isa
  imports ExecuteReg
begin

text \<open>
  The instruction set the cached interpreter implements, as a reference semantics of its
  register and immediate instructions, and the proof that decoding followed by running
  the cached instructions has that meaning. The interpreter computes an inline shift by
  a virtual instruction into register 33 and redirects a zero source to register 32; the
  reference has neither.
\<close>

section \<open>Reference semantics\<close>

text \<open>Register 0 reads as zero, except in TB miss handlers, where it is a scratch register.\<close>

definition arch_reg :: "bool \<Rightarrow> (nat \<Rightarrow> u32) \<Rightarrow> nat \<Rightarrow> u32" where
  "arch_reg tbmiss R r = (if \<not> tbmiss \<and> r = 0 then 0 else R r)"

definition isa_shift :: "nat \<Rightarrow> nat \<Rightarrow> u32 \<Rightarrow> u32" where
  "isa_shift k n x = (if k = 0 then push_bit n x else if k = 1 then drop_bit n x
     else if k = 2 then signed_drop_bit n x else word_rotr n x)"

definition fld_rd :: "u32 \<Rightarrow> nat" where "fld_rd ir = unat (drop_bit 6 ir AND 31)"
definition fld_ra :: "u32 \<Rightarrow> nat" where "fld_ra ir = unat (drop_bit 11 ir AND 31)"
definition fld_rb :: "u32 \<Rightarrow> nat" where "fld_rb ir = unat (drop_bit 16 ir AND 31)"
definition fld_shamt :: "u32 \<Rightarrow> nat" where "fld_shamt ir = unat (drop_bit 21 ir AND 31)"
definition fld_shop :: "u32 \<Rightarrow> nat" where "fld_shop ir = unat (drop_bit 26 ir AND 3)"
definition fld_func :: "u32 \<Rightarrow> nat" where "fld_func ir = unat (drop_bit 28 ir)"

text \<open>Quotients by zero are zero; signed division truncates toward zero.\<close>

definition isa_reg_op :: "u32 \<Rightarrow> (u32 \<Rightarrow> u32 \<Rightarrow> u32) option" where
  "isa_reg_op ir =
    (if unat (ir AND 63) = 57 then
       (if fld_func ir = 0 then Some (\<lambda>a b. NOT (a OR b))
        else if fld_func ir = 1 then Some (\<lambda>a b. a OR b)
        else if fld_func ir = 2 then Some (\<lambda>a b. a XOR b)
        else if fld_func ir = 3 then Some (\<lambda>a b. a AND b)
        else if fld_func ir = 4 then Some (\<lambda>a b. if sint a < sint b then 1 else 0)
        else if fld_func ir = 5 then Some (\<lambda>a b. if unat a < unat b then 1 else 0)
        else if fld_func ir = 6 then Some (\<lambda>a b. a - b)
        else if fld_func ir = 7 then Some (\<lambda>a b. a + b)
        else None)
     else if unat (ir AND 63) = 49 then
       (if fld_func ir = 11 then Some (\<lambda>a b. of_nat (if b = 0 then 0 else unat a mod unat b))
        else if fld_func ir = 12 then Some (\<lambda>a b. word_of_int (if b = 0 then 0 else sint a sdiv sint b))
        else if fld_func ir = 13 then Some (\<lambda>a b. of_nat (unat a div unat b))
        else if fld_func ir = 15 then Some (\<lambda>a b. of_nat (unat a * unat b))
        else None)
     else None)"

text \<open>The one case the hardware-independent reference leaves open: the quotient does not fit.\<close>

definition isa_reg_defined :: "u32 \<Rightarrow> u32 \<Rightarrow> u32 \<Rightarrow> bool" where
  "isa_reg_defined ir a b \<longleftrightarrow>
     \<not> (unat (ir AND 63) = 49 \<and> fld_func ir = 12 \<and> a = 0x80000000 \<and> b = - 1)"

section \<open>Running cached instructions\<close>

fun XrRunLocal :: "nat \<Rightarrow> XrProcessor \<Rightarrow> nat \<Rightarrow> nat \<Rightarrow> XrTail \<times> XrProcessor" where
  "XrRunLocal 0 proc block i = (TailInst block i, proc)"
| "XrRunLocal (Suc n) proc block i =
    (case XrLocalImpl (Func (XrInst proc block i)) of
       None \<Rightarrow> (TailInst block i, proc)
     | Some f \<Rightarrow> (case f proc block i of
                    (TailInst b j, proc') \<Rightarrow> XrRunLocal n proc' b j
                  | r \<Rightarrow> r))"

section \<open>Fields\<close>

lemma and_31_mask: "(w :: u32) AND 31 = w AND mask 5" "(w :: u32) AND 3 = w AND mask 2"
  "(w :: u32) AND 63 = w AND mask 6"  "(w :: u32) AND 7 = w AND mask 3"
  by (simp_all add: mask_eq_exp_minus_1)

lemma unat_and_31: "unat ((w :: u32) AND 31) = unat w mod 32" "unat ((w :: u32) AND 3) = unat w mod 4"
  "unat ((w :: u32) AND 63) = unat w mod 64" "unat ((w :: u32) AND 7) = unat w mod 8"
  unfolding and_31_mask unat_and_mask by simp_all

lemma fld_less: "fld_rd ir < 32" "fld_ra ir < 32" "fld_rb ir < 32" "fld_shamt ir < 32" "fld_shop ir < 4"
  by (simp_all add: fld_rd_def fld_ra_def fld_rb_def fld_shamt_def fld_shop_def unat_and_31)

lemma unat_u8 [simp]: "unat (ucast ((w :: u32) AND 31) :: u8) = unat (w AND 31)"
  by (simp add: unat_ucast_mod unat_and_31)

lemma redirect_reg:
  assumes "unat s < 32" "R 32 = 0"
  shows "R (unat (XR_REDIRECT_ZERO_SRC proc s)) = arch_reg (Cr proc RS AND RS_TBMISS \<noteq> 0) R (unat s)"
    "R (unat (ucast (XR_REDIRECT_ZERO_SRC proc s) :: u8)) =
      arch_reg (Cr proc RS AND RS_TBMISS \<noteq> 0) R (unat s)"
  using assms by (auto simp: XR_REDIRECT_ZERO_SRC_def arch_reg_def unat_ucast_mod unat_eq_0)

lemma RoR_rotr: "RoR x n = word_rotr (unat n mod 32) x"
proof (rule bit_word_eqI)
  fix k assume "k < LENGTH(32)"
  then have k: "k < 32" by simp
  define m where "m = unat n mod 32"
  have m: "m < 32" by (simp add: m_def)
  have "bit (drop_bit m x OR push_bit (32 - m) x) k \<longleftrightarrow> bit x ((k + m) mod 32)"
  proof (cases "k + m < 32")
    case True
    then show ?thesis using k by (auto simp: bit_simps add.commute)
  next
    case False
    then have "(k + m) mod 32 = k + m - 32" using k m by (simp add: mod_if)
    moreover have "\<not> bit x (k + m)" using False by (auto dest: bit_imp_le_length)
    moreover have "k - (32 - m) = k + m - 32" using False m by simp
    ultimately show ?thesis using False k m by (auto simp: bit_simps add.commute)
  qed
  then show "bit (RoR x n) k \<longleftrightarrow> bit (word_rotr (unat n mod 32) x) k"
    using k by (simp add: RoR_def Let_def unat_and_31 m_def bit_word_rotr_iff)
qed

section \<open>Register instructions\<close>

text \<open>
  What the sixteen register handlers share: the decode routine emits the optional virtual
  shift and one instruction with the redirected fields, and the handler writes \<open>op\<close> of its
  two source registers to the destination, where \<open>ok\<close> says the operation is defined.
\<close>

locale register_instruction =
  fixes dec :: XrDecodeInstructionF
    and f :: XrRegFunc
    and op :: "u32 \<Rightarrow> u32 \<Rightarrow> u32"
    and ok :: "u32 \<Rightarrow> u32 \<Rightarrow> bool"
  assumes decodes: "dec proc insts inst ir pc =
      (let (insts, inst, rb) = XR_INSERT_SHIFT ir insts inst
             (XR_REDIRECT_ZERO_SRC proc (drop_bit 16 ir AND 31))
       in (Some (inst + 1), insts(inst := (insts inst)\<lparr>Func := FReg f,
             Imm8_1 := ucast (drop_bit 6 ir AND 31),
             Imm8_2 := ucast (XR_REDIRECT_ZERO_SRC proc (drop_bit 11 ir AND 31)), Imm32_1 := rb\<rparr>)))"
    and computes: "ok (XR_REG_RA proc block i) (XR_REG_RB proc block i) \<Longrightarrow>
      XrRegImpl f proc block i =
        XR_NEXT (XR_SET_RD proc block i (op (XR_REG_RA proc block i) (XR_REG_RB proc block i))) block i"
begin

lemma plain:
  assumes z: "fld_shamt ir = 0" and fake: "Reg proc XR_FAKE_ZERO_REGISTER = 0"
    and tb: "(Cr proc RS AND RS_TBMISS \<noteq> 0) = (Cr proc0 RS AND RS_TBMISS \<noteq> 0)"
    and insts: "Insts (Iblocks (Ibc proc) block) i = snd (dec proc0 insts i ir pc) i"
    and defd: "ok (arch_reg (Cr proc RS AND RS_TBMISS \<noteq> 0) (Reg proc) (fld_ra ir))
                  (arch_reg (Cr proc RS AND RS_TBMISS \<noteq> 0) (Reg proc) (fld_rb ir))"
  shows "fst (dec proc0 insts i ir pc) = Some (i + 1) \<and>
    XrRunLocal 1 proc block i = (TailInst block (i + 1), proc\<lparr>Reg := (Reg proc)(fld_rd ir :=
      op (arch_reg (Cr proc RS AND RS_TBMISS \<noteq> 0) (Reg proc) (fld_ra ir))
         (arch_reg (Cr proc RS AND RS_TBMISS \<noteq> 0) (Reg proc) (fld_rb ir))),
      Pc := Pc proc + 4\<rparr>)"
proof -
  have sh: "drop_bit 21 ir AND 31 = 0" using z by (simp add: fld_shamt_def unat_eq_0)
  have inst: "XrInst proc block i = (insts i)\<lparr>Func := FReg f,
      Imm8_1 := ucast (drop_bit 6 ir AND 31),
      Imm8_2 := ucast (XR_REDIRECT_ZERO_SRC proc0 (drop_bit 11 ir AND 31)),
      Imm32_1 := XR_REDIRECT_ZERO_SRC proc0 (drop_bit 16 ir AND 31)\<rparr>"
    using insts by (simp add: XrInst_def decodes XR_INSERT_SHIFT_def sh)
  have regs: "XR_REG_RA proc block i = arch_reg (Cr proc RS AND RS_TBMISS \<noteq> 0) (Reg proc) (fld_ra ir)"
    "XR_REG_RB proc block i = arch_reg (Cr proc RS AND RS_TBMISS \<noteq> 0) (Reg proc) (fld_rb ir)"
    using redirect_reg [of "drop_bit 11 ir AND 31" "Reg proc" proc0]
      redirect_reg [of "drop_bit 16 ir AND 31" "Reg proc" proc0] fake fld_less(2,3) [of ir]
    unfolding tb
    by (simp_all add: XR_REG_RA_def XR_REG_RB_def inst fld_ra_def fld_rb_def)
  have "XrRegImpl f proc block i = XR_NEXT (XR_SET_RD proc block i (op (XR_REG_RA proc block i)
      (XR_REG_RB proc block i))) block i"
    using defd by (intro computes) (simp add: regs)
  then show ?thesis
    unfolding regs by (simp add: decodes XR_INSERT_SHIFT_def sh inst XR_NEXT_def XR_NEXT_NO_PC_def
        XR_SET_RD_def fld_rd_def)
qed

lemma shifted:
  assumes nz: "fld_shamt ir \<noteq> 0" and fake: "Reg proc XR_FAKE_ZERO_REGISTER = 0"
    and tb: "(Cr proc RS AND RS_TBMISS \<noteq> 0) = (Cr proc0 RS AND RS_TBMISS \<noteq> 0)"
    and insts: "Insts (Iblocks (Ibc proc) block) i = snd (dec proc0 insts i ir pc) i"
      "Insts (Iblocks (Ibc proc) block) (i + 1) = snd (dec proc0 insts i ir pc) (i + 1)"
    and defd: "ok (arch_reg (Cr proc RS AND RS_TBMISS \<noteq> 0) (Reg proc) (fld_ra ir)) b"
    and b: "b = isa_shift (fld_shop ir) (fld_shamt ir)
               (arch_reg (Cr proc RS AND RS_TBMISS \<noteq> 0) (Reg proc) (fld_rb ir))"
  shows "fst (dec proc0 insts i ir pc) = Some (i + 2) \<and>
    XrRunLocal 2 proc block i = (TailInst block (i + 2), proc\<lparr>Reg := (Reg proc)(XR_FAKE_SHIFT_SINK := b,
      fld_rd ir := op (arch_reg (Cr proc RS AND RS_TBMISS \<noteq> 0) (Reg proc) (fld_ra ir)) b),
      Pc := Pc proc + 4\<rparr>)"
proof -
  have sh: "drop_bit 21 ir AND 31 \<noteq> 0" using nz by (auto simp: fld_shamt_def)
  let ?v = "(insts i)\<lparr>Func := XrVirtualShiftInstructionTable (unat (drop_bit 26 ir AND 3)),
      Imm8_1 := ucast (XR_REDIRECT_ZERO_SRC proc0 (drop_bit 16 ir AND 31)),
      Imm8_2 := ucast (drop_bit 21 ir AND 31)\<rparr>"
  have v: "XrInst proc block i = ?v"
    using insts(1) by (simp add: XrInst_def decodes XR_INSERT_SHIFT_def sh)
  define proc1 where "proc1 = proc\<lparr>Reg := (Reg proc)(XR_FAKE_SHIFT_SINK := b)\<rparr>"
  have src: "XR_REG_RD proc block i = arch_reg (Cr proc RS AND RS_TBMISS \<noteq> 0) (Reg proc) (fld_rb ir)"
    using redirect_reg(2) [of "drop_bit 16 ir AND 31" "Reg proc" proc0] fake fld_less(3) [of ir]
    unfolding tb
    by (simp add: XR_REG_RD_def v fld_rb_def)
  have k: "fld_shop ir = 0 \<or> fld_shop ir = 1 \<or> fld_shop ir = 2 \<or> fld_shop ir = 3"
    using fld_less(5) [of ir] by auto
  have first: "(case XrLocalImpl (Func ?v) of None \<Rightarrow> (TailInst block i, proc)
      | Some g \<Rightarrow> g proc block i) = (TailInst block (i + 1), proc1)"
    using k fld_less(4) [of ir] unfolding fld_shop_def
    by (auto simp: XrVirtualShiftInstructionTable_def XrExecuteVirtualLsh_def XrExecuteVirtualRsh_def
        XrExecuteVirtualAsh_def XrExecuteVirtualRor_def XR_NEXT_NO_PC_def v src proc1_def b
        isa_shift_def fld_shop_def fld_shamt_def RoR_rotr unat_ucast_mod unat_and_31)
  have inst: "XrInst proc1 block (i + 1) = (insts (i + 1))\<lparr>Func := FReg f,
      Imm8_1 := ucast (drop_bit 6 ir AND 31),
      Imm8_2 := ucast (XR_REDIRECT_ZERO_SRC proc0 (drop_bit 11 ir AND 31)),
      Imm32_1 := of_nat XR_FAKE_SHIFT_SINK\<rparr>"
    using insts(2) by (simp add: XrInst_def decodes XR_INSERT_SHIFT_def sh proc1_def)
  have fake1: "Reg proc1 32 = 0" using fake by (simp add: proc1_def)
  then have "XR_REG_RA proc1 block (i + 1) = arch_reg (Cr proc RS AND RS_TBMISS \<noteq> 0) (Reg proc1) (fld_ra ir)"
    using redirect_reg(2) [of "drop_bit 11 ir AND 31" "Reg proc1" proc0] fld_less(2) [of ir]
    unfolding tb XR_REG_RA_def inst by (simp add: fld_ra_def)
  then have regs: "XR_REG_RA proc1 block (i + 1)
      = arch_reg (Cr proc RS AND RS_TBMISS \<noteq> 0) (Reg proc) (fld_ra ir)" "XR_REG_RB proc1 block (i + 1) = b"
    using fld_less(2) [of ir] by (simp_all add: arch_reg_def proc1_def XR_REG_RB_def inst [unfolded proc1_def, simplified])
  have "XrRegImpl f proc1 block (i + 1) = XR_NEXT (XR_SET_RD proc1 block (i + 1)
      (op (XR_REG_RA proc1 block (i + 1)) (XR_REG_RB proc1 block (i + 1)))) block (i + 1)"
    using defd by (intro computes) (simp only: regs)
  then have second: "XrRunLocal 1 proc1 block (i + 1) = (TailInst block (i + 2), proc\<lparr>Reg :=
      (Reg proc)(XR_FAKE_SHIFT_SINK := b,
        fld_rd ir := op (arch_reg (Cr proc RS AND RS_TBMISS \<noteq> 0) (Reg proc) (fld_ra ir)) b),
      Pc := Pc proc + 4\<rparr>)"
    unfolding regs
    by (simp add: inst [simplified] XR_NEXT_def XR_NEXT_NO_PC_def XR_SET_RD_def fld_rd_def)
       (simp add: proc1_def)
  have "XrRunLocal 2 proc block i = XrRunLocal 1 proc1 block (i + 1)"
    using first by (simp add: numeral_2_eq_2 v split: option.splits prod.splits)
  then show ?thesis
    using second by (simp add: decodes XR_INSERT_SHIFT_def sh)
qed

end

interpretation nor_i: register_instruction XrDecodeNor ExecuteNor
  "\<lambda>a b. NOT (a OR b)" "\<lambda>_ _. True"
  by unfold_locales (auto simp: XrDecodeNor_def XrExecuteNor_def)

interpretation or_i: register_instruction XrDecodeOr ExecuteOr
  "\<lambda>a b. a OR b" "\<lambda>_ _. True"
  by unfold_locales (auto simp: XrDecodeOr_def XrExecuteOr_def)

interpretation xor_i: register_instruction XrDecodeXor ExecuteXor
  "\<lambda>a b. a XOR b" "\<lambda>_ _. True"
  by unfold_locales (auto simp: XrDecodeXor_def XrExecuteXor_def)

interpretation and_i: register_instruction XrDecodeAnd ExecuteAnd
  "\<lambda>a b. a AND b" "\<lambda>_ _. True"
  by unfold_locales (auto simp: XrDecodeAnd_def XrExecuteAnd_def)

interpretation sltsigned_i: register_instruction XrDecodeSltSigned ExecuteSltSigned
  "\<lambda>a b. if sint a < sint b then 1 else 0" "\<lambda>_ _. True"
  by unfold_locales (auto simp: XrDecodeSltSigned_def XrExecuteSltSigned_def)

interpretation slt_i: register_instruction XrDecodeSlt ExecuteSlt
  "\<lambda>a b. if unat a < unat b then 1 else 0" "\<lambda>_ _. True"
  by unfold_locales (auto simp: XrDecodeSlt_def XrExecuteSlt_def word_less_nat_alt)

interpretation sub_i: register_instruction XrDecodeSub ExecuteSub
  "\<lambda>a b. a - b" "\<lambda>_ _. True"
  by unfold_locales (auto simp: XrDecodeSub_def XrExecuteSub_def)

interpretation add_i: register_instruction XrDecodeAdd ExecuteAdd
  "\<lambda>a b. a + b" "\<lambda>_ _. True"
  by unfold_locales (auto simp: XrDecodeAdd_def XrExecuteAdd_def)

interpretation mod_i: register_instruction XrDecodeMod ExecuteMod
  "\<lambda>a b. of_nat (if b = 0 then 0 else unat a mod unat b)" "\<lambda>_ _. True"
  by unfold_locales (auto simp: XrDecodeMod_def XrExecuteMod_def word_arith_nat_mod)

interpretation divsigned_i: register_instruction XrDecodeDivSigned ExecuteDivSigned
  "\<lambda>a b. word_of_int (if b = 0 then 0 else sint a sdiv sint b)" "\<lambda>a b. \<not> (a = 0x80000000 \<and> b = - 1)"
  by unfold_locales (auto simp: XrDecodeDivSigned_def XrExecuteDivSigned_def Let_def)

interpretation div_i: register_instruction XrDecodeDiv ExecuteDiv
  "\<lambda>a b. of_nat (unat a div unat b)" "\<lambda>_ _. True"
  by unfold_locales (auto simp: XrDecodeDiv_def XrExecuteDiv_def word_arith_nat_div)

interpretation mul_i: register_instruction XrDecodeMul ExecuteMul
  "\<lambda>a b. of_nat (unat a * unat b)" "\<lambda>_ _. True"
  by unfold_locales (auto simp: XrDecodeMul_def XrExecuteMul_def)


section \<open>Immediate instructions\<close>

text \<open>The seven immediate operations; the immediate of \<open>slti signed\<close> is sign-extended.\<close>

definition isa_imm_op :: "u32 \<Rightarrow> (u32 \<Rightarrow> u32 \<Rightarrow> u32) option" where
  "isa_imm_op ir =
    (let m = unat (ir AND 63) in
     if m = 4 then Some (\<lambda>a i. a OR push_bit 16 i)
     else if m = 12 then Some (\<lambda>a i. a OR i)
     else if m = 20 then Some (\<lambda>a i. a XOR i)
     else if m = 28 then Some (\<lambda>a i. a AND i)
     else if m = 36 then Some (\<lambda>a i. if sint a < sint (ucast i :: 16 word) then 1 else 0)
     else if m = 44 then Some (\<lambda>a i. if unat a < unat i then 1 else 0)
     else if m = 52 then Some (\<lambda>a i. a - i)
     else if m = 60 then Some (\<lambda>a i. a + i)
     else None)"

locale immediate_instruction =
  fixes dec :: XrDecodeInstructionF
    and f :: XrImmFunc
    and imm :: "u32 \<Rightarrow> u32"
    and op :: "u32 \<Rightarrow> u32 \<Rightarrow> u32"
  assumes decodes: "dec proc insts inst ir pc =
      (Some (inst + 1), insts(inst := (insts inst)\<lparr>Func := FImm f,
             Imm8_1 := ucast (drop_bit 6 ir AND 31),
             Imm8_2 := ucast (XR_REDIRECT_ZERO_SRC proc (drop_bit 11 ir AND 31)),
             Imm32_1 := imm (drop_bit 16 ir)\<rparr>))"
    and computes: "Imm32_1 (XrInst proc block i) = imm v \<Longrightarrow> unat v < 2 ^ 16 \<Longrightarrow>
      XrImmImpl f proc block i =
        XR_NEXT (XR_SET_RD proc block i (op (XR_REG_RA proc block i) v)) block i"
begin

lemma correct:
  assumes fake: "Reg proc XR_FAKE_ZERO_REGISTER = 0"
    and tb: "(Cr proc RS AND RS_TBMISS \<noteq> 0) = (Cr proc0 RS AND RS_TBMISS \<noteq> 0)"
    and insts: "Insts (Iblocks (Ibc proc) block) i = snd (dec proc0 insts i ir pc) i"
  shows "fst (dec proc0 insts i ir pc) = Some (i + 1) \<and>
    XrRunLocal 1 proc block i = (TailInst block (i + 1), proc\<lparr>Reg := (Reg proc)(fld_rd ir :=
      op (arch_reg (Cr proc RS AND RS_TBMISS \<noteq> 0) (Reg proc) (fld_ra ir)) (drop_bit 16 ir)),
      Pc := Pc proc + 4\<rparr>)"
proof -
  have inst: "XrInst proc block i = (insts i)\<lparr>Func := FImm f,
      Imm8_1 := ucast (drop_bit 6 ir AND 31),
      Imm8_2 := ucast (XR_REDIRECT_ZERO_SRC proc0 (drop_bit 11 ir AND 31)),
      Imm32_1 := imm (drop_bit 16 ir)\<rparr>"
    using insts by (simp add: XrInst_def decodes)
  have reg: "XR_REG_RA proc block i = arch_reg (Cr proc RS AND RS_TBMISS \<noteq> 0) (Reg proc) (fld_ra ir)"
    using redirect_reg [of "drop_bit 11 ir AND 31" "Reg proc" proc0] fake fld_less(2) [of ir]
    unfolding tb by (simp add: XR_REG_RA_def inst fld_ra_def)
  have "unat (drop_bit 16 ir) < 2 ^ 16"
    using unsigned_less [of ir, where 'a = nat] by (simp add: unat_drop_bit)
  then have "XrImmImpl f proc block i = XR_NEXT (XR_SET_RD proc block i
      (op (XR_REG_RA proc block i) (drop_bit 16 ir))) block i"
    by (intro computes) (simp_all add: inst)
  then show ?thesis
    unfolding reg by (simp add: decodes inst XR_NEXT_def XR_NEXT_NO_PC_def XR_SET_RD_def fld_rd_def)
qed

end

lemma SignExt16_sint:
  assumes "unat v < 2 ^ 16"
  shows "sint (SignExt16 v) = sint (ucast v :: 16 word)"
proof -
  have "SignExt16 v = scast (ucast v :: 16 word)"
    by (rule bit_word_eqI) (auto simp: SignExt16_def bit_simps not_le)
  then show ?thesis by (simp add: sint_up_scast is_up)
qed

interpretation lui_i: immediate_instruction XrDecodeLui ExecuteOri "push_bit 16"
  "\<lambda>a i. a OR push_bit 16 i"
  by unfold_locales (simp_all add: XrDecodeLui_def XrExecuteOri_def)

interpretation ori_i: immediate_instruction XrDecodeOri ExecuteOri "id"
  "\<lambda>a i. a OR i"
  by unfold_locales (simp_all add: XrDecodeOri_def XrExecuteOri_def)

interpretation xori_i: immediate_instruction XrDecodeXori ExecuteXori "id"
  "\<lambda>a i. a XOR i"
  by unfold_locales (simp_all add: XrDecodeXori_def XrExecuteXori_def)

interpretation andi_i: immediate_instruction XrDecodeAndi ExecuteAndi "id"
  "\<lambda>a i. a AND i"
  by unfold_locales (simp_all add: XrDecodeAndi_def XrExecuteAndi_def)

interpretation sltisigned_i: immediate_instruction XrDecodeSltiSigned ExecuteSltiSigned "SignExt16"
  "\<lambda>a i. if sint a < sint (ucast i :: 16 word) then 1 else 0"
  by unfold_locales (simp_all add: XrDecodeSltiSigned_def XrExecuteSltiSigned_def SignExt16_sint)

interpretation slti_i: immediate_instruction XrDecodeSlti ExecuteSlti "id"
  "\<lambda>a i. if unat a < unat i then 1 else 0"
  by unfold_locales (simp_all add: XrDecodeSlti_def XrExecuteSlti_def word_less_nat_alt)

interpretation subi_i: immediate_instruction XrDecodeSubi ExecuteSubi "id"
  "\<lambda>a i. a - i"
  by unfold_locales (simp_all add: XrDecodeSubi_def XrExecuteSubi_def)

interpretation addi_i: immediate_instruction XrDecodeAddi ExecuteAddi "id"
  "\<lambda>a i. a + i"
  by unfold_locales (simp_all add: XrDecodeAddi_def XrExecuteAddi_def)

section \<open>Properties\<close>

text \<open>The two slots an instruction decoded at slot \<open>i\<close> may fill are those of the block.\<close>

definition decoded_at :: "XrProcessor \<Rightarrow> nat \<Rightarrow> nat \<Rightarrow> (nat \<Rightarrow> XrCachedInst) \<Rightarrow> bool" where
  "decoded_at proc block i insts \<longleftrightarrow>
     Insts (Iblocks (Ibc proc) block) i = insts i \<and>
     Insts (Iblocks (Ibc proc) block) (i + 1) = insts (i + 1)"

text \<open>The state a register or immediate instruction leaves, up to the fake shift register.\<close>

definition isa_result :: "XrProcessor \<Rightarrow> nat \<Rightarrow> u32 \<Rightarrow> XrProcessor \<Rightarrow> bool" where
  "isa_result proc rd v proc' \<longleftrightarrow>
     proc' = proc\<lparr>Reg := Reg proc', Pc := Pc proc + 4\<rparr> \<and>
     (\<forall>r\<le>XR_FAKE_ZERO_REGISTER. Reg proc' r = (if r = rd then v else Reg proc r))"

lemma isa_shift_0: "isa_shift k 0 x = x"
proof -
  have "word_rotr 0 x = x" by (rule bit_word_eqI) (simp add: bit_word_rotr_iff)
  then show ?thesis by (simp add: isa_shift_def)
qed

lemma low_six: "unat (ir AND 63) = m \<Longrightarrow> unat (ir AND 7) = m mod 8" for ir :: u32
  unfolding unat_and_31 using mod_mod_cancel [of 8 64 "unat ir"] by simp

lemma decode_57:
  "unat (ir AND 63) = 57 \<Longrightarrow> XrDecodeLowThree (unat (ir AND 7)) proc insts i ir pc =
     XrDecodeFunctions111001 (fld_func ir) proc insts i ir pc"
  using low_six [of ir 57]
  by (simp add: XrDecodeLowThree_def XrDecodeMajor_def XrDecodeLowSix_def XrDecode111001_def fld_func_def)

lemma decode_49:
  "unat (ir AND 63) = 49 \<Longrightarrow> XrDecodeLowThree (unat (ir AND 7)) proc insts i ir pc =
     XrDecodeFunctions110001 (fld_func ir) proc insts i ir pc"
  using low_six [of ir 49]
  by (simp add: XrDecodeLowThree_def XrDecodeMajor_def XrDecodeLowSix_def XrDecode110001_def fld_func_def)

text \<open>The decode routine and the handler an instruction selects meet the common contract.\<close>

definition reg_selected where
  "reg_selected ir op dec f ok \<longleftrightarrow> register_instruction dec f op ok \<and>
     (\<forall>proc insts i pc. XrDecodeLowThree (unat (ir AND 7)) proc insts i ir pc = dec proc insts i ir pc) \<and>
     (\<forall>a b. isa_reg_defined ir a b \<longrightarrow> ok a b)"

lemma reg_selectedI:
  assumes "register_instruction dec f op ok"
    and "\<And>proc insts i pc. XrDecodeLowThree (unat (ir AND 7)) proc insts i ir pc = dec proc insts i ir pc"
    and "\<And>a b. isa_reg_defined ir a b \<Longrightarrow> ok a b"
  shows "\<exists>dec f ok. reg_selected ir op dec f ok"
  using assms unfolding reg_selected_def by blast

lemma reg_selected_57:
  assumes m: "unat (ir AND 63) = 57" and op: "isa_reg_op ir = Some op"
  shows "\<exists>dec f ok. reg_selected ir op dec f ok"
proof -
  consider "fld_func ir = 0" "op = (\<lambda>a b. NOT (a OR b))"
    | "fld_func ir = 1" "op = (\<lambda>a b. a OR b)"
    | "fld_func ir = 2" "op = (\<lambda>a b. a XOR b)"
    | "fld_func ir = 3" "op = (\<lambda>a b. a AND b)"
    | "fld_func ir = 4" "op = (\<lambda>a b. if sint a < sint b then 1 else 0)"
    | "fld_func ir = 5" "op = (\<lambda>a b. if unat a < unat b then 1 else 0)"
    | "fld_func ir = 6" "op = (\<lambda>a b. a - b)"
    | "fld_func ir = 7" "op = (\<lambda>a b. a + b)"
    using m op by (auto simp: isa_reg_op_def split: if_splits)
  then show ?thesis
  proof cases
    case 1
    show ?thesis
      by (rule reg_selectedI [OF nor_i.register_instruction_axioms [folded 1(2)]])
         (use m 1(1) in \<open>simp_all add: decode_57 XrDecodeFunctions111001_def isa_reg_defined_def\<close>)
  next
    case 2
    show ?thesis
      by (rule reg_selectedI [OF or_i.register_instruction_axioms [folded 2(2)]])
         (use m 2(1) in \<open>simp_all add: decode_57 XrDecodeFunctions111001_def isa_reg_defined_def\<close>)
  next
    case 3
    show ?thesis
      by (rule reg_selectedI [OF xor_i.register_instruction_axioms [folded 3(2)]])
         (use m 3(1) in \<open>simp_all add: decode_57 XrDecodeFunctions111001_def isa_reg_defined_def\<close>)
  next
    case 4
    show ?thesis
      by (rule reg_selectedI [OF and_i.register_instruction_axioms [folded 4(2)]])
         (use m 4(1) in \<open>simp_all add: decode_57 XrDecodeFunctions111001_def isa_reg_defined_def\<close>)
  next
    case 5
    show ?thesis
      by (rule reg_selectedI [OF sltsigned_i.register_instruction_axioms [folded 5(2)]])
         (use m 5(1) in \<open>simp_all add: decode_57 XrDecodeFunctions111001_def isa_reg_defined_def\<close>)
  next
    case 6
    show ?thesis
      by (rule reg_selectedI [OF slt_i.register_instruction_axioms [folded 6(2)]])
         (use m 6(1) in \<open>simp_all add: decode_57 XrDecodeFunctions111001_def isa_reg_defined_def\<close>)
  next
    case 7
    show ?thesis
      by (rule reg_selectedI [OF sub_i.register_instruction_axioms [folded 7(2)]])
         (use m 7(1) in \<open>simp_all add: decode_57 XrDecodeFunctions111001_def isa_reg_defined_def\<close>)
  next
    case 8
    show ?thesis
      by (rule reg_selectedI [OF add_i.register_instruction_axioms [folded 8(2)]])
         (use m 8(1) in \<open>simp_all add: decode_57 XrDecodeFunctions111001_def isa_reg_defined_def\<close>)
  qed
qed

lemma reg_selected_49:
  assumes m: "unat (ir AND 63) = 49" and op: "isa_reg_op ir = Some op"
  shows "\<exists>dec f ok. reg_selected ir op dec f ok"
proof -
  consider "fld_func ir = 11" "op = (\<lambda>a b. of_nat (if b = 0 then 0 else unat a mod unat b))"
    | "fld_func ir = 12" "op = (\<lambda>a b. word_of_int (if b = 0 then 0 else sint a sdiv sint b))"
    | "fld_func ir = 13" "op = (\<lambda>a b. of_nat (unat a div unat b))"
    | "fld_func ir = 15" "op = (\<lambda>a b. of_nat (unat a * unat b))"
    using m op by (auto simp: isa_reg_op_def split: if_splits)
  then show ?thesis
  proof cases
    case 1
    show ?thesis
      by (rule reg_selectedI [OF mod_i.register_instruction_axioms [folded 1(2)]])
         (use m 1(1) in \<open>simp_all add: decode_49 XrDecodeFunctions110001_def isa_reg_defined_def\<close>)
  next
    case 2
    show ?thesis
      by (rule reg_selectedI [OF divsigned_i.register_instruction_axioms [folded 2(2)]])
         (use m 2(1) in \<open>simp_all add: decode_49 XrDecodeFunctions110001_def isa_reg_defined_def\<close>)
  next
    case 3
    show ?thesis
      by (rule reg_selectedI [OF div_i.register_instruction_axioms [folded 3(2)]])
         (use m 3(1) in \<open>simp_all add: decode_49 XrDecodeFunctions110001_def isa_reg_defined_def\<close>)
  next
    case 4
    show ?thesis
      by (rule reg_selectedI [OF mul_i.register_instruction_axioms [folded 4(2)]])
         (use m 4(1) in \<open>simp_all add: decode_49 XrDecodeFunctions110001_def isa_reg_defined_def\<close>)
  qed
qed

lemma reg_selected_ex:
  "isa_reg_op ir = Some op \<Longrightarrow> \<exists>dec f ok. reg_selected ir op dec f ok"
  using reg_selected_57 reg_selected_49 by (auto simp: isa_reg_op_def split: if_splits)

definition imm_selected where
  "imm_selected ir op dec f im \<longleftrightarrow> immediate_instruction dec f im op \<and>
     (\<forall>proc insts i pc. XrDecodeLowThree (unat (ir AND 7)) proc insts i ir pc = dec proc insts i ir pc)"

lemma imm_selectedI:
  assumes "immediate_instruction dec f im op"
    and "\<And>proc insts i pc. XrDecodeLowThree (unat (ir AND 7)) proc insts i ir pc = dec proc insts i ir pc"
  shows "\<exists>dec f im. imm_selected ir op dec f im"
  using assms unfolding imm_selected_def by blast

lemma imm_selected_ex:
  assumes op: "isa_imm_op ir = Some op"
  shows "\<exists>dec f im. imm_selected ir op dec f im"
proof -
  consider "unat (ir AND 63) = 4" "op = (\<lambda>a i. a OR push_bit 16 i)"
    | "unat (ir AND 63) = 12" "op = (\<lambda>a i. a OR i)"
    | "unat (ir AND 63) = 20" "op = (\<lambda>a i. a XOR i)"
    | "unat (ir AND 63) = 28" "op = (\<lambda>a i. a AND i)"
    | "unat (ir AND 63) = 36" "op = (\<lambda>a i. if sint a < sint (ucast i :: 16 word) then 1 else 0)"
    | "unat (ir AND 63) = 44" "op = (\<lambda>a i. if unat a < unat i then 1 else 0)"
    | "unat (ir AND 63) = 52" "op = (\<lambda>a i. a - i)"
    | "unat (ir AND 63) = 60" "op = (\<lambda>a i. a + i)"
    using op by (auto simp: isa_imm_op_def Let_def split: if_splits)
  then show ?thesis
  proof cases
    case 1
    show ?thesis
      by (rule imm_selectedI [OF lui_i.immediate_instruction_axioms [folded 1(2)]])
         (simp add: XrDecodeLowThree_def XrDecodeMajor_def XrDecodeLowSix_def 1(1) low_six [OF 1(1)])
  next
    case 2
    show ?thesis
      by (rule imm_selectedI [OF ori_i.immediate_instruction_axioms [folded 2(2)]])
         (simp add: XrDecodeLowThree_def XrDecodeMajor_def XrDecodeLowSix_def 2(1) low_six [OF 2(1)])
  next
    case 3
    show ?thesis
      by (rule imm_selectedI [OF xori_i.immediate_instruction_axioms [folded 3(2)]])
         (simp add: XrDecodeLowThree_def XrDecodeMajor_def XrDecodeLowSix_def 3(1) low_six [OF 3(1)])
  next
    case 4
    show ?thesis
      by (rule imm_selectedI [OF andi_i.immediate_instruction_axioms [folded 4(2)]])
         (simp add: XrDecodeLowThree_def XrDecodeMajor_def XrDecodeLowSix_def 4(1) low_six [OF 4(1)])
  next
    case 5
    show ?thesis
      by (rule imm_selectedI [OF sltisigned_i.immediate_instruction_axioms [folded 5(2)]])
         (simp add: XrDecodeLowThree_def XrDecodeMajor_def XrDecodeLowSix_def 5(1) low_six [OF 5(1)])
  next
    case 6
    show ?thesis
      by (rule imm_selectedI [OF slti_i.immediate_instruction_axioms [folded 6(2)]])
         (simp add: XrDecodeLowThree_def XrDecodeMajor_def XrDecodeLowSix_def 6(1) low_six [OF 6(1)])
  next
    case 7
    show ?thesis
      by (rule imm_selectedI [OF subi_i.immediate_instruction_axioms [folded 7(2)]])
         (simp add: XrDecodeLowThree_def XrDecodeMajor_def XrDecodeLowSix_def 7(1) low_six [OF 7(1)])
  next
    case 8
    show ?thesis
      by (rule imm_selectedI [OF addi_i.immediate_instruction_axioms [folded 8(2)]])
         (simp add: XrDecodeLowThree_def XrDecodeMajor_def XrDecodeLowSix_def 8(1) low_six [OF 8(1)])
  qed
qed


text \<open>A processor whose block 0 holds the cached instructions \<open>insts\<close>.\<close>

definition isa_sample :: "(nat \<Rightarrow> XrCachedInst) \<Rightarrow> XrProcessor" where
  "isa_sample insts = proc_zero\<lparr>Reg := (Reg proc_zero)(1 := 5, 2 := 3),
     Ibc := (Ibc proc_zero)\<lparr>Iblocks := (\<lambda>b. (Iblocks (Ibc proc_zero) b)\<lparr>Insts := insts\<rparr>)\<rparr>\<rparr>"

lemma isa_sample_simps:
  "Reg (isa_sample insts) = (\<lambda>_. 0)(1 := 5, 2 := 3)" "Cr (isa_sample insts) = (\<lambda>_. 0)"
  "Insts (Iblocks (Ibc (isa_sample insts)) b) = insts"
  by (simp_all add: isa_sample_def proc_zero_def)


text \<open>
  Claim C7. Every immediate instruction (lui, ori, xori, andi, both set-less-thans, subi, addi):
  the cached instruction that decoding emits computes the reference operation of the source
  register and the 16-bit immediate, zero- or sign-extended as the operation says.
\<close>

theorem immediate_instruction_correct:
  assumes "isa_imm_op ir = Some op"
    and "Reg proc XR_FAKE_ZERO_REGISTER = 0"
    and "tbmiss = (Cr proc RS AND RS_TBMISS \<noteq> 0)" and "tbmiss = (Cr proc0 RS AND RS_TBMISS \<noteq> 0)"
    and "XrDecodeLowThree (unat (ir AND 7)) proc0 insts i ir pc = (nxt, insts')"
    and "decoded_at proc block i insts'"
  shows "\<exists>proc'. nxt = Some (i + 1) \<and>
    XrRunLocal 1 proc block i = (TailInst block (i + 1), proc') \<and>
    isa_result proc (fld_rd ir) (op (arch_reg tbmiss (Reg proc) (fld_ra ir)) (drop_bit 16 ir)) proc'"
proof -
  obtain dec f im where dec: "XrDecodeLowThree (unat (ir AND 7)) proc0 insts i ir pc = dec proc0 insts i ir pc"
    and loc: "immediate_instruction dec f im op"
    using imm_selected_ex [OF assms(1)] unfolding imm_selected_def by blast
  have "nxt = fst (dec proc0 insts i ir pc)" "insts' = snd (dec proc0 insts i ir pc)"
    using assms(5) dec by (simp_all add: prod_eq_iff)
  then show ?thesis
    using immediate_instruction.correct [OF loc assms(2), of proc0 block i insts ir pc] assms(3,4,6)
    by (auto simp: decoded_at_def isa_result_def)
qed

text \<open>\<open>subi r4, r1, 7\<close>\<close>

lemma immediate_instruction_correct_witness:
  "\<exists>insts' proc'. XrRunLocal 1 (isa_sample insts') 0 0 = (TailInst 0 1, proc') \<and> Reg proc' 4 = - 2"
proof -
  let ?ir = "0x00070934 :: u32"
  obtain nxt insts' where d: "XrDecodeLowThree (unat (?ir AND 7)) (isa_sample (\<lambda>_. undefined))
      (\<lambda>_. undefined) 0 ?ir 0 = (nxt, insts')"
    by (rule prod.exhaust)
  have f: "fld_ra ?ir = 1" "fld_rd ?ir = 4" "unat (?ir AND 63) = 52"
    by (simp_all add: fld_ra_def fld_rd_def)
  have op: "isa_imm_op ?ir = Some (\<lambda>a b. a - b)" by (simp add: isa_imm_op_def f)
  have "decoded_at (isa_sample insts') 0 0 insts'" by (simp add: decoded_at_def isa_sample_simps)
  then show ?thesis
    using immediate_instruction_correct [OF op, of "isa_sample insts'" False _ _ 0 0 nxt insts' 0, OF _ _ _ d]
    by (fastforce simp: isa_sample_simps f arch_reg_def isa_result_def)
qed

end
