(* ===== verification/FastMutex.thy ===== *)
theory FastMutex
  imports XrPrelude
begin

text \<open>
  The contention-counting mutex of \<^verbatim>\<open>src/src/fastmutex.h\<close> as a transition system: \<open>N\<close>
  threads run \<open>XrLockMutex\<close>, \<open>XrUnlockMutex\<close> and \<open>XrTryLockMutex\<close>, each atomic
  operation on the counter and each semaphore call being one step. The host semaphore is
  a counter that \<open>sem_wait\<close> decrements when it is positive and \<open>sem_post\<close> increments.
\<close>

section \<open>State and steps\<close>

text \<open>
  Where a thread is: outside; in \<open>XrLockMutex\<close> before the semaphore wait; holding the lock;
  in \<open>XrUnlockMutex\<close> before the post; in \<open>XrTryLockMutex\<close> between the read of a zero
  counter and the compare-exchange.
\<close>

datatype MutexPc = Outside | Waiting | Holding | Posting | Trying

record XrMutex =
  Semaphore :: nat
  ContentionCounter :: nat

record MutexSystem =
  mtx :: XrMutex
  mpc :: "nat \<Rightarrow> MutexPc"

definition XrInitializeMutex :: XrMutex where
  "XrInitializeMutex = \<lparr>Semaphore = 0, ContentionCounter = 0\<rparr>"

text \<open>The fetch-and-add of \<open>XrLockMutex\<close>: the caller holds the lock or has to wait.\<close>

definition XrLockMutex :: "XrMutex \<Rightarrow> XrMutex \<times> MutexPc" where
  "XrLockMutex m = (m\<lparr>ContentionCounter := ContentionCounter m + 1\<rparr>,
     if ContentionCounter m \<noteq> 0 then Waiting else Holding)"

text \<open>\<open>XrWaitSemaphore\<close> blocks (no step) while the semaphore is zero.\<close>

definition XrWaitSemaphore :: "XrMutex \<Rightarrow> XrMutex option" where
  "XrWaitSemaphore m =
     (if Semaphore m = 0 then None else Some (m\<lparr>Semaphore := Semaphore m - 1\<rparr>))"

definition XrUnlockMutex :: "XrMutex \<Rightarrow> XrMutex \<times> MutexPc" where
  "XrUnlockMutex m = (m\<lparr>ContentionCounter := ContentionCounter m - 1\<rparr>,
     if ContentionCounter m \<noteq> 1 then Posting else Outside)"

definition XrPostSemaphore :: "XrMutex \<Rightarrow> XrMutex" where
  "XrPostSemaphore m = m\<lparr>Semaphore := Semaphore m + 1\<rparr>"

text \<open>The two atomic operations of one iteration of \<open>XrTryLockMutex\<close>.\<close>

definition XrTryLockRead :: "XrMutex \<Rightarrow> MutexPc" where
  "XrTryLockRead m = (if ContentionCounter m \<noteq> 0 then Outside else Trying)"

definition XrTryLockCas :: "XrMutex \<Rightarrow> XrMutex \<times> MutexPc option" where
  "XrTryLockCas m =
     (if ContentionCounter m = 0 then (m\<lparr>ContentionCounter := 1\<rparr>, Some Holding) else (m, None))"

text \<open>A failed compare-exchange reads the counter again.\<close>

inductive mutex_step :: "nat \<Rightarrow> MutexSystem \<Rightarrow> MutexSystem \<Rightarrow> bool" for N where
  lock: "t < N \<Longrightarrow> mpc s t = Outside \<Longrightarrow> XrLockMutex (mtx s) = (m, c) \<Longrightarrow>
    mutex_step N s (s\<lparr>mtx := m, mpc := (mpc s)(t := c)\<rparr>)"
| wait: "t < N \<Longrightarrow> mpc s t = Waiting \<Longrightarrow> XrWaitSemaphore (mtx s) = Some m \<Longrightarrow>
    mutex_step N s (s\<lparr>mtx := m, mpc := (mpc s)(t := Holding)\<rparr>)"
| unlock: "t < N \<Longrightarrow> mpc s t = Holding \<Longrightarrow> XrUnlockMutex (mtx s) = (m, c) \<Longrightarrow>
    mutex_step N s (s\<lparr>mtx := m, mpc := (mpc s)(t := c)\<rparr>)"
| post: "t < N \<Longrightarrow> mpc s t = Posting \<Longrightarrow>
    mutex_step N s (s\<lparr>mtx := XrPostSemaphore (mtx s), mpc := (mpc s)(t := Outside)\<rparr>)"
| try_read: "t < N \<Longrightarrow> mpc s t = Outside \<or> mpc s t = Trying \<Longrightarrow>
    mutex_step N s (s\<lparr>mpc := (mpc s)(t := XrTryLockRead (mtx s))\<rparr>)"
| try_cas: "t < N \<Longrightarrow> mpc s t = Trying \<Longrightarrow> XrTryLockCas (mtx s) = (m, Some c) \<Longrightarrow>
    mutex_step N s (s\<lparr>mtx := m, mpc := (mpc s)(t := c)\<rparr>)"

inductive mutex_reach :: "nat \<Rightarrow> MutexSystem \<Rightarrow> bool" for N where
  init: "mutex_reach N \<lparr>mtx = XrInitializeMutex, mpc = (\<lambda>_. Outside)\<rparr>"
| step: "mutex_reach N s \<Longrightarrow> mutex_step N s s' \<Longrightarrow> mutex_reach N s'"

inductive_cases mutex_stepE: "mutex_step N s s'"

section \<open>Counting threads\<close>

definition at_pc :: "nat \<Rightarrow> (nat \<Rightarrow> MutexPc) \<Rightarrow> MutexPc \<Rightarrow> nat" where
  "at_pc N f c = card {t \<in> {..<N}. f t = c}"

lemma at_pc_upd:
  assumes "t < N" and "f t \<noteq> c'"
  shows "at_pc N (f(t := c')) c =
    (if c = c' then at_pc N f c + 1 else if c = f t then at_pc N f c - 1 else at_pc N f c)"
    and "0 < at_pc N f (f t)"
proof -
  let ?S = "\<lambda>g c. {u \<in> {..<N}. g u = c}"
  have fin: "finite (?S g c)" for g :: "nat \<Rightarrow> MutexPc" and c by simp
  have mem: "t \<in> ?S f (f t)" using assms(1) by simp
  then show "0 < at_pc N f (f t)"
    unfolding at_pc_def by (simp add: card_gt_0_iff, blast)
  have "?S (f(t := c')) c' = insert t (?S f c')" using assms(1) by auto
  moreover have "t \<notin> ?S f c'" using assms(2) by simp
  ultimately have new: "card (?S (f(t := c')) c') = card (?S f c') + 1" by simp
  have "?S (f(t := c')) (f t) = ?S f (f t) - {t}" using assms(2) by auto
  then have old: "card (?S (f(t := c')) (f t)) = card (?S f (f t)) - 1"
    using mem fin by (simp add: card_Diff_singleton)
  have rest: "?S (f(t := c')) c = ?S f c" if "c \<noteq> c'" "c \<noteq> f t" using that by auto
  show "at_pc N (f(t := c')) c =
    (if c = c' then at_pc N f c + 1 else if c = f t then at_pc N f c - 1 else at_pc N f c)"
    using new old rest unfolding at_pc_def by auto
qed

section \<open>The invariant\<close>

text \<open>
  The counter counts the holders and the waiters; one token (a holder, a thread about to post,
  or a semaphore unit) exists exactly while the counter is positive.
\<close>

definition mutex_inv :: "nat \<Rightarrow> MutexSystem \<Rightarrow> bool" where
  "mutex_inv N s \<longleftrightarrow>
     ContentionCounter (mtx s) = at_pc N (mpc s) Holding + at_pc N (mpc s) Waiting \<and>
     at_pc N (mpc s) Holding + at_pc N (mpc s) Posting + Semaphore (mtx s)
       = (if ContentionCounter (mtx s) = 0 then 0 else 1)"

lemma mutex_inv_step:
  assumes "mutex_step N s s'" and "mutex_inv N s"
  shows "mutex_inv N s'"
  using assms(1)
proof (cases rule: mutex_step.cases)
  case (lock t m c)
  then show ?thesis
    using assms(2) at_pc_upd [of t N "mpc s" c]
    by (auto simp: mutex_inv_def XrLockMutex_def split: if_splits)
next
  case (wait t m)
  then show ?thesis
    using assms(2) at_pc_upd [of t N "mpc s" Holding]
    by (auto simp: mutex_inv_def XrWaitSemaphore_def split: if_splits)
next
  case (unlock t m c)
  then show ?thesis
    using assms(2) at_pc_upd [of t N "mpc s" c]
    by (auto simp: mutex_inv_def XrUnlockMutex_def split: if_splits)
next
  case (post t)
  then show ?thesis
    using assms(2) at_pc_upd [of t N "mpc s" Outside]
    by (auto simp: mutex_inv_def XrPostSemaphore_def split: if_splits)
next
  case (try_read t)
  show ?thesis
  proof (cases "mpc s t = XrTryLockRead (mtx s)")
    case True
    then have "(mpc s)(t := XrTryLockRead (mtx s)) = mpc s" by auto
    then show ?thesis using assms(2) try_read by simp
  next
    case False
    then show ?thesis
      using assms(2) try_read at_pc_upd [of t N "mpc s" "XrTryLockRead (mtx s)"]
      by (auto simp: mutex_inv_def XrTryLockRead_def split: if_splits)
  qed
next
  case (try_cas t m c)
  then show ?thesis
    using assms(2) at_pc_upd [of t N "mpc s" c]
    by (auto simp: mutex_inv_def XrTryLockCas_def split: if_splits)
qed

lemma mutex_reach_inv: "mutex_reach N s \<Longrightarrow> mutex_inv N s"
proof (induction rule: mutex_reach.induct)
  case init
  show ?case by (simp add: mutex_inv_def XrInitializeMutex_def at_pc_def)
qed (rule mutex_inv_step)

lemma at_pc_pos: "t < N \<Longrightarrow> f t = c \<Longrightarrow> 0 < at_pc N f c"
  unfolding at_pc_def by (simp add: card_gt_0_iff, blast)

lemma at_pc_ex: "0 < at_pc N f c \<Longrightarrow> \<exists>t<N. f t = c"
  unfolding at_pc_def by (auto simp: card_gt_0_iff)

lemma at_pc_le_1:
  assumes "at_pc N f c \<le> 1" "t < N" "u < N" "f t = c" "f u = c"
  shows "t = u"
proof -
  have "card {t \<in> {..<N}. f t = c} \<le> 1" using assms(1) by (simp add: at_pc_def)
  then show ?thesis
    using assms(2-) card_le_Suc0_iff_eq [of "{t \<in> {..<N}. f t = c}"] by auto
qed

section \<open>Properties\<close>

text \<open>
  Claim C16. Mutual exclusion: in every state any interleaving of lock, unlock and try-lock
  calls can reach, at most one thread holds the mutex, and no semaphore unit is left over
  while it is held.
\<close>

theorem mutex_exclusion:
  assumes "mutex_reach N s" and "t < N" and "mpc s t = Holding"
  shows "(\<forall>u<N. mpc s u = Holding \<longrightarrow> u = t) \<and> Semaphore (mtx s) = 0"
proof -
  have inv: "mutex_inv N s" by (rule mutex_reach_inv [OF assms(1)])
  have "0 < at_pc N (mpc s) Holding" using assms(2,3) by (rule at_pc_pos)
  then have "at_pc N (mpc s) Holding = 1" "Semaphore (mtx s) = 0"
    using inv by (auto simp: mutex_inv_def split: if_splits)
  then show ?thesis using at_pc_le_1 [of N "mpc s" Holding] assms(2,3) by auto
qed

text \<open>Thread 0 of two takes the lock.\<close>

lemma mutex_sample:
  "mutex_reach 2 \<lparr>mtx = \<lparr>Semaphore = 0, ContentionCounter = 1\<rparr>, mpc = (\<lambda>_. Outside)(0 := Holding)\<rparr>"
  using mutex_reach.step [OF mutex_reach.init mutex_step.lock [of 0 2 _ "\<lparr>Semaphore = 0, ContentionCounter = 1\<rparr>" Holding]]
  by (simp add: XrLockMutex_def XrInitializeMutex_def)

lemma mutex_exclusion_witness:
  "Semaphore (mtx \<lparr>mtx = \<lparr>Semaphore = 0, ContentionCounter = 1\<rparr>, mpc = (\<lambda>_. Outside)(0 := Holding)\<rparr>) = 0"
  using mutex_exclusion [OF mutex_sample, of 0] by simp

text \<open>
  Claim C36. No lost wakeup: whenever a thread waits, either some thread holds the lock or is
  about to post the semaphore, or the semaphore has a unit, so that the waiter can take it.
  With no thread inside, the mutex is back in its initial state.
\<close>

theorem mutex_no_lost_wakeup:
  assumes "mutex_reach N s"
  shows "(\<forall>t<N. mpc s t = Waiting \<longrightarrow>
      (\<exists>u<N. mpc s u = Holding \<or> mpc s u = Posting) \<or> (\<exists>s'. mutex_step N s s' \<and> mpc s' t = Holding)) \<and>
    ((\<forall>t<N. mpc s t = Outside) \<longrightarrow> mtx s = XrInitializeMutex)"
proof (intro conjI allI impI)
  have inv: "mutex_inv N s" by (rule mutex_reach_inv [OF assms])
  fix t assume t: "t < N" "mpc s t = Waiting"
  then have "0 < at_pc N (mpc s) Waiting" by (rule at_pc_pos)
  then have tok: "at_pc N (mpc s) Holding + at_pc N (mpc s) Posting + Semaphore (mtx s) = 1"
    using inv by (auto simp: mutex_inv_def)
  show "(\<exists>u<N. mpc s u = Holding \<or> mpc s u = Posting) \<or> (\<exists>s'. mutex_step N s s' \<and> mpc s' t = Holding)"
  proof (cases "Semaphore (mtx s) = 0")
    case True
    then have "0 < at_pc N (mpc s) Holding \<or> 0 < at_pc N (mpc s) Posting" using tok by linarith
    then show ?thesis using at_pc_ex by blast
  next
    case False
    then have "XrWaitSemaphore (mtx s) = Some ((mtx s)\<lparr>Semaphore := Semaphore (mtx s) - 1\<rparr>)"
      by (simp add: XrWaitSemaphore_def)
    then show ?thesis using mutex_step.wait [OF t] by fastforce
  qed
next
  have inv: "mutex_inv N s" by (rule mutex_reach_inv [OF assms])
  assume "\<forall>t<N. mpc s t = Outside"
  then have "at_pc N (mpc s) c = 0" if "c \<noteq> Outside" for c
    using that unfolding at_pc_def by auto
  then show "mtx s = XrInitializeMutex"
    using inv by (simp add: mutex_inv_def XrInitializeMutex_def)
qed

lemma mutex_no_lost_wakeup_witness:
  "\<exists>u<2. mpc \<lparr>mtx = \<lparr>Semaphore = 0, ContentionCounter = 2\<rparr>,
     mpc = (\<lambda>_. Outside)(0 := Holding, Suc 0 := Waiting)\<rparr> u = Holding"
proof -
  let ?s = "\<lparr>mtx = \<lparr>Semaphore = 0, ContentionCounter = 2\<rparr>, mpc = (\<lambda>_. Outside)(0 := Holding, Suc 0 := Waiting)\<rparr>"
  have "mutex_reach 2 ?s"
    using mutex_reach.step [OF mutex_sample mutex_step.lock [of 1 2 _ "\<lparr>Semaphore = 0, ContentionCounter = 2\<rparr>" Waiting]]
    by (simp add: XrLockMutex_def)
  from mutex_no_lost_wakeup [OF this] show ?thesis
    by (auto elim!: mutex_stepE simp: XrWaitSemaphore_def intro!: exI [of _ 0])
qed

end
