(* ===== verification/Queue.thy ===== *)
theory Queue
  imports XrPrelude
begin

text \<open>
  The intrusive doubly linked lists of \<^verbatim>\<open>src/src/queue.h\<close> on an explicit store of
  \<open>Next\<close> and \<open>Prev\<close> pointers (addresses are natural numbers), and the proof that they
  implement lists: the head entry represents a list \<open>xs\<close> of entries, insertion at either
  end and removal act on \<open>xs\<close>, and the links of a removed entry stay as they were, which the
  iterating loops of the interpreter rely on.
\<close>

section \<open>Operations\<close>

record ListHeap =
  Next :: "nat \<Rightarrow> nat"
  Prev :: "nat \<Rightarrow> nat"

definition InitializeList :: "nat \<Rightarrow> ListHeap \<Rightarrow> ListHeap" where
  "InitializeList head h = h\<lparr>Next := (Next h)(head := head), Prev := (Prev h)(head := head)\<rparr>"

definition EmptyList :: "nat \<Rightarrow> ListHeap \<Rightarrow> bool" where
  "EmptyList head h \<longleftrightarrow> Next h head = head"

definition InsertAtTailList :: "nat \<Rightarrow> nat \<Rightarrow> ListHeap \<Rightarrow> ListHeap" where
  "InsertAtTailList head entry h =
    (let last = Prev h head;
         h = h\<lparr>Prev := (Prev h)(entry := last), Next := (Next h)(entry := head)\<rparr>;
         h = h\<lparr>Next := (Next h)(last := entry)\<rparr>
     in h\<lparr>Prev := (Prev h)(head := entry)\<rparr>)"

definition InsertAtHeadList :: "nat \<Rightarrow> nat \<Rightarrow> ListHeap \<Rightarrow> ListHeap" where
  "InsertAtHeadList head entry h =
    (let first = Next h head;
         h = h\<lparr>Next := (Next h)(entry := first), Prev := (Prev h)(entry := head)\<rparr>;
         h = h\<lparr>Prev := (Prev h)(first := entry)\<rparr>
     in h\<lparr>Next := (Next h)(head := entry)\<rparr>)"

definition RemoveEntryList :: "nat \<Rightarrow> ListHeap \<Rightarrow> ListHeap" where
  "RemoveEntryList entry h =
    (let prev = Prev h entry; next = Next h entry;
         h = h\<lparr>Next := (Next h)(prev := next)\<rparr>
     in h\<lparr>Prev := (Prev h)(next := prev)\<rparr>)"

section \<open>Linked segments\<close>

text \<open>\<open>links h a xs b\<close>: from \<open>a\<close> the pointers lead through \<open>xs\<close> to \<open>b\<close>, both ways.\<close>

fun links :: "ListHeap \<Rightarrow> nat \<Rightarrow> nat list \<Rightarrow> nat \<Rightarrow> bool" where
  "links h a [] b \<longleftrightarrow> Next h a = b \<and> Prev h b = a"
| "links h a (x # xs) b \<longleftrightarrow> Next h a = x \<and> Prev h x = a \<and> links h x xs b"

definition dlist :: "ListHeap \<Rightarrow> nat \<Rightarrow> nat list \<Rightarrow> bool" where
  "dlist h head xs \<longleftrightarrow> links h head xs head \<and> distinct (head # xs)"

lemma links_append: "links h a (xs @ x # ys) b \<longleftrightarrow> links h a xs x \<and> links h x ys b"
  by (induction xs arbitrary: a) auto

text \<open>A segment depends on the \<open>Next\<close> of all but its end and the \<open>Prev\<close> of all but its start.\<close>

lemma links_cong:
  "(\<And>x. x \<in> set (a # xs) \<Longrightarrow> Next h' x = Next h x) \<Longrightarrow>
   (\<And>x. x \<in> set (xs @ [b]) \<Longrightarrow> Prev h' x = Prev h x) \<Longrightarrow> links h' a xs b = links h a xs b"
  by (induction xs arbitrary: a) auto

lemma links_first: "links h a xs b \<Longrightarrow> Next h a = (case xs of [] \<Rightarrow> b | x # _ \<Rightarrow> x)"
  by (cases xs) auto

lemma links_last: "links h a xs b \<Longrightarrow> Prev h b = (if xs = [] then a else last xs)"
  by (induction xs arbitrary: a) auto

section \<open>The operations on the represented list\<close>

lemma dlist_init: "dlist (InitializeList head h) head []"
  by (simp add: dlist_def InitializeList_def)

lemma dlist_empty: "dlist h head xs \<Longrightarrow> EmptyList head h \<longleftrightarrow> xs = []"
  by (cases xs) (auto simp: dlist_def EmptyList_def)

lemma dlist_first: "dlist h head (x # xs) \<Longrightarrow> Next h head = x"
  by (simp add: dlist_def)

lemma dlist_insert_head:
  assumes "dlist h head xs" "entry \<notin> set (head # xs)"
  shows "dlist (InsertAtHeadList head entry h) head (entry # xs)"
proof -
  let ?h = "InsertAtHeadList head entry h"
  have first: "Next h head = (case xs of [] \<Rightarrow> head | x # _ \<Rightarrow> x)"
    using assms(1) by (intro links_first) (simp add: dlist_def)
  have "links ?h entry xs head"
  proof (cases xs)
    case Nil
    then show ?thesis using first assms(2) by (simp add: InsertAtHeadList_def Let_def)
  next
    case (Cons x ys)
    have "links ?h x ys head = links h x ys head"
      using assms Cons first
      by (intro links_cong) (auto simp: InsertAtHeadList_def Let_def dlist_def)
    then show ?thesis
      using assms Cons first by (auto simp: InsertAtHeadList_def Let_def dlist_def)
  qed
  moreover have "Next ?h head = entry" "Prev ?h entry = head"
    using first assms by (auto simp: InsertAtHeadList_def Let_def dlist_def split: list.splits)
  ultimately show ?thesis using assms by (auto simp: dlist_def)
qed

lemma dlist_insert_tail:
  assumes "dlist h head xs" "entry \<notin> set (head # xs)"
  shows "dlist (InsertAtTailList head entry h) head (xs @ [entry])"
proof -
  let ?h = "InsertAtTailList head entry h"
  have last: "Prev h head = (if xs = [] then head else last xs)"
    using assms(1) by (intro links_last) (simp add: dlist_def)
  have "links ?h head xs entry"
  proof (cases xs rule: rev_cases)
    case Nil
    then show ?thesis using last assms(2) by (simp add: InsertAtTailList_def Let_def)
  next
    case (snoc ys y)
    have "links ?h head ys y = links h head ys y"
      using assms snoc last
      by (intro links_cong) (auto simp: InsertAtTailList_def Let_def dlist_def)
    moreover have "links h head ys y" using assms(1) snoc by (simp add: dlist_def links_append)
    ultimately show ?thesis
      using assms snoc last by (auto simp: InsertAtTailList_def Let_def dlist_def links_append)
  qed
  moreover have "links ?h entry [] head"
    using last assms by (auto simp: InsertAtTailList_def Let_def dlist_def)
  ultimately show ?thesis using assms by (auto simp: dlist_def links_append)
qed

lemma links_join:
  assumes "links h a xs e" "links h e ys b" "distinct (xs @ e # ys)" "a \<notin> set (e # ys)"
    "b \<notin> set (xs @ [e])" "a \<notin> set xs" "b \<notin> set ys"
  shows "links (RemoveEntryList e h) a (xs @ ys) b"
proof -
  let ?h = "RemoveEntryList e h"
  have p: "Prev h e = (if xs = [] then a else last xs)" by (rule links_last [OF assms(1)])
  have n: "Next h e = (case ys of [] \<Rightarrow> b | y # _ \<Rightarrow> y)" by (rule links_first [OF assms(2)])
  have tail: "\<And>c. c = Prev h e \<Longrightarrow> links ?h c ys b"
  proof -
    fix c assume c: "c = Prev h e"
    show "links ?h c ys b"
    proof (cases ys)
      case Nil
      then show ?thesis using n c by (simp add: RemoveEntryList_def Let_def)
    next
      case (Cons z zs)
      have nin: "Prev h e \<notin> set ys"
        using p assms(3,4) by (cases xs rule: rev_cases) auto
      have "links ?h z zs b = links h z zs b"
        using Cons n nin assms(3,7) by (intro links_cong) (auto simp: RemoveEntryList_def Let_def)
      then show ?thesis
        using assms(2) Cons n c by (auto simp: RemoveEntryList_def Let_def)
    qed
  qed
  show ?thesis
  proof (cases xs rule: rev_cases)
    case Nil
    then show ?thesis using tail [of a] p by simp
  next
    case (snoc us u)
    have nin: "Next h e \<notin> set xs"
      using n assms(3,5) by (cases ys) auto
    have pu: "Prev h e = u" using p snoc by simp
    have "links ?h a us u = links h a us u"
      using snoc pu nin assms(3,6) by (intro links_cong) (auto simp: RemoveEntryList_def Let_def)
    then have "links ?h a us u" using assms(1) snoc by (simp add: links_append)
    then show ?thesis using tail [of u] pu snoc by (simp add: links_append)
  qed
qed

lemma dlist_remove:
  assumes "dlist h head (xs @ e # ys)"
  shows "dlist (RemoveEntryList e h) head (xs @ ys)"
  using assms links_join [of h head xs e ys head] by (auto simp: dlist_def links_append)

lemma dlist_neighbours:
  assumes "dlist h head (xs @ e # ys)"
  shows "Prev h e \<in> set (head # xs)" "Next h e \<in> set (head # ys)"
    "Next h e = (case ys of [] \<Rightarrow> head | y # _ \<Rightarrow> y)"
proof -
  have l: "links h head xs e" "links h e ys head" using assms by (simp_all add: dlist_def links_append)
  show "Prev h e \<in> set (head # xs)" using links_last [OF l(1)] by simp
  show n: "Next h e = (case ys of [] \<Rightarrow> head | y # _ \<Rightarrow> y)" by (rule links_first [OF l(2)])
  then show "Next h e \<in> set (head # ys)" by (cases ys) auto
qed

lemma remove_keeps_links:
  assumes "dlist h head (xs @ e # ys)"
  shows "Next (RemoveEntryList e h) e = Next h e" "Prev (RemoveEntryList e h) e = Prev h e"
  using dlist_neighbours [OF assms] assms by (auto simp: RemoveEntryList_def Let_def dlist_def)

text \<open>Operations on one list leave a list with other entries alone.\<close>

definition apart :: "nat \<Rightarrow> nat list \<Rightarrow> nat \<Rightarrow> nat list \<Rightarrow> bool" where
  "apart head xs head' ys \<longleftrightarrow> set (head # xs) \<inter> set (head' # ys) = {}"

lemma dlist_cong:
  assumes "dlist h head' ys"
    and "\<And>x. x \<in> set (head' # ys) \<Longrightarrow> Next h' x = Next h x \<and> Prev h' x = Prev h x"
  shows "dlist h' head' ys"
  using assms(1) links_cong [of head' ys h' h head'] assms(2) by (auto simp: dlist_def)

lemma dlist_frame:
  assumes "dlist h head' ys" "dlist h head xs" "apart head xs head' ys"
  shows "e \<in> set xs \<Longrightarrow> dlist (RemoveEntryList e h) head' ys"
    and "e \<notin> set (head' # ys) \<Longrightarrow> dlist (InsertAtHeadList head e h) head' ys"
    and "e \<notin> set (head' # ys) \<Longrightarrow> dlist (InsertAtTailList head e h) head' ys"
proof -
  have l: "links h head xs head" using assms(2) by (simp add: dlist_def)
  have n: "Next h head \<in> set (head # xs)" using links_first [OF l] by (cases xs) auto
  have p: "Prev h head \<in> set (head # xs)" using links_last [OF l] by simp
  show "dlist (RemoveEntryList e h) head' ys" if e: "e \<in> set xs"
  proof -
    obtain us vs where "xs = us @ e # vs" using e by (meson split_list)
    then have "Prev h e \<in> set (head # xs)" "Next h e \<in> set (head # xs)"
      using dlist_neighbours [of h head us e vs] assms(2) by auto
    then show ?thesis
      using assms(3) by (intro dlist_cong [OF assms(1)]) (auto simp: RemoveEntryList_def Let_def apart_def)
  qed
  show "dlist (InsertAtHeadList head e h) head' ys" if "e \<notin> set (head' # ys)"
    using n assms(3) that
    by (intro dlist_cong [OF assms(1)]) (auto simp: InsertAtHeadList_def Let_def apart_def)
  show "dlist (InsertAtTailList head e h) head' ys" if "e \<notin> set (head' # ys)"
    using p assms(3) that
    by (intro dlist_cong [OF assms(1)]) (auto simp: InsertAtTailList_def Let_def apart_def)
qed

section \<open>The contract the users of the lists rely on\<close>

text \<open>
  A store in which \<open>repr h q xs\<close> says that queue \<open>q\<close> holds \<open>xs\<close>. Taking the first entry off,
  as \<open>XrPopSchedulerWork\<close> and the reclaim loops do, is \<open>hd_of\<close> followed by \<open>rem\<close>.
\<close>

locale entry_queue =
  fixes repr :: "'h \<Rightarrow> nat \<Rightarrow> nat list \<Rightarrow> bool"
    and hd_of :: "nat \<Rightarrow> 'h \<Rightarrow> nat"
    and put :: "nat \<Rightarrow> nat \<Rightarrow> 'h \<Rightarrow> 'h"
    and rem :: "nat \<Rightarrow> 'h \<Rightarrow> 'h"
  assumes repr_hd: "repr h q (x # xs) \<Longrightarrow> hd_of q h = x"
    and repr_put: "repr h q xs \<Longrightarrow> e \<notin> set (q # xs) \<Longrightarrow> repr (put q e h) q (xs @ [e])"
    and repr_rem: "repr h q (x # xs) \<Longrightarrow> repr (rem x h) q xs"
    and repr_put_other: "repr h q' ys \<Longrightarrow> repr h q xs \<Longrightarrow> apart q xs q' ys \<Longrightarrow>
      e \<notin> set (q' # ys) \<Longrightarrow> repr (put q e h) q' ys"
    and repr_rem_other: "repr h q' ys \<Longrightarrow> repr h q xs \<Longrightarrow> apart q xs q' ys \<Longrightarrow> e \<in> set xs \<Longrightarrow>
      repr (rem e h) q' ys"
    and repr_distinct: "repr h q xs \<Longrightarrow> distinct (q # xs)"
begin

lemma put_all:
  "repr h q xs \<Longrightarrow> distinct (xs @ es) \<Longrightarrow> q \<notin> set es \<Longrightarrow> repr (fold (put q) es h) q (xs @ es)"
proof (induction es arbitrary: xs h)
  case (Cons e es)
  have "e \<notin> set (q # xs)" using Cons.prems by auto
  then have "repr (put q e h) q (xs @ [e])" using repr_put [OF Cons.prems(1)] by simp
  then show ?case using Cons.IH [of "put q e h" "xs @ [e]"] Cons.prems by simp
qed simp

lemma move_first:
  assumes "repr h q (x # xs)" "repr h q' ys" "apart q (x # xs) q' ys"
  shows "repr (put q' x (rem x h)) q xs \<and> repr (put q' x (rem x h)) q' (ys @ [x])"
proof -
  have r: "repr (rem x h) q xs" by (rule repr_rem [OF assms(1)])
  have r': "repr (rem x h) q' ys" by (rule repr_rem_other [OF assms(2,1,3)]) simp
  have "x \<notin> set (q' # ys)" using assms(3) by (auto simp: apart_def)
  then have "repr (put q' x (rem x h)) q' (ys @ [x])" by (rule repr_put [OF r'])
  moreover have "x \<notin> set (q # xs)" using repr_distinct [OF assms(1)] by auto
  moreover have "apart q' ys q xs" using assms(3) by (auto simp: apart_def)
  ultimately show ?thesis using repr_put_other [OF r r'] by blast
qed

end

interpretation dq: entry_queue dlist "\<lambda>q h. Next h q" InsertAtTailList RemoveEntryList
proof (unfold_locales, goal_cases)
  case (3 h q x xs)
  then show ?case using dlist_remove [of h q "[]" x xs] by simp
qed (simp_all add: dlist_first dlist_insert_tail dlist_frame, simp add: dlist_def)

section \<open>Properties\<close>

text \<open>
  Claim C37. The pointer operations implement lists: insertion at the head and at the tail,
  the emptiness test, and removal of any entry act as on the represented list; the links
  of the removed entry stay as they were, so a loop may step from it to its neighbour; and
  a list with other entries is left alone.
\<close>

theorem queue_implements_lists:
  assumes "dlist h head xs" and "entry \<notin> set (head # xs)"
  shows "dlist (InsertAtHeadList head entry h) head (entry # xs) \<and>
    dlist (InsertAtTailList head entry h) head (xs @ [entry]) \<and>
    EmptyList head h = (xs = []) \<and>
    (\<forall>ys e zs. xs = ys @ e # zs \<longrightarrow>
       dlist (RemoveEntryList e h) head (ys @ zs) \<and>
       Next (RemoveEntryList e h) e = (case zs of [] \<Rightarrow> head | z # _ \<Rightarrow> z)) \<and>
    (\<forall>head' ys e. dlist h head' ys \<and> apart head xs head' ys \<and> e \<in> set xs \<longrightarrow>
       dlist (RemoveEntryList e h) head' ys)"
  using assms dlist_remove [of h head] remove_keeps_links(1) [of h head] dlist_neighbours(3) [of h head]
  by (auto simp: dlist_insert_head dlist_insert_tail dlist_empty intro: dlist_frame(1))

definition empty_heap :: ListHeap where
  "empty_heap = \<lparr>Next = (\<lambda>_. 0), Prev = (\<lambda>_. 0)\<rparr>"

lemma queue_implements_lists_witness:
  "dlist (InsertAtTailList 0 2 (InsertAtTailList 0 1 (InitializeList 0 empty_heap))) 0 [1, 2]"
proof -
  have "dlist (InsertAtTailList 0 1 (InitializeList 0 empty_heap)) 0 [1]"
    using queue_implements_lists [OF dlist_init, of 1 0 empty_heap] by simp
  then show ?thesis using queue_implements_lists [of _ 0 "[1]" 2] by simp
qed

text \<open>Taking entries off the head until none is left or \<open>n\<close> are taken.\<close>

fun drain :: "nat \<Rightarrow> nat \<Rightarrow> ListHeap \<Rightarrow> nat list" where
  "drain 0 head h = []"
| "drain (Suc n) head h =
    (if EmptyList head h then [] else Next h head # drain n head (RemoveEntryList (Next h head) h))"

lemma drain_dlist: "dlist h head xs \<Longrightarrow> drain n head h = take n xs"
proof (induction n arbitrary: h xs)
  case (Suc n)
  show ?case
  proof (cases xs)
    case Nil
    then show ?thesis using Suc.prems by (simp add: dlist_empty)
  next
    case (Cons x ys)
    have "dlist (RemoveEntryList x h) head ys"
      using dq.repr_rem Suc.prems Cons by blast
    then show ?thesis using Suc Cons by (simp add: dlist_empty dlist_first)
  qed
qed simp

text \<open>
  First in, first out: entries put at the tail of a queue in the order \<open>es\<close> and taken
  off at the head come back in that order, after what the queue held before.
\<close>

theorem queue_fifo:
  assumes "dlist h head xs" and "distinct (xs @ es)" and "head \<notin> set es"
  shows "drain (length xs + length es) head (fold (InsertAtTailList head) es h) = xs @ es"
  using drain_dlist [OF dq.put_all [OF assms]] by simp

lemma queue_fifo_witness:
  "drain 3 0 (fold (InsertAtTailList 0) [7, 5, 9] (InitializeList 0 empty_heap)) = [7, 5, 9]"
  using queue_fifo [OF dlist_init, of "[7, 5, 9]" 0 empty_heap]
  by (simp add: numeral_3_eq_3 del: drain.simps)

end
