(* ===== verification/Scheduler.thy ===== *)
theory Scheduler
  imports XrPrelude "HOL-Library.Monad_Syntax"
begin

text \<open>
  The cooperative scheduler, \<^verbatim>\<open>src/src/scheduler.c\<close>: schedulables (processors, disks, serial
  ports, numbered here) wait on the global work list, on the next-frame list, or on the
  private chain of a scheduling thread; \<open>N\<close> threads take them off and run them. The lists
  are those of \<^verbatim>\<open>queue.h\<close> (theory \<open>Queue\<close>), each used under its mutex; the private chains
  are linked by the \<open>Next\<close> fields and are modelled with these pointers.
\<close>

section \<open>State\<close>

record XrScheduler =
  XrSchedulerWorkList :: "nat list"
  XrSchedulerNextFrameList :: "nat list"
  XrSchedulerSemaphore :: nat
  ThreadNext :: "nat \<Rightarrow> nat option"
  ThreadWork :: "nat \<Rightarrow> nat option"
  WorkNext :: "nat \<Rightarrow> nat option"
  PreferredThread :: "nat \<Rightarrow> nat option"
  Timeslice :: "nat \<Rightarrow> int"
  Enqueued :: "nat \<Rightarrow> bool"

definition XrInitializeSchedulable :: "nat \<Rightarrow> XrScheduler \<Rightarrow> XrScheduler" where
  "XrInitializeSchedulable w s = s\<lparr>Timeslice := (Timeslice s)(w := 0),
     WorkNext := (WorkNext s)(w := None), PreferredThread := (PreferredThread s)(w := None),
     Enqueued := (Enqueued s)(w := False)\<rparr>"

definition XrInitializeScheduler :: "XrScheduler \<Rightarrow> XrScheduler" where
  "XrInitializeScheduler s = s\<lparr>XrSchedulerWorkList := [], XrSchedulerNextFrameList := [],
     XrSchedulerSemaphore := 0\<rparr>"

section \<open>Operations\<close>

definition XrScheduleWorkForAny :: "nat \<Rightarrow> XrScheduler \<Rightarrow> XrScheduler" where
  "XrScheduleWorkForAny w s =
    (if Enqueued s w then s
     else s\<lparr>Enqueued := (Enqueued s)(w := True),
            XrSchedulerWorkList := XrSchedulerWorkList s @ [w],
            XrSchedulerSemaphore := XrSchedulerSemaphore s + 1\<rparr>)"

definition XrScheduleWorkForNextFrame :: "nat \<Rightarrow> bool \<Rightarrow> XrScheduler \<Rightarrow> XrScheduler" where
  "XrScheduleWorkForNextFrame w front s =
    (if Enqueued s w then s
     else s\<lparr>Enqueued := (Enqueued s)(w := True),
            XrSchedulerNextFrameList := (if front then w # XrSchedulerNextFrameList s
                                         else XrSchedulerNextFrameList s @ [w])\<rparr>)"

text \<open>\<open>None\<close>: \<open>after\<close> was never run, so its preferred thread is a null pointer.\<close>

definition XrScheduleWorkForMe :: "nat \<Rightarrow> nat \<Rightarrow> XrScheduler \<Rightarrow> XrScheduler option" where
  "XrScheduleWorkForMe after w s =
    (if Enqueued s w then Some s
     else case PreferredThread s after of
            None \<Rightarrow> None
          | Some t \<Rightarrow> Some (s\<lparr>Enqueued := (Enqueued s)(w := True),
                             WorkNext := (WorkNext s)(w := ThreadNext s t),
                             ThreadNext := (ThreadNext s)(t := Some w)\<rparr>))"

text \<open>\<open>None\<close>: the thread blocks in the semaphore. An empty list sends it back to the wait.\<close>

function XrPopSchedulerWork :: "nat \<Rightarrow> XrScheduler \<Rightarrow> (nat \<times> XrScheduler) option" where
  "XrPopSchedulerWork t s =
    (if XrSchedulerSemaphore s = 0 then None
     else let s = s\<lparr>XrSchedulerSemaphore := XrSchedulerSemaphore s - 1\<rparr>
          in case XrSchedulerWorkList s of
               [] \<Rightarrow> XrPopSchedulerWork t s
             | w # ws \<Rightarrow> Some (w, s\<lparr>XrSchedulerWorkList := ws,
                              PreferredThread := (PreferredThread s)(w := Some t)\<rparr>))"
  by pat_completeness auto
termination
  by (relation "measure (\<lambda>(t, s). XrSchedulerSemaphore s)") auto

declare XrPopSchedulerWork.simps [simp del]

text \<open>
  One round of \<open>XrSchedulerLoop\<close> up to the call of the work function: the schedulable to run
  and the state in which it runs. \<open>ThreadWork\<close> is the local variable \<open>work\<close>.
\<close>

definition XrSchedulerLoop :: "nat \<Rightarrow> XrScheduler \<Rightarrow> (nat \<times> XrScheduler) option" where
  "XrSchedulerLoop t s =
    (let picked =
       (case ThreadWork s t of
          Some w \<Rightarrow> Some (w, s)
        | None \<Rightarrow>
            let work = ThreadNext s t; s = s\<lparr>ThreadNext := (ThreadNext s)(t := None)\<rparr>
            in case work of Some w \<Rightarrow> Some (w, s) | None \<Rightarrow> XrPopSchedulerWork t s)
     in case picked of
          None \<Rightarrow> None
        | Some (w, s) \<Rightarrow>
            Some (w, s\<lparr>Enqueued := (Enqueued s)(w := False),
                       ThreadWork := (ThreadWork s)(t := WorkNext s w),
                       WorkNext := (WorkNext s)(w := None)\<rparr>))"

fun sched_requeue :: "nat list \<Rightarrow> XrScheduler \<Rightarrow> XrScheduler" where
  "sched_requeue [] s = s"
| "sched_requeue (w # ws) s =
     sched_requeue ws (XrScheduleWorkForAny w (s\<lparr>Enqueued := (Enqueued s)(w := False)\<rparr>))"

text \<open>\<open>start w dt ts\<close> is what the \<open>StartTimeslice\<close> callback of \<open>w\<close> makes of its timeslice.\<close>

definition XrScheduleAllNextFrameWork ::
    "(nat \<Rightarrow> int \<Rightarrow> int \<Rightarrow> int) \<Rightarrow> int \<Rightarrow> XrScheduler \<Rightarrow> XrScheduler" where
  "XrScheduleAllNextFrameWork start dt s =
    (let works = XrSchedulerNextFrameList s;
         s = s\<lparr>XrSchedulerNextFrameList := []\<rparr>;
         s = s\<lparr>Timeslice := (\<lambda>w. if w \<in> set works then start w dt (Timeslice s w) else Timeslice s w)\<rparr>
     in sched_requeue works s)"

section \<open>Steps\<close>

text \<open>
  A state of the system with the schedulables that the threads are running. The calls may
  come from anywhere in the program, except that \<open>XrScheduleWorkForMe\<close> is called on behalf
  of a schedulable that the calling thread is running.
\<close>

inductive sched_step :: "nat \<Rightarrow> XrScheduler \<Rightarrow> XrScheduler \<Rightarrow> bool" for N where
  any: "sched_step N s (XrScheduleWorkForAny w s)"
| next_frame: "sched_step N s (XrScheduleWorkForNextFrame w front s)"
| for_me: "PreferredThread s after = Some t \<Longrightarrow> t < N \<Longrightarrow> XrScheduleWorkForMe after w s = Some s' \<Longrightarrow>
    sched_step N s s'"
| loop: "t < N \<Longrightarrow> XrSchedulerLoop t s = Some (w, s') \<Longrightarrow> sched_step N s s'"
| frame: "sched_step N s (XrScheduleAllNextFrameWork start dt s)"

definition sched_start :: XrScheduler where
  "sched_start = \<lparr>XrSchedulerWorkList = [], XrSchedulerNextFrameList = [], XrSchedulerSemaphore = 0,
     ThreadNext = (\<lambda>_. None), ThreadWork = (\<lambda>_. None), WorkNext = (\<lambda>_. None),
     PreferredThread = (\<lambda>_. None), Timeslice = (\<lambda>_. 0), Enqueued = (\<lambda>_. False)\<rparr>"

inductive sched_reach :: "nat \<Rightarrow> XrScheduler \<Rightarrow> bool" for N where
  init: "sched_reach N sched_start"
| step: "sched_reach N s \<Longrightarrow> sched_step N s s' \<Longrightarrow> sched_reach N s'"

section \<open>The invariant\<close>

text \<open>\<open>is_chain nx p ws\<close>: following \<open>nx\<close> from \<open>p\<close> visits \<open>ws\<close> and ends at the null pointer.\<close>

fun is_chain :: "(nat \<Rightarrow> nat option) \<Rightarrow> nat option \<Rightarrow> nat list \<Rightarrow> bool" where
  "is_chain nx p [] \<longleftrightarrow> p = None"
| "is_chain nx p (w # ws) \<longleftrightarrow> p = Some w \<and> is_chain nx (nx w) ws"

lemma is_chain_upd [simp]: "w \<notin> set ws \<Longrightarrow> is_chain (nx(w := q)) p ws = is_chain nx p ws"
  by (induction ws arbitrary: p) auto

lemma is_chain_None: "is_chain nx None ws \<longleftrightarrow> ws = []"
  by (cases ws) auto

lemma is_chain_Some: "is_chain nx (Some w) ws \<longleftrightarrow> (\<exists>vs. ws = w # vs \<and> is_chain nx (nx w) vs)"
  by (cases ws) auto

text \<open>
  How often a schedulable is enqueued anywhere, given the contents \<open>C t\<close> of the private chains and
  \<open>L t\<close> of the chains the threads are working off.
\<close>

definition occurrences :: "nat \<Rightarrow> (nat \<Rightarrow> nat list) \<Rightarrow> (nat \<Rightarrow> nat list) \<Rightarrow> XrScheduler \<Rightarrow> nat \<Rightarrow> nat" where
  "occurrences N C L s w = count_list (XrSchedulerWorkList s) w +
     count_list (XrSchedulerNextFrameList s) w +
     (\<Sum>t<N. count_list (C t) w) + (\<Sum>t<N. count_list (L t) w)"

definition chains_ok :: "nat \<Rightarrow> (nat \<Rightarrow> nat list) \<Rightarrow> (nat \<Rightarrow> nat list) \<Rightarrow> XrScheduler \<Rightarrow> bool" where
  "chains_ok N C L s \<longleftrightarrow>
     (\<forall>t<N. is_chain (WorkNext s) (ThreadNext s t) (C t)) \<and>
     (\<forall>t<N. is_chain (WorkNext s) (ThreadWork s t) (L t)) \<and>
     (\<forall>w. (\<forall>t<N. w \<notin> set (C t) \<and> w \<notin> set (L t)) \<longrightarrow> WorkNext s w = None)"

definition sched_inv :: "nat \<Rightarrow> XrScheduler \<Rightarrow> bool" where
  "sched_inv N s \<longleftrightarrow> XrSchedulerSemaphore s = length (XrSchedulerWorkList s) \<and>
     (\<exists>C L. chains_ok N C L s \<and>
        (\<forall>w. occurrences N C L s w = (if Enqueued s w then 1 else 0)))"

lemma sum_upd:
  fixes N :: nat
  assumes "t < N"
  shows "(\<Sum>u<N. f ((g(t := x)) u)) + (f (g t) :: nat) = (\<Sum>u<N. f (g u)) + f x"
proof -
  have "(\<Sum>u<N. f (h u)) = f (h t) + (\<Sum>u\<in>{..<N} - {t}. f (h u))" for h
    using assms sum.remove [of "{..<N}" t "\<lambda>u. f (h u)"] by simp
  from this [of g] this [of "g(t := x)"]
  have "(\<Sum>u<N. f (g u)) = f (g t) + (\<Sum>u\<in>{..<N} - {t}. f (g u))"
    "(\<Sum>u<N. f ((g(t := x)) u)) = f x + (\<Sum>u\<in>{..<N} - {t}. f ((g(t := x)) u))"
    by simp_all
  moreover have "(\<Sum>u\<in>{..<N} - {t}. f ((g(t := x)) u)) = (\<Sum>u\<in>{..<N} - {t}. f (g u))"
    by (rule sum.cong) auto
  ultimately show ?thesis by linarith
qed

lemma sum_count_0: "(\<Sum>t<(N :: nat). count_list (C t) w) = 0 \<longleftrightarrow> (\<forall>t<N. w \<notin> set (C t))"
  by (simp add: count_list_0_iff Ball_def)

lemma not_in_chains:
  "occurrences N C L s w = 0 \<Longrightarrow> t < N \<Longrightarrow> w \<notin> set (C t) \<and> w \<notin> set (L t)"
  using sum_count_0 [of C w N] sum_count_0 [of L w N] by (simp add: occurrences_def)


section \<open>Preservation\<close>

lemma sched_inv_any:
  assumes "sched_inv N s"
  shows "sched_inv N (XrScheduleWorkForAny w s)"
proof -
  obtain C L where c: "chains_ok N C L s"
    and o: "\<And>w. occurrences N C L s w = (if Enqueued s w then 1 else 0)"
    and sem: "XrSchedulerSemaphore s = length (XrSchedulerWorkList s)"
    using assms unfolding sched_inv_def by blast
  let ?s = "XrScheduleWorkForAny w s"
  have "chains_ok N C L ?s" using c by (simp add: chains_ok_def XrScheduleWorkForAny_def)
  moreover have "occurrences N C L ?s v = (if Enqueued ?s v then 1 else 0)" for v
    using o [of v] by (auto simp: XrScheduleWorkForAny_def occurrences_def)
  moreover have "XrSchedulerSemaphore ?s = length (XrSchedulerWorkList ?s)"
    using sem by (simp add: XrScheduleWorkForAny_def)
  ultimately show ?thesis unfolding sched_inv_def by blast
qed

lemma sched_inv_next_frame:
  assumes "sched_inv N s"
  shows "sched_inv N (XrScheduleWorkForNextFrame w front s)"
proof -
  obtain C L where c: "chains_ok N C L s"
    and o: "\<And>w. occurrences N C L s w = (if Enqueued s w then 1 else 0)"
    and sem: "XrSchedulerSemaphore s = length (XrSchedulerWorkList s)"
    using assms unfolding sched_inv_def by blast
  let ?s = "XrScheduleWorkForNextFrame w front s"
  have "chains_ok N C L ?s" using c by (simp add: chains_ok_def XrScheduleWorkForNextFrame_def)
  moreover have "occurrences N C L ?s v = (if Enqueued ?s v then 1 else 0)" for v
    using o [of v] by (auto simp: XrScheduleWorkForNextFrame_def occurrences_def)
  moreover have "XrSchedulerSemaphore ?s = length (XrSchedulerWorkList ?s)"
    using sem by (simp add: XrScheduleWorkForNextFrame_def)
  ultimately show ?thesis unfolding sched_inv_def by blast
qed

lemma sched_inv_for_me:
  assumes "sched_inv N s" and "PreferredThread s after = Some t" and "t < N"
    and "XrScheduleWorkForMe after w s = Some s'"
  shows "sched_inv N s'"
proof (cases "Enqueued s w")
  case True
  then show ?thesis using assms by (simp add: XrScheduleWorkForMe_def)
next
  case False
  obtain C L where c: "chains_ok N C L s"
    and o: "\<And>w. occurrences N C L s w = (if Enqueued s w then 1 else 0)"
    and sem: "XrSchedulerSemaphore s = length (XrSchedulerWorkList s)"
    using assms(1) unfolding sched_inv_def by blast
  have s': "s' = s\<lparr>Enqueued := (Enqueued s)(w := True),
      WorkNext := (WorkNext s)(w := ThreadNext s t), ThreadNext := (ThreadNext s)(t := Some w)\<rparr>"
    using assms(2,4) False by (simp add: XrScheduleWorkForMe_def)
  have w: "\<And>u. u < N \<Longrightarrow> w \<notin> set (C u) \<and> w \<notin> set (L u)"
    using not_in_chains [of N C L s w] o [of w] False by simp
  let ?C = "C(t := w # C t)"
  have "chains_ok N ?C L s'"
    using c w assms(3) unfolding chains_ok_def s' by auto
  moreover have "occurrences N ?C L s' v = (if Enqueued s' v then 1 else 0)" for v
    using o [of v] sum_upd [OF assms(3), of "\<lambda>xs. count_list xs v" C "w # C t"] False
    by (auto simp: occurrences_def s' split: if_splits)
  moreover have "XrSchedulerSemaphore s' = length (XrSchedulerWorkList s')" using sem s' by simp
  ultimately show ?thesis unfolding sched_inv_def by blast
qed

lemma count_list_le_1_distinct: "(\<And>x. count_list xs x \<le> 1) \<Longrightarrow> distinct xs"
proof (induction xs)
  case (Cons y ys)
  have "count_list ys y = 0" using Cons.prems [of y] by simp
  moreover have "count_list ys x \<le> 1" for x using Cons.prems [of x] by (auto split: if_splits)
  ultimately show ?case using Cons.IH by (simp add: count_list_0_iff)
qed simp

text \<open>A pop never finds the list empty: the semaphore counts the entries.\<close>

lemma pop_work:
  assumes "XrSchedulerSemaphore s = length (XrSchedulerWorkList s)"
  shows "XrPopSchedulerWork t s =
    (case XrSchedulerWorkList s of [] \<Rightarrow> None
     | w # ws \<Rightarrow> Some (w, s\<lparr>XrSchedulerSemaphore := length ws, XrSchedulerWorkList := ws,
                          PreferredThread := (PreferredThread s)(w := Some t)\<rparr>))"
  using assms by (subst XrPopSchedulerWork.simps) (simp split: list.split)

text \<open>
  The run of a schedulable taken from the head of the chain that thread \<open>t\<close> works off.
\<close>

lemma sched_inv_run:
  assumes c: "chains_ok N C L s" and "t < N" and L: "L t = w # ws" and "Enqueued s w"
    and o: "\<And>w. occurrences N C L s w = (if Enqueued s w then 1 else 0)"
    and sem: "XrSchedulerSemaphore s = length (XrSchedulerWorkList s)"
  shows "sched_inv N (s\<lparr>Enqueued := (Enqueued s)(w := False),
       ThreadWork := (ThreadWork s)(t := WorkNext s w), WorkNext := (WorkNext s)(w := None)\<rparr>)"
    (is "sched_inv N ?s")
proof -
  let ?L = "L(t := ws)"
  have occ: "occurrences N C ?L ?s v = (if v = w then occurrences N C L s v - 1 else occurrences N C L s v)"
    and pos: "v = w \<Longrightarrow> 0 < occurrences N C L s v" for v
  proof -
    have "count_list (L t) v \<le> (\<Sum>u<N. count_list (L u) v)"
      using assms(2) by (intro member_le_sum) auto
    then show "occurrences N C ?L ?s v = (if v = w then occurrences N C L s v - 1 else occurrences N C L s v)"
      "v = w \<Longrightarrow> 0 < occurrences N C L s v"
      using sum_upd [OF assms(2), of "\<lambda>xs. count_list xs v" L ws] L
      by (auto simp: occurrences_def)
  qed
  then have o': "occurrences N C ?L ?s v = (if Enqueued ?s v then 1 else 0)" for v
    using o [of v] assms(4) by auto
  have w: "\<And>u. u < N \<Longrightarrow> w \<notin> set (C u) \<and> w \<notin> set (?L u)"
    using not_in_chains [of N C ?L ?s w] o' [of w] by simp
  have tl: "is_chain (WorkNext s) (ThreadWork s t) (w # ws)"
    using c assms(2) L unfolding chains_ok_def by metis
  have A1: "is_chain (WorkNext ?s) (ThreadNext ?s u) (C u)" if "u < N" for u
    using c w [OF that] that by (simp add: chains_ok_def)
  have A2: "is_chain (WorkNext ?s) (ThreadWork ?s u) (?L u)" if "u < N" for u
  proof (cases "u = t")
    case True
    then show ?thesis using tl w [OF that] by simp
  next
    case False
    then show ?thesis using c w [OF that] that by (simp add: chains_ok_def)
  qed
  have A3: "WorkNext ?s v = None" if H: "\<forall>u<N. v \<notin> set (C u) \<and> v \<notin> set (?L u)" for v
  proof (cases "v = w")
    case False
    have "v \<notin> set (C u) \<and> v \<notin> set (L u)" if u: "u < N" for u
    proof -
      have "v \<notin> set (C u) \<and> v \<notin> set (?L u)" using u H by blast
      then show ?thesis using L False by (cases "u = t") simp_all
    qed
    then show ?thesis using c False by (simp add: chains_ok_def)
  qed simp
  have "chains_ok N C ?L ?s"
    unfolding chains_ok_def by (intro conjI allI impI) (erule A1, erule A2, erule A3)
  moreover have "XrSchedulerSemaphore ?s = length (XrSchedulerWorkList ?s)" using sem by simp
  ultimately show ?thesis using o' unfolding sched_inv_def by blast
qed

lemma sched_inv_loop:
  assumes inv: "sched_inv N s" and t: "t < N" and run: "XrSchedulerLoop t s = Some (w, s')"
  shows "sched_inv N s' \<and> Enqueued s w \<and> \<not> Enqueued s' w \<and> WorkNext s' w = None"
proof -
  obtain C L where c: "chains_ok N C L s"
    and o: "\<And>w. occurrences N C L s w = (if Enqueued s w then 1 else 0)"
    and sem: "XrSchedulerSemaphore s = length (XrSchedulerWorkList s)"
    using inv unfolding sched_inv_def by blast
  have ct: "is_chain (WorkNext s) (ThreadNext s t) (C t)" "is_chain (WorkNext s) (ThreadWork s t) (L t)"
    using c t by (simp_all add: chains_ok_def)
  have member: "Enqueued s v" if "u < N" "v \<in> set (C u) \<or> v \<in> set (L u)" for u v
    using not_in_chains [of N C L s v u] o [of v] that by (auto split: if_splits)
  let ?run = "\<lambda>w s. s\<lparr>Enqueued := (Enqueued s)(w := False),
       ThreadWork := (ThreadWork s)(t := WorkNext s w), WorkNext := (WorkNext s)(w := None)\<rparr>"
  show ?thesis
  proof (cases "ThreadWork s t")
    case (Some v)
    then have vs: "v = w" "s' = ?run w s" using run by (auto simp: XrSchedulerLoop_def)
    then obtain ws where L: "L t = w # ws" using ct(2) Some by (auto simp: is_chain_Some)
    then have "Enqueued s w" using member [OF t] by simp
    then show ?thesis using sched_inv_run [OF c t L _ o sem] vs by simp
  next
    case None
    then have Lt: "L t = []" using ct(2) by (simp add: is_chain_None)
    let ?s1 = "s\<lparr>ThreadNext := (ThreadNext s)(t := None)\<rparr>"
    show ?thesis
    proof (cases "ThreadNext s t")
      case (Some v)
      then have vs: "v = w" "s' = ?run w ?s1" using run None by (auto simp: XrSchedulerLoop_def Let_def)
      then obtain ws where Ct: "C t = w # ws" using ct(1) Some by (auto simp: is_chain_Some)
      let ?C = "C(t := [])" let ?L = "L(t := C t)"
      let ?s2 = "?s1\<lparr>ThreadWork := (ThreadWork s)(t := Some w)\<rparr>"
      have "WorkNext ?s2 x = None" if H: "\<forall>u<N. x \<notin> set (?C u) \<and> x \<notin> set (?L u)" for x
      proof -
        have "x \<notin> set (C u) \<and> x \<notin> set (L u)" if u: "u < N" for u
        proof -
          have "x \<notin> set (?C u) \<and> x \<notin> set (?L u)" using u H by blast
          then show ?thesis using Lt by (cases "u = t") simp_all
        qed
        then show ?thesis using c by (simp add: chains_ok_def)
      qed
      then have "chains_ok N ?C ?L ?s2"
        using c ct(1) Some vs(1) t unfolding chains_ok_def by simp
      moreover have "occurrences N ?C ?L ?s2 x = (if Enqueued ?s2 x then 1 else 0)" for x
        using o [of x] sum_upd [OF t, of "\<lambda>xs. count_list xs x" C "[]"]
          sum_upd [OF t, of "\<lambda>xs. count_list xs x" L "C t"] Lt
        by (auto simp: occurrences_def split: if_splits)
      moreover have "Enqueued s w" using member [OF t] Ct by simp
      ultimately have "sched_inv N (?run w ?s2)"
        using Ct sem by (intro sched_inv_run [where C = ?C and L = ?L and ws = ws]) (simp_all add: t)
      then show ?thesis using vs \<open>Enqueued s w\<close> by simp
    next
      case no_next: None
      let ?s3 = "\<lambda>ws. s\<lparr>XrSchedulerSemaphore := length ws, XrSchedulerWorkList := ws,
          PreferredThread := (PreferredThread s)(w := Some t)\<rparr>"
      have s1: "?s1 = s" using no_next by (simp add: fun_upd_idem)
      obtain ws where wl: "XrSchedulerWorkList s = w # ws" and s': "s' = ?run w (?s3 ws)"
        using run None no_next pop_work [OF sem, of t]
        by (auto simp: XrSchedulerLoop_def Let_def s1 split: list.splits)
      have "Enqueued s w" using o [of w] wl by (simp add: occurrences_def split: if_splits)
      have occw: "occurrences N C L s w = 1" using o [of w] \<open>Enqueued s w\<close> by simp
      let ?L = "L(t := [w])"
      let ?s2 = "(?s3 ws)\<lparr>ThreadWork := (ThreadWork s)(t := Some w)\<rparr>"
      have out: "\<And>u. u < N \<Longrightarrow> w \<notin> set (C u) \<and> w \<notin> set (L u)"
      proof -
        have "(\<Sum>u<N. count_list (C u) w) = 0" "(\<Sum>u<N. count_list (L u) w) = 0"
          using occw wl by (simp_all add: occurrences_def)
        then show "\<And>u. u < N \<Longrightarrow> w \<notin> set (C u) \<and> w \<notin> set (L u)"
          by (simp_all add: sum_count_0)
      qed
      then have "WorkNext s w = None" using c by (simp add: chains_ok_def)
      moreover have "WorkNext ?s2 x = None" if H: "\<forall>u<N. x \<notin> set (C u) \<and> x \<notin> set (?L u)" for x
      proof -
        have "x \<notin> set (C u) \<and> x \<notin> set (L u)" if u: "u < N" for u
        proof -
          have "x \<notin> set (C u) \<and> x \<notin> set (?L u)" using u H by blast
          then show ?thesis using Lt by (cases "u = t") simp_all
        qed
        then show ?thesis using c by (simp add: chains_ok_def)
      qed
      ultimately have "chains_ok N C ?L ?s2"
        using c t unfolding chains_ok_def by simp
      moreover have "occurrences N C ?L ?s2 x = (if Enqueued ?s2 x then 1 else 0)" for x
        using o [of x] sum_upd [OF t, of "\<lambda>xs. count_list xs x" L "[w]"] Lt wl
        by (auto simp: occurrences_def split: if_splits)
      ultimately have "sched_inv N (?run w ?s2)"
        using \<open>Enqueued s w\<close> by (intro sched_inv_run [where C = C and L = ?L and ws = "[]"]) (simp_all add: t)
      then show ?thesis using s' \<open>Enqueued s w\<close> by simp
    qed
  qed
qed

lemma sched_requeue_eq:
  "sched_requeue ws s = s\<lparr>XrSchedulerWorkList := XrSchedulerWorkList s @ ws,
     XrSchedulerSemaphore := XrSchedulerSemaphore s + length ws,
     Enqueued := (\<lambda>w. Enqueued s w \<or> w \<in> set ws)\<rparr>"
  by (induction ws arbitrary: s) (auto simp: XrScheduleWorkForAny_def fun_eq_iff)

lemma sched_inv_frame:
  assumes "sched_inv N s"
  shows "sched_inv N (XrScheduleAllNextFrameWork start dt s)"
proof -
  obtain C L where c: "chains_ok N C L s"
    and o: "\<And>w. occurrences N C L s w = (if Enqueued s w then 1 else 0)"
    and sem: "XrSchedulerSemaphore s = length (XrSchedulerWorkList s)"
    using assms unfolding sched_inv_def by blast
  let ?s = "XrScheduleAllNextFrameWork start dt s"
  have "chains_ok N C L ?s"
    using c by (simp add: chains_ok_def XrScheduleAllNextFrameWork_def Let_def sched_requeue_eq)
  moreover have "Enqueued s v" if "v \<in> set (XrSchedulerNextFrameList s)" for v
  proof -
    have "count_list (XrSchedulerNextFrameList s) v \<noteq> 0" using that by (simp add: count_list_0_iff)
    then show ?thesis using o [of v] by (auto simp: occurrences_def split: if_splits)
  qed
  then have "occurrences N C L ?s v = (if Enqueued ?s v then 1 else 0)" for v
    using o [of v]
    by (auto simp: XrScheduleAllNextFrameWork_def Let_def sched_requeue_eq occurrences_def)
  moreover have "XrSchedulerSemaphore ?s = length (XrSchedulerWorkList ?s)"
    using sem by (simp add: XrScheduleAllNextFrameWork_def Let_def sched_requeue_eq)
  ultimately show ?thesis unfolding sched_inv_def by blast
qed

lemma sched_inv_start: "sched_inv N sched_start"
  unfolding sched_inv_def
  by (rule conjI, simp add: sched_start_def, rule exI [of _ "\<lambda>_. []"], rule exI [of _ "\<lambda>_. []"])
    (simp add: sched_start_def chains_ok_def occurrences_def)

lemma sched_inv_step: "sched_step N s s' \<Longrightarrow> sched_inv N s \<Longrightarrow> sched_inv N s'"
proof (induction rule: sched_step.induct)
  case (loop t s w s')
  then show ?case using sched_inv_loop [of N s t w s'] by blast
qed (auto intro: sched_inv_any sched_inv_next_frame sched_inv_for_me sched_inv_frame)

lemma sched_reach_inv: "sched_reach N s \<Longrightarrow> sched_inv N s"
  by (induction rule: sched_reach.induct) (auto intro: sched_inv_start sched_inv_step)

section \<open>Properties\<close>

text \<open>\<open>waiting N s w\<close>: some thread, list or chain holds \<open>w\<close> for a later run.\<close>

definition waiting :: "nat \<Rightarrow> (nat \<Rightarrow> nat list) \<Rightarrow> (nat \<Rightarrow> nat list) \<Rightarrow> XrScheduler \<Rightarrow> nat \<Rightarrow> bool" where
  "waiting N C L s w \<longleftrightarrow> w \<in> set (XrSchedulerWorkList s) \<or> w \<in> set (XrSchedulerNextFrameList s) \<or>
     (\<exists>t<N. w \<in> set (C t) \<or> w \<in> set (L t))"

lemma waiting_occurs: "waiting N C L s w \<longleftrightarrow> 0 < occurrences N C L s w"
proof -
  have "occurrences N C L s w = 0 \<longleftrightarrow> \<not> waiting N C L s w"
    by (auto simp: waiting_def occurrences_def count_list_0_iff)
  then show ?thesis by auto
qed


text \<open>
  A round of a scheduling thread never goes to sleep while it has work: it blocks
  exactly when its chains and the work list are empty. The schedulable it picks was enqueued,
  and is run with its flag clear and its link null, so that it can enqueue itself again; it
  comes from the head of the chain the thread works off, else of its private chain, else of
  the work list.
\<close>

theorem sched_loop_picks:
  assumes "sched_reach N s" and "t < N"
  shows "(XrSchedulerLoop t s = None \<longleftrightarrow>
      ThreadWork s t = None \<and> ThreadNext s t = None \<and> XrSchedulerWorkList s = []) \<and>
    (\<forall>w s'. XrSchedulerLoop t s = Some (w, s') \<longrightarrow>
      Enqueued s w \<and> \<not> Enqueued s' w \<and> WorkNext s' w = None \<and>
      Some w = (case ThreadWork s t of Some v \<Rightarrow> Some v | None \<Rightarrow>
                (case ThreadNext s t of Some v \<Rightarrow> Some v | None \<Rightarrow>
                 (case XrSchedulerWorkList s of [] \<Rightarrow> None | v # _ \<Rightarrow> Some v))))"
proof -
  have inv: "sched_inv N s" using assms(1) by (rule sched_reach_inv)
  then have sem: "XrSchedulerSemaphore s = length (XrSchedulerWorkList s)"
    by (simp add: sched_inv_def)
  have pop: "XrPopSchedulerWork t (s\<lparr>ThreadNext := (ThreadNext s)(t := None)\<rparr>) = None
      \<longleftrightarrow> XrSchedulerWorkList s = []"
    using sem by (subst pop_work) (simp_all split: list.split)
  have "XrSchedulerLoop t s = None \<longleftrightarrow>
      ThreadWork s t = None \<and> ThreadNext s t = None \<and> XrSchedulerWorkList s = []"
    using pop by (auto simp: XrSchedulerLoop_def Let_def split: option.splits)
  moreover have "Some w = (case ThreadWork s t of Some v \<Rightarrow> Some v | None \<Rightarrow>
                (case ThreadNext s t of Some v \<Rightarrow> Some v | None \<Rightarrow>
                 (case XrSchedulerWorkList s of [] \<Rightarrow> None | v # _ \<Rightarrow> Some v)))"
    if "XrSchedulerLoop t s = Some (w, s')" for w s'
    using that sem pop_work [of "s\<lparr>ThreadNext := (ThreadNext s)(t := None)\<rparr>" t]
    by (cases "ThreadWork s t"; cases "ThreadNext s t"; cases "XrSchedulerWorkList s")
      (auto simp: XrSchedulerLoop_def Let_def)
  ultimately show ?thesis using sched_inv_loop [OF inv assms(2)] by blast
qed

section \<open>Sample run\<close>

definition sched_sample :: XrScheduler where
  "sched_sample = XrScheduleAllNextFrameWork (\<lambda>w dt ts. dt) 17
     (XrScheduleWorkForNextFrame 5 False (XrScheduleWorkForNextFrame 4 False sched_start))"

lemma sched_sample_reach: "sched_reach 2 sched_sample"
  unfolding sched_sample_def
  by (rule sched_reach.step [OF sched_reach.step [OF sched_reach.step [OF sched_reach.init
        sched_step.next_frame] sched_step.next_frame] sched_step.frame])

lemma sched_sample_simps:
  "XrSchedulerWorkList sched_sample = [4, 5]" "XrSchedulerNextFrameList sched_sample = []"
  "ThreadWork sched_sample = (\<lambda>_. None)" "ThreadNext sched_sample = (\<lambda>_. None)"
  by (simp_all add: sched_sample_def XrScheduleAllNextFrameWork_def Let_def sched_requeue_eq
      XrScheduleWorkForNextFrame_def sched_start_def)


lemma sched_loop_picks_witness:
  "\<exists>s'. XrSchedulerLoop 1 sched_sample = Some (4, s') \<and> \<not> Enqueued s' 4"
proof -
  have "XrSchedulerLoop 1 sched_sample \<noteq> None"
    using sched_loop_picks [OF sched_sample_reach, of 1] by (simp add: sched_sample_simps)
  then obtain w s' where r: "XrSchedulerLoop 1 sched_sample = Some (w, s')" by auto
  then have "w = 4 \<and> \<not> Enqueued s' 4"
    using sched_loop_picks [OF sched_sample_reach, of 1] by (auto simp: sched_sample_simps)
  then show ?thesis using r by auto
qed

definition serial_handover :: "XrScheduler option" where
  "serial_handover = do {
     let s = XrScheduleAllNextFrameWork (\<lambda>w dt ts. dt) 17 (XrScheduleWorkForNextFrame 5 True sched_start);
     (_, s) \<leftarrow> XrSchedulerLoop 0 s;
     let s = XrScheduleAllNextFrameWork (\<lambda>w dt ts. dt) 17 (XrScheduleWorkForNextFrame 4 False s);
     (_, s) \<leftarrow> XrSchedulerLoop 1 s;
     s \<leftarrow> XrScheduleWorkForMe 4 5 s;
     (w, s) \<leftarrow> XrSchedulerLoop 1 s;
     if w = 5 then XrScheduleWorkForMe 5 5 s else None }"

text \<open>
  The preferred thread is the one that last popped a schedulable from the work list, not the
  one that runs it from a private chain. A serial port that thread 0 popped once and that a
  processor of thread 1 enqueues later runs on thread 1; when it then reschedules itself after
  itself it is linked into the chain of thread 0, which thread 0 uses without a lock.
\<close>

lemma sched_for_me_other_thread:
  "\<exists>s. serial_handover = Some s \<and> ThreadNext s 0 = Some 5 \<and> ThreadNext s 1 = None"
  by (simp add: serial_handover_def XrScheduleAllNextFrameWork_def Let_def sched_requeue_eq
      XrScheduleWorkForNextFrame_def sched_start_def XrSchedulerLoop_def XrPopSchedulerWork.simps
      XrScheduleWorkForMe_def)

end
