(* ===== verification/Tty.thy ===== *)
theory Tty
  imports XrPrelude "HOL-Library.Monad_Syntax"
begin

text \<open>
  The terminal of a serial port, \<^verbatim>\<open>src/src/tty.c\<close>: a text buffer with cursor, scroll window,
  dirty rectangle and the escape sequence parser. Every access to the text buffer, to the
  escape parameters and to the reply buffer is checked against the size of the array:
  \<open>None\<close> is an access out of bounds. The \<open>int\<close> fields are 32-bit words: the C code compares
  them with \<open>uint32_t\<close> values, so as unsigned; where a comparison is signed it is written with
  \<open>sint\<close>. Drawing and the \<open>Screen\<close> calls are left out, but for the cells that \<open>TTYDraw\<close> reads.
\<close>

section \<open>State\<close>

record TTY =
  TextBuffer :: "u16 list"
  Width :: u32
  Height :: u32
  CursorX :: u32
  CursorY :: u32
  DirtyX1 :: u32
  DirtyY1 :: u32
  DirtyX2 :: u32
  DirtyY2 :: u32
  IsDirty :: bool
  IsCtrl :: bool
  IsShift :: bool
  IsEscape :: nat
  IsCursorHidden :: bool
  EscapeIndex :: nat
  EscapeParams :: "nat \<Rightarrow> u32"
  ScrollWindowTop :: u32
  ScrollWindowBottom :: u32
  CurrentAttributes :: u32

abbreviation (input) "TTYDEFAULTATTR \<equiv> 0x0F :: u32"
abbreviation (input) "TTYPARAMCOUNT \<equiv> 4 :: nat"

definition blank_cell :: u16 where
  "blank_cell = ucast (push_bit 8 TTYDEFAULTATTR)"

definition TTYCreate :: "u32 \<Rightarrow> u32 \<Rightarrow> TTY" where
  "TTYCreate width height =
    \<lparr>TextBuffer = replicate (unat (width * height)) blank_cell, Width = width, Height = height,
     CursorX = 0, CursorY = 0, DirtyX1 = 0, DirtyY1 = 0, DirtyX2 = width - 1, DirtyY2 = height - 1,
     IsDirty = True, IsCtrl = False, IsShift = False, IsEscape = 0, IsCursorHidden = False,
     EscapeIndex = 0, EscapeParams = (\<lambda>_. 0), ScrollWindowTop = 0, ScrollWindowBottom = height - 1,
     CurrentAttributes = 0x0F\<rparr>"

section \<open>Checked accesses to the text buffer\<close>

definition tty_store :: "nat \<Rightarrow> u16 \<Rightarrow> TTY \<Rightarrow> TTY option" where
  "tty_store i v tty =
    (if i < length (TextBuffer tty) then Some (tty\<lparr>TextBuffer := (TextBuffer tty)[i := v]\<rparr>) else None)"

text \<open>The loops that blank \<open>n\<close> cells from index \<open>i\<close>.\<close>

fun tty_blank :: "nat \<Rightarrow> nat \<Rightarrow> TTY \<Rightarrow> TTY option" where
  "tty_blank i 0 tty = Some tty"
| "tty_blank i (Suc n) tty = do { tty \<leftarrow> tty_store i blank_cell tty; tty_blank (Suc i) n tty }"

definition tty_memmove :: "nat \<Rightarrow> nat \<Rightarrow> nat \<Rightarrow> TTY \<Rightarrow> TTY option" where
  "tty_memmove dst src n tty =
    (let b = TextBuffer tty
     in if dst + n \<le> length b \<and> src + n \<le> length b
        then Some (tty\<lparr>TextBuffer := take dst b @ take n (drop src b) @ drop (dst + n) b\<rparr>)
        else None)"

section \<open>Dirty rectangle, cursor and scrolling\<close>

definition TTYMakeDirty :: "u32 \<Rightarrow> u32 \<Rightarrow> u32 \<Rightarrow> u32 \<Rightarrow> TTY \<Rightarrow> TTY" where
  "TTYMakeDirty x1 y1 x2 y2 tty =
    (let (x1, x2) = (if x2 < x1 then (x2, x1) else (x1, x2));
         (y1, y2) = (if y2 < y1 then (y2, y1) else (y1, y2));
         x2 = (if Width tty \<le> x2 then Width tty - 1 else x2);
         y2 = (if Height tty \<le> y2 then Height tty - 1 else y2)
     in if \<not> IsDirty tty
        then tty\<lparr>DirtyX1 := x1, DirtyY1 := y1, DirtyX2 := x2, DirtyY2 := y2, IsDirty := True\<rparr>
        else tty\<lparr>DirtyX1 := (if x1 < DirtyX1 tty then x1 else DirtyX1 tty),
                 DirtyY1 := (if y1 < DirtyY1 tty then y1 else DirtyY1 tty),
                 DirtyX2 := (if DirtyX2 tty < x2 then x2 else DirtyX2 tty),
                 DirtyY2 := (if DirtyY2 tty < y2 then y2 else DirtyY2 tty)\<rparr>)"

definition TTYMoveCursor :: "u32 \<Rightarrow> u32 \<Rightarrow> TTY \<Rightarrow> TTY" where
  "TTYMoveCursor x y tty =
    (let x = (if Width tty \<le> x then Width tty - 1 else x);
         y = (if Height tty \<le> y then Height tty - 1 else y);
         x = (if sint x < 0 then 0 else x);
         y = (if sint y < 0 then 0 else y);
         tty = TTYMakeDirty (CursorX tty) (CursorY tty) x y tty
     in tty\<lparr>CursorX := x, CursorY := y\<rparr>)"

definition TTYScrollUp :: "TTY \<Rightarrow> TTY option" where
  "TTYScrollUp tty =
    (let base = unat (ScrollWindowTop tty * Width tty);
         rows = ScrollWindowBottom tty - ScrollWindowTop tty
     in do {
       tty \<leftarrow> tty_memmove base (base + unat (Width tty)) (unat (rows * Width tty * 2) div 2) tty;
       tty \<leftarrow> tty_blank (base + unat (rows * Width tty)) (unat (Width tty)) tty;
       Some (TTYMakeDirty 0 (ScrollWindowTop tty) (Width tty - 1) (ScrollWindowBottom tty) tty) })"

definition TTYScrollDown :: "TTY \<Rightarrow> TTY option" where
  "TTYScrollDown tty =
    (let base = unat (ScrollWindowTop tty * Width tty);
         rows = ScrollWindowBottom tty - ScrollWindowTop tty
     in do {
       tty \<leftarrow> tty_memmove (base + unat (Width tty)) base (unat (rows * Width tty * 2) div 2) tty;
       tty \<leftarrow> tty_blank base (unat (Width tty)) tty;
       Some (TTYMakeDirty 0 (ScrollWindowTop tty) (Width tty - 1) (ScrollWindowBottom tty) tty) })"

definition TTYNewline :: "TTY \<Rightarrow> TTY option" where
  "TTYNewline tty =
    (let tty = tty\<lparr>CursorY := CursorY tty + 1\<rparr>;
         tty = TTYMakeDirty (CursorX tty) (CursorY tty - 1) 0 (CursorY tty) tty
     in if ScrollWindowBottom tty < CursorY tty
        then TTYScrollUp (tty\<lparr>CursorY := ScrollWindowBottom tty\<rparr>)
        else Some tty)"

definition TTYBackspace :: "TTY \<Rightarrow> TTY" where
  "TTYBackspace tty =
    (let oldx = CursorX tty; oldy = CursorY tty;
         tty = tty\<lparr>CursorX := CursorX tty - 1\<rparr>;
         tty = (if CursorX tty = - 1 then
                  let tty = tty\<lparr>CursorX := Width tty - 1, CursorY := CursorY tty - 1\<rparr>
                  in if CursorY tty = - 1 then tty\<lparr>CursorY := 0, CursorX := 0\<rparr> else tty
                else tty)
     in TTYMakeDirty oldx oldy (CursorX tty) (CursorY tty) tty)"

section \<open>Escape sequences\<close>

definition TTYEscSetColor :: "TTY \<Rightarrow> TTY" where
  "TTYEscSetColor tty =
    (let p = EscapeParams tty 0; param0 = sint p; a = CurrentAttributes tty
     in if param0 = 0 then tty\<lparr>CurrentAttributes := TTYDEFAULTATTR\<rparr>
        else if param0 = 7 then tty\<lparr>CurrentAttributes := signed_drop_bit 4 a OR push_bit 4 a\<rparr>
        else if param0 = 39 then tty\<lparr>CurrentAttributes := (a AND 0xF0) OR (TTYDEFAULTATTR AND 0xF)\<rparr>
        else if param0 = 49 then tty\<lparr>CurrentAttributes := (a AND 0x0F) OR (TTYDEFAULTATTR AND 0xF0)\<rparr>
        else if param0 \<ge> 30 \<and> param0 \<le> 37 then tty\<lparr>CurrentAttributes := (a AND 0xF0) OR (p - 30)\<rparr>
        else if param0 \<ge> 40 \<and> param0 \<le> 47
          then tty\<lparr>CurrentAttributes := (a AND 0x0F) OR push_bit 4 (p - 40)\<rparr>
        else if param0 \<ge> 90 \<and> param0 \<le> 97
          then tty\<lparr>CurrentAttributes := (a AND 0xF0) OR (p - 90 + 8)\<rparr>
        else if param0 \<ge> 100 \<and> param0 \<le> 107
          then tty\<lparr>CurrentAttributes := (a AND 0x0F) OR push_bit 4 (p - 100 + 8)\<rparr>
        else tty)"

definition TTYEscClear :: "TTY \<Rightarrow> TTY option" where
  "TTYEscClear tty =
    (if EscapeParams tty 0 = 2 then do {
       tty \<leftarrow> tty_blank 0 (unat (Width tty * Height tty)) tty;
       let tty = tty\<lparr>IsCursorHidden := False, ScrollWindowTop := 0,
                     ScrollWindowBottom := Height tty - 1\<rparr>;
       Some (TTYMakeDirty 0 0 (Width tty - 1) (Height tty - 1) tty) }
     else Some tty)"

definition TTYEscClearLine :: "TTY \<Rightarrow> TTY option" where
  "TTYEscClearLine tty =
    (let base = unat (CursorY tty * Width tty)
     in if EscapeParams tty 0 = 0 then
          tty_blank (base + unat (CursorX tty)) (nat (sint (Width tty - CursorX tty)))
            (TTYMakeDirty (CursorX tty) (CursorY tty) (Width tty - 1) (CursorY tty) tty)
        else if EscapeParams tty 0 = 2 then
          tty_blank base (nat (sint (Width tty)))
            (TTYMakeDirty 0 (CursorY tty) (Width tty - 1) (CursorY tty) tty)
        else Some tty)"

definition TTYEscSetScrollMargins :: "TTY \<Rightarrow> TTY" where
  "TTYEscSetScrollMargins tty =
    (let tty = (if EscapeParams tty 0 = 0 then tty\<lparr>ScrollWindowTop := 0\<rparr>
                else let tty = tty\<lparr>ScrollWindowTop := EscapeParams tty 0 - 1\<rparr>
                     in if Height tty \<le> ScrollWindowTop tty then tty\<lparr>ScrollWindowTop := 0\<rparr> else tty);
         tty = (if EscapeParams tty 1 = 0 then tty\<lparr>ScrollWindowBottom := Height tty - 1\<rparr>
                else let tty = tty\<lparr>ScrollWindowBottom := EscapeParams tty 1 - 1\<rparr>
                     in if Height tty \<le> ScrollWindowBottom tty then tty\<lparr>ScrollWindowBottom := 0\<rparr>
                        else tty)
     in if ScrollWindowBottom tty < ScrollWindowTop tty
        then tty\<lparr>ScrollWindowBottom := ScrollWindowTop tty\<rparr> else tty)"

text \<open>Characters of the C source and the decimal output of \<open>sprintf\<close>.\<close>

abbreviation (input) "chr_esc \<equiv> 0x1B :: u8"
abbreviation (input) "chr_0 \<equiv> 48 :: u8"
abbreviation (input) "chr_9 \<equiv> 57 :: u8"
abbreviation (input) "chr_lbracket \<equiv> 91 :: u8"
abbreviation (input) "chr_semicolon \<equiv> 59 :: u8"
abbreviation (input) "chr_question \<equiv> 63 :: u8"
abbreviation (input) "chr_m \<equiv> 109 :: u8"
abbreviation (input) "chr_H \<equiv> 72 :: u8"
abbreviation (input) "chr_J \<equiv> 74 :: u8"
abbreviation (input) "chr_K \<equiv> 75 :: u8"
abbreviation (input) "chr_r \<equiv> 114 :: u8"
abbreviation (input) "chr_S \<equiv> 83 :: u8"
abbreviation (input) "chr_T \<equiv> 84 :: u8"
abbreviation (input) "chr_n \<equiv> 110 :: u8"
abbreviation (input) "chr_R \<equiv> 82 :: u8"
abbreviation (input) "chr_h \<equiv> 104 :: u8"
abbreviation (input) "chr_l \<equiv> 108 :: u8"

fun decimal :: "nat \<Rightarrow> u8 list" where
  "decimal n = (if n < 10 then [chr_0 + of_nat n] else decimal (n div 10) @ [chr_0 + of_nat (n mod 10)])"

declare decimal.simps [simp del]

definition sprintf_d :: "u32 \<Rightarrow> u8 list" where
  "sprintf_d i = (if sint i < 0 then 45 # decimal (nat (- sint i)) else decimal (nat (sint i)))"

text \<open>
  The parser returns the characters it hands to the \<open>Input\<close> callback. The reply is formatted
  into \<open>querystr\<close>, 16 bytes with the escape character first and the terminating zero last.
\<close>

definition TTYQueryReply :: "TTY \<Rightarrow> u8 list" where
  "TTYQueryReply tty = chr_esc # chr_lbracket # sprintf_d (CursorY tty + 1) @ chr_semicolon #
     sprintf_d (CursorX tty + 1) @ [chr_R]"

definition TTYParseEscape :: "u8 \<Rightarrow> TTY \<Rightarrow> (TTY \<times> u8 list) option" where
  "TTYParseEscape c tty =
    (if sint c \<ge> sint chr_0 \<and> sint c \<le> sint chr_9 then
       if EscapeIndex tty < TTYPARAMCOUNT then
         Some (tty\<lparr>EscapeParams := (EscapeParams tty)(EscapeIndex tty :=
                EscapeParams tty (EscapeIndex tty) * 10 + scast (c - chr_0))\<rparr>, [])
       else None
     else if IsEscape tty = 1 then
       if c = chr_lbracket then Some (tty, [])
       else if c = chr_semicolon then
         let tty = tty\<lparr>EscapeIndex := EscapeIndex tty + 1\<rparr>
         in Some (if EscapeIndex tty \<ge> TTYPARAMCOUNT then tty\<lparr>EscapeIndex := 0\<rparr> else tty, [])
       else
         let tty = tty\<lparr>IsEscape := 0\<rparr>
         in if c = chr_m then Some (TTYEscSetColor tty, [])
            else if c = chr_H then
              Some (TTYMoveCursor (EscapeParams tty 1 - 1) (EscapeParams tty 0 - 1) tty, [])
            else if c = chr_J then do { tty \<leftarrow> TTYEscClear tty; Some (tty, []) }
            else if c = chr_K then do { tty \<leftarrow> TTYEscClearLine tty; Some (tty, []) }
            else if c = chr_question then Some (tty\<lparr>IsEscape := 2\<rparr>, [])
            else if c = chr_r then Some (TTYEscSetScrollMargins tty, [])
            else if c = chr_S then do { tty \<leftarrow> TTYScrollUp tty; Some (tty, []) }
            else if c = chr_T then do { tty \<leftarrow> TTYScrollDown tty; Some (tty, []) }
            else if c = chr_n then
              if length (TTYQueryReply tty) + 1 \<le> 16 then Some (tty, TTYQueryReply tty) else None
            else Some (tty, [])
     else if IsEscape tty = 2 then
       let tty = tty\<lparr>IsEscape := 0\<rparr>;
           mark = TTYMakeDirty (CursorX tty) (CursorY tty) (CursorX tty) (CursorY tty)
       in if EscapeParams tty 0 = 25 then
            if c = chr_h then Some ((if IsCursorHidden tty then mark tty else tty)\<lparr>IsCursorHidden := False\<rparr>, [])
            else if c = chr_l then
              Some ((if \<not> IsCursorHidden tty then mark tty else tty)\<lparr>IsCursorHidden := True\<rparr>, [])
            else Some (tty, [])
          else Some (tty, [])
     else Some (tty, []))"

text \<open>The parameter is a plain \<open>char\<close>, which is signed on the supported hosts.\<close>

definition TTYPutCharacter :: "u8 \<Rightarrow> TTY \<Rightarrow> (TTY \<times> u8 list) option" where
  "TTYPutCharacter c tty =
    (let curx = CursorX tty; cury = CursorY tty
     in if sint c > 0x7F then Some (tty, [])
        else if c = 0 then Some (tty, [])
        else if IsEscape tty \<noteq> 0 then TTYParseEscape c tty
        else if c = 10 then do { tty \<leftarrow> TTYNewline tty; Some (tty, []) }
        else if c = 8 then Some (TTYBackspace tty, [])
        else if c = 13 then
          let tty = tty\<lparr>CursorX := 0\<rparr> in Some (TTYMakeDirty curx cury (CursorX tty) cury tty, [])
        else if c = 9 then
          let tty = tty\<lparr>CursorX := CursorX tty + 1\<rparr>;
              tty = tty\<lparr>CursorX := (CursorX tty + 7) AND NOT 7\<rparr>;
              tty = (if Width tty \<le> CursorX tty then tty\<lparr>CursorX := Width tty - 1\<rparr> else tty)
          in Some (TTYMakeDirty curx cury (CursorX tty) (CursorY tty) tty, [])
        else if c = chr_esc then
          Some (tty\<lparr>IsEscape := 1, EscapeIndex := 0,
                    EscapeParams := (\<lambda>i. if i < TTYPARAMCOUNT then 0 else EscapeParams tty i)\<rparr>, [])
        else do {
          tty \<leftarrow> (if Width tty \<le> CursorX tty then TTYNewline (tty\<lparr>CursorX := 0\<rparr>) else Some tty);
          tty \<leftarrow> tty_store (unat (CursorY tty * Width tty + CursorX tty))
                  (ucast (push_bit 8 (CurrentAttributes tty) OR scast c)) tty;
          let tty = tty\<lparr>CursorX := CursorX tty + 1\<rparr>;
          Some (TTYMakeDirty curx cury (CursorX tty) (CursorY tty) tty, []) })"

text \<open>A run of characters, with everything it sends back.\<close>

fun tty_run :: "u8 list \<Rightarrow> TTY \<Rightarrow> (TTY \<times> u8 list) option" where
  "tty_run [] tty = Some (tty, [])"
| "tty_run (c # cs) tty = do {
     (tty, out) \<leftarrow> TTYPutCharacter c tty;
     (tty, out') \<leftarrow> tty_run cs tty;
     Some (tty, out @ out') }"

text \<open>
  The cells that \<open>TTYDraw\<close> reads: the dirty rectangle, row by row (\<open>None\<close>: not dirty). The
  width and height are signed.
\<close>

definition TTYDrawReads :: "TTY \<Rightarrow> nat list" where
  "TTYDrawReads tty =
    (if \<not> IsDirty tty then []
     else let addr = unat (DirtyY1 tty * Width tty + DirtyX1 tty);
              width = nat (sint (DirtyX2 tty - DirtyX1 tty + 1));
              height = nat (sint (DirtyY2 tty - DirtyY1 tty + 1))
          in concat (map (\<lambda>y. map (\<lambda>x. addr + y * unat (Width tty) + x) [0..<width]) [0..<height]))"

end
