(* ===== verification/TtyInv.thy ===== *)
theory TtyInv
  imports Tty
begin

text \<open>
  Memory safety of the terminal of theory \<open>Tty\<close>: an invariant of cursor, scroll window,
  dirty rectangle and buffer that every character keeps, under which no access leaves an array;
  the effect of scrolling on the rows; the attribute operations; and the answer to a cursor
  query.
\<close>

section \<open>Index arithmetic\<close>

lemma unat_add_small: "unat x + unat y < 2 ^ 32 \<Longrightarrow> unat (x + y :: u32) = unat x + unat y"
  by (simp add: unat_word_ariths)

lemma unat_mult_small: "unat x * unat y < 2 ^ 32 \<Longrightarrow> unat (x * y :: u32) = unat x * unat y"
  by (simp add: unat_word_ariths)

lemma unat_pred: "0 < (x :: u32) \<Longrightarrow> unat (x - 1) = unat x - 1"
  by (simp add: unat_sub word_le_nat_alt word_less_nat_alt)

lemma pred_less: "0 < (x :: u32) \<Longrightarrow> x - 1 < x"
  by (simp add: word_less_nat_alt unat_pred)

lemma le_pred_iff: "0 < (x :: u32) \<Longrightarrow> y \<le> x - 1 \<longleftrightarrow> y < x"
  by (auto simp: word_less_nat_alt word_le_nat_alt unat_pred)

lemma sint_small: "unat (x :: u32) < 2 ^ 31 \<Longrightarrow> sint x = int (unat x)"
proof -
  assume "unat x < 2 ^ 31"
  then have "int (unat x) < 2 ^ 31" by (simp del: of_nat_unat)
  then have "uint x < 2 ^ 31" unfolding uint_nat .
  moreover have "0 \<le> uint x" by simp
  ultimately have "signed_take_bit 31 (uint x) = uint x"
    by (intro signed_take_bit_int_eq_self) linarith+
  then show ?thesis by (simp add: sint_uint del: unsigned_less)
qed

section \<open>The invariant\<close>

definition tty_size_ok :: "TTY \<Rightarrow> bool" where
  "tty_size_ok tty \<longleftrightarrow> 0 < Width tty \<and> 0 < Height tty \<and> unat (Width tty) * unat (Height tty) < 2 ^ 15 \<and>
     length (TextBuffer tty) = unat (Width tty) * unat (Height tty)"

definition tty_dirty_ok :: "TTY \<Rightarrow> bool" where
  "tty_dirty_ok tty \<longleftrightarrow> DirtyX1 tty \<le> Width tty \<and> DirtyX2 tty < Width tty \<and>
     DirtyY1 tty < Height tty \<and> DirtyY2 tty < Height tty"

definition tty_window_ok :: "TTY \<Rightarrow> bool" where
  "tty_window_ok tty \<longleftrightarrow> ScrollWindowTop tty \<le> ScrollWindowBottom tty \<and> ScrollWindowBottom tty < Height tty"

definition tty_inv :: "TTY \<Rightarrow> bool" where
  "tty_inv tty \<longleftrightarrow> tty_size_ok tty \<and> tty_dirty_ok tty \<and> tty_window_ok tty \<and>
     CursorX tty \<le> Width tty \<and> CursorY tty < Height tty \<and>
     EscapeIndex tty < TTYPARAMCOUNT \<and> IsEscape tty \<le> 2"

text \<open>A step that succeeds, keeps the invariant and the dimensions.\<close>

definition tty_fine :: "TTY \<Rightarrow> TTY option \<Rightarrow> bool" where
  "tty_fine tty r \<longleftrightarrow> (\<exists>tty'. r = Some tty' \<and> tty_inv tty' \<and>
     Width tty' = Width tty \<and> Height tty' = Height tty)"

lemma tty_fine_Some [simp]:
  "tty_fine tty (Some tty') \<longleftrightarrow> tty_inv tty' \<and> Width tty' = Width tty \<and> Height tty' = Height tty"
  by (simp add: tty_fine_def)

lemma size_bounds:
  assumes "tty_size_ok tty"
  shows "unat (Width tty) < 2 ^ 15" "unat (Height tty) < 2 ^ 15" "0 < unat (Width tty)" "0 < unat (Height tty)"
proof -
  have 0: "0 < unat (Width tty)" "0 < unat (Height tty)"
    using assms by (simp_all add: tty_size_ok_def word_less_nat_alt)
  moreover have "unat (Width tty) \<le> unat (Width tty) * unat (Height tty)"
    "unat (Height tty) \<le> unat (Width tty) * unat (Height tty)"
    using 0 by simp_all
  ultimately show "unat (Width tty) < 2 ^ 15" "unat (Height tty) < 2 ^ 15"
    "0 < unat (Width tty)" "0 < unat (Height tty)"
    using assms unfolding tty_size_ok_def by linarith+
qed

lemma row_bound:
  assumes "tty_size_ok tty" and "y < Height tty"
  shows "unat (y * Width tty) = unat y * unat (Width tty)"
    and "unat y * unat (Width tty) + unat (Width tty) \<le> length (TextBuffer tty)"
proof -
  have "Suc (unat y) \<le> unat (Height tty)" using assms(2) by (simp add: word_less_nat_alt)
  then have "Suc (unat y) * unat (Width tty) \<le> unat (Height tty) * unat (Width tty)"
    by (rule mult_le_mono1)
  then have le: "unat y * unat (Width tty) + unat (Width tty) \<le> unat (Width tty) * unat (Height tty)"
    by (simp add: mult.commute)
  then show "unat y * unat (Width tty) + unat (Width tty) \<le> length (TextBuffer tty)"
    using assms(1) by (simp add: tty_size_ok_def)
  have "unat y * unat (Width tty) < 2 ^ 32"
    using le assms(1) by (simp add: tty_size_ok_def)
  then show "unat (y * Width tty) = unat y * unat (Width tty)" by (rule unat_mult_small)
qed

lemma cell_index:
  assumes "tty_size_ok tty" and "y < Height tty" and "x \<le> Width tty"
  shows "unat (y * Width tty + x) = unat y * unat (Width tty) + unat x"
proof -
  have "unat x \<le> unat (Width tty)" using assms(3) by (simp add: word_le_nat_alt)
  then have "unat (y * Width tty) + unat x < 2 ^ 32"
    using row_bound [OF assms(1,2)] assms(1) by (simp add: tty_size_ok_def)
  then show ?thesis using row_bound(1) [OF assms(1,2)] by (simp add: unat_add_small)
qed

section \<open>Buffer operations\<close>

lemma tty_blank_eq:
  "i + n \<le> length (TextBuffer tty) \<Longrightarrow> tty_blank i n tty =
     Some (tty\<lparr>TextBuffer := take i (TextBuffer tty) @ replicate n blank_cell @ drop (i + n) (TextBuffer tty)\<rparr>)"
proof (induction n arbitrary: i tty)
  case (Suc n)
  have "i < length (TextBuffer tty)" using Suc.prems by simp
  then show ?case
    using Suc by (simp add: tty_store_def add.commute take_Suc_conv_app_nth upd_conv_take_nth_drop)
qed simp

lemma blank_fine:
  assumes "tty_inv tty" and "i + n \<le> length (TextBuffer tty)"
  shows "tty_fine tty (tty_blank i n tty)"
  using assms
  by (simp add: tty_blank_eq tty_inv_def tty_size_ok_def tty_dirty_ok_def tty_window_ok_def)

lemma memmove_fine:
  assumes "tty_inv tty" and "dst + n \<le> length (TextBuffer tty)" and "src + n \<le> length (TextBuffer tty)"
  shows "tty_fine tty (tty_memmove dst src n tty)"
  using assms
  by (simp add: tty_memmove_def Let_def tty_inv_def tty_size_ok_def tty_dirty_ok_def tty_window_ok_def)

lemma store_fine:
  assumes "tty_inv tty" and "i < length (TextBuffer tty)"
  shows "tty_fine tty (tty_store i v tty)"
  using assms by (simp add: tty_store_def tty_inv_def tty_size_ok_def tty_dirty_ok_def tty_window_ok_def)

lemma fine_bind:
  assumes "tty_fine tty r" and "\<And>t. tty_inv t \<Longrightarrow> Width t = Width tty \<Longrightarrow> Height t = Height tty \<Longrightarrow>
    r = Some t \<Longrightarrow> tty_fine tty (f t)"
  shows "tty_fine tty (r \<bind> f)"
  using assms by (auto simp: tty_fine_def)

section \<open>Dirty rectangle\<close>

lemma MakeDirty_keeps [simp]:
  "TextBuffer (TTYMakeDirty x1 y1 x2 y2 tty) = TextBuffer tty"
  "Width (TTYMakeDirty x1 y1 x2 y2 tty) = Width tty" "Height (TTYMakeDirty x1 y1 x2 y2 tty) = Height tty"
  "CursorX (TTYMakeDirty x1 y1 x2 y2 tty) = CursorX tty" "CursorY (TTYMakeDirty x1 y1 x2 y2 tty) = CursorY tty"
  "ScrollWindowTop (TTYMakeDirty x1 y1 x2 y2 tty) = ScrollWindowTop tty"
  "ScrollWindowBottom (TTYMakeDirty x1 y1 x2 y2 tty) = ScrollWindowBottom tty"
  "EscapeIndex (TTYMakeDirty x1 y1 x2 y2 tty) = EscapeIndex tty"
  "IsEscape (TTYMakeDirty x1 y1 x2 y2 tty) = IsEscape tty"
  "EscapeParams (TTYMakeDirty x1 y1 x2 y2 tty) = EscapeParams tty"
  "CurrentAttributes (TTYMakeDirty x1 y1 x2 y2 tty) = CurrentAttributes tty"
  "IsCursorHidden (TTYMakeDirty x1 y1 x2 y2 tty) = IsCursorHidden tty"
  by (simp_all add: TTYMakeDirty_def Let_def split: prod.split)

lemma MakeDirty_eq:
  assumes "0 < Width tty" "0 < Height tty"
  shows "TTYMakeDirty x1 y1 x2 y2 tty = tty\<lparr>
    DirtyX1 := (if IsDirty tty then min (min x1 x2) (DirtyX1 tty) else min x1 x2),
    DirtyY1 := (if IsDirty tty then min (min y1 y2) (DirtyY1 tty) else min y1 y2),
    DirtyX2 := (if IsDirty tty then max (min (max x1 x2) (Width tty - 1)) (DirtyX2 tty)
                else min (max x1 x2) (Width tty - 1)),
    DirtyY2 := (if IsDirty tty then max (min (max y1 y2) (Height tty - 1)) (DirtyY2 tty)
                else min (max y1 y2) (Height tty - 1)), IsDirty := True\<rparr>"
proof -
  have sw: "(if b < a then (b, a) else (a, b)) = (min a b, max a b)" for a b :: u32
    using min.absorb1 [of a b] min.absorb2 [of b a] max.absorb1 [of b a] max.absorb2 [of a b]
      linorder_not_less [of b a] less_imp_le [of b a] by fastforce
  have cl: "(if w \<le> a then w - 1 else a) = min a (w - 1)" if "0 < w" for a w :: u32
    using le_pred_iff [OF that, of a] by (auto simp: min_def not_less)
  have lo: "(if a < b then a else b) = min a b" "(if b < a then a else b) = max a b" for a b :: u32
    using min.absorb1 [of a b] min.absorb2 [of b a] max.absorb1 [of b a] max.absorb2 [of a b]
      linorder_not_less [of b a] linorder_not_less [of a b] less_imp_le [of b a] less_imp_le [of a b]
    by fastforce+
  show ?thesis by (simp add: TTYMakeDirty_def sw cl [OF assms(1)] cl [OF assms(2)] lo)
qed

lemma MakeDirty_dirty_ok:
  assumes "tty_dirty_ok tty" and "0 < Width tty" "0 < Height tty"
    and "x1 \<le> Width tty \<or> x2 \<le> Width tty" and "y1 < Height tty \<or> y2 < Height tty"
  shows "tty_dirty_ok (TTYMakeDirty x1 y1 x2 y2 tty)"
proof -
  have "Width tty - 1 < Width tty" "Height tty - 1 < Height tty" using assms(2,3) by (simp_all add: pred_less)
  then show ?thesis
    using assms by (simp add: MakeDirty_eq tty_dirty_ok_def min_le_iff_disj min_less_iff_disj)
qed

lemma MakeDirty_inv:
  assumes "tty_inv tty" and "x1 \<le> Width tty \<or> x2 \<le> Width tty" and "y1 < Height tty \<or> y2 < Height tty"
  shows "tty_inv (TTYMakeDirty x1 y1 x2 y2 tty)"
  using assms MakeDirty_dirty_ok [of tty x1 x2 y1 y2]
  by (auto simp: tty_inv_def tty_size_ok_def tty_window_ok_def)

section \<open>Every operation keeps the invariant\<close>

lemma tty_invD:
  assumes "tty_inv tty"
  shows "tty_size_ok tty" "0 < Width tty" "0 < Height tty" "CursorX tty \<le> Width tty" "CursorY tty < Height tty"
    "ScrollWindowTop tty \<le> ScrollWindowBottom tty" "ScrollWindowBottom tty < Height tty"
  using assms by (simp_all add: tty_inv_def tty_size_ok_def tty_window_ok_def)

lemma scroll_arith:
  assumes "tty_inv tty"
  defines "t \<equiv> unat (ScrollWindowTop tty)" and "b \<equiv> unat (ScrollWindowBottom tty)" and "w \<equiv> unat (Width tty)"
  shows "unat (ScrollWindowTop tty * Width tty) = t * w"
    "unat ((ScrollWindowBottom tty - ScrollWindowTop tty) * Width tty) = (b - t) * w"
    "unat ((ScrollWindowBottom tty - ScrollWindowTop tty) * Width tty * 2) div 2 = (b - t) * w"
    "t \<le> b" "t * w + (b - t) * w + w \<le> length (TextBuffer tty)" "t * w + (b - t) * w = b * w"
proof -
  note i = tty_invD [OF assms(1)]
  have tb: "t \<le> b" using i(6) by (simp add: t_def b_def word_le_nat_alt)
  show "t \<le> b" by (rule tb)
  have top: "ScrollWindowTop tty < Height tty" using i(6,7) by order
  show "unat (ScrollWindowTop tty * Width tty) = t * w"
    using row_bound(1) [OF i(1) top] by (simp add: t_def w_def)
  have d: "unat (ScrollWindowBottom tty - ScrollWindowTop tty) = b - t"
    using i(6) by (simp add: unat_sub b_def t_def)
  have bw: "b * w + w \<le> length (TextBuffer tty)" "b * w + w < 2 ^ 15"
    using row_bound(2) [OF i(1) i(7)] i(1) by (simp_all add: b_def w_def tty_size_ok_def)
  show e: "t * w + (b - t) * w = b * w" using tb by (simp add: diff_mult_distrib)
  then show "t * w + (b - t) * w + w \<le> length (TextBuffer tty)" using bw by simp
  have l: "(b - t) * w < 2 ^ 15" using e bw(2) by linarith
  then show m: "unat ((ScrollWindowBottom tty - ScrollWindowTop tty) * Width tty) = (b - t) * w"
    using d by (subst unat_mult_small) (simp_all add: w_def)
  have "unat ((ScrollWindowBottom tty - ScrollWindowTop tty) * Width tty * 2) = (b - t) * w * 2"
    using m l by (subst unat_mult_small) (simp_all add: mult.commute)
  then show "unat ((ScrollWindowBottom tty - ScrollWindowTop tty) * Width tty * 2) div 2 = (b - t) * w"
    by simp
qed

lemma fine_length: "tty_inv tty \<Longrightarrow> length (TextBuffer tty) = unat (Width tty) * unat (Height tty)"
  by (simp add: tty_inv_def tty_size_ok_def)

text \<open>The effect of scrolling on the buffer: rows \<open>t..b\<close> move by one, the free row is blank.\<close>

definition scrolled_up :: "nat \<Rightarrow> nat \<Rightarrow> nat \<Rightarrow> u16 list \<Rightarrow> u16 list" where
  "scrolled_up w t b B = take (t * w) B @ take ((b - t) * w) (drop (t * w + w) B) @
     replicate w blank_cell @ drop (b * w + w) B"

definition scrolled_down :: "nat \<Rightarrow> nat \<Rightarrow> nat \<Rightarrow> u16 list \<Rightarrow> u16 list" where
  "scrolled_down w t b B = take (t * w) B @ replicate w blank_cell @
     take ((b - t) * w) (drop (t * w) B) @ drop (b * w + w) B"

definition window_dirty :: "TTY \<Rightarrow> TTY" where
  "window_dirty tty = TTYMakeDirty 0 (ScrollWindowTop tty) (Width tty - 1) (ScrollWindowBottom tty) tty"

lemma ScrollUp_eq:
  assumes "tty_inv tty"
  shows "TTYScrollUp tty = Some (window_dirty (tty\<lparr>TextBuffer := scrolled_up (unat (Width tty))
     (unat (ScrollWindowTop tty)) (unat (ScrollWindowBottom tty)) (TextBuffer tty)\<rparr>))"
proof -
  note a = scroll_arith [OF assms]
  let ?w = "unat (Width tty)" let ?t = "unat (ScrollWindowTop tty)" let ?b = "unat (ScrollWindowBottom tty)"
  let ?B = "TextBuffer tty" let ?n = "(?b - ?t) * ?w"
  have l: "?t * ?w + ?n + ?w \<le> length ?B" and e: "?b * ?w = ?t * ?w + ?n" using a(5,6) by simp_all
  let ?B1 = "take (?t * ?w) ?B @ take ?n (drop (?t * ?w + ?w) ?B) @ drop (?t * ?w + ?n) ?B"
  have m: "tty_memmove (?t * ?w) (?t * ?w + ?w) ?n tty = Some (tty\<lparr>TextBuffer := ?B1\<rparr>)"
    using l by (simp add: tty_memmove_def Let_def)
  have lB: "length ?B1 = length ?B" using l by simp
  have "take (?t * ?w + ?n) ?B1 = take (?t * ?w) ?B @ take ?n (drop (?t * ?w + ?w) ?B)"
    "drop (?t * ?w + ?n + ?w) ?B1 = drop (?b * ?w + ?w) ?B"
    using l by (simp_all add: e add.commute add.left_commute)
  then have "tty_blank (?t * ?w + ?n) ?w (tty\<lparr>TextBuffer := ?B1\<rparr>) =
      Some (tty\<lparr>TextBuffer := scrolled_up ?w ?t ?b ?B\<rparr>)"
    using l lB by (subst tty_blank_eq) (simp_all add: scrolled_up_def)
  then show ?thesis
    unfolding TTYScrollUp_def Let_def a(1,2,3) m by (simp add: a(2) window_dirty_def)
qed

lemma ScrollDown_eq:
  assumes "tty_inv tty"
  shows "TTYScrollDown tty = Some (window_dirty (tty\<lparr>TextBuffer := scrolled_down (unat (Width tty))
     (unat (ScrollWindowTop tty)) (unat (ScrollWindowBottom tty)) (TextBuffer tty)\<rparr>))"
proof -
  note a = scroll_arith [OF assms]
  let ?w = "unat (Width tty)" let ?t = "unat (ScrollWindowTop tty)" let ?b = "unat (ScrollWindowBottom tty)"
  let ?B = "TextBuffer tty" let ?n = "(?b - ?t) * ?w"
  have l: "?t * ?w + ?n + ?w \<le> length ?B" and e: "?b * ?w = ?t * ?w + ?n" using a(5,6) by simp_all
  let ?B1 = "take (?t * ?w + ?w) ?B @ take ?n (drop (?t * ?w) ?B) @ drop (?t * ?w + ?w + ?n) ?B"
  have m: "tty_memmove (?t * ?w + ?w) (?t * ?w) ?n tty = Some (tty\<lparr>TextBuffer := ?B1\<rparr>)"
    using l by (simp add: tty_memmove_def Let_def)
  have lB: "length ?B1 = length ?B" using l by simp
  have "take (?t * ?w) ?B1 = take (?t * ?w) ?B"
    "drop (?t * ?w + ?w) ?B1 = take ?n (drop (?t * ?w) ?B) @ drop (?b * ?w + ?w) ?B"
    using l by (simp_all add: e ac_simps min_def)
  then have "tty_blank (?t * ?w) ?w (tty\<lparr>TextBuffer := ?B1\<rparr>) =
      Some (tty\<lparr>TextBuffer := scrolled_down ?w ?t ?b ?B\<rparr>)"
    using l lB by (subst tty_blank_eq) (simp_all add: scrolled_down_def)
  then show ?thesis
    unfolding TTYScrollDown_def Let_def a(1,2,3) m by (simp add: window_dirty_def)
qed

lemma length_scrolled:
  assumes "t \<le> b" and "b * w + w \<le> length B"
  shows "length (scrolled_up w t b B) = length B" "length (scrolled_down w t b B) = length B"
proof -
  define x n where "x = t * w" and "n = (b - t) * w"
  have e: "b * w = x + n" using assms(1) by (simp add: x_def n_def diff_mult_distrib)
  then have "x + n + w \<le> length B" using assms(2) by simp
  then show "length (scrolled_up w t b B) = length B" "length (scrolled_down w t b B) = length B"
    unfolding scrolled_up_def scrolled_down_def e x_def [symmetric] n_def [symmetric] length_append length_take length_drop length_replicate
    by arith+
qed

lemma inv_buffer: "tty_inv tty \<Longrightarrow> length B = length (TextBuffer tty) \<Longrightarrow> tty_inv (tty\<lparr>TextBuffer := B\<rparr>)"
  by (simp add: tty_inv_def tty_size_ok_def tty_dirty_ok_def tty_window_ok_def)

lemma window_dirty_inv: "tty_inv tty \<Longrightarrow> tty_inv (window_dirty tty)"
  using tty_invD [of tty] by (simp add: window_dirty_def MakeDirty_inv)

lemma Scroll_fine:
  assumes "tty_inv tty"
  shows "tty_fine tty (TTYScrollUp tty)" "tty_fine tty (TTYScrollDown tty)"
proof -
  note a = scroll_arith [OF assms]
  have "length (scrolled_up (unat (Width tty)) (unat (ScrollWindowTop tty)) (unat (ScrollWindowBottom tty))
      (TextBuffer tty)) = length (TextBuffer tty)"
    "length (scrolled_down (unat (Width tty)) (unat (ScrollWindowTop tty)) (unat (ScrollWindowBottom tty))
      (TextBuffer tty)) = length (TextBuffer tty)"
    using a(4,5,6) by (simp_all add: length_scrolled)
  then show "tty_fine tty (TTYScrollUp tty)" "tty_fine tty (TTYScrollDown tty)"
    using assms by (simp_all add: ScrollUp_eq ScrollDown_eq window_dirty_inv inv_buffer)
      (simp_all add: window_dirty_def)
qed

lemma inv_cursor:
  "tty_inv tty \<Longrightarrow> x \<le> Width tty \<Longrightarrow> y < Height tty \<Longrightarrow> tty_inv (tty\<lparr>CursorX := x, CursorY := y\<rparr>)"
  by (simp add: tty_inv_def tty_size_ok_def tty_dirty_ok_def tty_window_ok_def)

lemma inv_cursor_x: "tty_inv tty \<Longrightarrow> x \<le> Width tty \<Longrightarrow> tty_inv (tty\<lparr>CursorX := x\<rparr>)"
  by (simp add: tty_inv_def tty_size_ok_def tty_dirty_ok_def tty_window_ok_def)

lemma inv_cursor_y: "tty_inv tty \<Longrightarrow> y < Height tty \<Longrightarrow> tty_inv (tty\<lparr>CursorY := y\<rparr>)"
  by (simp add: tty_inv_def tty_size_ok_def tty_dirty_ok_def tty_window_ok_def)

text \<open>A coordinate handed to \<open>TTYMoveCursor\<close>, forced into a range of \<open>n\<close> values.\<close>

definition clamp :: "u32 \<Rightarrow> u32 \<Rightarrow> u32" where
  "clamp n v = (let v = (if n \<le> v then n - 1 else v) in if sint v < 0 then 0 else v)"

lemma clamp_less: "0 < n \<Longrightarrow> clamp n v < n"
  using pred_less [of n] by (auto simp: clamp_def Let_def not_le)

lemma clamp_id: "v < n \<Longrightarrow> unat n < 2 ^ 31 \<Longrightarrow> clamp n v = v"
  using sint_small [of v] by (auto simp: clamp_def Let_def word_less_nat_alt word_le_nat_alt)

lemma MoveCursor_eq:
  "TTYMoveCursor x y tty =
    (TTYMakeDirty (CursorX tty) (CursorY tty) (clamp (Width tty) x) (clamp (Height tty) y) tty)
      \<lparr>CursorX := clamp (Width tty) x, CursorY := clamp (Height tty) y\<rparr>"
  by (simp only: TTYMoveCursor_def clamp_def Let_def)

lemma MoveCursor_fine:
  assumes "tty_inv tty"
  shows "tty_fine tty (Some (TTYMoveCursor x y tty))"
  using assms tty_invD [OF assms] clamp_less [of "Width tty" x] clamp_less [of "Height tty" y]
  by (simp add: MoveCursor_eq inv_cursor MakeDirty_inv)

lemma Newline_fine:
  assumes "tty_inv tty"
  shows "tty_fine tty (TTYNewline tty)"
proof -
  note i = tty_invD [OF assms]
  let ?t = "TTYMakeDirty (CursorX tty) (CursorY tty) 0 (CursorY tty + 1) (tty\<lparr>CursorY := CursorY tty + 1\<rparr>)"
  have d: "tty_dirty_ok ?t"
    by (rule MakeDirty_dirty_ok) (use assms i in \<open>simp_all add: tty_inv_def tty_dirty_ok_def\<close>)
  have inv: "tty_inv (?t\<lparr>CursorY := y\<rparr>)" if "y < Height tty" for y
    using d assms that by (simp add: tty_inv_def tty_size_ok_def tty_window_ok_def tty_dirty_ok_def)
  show ?thesis
  proof (cases "ScrollWindowBottom tty < CursorY tty + 1")
    case True
    then show ?thesis
      using Scroll_fine(1) [OF inv [OF i(7)]] by (simp add: TTYNewline_def Let_def tty_fine_def)
  next
    case False
    then have "CursorY tty + 1 < Height tty" using i(7) by order
    then have "tty_inv ?t" using d assms by (simp add: tty_inv_def tty_size_ok_def tty_window_ok_def)
    then show ?thesis using False by (simp add: TTYNewline_def Let_def)
  qed
qed

lemma Backspace_fine:
  assumes "tty_inv tty"
  shows "tty_fine tty (Some (TTYBackspace tty))"
proof -
  note i = tty_invD [OF assms]
  have X: "CursorX tty - 1 \<le> Width tty" if "CursorX tty - 1 \<noteq> - 1"
    using that i(4) by (auto simp: word_le_nat_alt unat_pred word_neq_0_conv)
  have Y: "CursorY tty - 1 < Height tty" if "CursorY tty - 1 \<noteq> - 1"
    using that i(5) by (auto simp: word_less_nat_alt unat_pred word_neq_0_conv)
  have "Width tty - 1 \<le> Width tty" using pred_less [OF i(2)] by simp
  then show ?thesis
    using X Y assms i
    by (simp add: TTYBackspace_def Let_def) (intro conjI impI MakeDirty_inv inv_cursor inv_cursor_x inv_cursor_y; simp)
qed

lemma EscClear_fine:
  assumes "tty_inv tty"
  shows "tty_fine tty (TTYEscClear tty)"
proof -
  note i = tty_invD [OF assms]
  have l: "unat (Width tty * Height tty) = length (TextBuffer tty)"
    using i(1) by (subst unat_mult_small) (simp_all add: tty_size_ok_def)
  have "tty_dirty_ok t" if "tty_inv t" for t using that by (simp add: tty_inv_def)
  show ?thesis
  proof (cases "EscapeParams tty 0 = 2")
    case True
    show ?thesis
      unfolding TTYEscClear_def Let_def using True
    proof (simp, intro fine_bind blank_fine, goal_cases)
      case (3 t)
      then have "tty_inv (t\<lparr>IsCursorHidden := False, ScrollWindowTop := 0, ScrollWindowBottom := Height tty - 1\<rparr>)"
        using i(3) by (simp add: tty_inv_def tty_size_ok_def tty_dirty_ok_def tty_window_ok_def pred_less)
      then show ?case using 3 i by (simp add: MakeDirty_inv)
    qed (use assms l in simp_all)
  qed (use assms in \<open>simp add: TTYEscClear_def\<close>)
qed

lemma EscClearLine_fine:
  assumes "tty_inv tty"
  shows "tty_fine tty (TTYEscClearLine tty)"
proof -
  note i = tty_invD [OF assms]
  note r = row_bound [OF i(1) i(5)]
  have w: "unat (Width tty) < 2 ^ 15" using size_bounds [OF i(1)] by simp
  have x: "unat (CursorX tty) \<le> unat (Width tty)" using i(4) by (simp add: word_le_nat_alt)
  have d: "nat (sint (Width tty - CursorX tty)) = unat (Width tty) - unat (CursorX tty)"
    using i(4) w by (subst sint_small) (simp_all add: unat_sub)
  have n: "nat (sint (Width tty)) = unat (Width tty)" using w by (subst sint_small) simp_all
  have "tty_fine tty (tty_blank j k (TTYMakeDirty v (CursorY tty) (Width tty - 1) (CursorY tty) tty))"
    if "j + k \<le> length (TextBuffer tty)" "v \<le> Width tty" for j k v
    using blank_fine [of "TTYMakeDirty v (CursorY tty) (Width tty - 1) (CursorY tty) tty" j k]
      MakeDirty_inv [OF assms, of v _ "CursorY tty" "CursorY tty"] that i(5)
    by (simp add: tty_fine_def)
  then show ?thesis
    using assms r x i(4) by (simp add: TTYEscClearLine_def Let_def d n r(1))
qed

lemma EscSetColor_fine: "tty_inv tty \<Longrightarrow> tty_fine tty (Some (TTYEscSetColor tty))"
  by (simp add: TTYEscSetColor_def Let_def tty_inv_def tty_size_ok_def tty_dirty_ok_def tty_window_ok_def)

lemma EscSetScrollMargins_fine:
  assumes "tty_inv tty"
  shows "tty_fine tty (Some (TTYEscSetScrollMargins tty))"
proof -
  note i = tty_invD [OF assms]
  have "tty_window_ok (TTYEscSetScrollMargins tty)"
    using i(3) pred_less [OF i(3)] by (auto simp: TTYEscSetScrollMargins_def tty_window_ok_def Let_def not_less not_le)
  moreover have "TextBuffer (TTYEscSetScrollMargins tty) = TextBuffer tty"
    "Width (TTYEscSetScrollMargins tty) = Width tty" "Height (TTYEscSetScrollMargins tty) = Height tty"
    "CursorX (TTYEscSetScrollMargins tty) = CursorX tty" "CursorY (TTYEscSetScrollMargins tty) = CursorY tty"
    "EscapeIndex (TTYEscSetScrollMargins tty) = EscapeIndex tty" "IsEscape (TTYEscSetScrollMargins tty) = IsEscape tty"
    "DirtyX1 (TTYEscSetScrollMargins tty) = DirtyX1 tty" "DirtyX2 (TTYEscSetScrollMargins tty) = DirtyX2 tty"
    "DirtyY1 (TTYEscSetScrollMargins tty) = DirtyY1 tty" "DirtyY2 (TTYEscSetScrollMargins tty) = DirtyY2 tty"
    by (simp_all add: TTYEscSetScrollMargins_def Let_def)
  ultimately show ?thesis using assms by (simp add: tty_inv_def tty_size_ok_def tty_dirty_ok_def)
qed

section \<open>Decimal numbers\<close>

lemma length_decimal: "n < 10 ^ k \<Longrightarrow> 0 < k \<Longrightarrow> length (decimal n) \<le> k"
proof (induction n arbitrary: k rule: decimal.induct)
  case (1 n)
  show ?case
  proof (cases "n < 10")
    case False
    then obtain j where k: "k = Suc j" "0 < j"
      using 1(2,3) by (cases k; cases "k - 1") auto
    have "n div 10 < 10 ^ j" using 1(2) k(1) by (simp add: less_mult_imp_div_less mult.commute)
    then show ?thesis using 1(1) [OF False _ k(2)] False k by (subst decimal.simps) simp
  qed (use 1(3) in \<open>subst decimal.simps, simp\<close>)
qed

lemma decimal_digits: "c \<in> set (decimal n) \<Longrightarrow> \<exists>d<10. c = chr_0 + of_nat d"
proof (induction n rule: decimal.induct)
  case (1 n)
  show ?case
  proof (cases "n < 10")
    case True
    then show ?thesis using 1(2) by (subst (asm) decimal.simps) auto
  next
    case False
    then have "c \<in> set (decimal (n div 10)) \<or> c = chr_0 + of_nat (n mod 10)"
      using 1(2) by (subst (asm) decimal.simps) auto
    then show ?thesis using 1(1) [OF False] by (auto intro: exI [of _ "n mod 10"])
  qed
qed

lemma succ_bound:
  assumes "tty_inv tty"
  shows "unat (CursorX tty + 1) = unat (CursorX tty) + 1" "unat (CursorY tty + 1) = unat (CursorY tty) + 1"
    "unat (CursorX tty) + 1 \<le> 2 ^ 15" "unat (CursorY tty) + 1 < 2 ^ 15"
proof -
  note i = tty_invD [OF assms] and b = size_bounds [OF tty_invD(1) [OF assms]]
  have "unat (CursorX tty) \<le> unat (Width tty)" "unat (CursorY tty) < unat (Height tty)"
    using i(4,5) by (simp_all add: word_le_nat_alt word_less_nat_alt)
  with b show "unat (CursorX tty) + 1 \<le> 2 ^ 15" "unat (CursorY tty) + 1 < 2 ^ 15" by linarith+
  then show "unat (CursorX tty + 1) = unat (CursorX tty) + 1" "unat (CursorY tty + 1) = unat (CursorY tty) + 1"
    using unat_add_small [of "CursorX tty" 1] unat_add_small [of "CursorY tty" 1] by simp_all
qed

lemma sprintf_small: "unat i < 2 ^ 31 \<Longrightarrow> sprintf_d i = decimal (unat i)"
  by (simp add: sprintf_d_def sint_small)

lemma QueryReply_eq:
  assumes "tty_inv tty"
  shows "TTYQueryReply tty = chr_esc # chr_lbracket # decimal (unat (CursorY tty) + 1) @ chr_semicolon #
     decimal (unat (CursorX tty) + 1) @ [chr_R]"
  using succ_bound [OF assms] by (simp add: TTYQueryReply_def sprintf_small)

lemma QueryReply_fits:
  assumes "tty_inv tty"
  shows "length (TTYQueryReply tty) + 1 \<le> 16"
  using succ_bound [OF assms] length_decimal [of "unat (CursorY tty) + 1" 5]
    length_decimal [of "unat (CursorX tty) + 1" 5]
  by (simp add: QueryReply_eq [OF assms])

section \<open>Every character\<close>

lemma fine_pair:
  "tty_fine tty r \<Longrightarrow> \<exists>tty'. r \<bind> (\<lambda>t. Some (t, [])) = Some (tty', []) \<and> tty_inv tty' \<and>
     Width tty' = Width tty \<and> Height tty' = Height tty"
  by (auto simp: tty_fine_def)

lemma inv_escape:
  "tty_inv tty \<Longrightarrow> n \<le> 2 \<Longrightarrow> tty_inv (tty\<lparr>IsEscape := n\<rparr>)"
  "tty_inv tty \<Longrightarrow> k < TTYPARAMCOUNT \<Longrightarrow> tty_inv (tty\<lparr>EscapeIndex := k\<rparr>)"
  "tty_inv tty \<Longrightarrow> tty_inv (tty\<lparr>EscapeParams := p\<rparr>)"
  "tty_inv tty \<Longrightarrow> tty_inv (tty\<lparr>IsCursorHidden := h\<rparr>)"
  by (simp_all add: tty_inv_def tty_size_ok_def tty_dirty_ok_def tty_window_ok_def)

text \<open>The result of one character: a state that keeps the invariant.\<close>

definition tty_good :: "TTY \<Rightarrow> (TTY \<times> u8 list) option \<Rightarrow> bool" where
  "tty_good tty r \<longleftrightarrow> (\<exists>tty' out. r = Some (tty', out) \<and> tty_inv tty' \<and>
     Width tty' = Width tty \<and> Height tty' = Height tty)"

lemma tty_good_Some [simp]:
  "tty_good tty (Some (tty', out)) \<longleftrightarrow> tty_inv tty' \<and> Width tty' = Width tty \<and> Height tty' = Height tty"
  by (simp add: tty_good_def)

lemma good_bind: "tty_fine tty r \<Longrightarrow> tty_good tty (r \<bind> (\<lambda>t. Some (t, out)))"
  by (auto simp: tty_fine_def)

lemma good_dims: "Width t = Width tty \<Longrightarrow> Height t = Height tty \<Longrightarrow> tty_good t r = tty_good tty r"
  by (simp add: tty_good_def)

lemma final_good:
  assumes "tty_inv tty"
  shows "tty_good tty (Some (TTYEscSetColor tty, out))" "tty_good tty (Some (TTYMoveCursor x y tty, out))"
    "tty_good tty (TTYEscClear tty \<bind> (\<lambda>t. Some (t, out)))"
    "tty_good tty (TTYEscClearLine tty \<bind> (\<lambda>t. Some (t, out)))"
    "tty_good tty (Some (TTYEscSetScrollMargins tty, out))"
    "tty_good tty (TTYScrollUp tty \<bind> (\<lambda>t. Some (t, out)))"
    "tty_good tty (TTYScrollDown tty \<bind> (\<lambda>t. Some (t, out)))"
    "tty_good tty (Some (tty, out))"
  using good_bind [OF EscSetColor_fine [OF assms]] good_bind [OF MoveCursor_fine [OF assms]]
    good_bind [OF EscClear_fine [OF assms]] good_bind [OF EscClearLine_fine [OF assms]]
    good_bind [OF EscSetScrollMargins_fine [OF assms]] good_bind [OF Scroll_fine(1) [OF assms]]
    good_bind [OF Scroll_fine(2) [OF assms]] assms
  by simp_all

lemma good_if:
  "(b \<Longrightarrow> tty_good tty r) \<Longrightarrow> (\<not> b \<Longrightarrow> tty_good tty r') \<Longrightarrow> tty_good tty (if b then r else r')"
  by simp

lemma ParseEscape_good:
  assumes "tty_inv tty"
  shows "tty_good tty (TTYParseEscape c tty)"
proof -
  have E: "EscapeIndex tty < 4" using assms by (simp add: tty_inv_def)
  let ?t = "tty\<lparr>IsEscape := 0\<rparr>"
  have t: "tty_inv ?t" using assms by (simp add: inv_escape)
  have g: "tty_good tty r" if "tty_good ?t r" for r using that good_dims [of ?t tty] by simp
  have d: "CursorX tty \<le> Width tty" "CursorY tty < Height tty" using tty_invD [OF assms] by simp_all
  show ?thesis
    using assms E t d QueryReply_fits [OF t]
    unfolding TTYParseEscape_def Let_def
    by (intro good_if g final_good; simp add: inv_escape MakeDirty_inv)
qed

lemma tty_blank_cursor: "tty_blank i n tty = Some t \<Longrightarrow> CursorX t = CursorX tty"
  by (induction i n tty rule: tty_blank.induct)
    (auto simp: tty_store_def Option.bind_eq_Some_conv split: if_splits)

lemma ScrollUp_cursor: "TTYScrollUp tty = Some t \<Longrightarrow> CursorX t = CursorX tty"
  by (auto simp: TTYScrollUp_def tty_memmove_def Let_def Option.bind_eq_Some_conv dest!: tty_blank_cursor
      split: if_splits)

lemma Newline_cursor: "TTYNewline tty = Some t \<Longrightarrow> CursorX t = CursorX tty"
  by (auto simp: TTYNewline_def Let_def dest!: ScrollUp_cursor split: if_splits)

lemma print_good:
  assumes "tty_inv tty" and "CursorX tty < Width tty" and "x \<le> Width tty \<or> CursorX tty + 1 \<le> Width tty"
    and "y < Height tty"
  shows "tty_good tty (do {
          t \<leftarrow> tty_store (unat (CursorY tty * Width tty + CursorX tty)) v tty;
          let t = t\<lparr>CursorX := CursorX t + 1\<rparr>;
          Some (TTYMakeDirty x y (CursorX t) (CursorY t) t, []) })"
proof -
  note i = tty_invD [OF assms(1)]
  have "unat (CursorX tty) < unat (Width tty)" using assms(2) by (simp add: word_less_nat_alt)
  then have n: "unat (CursorY tty * Width tty + CursorX tty) < length (TextBuffer tty)"
    using cell_index [OF i(1) i(5) less_imp_le [OF assms(2)]] row_bound [OF i(1) i(5)] by simp
  have x: "CursorX tty + 1 \<le> Width tty"
    using assms(2) succ_bound [OF assms(1)] by (simp add: word_less_nat_alt word_le_nat_alt)
  show ?thesis
    using n assms x i
    by (simp add: tty_store_def Let_def) (intro MakeDirty_inv; simp add: inv_buffer inv_cursor_x)
qed

lemma PutCharacter_good:
  assumes "tty_inv tty"
  shows "tty_good tty (TTYPutCharacter c tty)"
proof -
  note i = tty_invD [OF assms]
  have nl: "tty_good tty (TTYNewline tty \<bind> (\<lambda>t. Some (t, [])))"
    using good_bind [OF Newline_fine [OF assms]] .
  have bs: "tty_good tty (Some (TTYBackspace tty, []))" using Backspace_fine [OF assms] by simp
  have pr: "tty_good tty (do {
          t \<leftarrow> (if Width tty \<le> CursorX tty then TTYNewline (tty\<lparr>CursorX := 0\<rparr>) else Some tty);
          t \<leftarrow> tty_store (unat (CursorY t * Width t + CursorX t))
                  (ucast (push_bit 8 (CurrentAttributes t) OR scast c)) t;
          let t = t\<lparr>CursorX := CursorX t + 1\<rparr>;
          Some (TTYMakeDirty (CursorX tty) (CursorY tty) (CursorX t) (CursorY t) t, []) })"
  proof (cases "Width tty \<le> CursorX tty")
    case True
    have z: "tty_inv (tty\<lparr>CursorX := 0\<rparr>)" using assms by (simp add: inv_cursor_x)
    have cx: "CursorX t = 0" if "TTYNewline (tty\<lparr>CursorX := 0\<rparr>) = Some t" for t
      using Newline_cursor [OF that] by simp
    obtain t where t: "TTYNewline (tty\<lparr>CursorX := 0\<rparr>) = Some t" "tty_inv t" "Width t = Width tty"
      "Height t = Height tty"
      using Newline_fine [OF z] by (auto simp: tty_fine_def)
    show ?thesis
      using True t cx [OF t(1)] i print_good [OF t(2), of "CursorX tty" "CursorY tty"]
        good_dims [OF t(3,4)] by simp
  next
    case False
    then show ?thesis using print_good [OF assms, of "CursorX tty" "CursorY tty"] i by (simp add: not_le)
  qed
  show ?thesis
    using assms i nl bs pr less_imp_le [OF pred_less [OF i(2)]] ParseEscape_good [OF assms]
    unfolding TTYPutCharacter_def Let_def
    by (intro good_if; simp add: inv_escape MakeDirty_inv inv_cursor_x)
qed

lemma run_good:
  assumes "tty_inv tty"
  shows "tty_good tty (tty_run cs tty)"
  using assms
proof (induction cs arbitrary: tty)
  case (Cons c cs)
  obtain t out where t: "TTYPutCharacter c tty = Some (t, out)" "tty_inv t" "Width t = Width tty" "Height t = Height tty"
    using PutCharacter_good [OF Cons.prems, of c] by (auto simp: tty_good_def)
  then show ?case using Cons.IH [OF t(2)] by (auto simp: tty_good_def)
qed simp

lemma Create_inv:
  assumes "0 < w" "0 < h" "unat w * unat h < 2 ^ 15"
  shows "tty_inv (TTYCreate w h)"
  using assms pred_less [OF assms(1)] pred_less [OF assms(2)]
  by (simp add: tty_inv_def TTYCreate_def tty_size_ok_def tty_dirty_ok_def tty_window_ok_def unat_mult_small)

text \<open>A cell of the rectangle that is drawn lies on the screen.\<close>

lemma drawn_cell:
  assumes "tty_inv tty" "y < nat (sint (DirtyY2 tty - DirtyY1 tty + 1))" "x < nat (sint (DirtyX2 tty - DirtyX1 tty + 1))"
  shows "unat (DirtyX1 tty) + x < unat (Width tty)" "unat (DirtyY1 tty) + y < unat (Height tty)"
    "unat (DirtyY1 tty * Width tty + DirtyX1 tty) + y * unat (Width tty) + x =
      (unat (DirtyY1 tty) + y) * unat (Width tty) + (unat (DirtyX1 tty) + x)"
    "(unat (DirtyY1 tty) + y) * unat (Width tty) + (unat (DirtyX1 tty) + x) < length (TextBuffer tty)"
proof -
  note i = tty_invD [OF assms(1)]
  have d: "DirtyX1 tty \<le> Width tty" "DirtyX2 tty < Width tty" "DirtyY1 tty < Height tty" "DirtyY2 tty < Height tty"
    using assms(1) by (simp_all add: tty_inv_def tty_dirty_ok_def)
  have b: "unat (Width tty) < 2 ^ 15" "unat (Height tty) < 2 ^ 15" using size_bounds [OF i(1)] by simp_all
  have un: "nat (sint (q - p + 1)) \<le> Suc (unat q) - unat p" if "unat p \<le> 2 ^ 15" "unat q < 2 ^ 15" for p q :: u32
  proof -
    define k where "k = int (unat q) - int (unat p) + 1"
    have k: "- (2 ^ 31) \<le> k" "k < 2 ^ 31" using that by (simp_all add: k_def del: of_nat_unat)
    have "q - p + 1 = word_of_int k" by (simp add: k_def)
    moreover have "sint (word_of_int k :: u32) = k"
      using k by (simp add: signed_of_int signed_take_bit_int_eq_self)
    ultimately have "sint (q - p + 1) = int (unat q) - int (unat p) + 1"
      unfolding k_def by (simp only:)
    then show ?thesis by linarith
  qed
  show X: "unat (DirtyX1 tty) + x < unat (Width tty)"
    using assms(3) un [of "DirtyX1 tty" "DirtyX2 tty"] d(1,2) b by (simp add: word_le_nat_alt word_less_nat_alt)
  show Y: "unat (DirtyY1 tty) + y < unat (Height tty)"
    using assms(2) un [of "DirtyY1 tty" "DirtyY2 tty"] d(3,4) b by (simp add: word_less_nat_alt)
  show "unat (DirtyY1 tty * Width tty + DirtyX1 tty) + y * unat (Width tty) + x =
      (unat (DirtyY1 tty) + y) * unat (Width tty) + (unat (DirtyX1 tty) + x)"
    using cell_index [OF i(1) d(3) d(1)] by (simp add: algebra_simps)
  have "(unat (DirtyY1 tty) + y) * unat (Width tty) + (unat (DirtyX1 tty) + x) < (unat (DirtyY1 tty) + y + 1) * unat (Width tty)"
    using X by simp
  also have "\<dots> \<le> unat (Height tty) * unat (Width tty)" using Y by (intro mult_le_mono1) simp
  finally show "(unat (DirtyY1 tty) + y) * unat (Width tty) + (unat (DirtyX1 tty) + x) < length (TextBuffer tty)"
    using fine_length [OF assms(1)] by (simp add: mult.commute)
qed

lemma draw_reads_inside:
  assumes "tty_inv tty" and "k \<in> set (TTYDrawReads tty)"
  shows "k < length (TextBuffer tty)"
proof -
  let ?a = "unat (DirtyY1 tty * Width tty + DirtyX1 tty)"
  obtain y where "y < nat (sint (DirtyY2 tty - DirtyY1 tty + 1))" "?a + y * unat (Width tty) \<le> k"
    "k < nat (sint (DirtyX2 tty - DirtyX1 tty + 1)) + (?a + y * unat (Width tty))"
    using assms(2) by (auto simp: TTYDrawReads_def Let_def split: if_splits)
  then show ?thesis using drawn_cell(3,4) [OF assms(1), of y "k - (?a + y * unat (Width tty))"] by simp
qed

section \<open>Memory safety\<close>

text \<open>
  Claim C26. No character sequence makes the terminal access memory out of bounds: from
  creation (any positive size below 32768 cells; the program uses 80x24 and 132x24), whatever
  is printed, every store, scroll and clear stays inside the text buffer, the parameter index
  inside its array and the reply inside its 16 bytes, the cursor and the scroll window stay on the
  screen, and every cell the next redraw reads exists.
\<close>

theorem tty_memory_safe:
  assumes "0 < w" "0 < h" "unat w * unat h < 2 ^ 15"
  shows "\<exists>tty out. tty_run cs (TTYCreate w h) = Some (tty, out) \<and>
    length (TextBuffer tty) = unat w * unat h \<and>
    CursorX tty \<le> w \<and> CursorY tty < h \<and>
    ScrollWindowTop tty \<le> ScrollWindowBottom tty \<and> ScrollWindowBottom tty < h \<and>
    (\<forall>k \<in> set (TTYDrawReads tty). k < unat w * unat h)"
proof -
  have wh: "Width (TTYCreate w h) = w" "Height (TTYCreate w h) = h" by (simp_all add: TTYCreate_def)
  obtain tty out where r: "tty_run cs (TTYCreate w h) = Some (tty, out)" "tty_inv tty"
    "Width tty = w" "Height tty = h"
    using run_good [OF Create_inv [OF assms], of cs] wh by (auto simp: tty_good_def)
  then show ?thesis
    using tty_invD [OF r(2)] fine_length [OF r(2)] draw_reads_inside [OF r(2)] by auto
qed

lemma tty_memory_safe_witness:
  "\<exists>tty out. tty_run [10, 0x1B, 91, 57, 57, 59, 57, 57, 72, 65] (TTYCreate 80 24) = Some (tty, out) \<and>
     CursorX tty \<le> 80 \<and> CursorY tty < 24"
  using tty_memory_safe [of 80 24 "[10, 0x1B, 91, 57, 57, 59, 57, 57, 72, 65]"] by auto

section \<open>Cursor query and positioning\<close>

lemma digit_step:
  assumes "IsEscape tty \<noteq> 0" and "EscapeIndex tty < TTYPARAMCOUNT" and "d < 10"
  shows "TTYPutCharacter (chr_0 + of_nat d) tty = Some (tty\<lparr>EscapeParams := (EscapeParams tty)
      (EscapeIndex tty := EscapeParams tty (EscapeIndex tty) * 10 + of_nat d)\<rparr>, [])"
proof -
  have d: "d \<in> {0,1,2,3,4,5,6,7,8,9}" using assms(3) by auto
  show ?thesis
    using d assms(1,2)
    by (elim insertE emptyE) (simp_all add: TTYPutCharacter_def TTYParseEscape_def)
qed

lemma run_append:
  "tty_run (cs @ ds) tty = do { (t, out) \<leftarrow> tty_run cs tty; (t, out') \<leftarrow> tty_run ds t; Some (t, out @ out') }"
  by (induction cs arbitrary: tty) (auto simp: bind_assoc case_prod_unfold)

text \<open>The parser reads a decimal number back.\<close>

lemma run_decimal:
  assumes "IsEscape tty \<noteq> 0" and "EscapeIndex tty < TTYPARAMCOUNT" and "EscapeParams tty (EscapeIndex tty) = 0"
  shows "tty_run (decimal n) tty =
    Some (tty\<lparr>EscapeParams := (EscapeParams tty)(EscapeIndex tty := of_nat n)\<rparr>, [])"
proof (induction n rule: decimal.induct)
  case (1 n)
  show ?case
  proof (cases "n < 10")
    case True
    then show ?thesis using assms digit_step [OF assms(1,2) True] by (subst decimal.simps) simp
  next
    case False
    let ?t = "tty\<lparr>EscapeParams := (EscapeParams tty)(EscapeIndex tty := of_nat (n div 10))\<rparr>"
    have e: "of_nat (n div 10) * 10 + of_nat (n mod 10) = (of_nat n :: u32)"
      by (metis div_mult_mod_eq of_nat_add of_nat_mult of_nat_numeral)
    have "TTYPutCharacter (chr_0 + of_nat (n mod 10)) ?t =
        Some (tty\<lparr>EscapeParams := (EscapeParams tty)(EscapeIndex tty := of_nat n)\<rparr>, [])"
      using digit_step [of ?t "n mod 10"] assms e by simp
    then show ?thesis using 1 [OF False] False by (subst decimal.simps) (simp add: run_append del: fun_upd_apply)
  qed
qed

text \<open>The reply turned into a positioning sequence: the final \<open>R\<close> becomes \<open>H\<close>.\<close>

definition position_of_reply :: "u8 list \<Rightarrow> u8 list" where
  "position_of_reply reply = butlast reply @ [chr_H]"

lemma run_position:
  assumes "tty_inv tty" "IsEscape tty = 0" "row < 2 ^ 15" "col < 2 ^ 15"
  shows "tty_run (chr_esc # chr_lbracket # decimal row @ chr_semicolon # decimal col @ [chr_H]) tty =
    Some (TTYMoveCursor (of_nat col - 1) (of_nat row - 1) (tty\<lparr>EscapeIndex := 1,
      EscapeParams := (\<lambda>i. if i < 4 then 0 else EscapeParams tty i)(0 := of_nat row, 1 := of_nat col)\<rparr>), [])"
proof -
  let ?z = "\<lambda>i. if i < 4 then 0 else EscapeParams tty i"
  let ?t0 = "tty\<lparr>IsEscape := 1, EscapeIndex := 0, EscapeParams := ?z\<rparr>"
  let ?t1 = "?t0\<lparr>EscapeParams := ?z(0 := of_nat row)\<rparr>"
  let ?t2 = "?t1\<lparr>EscapeIndex := 1\<rparr>"
  let ?t3 = "?t2\<lparr>EscapeParams := ?z(0 := of_nat row, 1 := of_nat col)\<rparr>"
  have 0: "TTYPutCharacter chr_esc tty = Some (?t0, [])" "TTYPutCharacter chr_lbracket ?t0 = Some (?t0, [])"
    using assms(2) by (simp_all add: TTYPutCharacter_def TTYParseEscape_def Let_def)
  have 1: "tty_run (decimal row) ?t0 = Some (?t1, [])" using run_decimal [of ?t0 row] by simp
  have 2: "TTYPutCharacter chr_semicolon ?t1 = Some (?t2, [])"
    by (simp add: TTYPutCharacter_def TTYParseEscape_def Let_def)
  have 3: "tty_run (decimal col) ?t2 = Some (?t3, [])" using run_decimal [of ?t2 col] by simp
  have 4: "TTYPutCharacter chr_H ?t3 = Some (TTYMoveCursor (of_nat col - 1) (of_nat row - 1) (?t3\<lparr>IsEscape := 0\<rparr>), [])"
    by (simp add: TTYPutCharacter_def TTYParseEscape_def Let_def)
  have e: "?t3\<lparr>IsEscape := 0\<rparr> = tty\<lparr>EscapeIndex := 1, EscapeParams := ?z(0 := of_nat row, 1 := of_nat col)\<rparr>"
    using assms(2) by simp
  show ?thesis
    using 0 1 2 3 4 unfolding e by (simp add: run_append)
qed


lemma sample_80_24: "tty_inv (TTYCreate 80 24)" "tty_inv (TTYCreate 132 24)"
  by (rule Create_inv; simp)+


section \<open>Scrolling\<close>

definition text_row :: "TTY \<Rightarrow> nat \<Rightarrow> u16 list" where
  "text_row tty r = take (unat (Width tty)) (drop (r * unat (Width tty)) (TextBuffer tty))"

lemma nth_text_row:
  assumes "tty_inv tty" "r < unat (Height tty)" "c < unat (Width tty)"
  shows "text_row tty r ! c = TextBuffer tty ! (r * unat (Width tty) + c)"
    "length (text_row tty r) = unat (Width tty)"
proof -
  have "(r + 1) * unat (Width tty) \<le> unat (Height tty) * unat (Width tty)"
    using assms(2) by (intro mult_le_mono1) simp
  then have "r * unat (Width tty) + unat (Width tty) \<le> length (TextBuffer tty)"
    by (simp add: fine_length [OF assms(1)] mult.commute)
  then show "text_row tty r ! c = TextBuffer tty ! (r * unat (Width tty) + c)"
    "length (text_row tty r) = unat (Width tty)"
    using assms(3) by (simp_all add: text_row_def)
qed

lemma nth_scrolled_up:
  assumes "t \<le> b" "b * w + w \<le> length B" "c < w" "r * w + w \<le> length B"
  shows "scrolled_up w t b B ! (r * w + c) =
    (if t \<le> r \<and> r < b then B ! ((r + 1) * w + c) else if r = b then blank_cell else B ! (r * w + c))"
proof -
  define n where "n = (b - t) * w"
  have bw: "b * w = t * w + n" using assms(1) by (simp add: n_def diff_mult_distrib)
  let ?i = "r * w + c"
  have *: "m * w \<le> ?i \<longleftrightarrow> m \<le> r" "?i < m * w \<longleftrightarrow> r < m" for m
  proof -
    have "m * w \<le> ?i" if "m \<le> r" using mult_le_mono1 [OF that, of w] by linarith
    moreover have "?i < m * w" if "r < m"
    proof -
      have "(r + 1) * w \<le> m * w" using that by (intro mult_le_mono1) simp
      then show ?thesis using assms(3) by simp
    qed
    ultimately show "m * w \<le> ?i \<longleftrightarrow> m \<le> r" "?i < m * w \<longleftrightarrow> r < m" by (meson linorder_not_less)+
  qed
  have l: "length (take (t * w) B) = t * w" "length (take n (drop (t * w + w) B)) = n"
    using assms(2) bw by simp_all
  consider "r < t" | "t \<le> r" "r < b" | "r = b" | "b < r" by linarith
  then show ?thesis
  proof cases
    case 1
    then have "?i < t * w" using *(2) [of t] by simp
    then show ?thesis using 1 assms(1) l by (simp add: scrolled_up_def nth_append)
  next
    case 2
    then have "t * w \<le> ?i" "?i < t * w + n" using *(1) [of t] *(2) [of b] bw by simp_all
    then show ?thesis
      using 2 l assms(2) bw
      by (simp add: scrolled_up_def nth_append n_def [symmetric] less_diff_conv2 algebra_simps)
  next
    case 3
    then have "t * w + n \<le> ?i" "?i < t * w + n + w" using bw assms(3) by simp_all
    then show ?thesis using 3 l assms(3) bw by (simp add: scrolled_up_def nth_append n_def [symmetric])
  next
    case 4
    then have "t * w + n + w \<le> ?i" using *(1) [of "b + 1"] bw by simp
    then obtain d where d: "?i = t * w + n + w + d" using le_Suc_ex by blast
    show ?thesis
      unfolding d using 4 l assms(1,2) bw d
      by (auto simp: scrolled_up_def nth_append n_def [symmetric])
  qed
qed

text \<open>
  Scrolling up moves every row of the scroll window below its first row up by one,
  blanks the last row of the window, and changes no row outside the window nor the cursor.
\<close>

theorem tty_scroll_up_rows:
  assumes "tty_inv tty"
  shows "\<exists>t. TTYScrollUp tty = Some t \<and> CursorX t = CursorX tty \<and> CursorY t = CursorY tty \<and>
    (\<forall>r < unat (Height tty). text_row t r =
      (if unat (ScrollWindowTop tty) \<le> r \<and> r < unat (ScrollWindowBottom tty) then text_row tty (r + 1)
       else if r = unat (ScrollWindowBottom tty) then replicate (unat (Width tty)) blank_cell
       else text_row tty r))"
proof -
  note a = scroll_arith [OF assms] and i = tty_invD [OF assms]
  let ?w = "unat (Width tty)" let ?t = "unat (ScrollWindowTop tty)" let ?b = "unat (ScrollWindowBottom tty)"
  let ?T = "window_dirty (tty\<lparr>TextBuffer := scrolled_up ?w ?t ?b (TextBuffer tty)\<rparr>)"
  have T: "TTYScrollUp tty = Some ?T" by (rule ScrollUp_eq [OF assms])
  have bl: "?b * ?w + ?w \<le> length (TextBuffer tty)" using a(5,6) by simp
  have bh: "?b < unat (Height tty)" using i(7) by (simp add: word_less_nat_alt)
  have inv: "tty_inv ?T" using Scroll_fine(1) [OF assms] T by simp
  have d: "Width ?T = Width tty" "Height ?T = Height tty" "CursorX ?T = CursorX tty" "CursorY ?T = CursorY tty"
    "TextBuffer ?T = scrolled_up ?w ?t ?b (TextBuffer tty)"
    by (simp_all add: window_dirty_def)
  have "text_row ?T r = (if ?t \<le> r \<and> r < ?b then text_row tty (r + 1)
       else if r = ?b then replicate ?w blank_cell else text_row tty r)" if r: "r < unat (Height tty)" for r
  proof (rule nth_equalityI)
    have L: "length (text_row tty m) = ?w" if "m < unat (Height tty)" for m
      using nth_text_row(2) [OF assms that, of 0] size_bounds [OF i(1)] by simp
    show "length (text_row ?T r) = length (if ?t \<le> r \<and> r < ?b then text_row tty (r + 1)
       else if r = ?b then replicate ?w blank_cell else text_row tty r)"
      using nth_text_row(2) [OF inv, of r 0] d r size_bounds [OF i(1)] L bh by simp
    fix c assume "c < length (text_row ?T r)"
    then have c: "c < ?w" using nth_text_row(2) [OF inv, of r 0] d r size_bounds [OF i(1)] by simp
    have "(r + 1) * ?w \<le> unat (Height tty) * ?w" using r by (intro mult_le_mono1) simp
    then have rl: "r * ?w + ?w \<le> length (TextBuffer tty)" by (simp add: fine_length [OF assms] mult.commute)
    show "text_row ?T r ! c = (if ?t \<le> r \<and> r < ?b then text_row tty (r + 1)
       else if r = ?b then replicate ?w blank_cell else text_row tty r) ! c"
      using nth_text_row(1) [OF inv, of r c] nth_text_row(1) [OF assms, of r c]
        nth_text_row(1) [OF assms, of "r + 1" c] nth_scrolled_up [OF a(4) bl c rl] d r c bh
      by simp
  qed
  then show ?thesis using T d by blast
qed

lemma tty_scroll_up_rows_witness:
  "\<exists>t. TTYScrollUp (TTYCreate 80 24) = Some t \<and> text_row t 23 = replicate 80 blank_cell"
proof -
  have f: "Width (TTYCreate 80 24) = 80" "Height (TTYCreate 80 24) = 24"
    "ScrollWindowTop (TTYCreate 80 24) = 0" "ScrollWindowBottom (TTYCreate 80 24) = 23"
    by (simp_all add: TTYCreate_def)
  show ?thesis using tty_scroll_up_rows [OF sample_80_24(1)] by (auto simp: f dest!: spec [of _ 23])
qed

section \<open>Attributes\<close>

text \<open>The meaning of a colour parameter on a pair (background, foreground) of palette indices.\<close>

definition sgr_reference :: "nat \<Rightarrow> nat \<times> nat \<Rightarrow> nat \<times> nat" where
  "sgr_reference p = (\<lambda>(bg, fg).
    if p = 0 then (0, 15) else if p = 7 then (fg, bg)
    else if p = 39 then (bg, 15) else if p = 49 then (0, fg)
    else if 30 \<le> p \<and> p \<le> 37 then (bg, p - 30) else if 40 \<le> p \<and> p \<le> 47 then (p - 40, fg)
    else if 90 \<le> p \<and> p \<le> 97 then (bg, p - 90 + 8) else if 100 \<le> p \<and> p \<le> 107 then (p - 100 + 8, fg)
    else (bg, fg))"

text \<open>The attribute byte that a printed cell receives.\<close>

definition attr_pair :: "u32 \<Rightarrow> nat \<times> nat" where
  "attr_pair a = (unat (drop_bit 4 a AND 15), unat (a AND 15))"

lemma nibble_bits: "bit (0xF0 :: u32) n \<longleftrightarrow> 4 \<le> n \<and> n < 8" "bit (15 :: u32) n \<longleftrightarrow> n < 4"
proof -
  have e: "(15 :: u32) = mask 4" "(0xF0 :: u32) = push_bit 4 (mask 4)" by (simp_all add: mask_eq_exp_minus_1)
  show "bit (0xF0 :: u32) n \<longleftrightarrow> 4 \<le> n \<and> n < 8" "bit (15 :: u32) n \<longleftrightarrow> n < 4"
    unfolding e by (auto simp only: bit_push_bit_iff bit_mask_iff possible_bit_word) simp_all
qed

lemma small_bits:
  assumes "unat (v :: u32) < 2 ^ k" and "bit v n"
  shows "n < k"
proof -
  have "v = take_bit k v"
    using assms(1) by (simp add: word_unat_eq_iff unsigned_take_bit_eq take_bit_nat_eq_self)
  then show ?thesis using assms(2) by (metis bit_take_bit_iff)
qed

lemma attr_set_fg: "unat v < 16 \<Longrightarrow> attr_pair ((a AND 0xF0) OR v) = (fst (attr_pair a), unat v)"
proof -
  assume v: "unat v < 16"
  have "drop_bit 4 ((a AND 0xF0) OR v) AND 15 = drop_bit 4 a AND 15" "((a AND 0xF0) OR v) AND 15 = v"
    by (rule bit_word_eqI; use small_bits [of v 4] v in \<open>fastforce simp: bit_simps nibble_bits simp del: bit_numeral_word_iff\<close>)+
  then show ?thesis by (simp add: attr_pair_def)
qed

lemma attr_set_bg: "unat v < 16 \<Longrightarrow> attr_pair ((a AND 15) OR push_bit 4 v) = (unat v, snd (attr_pair a))"
proof -
  assume v: "unat v < 16"
  have "drop_bit 4 ((a AND 15) OR push_bit 4 v) AND 15 = v" "((a AND 15) OR push_bit 4 v) AND 15 = a AND 15"
    by (rule bit_word_eqI; use small_bits [of v 4] v in \<open>fastforce simp: bit_simps nibble_bits simp del: bit_numeral_word_iff\<close>)+
  then show ?thesis by (simp add: attr_pair_def)
qed

lemma attr_invert:
  assumes "unat a < 256"
  shows "attr_pair (signed_drop_bit 4 a OR push_bit 4 a) = (snd (attr_pair a), fst (attr_pair a))"
proof -
  have b: "bit a n \<Longrightarrow> n < 8" for n using small_bits [of a 8 n] assms by simp
  have "drop_bit 4 (signed_drop_bit 4 a OR push_bit 4 a) AND 15 = a AND 15"
    "(signed_drop_bit 4 a OR push_bit 4 a) AND 15 = drop_bit 4 a AND 15"
    by (rule bit_word_eqI; use b in \<open>fastforce simp: bit_simps nibble_bits bit_signed_drop_bit_iff simp del: bit_numeral_word_iff\<close>)+
  then show ?thesis by (simp add: attr_pair_def)
qed

text \<open>
  The colour sequences mean what their table says: for every parameter, from an
  attribute byte the parameter sets or swaps background and foreground as specified (an unknown
  one changes nothing), and a printed cell carries exactly that pair.
\<close>

theorem tty_colour_reference:
  assumes "unat (CurrentAttributes tty) < 256"
  shows "attr_pair (CurrentAttributes (TTYEscSetColor tty)) =
      sgr_reference (unat (EscapeParams tty 0)) (attr_pair (CurrentAttributes tty)) \<and>
    TTYEscSetColor tty = tty\<lparr>CurrentAttributes := CurrentAttributes (TTYEscSetColor tty)\<rparr>"
proof (cases "unat (EscapeParams tty 0) < 128")
  case True
  define p where "p = unat (EscapeParams tty 0)"
  have P: "EscapeParams tty 0 = of_nat p" by (simp add: p_def)
  have p: "p < 128" using True by (simp add: p_def)
  have s: "sint (of_nat p :: u32) = int p" using p by (subst sint_small) (simp_all add: unat_of_nat)
  have up: "unat (of_nat p :: u32) = p" using p by (simp add: unat_of_nat)
  have sub: "unat (of_nat p - of_nat k :: u32) = p - k" if "k \<le> p" for k
  proof -
    have "(of_nat k :: u32) \<le> of_nat p" using that p by (simp add: word_le_nat_alt unat_of_nat)
    then show ?thesis using that p by (simp add: unat_sub unat_of_nat)
  qed
  have subs: "30 \<le> p \<Longrightarrow> unat (of_nat p - 30 :: u32) = p - 30" "40 \<le> p \<Longrightarrow> unat (of_nat p - 40 :: u32) = p - 40"
    "90 \<le> p \<Longrightarrow> unat (of_nat p - 82 :: u32) = p - 82" "100 \<le> p \<Longrightarrow> unat (of_nat p - 92 :: u32) = p - 92"
    using sub [of 30] sub [of 40] sub [of 82] sub [of 92] by simp_all
  have ranges:
    "30 \<le> p \<Longrightarrow> p \<le> 37 \<Longrightarrow> attr_pair ((a AND 0xF0) OR (of_nat p - 30)) = (fst (attr_pair a), p - 30)"
    "90 \<le> p \<Longrightarrow> p \<le> 97 \<Longrightarrow> attr_pair ((a AND 0xF0) OR (of_nat p - 82)) = (fst (attr_pair a), p - 82)"
    "40 \<le> p \<Longrightarrow> p \<le> 47 \<Longrightarrow> attr_pair ((a AND 15) OR push_bit 4 (of_nat p - 40)) = (p - 40, snd (attr_pair a))"
    "100 \<le> p \<Longrightarrow> p \<le> 107 \<Longrightarrow> attr_pair ((a AND 15) OR push_bit 4 (of_nat p - 92)) = (p - 92, snd (attr_pair a))"
    for a
    using subs attr_set_fg [of "of_nat p - 30" a] attr_set_fg [of "of_nat p - 82" a]
      attr_set_bg [of "of_nat p - 40" a] attr_set_bg [of "of_nat p - 92" a]
    by simp_all
  have c: "attr_pair 15 = (0, 15)" "TTYDEFAULTATTR AND 0xF = 15" "TTYDEFAULTATTR AND 0xF0 = push_bit 4 0"
    by (simp_all add: attr_pair_def)
  show ?thesis
    using p up attr_set_bg [of 0 "CurrentAttributes tty"] attr_set_fg [of 15 "CurrentAttributes tty"] attr_invert [OF assms] c
    by (simp add: ranges TTYEscSetColor_def sgr_reference_def Let_def P s case_prod_unfold)
next
  case False
  have "sint (EscapeParams tty 0) < 0 \<or> sint (EscapeParams tty 0) \<ge> 128"
  proof (cases "unat (EscapeParams tty 0) < 2 ^ 31")
    case True
    then have "sint (EscapeParams tty 0) = int (unat (EscapeParams tty 0))" by (rule sint_small)
    then show ?thesis using False by linarith
  next
    case False
    have "bit (EscapeParams tty 0) 31"
    proof (rule ccontr)
      assume n: "\<not> bit (EscapeParams tty 0) 31"
      have "EscapeParams tty 0 = take_bit 31 (EscapeParams tty 0)"
        by (rule bit_word_eqI) (use n in \<open>auto simp: bit_take_bit_iff less_Suc_eq numeral_eq_Suc\<close>)
      then have "unat (EscapeParams tty 0) < 2 ^ 31" by (metis unsigned_take_bit_eq take_bit_nat_less_exp)
      then show False using False by simp
    qed
    then have "sint (EscapeParams tty 0) < 0" by (simp add: sint_uint bit_uint_iff)
    then show ?thesis ..
  qed
  then show ?thesis
    using False by (auto simp: TTYEscSetColor_def sgr_reference_def Let_def case_prod_unfold)
qed

lemma tty_colour_reference_witness:
  "attr_pair (CurrentAttributes (TTYEscSetColor ((TTYCreate 80 24)\<lparr>EscapeParams := (\<lambda>_. 31)\<rparr>))) = (0, 1)"
  using tty_colour_reference [of "(TTYCreate 80 24)\<lparr>EscapeParams := (\<lambda>_. 31)\<rparr>"]
  by (simp add: TTYCreate_def sgr_reference_def attr_pair_def)

text \<open>\<open>ESC [ 7 m\<close>\<close>

definition invert_sequence :: "u8 list" where
  "invert_sequence = [chr_esc, chr_lbracket, chr_0 + 7, chr_m]"

definition invert_attr :: "u32 \<Rightarrow> u32" where
  "invert_attr a = signed_drop_bit 4 a OR push_bit 4 a"

lemma run_invert:
  assumes "IsEscape tty = 0"
  shows "\<exists>t. tty_run invert_sequence tty = Some (t, []) \<and> IsEscape t = 0 \<and>
    CurrentAttributes t = invert_attr (CurrentAttributes tty)"
  using assms
  by (simp add: invert_sequence_def invert_attr_def TTYPutCharacter_def TTYParseEscape_def Let_def TTYEscSetColor_def)

lemma run_inverts:
  assumes "IsEscape tty = 0"
  shows "\<exists>t. tty_run (concat (replicate n invert_sequence)) tty = Some (t, []) \<and> IsEscape t = 0 \<and>
    CurrentAttributes t = (invert_attr ^^ n) (CurrentAttributes tty)"
  using assms
proof (induction n arbitrary: tty)
  case (Suc n)
  obtain t where t: "tty_run invert_sequence tty = Some (t, [])" "IsEscape t = 0"
    "CurrentAttributes t = invert_attr (CurrentAttributes tty)"
    using run_invert [OF Suc.prems] by blast
  then show ?case using Suc.IH [OF t(2)] by (auto simp: run_append funpow_Suc_right simp del: funpow.simps)
qed simp

text \<open>
  Inverting keeps stale bits above the attribute byte and shifts them back in: after
  fourteen \<open>ESC [ 7 m\<close> in a row on a fresh terminal every attribute bit is set, so text is
  printed white on white, although an even number of inversions should change nothing.
\<close>

theorem tty_invert_drifts:
  "\<exists>t. tty_run (concat (replicate 14 invert_sequence)) (TTYCreate 80 24) = Some (t, []) \<and>
     attr_pair (CurrentAttributes t) = (15, 15) \<and> attr_pair (CurrentAttributes (TTYCreate 80 24)) = (0, 15)"
proof -
  have e: "invert_attr 0xF = 0xF0" "invert_attr 0xF0 = 0xF0F" "invert_attr 0xF0F = 0xF0F0"
    "invert_attr 0xF0F0 = 0xF0F0F" "invert_attr 0xF0F0F = 0xF0F0F0" "invert_attr 0xF0F0F0 = 0xF0F0F0F"
    "invert_attr 0xF0F0F0F = 0xF0F0F0F0" "invert_attr 0xF0F0F0F0 = 0xFF0F0F0F"
    "invert_attr 0xFF0F0F0F = 0xFFF0F0F0" "invert_attr 0xFFF0F0F0 = 0xFFFF0F0F"
    "invert_attr 0xFFFF0F0F = 0xFFFFF0F0" "invert_attr 0xFFFFF0F0 = 0xFFFFFF0F"
    "invert_attr 0xFFFFFF0F = 0xFFFFFFF0" "invert_attr 0xFFFFFFF0 = 0xFFFFFFFF"
    by (simp_all add: invert_attr_def)
  have "(invert_attr ^^ 14) 0xF = 0xFFFFFFFF"
    by (simp add: numeral_eq_Suc e)
  then show ?thesis
    using run_inverts [of "TTYCreate 80 24" 14] by (auto simp: TTYCreate_def attr_pair_def)
qed

end
