(* ===== verification/Machine.thy ===== *)
theory Machine
  imports Exceptions Lsic Ram256 Scheduler Tty
begin

text \<open>
  The state of the whole emulated machine: the processors, the shared second-level cache, the
  interrupt controllers, the RAM boards, the devices of the platform board, the framebuffer and the
  scheduler. The C program keeps them in global variables; here they are the fields of one
  record, so that a bus access, which may reach any of them, is a function on this record.
\<close>

section \<open>Devices\<close>

record RtcState =
  tv_sec :: int
  tv_usec :: int
  RTCIntervalMS :: u32
  RTCPortA :: u32

text \<open>The function pointers of an Amtsu device.\<close>

datatype AmtsuActionF = NoAction | AmtsuControllerAction | KeyboardAction | MouseAction
datatype AmtsuResetF = NoReset | KeyboardReset | MouseReset

record AmtsuDevice =
  AmtsuPresent :: bool
  InterruptNumber :: u32
  MID :: u32
  PortAValue :: u32
  PortBValue :: u32
  Action :: AmtsuActionF
  DevReset :: AmtsuResetF

record AmtsuState =
  AmtsuDevices :: "nat \<Rightarrow> AmtsuDevice"
  CurrentDevice :: u32
  OutstandingPressed :: "nat \<Rightarrow> bool"
  OutstandingReleased :: "nat \<Rightarrow> bool"
  Pressed :: "nat \<Rightarrow> bool"
  MousePressedButton :: u32
  MouseReleasedButton :: u32
  MouseMovedV :: u32
  MouseDX :: u32
  MouseDY :: u32

text \<open>The \<open>int\<close> fields of a serial port; \<open>RXFile\<close> holds what the input file still delivers.\<close>

record SerialPort =
  SerialTty :: TTY
  DoInterrupts :: bool
  TransmitBuffer :: "nat \<Rightarrow> u8"
  TransmitBufferIndex :: int
  SendIndex :: int
  SerialCost :: int
  WriteBusy :: bool
  ReceiveBuffer :: "nat \<Rightarrow> u8"
  ReceiveBufferIndex :: int
  ReceiveIndex :: int
  ReceiveRemaining :: int
  SerialEnqueued :: bool
  RXFile :: "u8 list option"
  TXFile :: "u8 list option"

record DKSDisk =
  DiskImage :: bytes
  DiskPresent :: bool
  Spinning :: bool
  Completing :: bool
  TemporaryBuffer :: bytes
  TransferAddress :: u32
  TransferSector :: u32
  TransferCount :: u32
  IoType :: u32
  SectorCount :: u32
  SectorsPerTrack :: u32
  CylinderCount :: u32
  PlatterLocation :: u32
  HeadLocation :: u32
  OperationInterval :: u32
  SeekTo :: u32
  ConsecutiveZeroSeeks :: u32

record DksState =
  DKSDisks :: "nat \<Rightarrow> DKSDisk"
  DKSSelectedDrive :: "nat option"
  DKSStatus :: u32
  DKSCompleted :: u32
  DKSPortA :: u32
  DKSPortB :: u32
  DKSTransferCount :: u32
  DKSTransferAddress :: u32
  DKSDoInterrupt :: bool
  DKSAsynchronous :: bool

record KinnowState =
  KinnowPresent :: bool
  KinnowFB :: bytes
  FBSize :: u32
  SlotInfo :: bytes
  KinnowRegisters :: "nat \<Rightarrow> u32"
  KinnowPalette :: "nat \<Rightarrow> u32"
  DirtyRectX1 :: u32
  DirtyRectX2 :: u32
  DirtyRectY1 :: u32
  DirtyRectY2 :: u32
  FBIsDirty :: bool

section \<open>The machine\<close>

record Machine =
  XrProcessorTable :: "nat \<Rightarrow> XrProcessor"
  XrProcessorPresent :: "nat \<Rightarrow> bool"
  XrScacheFlags :: "nat \<Rightarrow> nat"
  XrScacheTags :: "nat \<Rightarrow> u32"
  XrScacheExclusiveIds :: "nat \<Rightarrow> nat"
  XrScacheReplacementIndex :: u32
  LsicTab :: LsicTable
  RamBoards :: Ram
  PBoardRegisters :: "nat \<Rightarrow> u32"
  NVRAM :: bytes
  NVRAMDirty :: bool
  BootROM :: bytes
  Rtc :: RtcState
  Amtsu :: AmtsuState
  SerialPorts :: "nat \<Rightarrow> SerialPort"
  SerialAsynchronous :: bool
  Dks :: DksState
  Kinnow :: KinnowState
  Sched :: XrScheduler
  Crashed :: bool

text \<open>
  \<open>Crashed\<close>: a null pointer was followed or an array left. Schedulables are numbered: the
  processors, then the disks, then the serial ports.
\<close>

definition disk_schedulable :: "nat \<Rightarrow> nat" where
  "disk_schedulable d = XR_PROC_MAX + d"

definition serial_schedulable :: "nat \<Rightarrow> nat" where
  "serial_schedulable n = XR_PROC_MAX + 8 + n"

section \<open>Effects of a device on the rest of the machine\<close>

definition machine_interrupt :: "nat \<Rightarrow> Machine \<Rightarrow> Machine" where
  "machine_interrupt n m =
    (case LsicInterrupt (XrProcessorPresent m) n (LsicTab m) of
       Some T \<Rightarrow> m\<lparr>LsicTab := T\<rparr> | None \<Rightarrow> m\<lparr>Crashed := True\<rparr>)"

definition XrDecrementProgress :: "nat \<Rightarrow> bool \<Rightarrow> Machine \<Rightarrow> Machine" where
  "XrDecrementProgress p ints m =
    (let proc = XrProcessorTable m p
     in if \<not> ints \<or> Cr proc 0 AND 2 = 0
        then m\<lparr>XrProcessorTable := (XrProcessorTable m)(p := proc\<lparr>Progress := Progress proc - 1\<rparr>)\<rparr>
        else m)"

definition schedule_for_me :: "nat \<Rightarrow> nat \<Rightarrow> Machine \<Rightarrow> Machine" where
  "schedule_for_me after w m =
    (case XrScheduleWorkForMe after w (Sched m) of
       Some s \<Rightarrow> m\<lparr>Sched := s\<rparr> | None \<Rightarrow> m\<lparr>Crashed := True\<rparr>)"

text \<open>
  A citron port: a write hands over a value, a read returns the value stored for the caller, each
  with the status and the machine afterwards.
\<close>

type_synonym CitronWriteF = "nat \<Rightarrow> u32 \<Rightarrow> nat \<Rightarrow> Machine \<Rightarrow> EBusSuccess \<times> Machine"
type_synonym CitronReadF = "nat \<Rightarrow> nat \<Rightarrow> Machine \<Rightarrow> EBusSuccess \<times> u32 option \<times> Machine"

section \<open>A machine at power-up\<close>

text \<open>
  The static storage of the C program before its initialisation functions run, with two
  processors in the table; used to build concrete machines.
\<close>

definition tty_80 :: TTY where
  "tty_80 = TTYCreate 80 24"

definition serial_zero :: SerialPort where
  "serial_zero = \<lparr>SerialTty = tty_80, DoInterrupts = False, TransmitBuffer = (\<lambda>_. 0), TransmitBufferIndex = 0,
     SendIndex = 0, SerialCost = 0, WriteBusy = False, ReceiveBuffer = (\<lambda>_. 0), ReceiveBufferIndex = 0,
     ReceiveIndex = 0, ReceiveRemaining = 0, SerialEnqueued = False, RXFile = None, TXFile = None\<rparr>"

definition disk_zero :: DKSDisk where
  "disk_zero = \<lparr>DiskImage = (\<lambda>_. 0), DiskPresent = False, Spinning = False, Completing = False,
     TemporaryBuffer = (\<lambda>_. 0), TransferAddress = 0, TransferSector = 0, TransferCount = 0, IoType = 0,
     SectorCount = 0, SectorsPerTrack = 0, CylinderCount = 0, PlatterLocation = 0, HeadLocation = 0,
     OperationInterval = 0, SeekTo = 0, ConsecutiveZeroSeeks = 0\<rparr>"

definition dks_zero :: DksState where
  "dks_zero = \<lparr>DKSDisks = (\<lambda>_. disk_zero), DKSSelectedDrive = None, DKSStatus = 0, DKSCompleted = 0,
     DKSPortA = 0, DKSPortB = 0, DKSTransferCount = 0, DKSTransferAddress = 0, DKSDoInterrupt = False,
     DKSAsynchronous = False\<rparr>"

definition amtsu_device_zero :: AmtsuDevice where
  "amtsu_device_zero = \<lparr>AmtsuPresent = False, InterruptNumber = 0, MID = 0, PortAValue = 0, PortBValue = 0,
     Action = NoAction, DevReset = NoReset\<rparr>"

definition amtsu_zero :: AmtsuState where
  "amtsu_zero = \<lparr>AmtsuDevices = (\<lambda>_. amtsu_device_zero), CurrentDevice = 0, OutstandingPressed = (\<lambda>_. False),
     OutstandingReleased = (\<lambda>_. False), Pressed = (\<lambda>_. False), MousePressedButton = 0,
     MouseReleasedButton = 0, MouseMovedV = 0, MouseDX = 0, MouseDY = 0\<rparr>"

definition kinnow_zero :: KinnowState where
  "kinnow_zero = \<lparr>KinnowPresent = False, KinnowFB = (\<lambda>_. 0), FBSize = 0, SlotInfo = (\<lambda>_. 0),
     KinnowRegisters = (\<lambda>_. 0), KinnowPalette = (\<lambda>_. 0), DirtyRectX1 = - 1, DirtyRectX2 = 0,
     DirtyRectY1 = - 1, DirtyRectY2 = 0, FBIsDirty = False\<rparr>"

definition machine_zero :: Machine where
  "machine_zero = \<lparr>XrProcessorTable = (\<lambda>i. proc_zero\<lparr>ProcId := i\<rparr>), XrProcessorPresent = (\<lambda>i. i < 2),
     XrScacheFlags = (\<lambda>_. 0), XrScacheTags = (\<lambda>_. 0), XrScacheExclusiveIds = (\<lambda>_. 0),
     XrScacheReplacementIndex = 0, LsicTab = (\<lambda>_. LsicZero),
     RamBoards = \<lparr>RAMSlots = (\<lambda>_ _. 0), RAMSlotSizes = (\<lambda>s. if s = 0 then 0x400000 else 0)\<rparr>,
     PBoardRegisters = (\<lambda>_. 0), NVRAM = (\<lambda>_. 0), NVRAMDirty = False, BootROM = (\<lambda>_. 0),
     Rtc = \<lparr>tv_sec = 0, tv_usec = 0, RTCIntervalMS = 0, RTCPortA = 0\<rparr>, Amtsu = amtsu_zero,
     SerialPorts = (\<lambda>_. serial_zero), SerialAsynchronous = False, Dks = dks_zero, Kinnow = kinnow_zero,
     Sched = sched_start, Crashed = False\<rparr>"

end
