(* ===== verification/Rtc.thy ===== *)
theory Rtc
  imports Machine
begin

text \<open>
  The real-time clock, \<^verbatim>\<open>src/src/rtc.c\<close>, with the offset it keeps in the NVRAM
  (\<^verbatim>\<open>src/src/pboard.h\<close>): setting the epoch stores the difference to the host clock, which every
  later read adds again.
\<close>

section \<open>Operations\<close>

abbreviation (input) "NVRAMRTCOFFSET \<equiv> 124 :: nat"

definition NVRAM_GET_RTCOFFSET :: "bytes \<Rightarrow> u32" where
  "NVRAM_GET_RTCOFFSET nv = ucast (nv NVRAMRTCOFFSET) + push_bit 8 (ucast (nv (NVRAMRTCOFFSET + 1)))
     + push_bit 16 (ucast (nv (NVRAMRTCOFFSET + 2))) + push_bit 24 (ucast (nv (NVRAMRTCOFFSET + 3)))"

definition NVRAM_SET_RTCOFFSET :: "int \<Rightarrow> Machine \<Rightarrow> Machine" where
  "NVRAM_SET_RTCOFFSET off m =
    (let nv = NVRAM m;
         nv = nv(NVRAMRTCOFFSET := word_of_int (off AND 0xFF));
         nv = nv(NVRAMRTCOFFSET + 1 := word_of_int (drop_bit 8 off AND 0xFF));
         nv = nv(NVRAMRTCOFFSET + 2 := word_of_int (drop_bit 16 off AND 0xFF));
         nv = nv(NVRAMRTCOFFSET + 3 := word_of_int (drop_bit 24 off AND 0xFF))
     in m\<lparr>NVRAM := nv, NVRAMDirty := True\<rparr>)"

definition RTCWriteCMD :: CitronWriteF where
  "RTCWriteCMD port value p m =
    (let rtc = Rtc m
     in if value = 1 then (EBUSSUCCESS, m\<lparr>Rtc := rtc\<lparr>RTCIntervalMS := RTCPortA rtc\<rparr>\<rparr>)
        else if value = 2 then
          (EBUSSUCCESS, m\<lparr>Rtc := rtc\<lparr>RTCPortA := word_of_int (tv_sec rtc) + NVRAM_GET_RTCOFFSET (NVRAM m)\<rparr>\<rparr>)
        else if value = 3 then
          (EBUSSUCCESS, m\<lparr>Rtc := rtc\<lparr>RTCPortA := word_of_int (tv_usec rtc div 1000)\<rparr>\<rparr>)
        else if value = 4 then
          (EBUSSUCCESS, NVRAM_SET_RTCOFFSET (uint (RTCPortA rtc) - tv_sec rtc) m)
        else if value = 5 then (EBUSSUCCESS, m)
        else (EBUSERROR, m))"

definition RTCReadCMD :: CitronReadF where
  "RTCReadCMD port p m = (EBUSSUCCESS, Some 0, m)"

definition RTCWritePortA :: CitronWriteF where
  "RTCWritePortA port value p m = (EBUSSUCCESS, m\<lparr>Rtc := (Rtc m)\<lparr>RTCPortA := value\<rparr>\<rparr>)"

definition RTCReadPortA :: CitronReadF where
  "RTCReadPortA port p m = (EBUSSUCCESS, Some (RTCPortA (Rtc m)), m)"

definition RTCReset :: "Machine \<Rightarrow> Machine" where
  "RTCReset m = m\<lparr>Rtc := (Rtc m)\<lparr>RTCIntervalMS := 0, RTCPortA := 0\<rparr>\<rparr>"

text \<open>\<open>gettimeofday\<close> delivers the host's time.\<close>

definition RTCUpdateRealTime :: "int \<Rightarrow> int \<Rightarrow> Machine \<Rightarrow> Machine" where
  "RTCUpdateRealTime sec usec m = m\<lparr>Rtc := (Rtc m)\<lparr>tv_sec := sec, tv_usec := usec\<rparr>\<rparr>"

section \<open>The stored offset\<close>

lemma four_bytes:
  "ucast (word_of_int (off AND 0xFF) :: u8) + push_bit 8 (ucast (word_of_int (drop_bit 8 off AND 0xFF) :: u8))
     + push_bit 16 (ucast (word_of_int (drop_bit 16 off AND 0xFF) :: u8))
     + push_bit 24 (ucast (word_of_int (drop_bit 24 off AND 0xFF) :: u8)) = (word_of_int off :: u32)"
proof -
  have m: "(0xFF :: int) = mask 8" by (simp add: mask_eq_exp_minus_1)
  have b: "bit (ucast (word_of_int (drop_bit k off AND 0xFF) :: u8) :: u32) n \<longleftrightarrow> n < 8 \<and> bit off (k + n)" for k n
    unfolding m by (auto simp: bit_simps add.commute)
  define B :: "nat \<Rightarrow> u32" where "B k = ucast (word_of_int (drop_bit k off AND 0xFF) :: u8)" for k
  have B: "bit (B k) n \<longleftrightarrow> n < 8 \<and> bit off (k + n)" for k n by (simp only: B_def b)
  have s1: "B 0 + push_bit 8 (B 8) = B 0 OR push_bit 8 (B 8)"
    by (rule disjunctive_add) (auto simp: bit_simps B)
  have s2: "(B 0 OR push_bit 8 (B 8)) + push_bit 16 (B 16) = (B 0 OR push_bit 8 (B 8)) OR push_bit 16 (B 16)"
    by (rule disjunctive_add) (auto simp: bit_simps B)
  have s3: "((B 0 OR push_bit 8 (B 8)) OR push_bit 16 (B 16)) + push_bit 24 (B 24) =
      ((B 0 OR push_bit 8 (B 8)) OR push_bit 16 (B 16)) OR push_bit 24 (B 24)"
    by (rule disjunctive_add) (auto simp: bit_simps B)
  have "B 0 + push_bit 8 (B 8) + push_bit 16 (B 16) + push_bit 24 (B 24) = word_of_int off"
    unfolding s1 s2 s3
  proof (rule bit_word_eqI)
    fix n assume "n < LENGTH(32)"
    then have n: "n < 32" by simp
    have l: "bit (((B 0 OR push_bit 8 (B 8)) OR push_bit 16 (B 16)) OR push_bit 24 (B 24)) n \<longleftrightarrow>
       n < 8 \<and> bit off n \<or> 8 \<le> n \<and> n - 8 < 8 \<and> bit off (8 + (n - 8)) \<or>
       16 \<le> n \<and> n - 16 < 8 \<and> bit off (16 + (n - 16)) \<or> 24 \<le> n \<and> n - 24 < 8 \<and> bit off (24 + (n - 24))"
      using n by (simp add: bit_simps B)
    have "n < 8 \<or> 8 \<le> n \<and> n - 8 < 8 \<or> 16 \<le> n \<and> n - 16 < 8 \<or> 24 \<le> n \<and> n - 24 < 8"
      using n by linarith
    then have "bit (((B 0 OR push_bit 8 (B 8)) OR push_bit 16 (B 16)) OR push_bit 24 (B 24)) n \<longleftrightarrow> bit off n"
      unfolding l by (metis le_add_diff_inverse)
    then show "bit (((B 0 OR push_bit 8 (B 8)) OR push_bit 16 (B 16)) OR push_bit 24 (B 24)) n =
        bit (word_of_int off :: u32) n"
      using n by (simp add: bit_simps)
  qed
  then show ?thesis by (simp add: B_def)
qed

lemma get_set_rtcoffset [simp]:
  "NVRAM_GET_RTCOFFSET (NVRAM (NVRAM_SET_RTCOFFSET off m)) = word_of_int off"
  using four_bytes [of off] by (simp add: NVRAM_GET_RTCOFFSET_def NVRAM_SET_RTCOFFSET_def Let_def)

text \<open>
  Setting the clock works across time and resets: after the guest sets the epoch to
  \<open>v\<close>, a later read, when the host clock has advanced by \<open>d\<close> seconds, and also after a device
  reset in between, returns \<open>v + d\<close> (modulo \<open>2 ^ 32\<close>), and the new offset is marked for saving.
\<close>

theorem rtc_set_get:
  assumes "RTCWritePortA 0x21 v p m = (s1, m1)" and "RTCWriteCMD 0x20 4 p m1 = (s2, m2)"
    and "m3 = RTCUpdateRealTime (tv_sec (Rtc m) + d) usec (if reset then RTCReset m2 else m2)"
    and "RTCWriteCMD 0x20 2 p m3 = (s4, m4)" and "RTCReadPortA 0x21 p m4 = (s5, value, m5)"
  shows "value = Some (v + word_of_int d) \<and> NVRAMDirty m2 \<and> s1 = EBUSSUCCESS \<and> s2 = EBUSSUCCESS \<and>
    s4 = EBUSSUCCESS \<and> s5 = EBUSSUCCESS"
proof -
  have m2: "Rtc m2 = (Rtc m)\<lparr>RTCPortA := v\<rparr>" "NVRAM_GET_RTCOFFSET (NVRAM m2) = v - word_of_int (tv_sec (Rtc m))"
    "NVRAMDirty m2" "s2 = EBUSSUCCESS" "s1 = EBUSSUCCESS"
    using assms(1,2) get_set_rtcoffset [of "uint v - tv_sec (Rtc m)" m1]
    by (auto simp: RTCWritePortA_def RTCWriteCMD_def Let_def NVRAM_SET_RTCOFFSET_def)
  have n3: "NVRAM m3 = NVRAM m2" "tv_sec (Rtc m3) = tv_sec (Rtc m) + d"
    using assms(3) by (simp_all add: RTCUpdateRealTime_def RTCReset_def)
  then have "RTCPortA (Rtc m4) = v + word_of_int d \<and> s4 = EBUSSUCCESS"
    using assms(4) m2 by (auto simp: RTCWriteCMD_def Let_def)
  then show ?thesis using assms(5) m2 by (auto simp: RTCReadPortA_def)
qed

lemma rtc_set_get_witness:
  "\<exists>m1 m2 m4 s4. RTCWritePortA 0x21 1000 0 machine_zero = (EBUSSUCCESS, m1) \<and>
     RTCWriteCMD 0x20 4 0 m1 = (EBUSSUCCESS, m2) \<and>
     RTCWriteCMD 0x20 2 0 (RTCUpdateRealTime 7 0 (RTCReset m2)) = (s4, m4) \<and>
     RTCReadPortA 0x21 0 m4 = (EBUSSUCCESS, Some 1007, m4)"
proof -
  obtain s1 m1 where 1: "RTCWritePortA 0x21 1000 0 machine_zero = (s1, m1)" by fastforce
  obtain s2 m2 where 2: "RTCWriteCMD 0x20 4 0 m1 = (s2, m2)" by fastforce
  obtain s4 m4 where 4: "RTCWriteCMD 0x20 2 0 (RTCUpdateRealTime 7 0 (RTCReset m2)) = (s4, m4)" by fastforce
  obtain s5 v m5 where 5: "RTCReadPortA 0x21 0 m4 = (s5, v, m5)" by (metis prod.exhaust)
  have "tv_sec (Rtc machine_zero) = 0" by (simp add: machine_zero_def)
  then have "v = Some 1007 \<and> s1 = EBUSSUCCESS \<and> s2 = EBUSSUCCESS \<and> s5 = EBUSSUCCESS"
    using rtc_set_get [OF 1 2 _ 4 5, of 7 0 True] by simp
  moreover have "m5 = m4" using 5 by (simp add: RTCReadPortA_def)
  ultimately show ?thesis using 1 2 4 5 by blast
qed

end
