(* ===== verification/Keymaps.thy ===== *)
theory Keymaps
  imports Tty
begin

text \<open>
  The key tables of the terminal (\<^verbatim>\<open>src/src/tty.h\<close>) and of the emulated keyboard
  (\<^verbatim>\<open>src/src/keybd.c\<close>), and the key handlers of the terminal. The tables are C arrays with
  designated initialisers over the SDL scancodes; a key is named by its scancode constant without
  the prefix \<^verbatim>\<open>SDL_SCANCODE_\<close>, and a key that is not listed has the entry 0.
\<close>

section \<open>Tables\<close>

definition key_entry :: "(string \<times> u8) list \<Rightarrow> string \<Rightarrow> u8" where
  "key_entry table key = (case map_of table key of Some c \<Rightarrow> c | None \<Rightarrow> 0)"

definition KeyMapNormal :: "(string \<times> u8) list" where
  "KeyMapNormal = [
     (''A'', 97), (''B'', 98), (''C'', 99), (''D'', 100), (''E'', 101), (''F'', 102), (''G'', 103),
     (''H'', 104), (''I'', 105), (''J'', 106), (''K'', 107), (''L'', 108), (''M'', 109),
     (''N'', 110), (''O'', 111), (''P'', 112), (''Q'', 113), (''R'', 114), (''S'', 115),
     (''T'', 116), (''U'', 117), (''V'', 118), (''W'', 119), (''X'', 120), (''Y'', 121),
     (''Z'', 122), (''0'', 48), (''1'', 49), (''2'', 50), (''3'', 51), (''4'', 52), (''5'', 53),
     (''6'', 54), (''7'', 55), (''8'', 56), (''9'', 57), (''SEMICOLON'', 59), (''SPACE'', 32),
     (''TAB'', 9), (''MINUS'', 45), (''EQUALS'', 61), (''LEFTBRACKET'', 91),
     (''RIGHTBRACKET'', 93), (''BACKSLASH'', 92), (''NONUSHASH'', 92), (''SLASH'', 47),
     (''PERIOD'', 46), (''APOSTROPHE'', 39), (''COMMA'', 44), (''GRAVE'', 96), (''RETURN'', 13),
     (''BACKSPACE'', 8), (''CAPSLOCK'', 255), (''ESCAPE'', 255), (''LEFT'', 255), (''RIGHT'', 255),
     (''DOWN'', 255), (''UP'', 255), (''LALT'', 255), (''RALT'', 255), (''KP_DIVIDE'', 92),
     (''KP_MINUS'', 45), (''KP_ENTER'', 13), (''KP_0'', 48), (''KP_1'', 49), (''KP_2'', 50),
     (''KP_3'', 51), (''KP_4'', 52), (''KP_5'', 53), (''KP_6'', 54), (''KP_7'', 55),
     (''KP_8'', 56), (''KP_9'', 57), (''KP_PERIOD'', 46)]"

definition KeyMapCtrl :: "(string \<times> u8) list" where
  "KeyMapCtrl = [
     (''A'', 1), (''B'', 2), (''C'', 3), (''D'', 4), (''E'', 5), (''F'', 6), (''G'', 7),
     (''H'', 8), (''I'', 9), (''J'', 10), (''K'', 11), (''L'', 12), (''M'', 13), (''N'', 14),
     (''O'', 15), (''P'', 16), (''Q'', 17), (''R'', 18), (''S'', 19), (''T'', 20), (''U'', 21),
     (''V'', 22), (''W'', 23), (''X'', 24), (''Y'', 25), (''Z'', 26), (''0'', 255), (''1'', 255),
     (''2'', 0), (''3'', 255), (''4'', 255), (''5'', 255), (''6'', 30), (''7'', 255), (''8'', 255),
     (''9'', 255), (''SEMICOLON'', 255), (''SPACE'', 255), (''TAB'', 255), (''MINUS'', 31),
     (''EQUALS'', 255), (''LEFTBRACKET'', 27), (''RIGHTBRACKET'', 29), (''BACKSLASH'', 28),
     (''NONUSHASH'', 28), (''SLASH'', 255), (''PERIOD'', 255), (''APOSTROPHE'', 255),
     (''COMMA'', 255), (''GRAVE'', 255), (''RETURN'', 255), (''BACKSPACE'', 255),
     (''CAPSLOCK'', 255), (''ESCAPE'', 255), (''LEFT'', 255), (''RIGHT'', 255), (''DOWN'', 255),
     (''UP'', 255), (''LALT'', 255), (''RALT'', 255), (''KP_DIVIDE'', 28), (''KP_MINUS'', 31),
     (''KP_ENTER'', 255), (''KP_0'', 255), (''KP_1'', 255), (''KP_2'', 0), (''KP_3'', 255),
     (''KP_4'', 255), (''KP_5'', 255), (''KP_6'', 30), (''KP_7'', 255), (''KP_8'', 255),
     (''KP_9'', 255), (''KP_PERIOD'', 255)]"

definition KeyMapShift :: "(string \<times> u8) list" where
  "KeyMapShift = [
     (''A'', 65), (''B'', 66), (''C'', 67), (''D'', 68), (''E'', 69), (''F'', 70), (''G'', 71),
     (''H'', 72), (''I'', 73), (''J'', 74), (''K'', 75), (''L'', 76), (''M'', 77), (''N'', 78),
     (''O'', 79), (''P'', 80), (''Q'', 81), (''R'', 82), (''S'', 83), (''T'', 84), (''U'', 85),
     (''V'', 86), (''W'', 87), (''X'', 88), (''Y'', 89), (''Z'', 90), (''0'', 41), (''1'', 33),
     (''2'', 64), (''3'', 35), (''4'', 36), (''5'', 37), (''6'', 94), (''7'', 38), (''8'', 42),
     (''9'', 40), (''SEMICOLON'', 58), (''SPACE'', 32), (''TAB'', 9), (''MINUS'', 95),
     (''EQUALS'', 43), (''LEFTBRACKET'', 123), (''RIGHTBRACKET'', 125), (''BACKSLASH'', 124),
     (''NONUSHASH'', 124), (''SLASH'', 63), (''PERIOD'', 62), (''APOSTROPHE'', 34),
     (''COMMA'', 60), (''GRAVE'', 126), (''RETURN'', 10), (''BACKSPACE'', 8), (''CAPSLOCK'', 255),
     (''ESCAPE'', 255), (''LEFT'', 255), (''RIGHT'', 255), (''DOWN'', 255), (''UP'', 255),
     (''LALT'', 255), (''RALT'', 255), (''KP_DIVIDE'', 92), (''KP_MINUS'', 45), (''KP_ENTER'', 13),
     (''KP_0'', 48), (''KP_1'', 49), (''KP_2'', 50), (''KP_3'', 51), (''KP_4'', 52),
     (''KP_5'', 53), (''KP_6'', 54), (''KP_7'', 55), (''KP_8'', 56), (''KP_9'', 57),
     (''KP_PERIOD'', 46)]"

definition KeyMap :: "(string \<times> u8) list" where
  "KeyMap = [
     (''A'', 1), (''B'', 2), (''C'', 3), (''D'', 4), (''E'', 5), (''F'', 6), (''G'', 7),
     (''H'', 8), (''I'', 9), (''J'', 10), (''K'', 11), (''L'', 12), (''M'', 13), (''N'', 14),
     (''O'', 15), (''P'', 16), (''Q'', 17), (''R'', 18), (''S'', 19), (''T'', 20), (''U'', 21),
     (''V'', 22), (''W'', 23), (''X'', 24), (''Y'', 25), (''Z'', 26), (''0'', 27), (''1'', 28),
     (''2'', 29), (''3'', 30), (''4'', 31), (''5'', 32), (''6'', 33), (''7'', 34), (''8'', 35),
     (''9'', 36), (''SEMICOLON'', 37), (''SPACE'', 38), (''TAB'', 39), (''MINUS'', 40),
     (''EQUALS'', 41), (''LEFTBRACKET'', 42), (''RIGHTBRACKET'', 43), (''BACKSLASH'', 44),
     (''NONUSHASH'', 44), (''SLASH'', 46), (''PERIOD'', 47), (''APOSTROPHE'', 48), (''COMMA'', 49),
     (''GRAVE'', 50), (''RETURN'', 51), (''BACKSPACE'', 52), (''CAPSLOCK'', 53), (''ESCAPE'', 54),
     (''LEFT'', 55), (''RIGHT'', 56), (''DOWN'', 57), (''UP'', 58), (''LCTRL'', 81),
     (''RCTRL'', 82), (''LSHIFT'', 83), (''RSHIFT'', 84), (''LALT'', 85), (''RALT'', 86),
     (''KP_DIVIDE'', 46), (''KP_MINUS'', 40), (''KP_ENTER'', 51), (''KP_0'', 27), (''KP_1'', 28),
     (''KP_2'', 29), (''KP_3'', 30), (''KP_4'', 31), (''KP_5'', 32), (''KP_6'', 33),
     (''KP_7'', 34), (''KP_8'', 35), (''KP_9'', 36), (''KP_PERIOD'', 47)]"

section \<open>Keys typed into a terminal\<close>

text \<open>The characters handed to the \<open>Input\<close> callback, and the new state.\<close>

definition TTYKeyPressed :: "string \<Rightarrow> TTY \<Rightarrow> u16 list \<times> TTY" where
  "TTYKeyPressed key tty =
    (if key = ''LCTRL'' \<or> key = ''RCTRL'' then ([], tty\<lparr>IsCtrl := True\<rparr>)
     else if key = ''LSHIFT'' \<or> key = ''RSHIFT'' then ([], tty\<lparr>IsShift := True\<rparr>)
     else if key = ''LEFT'' then ([0x1B, 91, 68], tty)
     else if key = ''RIGHT'' then ([0x1B, 91, 67], tty)
     else if key = ''UP'' then ([0x1B, 91, 65], tty)
     else if key = ''DOWN'' then ([0x1B, 91, 66], tty)
     else
       let c = (if IsCtrl tty then key_entry KeyMapCtrl key
                else if IsShift tty then key_entry KeyMapShift key
                else key_entry KeyMapNormal key)
       in (if c \<noteq> - 1 then [scast c] else [], tty))"

definition TTYKeyReleased :: "string \<Rightarrow> TTY \<Rightarrow> TTY" where
  "TTYKeyReleased key tty =
    (if key = ''LCTRL'' \<or> key = ''RCTRL'' then tty\<lparr>IsCtrl := False\<rparr>
     else if key = ''LSHIFT'' \<or> key = ''RSHIFT'' then tty\<lparr>IsShift := False\<rparr>
     else tty)"

section \<open>The tables agree\<close>

lemma key_entry_in: "key_entry table key = 0 \<or> (key, key_entry table key) \<in> set table"
  by (auto simp: key_entry_def split: option.split dest: map_of_SomeD)

definition letters :: "string list" where
  "letters = map (\<lambda>c. [c]) ''ABCDEFGHIJKLMNOPQRSTUVWXYZ''"

lemma letter_entries:
  "map (key_entry KeyMapNormal) letters = map (\<lambda>i. of_nat (97 + i)) [0..<26]"
  "map (key_entry KeyMapShift) letters = map (\<lambda>i. of_nat (65 + i)) [0..<26]"
  "map (key_entry KeyMapCtrl) letters = map (\<lambda>i. of_nat (1 + i)) [0..<26]"
  by (simp_all add: letters_def key_entry_def KeyMapNormal_def KeyMapShift_def KeyMapCtrl_def upt_rec)

lemma scast_small: "n < 128 \<Longrightarrow> (scast (of_nat n :: u8) :: u16) = of_nat n"
proof -
  assume n: "n < 128"
  then have "uint (of_nat n :: u8) = int n" by (simp add: uint_nat unat_of_nat)
  then have "sint (of_nat n :: u8) = int n"
    using n by (simp add: sint_uint signed_take_bit_int_eq_self)
  then show ?thesis by (simp add: scast_eq)
qed

lemma not_key_none: "n < 128 \<Longrightarrow> of_nat n \<noteq> (- 1 :: u8)"
proof
  assume n: "n < 128" and e: "of_nat n = (- 1 :: u8)"
  have "unat (of_nat n :: u8) = n" using n by (simp add: unat_of_nat)
  moreover have "(- 1 :: u8) = 255" by simp
  ultimately show False using e n by simp
qed

lemma unat_of_nat_u16: "n < 65536 \<Longrightarrow> unat (of_nat n :: u16) = n"
  by (simp add: unat_of_nat)

text \<open>
  Typing is consistent across the three tables: for every letter key, the character
  sent with shift is the upper case of the one sent without, the one sent with control is the
  control code of the letter, and control wins over shift; releasing the modifier undoes it.
\<close>

theorem tty_letter_keys:
  assumes "key \<in> set letters"
  shows "\<exists>c. 97 \<le> c \<and> c < 123 \<and>
    TTYKeyPressed key (tty\<lparr>IsCtrl := False, IsShift := False\<rparr>) = ([c], tty\<lparr>IsCtrl := False, IsShift := False\<rparr>) \<and>
    fst (TTYKeyPressed key (snd (TTYKeyPressed ''LSHIFT'' (tty\<lparr>IsCtrl := False\<rparr>)))) = [c - 32] \<and>
    fst (TTYKeyPressed key (snd (TTYKeyPressed ''LCTRL'' tty))) = [c - 96] \<and>
    TTYKeyReleased ''LCTRL'' (snd (TTYKeyPressed ''LCTRL'' tty)) = tty\<lparr>IsCtrl := False\<rparr>"
proof -
  have l: "length letters = 26" by (simp add: letters_def)
  then obtain i where i: "i < 26" "key = letters ! i"
    using assms by (metis in_set_conv_nth)
  have e: "key_entry KeyMapNormal key = of_nat (97 + i)" "key_entry KeyMapShift key = of_nat (65 + i)"
    "key_entry KeyMapCtrl key = of_nat (1 + i)"
    using letter_entries [THEN arg_cong, of "\<lambda>xs. xs ! i"] i l
    by (simp_all del: upt_rec_numeral)
  have "\<forall>k \<in> set letters. length k = 1" by (simp add: letters_def)
  then have k: "length key = 1" using assms by blast
  have "(scast (of_nat (97 + i) :: u8) :: u16) = of_nat (97 + i)" "(scast (of_nat (65 + i) :: u8) :: u16) = of_nat (97 + i) - 32"
    "(scast (of_nat (1 + i) :: u8) :: u16) = of_nat (97 + i) - 96"
    "of_nat (97 + i) \<noteq> (- 1 :: u8)" "of_nat (65 + i) \<noteq> (- 1 :: u8)" "of_nat (1 + i) \<noteq> (- 1 :: u8)"
    "97 \<le> (of_nat (97 + i) :: u16)" "(of_nat (97 + i) :: u16) < 123"
    using i(1) scast_small [of "97 + i"] scast_small [of "65 + i"] scast_small [of "1 + i"]
      not_key_none [of "97 + i"] not_key_none [of "65 + i"] not_key_none [of "1 + i"]
    by (simp_all add: word_le_nat_alt word_less_nat_alt unat_of_nat_u16 del: of_nat_add) simp_all
  moreover have "key \<noteq> ''LCTRL''" "key \<noteq> ''RCTRL''" "key \<noteq> ''LSHIFT''" "key \<noteq> ''RSHIFT''"
    "key \<noteq> ''LEFT''" "key \<noteq> ''RIGHT''" "key \<noteq> ''UP''" "key \<noteq> ''DOWN''"
    using k by auto
  ultimately show ?thesis
    using e by (intro exI [of _ "of_nat (97 + i)"]) (simp add: TTYKeyPressed_def TTYKeyReleased_def Let_def del: of_nat_add)
qed

lemma tty_letter_keys_witness:
  "\<exists>c. fst (TTYKeyPressed ''Q'' ((TTYCreate 80 24)\<lparr>IsCtrl := False, IsShift := False\<rparr>)) = [c] \<and> c < 123"
proof -
  have "''Q'' \<in> set letters" by (simp add: letters_def)
  then show ?thesis using tty_letter_keys [of "''Q''" "TTYCreate 80 24"] by auto
qed

end
