(* ===== verification/Amtsu.thy ===== *)
theory Amtsu
  imports Machine Keymaps
begin

text \<open>
  The Amtsu bus with its controller (\<^verbatim>\<open>src/src/amtsu.c\<close>), the keyboard (\<^verbatim>\<open>src/src/keybd.c\<close>) and
  the mouse (\<^verbatim>\<open>src/src/mouse.c\<close>). The arrays of the keyboard are indexed by key code minus one;
  the key table gives the code of an SDL key, named here without the prefix
  \<^verbatim>\<open>SDL_SCANCODE_\<close>. An access outside an array sets \<open>Crashed\<close>.
\<close>

section \<open>Devices and their actions\<close>

abbreviation (input) "AMTSUDEVICES \<equiv> 16 :: nat"
abbreviation (input) "AMTSU_CONTROLLER \<equiv> 0 :: nat"
abbreviation (input) "AMTSU_KEYBOARD \<equiv> 1 :: nat"
abbreviation (input) "AMTSU_MOUSE \<equiv> 2 :: nat"
abbreviation (input) "KEYBDMAXCODE \<equiv> 85 :: nat"

definition set_device :: "nat \<Rightarrow> AmtsuDevice \<Rightarrow> Machine \<Rightarrow> Machine" where
  "set_device d dev m = m\<lparr>Amtsu := (Amtsu m)\<lparr>AmtsuDevices := (AmtsuDevices (Amtsu m))(d := dev)\<rparr>\<rparr>"

definition device :: "Machine \<Rightarrow> nat \<Rightarrow> AmtsuDevice" where
  "device m d = AmtsuDevices (Amtsu m) d"

text \<open>\<open>memset\<close> of the three key arrays, which have \<open>KEYBDMAXCODE + 1\<close> entries.\<close>

definition XrKeyboardReset :: "nat \<Rightarrow> Machine \<Rightarrow> Machine" where
  "XrKeyboardReset d m =
    (let m = set_device d ((device m d)\<lparr>PortAValue := 0xFFFF\<rparr>) m
     in m\<lparr>Amtsu := (Amtsu m)\<lparr>OutstandingPressed := (\<lambda>i. i > KEYBDMAXCODE \<and> OutstandingPressed (Amtsu m) i),
                             OutstandingReleased := (\<lambda>i. i > KEYBDMAXCODE \<and> OutstandingReleased (Amtsu m) i),
                             Pressed := (\<lambda>i. i > KEYBDMAXCODE \<and> Pressed (Amtsu m) i)\<rparr>\<rparr>)"

text \<open>The loop over the codes: the first one with an outstanding event.\<close>

definition XrKeyboardPop :: "nat \<Rightarrow> nat \<Rightarrow> Machine \<Rightarrow> Machine" where
  "XrKeyboardPop d p m =
    (let a = Amtsu m; dev = device m d
     in case List.find (\<lambda>i. OutstandingReleased a i \<or> OutstandingPressed a i) [0..<Suc KEYBDMAXCODE] of
          Some i \<Rightarrow>
            if OutstandingReleased a i then
              let m = set_device d (dev\<lparr>PortAValue := of_nat i OR 0x8000\<rparr>) m
              in m\<lparr>Amtsu := (Amtsu m)\<lparr>OutstandingReleased := (OutstandingReleased a)(i := False),
                                      OutstandingPressed := (OutstandingPressed a)(i := False)\<rparr>\<rparr>
            else
              let m = set_device d (dev\<lparr>PortAValue := of_nat i\<rparr>) m
              in m\<lparr>Amtsu := (Amtsu m)\<lparr>OutstandingPressed := (OutstandingPressed a)(i := False)\<rparr>\<rparr>
        | None \<Rightarrow>
            let m = XrDecrementProgress p (InterruptNumber dev \<noteq> 0) m
            in set_device d (dev\<lparr>PortAValue := 0xFFFF\<rparr>) m)"

definition XrKeyboardAction :: "nat \<Rightarrow> u32 \<Rightarrow> nat \<Rightarrow> Machine \<Rightarrow> EBusSuccess \<times> Machine" where
  "XrKeyboardAction d value p m =
    (let dev = device m d
     in (EBUSSUCCESS,
         if value = 1 then XrKeyboardPop d p m
         else if value = 2 then XrKeyboardReset d m
         else if value = 3 then
           if PortAValue dev \<le> of_nat KEYBDMAXCODE then
             if Pressed (Amtsu m) (unat (PortAValue dev)) then set_device d (dev\<lparr>PortAValue := 1\<rparr>) m
             else set_device d (dev\<lparr>PortAValue := 0\<rparr>) (XrDecrementProgress p (InterruptNumber dev \<noteq> 0) m)
           else set_device d (dev\<lparr>PortAValue := 0\<rparr>) m
         else m))"

definition MouseResetDevice :: "nat \<Rightarrow> Machine \<Rightarrow> Machine" where
  "MouseResetDevice d m =
    (let m = set_device d ((device m d)\<lparr>PortAValue := 0, PortBValue := 0\<rparr>) m
     in m\<lparr>Amtsu := (Amtsu m)\<lparr>MousePressedButton := 0, MouseReleasedButton := 0, MouseDX := 0, MouseDY := 0\<rparr>\<rparr>)"

definition XrMouseAction :: "nat \<Rightarrow> u32 \<Rightarrow> nat \<Rightarrow> Machine \<Rightarrow> EBusSuccess \<times> Machine" where
  "XrMouseAction d value p m =
    (let dev = device m d; a = Amtsu m
     in (EBUSSUCCESS,
         if value = 1 then
           if MousePressedButton a \<noteq> 0 then
             let m = set_device d (dev\<lparr>PortAValue := 1, PortBValue := MousePressedButton a\<rparr>) m
             in m\<lparr>Amtsu := (Amtsu m)\<lparr>MousePressedButton := 0\<rparr>\<rparr>
           else if MouseReleasedButton a \<noteq> 0 then
             let m = set_device d (dev\<lparr>PortAValue := 2, PortBValue := MouseReleasedButton a\<rparr>) m
             in m\<lparr>Amtsu := (Amtsu m)\<lparr>MouseReleasedButton := 0\<rparr>\<rparr>
           else if MouseMovedV a \<noteq> 0 then
             let m = set_device d (dev\<lparr>PortAValue := 3, PortBValue := MouseMovedV a\<rparr>) m
             in m\<lparr>Amtsu := (Amtsu m)\<lparr>MouseDX := 0, MouseDY := 0, MouseMovedV := 0\<rparr>\<rparr>
           else
             set_device d (dev\<lparr>PortAValue := 0\<rparr>) (XrDecrementProgress p (InterruptNumber dev \<noteq> 0) m)
         else if value = 2 then MouseResetDevice d m
         else m))"

definition device_reset :: "nat \<Rightarrow> Machine \<Rightarrow> Machine" where
  "device_reset d m =
    (if AmtsuPresent (device m d) then
       let m = (case DevReset (device m d) of NoReset \<Rightarrow> m | KeyboardReset \<Rightarrow> XrKeyboardReset d m
                | MouseReset \<Rightarrow> MouseResetDevice d m)
       in set_device d ((device m d)\<lparr>InterruptNumber := 0\<rparr>) m
     else m)"

definition AmtsuReset :: "Machine \<Rightarrow> Machine" where
  "AmtsuReset m = fold device_reset [1..<AMTSUDEVICES] m"

definition XrAmtsuControllerAction :: "nat \<Rightarrow> u32 \<Rightarrow> nat \<Rightarrow> Machine \<Rightarrow> EBusSuccess \<times> Machine" where
  "XrAmtsuControllerAction d value p m =
    (let b = PortBValue (device m d); t = unat b
     in (EBUSSUCCESS,
         if value = 1 then
           if b < of_nat AMTSUDEVICES
           then set_device t ((device m t)\<lparr>InterruptNumber := 48 + b\<rparr>) m else m
         else if value = 2 then AmtsuReset m
         else if value = 3 then
           if b < of_nat AMTSUDEVICES
           then set_device t ((device m t)\<lparr>InterruptNumber := 0\<rparr>) m else m
         else m))"

definition device_action :: "nat \<Rightarrow> u32 \<Rightarrow> nat \<Rightarrow> Machine \<Rightarrow> EBusSuccess \<times> Machine" where
  "device_action d value p m =
    (case Action (device m d) of
       NoAction \<Rightarrow> (EBUSSUCCESS, m)
     | AmtsuControllerAction \<Rightarrow> XrAmtsuControllerAction d value p m
     | KeyboardAction \<Rightarrow> XrKeyboardAction d value p m
     | MouseAction \<Rightarrow> XrMouseAction d value p m)"

section \<open>Ports\<close>

definition current :: "Machine \<Rightarrow> nat" where
  "current m = unat (CurrentDevice (Amtsu m))"

definition AmtsuWrite30 :: CitronWriteF where
  "AmtsuWrite30 port value p m =
    (if value < of_nat AMTSUDEVICES then (EBUSSUCCESS, m\<lparr>Amtsu := (Amtsu m)\<lparr>CurrentDevice := value\<rparr>\<rparr>)
     else (EBUSERROR, m))"

definition AmtsuRead30 :: CitronReadF where
  "AmtsuRead30 port p m = (EBUSSUCCESS, Some (CurrentDevice (Amtsu m)), m)"

definition AmtsuWriteMID :: CitronWriteF where
  "AmtsuWriteMID port value p m = (EBUSERROR, m)"

definition AmtsuReadMID :: CitronReadF where
  "AmtsuReadMID port p m = (EBUSSUCCESS, Some (MID (device m (current m))), m)"

definition AmtsuWriteCMD :: CitronWriteF where
  "AmtsuWriteCMD port value p m =
    (if \<not> AmtsuPresent (device m (current m)) then (EBUSERROR, m)
     else device_action (current m) value p m)"

text \<open>No device sets \<open>IsBusy\<close>, so a present device reads as zero.\<close>

definition AmtsuReadCMD :: CitronReadF where
  "AmtsuReadCMD port p m =
    (if \<not> AmtsuPresent (device m (current m)) then (EBUSERROR, None, m) else (EBUSSUCCESS, Some 0, m))"

definition AmtsuWritePortA :: CitronWriteF where
  "AmtsuWritePortA port value p m =
    (if \<not> AmtsuPresent (device m (current m)) then (EBUSERROR, m)
     else (EBUSSUCCESS, set_device (current m) ((device m (current m))\<lparr>PortAValue := value\<rparr>) m))"

definition AmtsuReadPortA :: CitronReadF where
  "AmtsuReadPortA port p m =
    (if \<not> AmtsuPresent (device m (current m)) then (EBUSERROR, None, m)
     else (EBUSSUCCESS, Some (PortAValue (device m (current m))), m))"

definition AmtsuWritePortB :: CitronWriteF where
  "AmtsuWritePortB port value p m =
    (if \<not> AmtsuPresent (device m (current m)) then (EBUSERROR, m)
     else (EBUSSUCCESS, set_device (current m) ((device m (current m))\<lparr>PortBValue := value\<rparr>) m))"

definition AmtsuReadPortB :: CitronReadF where
  "AmtsuReadPortB port p m =
    (if \<not> AmtsuPresent (device m (current m)) then (EBUSERROR, None, m)
     else (EBUSSUCCESS, Some (PortBValue (device m (current m))), m))"

definition KeyboardInit :: "Machine \<Rightarrow> Machine" where
  "KeyboardInit m = set_device AMTSU_KEYBOARD ((device m AMTSU_KEYBOARD)\<lparr>AmtsuPresent := True, MID := 0x8FC48FC4,
     PortAValue := 0xFFFF, Action := KeyboardAction, DevReset := KeyboardReset\<rparr>) m"

definition MouseInit :: "Machine \<Rightarrow> Machine" where
  "MouseInit m = set_device AMTSU_MOUSE ((device m AMTSU_MOUSE)\<lparr>AmtsuPresent := True, MID := 0x4D4F5553,
     PortAValue := 0, Action := MouseAction, DevReset := MouseReset\<rparr>) m"

definition AmtsuInit :: "bool \<Rightarrow> Machine \<Rightarrow> Machine" where
  "AmtsuInit headless m =
    (let m = set_device AMTSU_CONTROLLER ((device m AMTSU_CONTROLLER)
               \<lparr>AmtsuPresent := True, Action := AmtsuControllerAction\<rparr>) m
     in if headless then m else MouseInit (KeyboardInit m))"

section \<open>Input from the host\<close>

definition device_interrupt :: "nat \<Rightarrow> Machine \<Rightarrow> Machine" where
  "device_interrupt d m =
    (if InterruptNumber (device m d) \<noteq> 0 then machine_interrupt (unat (InterruptNumber (device m d))) m else m)"

text \<open>\<open>code\<close> is the entry of the key table, zero for a key that is not in it.\<close>

definition KeyboardPressed :: "u8 \<Rightarrow> Machine \<Rightarrow> Machine" where
  "KeyboardPressed code m =
    (if code = 0 then m
     else if unat code - 1 > KEYBDMAXCODE then m\<lparr>Crashed := True\<rparr>
     else let a = Amtsu m; i = unat code - 1
          in device_interrupt AMTSU_KEYBOARD (m\<lparr>Amtsu := a\<lparr>OutstandingPressed := (OutstandingPressed a)(i := True),
               Pressed := (Pressed a)(i := True)\<rparr>\<rparr>))"

definition KeyboardReleased :: "u8 \<Rightarrow> Machine \<Rightarrow> Machine" where
  "KeyboardReleased code m =
    (if code = 0 then m
     else if unat code - 1 > KEYBDMAXCODE then m\<lparr>Crashed := True\<rparr>
     else let a = Amtsu m; i = unat code - 1
          in device_interrupt AMTSU_KEYBOARD (m\<lparr>Amtsu := a\<lparr>OutstandingReleased := (OutstandingReleased a)(i := True),
               Pressed := (Pressed a)(i := False)\<rparr>\<rparr>))"

definition mouse_button :: "int \<Rightarrow> int" where
  "mouse_button button = (if button = 3 then 2 else if button = 2 then 3 else button)"

definition MousePressed :: "int \<Rightarrow> Machine \<Rightarrow> Machine" where
  "MousePressed button m =
    (if 1 \<le> button \<and> button \<le> 3
     then device_interrupt AMTSU_MOUSE (m\<lparr>Amtsu := (Amtsu m)\<lparr>MousePressedButton := word_of_int (mouse_button button)\<rparr>\<rparr>)
     else m)"

definition MouseReleased :: "int \<Rightarrow> Machine \<Rightarrow> Machine" where
  "MouseReleased button m =
    (if 1 \<le> button \<and> button \<le> 3
     then device_interrupt AMTSU_MOUSE (m\<lparr>Amtsu := (Amtsu m)\<lparr>MouseReleasedButton := word_of_int (mouse_button button)\<rparr>\<rparr>)
     else m)"

definition MouseMoved :: "int \<Rightarrow> int \<Rightarrow> Machine \<Rightarrow> Machine" where
  "MouseMoved dx dy m =
    (let a = Amtsu m; x = MouseDX a + word_of_int dx; y = MouseDY a + word_of_int dy
     in device_interrupt AMTSU_MOUSE (m\<lparr>Amtsu := a\<lparr>MouseDX := x, MouseDY := y,
          MouseMovedV := push_bit 16 (x AND 0xFFFF) OR (y AND 0xFFFF)\<rparr>\<rparr>))"

section \<open>The keyboard queue\<close>

text \<open>What the guest will read: pending releases and presses in the order of the codes.\<close>

definition key_pending :: "AmtsuState \<Rightarrow> nat \<Rightarrow> bool" where
  "key_pending a i \<longleftrightarrow> OutstandingReleased a i \<or> OutstandingPressed a i"

definition key_event :: "AmtsuState \<Rightarrow> nat \<Rightarrow> u32" where
  "key_event a i = (if OutstandingReleased a i then of_nat i OR 0x8000 else of_nat i)"

definition key_events :: "AmtsuState \<Rightarrow> u32 list" where
  "key_events a = map (key_event a) (filter (key_pending a) [0..<Suc KEYBDMAXCODE])"

text \<open>The scancodes that \<open>n\<close> successive pops deliver.\<close>

fun pops :: "nat \<Rightarrow> nat \<Rightarrow> nat \<Rightarrow> Machine \<Rightarrow> u32 list" where
  "pops 0 d p m = []"
| "pops (Suc n) d p m =
    (let m = snd (XrKeyboardAction d 1 p m) in PortAValue (device m d) # pops n d p m)"

lemma device_set [simp]: "device (set_device d dev m) d = dev"
  by (simp add: device_def set_device_def)

lemma set_device_keys [simp]:
  "OutstandingPressed (Amtsu (set_device d dev m)) = OutstandingPressed (Amtsu m)"
  "OutstandingReleased (Amtsu (set_device d dev m)) = OutstandingReleased (Amtsu m)"
  by (simp_all add: set_device_def)

lemma Amtsu_DecrementProgress [simp]: "Amtsu (XrDecrementProgress p ints m) = Amtsu m"
  by (simp add: XrDecrementProgress_def Let_def)

lemma find_pop: "List.find P xs = (case filter P xs of [] \<Rightarrow> None | x # _ \<Rightarrow> Some x)"
  by (induction xs) auto

lemma filter_tl:
  assumes "filter P xs = x # ys" and "distinct xs"
  shows "filter (\<lambda>i. i \<noteq> x \<and> P i) xs = ys"
proof -
  have "filter (\<lambda>i. i \<noteq> x \<and> P i) xs = filter (\<lambda>i. i \<noteq> x) (filter P xs)"
    by (simp add: conj_commute)
  also have "\<dots> = ys"
  proof -
    have "x \<notin> set ys" using assms distinct_filter [of xs P] by simp
    then show ?thesis using assms(1) by (auto intro: filter_True)
  qed
  finally show ?thesis .
qed

lemma pop_event:
  assumes "filter (key_pending (Amtsu m)) [0..<Suc KEYBDMAXCODE] = i # is"
  shows "PortAValue (device (snd (XrKeyboardAction d 1 p m)) d) = key_event (Amtsu m) i \<and>
    key_events (Amtsu (snd (XrKeyboardAction d 1 p m))) = map (key_event (Amtsu m)) is"
proof -
  let ?a = "Amtsu m" let ?m = "snd (XrKeyboardAction d 1 p m)"
  have f: "List.find (\<lambda>i. OutstandingReleased ?a i \<or> OutstandingPressed ?a i) [0..<Suc KEYBDMAXCODE] = Some i"
    using assms by (simp add: find_pop key_pending_def [abs_def] del: upt.simps upt_rec_numeral)
  have P: "key_pending ?a i" using assms by (metis filter_eq_ConsD)
  have R: "OutstandingReleased (Amtsu ?m) = (OutstandingReleased ?a)(i := False)"
    "OutstandingPressed (Amtsu ?m) = (OutstandingPressed ?a)(i := False)"
    "PortAValue (device ?m d) = key_event ?a i"
    using f P by (auto simp: XrKeyboardAction_def XrKeyboardPop_def Let_def key_event_def key_pending_def
        device_def set_device_def fun_eq_iff simp del: upt.simps upt_rec_numeral)
  have e: "key_pending (Amtsu ?m) = (\<lambda>j. j \<noteq> i \<and> key_pending ?a j)"
    by (auto simp: key_pending_def R fun_eq_iff)
  have "filter (key_pending (Amtsu ?m)) [0..<Suc KEYBDMAXCODE] = is"
    unfolding e by (rule filter_tl [OF assms]) simp
  moreover have "key_event (Amtsu ?m) j = key_event ?a j" if "j \<in> set is" for j
  proof -
    have "i \<notin> set is" using assms distinct_filter [of "[0..<Suc KEYBDMAXCODE]" "key_pending ?a"]
      by (simp del: upt.simps upt_rec_numeral)
    then have "j \<noteq> i" using that by blast
    then show ?thesis by (simp add: key_event_def R)
  qed
  ultimately show ?thesis
    using R(3) by (simp add: key_events_def del: upt.simps upt_rec_numeral)
qed

lemma pop_empty:
  assumes "key_events (Amtsu m) = []"
  shows "PortAValue (device (snd (XrKeyboardAction d 1 p m)) d) = 0xFFFF \<and>
    key_events (Amtsu (snd (XrKeyboardAction d 1 p m))) = []"
proof -
  have f: "List.find (\<lambda>i. OutstandingReleased (Amtsu m) i \<or> OutstandingPressed (Amtsu m) i) [0..<Suc KEYBDMAXCODE] = None"
    using assms by (simp add: find_pop key_events_def key_pending_def [abs_def] del: upt.simps upt_rec_numeral)
  have "key_events (Amtsu (snd (XrKeyboardAction d 1 p m))) = key_events (Amtsu m)"
    using f by (simp add: XrKeyboardAction_def XrKeyboardPop_def Let_def key_events_def key_pending_def [abs_def]
        key_event_def [abs_def] del: upt.simps upt_rec_numeral)
  moreover have "PortAValue (device (snd (XrKeyboardAction d 1 p m)) d) = 0xFFFF"
    using f by (simp add: XrKeyboardAction_def XrKeyboardPop_def Let_def del: upt.simps upt_rec_numeral)
  ultimately show ?thesis using assms by simp
qed

text \<open>
  The keyboard loses no key and invents none: popping scancodes delivers each code
  with an outstanding event once, in the order of the codes, a release marked by bit 15, and then
  \<^verbatim>\<open>0xFFFF\<close> for as long as nothing happens.
\<close>

theorem keyboard_drains:
  "pops (length (key_events (Amtsu m)) + k) d p m = key_events (Amtsu m) @ replicate k 0xFFFF"
proof (induction "key_events (Amtsu m)" arbitrary: m)
  case Nil
  have "key_events (Amtsu m) = [] \<Longrightarrow> pops k d p m = replicate k 0xFFFF"
  proof (induction k arbitrary: m)
    case (Suc k)
    then show ?case using pop_empty [of m d p] by (simp add: Let_def)
  qed simp
  then show ?case using Nil by simp
next
  case (Cons e es)
  then obtain i "is" where f: "filter (key_pending (Amtsu m)) [0..<Suc KEYBDMAXCODE] = i # is"
    and es: "e = key_event (Amtsu m) i" "es = map (key_event (Amtsu m)) is"
    by (auto simp: key_events_def Cons_eq_map_conv simp del: upt.simps upt_rec_numeral)
  let ?m = "snd (XrKeyboardAction d 1 p m)"
  have "key_events (Amtsu ?m) = es" "PortAValue (device ?m d) = e"
    using pop_event [OF f, of d p] es by simp_all
  then show ?case
    using Cons.hyps(1) [of ?m] by (simp add: Let_def Cons.hyps(2) [symmetric])
qed

lemma key_codes: "list_all (\<lambda>(k, c). 0 < c \<and> c \<le> 86) KeyMap"
  by (simp add: KeyMap_def)

lemma key_code_range: "unat (key_entry KeyMap key) - 1 \<le> KEYBDMAXCODE"
proof -
  have "key_entry KeyMap key = 0 \<or> key_entry KeyMap key \<le> 86"
    using key_entry_in [of KeyMap key] key_codes by (auto simp: list_all_iff)
  then show ?thesis by (auto simp: word_le_nat_alt)
qed

lemma interrupt_frame [simp]:
  "Amtsu (machine_interrupt n m) = Amtsu m" "Amtsu (device_interrupt d m) = Amtsu m"
  by (simp_all add: machine_interrupt_def device_interrupt_def split: option.split)

lemma interrupt_no_crash:
  assumes "InterruptNumber (device m d) < 64"
  shows "Crashed (device_interrupt d m) = Crashed m"
proof -
  have "unat (InterruptNumber (device m d)) < 64" using assms by (simp add: word_less_nat_alt)
  moreover have "unat (InterruptNumber (device m d)) = 0 \<longleftrightarrow> InterruptNumber (device m d) = 0"
    by (simp add: unat_eq_0)
  ultimately show ?thesis
    by (simp add: device_interrupt_def machine_interrupt_def LsicInterrupt_def)
qed

text \<open>
  Every key of the table stays inside the key arrays: pressing or releasing any SDL key
  keeps the machine running, makes exactly its code pending, and a key without a code changes
  nothing.
\<close>

theorem keyboard_codes_in_range:
  assumes "\<not> Crashed m" and "InterruptNumber (device m AMTSU_KEYBOARD) < 64"
    and "c = key_entry KeyMap key"
  shows "\<not> Crashed (KeyboardPressed c m) \<and> \<not> Crashed (KeyboardReleased c m) \<and>
    key_pending (Amtsu (KeyboardPressed c m)) =
      (\<lambda>i. c \<noteq> 0 \<and> i = unat c - 1 \<or> key_pending (Amtsu m) i) \<and>
    key_pending (Amtsu (KeyboardReleased c m)) =
      (\<lambda>i. c \<noteq> 0 \<and> i = unat c - 1 \<or> key_pending (Amtsu m) i)"
proof -
  have r: "\<not> unat c - 1 > KEYBDMAXCODE" using key_code_range [of key] assms(3) by simp
  have d: "device (m\<lparr>Amtsu := (Amtsu m)\<lparr>OutstandingPressed := f, Pressed := g\<rparr>\<rparr>) j = device m j"
    "device (m\<lparr>Amtsu := (Amtsu m)\<lparr>OutstandingReleased := f, Pressed := g\<rparr>\<rparr>) j = device m j" for f g j
    by (simp_all add: device_def)
  show ?thesis
    using r assms(1,2)
    by (simp add: KeyboardPressed_def KeyboardReleased_def Let_def interrupt_no_crash d)
      (auto simp: key_pending_def fun_eq_iff)
qed

lemma keyboard_codes_in_range_witness:
  "\<not> Crashed (KeyboardPressed 1 machine_zero) \<and> key_pending (Amtsu (KeyboardPressed 1 machine_zero)) 0"
proof -
  have "InterruptNumber (device machine_zero AMTSU_KEYBOARD) = 0" "\<not> Crashed machine_zero"
    by (simp_all add: machine_zero_def device_def amtsu_zero_def amtsu_device_zero_def)
  moreover have "1 = key_entry KeyMap ''A''" by (simp add: key_entry_def KeyMap_def)
  ultimately show ?thesis using keyboard_codes_in_range [of machine_zero 1 "''A''"] by simp
qed

text \<open>The mouse keeps a movement report across a reset.\<close>

lemma mouse_reset_keeps_report:
  "MouseMovedV (Amtsu (MouseResetDevice d m)) = MouseMovedV (Amtsu m)"
  by (simp add: MouseResetDevice_def set_device_def Let_def)

end
