(* ===== verification/Serial.thy ===== *)
theory Serial
  imports Machine TtyInv
begin

text \<open>
  The serial ports, \<^verbatim>\<open>src/src/serial.c\<close>: a 16-byte transmit buffer that the scheduler drains into
  the terminal, and a 32-byte receive ring that the terminal fills. The \<open>int\<close> indices are
  unbounded here; the receive indices only grow, so this is the C behaviour for the first
  \<open>2 ^ 31\<close> characters. The input and output files are the bytes still to be read and the bytes
  written so far. Port \<open>n\<close> of the C array is \<open>SerialPorts m n\<close>.
\<close>

section \<open>Operations\<close>

abbreviation (input) "TRANSMIT_BUFFER_SIZE \<equiv> 16 :: int"
abbreviation (input) "RECEIVE_BUFFER_SIZE \<equiv> 32 :: int"
abbreviation (input) "ACCUMULATED_COST \<equiv> 50 :: int"
abbreviation (input) "CHARS_PER_SCHEDULE \<equiv> 4 :: int"

definition set_port :: "nat \<Rightarrow> SerialPort \<Rightarrow> Machine \<Rightarrow> Machine" where
  "set_port n port m = m\<lparr>SerialPorts := (SerialPorts m)(n := port)\<rparr>"

definition SerialInput :: "nat \<Rightarrow> u16 \<Rightarrow> Machine \<Rightarrow> Machine" where
  "SerialInput n c m =
    (let port = SerialPorts m n
     in if ReceiveRemaining port = 0 then m
        else
          let port = port\<lparr>ReceiveBuffer := (ReceiveBuffer port)
                       (nat (ReceiveBufferIndex port mod RECEIVE_BUFFER_SIZE) := ucast c),
                     ReceiveBufferIndex := ReceiveBufferIndex port + 1,
                     ReceiveRemaining := ReceiveRemaining port - 1\<rparr>;
              m = set_port n port m
          in if DoInterrupts port then machine_interrupt (4 + n) m else m)"

definition SerialPutCharacter :: "nat \<Rightarrow> u8 \<Rightarrow> Machine \<Rightarrow> Machine" where
  "SerialPutCharacter n c m =
    (case TTYPutCharacter c (SerialTty (SerialPorts m n)) of
       None \<Rightarrow> m\<lparr>Crashed := True\<rparr>
     | Some (tty, out) \<Rightarrow>
         let m = set_port n ((SerialPorts m n)\<lparr>SerialTty := tty\<rparr>) m;
             m = fold (\<lambda>c. SerialInput n (ucast c)) out m;
             port = SerialPorts m n
         in set_port n (port\<lparr>TXFile := map_option (\<lambda>bs. bs @ [c]) (TXFile port)\<rparr>) m)"

definition SerialInterval :: "Machine \<Rightarrow> Machine" where
  "SerialInterval m = fold (\<lambda>n m.
     let port = SerialPorts m n
     in if RXFile port \<noteq> None \<and> DoInterrupts port \<and> RXFile port \<noteq> Some []
        then machine_interrupt (4 + n) m else m) [0, 1] m"

text \<open>The loop of \<open>SerialSchedule\<close> that sends up to \<open>k\<close> characters.\<close>

fun serial_send :: "nat \<Rightarrow> nat \<Rightarrow> Machine \<Rightarrow> Machine" where
  "serial_send n 0 m = m"
| "serial_send n (Suc k) m =
    (let port = SerialPorts m n
     in if SendIndex port < TransmitBufferIndex port then
          let c = TransmitBuffer port (nat (SendIndex port));
              m = set_port n (port\<lparr>SendIndex := SendIndex port + 1\<rparr>) m;
              m = SerialPutCharacter n c m;
              port = SerialPorts m n;
              m = (if SendIndex port = TransmitBufferIndex port then
                     let port = port\<lparr>SendIndex := 0, TransmitBufferIndex := 0, WriteBusy := False\<rparr>;
                         m = set_port n port m
                     in if DoInterrupts port then machine_interrupt (4 + n) m else m
                   else m)
          in serial_send n k m
        else m)"

definition set_timeslice :: "nat \<Rightarrow> int \<Rightarrow> Machine \<Rightarrow> Machine" where
  "set_timeslice w t m = m\<lparr>Sched := (Sched m)\<lparr>Timeslice := (Timeslice (Sched m))(w := t)\<rparr>\<rparr>"

definition serial_work_left :: "SerialPort \<Rightarrow> bool" where
  "serial_work_left port \<longleftrightarrow> SerialCost port \<noteq> 0 \<or> TransmitBufferIndex port - SendIndex port \<noteq> 0"

definition serial_exit :: "nat \<Rightarrow> int \<Rightarrow> Machine \<Rightarrow> Machine" where
  "serial_exit n timeslice m =
    (let w = serial_schedulable n; port = SerialPorts m n;
         m = (if timeslice = 0 \<and> serial_work_left port then
                m\<lparr>Sched := XrScheduleWorkForNextFrame w True (Sched m)\<rparr>
              else if timeslice \<noteq> 0 \<and> serial_work_left port then schedule_for_me w w m
              else set_port n (port\<lparr>SerialEnqueued := False\<rparr>) m)
     in set_timeslice w timeslice m)"

definition SerialSchedule :: "nat \<Rightarrow> Machine \<Rightarrow> Machine" where
  "SerialSchedule n m =
    (let port = SerialPorts m n; ts = Timeslice (Sched m) (serial_schedulable n)
     in if SerialCost port \<noteq> 0 then
          if SerialCost port < ts
          then serial_exit n (ts - SerialCost port) (set_port n (port\<lparr>SerialCost := 0\<rparr>) m)
          else serial_exit n 0 (set_port n (port\<lparr>SerialCost := SerialCost port - ts\<rparr>) m)
        else
          let pending = TransmitBufferIndex port - SendIndex port;
              pending = (if pending > ts then ts else pending);
              pending = (if pending > CHARS_PER_SCHEDULE then CHARS_PER_SCHEDULE else pending)
          in serial_exit n (ts - pending) (serial_send n (nat pending) m))"

definition SerialStartTimeslice :: "int \<Rightarrow> int \<Rightarrow> int" where
  "SerialStartTimeslice dt timeslice = dt"

definition SerialWriteCMD :: CitronWriteF where
  "SerialWriteCMD port value p m =
    (if port \<noteq> 0x10 \<and> port \<noteq> 0x12 then (EBUSERROR, m)
     else let n = (if port = 0x10 then 0 else 1); sp = SerialPorts m n
          in (EBUSSUCCESS,
              if value = 3 then set_port n (sp\<lparr>DoInterrupts := True\<rparr>) m
              else if value = 4 then set_port n (sp\<lparr>DoInterrupts := False\<rparr>) m
              else m))"

definition SerialReadCMD :: CitronReadF where
  "SerialReadCMD port p m =
    (if port \<noteq> 0x10 \<and> port \<noteq> 0x12 then (EBUSERROR, None, m)
     else let n = (if port = 0x10 then 0 else 1); sp = SerialPorts m n
          in (EBUSSUCCESS, Some (if WriteBusy sp then 1 else 0),
              if WriteBusy sp then XrDecrementProgress p (DoInterrupts sp) m else m))"

definition SerialWriteData :: CitronWriteF where
  "SerialWriteData port value p m =
    (if port \<noteq> 0x11 \<and> port \<noteq> 0x13 then (EBUSERROR, m)
     else
       let n = (if port = 0x11 then 0 else 1); sp = SerialPorts m n
       in if (\<not> SerialAsynchronous m \<or> SerialCost sp < ACCUMULATED_COST) \<and> TransmitBufferIndex sp = 0 then
            let m = SerialPutCharacter n (ucast (value AND 0xFF)) m; sp = SerialPorts m n
            in (EBUSSUCCESS, set_port n (sp\<lparr>SerialCost := SerialCost sp + 1\<rparr>) m)
          else if TransmitBufferIndex sp = TRANSMIT_BUFFER_SIZE then (EBUSSUCCESS, m)
          else
            let sp = sp\<lparr>TransmitBuffer := (TransmitBuffer sp)(nat (TransmitBufferIndex sp) := ucast value),
                        TransmitBufferIndex := TransmitBufferIndex sp + 1\<rparr>;
                sp = (if TransmitBufferIndex sp = TRANSMIT_BUFFER_SIZE then sp\<lparr>WriteBusy := True\<rparr> else sp)
            in (EBUSSUCCESS,
                if \<not> SerialEnqueued sp
                then schedule_for_me p (serial_schedulable n) (set_port n (sp\<lparr>SerialEnqueued := True\<rparr>) m)
                else set_port n sp m))"

definition SerialReadData :: CitronReadF where
  "SerialReadData port p m =
    (if port \<noteq> 0x11 \<and> port \<noteq> 0x13 then (EBUSERROR, None, m)
     else
       let n = (if port = 0x11 then 0 else 1); sp = SerialPorts m n
       in case RXFile sp of
            Some (c # cs) \<Rightarrow> (EBUSSUCCESS, Some (ucast c), set_port n (sp\<lparr>RXFile := Some cs\<rparr>) m)
          | _ \<Rightarrow>
              if ReceiveBufferIndex sp - ReceiveIndex sp = 0
              then (EBUSSUCCESS, Some 0xFFFF, XrDecrementProgress p (DoInterrupts sp) m)
              else (EBUSSUCCESS,
                    Some (ucast (ReceiveBuffer sp (nat (ReceiveIndex sp mod RECEIVE_BUFFER_SIZE)))),
                    set_port n (sp\<lparr>ReceiveIndex := ReceiveIndex sp + 1,
                                   ReceiveRemaining := ReceiveRemaining sp + 1\<rparr>) m))"

text \<open>\<open>rx\<close> and \<open>tx\<close>: the files of the command line, used by the second port.\<close>

definition SerialInit :: "nat \<Rightarrow> bool \<Rightarrow> u8 list option \<Rightarrow> bool \<Rightarrow> Machine \<Rightarrow> Machine" where
  "SerialInit n columns132 rx tx m =
    (let tty = (if columns132 then TTYCreate 132 24 else TTYCreate 80 24)
     in set_port n ((SerialPorts m n)\<lparr>ReceiveRemaining := RECEIVE_BUFFER_SIZE, SerialEnqueued := False,
          TXFile := (if n = 1 \<and> tx then Some [] else None), RXFile := (if n = 1 then rx else None),
          SerialTty := tty\<rparr>) (m\<lparr>Sched := XrInitializeSchedulable (serial_schedulable n) (Sched m)\<rparr>))"

definition SerialReset :: "Machine \<Rightarrow> Machine" where
  "SerialReset m = (let m = set_port 0 ((SerialPorts m 0)\<lparr>DoInterrupts := False\<rparr>) m
                    in set_port 1 ((SerialPorts m 1)\<lparr>DoInterrupts := False\<rparr>) m)"

section \<open>The contract of a bounded queue\<close>

text \<open>
  A client that puts and gets may rely on the order and on nothing being lost while there is
  room; a put into a full queue is dropped.
\<close>

fun gets :: "('s \<Rightarrow> 'a option \<times> 's) \<Rightarrow> nat \<Rightarrow> 's \<Rightarrow> 'a option list" where
  "gets get 0 s = []"
| "gets get (Suc n) s = fst (get s) # gets get n (snd (get s))"

locale bounded_queue =
  fixes inv :: "'s \<Rightarrow> bool" and items :: "'s \<Rightarrow> 'a list" and capacity :: nat
    and put :: "'a \<Rightarrow> 's \<Rightarrow> 's" and get :: "'s \<Rightarrow> 'a option \<times> 's"
  assumes put_inv: "inv s \<Longrightarrow> inv (put x s)"
    and put_items: "inv s \<Longrightarrow> items (put x s) = (if length (items s) < capacity then items s @ [x] else items s)"
    and get_inv: "inv s \<Longrightarrow> inv (snd (get s))"
    and get_empty: "inv s \<Longrightarrow> items s = [] \<Longrightarrow> fst (get s) = None \<and> items (snd (get s)) = []"
    and get_first: "inv s \<Longrightarrow> items s = x # xs \<Longrightarrow> fst (get s) = Some x \<and> items (snd (get s)) = xs"
    and bounded: "inv s \<Longrightarrow> length (items s) \<le> capacity"
begin

lemma fold_put:
  "inv s \<Longrightarrow> inv (fold put xs s) \<and> items (fold put xs s) = items s @ take (capacity - length (items s)) xs"
proof (induction xs arbitrary: s)
  case (Cons x xs)
  then show ?case
    using Cons.IH [OF put_inv [OF Cons.prems]] put_items [OF Cons.prems, of x] bounded [OF Cons.prems]
    by (auto simp: take_Cons' Suc_diff_le)
qed simp

lemma gets_items: "inv s \<Longrightarrow> n = length (items s) + k \<Longrightarrow> gets get n s = map Some (items s) @ replicate k None"
proof (induction n arbitrary: s k)
  case (Suc n)
  show ?case
  proof (cases "items s")
    case Nil
    then have "k = Suc n" using Suc.prems(2) by simp
    then show ?thesis
      using Nil Suc.IH [OF get_inv [OF Suc.prems(1)], of n] get_empty [OF Suc.prems(1) Nil] by simp
  next
    case (Cons x xs)
    then show ?thesis
      using Suc.IH [OF get_inv [OF Suc.prems(1)], of k] Suc.prems get_first [OF Suc.prems(1)] by simp
  qed
qed simp

lemma put_then_get:
  assumes "inv s" and "items s = []" and "length xs \<le> capacity"
  shows "gets get (length xs + k) (fold put xs s) = map Some xs @ replicate k None"
  using gets_items [of "fold put xs s" "length xs + k" k] fold_put [OF assms(1), of xs] assms(2,3) by simp

end

section \<open>The receive ring\<close>

definition rx_ok :: "SerialPort \<Rightarrow> bool" where
  "rx_ok port \<longleftrightarrow> 0 \<le> ReceiveIndex port \<and> ReceiveIndex port \<le> ReceiveBufferIndex port \<and>
     ReceiveBufferIndex port - ReceiveIndex port = RECEIVE_BUFFER_SIZE - ReceiveRemaining port \<and>
     0 \<le> ReceiveRemaining port"

definition rx_items :: "SerialPort \<Rightarrow> u8 list" where
  "rx_items port = map (\<lambda>i. ReceiveBuffer port (nat (i mod RECEIVE_BUFFER_SIZE)))
     [ReceiveIndex port..ReceiveBufferIndex port - 1]"

lemma rx_length: "rx_ok port \<Longrightarrow> int (length (rx_items port)) = RECEIVE_BUFFER_SIZE - ReceiveRemaining port"
  by (auto simp: rx_items_def rx_ok_def)

lemma ring_slot_neq:
  assumes "(i :: int) < j" "j - i < 32"
  shows "nat (i mod 32) \<noteq> nat (j mod 32)"
proof
  assume "nat (i mod 32) = nat (j mod 32)"
  then have "i mod 32 = j mod 32" by (simp add: nat_eq_iff)
  then have "32 dvd j - i" by (metis mod_eq_dvd_iff)
  then show False using assms zdvd_not_zless [of "j - i" 32] by simp
qed

definition port_put :: "u16 \<Rightarrow> SerialPort \<Rightarrow> SerialPort" where
  "port_put c port =
    (if ReceiveRemaining port = 0 then port
     else port\<lparr>ReceiveBuffer := (ReceiveBuffer port)
                 (nat (ReceiveBufferIndex port mod RECEIVE_BUFFER_SIZE) := ucast c),
               ReceiveBufferIndex := ReceiveBufferIndex port + 1,
               ReceiveRemaining := ReceiveRemaining port - 1\<rparr>)"

lemma SerialInput_port:
  "SerialPorts (SerialInput n c m) = (SerialPorts m)(n := port_put c (SerialPorts m n))"
  by (auto simp: SerialInput_def port_put_def Let_def set_port_def machine_interrupt_def fun_eq_iff
      split: option.split)

lemma port_put_ok:
  assumes "rx_ok port"
  shows "rx_ok (port_put c port)"
    and "rx_items (port_put c port) =
      (if length (rx_items port) < 32 then rx_items port @ [ucast c] else rx_items port)"
proof -
  show "rx_ok (port_put c port)" using assms by (auto simp: rx_ok_def port_put_def)
  show "rx_items (port_put c port) =
      (if length (rx_items port) < 32 then rx_items port @ [ucast c] else rx_items port)"
  proof (cases "ReceiveRemaining port = 0")
    case True
    then show ?thesis using rx_length [OF assms] by (simp add: port_put_def)
  next
    case False
    let ?j = "ReceiveBufferIndex port" let ?i = "ReceiveIndex port"
    have l: "length (rx_items port) < 32" and b: "?i \<le> ?j" "?j - ?i < 32"
      using False rx_length [OF assms] assms by (simp_all add: rx_ok_def)
    have "[?i..?j] = [?i..?j - 1] @ [?j]" using b(1) by (simp add: upto_rec2)
    moreover have "nat (x mod 32) \<noteq> nat (?j mod 32)" if "x \<in> set [?i..?j - 1]" for x
      using that b(2) by (intro ring_slot_neq) auto
    ultimately show ?thesis using False l by (simp add: port_put_def rx_items_def)
  qed
qed

text \<open>A read of the data port, as long as no input file delivers characters; \<open>None\<close> is \<^verbatim>\<open>0xFFFF\<close>.\<close>

definition rx_get :: "nat \<Rightarrow> nat \<Rightarrow> Machine \<Rightarrow> u8 option \<times> Machine" where
  "rx_get n p m =
    (case SerialReadData (0x11 + 2 * n) p m of
       (_, v, m') \<Rightarrow> (case v of Some c \<Rightarrow> if c = 0xFFFF then None else Some (ucast c) | None \<Rightarrow> None, m'))"

definition rx_inv :: "nat \<Rightarrow> Machine \<Rightarrow> bool" where
  "rx_inv n m \<longleftrightarrow> n < 2 \<and> rx_ok (SerialPorts m n) \<and> RXFile (SerialPorts m n) = None"

lemma Ports_DecrementProgress [simp]: "SerialPorts (XrDecrementProgress p ints m) = SerialPorts m"
  by (simp add: XrDecrementProgress_def Let_def)

lemma rx_get_cases:
  assumes "rx_inv n m"
  shows "rx_inv n (snd (rx_get n p m))"
    and "rx_items (SerialPorts m n) = [] \<Longrightarrow>
      fst (rx_get n p m) = None \<and> rx_items (SerialPorts (snd (rx_get n p m)) n) = []"
    and "rx_items (SerialPorts m n) = c # cs \<Longrightarrow>
      fst (rx_get n p m) = Some c \<and> rx_items (SerialPorts (snd (rx_get n p m)) n) = cs"
proof -
  let ?port = "SerialPorts m n" let ?i = "ReceiveIndex ?port" let ?j = "ReceiveBufferIndex ?port"
  have n: "n = 0 \<or> n = 1" and ok: "rx_ok ?port" and f: "RXFile ?port = None"
    using assms by (auto simp: rx_inv_def)
  have e: "rx_items ?port = [] \<longleftrightarrow> ?j - ?i = 0" using ok by (auto simp: rx_items_def rx_ok_def)
  have c8: "(ucast (b :: u8) :: u32) \<noteq> 0xFFFF" "ucast (ucast (b :: u8) :: u32) = b" for b
  proof -
    have "unat (ucast b :: u32) < 256" using unsigned_less [of b, where 'a = nat] by (simp add: unat_ucast_mod)
    then show "(ucast b :: u32) \<noteq> 0xFFFF" by auto
    show "ucast (ucast b :: u32) = b" by (rule bit_word_eqI) (simp add: bit_simps)
  qed
  have rd: "SerialReadData (0x11 + 2 * n) p m =
    (if ?j - ?i = 0 then (EBUSSUCCESS, Some 0xFFFF, XrDecrementProgress p (DoInterrupts ?port) m)
     else (EBUSSUCCESS, Some (ucast (ReceiveBuffer ?port (nat (?i mod 32)))),
       set_port n (?port\<lparr>ReceiveIndex := ?i + 1, ReceiveRemaining := ReceiveRemaining ?port + 1\<rparr>) m))"
    using n f by (auto simp: SerialReadData_def Let_def)
  have nxt: "rx_ok (?port\<lparr>ReceiveIndex := ?i + 1, ReceiveRemaining := ReceiveRemaining ?port + 1\<rparr>)" if "?j - ?i \<noteq> 0"
    using ok that by (auto simp: rx_ok_def)
  show "rx_inv n (snd (rx_get n p m))"
    using assms nxt by (auto simp: rx_get_def rd rx_inv_def set_port_def)
  show "rx_items ?port = [] \<Longrightarrow> fst (rx_get n p m) = None \<and> rx_items (SerialPorts (snd (rx_get n p m)) n) = []"
    using e by (simp add: rx_get_def rd)
  show "fst (rx_get n p m) = Some c \<and> rx_items (SerialPorts (snd (rx_get n p m)) n) = cs"
    if "rx_items ?port = c # cs"
  proof -
    have ne: "?j - ?i \<noteq> 0" using that e by auto
    then have "[?i..?j - 1] = ?i # [?i + 1..?j - 1]" using ok by (simp add: upto_rec1 rx_ok_def)
    then have "c = ReceiveBuffer ?port (nat (?i mod 32))" "cs = rx_items
        (?port\<lparr>ReceiveIndex := ?i + 1, ReceiveRemaining := ReceiveRemaining ?port + 1\<rparr>)"
      using that by (auto simp: rx_items_def)
    then show ?thesis using ne c8 by (simp add: rx_get_def rd set_port_def)
  qed
qed

lemma rx_bounded_queue:
  "bounded_queue (rx_inv n) (\<lambda>m. rx_items (SerialPorts m n)) 32 (\<lambda>c. SerialInput n (ucast (c :: u8))) (rx_get n p)"
proof
  fix m :: Machine and c :: u8 and xs
  assume inv: "rx_inv n m"
  then have ok: "rx_ok (SerialPorts m n)" by (simp add: rx_inv_def)
  have u: "ucast (ucast c :: u16) = c" by (rule bit_word_eqI) (simp add: bit_simps)
  show "rx_inv n (SerialInput n (ucast c) m)"
    using inv port_put_ok(1) [OF ok] by (simp add: rx_inv_def SerialInput_port) (simp add: port_put_def)
  show "rx_items (SerialPorts (SerialInput n (ucast c) m) n) =
      (if length (rx_items (SerialPorts m n)) < 32 then rx_items (SerialPorts m n) @ [c] else rx_items (SerialPorts m n))"
    using port_put_ok(2) [OF ok, of "ucast c"] u by (simp add: SerialInput_port)
  show "length (rx_items (SerialPorts m n)) \<le> 32" using rx_length [OF ok] ok by (simp add: rx_ok_def)
  show "rx_inv n (snd (rx_get n p m))" by (rule rx_get_cases(1) [OF inv])
qed (use rx_get_cases in blast)+

interpretation rx: bounded_queue "rx_inv n" "\<lambda>m. rx_items (SerialPorts m n)" 32
    "\<lambda>c. SerialInput n (ucast (c :: u8))" "rx_get n p" for n p
  by (rule rx_bounded_queue)

text \<open>
  The receive ring is a queue of 32 characters: whatever arrives, reading the data port
  then returns, in order and once each, the characters that were waiting followed by the new ones
  up to the capacity (later ones are dropped), and after these "nothing there" for ever.
\<close>

theorem serial_receive_fifo:
  assumes "n < 2" and "rx_ok (SerialPorts m n)" and "RXFile (SerialPorts m n) = None"
    and "items = rx_items (SerialPorts m n)"
    and "m' = fold (\<lambda>c. SerialInput n (ucast (c :: u8))) cs m"
    and "expected = items @ take (32 - length items) cs"
  shows "gets (rx_get n p) (length expected + k) m' = map Some expected @ replicate k None"
proof -
  have inv: "rx_inv n m" using assms(1-3) by (simp add: rx_inv_def)
  have "rx_inv n m' \<and> rx_items (SerialPorts m' n) = expected"
    using rx.fold_put [OF inv, of cs] assms(4-6) by simp
  then show ?thesis using rx.gets_items [of n m' "length expected + k" k p] by simp
qed

section \<open>The transmit buffer\<close>

definition tx_ok :: "SerialPort \<Rightarrow> bool" where
  "tx_ok port \<longleftrightarrow> 0 \<le> SendIndex port \<and> SendIndex port \<le> TransmitBufferIndex port \<and>
     TransmitBufferIndex port \<le> TRANSMIT_BUFFER_SIZE \<and>
     (SendIndex port = TransmitBufferIndex port \<longrightarrow> TransmitBufferIndex port = 0) \<and>
     (WriteBusy port \<longleftrightarrow> TransmitBufferIndex port = TRANSMIT_BUFFER_SIZE)"

definition tx_items :: "SerialPort \<Rightarrow> u8 list" where
  "tx_items port = map (\<lambda>i. TransmitBuffer port (nat i)) [SendIndex port..TransmitBufferIndex port - 1]"

text \<open>Everything accepted so far: what has been sent, then what still waits.\<close>

definition tx_stream :: "SerialPort \<Rightarrow> u8 list" where
  "tx_stream port = (case TXFile port of Some sent \<Rightarrow> sent | None \<Rightarrow> []) @ tx_items port"

definition serial_inv :: "nat \<Rightarrow> Machine \<Rightarrow> bool" where
  "serial_inv n m \<longleftrightarrow> n < 2 \<and> tx_ok (SerialPorts m n) \<and> tty_inv (SerialTty (SerialPorts m n)) \<and>
     TXFile (SerialPorts m n) \<noteq> None \<and> \<not> Crashed m"

text \<open>The transmit side of a port, which the receive side never touches.\<close>

definition tx_side :: "SerialPort \<Rightarrow> _" where
  "tx_side port = (TransmitBuffer port, TransmitBufferIndex port, SendIndex port, SerialCost port,
     WriteBusy port, DoInterrupts port, SerialTty port, TXFile port)"

lemma SerialInput_tx: "tx_side (SerialPorts (SerialInput n c m) n) = tx_side (SerialPorts m n)"
  by (simp add: SerialInput_port port_put_def tx_side_def)

lemma interrupt_fine: "n < 2 \<Longrightarrow> Crashed (machine_interrupt (4 + n) m) = Crashed m"
  by (simp add: machine_interrupt_def LsicInterrupt_def)

lemma interrupt_ports [simp]: "SerialPorts (machine_interrupt k m) = SerialPorts m"
  "SerialAsynchronous (machine_interrupt k m) = SerialAsynchronous m"
  by (simp_all add: machine_interrupt_def split: option.split)

lemma SerialInput_fine: "n < 2 \<Longrightarrow> Crashed (SerialInput n c m) = Crashed m"
  by (simp add: SerialInput_def Let_def interrupt_fine set_port_def)

lemma fold_input:
  "n < 2 \<Longrightarrow> tx_side (SerialPorts (fold (\<lambda>c. SerialInput n (f c)) out m) n) = tx_side (SerialPorts m n) \<and>
     Crashed (fold (\<lambda>c. SerialInput n (f c)) out m) = Crashed m"
  by (induction out arbitrary: m) (simp_all add: SerialInput_tx SerialInput_fine)

lemma PutCharacter_port:
  assumes n: "n < 2" and "tty_inv (SerialTty (SerialPorts m n))" and "\<not> Crashed m"
  shows "\<exists>tty. tty_inv tty \<and> \<not> Crashed (SerialPutCharacter n c m) \<and>
    tx_side (SerialPorts (SerialPutCharacter n c m) n) =
      tx_side ((SerialPorts m n)\<lparr>SerialTty := tty, TXFile := map_option (\<lambda>bs. bs @ [c]) (TXFile (SerialPorts m n))\<rparr>)"
proof -
  obtain tty out where t: "TTYPutCharacter c (SerialTty (SerialPorts m n)) = Some (tty, out)" "tty_inv tty"
    using PutCharacter_good [of "SerialTty (SerialPorts m n)" c] assms by (auto simp: tty_good_def serial_inv_def)
  let ?m1 = "set_port n ((SerialPorts m n)\<lparr>SerialTty := tty\<rparr>) m"
  have f: "tx_side (SerialPorts (fold (\<lambda>c. SerialInput n (ucast c)) out ?m1) n) = tx_side (SerialPorts ?m1 n)"
    "\<not> Crashed (fold (\<lambda>c. SerialInput n (ucast c)) out ?m1)"
    using fold_input [OF n, of ucast out ?m1] assms by (simp_all add: serial_inv_def set_port_def)
  then show ?thesis
    using t by (intro exI [of _ tty]) (simp add: SerialPutCharacter_def Let_def set_port_def tx_side_def)
qed

lemmas tx_fields = tx_side_def tx_ok_def tx_items_def tx_stream_def serial_inv_def

lemma tx_side_eqD:
  assumes "tx_side port = tx_side port'"
  shows "TransmitBuffer port = TransmitBuffer port'" "TransmitBufferIndex port = TransmitBufferIndex port'"
    "SendIndex port = SendIndex port'" "WriteBusy port = WriteBusy port'" "SerialTty port = SerialTty port'"
    "TXFile port = TXFile port'" "DoInterrupts port = DoInterrupts port'" "SerialCost port = SerialCost port'"
  using assms by (simp_all add: tx_side_def)

lemma send_one:
  assumes inv: "serial_inv n m" and lt: "SendIndex (SerialPorts m n) < TransmitBufferIndex (SerialPorts m n)"
  shows "\<exists>m'. serial_send n (Suc k) m = serial_send n k m' \<and> serial_inv n m' \<and>
    tx_stream (SerialPorts m' n) = tx_stream (SerialPorts m n)"
proof -
  let ?port = "SerialPorts m n" let ?i = "SendIndex ?port" let ?j = "TransmitBufferIndex ?port"
  let ?c = "TransmitBuffer ?port (nat ?i)"
  let ?m1 = "set_port n (?port\<lparr>SendIndex := ?i + 1\<rparr>) m"
  have n: "n < 2" and ok: "tx_ok ?port" and tty: "tty_inv (SerialTty ?port)"
    and tx: "TXFile ?port \<noteq> None" and nc: "\<not> Crashed m"
    using inv by (simp_all add: serial_inv_def)
  obtain log where log: "TXFile ?port = Some log" using tx by blast
  obtain t where t: "tty_inv t" "\<not> Crashed (SerialPutCharacter n ?c ?m1)"
    "tx_side (SerialPorts (SerialPutCharacter n ?c ?m1) n) = tx_side (?port\<lparr>SendIndex := ?i + 1, SerialTty := t,
       TXFile := Some (log @ [?c])\<rparr>)"
    using PutCharacter_port [OF n, of ?m1 ?c] tty nc log by (auto simp: set_port_def)
  let ?m2 = "SerialPutCharacter n ?c ?m1" let ?p2 = "SerialPorts ?m2 n"
  note f = tx_side_eqD [OF t(3), simplified]
  let ?done = "?p2\<lparr>SendIndex := 0, TransmitBufferIndex := 0, WriteBusy := False\<rparr>"
  define m3 where "m3 = (if SendIndex ?p2 = TransmitBufferIndex ?p2 then
      (let m = set_port n ?done ?m2 in if DoInterrupts ?done then machine_interrupt (4 + n) m else m) else ?m2)"
  have step: "serial_send n (Suc k) m = serial_send n k m3"
    using lt by (simp add: m3_def Let_def)
  have rest: "[?i..?j - 1] = ?i # [?i + 1..?j - 1]" using lt by (simp add: upto_rec1)
  have c3: "\<not> Crashed m3" using t(2) n by (simp add: m3_def Let_def set_port_def interrupt_fine)
  show ?thesis
  proof (cases "?i + 1 = ?j")
    case True
    then have "SerialPorts m3 n = ?done" using f by (simp add: m3_def Let_def set_port_def)
    moreover have "tx_stream ?done = tx_stream ?port"
      using True f log rest by (simp add: tx_stream_def tx_items_def)
    moreover have "tx_ok ?done" by (simp add: tx_ok_def)
    moreover have "tty_inv (SerialTty ?done)" "TXFile ?done \<noteq> None" using f t(1) by simp_all
    ultimately show ?thesis using step c3 n by (intro exI [of _ m3]) (simp add: serial_inv_def)
  next
    case False
    then have "m3 = ?m2" using f by (simp add: m3_def)
    moreover have "tx_stream ?p2 = tx_stream ?port" using f log rest by (simp add: tx_stream_def tx_items_def)
    moreover have "tx_ok ?p2" using False lt ok f by (simp add: tx_ok_def)
    moreover have "tty_inv (SerialTty ?p2)" "TXFile ?p2 \<noteq> None" using f t(1) by simp_all
    ultimately show ?thesis using step c3 n by (intro exI [of _ m3]) (simp add: serial_inv_def)
  qed
qed

lemma send_keeps:
  "serial_inv n m \<Longrightarrow> serial_inv n (serial_send n k m) \<and>
     tx_stream (SerialPorts (serial_send n k m) n) = tx_stream (SerialPorts m n)"
proof (induction k arbitrary: m)
  case (Suc k)
  show ?case
  proof (cases "SendIndex (SerialPorts m n) < TransmitBufferIndex (SerialPorts m n)")
    case True
    then show ?thesis using send_one [OF Suc.prems True, of k] Suc.IH by auto
  next
    case False
    then show ?thesis using Suc.prems by (simp add: Let_def)
  qed
qed simp

text \<open>The running port has been popped by some thread, so its preferred thread is not null.\<close>

definition port_scheduled :: "nat \<Rightarrow> Machine \<Rightarrow> bool" where
  "port_scheduled n m \<longleftrightarrow> PreferredThread (Sched m) (serial_schedulable n) \<noteq> None"

lemma schedule_for_me_fine:
  assumes "PreferredThread (Sched m) after \<noteq> None"
  shows "Crashed (schedule_for_me after w m) = Crashed m" "SerialPorts (schedule_for_me after w m) = SerialPorts m"
  using assms by (auto simp: schedule_for_me_def XrScheduleWorkForMe_def split: option.split)

lemma exit_keeps:
  assumes "serial_inv n m" and "port_scheduled n m"
  shows "serial_inv n (serial_exit n ts m) \<and>
    tx_stream (SerialPorts (serial_exit n ts m) n) = tx_stream (SerialPorts m n)"
  using assms schedule_for_me_fine [of m "serial_schedulable n" "serial_schedulable n"]
  by (auto simp: serial_exit_def Let_def set_timeslice_def set_port_def port_scheduled_def tx_fields)

lemma Sched_frame [simp]:
  "Sched (machine_interrupt k m) = Sched m" "Sched (set_port n port m) = Sched m"
  "Sched (SerialInput n c m) = Sched m" "Sched (SerialPutCharacter n b m) = Sched m"
  "Sched (serial_send n j m) = Sched m"
proof -
  show 1: "Sched (machine_interrupt k m) = Sched m" for m k
    by (simp add: machine_interrupt_def split: option.split)
  show 2: "Sched (set_port n port m) = Sched m" for n port m by (simp add: set_port_def)
  show 3: "Sched (SerialInput n c m) = Sched m" for n c m by (simp add: SerialInput_def Let_def 1 2)
  have 4: "Sched (fold (\<lambda>c. SerialInput n (f c)) out m) = Sched m" for n f out m
    by (induction out arbitrary: m) (simp_all add: 3)
  show 5: "Sched (SerialPutCharacter n b m) = Sched m" for n b m
    by (simp add: SerialPutCharacter_def Let_def 2 4 split: option.split)
  show "Sched (serial_send n j m) = Sched m"
    by (induction n j m rule: serial_send.induct) (simp_all add: Let_def 1 2 5)
qed

lemma write_keeps:
  assumes inv: "serial_inv n m" and sch: "PreferredThread (Sched m) p \<noteq> None"
    and w: "SerialWriteData (0x11 + 2 * n) value p m = (s, m1)"
  shows "s = EBUSSUCCESS \<and> serial_inv n m1 \<and>
    tx_stream (SerialPorts m1 n) =
      (if WriteBusy (SerialPorts m n) then tx_stream (SerialPorts m n)
       else tx_stream (SerialPorts m n) @ [ucast value])"
proof -
  let ?port = "SerialPorts m n" let ?i = "SendIndex ?port" let ?j = "TransmitBufferIndex ?port"
  have n: "n < 2" and ok: "tx_ok ?port" and tty: "tty_inv (SerialTty ?port)"
    and tx: "TXFile ?port \<noteq> None" and nc: "\<not> Crashed m"
    using inv by (simp_all add: serial_inv_def)
  have port: "0x11 + 2 * n = 0x11 \<and> n = 0 \<or> 0x11 + 2 * n = 0x13 \<and> n = 1" using n by auto
  have m8: "(0xFF :: u32) = mask 8" by (simp add: mask_eq_exp_minus_1)
  have b: "(ucast (value AND 0xFF) :: u8) = ucast value"
    unfolding m8 by (rule bit_word_eqI) (simp add: bit_simps)
  obtain log where log: "TXFile ?port = Some log" using tx by blast
  consider (direct) "\<not> SerialAsynchronous m \<or> SerialCost ?port < 50" "?j = 0"
    | (full) "?j = 16" | (buffer) "?j \<noteq> 16" "\<not> ((\<not> SerialAsynchronous m \<or> SerialCost ?port < 50) \<and> ?j = 0)"
    by linarith
  then show ?thesis
  proof cases
    case direct
    let ?m = "SerialPutCharacter n (ucast value) m"
    obtain t where t: "tty_inv t" "\<not> Crashed ?m"
      "tx_side (SerialPorts ?m n) = tx_side (?port\<lparr>SerialTty := t, TXFile := Some (log @ [ucast value])\<rparr>)"
      using PutCharacter_port [OF n tty nc, of "ucast value"] log by auto
    note f = tx_side_eqD [OF t(3), simplified]
    have r: "s = EBUSSUCCESS" "m1 = set_port n ((SerialPorts ?m n)\<lparr>SerialCost := SerialCost (SerialPorts ?m n) + 1\<rparr>) ?m"
      using w direct port b by (auto simp: SerialWriteData_def Let_def)
    have i: "?i = 0" "\<not> WriteBusy ?port" using ok direct by (simp_all add: tx_ok_def)
    show ?thesis
      using r f t(1,2) i direct ok n log by (simp add: tx_fields set_port_def)
  next
    case full
    then have "m1 = m" "s = EBUSSUCCESS" using w port by (auto simp: SerialWriteData_def Let_def)
    then show ?thesis using full ok inv by (simp add: tx_ok_def)
  next
    case buffer
    let ?p1 = "?port\<lparr>TransmitBuffer := (TransmitBuffer ?port)(nat ?j := ucast value), TransmitBufferIndex := ?j + 1\<rparr>"
    let ?p2 = "if ?j + 1 = 16 then ?p1\<lparr>WriteBusy := True\<rparr> else ?p1"
    have r: "s = EBUSSUCCESS" "m1 = (if SerialEnqueued ?port then set_port n ?p2 m
        else schedule_for_me p (serial_schedulable n) (set_port n (?p2\<lparr>SerialEnqueued := True\<rparr>) m))"
      using w buffer port by (auto simp: SerialWriteData_def Let_def)
    have bd: "0 \<le> ?i" "?i \<le> ?j" "?j < 16" "\<not> WriteBusy ?port" using ok buffer(1) by (auto simp: tx_ok_def)
    have "[?i..?j] = [?i..?j - 1] @ [?j]" using bd by (simp add: upto_rec2)
    then have items: "tx_items ?p2 = tx_items ?port @ [ucast value]"
      using bd by (auto simp: tx_items_def)
    have ok2: "tx_ok ?p2" using ok bd by (auto simp: tx_ok_def)
    define q where "q = ?p2"
    have p2: "SerialPorts m1 n = q \<or> SerialPorts m1 n = q\<lparr>SerialEnqueued := True\<rparr>" "\<not> Crashed m1"
    proof -
      have f: "SerialPorts (schedule_for_me p (serial_schedulable n) (set_port n (q\<lparr>SerialEnqueued := True\<rparr>) m)) n =
          q\<lparr>SerialEnqueued := True\<rparr>"
        "\<not> Crashed (schedule_for_me p (serial_schedulable n) (set_port n (q\<lparr>SerialEnqueued := True\<rparr>) m))"
        using schedule_for_me_fine [of "set_port n (q\<lparr>SerialEnqueued := True\<rparr>) m" p] sch nc
        by (simp_all add: set_port_def)
      have g: "SerialPorts (set_port n q m) n = q" "\<not> Crashed (set_port n q m)"
        using nc by (simp_all add: set_port_def)
      show "SerialPorts m1 n = q \<or> SerialPorts m1 n = q\<lparr>SerialEnqueued := True\<rparr>" "\<not> Crashed m1"
        unfolding r(2) q_def [symmetric] using f g by (simp_all split: if_split)
    qed
    have q: "tx_items q = tx_items ?port @ [ucast value]" "tx_ok q" "SerialTty q = SerialTty ?port" "TXFile q = Some log"
      using items ok2 log by (simp_all add: q_def)
    have "tx_stream (SerialPorts m1 n) = tx_stream ?port @ [ucast value]" "tx_ok (SerialPorts m1 n)"
      "tty_inv (SerialTty (SerialPorts m1 n))" "TXFile (SerialPorts m1 n) \<noteq> None"
      using p2(1) q tty log by (auto simp: tx_stream_def tx_items_def tx_ok_def)
    then show ?thesis using r(1) p2(2) bd n by (simp add: serial_inv_def)
  qed
qed

lemma schedule_keeps:
  assumes inv: "serial_inv n m" and sch: "port_scheduled n m"
  shows "serial_inv n (SerialSchedule n m) \<and> tx_stream (SerialPorts (SerialSchedule n m) n) = tx_stream (SerialPorts m n)"
proof -
  have cost: "serial_inv n (set_port n ((SerialPorts m n)\<lparr>SerialCost := c\<rparr>) m)"
    "tx_stream (SerialPorts (set_port n ((SerialPorts m n)\<lparr>SerialCost := c\<rparr>) m) n) = tx_stream (SerialPorts m n)"
    "port_scheduled n (set_port n ((SerialPorts m n)\<lparr>SerialCost := c\<rparr>) m)" for c
    using assms by (simp_all add: tx_fields set_port_def port_scheduled_def)
  have send: "serial_inv n (serial_send n k m)" "tx_stream (SerialPorts (serial_send n k m) n) = tx_stream (SerialPorts m n)"
    "port_scheduled n (serial_send n k m)" for k
    using send_keeps [OF inv, of k] sch by (simp_all add: port_scheduled_def)
  show ?thesis
    using exit_keeps [OF cost(1) cost(3)] cost(2) exit_keeps [OF send(1) send(3)] send(2)
    by (simp add: SerialSchedule_def Let_def)
qed


section \<open>Sample machine\<close>

definition serial_sample :: Machine where
  "serial_sample = (SerialInit 1 False None True machine_zero)\<lparr>Sched := sched_start\<lparr>PreferredThread := (\<lambda>_. Some 0)\<rparr>\<rparr>"

lemma serial_sample_port:
  "SerialPorts serial_sample 1 = serial_zero\<lparr>ReceiveRemaining := 32, TXFile := Some [], SerialTty := TTYCreate 80 24\<rparr>"
  by (simp add: serial_sample_def SerialInit_def set_port_def machine_zero_def serial_zero_def)

lemma serial_sample_ok: "serial_inv 1 serial_sample" "port_scheduled 1 serial_sample"
  "PreferredThread (Sched serial_sample) 0 \<noteq> None" "rx_ok (SerialPorts serial_sample 1)"
  "RXFile (SerialPorts serial_sample 1) = None" "rx_items (SerialPorts serial_sample 1) = []"
  "\<not> WriteBusy (SerialPorts serial_sample 1)" "tx_stream (SerialPorts serial_sample 1) = []"
  using sample_80_24(1)
  by (simp_all add: serial_inv_def serial_sample_port tx_ok_def serial_zero_def rx_ok_def port_scheduled_def rx_items_def
      tx_stream_def tx_items_def)
    (simp_all add: serial_sample_def SerialInit_def set_port_def machine_zero_def serial_zero_def)

lemma serial_receive_fifo_witness:
  "gets (rx_get 1 0) 3 (fold (\<lambda>c. SerialInput 1 (ucast (c :: u8))) [72, 105] serial_sample) = [Some 72, Some 105, None]"
  using serial_receive_fifo [OF _ serial_sample_ok(4,5) refl refl refl, where cs = "[72, 105]" and k = 1 and p = 0] serial_sample_ok(6)
  by (simp add: numeral_3_eq_3)


end
