(* ===== verification/KinnowFb.thy ===== *)
theory KinnowFb
  imports Machine TtyInv
begin

text \<open>
  The framebuffer board, \<^verbatim>\<open>src/src/kinnowfb.c\<close>, behind bus branch 24: registers, palette and video
  memory of 1024 by 768 pixels of one byte, with the rectangle that the next redraw covers. A read
  returns the bytes stored for the caller; \<open>Crashed\<close> records an access outside an array.
\<close>

section \<open>Operations\<close>

abbreviation (input) "FB_WIDTH \<equiv> 1024 :: u32"
abbreviation (input) "FB_HEIGHT \<equiv> 768 :: u32"

definition u32_at :: "u8 list \<Rightarrow> u32" where
  "u32_at src = u32_of_bytes (take 4 src)"

definition set_kinnow :: "KinnowState \<Rightarrow> Machine \<Rightarrow> Machine" where
  "set_kinnow k m = m\<lparr>Kinnow := k\<rparr>"

definition KinnowMarkDirty :: "u32 \<Rightarrow> nat \<Rightarrow> KinnowState \<Rightarrow> KinnowState" where
  "KinnowMarkDirty address len k =
    (let pix = address; x = pix mod FB_WIDTH; y = pix div FB_WIDTH;
         pix1 = address + of_nat len - 1; x1 = pix1 mod FB_WIDTH; y1 = pix1 div FB_WIDTH
     in k\<lparr>FBIsDirty := True,
          DirtyRectX1 := (if x < DirtyRectX1 k then x else DirtyRectX1 k),
          DirtyRectY1 := (if y < DirtyRectY1 k then y else DirtyRectY1 k),
          DirtyRectX2 := (if DirtyRectX2 k < x1 then x1 else DirtyRectX2 k),
          DirtyRectY2 := (if DirtyRectY2 k < y1 then y1 else DirtyRectY2 k)\<rparr>)"

definition KinnowWrite :: "u32 \<Rightarrow> u8 list \<Rightarrow> nat \<Rightarrow> Machine \<Rightarrow> EBusSuccess \<times> Machine" where
  "KinnowWrite address src len m =
    (let k = Kinnow m
     in if 0x3000 \<le> address \<and> address < 0x3100 then
          (EBUSSUCCESS, set_kinnow (k\<lparr>KinnowRegisters :=
             (KinnowRegisters k)(unat ((address - 0x3000) div 4) := u32_at src)\<rparr>) m)
        else if 0x4000 \<le> address \<and> address < 0x4400 then
          (EBUSSUCCESS, set_kinnow (k\<lparr>KinnowPalette :=
             (KinnowPalette k)(unat ((address - 0x4000) div 4) := u32_at src), FBIsDirty := True,
             DirtyRectX1 := 0, DirtyRectY1 := 0, DirtyRectX2 := FB_WIDTH - 1, DirtyRectY2 := FB_HEIGHT - 1\<rparr>) m)
        else if 0x100000 \<le> address then
          let address = address - 0x100000
          in if address + of_nat len > FBSize k then (EBUSERROR, m)
             else let k = KinnowMarkDirty address len k
                  in (EBUSSUCCESS, set_kinnow (k\<lparr>KinnowFB := CopyWithLength (KinnowFB k) (unat address) src len\<rparr>) m)
        else (EBUSERROR, m))"

definition KinnowRead :: "u32 \<Rightarrow> nat \<Rightarrow> Machine \<Rightarrow> EBusSuccess \<times> u8 list \<times> Machine" where
  "KinnowRead address len m =
    (let k = Kinnow m
     in if address < 0x100 then
          (EBUSSUCCESS, peek (SlotInfo k) (unat address) len,
           if unat address + len > 256 then m\<lparr>Crashed := True\<rparr> else m)
        else if 0x3000 \<le> address \<and> address < 0x3100 then
          (EBUSSUCCESS, bytes_of_u32 (KinnowRegisters k (unat ((address - 0x3000) div 4))), m)
        else if 0x100000 \<le> address then
          let address = address - 0x100000
          in if address + of_nat len > FBSize k then (EBUSERROR, [], m)
             else (EBUSSUCCESS, peek (KinnowFB k) (unat address) len, m)
        else (EBUSERROR, [], m))"

text \<open>
  The redraw: the origin and the size of the rectangle handed to SDL with its pixels, row by row
  (\<open>None\<close>: nothing to do), and the state with the rectangle reset. The captured
  coordinates are \<open>int\<close>.
\<close>

definition KinnowDraw :: "KinnowState \<Rightarrow> (int \<times> int \<times> int \<times> int \<times> u32 list) option \<times> KinnowState" where
  "KinnowDraw k =
    (if \<not> FBIsDirty k then (None, k)
     else
       let x1 = sint (DirtyRectX1 k); x2 = sint (DirtyRectX2 k);
           y1 = sint (DirtyRectY1 k); y2 = sint (DirtyRectY2 k);
           width = x2 - x1 + 1; height = y2 - y1 + 1;
           addr = nat (y1 * 1024 + x1)
       in (Some (x1, y1, width, height,
                 concat (map (\<lambda>y. map (\<lambda>x. KinnowPalette k (unat (KinnowFB k (addr + 1024 * y + x))))
                                    [0..<nat width]) [0..<nat height])),
           k\<lparr>DirtyRectX1 := - 1, DirtyRectX2 := 0, DirtyRectY1 := - 1, DirtyRectY2 := 0, FBIsDirty := False\<rparr>))"

definition slot_info_init :: bytes where
  "slot_info_init = (\<lambda>i. if i < 24 then
     [0xA1, 0x7C, 0x00, 0x0C, 0x36, 0x4E, 0x49, 0x4B,
      107, 105, 110, 110, 111, 119, 102, 98, 44, 56, 0, 0, 0, 0, 0, 0] ! i else 0)"

definition KinnowInit :: "Machine \<Rightarrow> Machine" where
  "KinnowInit m = (let k = Kinnow m in set_kinnow (k\<lparr>KinnowPresent := True, FBSize := FB_WIDTH * FB_HEIGHT,
     KinnowFB := (\<lambda>_. 0), SlotInfo := slot_info_init,
     KinnowRegisters := (KinnowRegisters k)(0 := push_bit 12 FB_HEIGHT OR FB_WIDTH, 1 := FB_WIDTH * FB_HEIGHT, 8 := 1)\<rparr>) m)"

section \<open>The dirty rectangle\<close>

text \<open>A rectangle on the screen, with the reset values \<open>-1\<close> and \<open>0\<close> only while nothing is dirty.\<close>

definition fb_rect_ok :: "KinnowState \<Rightarrow> bool" where
  "fb_rect_ok k \<longleftrightarrow> FBSize k = FB_WIDTH * FB_HEIGHT \<and> DirtyRectX2 k < FB_WIDTH \<and> DirtyRectY2 k < FB_HEIGHT \<and>
     (FBIsDirty k \<longrightarrow> DirtyRectX1 k < FB_WIDTH \<and> DirtyRectY1 k < FB_HEIGHT)"

text \<open>The pixels a redraw refreshes.\<close>

definition redrawn :: "KinnowState \<Rightarrow> nat \<Rightarrow> bool" where
  "redrawn k i \<longleftrightarrow> FBIsDirty k \<and> unat (DirtyRectX1 k) \<le> i mod 1024 \<and> i mod 1024 \<le> unat (DirtyRectX2 k) \<and>
     unat (DirtyRectY1 k) \<le> i div 1024 \<and> i div 1024 \<le> unat (DirtyRectY2 k)"

lemma unat_min_max: "unat (min a b :: u32) = min (unat a) (unat b)" "unat (max a b :: u32) = max (unat a) (unat b)"
  by (cases "a \<le> b"; simp add: min_def max_def word_le_nat_alt)+

lemma row_col:
  fixes q r :: nat
  assumes "r < 1024"
  shows "(q * 1024 + r) div 1024 = q" and "(q * 1024 + r) mod 1024 = r"
proof -
  have c: "q * 1024 + r = r + 1024 * q" by (simp add: mult.commute)
  show "(q * 1024 + r) div 1024 = q" unfolding c using assms by (subst div_mult_self2) simp_all
  show "(q * 1024 + r) mod 1024 = r" unfolding c using assms by (subst mod_mult_self2) simp
qed

lemma same_row:
  fixes a i :: nat
  assumes "a \<le> i" "i < a + len" "a mod 1024 + len \<le> 1024"
  shows "i div 1024 = a div 1024" and "i mod 1024 = a mod 1024 + (i - a)"
proof -
  have "i = (a div 1024) * 1024 + (a mod 1024 + (i - a))" using assms(1) by simp
  moreover have "a mod 1024 + (i - a) < 1024" using assms by linarith
  ultimately show "i div 1024 = a div 1024" "i mod 1024 = a mod 1024 + (i - a)"
    using row_col by metis+
qed

lemma mark_dirty_ok:
  assumes "fb_rect_ok k" "unat a + len \<le> 786432" "0 < len"
  shows "fb_rect_ok (KinnowMarkDirty a len k)"
    and "\<And>i. redrawn k i \<Longrightarrow> redrawn (KinnowMarkDirty a len k) i"
    and "\<And>i. unat a \<le> i \<Longrightarrow> i < unat a + len \<Longrightarrow> unat a mod 1024 + len \<le> 1024 \<Longrightarrow>
      redrawn (KinnowMarkDirty a len k) i"
proof -
  let ?k = "KinnowMarkDirty a len k"
  define b where "b = a + of_nat len - 1"
  have b: "unat b = unat a + len - 1"
  proof -
    have "a + of_nat len - 1 = of_nat (unat a + len - 1)" using assms(3) by (simp add: of_nat_diff)
    then show ?thesis using assms(2) unfolding b_def by (simp add: unat_of_nat)
  qed
  have u: "unat (a mod FB_WIDTH) = unat a mod 1024" "unat (a div FB_WIDTH) = unat a div 1024"
    "unat (b mod FB_WIDTH) = (unat a + len - 1) mod 1024" "unat (b div FB_WIDTH) = (unat a + len - 1) div 1024"
    by (simp_all add: unat_mod unat_div b)
  have lt: "a mod FB_WIDTH < FB_WIDTH" "b mod FB_WIDTH < FB_WIDTH" "a div FB_WIDTH < FB_HEIGHT" "b div FB_WIDTH < FB_HEIGHT"
    using assms(2,3) by (simp_all add: word_less_nat_alt u)
  have e: "?k = k\<lparr>FBIsDirty := True, DirtyRectX1 := min (a mod FB_WIDTH) (DirtyRectX1 k),
      DirtyRectY1 := min (a div FB_WIDTH) (DirtyRectY1 k), DirtyRectX2 := max (b mod FB_WIDTH) (DirtyRectX2 k),
      DirtyRectY2 := max (b div FB_WIDTH) (DirtyRectY2 k)\<rparr>"
    unfolding KinnowMarkDirty_def Let_def b_def by (auto simp: min_def max_def not_less)
  show "fb_rect_ok ?k" using assms(1) lt by (simp add: e fb_rect_ok_def min_less_iff_disj)
  show "redrawn ?k i" if "redrawn k i" for i
    using that unfolding redrawn_def e by (simp add: unat_min_max min_le_iff_disj le_max_iff_disj)
  show "redrawn ?k i" if "unat a \<le> i" "i < unat a + len" "unat a mod 1024 + len \<le> 1024" for i
  proof -
    have l: "unat a \<le> unat a + len - 1" "unat a + len - 1 < unat a + len" using assms(3) by linarith+
    have "i div 1024 = unat a div 1024" "(unat a + len - 1) div 1024 = unat a div 1024"
      using same_row(1) [OF that] same_row(1) [OF l that(3)] by blast+
    moreover have "unat a mod 1024 \<le> i mod 1024" "i mod 1024 \<le> (unat a + len - 1) mod 1024"
      using same_row(2) [OF that] same_row(2) [OF l that(3)] that(1,2) by linarith+
    ultimately show ?thesis
      unfolding redrawn_def e by (simp add: u unat_min_max min_le_iff_disj le_max_iff_disj)
  qed
qed

lemma draw_inside:
  assumes "fb_rect_ok k" "FBIsDirty k"
    and "x < nat (sint (DirtyRectX2 k) - sint (DirtyRectX1 k) + 1)"
    and "y < nat (sint (DirtyRectY2 k) - sint (DirtyRectY1 k) + 1)"
  shows "nat (sint (DirtyRectY1 k) * 1024 + sint (DirtyRectX1 k)) + 1024 * y + x < 786432"
    and "redrawn k (nat (sint (DirtyRectY1 k) * 1024 + sint (DirtyRectX1 k)) + 1024 * y + x)"
proof -
  let ?x1 = "unat (DirtyRectX1 k)" let ?x2 = "unat (DirtyRectX2 k)"
  let ?y1 = "unat (DirtyRectY1 k)" let ?y2 = "unat (DirtyRectY2 k)"
  have lt: "?x1 < 1024" "?x2 < 1024" "?y1 < 768" "?y2 < 768"
    using assms(1,2) by (simp_all add: fb_rect_ok_def word_less_nat_alt)
  have s: "sint w = int (unat w)" if "unat w < 1024" for w :: u32
    using sint_small [of w] that by simp
  have e: "nat (sint (DirtyRectY1 k) * 1024 + sint (DirtyRectX1 k)) = ?y1 * 1024 + ?x1"
  proof -
    have "sint (DirtyRectY1 k) * 1024 + sint (DirtyRectX1 k) = int (?y1 * 1024 + ?x1)"
      using s [of "DirtyRectY1 k"] s [of "DirtyRectX1 k"] lt(1,3) by (simp del: of_nat_unat)
    then show ?thesis by (simp only: nat_int)
  qed
  have b: "?x1 + x \<le> ?x2" "?y1 + y \<le> ?y2"
    using assms(3,4) s [of "DirtyRectY1 k"] s [of "DirtyRectX1 k"] s [of "DirtyRectY2 k"] s [of "DirtyRectX2 k"] lt
    by linarith+
  have i: "nat (sint (DirtyRectY1 k) * 1024 + sint (DirtyRectX1 k)) + 1024 * y + x = (?y1 + y) * 1024 + (?x1 + x)"
    using e by simp
  show "nat (sint (DirtyRectY1 k) * 1024 + sint (DirtyRectX1 k)) + 1024 * y + x < 786432"
  proof -
    have "(?y1 + y) * 1024 \<le> 767 * 1024" using b(2) lt(4) by (intro mult_le_mono) simp_all
    then show ?thesis unfolding i using b(1) lt(2) by linarith
  qed
  have "((?y1 + y) * 1024 + (?x1 + x)) div 1024 = ?y1 + y" "((?y1 + y) * 1024 + (?x1 + x)) mod 1024 = ?x1 + x"
    using b(1) lt(2) by (intro row_col, linarith)+
  then show "redrawn k (nat (sint (DirtyRectY1 k) * 1024 + sint (DirtyRectX1 k)) + 1024 * y + x)"
    unfolding i redrawn_def using b assms(2) by simp
qed

text \<open>
  Claim C27. What is written to video memory is shown: a successful write that stays in one row
  of pixels stores exactly its bytes, leaves every other pixel, and puts all of them, with
  everything that was due before, into the next redraw, which reads only inside the buffer.
\<close>

theorem kinnow_write_redrawn:
  assumes "fb_rect_ok (Kinnow m)" and "0x100000 \<le> address" and "0 < len" "len \<le> 1024" "len \<le> length src"
    and "i = unat (address - 0x100000)" and "i mod 1024 + len \<le> 1024"
    and "KinnowWrite address src len m = (EBUSSUCCESS, m')" and "i + len < 2 ^ 32"
  shows "i + len \<le> 786432 \<and> fb_rect_ok (Kinnow m') \<and>
    (\<forall>j. KinnowFB (Kinnow m') j = (if i \<le> j \<and> j < i + len then src ! (j - i) else KinnowFB (Kinnow m) j)) \<and>
    (\<forall>j. i \<le> j \<and> j < i + len \<or> redrawn (Kinnow m) j \<longrightarrow> redrawn (Kinnow m') j) \<and>
    (\<forall>x y. x < nat (sint (DirtyRectX2 (Kinnow m')) - sint (DirtyRectX1 (Kinnow m')) + 1) \<longrightarrow>
       y < nat (sint (DirtyRectY2 (Kinnow m')) - sint (DirtyRectY1 (Kinnow m')) + 1) \<longrightarrow>
       nat (sint (DirtyRectY1 (Kinnow m')) * 1024 + sint (DirtyRectX1 (Kinnow m'))) + 1024 * y + x < 786432)"
proof -
  let ?k = "Kinnow m" let ?a = "address - 0x100000"
  have nr: "\<not> address < 0x3100" "\<not> address < 0x4400"
    using assms(2) by (auto simp: word_less_nat_alt word_le_nat_alt)
  have w: "\<not> ?a + of_nat len > FBSize ?k"
    "m' = set_kinnow ((KinnowMarkDirty ?a len ?k)\<lparr>KinnowFB := CopyWithLength (KinnowFB (KinnowMarkDirty ?a len ?k)) (unat ?a) src len\<rparr>) m"
    using assms(8) nr assms(2) by (auto simp: KinnowWrite_def Let_def split: if_splits)
  have s: "unat (?a + of_nat len) = i + len"
    using assms(4,6,9) by (simp add: unat_word_ariths unat_of_nat)
  have le: "i + len \<le> 786432"
    using w(1) s assms(1) by (simp add: fb_rect_ok_def not_less word_le_nat_alt)
  note md = mark_dirty_ok [OF assms(1), of ?a len, folded assms(6), OF le assms(3)]
  have f: "KinnowFB (KinnowMarkDirty ?a len ?k) = KinnowFB ?k" by (simp add: KinnowMarkDirty_def Let_def)
  have k': "Kinnow m' = (KinnowMarkDirty ?a len ?k)\<lparr>KinnowFB := CopyWithLength (KinnowFB ?k) i src len\<rparr>"
    using w(2) f assms(6) by (simp add: set_kinnow_def)
  have ok: "fb_rect_ok (Kinnow m')" using md(1) by (simp add: k' fb_rect_ok_def)
  have rd: "redrawn (Kinnow m') = redrawn (KinnowMarkDirty ?a len ?k)"
    by (simp add: k' redrawn_def fun_eq_iff)
  have dirty: "FBIsDirty (Kinnow m')" by (simp add: k' KinnowMarkDirty_def Let_def)
  have "KinnowFB (Kinnow m') j = (if i \<le> j \<and> j < i + len then src ! (j - i) else KinnowFB ?k j)" for j
    using assms(5) by (auto simp: k' CopyWithLength_def poke_def)
  moreover have "redrawn (Kinnow m') j" if "i \<le> j \<and> j < i + len \<or> redrawn ?k j" for j
    using that md(2,3) assms(7) by (auto simp: rd)
  ultimately show ?thesis using le ok draw_inside(1) [OF ok dirty] by blast
qed

definition fb_sample :: Machine where
  "fb_sample = KinnowInit machine_zero"

text \<open>
  A write that runs over the end of a row, as a disk transfer does, can mark a rectangle
  that contains none of the pixels written: 1024 bytes stored at offset 512 leave an empty rectangle,
  and the redraw shows nothing.
\<close>

theorem kinnow_row_wrap_lost:
  "\<exists>m'. KinnowWrite 0x100200 (replicate 1024 7) 1024 fb_sample = (EBUSSUCCESS, m') \<and>
     KinnowFB (Kinnow m') 512 = 7 \<and> (\<forall>i. \<not> redrawn (Kinnow m') i) \<and>
     fst (KinnowDraw (Kinnow m')) = Some (512, 0, 0, 2, [])"
proof -
  have top: "(- 1 :: u32) = 0xFFFFFFFF" by simp
  have k: "FBSize (Kinnow fb_sample) = 786432" "DirtyRectX1 (Kinnow fb_sample) = 0xFFFFFFFF" "DirtyRectX2 (Kinnow fb_sample) = 0"
    "DirtyRectY1 (Kinnow fb_sample) = 0xFFFFFFFF" "DirtyRectY2 (Kinnow fb_sample) = 0"
    by (simp_all add: fb_sample_def KinnowInit_def Let_def set_kinnow_def machine_zero_def kinnow_zero_def)
  obtain m' where m': "m' = set_kinnow ((KinnowMarkDirty 0x200 1024 (Kinnow fb_sample))
      \<lparr>KinnowFB := CopyWithLength (KinnowFB (KinnowMarkDirty 0x200 1024 (Kinnow fb_sample))) 0x200 (replicate 1024 7) 1024\<rparr>) fb_sample"
    by blast
  have w: "KinnowWrite 0x100200 (replicate 1024 7) 1024 fb_sample = (EBUSSUCCESS, m')"
    by (simp add: KinnowWrite_def Let_def k m')
  have r: "FBIsDirty (Kinnow m')" "DirtyRectX1 (Kinnow m') = 512" "DirtyRectX2 (Kinnow m') = 511"
    "DirtyRectY1 (Kinnow m') = 0" "DirtyRectY2 (Kinnow m') = 1"
    by (simp_all add: m' set_kinnow_def KinnowMarkDirty_def Let_def k word_less_nat_alt)
  have "KinnowFB (Kinnow m') 512 = 7"
    by (simp add: m' set_kinnow_def CopyWithLength_def poke_def)
  moreover have "\<not> redrawn (Kinnow m') i" for i by (simp add: redrawn_def r)
  moreover have "fst (KinnowDraw (Kinnow m')) = Some (512, 0, 0, 2, [])"
    by (simp add: KinnowDraw_def r)
  ultimately show ?thesis using w by blast
qed

text \<open>
  The slot information area has 256 bytes and its read is not checked: a disk write of
  one sector from it reads past its end.
\<close>

theorem kinnow_slot_info_overread:
  "fst (KinnowRead 0 512 m) = EBUSSUCCESS \<and> Crashed (snd (snd (KinnowRead 0 512 m)))"
  by (simp add: KinnowRead_def Let_def)

lemma kinnow_write_redrawn_witness:
  "\<exists>m'. KinnowWrite 0x100005 [1, 2, 3, 4] 4 fb_sample = (EBUSSUCCESS, m') \<and> redrawn (Kinnow m') 7"
proof -
  have k: "fb_rect_ok (Kinnow fb_sample)" "FBSize (Kinnow fb_sample) = 786432"
    by (simp_all add: fb_sample_def KinnowInit_def Let_def set_kinnow_def machine_zero_def kinnow_zero_def fb_rect_ok_def)
  obtain s m' where w: "KinnowWrite 0x100005 [1, 2, 3, 4] 4 fb_sample = (s, m')" by fastforce
  then have "s = EBUSSUCCESS" using k(2) by (auto simp: KinnowWrite_def Let_def)
  then show ?thesis using kinnow_write_redrawn [OF k(1) _ _ _ _ refl _ w [unfolded \<open>s = _\<close>]] w by auto
qed

end
