(* ===== verification/EBus.thy ===== *)
theory EBus
  imports Rtc Amtsu Serial KinnowFb
begin

text \<open>
  The bus, \<^verbatim>\<open>src/src/ebus.h\<close> and \<^verbatim>\<open>src/src/ebus.c\<close>, and the platform board behind its branch 31,
  \<^verbatim>\<open>src/src/pboard.c\<close>. The board forwards an access below \<open>0x400\<close> to a table of port handlers,
  which is a parameter here, because the disk controller in it uses the bus itself; the theory
  \<open>Board\<close> supplies the table. A read returns the bytes stored into the caller's buffer.
\<close>

section \<open>The platform board\<close>

abbreviation (input) "NVRAMSIZE \<equiv> 0x1000 :: u32"
abbreviation (input) "ROMSIZE \<equiv> 0x20000 :: u32"
abbreviation (input) "RESETMAGIC \<equiv> 0xAABBCCDD :: u32"

record CitronPort =
  WritePort :: CitronWriteF
  ReadPort :: CitronReadF

text \<open>\<open>None\<close>: the port is not present.\<close>

type_synonym CitronTable = "nat \<Rightarrow> CitronPort option"

definition DKSReset :: "Machine \<Rightarrow> Machine" where
  "DKSReset m = m\<lparr>Dks := (Dks m)\<lparr>DKSDoInterrupt := False, DKSPortA := 0, DKSPortB := 0,
     DKSSelectedDrive := None, DKSTransferCount := 0, DKSTransferAddress := 0\<rparr>\<rparr>"

definition PBoardReset :: "Machine \<Rightarrow> Machine" where
  "PBoardReset m =
    (let m = RTCReset m; m = SerialReset m; m = DKSReset m; m = AmtsuReset m
     in m\<lparr>LsicTab := LsicReset (LsicTab m)\<rparr>)"

text \<open>Of the branches, only the platform board has a reset function.\<close>

definition EBusReset :: "Machine \<Rightarrow> Machine" where
  "EBusReset m = PBoardReset m"

definition PBoardWrite :: "CitronTable \<Rightarrow> u32 \<Rightarrow> u8 list \<Rightarrow> nat \<Rightarrow> nat \<Rightarrow> Machine \<Rightarrow> EBusSuccess \<times> Machine" where
  "PBoardWrite ports address src len p m =
    (if address < 0x400 then
       let port = unat (address div 4)
       in case ports port of
            Some cp \<Rightarrow> WritePort cp port (u32_at src) p m
          | None \<Rightarrow> (EBUSERROR, m)
     else if address \<ge> 0x7FE0000 then (EBUSSUCCESS, m)
     else if address \<ge> 0x1000 \<and> address < 0x2000 then
       let address = address - 0x1000; m = m\<lparr>NVRAMDirty := True\<rparr>
       in if address + of_nat len > NVRAMSIZE then (EBUSSUCCESS, m)
          else (EBUSSUCCESS, m\<lparr>NVRAM := CopyWithLength (NVRAM m) (unat address) src len\<rparr>)
     else if address \<ge> 0x800 \<and> address < 0x880 then
       let address = address - 0x800
       in if len = 4 then
            (EBUSSUCCESS,
             if address \<noteq> 0
             then m\<lparr>PBoardRegisters := (PBoardRegisters m)(unat (address div 4) := u32_at src)\<rparr> else m)
          else (EBUSERROR, m)
     else if address \<ge> 0x30000 \<and> address < 0x30000 + 32 * of_nat XR_PROC_MAX then
       let address = address - 0x30000
       in if len = 4 then
            let (st, T) = LsicWrite (XrProcessorPresent m) (unat (address div 4)) (u32_at src) (LsicTab m)
            in (st, m\<lparr>LsicTab := T\<rparr>)
          else (EBUSERROR, m)
     else if address = 0x800000 then
       if len = 4 \<and> u32_at src = RESETMAGIC then (EBUSSUCCESS, EBusReset m) else (EBUSERROR, m)
     else (EBUSERROR, m))"

definition opt_bytes :: "u32 option \<Rightarrow> u8 list" where
  "opt_bytes v = (case v of None \<Rightarrow> [] | Some w \<Rightarrow> bytes_of_u32 w)"

definition PBoardRead :: "CitronTable \<Rightarrow> u32 \<Rightarrow> nat \<Rightarrow> nat \<Rightarrow> Machine \<Rightarrow> EBusSuccess \<times> u8 list \<times> Machine" where
  "PBoardRead ports address len p m =
    (if address < 0x400 then
       let port = unat (address div 4)
       in case ports port of
            Some cp \<Rightarrow> let (st, v, m) = ReadPort cp port p m in (st, opt_bytes v, m)
          | None \<Rightarrow> (EBUSERROR, [], m)
     else if address \<ge> 0x7FE0000 then
       let address = address - 0x7FE0000
       in if address + of_nat len > ROMSIZE then (EBUSSUCCESS, [], m)
          else (EBUSSUCCESS, peek (BootROM m) (unat address) len, m)
     else if address \<ge> 0x1000 \<and> address < 0x11000 then
       let address = address - 0x1000
       in if address + of_nat len > NVRAMSIZE then (EBUSSUCCESS, [], m)
          else (EBUSSUCCESS, peek (NVRAM m) (unat address) len, m)
     else if address \<ge> 0x800 \<and> address < 0x880 then
       let address = address - 0x800
       in if len = 4 then (EBUSSUCCESS, bytes_of_u32 (PBoardRegisters m (unat (address div 4))), m)
          else (EBUSERROR, [], m)
     else if address \<ge> 0x30000 \<and> address < 0x30000 + 32 * of_nat XR_PROC_MAX then
       let address = address - 0x30000
       in if len = 4 then
            let (st, v) = LsicRead (XrProcessorPresent m) (unat (address div 4)) (LsicTab m)
            in (st, opt_bytes v, m)
          else (EBUSERROR, [], m)
     else (EBUSERROR, [], m))"

text \<open>A host pointer into one of the arrays that the bus maps.\<close>

datatype HostPointer = RamPointer nat nat | RomPointer nat

definition PBoardTranslate :: "u32 \<Rightarrow> HostPointer option" where
  "PBoardTranslate address =
    (if address \<ge> 0x7FE0000 then
       let address = address - 0x7FE0000
       in if address \<ge> ROMSIZE then None else Some (RomPointer (unat address))
     else None)"

section \<open>The NVRAM and ROM files\<close>

text \<open>\<open>file\<close>: the contents of the open file, \<open>None\<close> when there is none.\<close>

definition NVRAMSave :: "u8 list option \<Rightarrow> Machine \<Rightarrow> u8 list option \<times> Machine" where
  "NVRAMSave file m =
    (case file of
       Some bs \<Rightarrow>
         if NVRAMDirty m
         then (Some (peek (NVRAM m) 0 (unat NVRAMSIZE) @ drop (unat NVRAMSIZE) bs), m\<lparr>NVRAMDirty := False\<rparr>)
         else (file, m)
     | None \<Rightarrow> (file, m))"

definition NVRAMLoadFile :: "u8 list \<Rightarrow> Machine \<Rightarrow> Machine" where
  "NVRAMLoadFile bs m =
    m\<lparr>NVRAM := (\<lambda>i. if i < unat NVRAMSIZE then if i < length bs then bs ! i else 0 else NVRAM m i)\<rparr>"

definition ROMLoadFile :: "u8 list \<Rightarrow> Machine \<Rightarrow> Machine" where
  "ROMLoadFile bs m =
    m\<lparr>BootROM := (\<lambda>i. if i < unat ROMSIZE \<and> i < length bs then bs ! i else BootROM m i)\<rparr>"

section \<open>The bus\<close>

abbreviation (input) "bus_branch address \<equiv> drop_bit 27 (address :: u32)"
abbreviation (input) "bus_offset address \<equiv> (address :: u32) AND 0x7FFFFFF"

definition EBusWrite :: "CitronTable \<Rightarrow> u32 \<Rightarrow> u8 list \<Rightarrow> nat \<Rightarrow> nat \<Rightarrow> Machine \<Rightarrow> EBusSuccess \<times> Machine" where
  "EBusWrite ports address src len p m =
    (let branch = bus_branch address; a = bus_offset address
     in if branch = 0 then
          let (st, ram) = RAMWrite a src len (RamBoards m) in (st, m\<lparr>RamBoards := ram\<rparr>)
        else if branch = 1 then
          let (st, ram) = RAMWriteExt a src len (RamBoards m) in (st, m\<lparr>RamBoards := ram\<rparr>)
        else if branch = 24 \<and> KinnowPresent (Kinnow m) then KinnowWrite a src len m
        else if branch = 31 then PBoardWrite ports a src len p m
        else (EBUSERROR, m))"

definition EBusRead :: "CitronTable \<Rightarrow> u32 \<Rightarrow> nat \<Rightarrow> nat \<Rightarrow> Machine \<Rightarrow> EBusSuccess \<times> u8 list \<times> Machine" where
  "EBusRead ports address len p m =
    (let branch = bus_branch address; a = bus_offset address
     in if branch = 0 then let (st, bs) = RAMRead a len (RamBoards m) in (st, bs, m)
        else if branch = 1 then let (st, bs) = RAMReadExt a len (RamBoards m) in (st, bs, m)
        else if branch = 24 \<and> KinnowPresent (Kinnow m) then KinnowRead a len m
        else if branch = 31 then PBoardRead ports a len p m
        else (EBUSERROR, [], m))"

definition EBusTranslate :: "u32 \<Rightarrow> Machine \<Rightarrow> HostPointer option" where
  "EBusTranslate address m =
    (let branch = bus_branch address; a = bus_offset address
     in if branch = 0 then map_option (\<lambda>(s, i). RamPointer s i) (RAMTranslate a (RamBoards m))
        else if branch = 1 then map_option (\<lambda>(s, i). RamPointer s i) (RAMTranslateExt a (RamBoards m))
        else if branch = 31 then PBoardTranslate a
        else None)"

section \<open>RAM through the bus\<close>

text \<open>
  The first 256MB of the address space are one byte memory, over both RAM branches; an access to
  it reaches nothing else.
\<close>

lemma bus_branch_unat: "drop_bit 27 (address :: u32) = of_nat k \<longleftrightarrow> unat address div 2 ^ 27 = k" if "k < 32"
proof -
  have "drop_bit 27 address = of_nat k \<longleftrightarrow> unat (drop_bit 27 address) = unat (of_nat k :: u32)"
    by (rule word_unat_eq_iff)
  then show ?thesis using that by (simp only: unat_drop_bit unat_of_nat) simp
qed

lemma bus_offset_unat: "unat ((address :: u32) AND 0x7FFFFFF) = unat address mod 2 ^ 27"
proof -
  have "(0x7FFFFFF :: u32) = mask 27" by (simp add: mask_eq_exp_minus_1)
  then show ?thesis by (simp only: unat_and_mask)
qed

lemma bus_ram_cases:
  assumes "ram_window a"
  obtains "drop_bit 27 a = 0" "a AND 0x7FFFFFF = a"
  | "drop_bit 27 a = 1" "(a AND 0x7FFFFFF) + EBUSBRANCHSIZE = a"
proof (cases "unat a < 2 ^ 27")
  case True
  have "a AND 0x7FFFFFF = a"
    using True by (simp only: word_unat_eq_iff bus_offset_unat) simp
  moreover have "drop_bit 27 a = 0" using True bus_branch_unat [of 0 a] by simp
  ultimately show ?thesis using that(1) by simp
next
  case False
  then have d: "unat a div 2 ^ 27 = 1" using assms by (simp add: ram_window_def)
  then have "unat a mod 2 ^ 27 + 2 ^ 27 = unat a"
    using mod_mult_div_eq [of "unat a" "2 ^ 27"] by simp
  moreover have "unat a < 2 ^ 28" using assms by (simp only: ram_window_def)
  ultimately have "unat ((a AND 0x7FFFFFF) + EBUSBRANCHSIZE) = unat a"
    by (subst unat_add_lem [THEN iffD1]) (simp_all add: bus_offset_unat)
  then show ?thesis using that(2) bus_branch_unat [of 1 a] d by (simp add: word_unat_eq_iff)
qed

lemma bus_ram_write:
  assumes "ram_window a"
  shows "EBusWrite ports a bs n p m = (let (st, ram) = RAMWrite a bs n (RamBoards m) in (st, m\<lparr>RamBoards := ram\<rparr>))"
  using assms by (rule bus_ram_cases) (simp_all add: EBusWrite_def Let_def RAMWriteExt_eq)

lemma bus_ram_read:
  assumes "ram_window a"
  shows "EBusRead ports a n p m = (let (st, bs) = RAMRead a n (RamBoards m) in (st, bs, m))"
  using assms by (rule bus_ram_cases) (simp_all add: EBusRead_def Let_def RAMReadExt_eq)

definition bus_acc :: "u32 \<Rightarrow> nat \<Rightarrow> Machine \<Rightarrow> bool" where
  "bus_acc a n m \<longleftrightarrow> ram_window a \<and> ram_acc a n (RamBoards m)"

definition bus_byte :: "Machine \<Rightarrow> u32 \<Rightarrow> u8" where
  "bus_byte m a = ram_byte (RamBoards m) a"

definition bus_read :: "CitronTable \<Rightarrow> nat \<Rightarrow> u32 \<Rightarrow> nat \<Rightarrow> Machine \<Rightarrow> EBusSuccess \<times> u8 list" where
  "bus_read ports p a n m = (let (st, bs, m') = EBusRead ports a n p m in (st, bs))"

definition bus_write :: "CitronTable \<Rightarrow> nat \<Rightarrow> u32 \<Rightarrow> u8 list \<Rightarrow> nat \<Rightarrow> Machine \<Rightarrow> EBusSuccess \<times> Machine" where
  "bus_write ports p a bs n m = EBusWrite ports a bs n p m"

lemma ram_window_closed:
  "ram_inv ram \<Longrightarrow> ram_window a \<Longrightarrow> ram_acc a n ram \<Longrightarrow> i < n \<Longrightarrow> ram_window (a + of_nat i)"
  unfolding ram_window_def by (rule ram_window_step) simp_all

interpretation bus: byte_memory "bus_read ports p" "bus_write ports p" "\<lambda>m. ram_inv (RamBoards m)"
  bus_acc bus_byte ram_window 4096 for ports p
proof unfold_locales
  fix a :: u32 and n i :: nat and m :: Machine
  assume "ram_inv (RamBoards m)" "ram_window a" "bus_acc a n m" "i < n"
  then show "ram_window (a + word_of_nat i)" by (simp add: bus_acc_def ram_window_closed)
qed (auto simp: bus_read_def bus_write_def bus_ram_read bus_ram_write RAMRead_eq RAMWrite_eq bus_acc_def bus_byte_def
    ram_read_bytes ram_write_byte split: if_splits)

section \<open>The contract of a port\<close>

text \<open>
  What the bus relies on in every port: an access that reports an error has changed nothing and
  has stored nothing.
\<close>

locale citron_port =
  fixes wr :: CitronWriteF and rd :: CitronReadF
  assumes wr_error: "wr port v p m = (EBUSERROR, m') \<Longrightarrow> m' = m"
    and rd_error: "rd port p m = (EBUSERROR, w, m') \<Longrightarrow> m' = m \<and> w = None"

locale citron_bus =
  fixes ports :: CitronTable
  assumes present: "ports k = Some cp \<Longrightarrow> citron_port (WritePort cp) (ReadPort cp)"
begin

lemma pboard_write_error:
  assumes "PBoardWrite ports address src len p m = (EBUSERROR, m')"
  shows "m' = m"
proof (cases "address < 0x400")
  case True
  then show ?thesis
    using assms present citron_port.wr_error
    by (auto simp: PBoardWrite_def Let_def split: option.splits) blast
next
  case False
  have "T' = T" if "LsicWrite pr r v T = (EBUSERROR, T')" for pr r v T T'
    using that by (auto simp: LsicWrite_def Let_def split: if_splits option.splits)
  then show ?thesis
    using assms False by (auto simp: PBoardWrite_def Let_def split: if_splits prod.splits)
qed

lemma pboard_read_error:
  assumes "PBoardRead ports address len p m = (EBUSERROR, bs, m')"
  shows "m' = m \<and> bs = []"
proof (cases "address < 0x400")
  case True
  then show ?thesis
    using assms present citron_port.rd_error
    by (auto simp: PBoardRead_def Let_def opt_bytes_def split: option.splits prod.splits) blast+
next
  case False
  have l: "v = None" if "LsicRead pr r T = (EBUSERROR, v)" for pr r v T
    using that by (auto simp: LsicRead_def Let_def split: if_splits)
  show ?thesis
    using assms False by (auto simp: PBoardRead_def Let_def opt_bytes_def dest: l split: if_splits prod.splits)
qed

lemma write_error: "EBusWrite ports address src len p m = (EBUSERROR, m') \<Longrightarrow> m' = m"
  by (auto simp: EBusWrite_def Let_def RAMWrite_def RAMWriteExt_def KinnowWrite_def pboard_write_error
      split: if_splits)

lemma read_error: "EBusRead ports address len p m = (EBUSERROR, bs, m') \<Longrightarrow> m' = m \<and> bs = []"
  by (auto simp: EBusRead_def Let_def RAMRead_def RAMReadExt_def KinnowRead_def pboard_read_error
      split: if_splits)

end

end
