(* ===== verification/Dks.thy ===== *)
theory Dks
  imports EBus
begin

text \<open>
  The disk controller, \<^verbatim>\<open>src/src/dks.c\<close>: up to eight disks with a simulated geometry, a set of
  command ports, and transfers of up to eight sectors between a disk image and the bus. In
  the asynchronous mode a transfer completes after a seek time that the scheduler pays for.
  The seek times are \<^verbatim>\<open>double\<close>s truncated to milliseconds; with 17 or 63 sectors per track, which
  is what attaching an image establishes, that is the integer division written here.
\<close>

section \<open>Operations\<close>

abbreviation (input) "DKSDISKS \<equiv> 8 :: nat"
abbreviation (input) "DKS_READ \<equiv> 1 :: u32"
abbreviation (input) "DKS_WRITE \<equiv> 2 :: u32"

definition disk_of :: "Machine \<Rightarrow> nat \<Rightarrow> DKSDisk" where
  "disk_of m d = DKSDisks (Dks m) d"

definition set_disk :: "nat \<Rightarrow> DKSDisk \<Rightarrow> Machine \<Rightarrow> Machine" where
  "set_disk d disk m = m\<lparr>Dks := (Dks m)\<lparr>DKSDisks := (DKSDisks (Dks m))(d := disk)\<rparr>\<rparr>"

definition LBA_TO_SECTOR :: "DKSDisk \<Rightarrow> u32 \<Rightarrow> u32" where
  "LBA_TO_SECTOR disk lba = lba mod SectorsPerTrack disk"

definition LBA_TO_TRACK :: "DKSDisk \<Rightarrow> u32 \<Rightarrow> u32" where
  "LBA_TO_TRACK disk lba = lba div SectorsPerTrack disk"

definition LBA_TO_CYLINDER :: "DKSDisk \<Rightarrow> u32 \<Rightarrow> u32" where
  "LBA_TO_CYLINDER disk lba = LBA_TO_TRACK disk lba div 4"

definition disk_bit :: "nat \<Rightarrow> u32" where
  "disk_bit d = push_bit d 1"

definition DKSInfo :: "Machine \<Rightarrow> Machine" where
  "DKSInfo m = (if DKSDoInterrupt (Dks m) then machine_interrupt 3 m else m)"

text \<open>
  The bus as the controller uses it: transfer addresses are multiples of 512, and the ports at
  such addresses, 0 and 128, are not present, so the access never comes back to a port
  (theory \<open>Board\<close>).
\<close>

definition dma_ports :: CitronTable where
  "dma_ports = (\<lambda>_. None)"

definition dks_read_image :: "nat \<Rightarrow> Machine \<Rightarrow> Machine" where
  "dks_read_image d m =
    (let disk = disk_of m d; n = unat (TransferCount disk * 512);
         off = unat (TransferSector disk * 512);
         temp = CopyWithLength (TemporaryBuffer disk) 0 (peek (DiskImage disk) off n) n;
         m = set_disk d (disk\<lparr>TemporaryBuffer := temp\<rparr>) m
     in snd (EBusWrite dma_ports (TransferAddress disk) (peek temp 0 n) n 0 m))"

definition dks_write_image :: "nat \<Rightarrow> Machine \<Rightarrow> Machine" where
  "dks_write_image d m =
    (let disk = disk_of m d; n = unat (TransferCount disk * 512);
         off = unat (TransferSector disk * 512);
         (st, bs, m) = EBusRead dma_ports (TransferAddress disk) n 0 m;
         temp = poke (TemporaryBuffer disk) 0 bs
     in set_disk d (disk\<lparr>TemporaryBuffer := temp,
          DiskImage := CopyWithLength (DiskImage disk) off (peek temp 0 n) n\<rparr>) m)"

definition DKSCompleteTransfer :: "nat \<Rightarrow> Machine \<Rightarrow> Machine" where
  "DKSCompleteTransfer d m =
    (let m = set_disk d ((disk_of m d)\<lparr>Completing := True\<rparr>) m;
         m = (if IoType (disk_of m d) = DKS_READ then dks_read_image d m else dks_write_image d m);
         m = set_disk d ((disk_of m d)\<lparr>Completing := False\<rparr>) m;
         m = m\<lparr>Dks := (Dks m)\<lparr>DKSStatus := DKSStatus (Dks m) AND NOT (disk_bit d),
                              DKSCompleted := DKSCompleted (Dks m) OR disk_bit d\<rparr>\<rparr>;
         disk = disk_of m d;
         m = set_disk d (disk\<lparr>PlatterLocation := LBA_TO_SECTOR disk (SeekTo disk),
                              HeadLocation := LBA_TO_CYLINDER disk (SeekTo disk)\<rparr>) m
     in DKSInfo m)"

definition DKSStartTimeslice :: "int \<Rightarrow> int \<Rightarrow> int" where
  "DKSStartTimeslice dt timeslice = dt"

text \<open>\<open>SECTOR_PER_MS\<close> is \<open>SectorsPerTrack * 9 / 100\<close>.\<close>

definition DKSSchedule :: "nat \<Rightarrow> Machine \<Rightarrow> Machine" where
  "DKSSchedule d m =
    (let w = disk_schedulable d; ts = Timeslice (Sched m) w; disk = disk_of m d
     in if DKSStatus (Dks m) AND disk_bit d = 0 \<or> Completing disk then
          set_timeslice w 0
            (if Spinning disk then
               let pl = word_of_int ((100 * uint (PlatterLocation disk) + 9 * uint (SectorsPerTrack disk) * ts) div 100)
               in set_disk d (disk\<lparr>PlatterLocation := pl mod SectorsPerTrack disk\<rparr>) m
             else m)
        else if word_of_int ts \<ge> OperationInterval disk then
          set_timeslice w (sint (word_of_int ts - OperationInterval disk)) (DKSCompleteTransfer d m)
        else
          let m = set_disk d (disk\<lparr>OperationInterval := OperationInterval disk - word_of_int ts\<rparr>) m;
              m = m\<lparr>Sched := XrScheduleWorkForNextFrame w True (Sched m)\<rparr>
          in set_timeslice w 0 m)"

definition seek_disk :: "u32 \<Rightarrow> DKSDisk \<Rightarrow> DKSDisk" where
  "seek_disk lba disk =
    (let spt = uint (SectorsPerTrack disk);
         cylseek = \<bar>sint (HeadLocation disk) - sint (LBA_TO_CYLINDER disk lba)\<bar>;
         settle = (if HeadLocation disk \<noteq> LBA_TO_CYLINDER disk lba then 30 else 0);
         sectorseek = sint (LBA_TO_SECTOR disk lba) - sint (PlatterLocation disk);
         sectorseek = (if sectorseek < 0 then sectorseek + spt else sectorseek);
         interval = (1000 * sectorseek + 9 * spt * (cylseek + settle)) div (90 * spt);
         disk = disk\<lparr>OperationInterval := word_of_int (uint (OperationInterval disk) + interval), SeekTo := lba\<rparr>;
         disk = (if sectorseek = 0 \<and> cylseek + settle = 0 then
                   let disk = disk\<lparr>ConsecutiveZeroSeeks :=
                         word_of_int (uint (ConsecutiveZeroSeeks disk) + 1000 * sectorseek div (90 * spt))\<rparr>
                   in if 100 * uint (ConsecutiveZeroSeeks disk) > 9 * spt
                      then disk\<lparr>OperationInterval := OperationInterval disk + 1, ConsecutiveZeroSeeks := 0\<rparr>
                      else disk
                 else disk)
     in disk)"

definition DKSSeek :: "nat \<Rightarrow> Machine \<Rightarrow> Machine" where
  "DKSSeek d m = set_disk d (seek_disk (DKSPortA (Dks m) + DKSTransferCount (Dks m)) (disk_of m d)) m"

text \<open>An accepted command: the state in which the transfer is started or completed.\<close>

definition dispatched :: "u32 \<Rightarrow> nat \<Rightarrow> Machine \<Rightarrow> Machine" where
  "dispatched type d m =
    (let D = Dks m;
         disk = (disk_of m d)\<lparr>IoType := type, TransferSector := DKSPortA D,
           TransferAddress := DKSTransferAddress D, TransferCount := DKSTransferCount D\<rparr>;
         m = set_disk d disk m;
         m = m\<lparr>Dks := (Dks m)\<lparr>DKSStatus := DKSStatus (Dks m) OR disk_bit d\<rparr>\<rparr>
     in if DKSAsynchronous D then DKSSeek d m else set_disk d ((disk_of m d)\<lparr>OperationInterval := 0\<rparr>) m)"

definition DKSDispatchIO :: "u32 \<Rightarrow> nat \<Rightarrow> Machine \<Rightarrow> EBusSuccess \<times> Machine" where
  "DKSDispatchIO type p m =
    (let D = Dks m
     in case DKSSelectedDrive D of
          None \<Rightarrow> (EBUSERROR, m)
        | Some d \<Rightarrow>
            if DKSPortA D + DKSTransferCount D < DKSPortA D then (EBUSERROR, m)
            else if DKSPortA D + DKSTransferCount D \<ge> SectorCount (disk_of m d) then (EBUSERROR, m)
            else if DKSStatus D AND disk_bit d \<noteq> 0 then (EBUSERROR, m)
            else
              let m = dispatched type d m
              in (EBUSSUCCESS,
                  if OperationInterval (disk_of m d) = 0 then DKSCompleteTransfer d m
                  else schedule_for_me p (disk_schedulable d) m))"

text \<open>The status of an unknown command is an uninitialised variable: the argument \<open>status\<close>.\<close>

definition DKSWriteCMD :: "EBusSuccess \<Rightarrow> CitronWriteF" where
  "DKSWriteCMD status port value p m =
    (let D = Dks m; a = DKSPortA D;
         drive = (if unat a < DKSDISKS \<and> DiskPresent (disk_of m (unat a)) then Some (unat a) else None)
     in if value = 1 then (EBUSSUCCESS, m\<lparr>Dks := D\<lparr>DKSSelectedDrive := drive\<rparr>\<rparr>)
        else if value = 2 then DKSDispatchIO DKS_READ p m
        else if value = 3 then DKSDispatchIO DKS_WRITE p m
        else if value = 4 then
          (EBUSSUCCESS, m\<lparr>Dks := D\<lparr>DKSPortA := 0, DKSPortB := DKSCompleted D, DKSCompleted := 0\<rparr>\<rparr>)
        else if value = 5 then
          (EBUSSUCCESS, m\<lparr>Dks := (case drive of
               Some d \<Rightarrow> D\<lparr>DKSPortB := SectorCount (disk_of m d), DKSPortA := 1\<rparr>
             | None \<Rightarrow> D\<lparr>DKSPortA := 0, DKSPortB := 0\<rparr>)\<rparr>)
        else if value = 6 then (EBUSSUCCESS, m\<lparr>Dks := D\<lparr>DKSDoInterrupt := True\<rparr>\<rparr>)
        else if value = 7 then (EBUSSUCCESS, m\<lparr>Dks := D\<lparr>DKSDoInterrupt := False\<rparr>\<rparr>)
        else if value = 8 then
          if a = 0 \<or> a > 8 then (EBUSERROR, m) else (EBUSSUCCESS, m\<lparr>Dks := D\<lparr>DKSTransferCount := a\<rparr>\<rparr>)
        else if value = 9 then (EBUSSUCCESS, m\<lparr>Dks := D\<lparr>DKSTransferAddress := a AND NOT 511\<rparr>\<rparr>)
        else (status, m))"

definition DKSReadCMD :: CitronReadF where
  "DKSReadCMD port p m =
    (EBUSSUCCESS, Some (DKSStatus (Dks m)),
     if DKSStatus (Dks m) \<noteq> 0 then
       m\<lparr>XrProcessorTable := (XrProcessorTable m)
            (p := (XrProcessorTable m p)\<lparr>PauseCalls := PauseCalls (XrProcessorTable m p) + 64\<rparr>)\<rparr>
     else m)"

definition DKSWritePortA :: CitronWriteF where
  "DKSWritePortA port value p m = (EBUSSUCCESS, m\<lparr>Dks := (Dks m)\<lparr>DKSPortA := value\<rparr>\<rparr>)"

definition DKSReadPortA :: CitronReadF where
  "DKSReadPortA port p m = (EBUSSUCCESS, Some (DKSPortA (Dks m)), m)"

definition DKSWritePortB :: CitronWriteF where
  "DKSWritePortB port value p m = (EBUSSUCCESS, m\<lparr>Dks := (Dks m)\<lparr>DKSPortB := value\<rparr>\<rparr>)"

definition DKSReadPortB :: CitronReadF where
  "DKSReadPortB port p m = (EBUSSUCCESS, Some (DKSPortB (Dks m)), m)"

section \<open>Attaching an image\<close>

text \<open>The loop that looks for a number of heads; the counter skips 6.\<close>

function heads_search :: "nat \<Rightarrow> u32 \<Rightarrow> nat" where
  "heads_search i sectors =
    (if i < 16 then
       if sectors mod of_nat i = 0 \<and> sectors \<le> of_nat (i * 17 * 1024) then i
       else heads_search (if i = 5 then i + 2 else i + 1) sectors
     else i)"
  by pat_completeness auto
termination
  by (relation "measure (\<lambda>(i, sectors). 16 - i)") auto

declare heads_search.simps [simp del]

definition disk_geometry :: "u32 \<Rightarrow> u32 \<times> nat" where
  "disk_geometry sectors =
    (if sectors mod 17 \<noteq> 0 \<or> sectors > 0x44000 then (63, 16)
     else (17, if sectors \<le> 0xCC00 then 4
               else if sectors mod 6 = 0 \<and> sectors \<le> 0x19800 then 6
               else heads_search 5 sectors))"

text \<open>\<open>None\<close>: all eight disks are taken.\<close>

definition DKSAttachImage :: "bytes \<Rightarrow> nat \<Rightarrow> Machine \<Rightarrow> Machine option" where
  "DKSAttachImage contents len m =
    (case List.find (\<lambda>i. \<not> DiskPresent (disk_of m i)) [0..<DKSDISKS] of
       None \<Rightarrow> None
     | Some i \<Rightarrow>
         let bytes = of_nat len :: u32; sectors = bytes div 512;
             (spt, heads) = disk_geometry sectors
         in Some (set_disk i ((disk_of m i)\<lparr>DiskImage := contents, SectorCount := sectors, DiskPresent := True,
              Spinning := True, ConsecutiveZeroSeeks := 0, PlatterLocation := 0, HeadLocation := 0,
              OperationInterval := 0, SeekTo := 0, Completing := False, SectorsPerTrack := spt,
              CylinderCount := sectors div of_nat heads div spt\<rparr>) m))"

definition DKSInit :: "Machine \<Rightarrow> Machine" where
  "DKSInit m = m\<lparr>Sched := fold (\<lambda>i. XrInitializeSchedulable (disk_schedulable i)) [0..<DKSDISKS] (Sched m)\<rparr>"

section \<open>What a transfer leaves alone\<close>

lemma count_not_4: "unat (c * 512 :: u32) \<noteq> 4"
proof -
  have "unat (c * 512) = (unat c * 512) mod 2 ^ 32" by (simp add: unat_word_ariths)
  also have "\<dots> mod 512 = 0" by (subst mod_mod_cancel) simp_all
  finally show ?thesis by auto
qed

lemma if_frame:
  "Dks (snd (if c then x else y)) = (if c then Dks (snd x) else Dks (snd y))"
  "Sched (snd (if c then x else y)) = (if c then Sched (snd x) else Sched (snd y))"
  by simp_all

lemma set_kinnow_frame: "Dks (set_kinnow k m) = Dks m" "Sched (set_kinnow k m) = Sched m"
  by (simp_all add: set_kinnow_def)

lemma pboard_write_frame:
  assumes "n \<noteq> 4"
  shows "Dks (snd (PBoardWrite dma_ports a bs n p m)) = Dks m"
    and "Sched (snd (PBoardWrite dma_ports a bs n p m)) = Sched m"
  by (simp_all add: PBoardWrite_def Let_def dma_ports_def assms if_frame if_cancel cong: if_weak_cong)

lemma dma_write_frame:
  assumes "n \<noteq> 4"
  shows "Dks (snd (EBusWrite dma_ports a bs n p m)) = Dks m"
    and "Sched (snd (EBusWrite dma_ports a bs n p m)) = Sched m"
  by (simp_all add: EBusWrite_def KinnowWrite_def Let_def assms if_frame if_cancel set_kinnow_frame
      pboard_write_frame case_prod_beta cong: if_weak_cong)

lemma pboard_read_frame: "snd (snd (PBoardRead dma_ports a n p m)) = m"
  by (simp add: PBoardRead_def Let_def dma_ports_def if_distrib [of "\<lambda>x. snd (snd x)"] case_prod_beta cong: if_weak_cong)

lemma kinnow_read_frame: "\<exists>c. snd (snd (KinnowRead a n m)) = m\<lparr>Crashed := c\<rparr>"
proof -
  have "snd (snd (KinnowRead a n m)) = m \<or> snd (snd (KinnowRead a n m)) = m\<lparr>Crashed := True\<rparr>"
    unfolding KinnowRead_def Let_def by (simp add: if_distrib [of "\<lambda>x. snd (snd x)"] cong: if_weak_cong)
  moreover have "m = m\<lparr>Crashed := Crashed m\<rparr>" by simp
  ultimately show ?thesis by metis
qed

lemma dma_read_frame: "\<exists>c. snd (snd (EBusRead dma_ports a n p m)) = m\<lparr>Crashed := c\<rparr>"
proof -
  have "m = m\<lparr>Crashed := Crashed m\<rparr>" by simp
  then have "\<exists>c. m = m\<lparr>Crashed := c\<rparr>" by blast
  then show ?thesis
    using kinnow_read_frame [of "a AND 0x7FFFFFF" n m]
    unfolding EBusRead_def Let_def
    by (simp only: if_distrib [of "\<lambda>x. snd (snd x)"] pboard_read_frame case_prod_beta fst_conv snd_conv split: if_split) blast
qed

lemma disk_set [simp]: "disk_of (set_disk d disk m) e = (if e = d then disk else disk_of m e)"
  by (simp add: disk_of_def set_disk_def)

lemma set_disk_dks [simp]:
  "Dks (set_disk d disk m) = (Dks m)\<lparr>DKSDisks := (DKSDisks (Dks m))(d := disk)\<rparr>"
  by (simp add: set_disk_def)

lemma set_disk_other [simp]:
  "Sched (set_disk d disk m) = Sched m" "RamBoards (set_disk d disk m) = RamBoards m"
  by (simp_all add: set_disk_def)

lemma DKSInfo_frame [simp]:
  "Dks (DKSInfo m) = Dks m" "RamBoards (DKSInfo m) = RamBoards m" "Sched (DKSInfo m) = Sched m"
  by (simp_all add: DKSInfo_def machine_interrupt_def split: option.split)

text \<open>The controller after a transfer: only the disk's buffer and image depend on the bus.\<close>

definition completed :: "nat \<Rightarrow> bytes \<Rightarrow> bytes \<Rightarrow> DksState \<Rightarrow> DksState" where
  "completed d temp img D =
    (let disk = DKSDisks D d
     in D\<lparr>DKSDisks := (DKSDisks D)(d := disk\<lparr>TemporaryBuffer := temp, DiskImage := img, Completing := False,
            PlatterLocation := LBA_TO_SECTOR disk (SeekTo disk), HeadLocation := LBA_TO_CYLINDER disk (SeekTo disk)\<rparr>),
          DKSStatus := DKSStatus D AND NOT (disk_bit d), DKSCompleted := DKSCompleted D OR disk_bit d\<rparr>)"

lemma LBA_upd [simp]:
  "LBA_TO_SECTOR (disk\<lparr>TemporaryBuffer := T\<rparr>) = LBA_TO_SECTOR disk" "LBA_TO_SECTOR (disk\<lparr>DiskImage := I\<rparr>) = LBA_TO_SECTOR disk"
  "LBA_TO_SECTOR (disk\<lparr>Completing := c\<rparr>) = LBA_TO_SECTOR disk"
  "LBA_TO_CYLINDER (disk\<lparr>TemporaryBuffer := T\<rparr>) = LBA_TO_CYLINDER disk" "LBA_TO_CYLINDER (disk\<lparr>DiskImage := I\<rparr>) = LBA_TO_CYLINDER disk"
  "LBA_TO_CYLINDER (disk\<lparr>Completing := c\<rparr>) = LBA_TO_CYLINDER disk"
  by (simp_all add: fun_eq_iff LBA_TO_SECTOR_def LBA_TO_CYLINDER_def LBA_TO_TRACK_def)

lemma complete_dks:
  "\<exists>temp img. Dks (DKSCompleteTransfer d m) = completed d temp img (Dks m)"
  "Sched (DKSCompleteTransfer d m) = Sched m"
proof -
  let ?n = "unat (TransferCount (disk_of m d) * 512)"
  define m1 where "m1 = set_disk d ((disk_of m d)\<lparr>Completing := True\<rparr>) m"
  define m2 where "m2 = (if IoType (disk_of m1 d) = DKS_READ then dks_read_image d m1 else dks_write_image d m1)"
  have m2: "\<exists>temp img. Dks m2 = (Dks m)\<lparr>DKSDisks := (DKSDisks (Dks m))(d := (DKSDisks (Dks m) d)
      \<lparr>Completing := True, TemporaryBuffer := temp, DiskImage := img\<rparr>)\<rparr> \<and> Sched m2 = Sched m"
  proof (cases "IoType (disk_of m1 d) = DKS_READ")
    case True
    let ?T = "CopyWithLength (TemporaryBuffer (disk_of m d)) 0
        (peek (DiskImage (disk_of m d)) (unat (TransferSector (disk_of m d) * 512)) ?n) ?n"
    have "Dks m2 = (Dks m)\<lparr>DKSDisks := (DKSDisks (Dks m))(d := (DKSDisks (Dks m) d)
      \<lparr>Completing := True, TemporaryBuffer := ?T, DiskImage := DiskImage (DKSDisks (Dks m) d)\<rparr>)\<rparr> \<and> Sched m2 = Sched m"
      using True by (simp add: m2_def dks_read_image_def Let_def m1_def dma_write_frame count_not_4)
        (simp add: disk_of_def)
    then show ?thesis by blast
  next
    case False
    obtain st bs m3 where r: "EBusRead dma_ports (TransferAddress (disk_of m1 d)) ?n 0 m1 = (st, bs, m3)"
      by (metis prod.collapse)
    then obtain c where "m3 = m1\<lparr>Crashed := c\<rparr>"
      using dma_read_frame [of "TransferAddress (disk_of m1 d)" ?n 0 m1] by auto
    then have m3: "Dks m3 = Dks m1" "Sched m3 = Sched m1" by auto
    have "TransferCount (disk_of m1 d) = TransferCount (disk_of m d)" by (simp add: m1_def)
    then show ?thesis
      using False r m3 by (auto simp: m2_def dks_write_image_def Let_def m1_def disk_of_def)
  qed
  then obtain temp img where m2: "Dks m2 = (Dks m)\<lparr>DKSDisks := (DKSDisks (Dks m))(d := (DKSDisks (Dks m) d)
      \<lparr>Completing := True, TemporaryBuffer := temp, DiskImage := img\<rparr>)\<rparr>" "Sched m2 = Sched m" by blast
  have e: "DKSCompleteTransfer d m =
     (let m = set_disk d ((disk_of m2 d)\<lparr>Completing := False\<rparr>) m2;
         m = m\<lparr>Dks := (Dks m)\<lparr>DKSStatus := DKSStatus (Dks m) AND NOT (disk_bit d),
                              DKSCompleted := DKSCompleted (Dks m) OR disk_bit d\<rparr>\<rparr>;
         disk = disk_of m d;
         m = set_disk d (disk\<lparr>PlatterLocation := LBA_TO_SECTOR disk (SeekTo disk),
                              HeadLocation := LBA_TO_CYLINDER disk (SeekTo disk)\<rparr>) m
     in DKSInfo m)"
    unfolding DKSCompleteTransfer_def m1_def m2_def Let_def ..
  have "Dks (DKSCompleteTransfer d m) = completed d temp img (Dks m)"
    unfolding e Let_def completed_def by (simp add: m2 disk_of_def)
  then show "\<exists>temp img. Dks (DKSCompleteTransfer d m) = completed d temp img (Dks m)" by blast
  show "Sched (DKSCompleteTransfer d m) = Sched m" unfolding e Let_def by (simp add: m2)
qed

section \<open>The invariant of the controller\<close>

text \<open>
  Every disk has the geometry its image gave it; a selected or busy disk is present; a pending
  transfer lies inside the disk, fits the 4096-byte buffer and starts at a sector boundary of memory.
\<close>

definition disk_ok :: "DKSDisk \<Rightarrow> bool" where
  "disk_ok disk \<longleftrightarrow> SectorsPerTrack disk \<in> {17, 63} \<and> PlatterLocation disk < SectorsPerTrack disk \<and>
     unat (SectorCount disk) < 2 ^ 23"

definition pending_ok :: "DKSDisk \<Rightarrow> bool" where
  "pending_ok disk \<longleftrightarrow> unat (TransferSector disk) + unat (TransferCount disk) < unat (SectorCount disk) \<and>
     unat (TransferCount disk) \<le> 8 \<and> TransferAddress disk AND 511 = 0"

definition busy :: "DksState \<Rightarrow> nat \<Rightarrow> bool" where
  "busy D d \<longleftrightarrow> bit (DKSStatus D) d"

definition dks_ok :: "DksState \<Rightarrow> bool" where
  "dks_ok D \<longleftrightarrow>
     (\<forall>d. DiskPresent (DKSDisks D d) \<longrightarrow> d < DKSDISKS \<and> disk_ok (DKSDisks D d)) \<and>
     (\<forall>d. DKSSelectedDrive D = Some d \<longrightarrow> DiskPresent (DKSDisks D d)) \<and>
     unat (DKSTransferCount D) \<le> 8 \<and> DKSTransferAddress D AND 511 = 0 \<and>
     (\<forall>d<DKSDISKS. busy D d \<longrightarrow> DiskPresent (DKSDisks D d) \<and> pending_ok (DKSDisks D d))"

lemma busy_test: "DKSStatus D AND disk_bit d = 0 \<longleftrightarrow> \<not> busy D d"
  using and_push_bit_neq_0 [of "DKSStatus D" d] unfolding busy_def disk_bit_def by blast

lemma status_bits:
  "d < 32 \<Longrightarrow> bit (s AND NOT (disk_bit e)) d \<longleftrightarrow> bit s d \<and> d \<noteq> e"
  "d < 32 \<Longrightarrow> bit (s OR disk_bit e) d \<longleftrightarrow> bit s d \<or> d = e"
  by (auto simp: disk_bit_def bit_simps)

lemma busy_cong: "DKSStatus D = DKSStatus D' \<Longrightarrow> busy D = busy D'"
  by (simp add: busy_def fun_eq_iff)

lemma disk_ok_upd [simp]:
  "disk_ok (disk\<lparr>TemporaryBuffer := T\<rparr>) = disk_ok disk" "disk_ok (disk\<lparr>DiskImage := T\<rparr>) = disk_ok disk"
  "disk_ok (disk\<lparr>Completing := c\<rparr>) = disk_ok disk" "disk_ok (disk\<lparr>HeadLocation := h\<rparr>) = disk_ok disk"
  "disk_ok (disk\<lparr>OperationInterval := h\<rparr>) = disk_ok disk" "disk_ok (disk\<lparr>SeekTo := h\<rparr>) = disk_ok disk"
  "disk_ok (disk\<lparr>ConsecutiveZeroSeeks := h\<rparr>) = disk_ok disk" "disk_ok (disk\<lparr>IoType := h\<rparr>) = disk_ok disk"
  "disk_ok (disk\<lparr>TransferSector := h\<rparr>) = disk_ok disk" "disk_ok (disk\<lparr>TransferAddress := h\<rparr>) = disk_ok disk"
  "disk_ok (disk\<lparr>TransferCount := h\<rparr>) = disk_ok disk"
  by (simp_all add: disk_ok_def)

lemma pending_ok_upd [simp]:
  "pending_ok (disk\<lparr>TemporaryBuffer := T\<rparr>) = pending_ok disk" "pending_ok (disk\<lparr>DiskImage := T\<rparr>) = pending_ok disk"
  "pending_ok (disk\<lparr>Completing := c\<rparr>) = pending_ok disk" "pending_ok (disk\<lparr>HeadLocation := h\<rparr>) = pending_ok disk"
  "pending_ok (disk\<lparr>OperationInterval := h\<rparr>) = pending_ok disk" "pending_ok (disk\<lparr>SeekTo := h\<rparr>) = pending_ok disk"
  "pending_ok (disk\<lparr>ConsecutiveZeroSeeks := h\<rparr>) = pending_ok disk" "pending_ok (disk\<lparr>PlatterLocation := h\<rparr>) = pending_ok disk"
  by (simp_all add: pending_ok_def)

lemma platter_ok: "disk_ok disk \<Longrightarrow> disk_ok (disk\<lparr>PlatterLocation := w mod SectorsPerTrack disk\<rparr>)"
  by (auto simp: disk_ok_def word_less_nat_alt unat_mod)

lemma dks_ok_disk:
  assumes "dks_ok D" "DiskPresent disk = DiskPresent (DKSDisks D d)"
    and "DiskPresent disk \<Longrightarrow> disk_ok disk" "busy D d \<Longrightarrow> pending_ok (DKSDisks D d) \<Longrightarrow> pending_ok disk"
  shows "dks_ok (D\<lparr>DKSDisks := (DKSDisks D)(d := disk)\<rparr>)"
  using assms by (auto simp: dks_ok_def busy_def)

lemma dks_ok_status:
  assumes "dks_ok D" "\<And>e. e < DKSDISKS \<Longrightarrow> bit s e \<Longrightarrow> busy D e"
  shows "dks_ok (D\<lparr>DKSStatus := s, DKSCompleted := c\<rparr>)"
  using assms by (simp add: dks_ok_def busy_def)

lemma completed_ok:
  assumes "dks_ok D"
  shows "dks_ok (completed d temp img D)"
proof -
  let ?disk = "DKSDisks D d"
  let ?new = "?disk\<lparr>TemporaryBuffer := temp, DiskImage := img, Completing := False,
            PlatterLocation := LBA_TO_SECTOR ?disk (SeekTo ?disk), HeadLocation := LBA_TO_CYLINDER ?disk (SeekTo ?disk)\<rparr>"
  have "disk_ok ?new" if "DiskPresent ?disk"
  proof -
    have "disk_ok ?disk" using that assms by (simp add: dks_ok_def)
    then show ?thesis using platter_ok [of ?disk "SeekTo ?disk"] by (simp add: LBA_TO_SECTOR_def disk_ok_def)
  qed
  then have "dks_ok (D\<lparr>DKSDisks := (DKSDisks D)(d := ?new)\<rparr>)" (is "dks_ok ?D")
    using assms by (intro dks_ok_disk) simp_all
  then have "dks_ok (?D\<lparr>DKSStatus := DKSStatus ?D AND NOT (disk_bit d), DKSCompleted := DKSCompleted D OR disk_bit d\<rparr>)"
    by (rule dks_ok_status) (simp add: status_bits busy_def)
  then show ?thesis by (simp add: completed_def Let_def)
qed

lemma complete_ok: "dks_ok (Dks m) \<Longrightarrow> dks_ok (Dks (DKSCompleteTransfer d m))"
  using complete_dks(1) [of d m] by (auto simp: completed_ok)

lemma seek_fields [simp]:
  "DiskPresent (seek_disk lba disk) = DiskPresent disk" "SectorsPerTrack (seek_disk lba disk) = SectorsPerTrack disk"
  "PlatterLocation (seek_disk lba disk) = PlatterLocation disk" "SectorCount (seek_disk lba disk) = SectorCount disk"
  "TransferSector (seek_disk lba disk) = TransferSector disk" "TransferCount (seek_disk lba disk) = TransferCount disk"
  "TransferAddress (seek_disk lba disk) = TransferAddress disk" "IoType (seek_disk lba disk) = IoType disk"
  "DiskImage (seek_disk lba disk) = DiskImage disk" "Completing (seek_disk lba disk) = Completing disk"
  by (simp_all add: seek_disk_def Let_def)

lemma dispatch_guard:
  assumes "\<not> a + c < a" "\<not> s \<le> a + (c :: u32)"
  shows "unat a + unat c < unat s"
proof -
  have "unat a + unat c < 2 ^ 32"
  proof (rule ccontr)
    assume "\<not> unat a + unat c < 2 ^ 32"
    then have "unat (a + c) = unat a + unat c - 2 ^ 32" by (simp add: unat_plus_if')
    moreover have "unat c < 2 ^ 32" using unsigned_less [of c, where 'a = nat] by simp
    ultimately show False using assms(1) \<open>\<not> unat a + unat c < 2 ^ 32\<close> by (simp only: word_less_nat_alt)
  qed
  then have "unat (a + c) = unat a + unat c" by (simp add: unat_plus_if')
  then show ?thesis using assms(2) by (simp add: word_le_nat_alt)
qed

lemma schedule_for_me_dks [simp]: "Dks (schedule_for_me p w m) = Dks m"
  by (simp add: schedule_for_me_def split: option.split)

lemma set_timeslice_dks [simp]: "Dks (set_timeslice w t m) = Dks m"
  by (simp add: set_timeslice_def)

lemma dispatch_cases:
  obtains (error) "DKSDispatchIO type p m = (EBUSERROR, m)"
  | (accepted) d where "DKSSelectedDrive (Dks m) = Some d" "\<not> busy (Dks m) d"
      "unat (DKSPortA (Dks m)) + unat (DKSTransferCount (Dks m)) < unat (SectorCount (disk_of m d))"
      "DKSDispatchIO type p m = (EBUSSUCCESS,
         if OperationInterval (disk_of (dispatched type d m) d) = 0 then DKSCompleteTransfer d (dispatched type d m)
         else schedule_for_me p (disk_schedulable d) (dispatched type d m))"
proof (cases "DKSSelectedDrive (Dks m)")
  case None
  then show ?thesis using error by (simp add: DKSDispatchIO_def)
next
  case (Some d)
  let ?g = "DKSPortA (Dks m) + DKSTransferCount (Dks m) < DKSPortA (Dks m)"
  let ?e = "SectorCount (disk_of m d) \<le> DKSPortA (Dks m) + DKSTransferCount (Dks m)"
  show ?thesis
  proof (cases "?g \<or> ?e \<or> busy (Dks m) d")
    case True
    then show ?thesis using error Some by (auto simp: DKSDispatchIO_def Let_def busy_test)
  next
    case False
    have "DKSDispatchIO type p m = (EBUSSUCCESS,
         if OperationInterval (disk_of (dispatched type d m) d) = 0 then DKSCompleteTransfer d (dispatched type d m)
         else schedule_for_me p (disk_schedulable d) (dispatched type d m))"
      using False Some by (simp add: DKSDispatchIO_def Let_def busy_test)
    then show ?thesis using accepted [OF Some] False dispatch_guard by blast
  qed
qed

lemma dispatched_dks:
  obtains disk where "Dks (dispatched type d m) = (Dks m)\<lparr>DKSDisks := (DKSDisks (Dks m))(d := disk),
      DKSStatus := DKSStatus (Dks m) OR disk_bit d\<rparr>"
    "DiskPresent disk = DiskPresent (disk_of m d)" "SectorsPerTrack disk = SectorsPerTrack (disk_of m d)"
    "PlatterLocation disk = PlatterLocation (disk_of m d)" "SectorCount disk = SectorCount (disk_of m d)"
    "TransferSector disk = DKSPortA (Dks m)" "TransferCount disk = DKSTransferCount (Dks m)"
    "TransferAddress disk = DKSTransferAddress (Dks m)" "IoType disk = type" "DiskImage disk = DiskImage (disk_of m d)"
    "Completing disk = Completing (disk_of m d)" "\<not> DKSAsynchronous (Dks m) \<Longrightarrow> OperationInterval disk = 0"
proof
  show "Dks (dispatched type d m) = (Dks m)\<lparr>DKSDisks := (DKSDisks (Dks m))(d := disk_of (dispatched type d m) d),
      DKSStatus := DKSStatus (Dks m) OR disk_bit d\<rparr>"
    by (simp add: dispatched_def Let_def DKSSeek_def)
qed (simp_all add: dispatched_def Let_def DKSSeek_def disk_of_def)

lemma dispatched_ok:
  assumes "dks_ok (Dks m)" "DKSSelectedDrive (Dks m) = Some d"
    and "unat (DKSPortA (Dks m)) + unat (DKSTransferCount (Dks m)) < unat (SectorCount (disk_of m d))"
  shows "dks_ok (Dks (dispatched type d m))"
proof -
  have p: "DiskPresent (disk_of m d)" "disk_ok (disk_of m d)" "d < 8"
    using assms(1,2) by (auto simp: dks_ok_def disk_of_def)
  obtain disk where e: "Dks (dispatched type d m) = (Dks m)\<lparr>DKSDisks := (DKSDisks (Dks m))(d := disk),
      DKSStatus := DKSStatus (Dks m) OR disk_bit d\<rparr>"
    and f: "DiskPresent disk = DiskPresent (disk_of m d)" "SectorsPerTrack disk = SectorsPerTrack (disk_of m d)"
      "PlatterLocation disk = PlatterLocation (disk_of m d)" "SectorCount disk = SectorCount (disk_of m d)"
      "TransferSector disk = DKSPortA (Dks m)" "TransferCount disk = DKSTransferCount (Dks m)"
      "TransferAddress disk = DKSTransferAddress (Dks m)"
    by (rule dispatched_dks [of type d m])
  have "disk_ok disk" using p(2) f by (simp add: disk_ok_def)
  moreover have "pending_ok disk" using assms f by (simp add: pending_ok_def dks_ok_def)
  ultimately show ?thesis
    using assms(1) p f(1) unfolding e dks_ok_def by (auto simp: busy_def status_bits disk_of_def)
qed

lemma disk_dispatch_ok:
  assumes "dks_ok (Dks m)"
  shows "dks_ok (Dks (snd (DKSDispatchIO type p m)))"
proof (cases rule: dispatch_cases [of type p m])
  case error
  then show ?thesis using assms by simp
next
  case (accepted d)
  then show ?thesis using dispatched_ok [OF assms accepted(1,3)] by (simp add: complete_ok)
qed

lemma ports_ok:
  assumes "dks_ok (Dks m)"
  shows "dks_ok (Dks (snd (DKSWriteCMD st port v p m)))" "dks_ok (Dks (snd (DKSWritePortA port v p m)))"
    "dks_ok (Dks (snd (DKSWritePortB port v p m)))" "dks_ok (Dks (snd (snd (DKSReadCMD port p m))))"
proof -
  show "dks_ok (Dks (snd (DKSWriteCMD st port v p m)))"
  proof (cases "v = 2 \<or> v = 3")
    case True
    then show ?thesis using disk_dispatch_ok [OF assms] by (auto simp: DKSWriteCMD_def)
  next
    case False
    have n8: "unat a \<le> 8" if "\<not> a > 8" for a :: u32 using that by (simp add: word_less_nat_alt)
    have a512: "(a AND - 512) AND 511 = 0" for a :: u32 by (simp add: and.assoc)
    show ?thesis
      using False assms
      by (simp add: DKSWriteCMD_def Let_def dks_ok_def disk_of_def busy_def n8 a512 split: option.split)
  qed
qed (use assms in \<open>simp_all add: DKSWritePortA_def DKSWritePortB_def DKSReadCMD_def dks_ok_def busy_def\<close>)

lemma schedule_ok:
  assumes "dks_ok (Dks m)"
  shows "dks_ok (Dks (DKSSchedule d m))"
proof -
  have "dks_ok ((Dks m)\<lparr>DKSDisks := (DKSDisks (Dks m))(d := (disk_of m d)\<lparr>PlatterLocation := w mod SectorsPerTrack (disk_of m d)\<rparr>)\<rparr>)" for w
    using assms platter_ok by (intro dks_ok_disk) (auto simp: disk_of_def dks_ok_def)
  moreover have "dks_ok ((Dks m)\<lparr>DKSDisks := (DKSDisks (Dks m))(d := (disk_of m d)\<lparr>OperationInterval := w\<rparr>)\<rparr>)" for w
    using assms by (intro dks_ok_disk) (auto simp: disk_of_def dks_ok_def)
  ultimately show ?thesis
    using assms complete_ok [OF assms] by (simp add: DKSSchedule_def Let_def)
qed

lemma geometry_spt: "disk_geometry sectors = (spt, heads) \<Longrightarrow> spt \<in> {17, 63}"
  by (auto simp: disk_geometry_def split: if_splits)

lemma attach_ok:
  assumes "dks_ok (Dks m)" "DKSAttachImage contents len m = Some m'"
  shows "dks_ok (Dks m')"
proof -
  let ?sectors = "(of_nat len :: u32) div 512"
  obtain i where i: "i < 8" "\<not> DiskPresent (disk_of m i)" "List.find (\<lambda>i. \<not> DiskPresent (disk_of m i)) [0..<8] = Some i"
    using assms(2) unfolding DKSAttachImage_def
    by (cases "List.find (\<lambda>i. \<not> DiskPresent (disk_of m i)) [0..<8]")
      (simp_all only: option.case, auto dest: find_upt_SomeD simp del: upt_rec_numeral)
  obtain spt heads where g: "disk_geometry ?sectors = (spt, heads)" by fastforce
  define disk where "disk = (disk_of m i)\<lparr>DiskImage := contents, SectorCount := ?sectors, DiskPresent := True,
      Spinning := True, ConsecutiveZeroSeeks := 0, PlatterLocation := 0, HeadLocation := 0, OperationInterval := 0,
      SeekTo := 0, Completing := False, SectorsPerTrack := spt, CylinderCount := ?sectors div of_nat heads div spt\<rparr>"
  have m': "m' = set_disk i disk m"
    using assms(2) i(3) g by (simp add: DKSAttachImage_def Let_def disk_def del: upt_rec_numeral)
  have disk: "SectorsPerTrack disk = spt" "SectorCount disk = ?sectors" "PlatterLocation disk = 0"
    by (simp_all add: disk_def)
  have "unat (of_nat len :: u32) < 2 ^ 32" using unsigned_less [of "of_nat len :: u32", where 'a = nat] by simp
  then have "unat ?sectors < 2 ^ 23" by (simp add: unat_div)
  then have ok: "disk_ok disk" using disk geometry_spt [OF g] by (auto simp: disk_ok_def)
  have "\<not> busy (Dks m) i" using i assms(1) by (auto simp: dks_ok_def disk_of_def)
  then show ?thesis
    using ok i(1,2) assms(1) unfolding m' dks_ok_def by (auto simp: busy_def disk_of_def)
qed

text \<open>
  Whatever the guest writes to the controller's ports, whatever time the scheduler gives
  it and whatever image is attached, a pending transfer lies inside its disk, has at most
  eight sectors (its 4096-byte buffer) and starts at a multiple of 512 in memory, the selected and
  the busy disks are present, and the platter is within a track.
\<close>

theorem dks_transfers_bounded:
  assumes "dks_ok (Dks m)"
  shows "dks_ok (Dks (snd (DKSWriteCMD st port v p m))) \<and> dks_ok (Dks (snd (DKSWritePortA port v p m))) \<and>
    dks_ok (Dks (snd (DKSWritePortB port v p m))) \<and> dks_ok (Dks (snd (snd (DKSReadCMD port p m)))) \<and>
    dks_ok (Dks (DKSSchedule d m)) \<and>
    (\<forall>contents len m'. DKSAttachImage contents len m = Some m' \<longrightarrow> dks_ok (Dks m')) \<and> dks_ok (Dks (DKSReset m))"
proof -
  have "dks_ok (Dks (DKSReset m))" using assms by (simp add: DKSReset_def dks_ok_def busy_def)
  then show ?thesis using ports_ok [OF assms] schedule_ok [OF assms] attach_ok [OF assms] by blast
qed

section \<open>Transfers between RAM and a disk\<close>

definition transfer_bytes :: "DKSDisk \<Rightarrow> nat" where
  "transfer_bytes disk = unat (TransferCount disk * 512)"

definition transfer_start :: "DKSDisk \<Rightarrow> nat" where
  "transfer_start disk = unat (TransferSector disk * 512)"

lemma sectors_512: "unat (c :: u32) < 2 ^ 23 \<Longrightarrow> unat (c * 512) = 512 * unat c"
  by (simp add: unat_word_ariths)

lemma transfer_small:
  assumes "pending_ok disk" "disk_ok disk"
  shows "transfer_bytes disk = 512 * unat (TransferCount disk)" "transfer_start disk = 512 * unat (TransferSector disk)"
    "transfer_bytes disk \<le> 4096"
  using assms by (simp_all add: transfer_bytes_def transfer_start_def pending_ok_def disk_ok_def sectors_512)

lemma complete_image:
  assumes "transfer_bytes (disk_of m d) \<le> 4096" "ram_inv (RamBoards m)"
    and "bus_acc (TransferAddress (disk_of m d)) (transfer_bytes (disk_of m d)) m"
  shows "IoType (disk_of m d) \<noteq> DKS_READ \<Longrightarrow>
      DiskImage (disk_of (DKSCompleteTransfer d m) d) = poke (DiskImage (disk_of m d)) (transfer_start (disk_of m d))
        (snd (bus_read ports p (TransferAddress (disk_of m d)) (transfer_bytes (disk_of m d)) m)) \<and>
      RamBoards (DKSCompleteTransfer d m) = RamBoards m"
    and "IoType (disk_of m d) = DKS_READ \<Longrightarrow>
      DiskImage (disk_of (DKSCompleteTransfer d m) d) = DiskImage (disk_of m d) \<and>
      RamBoards (DKSCompleteTransfer d m) = RamBoards (snd (bus_write ports p (TransferAddress (disk_of m d))
        (peek (DiskImage (disk_of m d)) (transfer_start (disk_of m d)) (transfer_bytes (disk_of m d)))
        (transfer_bytes (disk_of m d)) m))"
proof -
  let ?disk = "disk_of m d" let ?n = "transfer_bytes ?disk" let ?a = "TransferAddress ?disk"
  have w: "ram_window ?a" "ram_acc ?a ?n (RamBoards m)" using assms(3) by (simp_all add: bus_acc_def)
  have n: "unat (TransferCount ?disk * 512) = ?n" "unat (TransferSector ?disk * 512) = transfer_start ?disk"
    by (simp_all add: transfer_bytes_def transfer_start_def)
  show "DiskImage (disk_of (DKSCompleteTransfer d m) d) = poke (DiskImage ?disk) (transfer_start ?disk)
        (snd (bus_read ports p ?a ?n m)) \<and> RamBoards (DKSCompleteTransfer d m) = RamBoards m"
    if "IoType ?disk \<noteq> DKS_READ"
  proof -
    let ?bs = "peek (RAMSlots (RamBoards m) (ram_slot ?a)) (ram_off ?a) ?n"
    have r: "snd (bus_read ports p ?a ?n m) = ?bs"
      using w assms(1) by (simp add: bus_read_def bus_ram_read RAMRead_eq)
    have t: "peek (poke T 0 ?bs) 0 ?n = ?bs" for T by (rule peek_poke_same) simp
    show ?thesis
      using that w assms(1) unfolding r
      by (simp add: DKSCompleteTransfer_def dks_write_image_def Let_def bus_ram_read RAMRead_eq n t
          CopyWithLength_def) (simp add: disk_of_def)
  qed
  show "DiskImage (disk_of (DKSCompleteTransfer d m) d) = DiskImage ?disk \<and>
      RamBoards (DKSCompleteTransfer d m) = RamBoards (snd (bus_write ports p ?a
        (peek (DiskImage ?disk) (transfer_start ?disk) ?n) ?n m))"
    if "IoType ?disk = DKS_READ"
  proof -
    let ?bs = "peek (DiskImage ?disk) (transfer_start ?disk) ?n"
    have t: "peek (CopyWithLength T 0 ?bs ?n) 0 ?n = ?bs" for T
      by (simp add: CopyWithLength_def peek_poke_same)
    show ?thesis
      using that w assms(1)
      by (simp add: DKSCompleteTransfer_def dks_read_image_def Let_def bus_write_def bus_ram_write RAMWrite_eq n t)
        (simp add: disk_of_def)
  qed
qed

text \<open>What a driver writes to the ports for one transfer: the count, the address and the sector, then the command.\<close>

definition dks_setup :: "EBusSuccess \<Rightarrow> nat \<Rightarrow> u32 \<Rightarrow> u32 \<Rightarrow> u32 \<Rightarrow> Machine \<Rightarrow> Machine" where
  "dks_setup st p n a s m =
    (let m = snd (DKSWritePortA 0x1A n p m); m = snd (DKSWriteCMD st 0x19 8 p m);
         m = snd (DKSWritePortA 0x1A a p m); m = snd (DKSWriteCMD st 0x19 9 p m)
     in snd (DKSWritePortA 0x1A s p m))"

definition dks_command :: "EBusSuccess \<Rightarrow> nat \<Rightarrow> u32 \<Rightarrow> u32 \<Rightarrow> u32 \<Rightarrow> u32 \<Rightarrow> Machine \<Rightarrow> EBusSuccess \<times> Machine" where
  "dks_command st p cmd n s a m = DKSWriteCMD st 0x19 cmd p (dks_setup st p n a s m)"

definition drive_ready :: "nat \<Rightarrow> u32 \<Rightarrow> u32 \<Rightarrow> Machine \<Rightarrow> bool" where
  "drive_ready d n s m \<longleftrightarrow> dks_ok (Dks m) \<and> \<not> DKSAsynchronous (Dks m) \<and> DKSSelectedDrive (Dks m) = Some d \<and>
     \<not> busy (Dks m) d \<and> n \<noteq> 0 \<and> unat n \<le> 8 \<and> unat s + unat n < unat (SectorCount (disk_of m d))"

lemma aligned: "a AND 511 = 0 \<Longrightarrow> a AND NOT 511 = (a :: u32)"
proof -
  assume "a AND 511 = 0"
  have "a = (a AND 511) OR (a AND NOT 511)" by (rule bit_word_eqI) (auto simp: bit_simps)
  then show ?thesis using \<open>a AND 511 = 0\<close> by simp
qed

lemma setup_eq:
  assumes "n \<noteq> 0" "unat n \<le> 8" "a AND 511 = 0"
  shows "dks_setup st p n a s m = m\<lparr>Dks := (Dks m)\<lparr>DKSPortA := s, DKSTransferCount := n, DKSTransferAddress := a\<rparr>\<rparr>"
proof -
  have n: "\<not> n > 8" using assms(2) by (simp add: word_less_nat_alt)
  show ?thesis
    unfolding dks_setup_def Let_def DKSWritePortA_def DKSWriteCMD_def
    using assms(1) n aligned [OF assms(3)] by simp
qed

lemma command_sync:
  assumes "drive_ready d n s m" "a AND 511 = 0" "cmd = 2 \<or> cmd = 3"
  obtains m' where "dks_command st p cmd n s a m = (EBUSSUCCESS, DKSCompleteTransfer d m')"
    "RamBoards m' = RamBoards m" "dks_ok (Dks m')" "DiskPresent (disk_of m' d)"
    "DiskImage (disk_of m' d) = DiskImage (disk_of m d)" "SectorCount (disk_of m' d) = SectorCount (disk_of m d)"
    "TransferSector (disk_of m' d) = s" "TransferCount (disk_of m' d) = n" "TransferAddress (disk_of m' d) = a"
    "IoType (disk_of m' d) = (if cmd = 2 then DKS_READ else DKS_WRITE)" "DKSSelectedDrive (Dks m') = Some d"
    "\<not> DKSAsynchronous (Dks m')" "pending_ok (disk_of m' d)" "disk_ok (disk_of m' d)"
proof -
  define type where "type = (if cmd = 2 then DKS_READ else DKS_WRITE)"
  define m0 where "m0 = dks_setup st p n a s m"
  have m0: "m0 = m\<lparr>Dks := (Dks m)\<lparr>DKSPortA := s, DKSTransferCount := n, DKSTransferAddress := a\<rparr>\<rparr>"
    unfolding m0_def using assms by (intro setup_eq) (simp_all add: drive_ready_def)
  have ok: "dks_ok (Dks m0)" using assms(1,2) unfolding m0 drive_ready_def dks_ok_def by (simp add: busy_def)
  have d8: "DiskPresent (disk_of m d)" "d < 8" using assms(1) by (auto simp: drive_ready_def dks_ok_def disk_of_def)
  have sel: "DKSSelectedDrive (Dks m0) = Some d" "disk_of m0 d = disk_of m d" "\<not> DKSAsynchronous (Dks m0)"
    using assms(1) by (simp_all add: m0 drive_ready_def disk_of_def)
  have g: "unat (DKSPortA (Dks m0)) + unat (DKSTransferCount (Dks m0)) < unat (SectorCount (disk_of m0 d))"
    using assms(1) by (simp add: m0 drive_ready_def disk_of_def)
  define m' where "m' = dispatched type d m0"
  obtain disk where e: "Dks m' = (Dks m0)\<lparr>DKSDisks := (DKSDisks (Dks m0))(d := disk),
      DKSStatus := DKSStatus (Dks m0) OR disk_bit d\<rparr>"
    and f: "DiskPresent disk = DiskPresent (disk_of m0 d)" "SectorCount disk = SectorCount (disk_of m0 d)"
      "TransferSector disk = DKSPortA (Dks m0)" "TransferCount disk = DKSTransferCount (Dks m0)"
      "TransferAddress disk = DKSTransferAddress (Dks m0)" "IoType disk = type" "DiskImage disk = DiskImage (disk_of m0 d)"
      "OperationInterval disk = 0"
    unfolding m'_def by (rule dispatched_dks [of type d m0]) (use sel in auto)
  have ok': "dks_ok (Dks m')" unfolding m'_def by (rule dispatched_ok [OF ok sel(1) g])
  have dk: "disk_of m' d = disk" by (simp add: disk_of_def e)
  have b: "busy (Dks m') d" using d8(2) by (simp add: busy_def e status_bits)
  have po: "pending_ok disk" "disk_ok disk" using ok' b d8 dk f(1) sel(2) by (auto simp: dks_ok_def disk_of_def)
  have "DKSDispatchIO type p m0 = (EBUSSUCCESS, DKSCompleteTransfer d m')"
  proof (cases rule: dispatch_cases [of type p m0])
    case error
    have "\<not> DKSPortA (Dks m0) + DKSTransferCount (Dks m0) < DKSPortA (Dks m0)"
      "\<not> DKSPortA (Dks m0) + DKSTransferCount (Dks m0) \<ge> SectorCount (disk_of m0 d)"
      using g unsigned_less [of "SectorCount (disk_of m0 d)", where 'a = nat]
      by (simp_all add: word_less_nat_alt word_le_nat_alt unat_plus_if')
    moreover have "\<not> busy (Dks m0) d" using assms(1) by (simp add: m0 drive_ready_def busy_def)
    ultimately show ?thesis
      using sel dk f(8) by (simp add: DKSDispatchIO_def Let_def busy_test m'_def [symmetric])
  next
    case (accepted d')
    then show ?thesis using sel(1) dk f(8) by (simp add: m'_def)
  qed
  then have "dks_command st p cmd n s a m = (EBUSSUCCESS, DKSCompleteTransfer d m')"
    using assms(3) by (auto simp: dks_command_def m0_def [symmetric] DKSWriteCMD_def type_def)
  moreover have "RamBoards m' = RamBoards m"
    by (simp add: m'_def dispatched_def DKSSeek_def Let_def m0)
  ultimately show ?thesis
    using that ok' dk f sel po d8(1) by (simp add: m0 e type_def)
qed

lemma complete_status:
  "DKSAsynchronous (Dks (DKSCompleteTransfer d m)) = DKSAsynchronous (Dks m)"
  "DKSSelectedDrive (Dks (DKSCompleteTransfer d m)) = DKSSelectedDrive (Dks m)"
  "d < 32 \<Longrightarrow> busy (Dks (DKSCompleteTransfer d m)) e \<longleftrightarrow> busy (Dks m) e \<and> e \<noteq> d"
  "d < 32 \<Longrightarrow> bit (DKSCompleted (Dks (DKSCompleteTransfer d m))) d"
  "SectorCount (disk_of (DKSCompleteTransfer d m) e) = SectorCount (disk_of m e)"
  "OperationInterval (disk_of (DKSCompleteTransfer d m) e) = OperationInterval (disk_of m e)"
  "ConsecutiveZeroSeeks (disk_of (DKSCompleteTransfer d m) e) = ConsecutiveZeroSeeks (disk_of m e)"
proof -
  obtain temp img where "Dks (DKSCompleteTransfer d m) = completed d temp img (Dks m)" using complete_dks by blast
  then show "DKSAsynchronous (Dks (DKSCompleteTransfer d m)) = DKSAsynchronous (Dks m)"
    "DKSSelectedDrive (Dks (DKSCompleteTransfer d m)) = DKSSelectedDrive (Dks m)"
    "d < 32 \<Longrightarrow> busy (Dks (DKSCompleteTransfer d m)) e \<longleftrightarrow> busy (Dks m) e \<and> e \<noteq> d"
    "d < 32 \<Longrightarrow> bit (DKSCompleted (Dks (DKSCompleteTransfer d m))) d"
    "SectorCount (disk_of (DKSCompleteTransfer d m) e) = SectorCount (disk_of m e)"
    "OperationInterval (disk_of (DKSCompleteTransfer d m) e) = OperationInterval (disk_of m e)"
    "ConsecutiveZeroSeeks (disk_of (DKSCompleteTransfer d m) e) = ConsecutiveZeroSeeks (disk_of m e)"
    by (auto simp: completed_def Let_def busy_def disk_of_def disk_bit_def bit_simps dest: bit_imp_le_length)
qed

text \<open>The write half: the image holds the bytes of RAM, and the drive is ready for the next command.\<close>

lemma dks_written:
  assumes "drive_ready d n s m" "ram_inv (RamBoards m)" "a AND 511 = 0" "bus_acc a (512 * unat n) m"
    and "dks_command st p 3 n s a m = (r1, m1)"
  obtains bs where "r1 = EBUSSUCCESS" "bus_read ports q a (512 * unat n) m = (EBUSSUCCESS, bs)" "length bs = 512 * unat n"
    "DiskImage (disk_of m1 d) = poke (DiskImage (disk_of m d)) (512 * unat s) bs" "RamBoards m1 = RamBoards m" "drive_ready d n s m1"
proof -
  let ?n = "512 * unat n"
  have d8: "d < 8" using assms(1) by (auto simp: drive_ready_def dks_ok_def)
  obtain w where w: "r1 = EBUSSUCCESS" "m1 = DKSCompleteTransfer d w" "RamBoards w = RamBoards m" "dks_ok (Dks w)"
      "DiskImage (disk_of w d) = DiskImage (disk_of m d)" "SectorCount (disk_of w d) = SectorCount (disk_of m d)"
      "TransferSector (disk_of w d) = s" "TransferCount (disk_of w d) = n" "TransferAddress (disk_of w d) = a"
      "IoType (disk_of w d) = DKS_WRITE" "DKSSelectedDrive (Dks w) = Some d" "\<not> DKSAsynchronous (Dks w)"
      "pending_ok (disk_of w d)" "disk_ok (disk_of w d)"
    by (rule command_sync [OF assms(1,3), of 3 st p]) (use assms(5) in auto)
  note tw = transfer_small [OF w(13,14), unfolded w(7,8)]
  obtain bs where bs: "bus_read ports q a ?n m = (EBUSSUCCESS, bs)" "length bs = ?n"
    using bus.rd_acc [OF assms(2) _ _ assms(4), of ports q] assms(4) tw by (simp add: bus_acc_def)
  have same: "bus_read ports q a ?n w = bus_read ports q a ?n m" and accw: "bus_acc a ?n w"
    using assms(4) w(3) by (simp_all add: bus_read_def bus_ram_read bus_acc_def case_prod_beta)
  have i1: "DiskImage (disk_of m1 d) = poke (DiskImage (disk_of m d)) (512 * unat s) bs" "RamBoards m1 = RamBoards m"
    using complete_image(1) [of w d ports q] assms(2) accw w tw same bs(1) by simp_all
  have "drive_ready d n s m1"
    using assms(1) complete_ok [OF w(4), of d] w(6,11,12) d8
    by (simp add: drive_ready_def w(2) complete_status)
  then show thesis by (rule that [OF w(1) bs i1])
qed

text \<open>
  Claim C23. What a driver writes to a disk it reads back: in the synchronous mode, a write command
  for up to eight sectors followed by a read command for the same sectors to another place in RAM
  succeeds, leaves there the bytes that the first place held, changes no other sector, and
  reports the disk as completed and idle.
\<close>

theorem dks_disk_roundtrip:
  assumes "drive_ready d n s m" and "ram_inv (RamBoards m)" and "a AND 511 = 0" "b AND 511 = 0"
    and "bus_acc a (512 * unat n) m" "bus_acc b (512 * unat n) m"
    and "dks_command st p 3 n s a m = (r1, m1)" and "dks_command st' p' 2 n s b m1 = (r2, m2)"
  shows "r1 = EBUSSUCCESS \<and> r2 = EBUSSUCCESS \<and>
    bus_read ports q b (512 * unat n) m2 = bus_read ports q a (512 * unat n) m \<and>
    (\<forall>i. \<not> (512 * unat s \<le> i \<and> i < 512 * (unat s + unat n)) \<longrightarrow>
       DiskImage (disk_of m2 d) i = DiskImage (disk_of m d) i) \<and>
    \<not> busy (Dks m2) d \<and> bit (DKSCompleted (Dks m2)) d"
proof -
  let ?n = "512 * unat n"
  have d8: "d < 8" using assms(1) by (auto simp: drive_ready_def dks_ok_def)
  obtain bs where bs: "r1 = EBUSSUCCESS" "bus_read ports q a ?n m = (EBUSSUCCESS, bs)" "length bs = ?n"
    and i1: "DiskImage (disk_of m1 d) = poke (DiskImage (disk_of m d)) (512 * unat s) bs" "RamBoards m1 = RamBoards m"
    and ready: "drive_ready d n s m1"
    by (rule dks_written [OF assms(1,2,3,5,7)])
  obtain r where r: "r2 = EBUSSUCCESS" "m2 = DKSCompleteTransfer d r" "RamBoards r = RamBoards m1" "dks_ok (Dks r)"
      "DiskImage (disk_of r d) = DiskImage (disk_of m1 d)"
      "TransferSector (disk_of r d) = s" "TransferCount (disk_of r d) = n" "TransferAddress (disk_of r d) = b"
      "IoType (disk_of r d) = DKS_READ" "pending_ok (disk_of r d)" "disk_ok (disk_of r d)"
    by (rule command_sync [OF ready assms(4), of 2 st' p']) (use assms(8) in auto)
  note tr = transfer_small [OF r(10,11), unfolded r(6,7)]
  have accr: "bus_acc b ?n r" using assms(6) r(3) i1(2) by (simp add: bus_acc_def)
  have pk: "peek (poke M o' bs) o' ?n = bs" for M o' using bs(3) by (rule peek_poke_same)
  have i2: "DiskImage (disk_of m2 d) = DiskImage (disk_of m1 d)"
    "RamBoards m2 = RamBoards (snd (bus_write ports q b bs ?n r))"
    using complete_image(2) [of r d ports q] assms(2) accr r tr i1 pk by simp_all
  have inv: "ram_inv (RamBoards r)" using assms(2) r(3) i1(2) by simp
  have win: "ram_window b" using assms(6) by (simp add: bus_acc_def)
  obtain r' where r': "bus_write ports q b bs ?n r = (EBUSSUCCESS, r')"
    using bus.wr_acc [OF inv win tr(3) [unfolded tr(1)] accr, of bs ports q] bs(3) tr by auto
  have "bus_read ports q b ?n r' = (EBUSSUCCESS, take ?n bs)"
    using bus.read_after_write [OF inv win _ _ r'] tr bs(3) by simp
  moreover have "bus_read ports q b ?n m2 = bus_read ports q b ?n r'"
    using i2(2) r' win by (simp add: bus_read_def bus_ram_read case_prod_beta)
  ultimately have rd: "bus_read ports q b ?n m2 = bus_read ports q a ?n m" using bs(2,3) by simp
  have "DiskImage (disk_of m2 d) i = DiskImage (disk_of m d) i"
    if "\<not> (512 * unat s \<le> i \<and> i < 512 * (unat s + unat n))" for i
    using that bs(3) i1(1) i2(1) by (simp add: poke_out algebra_simps)
  then show ?thesis
    using rd bs(1) r(1) d8 by (simp add: r(2) complete_status)
qed

section \<open>The scheduler's time\<close>

text \<open>The disk's work function in successive ticks of the given lengths.\<close>

fun dks_ticks :: "nat \<Rightarrow> int list \<Rightarrow> Machine \<Rightarrow> Machine" where
  "dks_ticks d [] m = m"
| "dks_ticks d (dt # dts) m =
     dks_ticks d dts (DKSSchedule d (set_timeslice (disk_schedulable d)
       (DKSStartTimeslice dt (Timeslice (Sched m) (disk_schedulable d))) m))"

lemma disk_of_timeslice [simp]: "disk_of (set_timeslice w t m) = disk_of m"
  by (simp add: disk_of_def fun_eq_iff)

lemma schedule_idle:
  assumes "\<not> busy (Dks m) d"
  shows "DKSStatus (Dks (DKSSchedule d m)) = DKSStatus (Dks m)" "DKSCompleted (Dks (DKSSchedule d m)) = DKSCompleted (Dks m)"
  using assms by (simp_all add: DKSSchedule_def Let_def busy_test)

lemma ticks_idle:
  "\<not> busy (Dks m) d \<Longrightarrow> \<not> busy (Dks (dks_ticks d dts m)) d \<and> DKSCompleted (Dks (dks_ticks d dts m)) = DKSCompleted (Dks m)"
proof (induction dts arbitrary: m)
  case (Cons dt dts)
  define m1 where "m1 = set_timeslice (disk_schedulable d)
       (DKSStartTimeslice dt (Timeslice (Sched m) (disk_schedulable d))) m"
  have "\<not> busy (Dks m1) d" using Cons.prems by (simp add: m1_def)
  then have "\<not> busy (Dks (DKSSchedule d m1)) d" "DKSCompleted (Dks (DKSSchedule d m1)) = DKSCompleted (Dks m)"
    using schedule_idle [of m1 d] by (simp_all add: busy_def m1_def)
  then show ?case using Cons.IH [of "DKSSchedule d m1"] by (simp add: m1_def)
qed simp

lemma tick_word: "0 \<le> t \<Longrightarrow> t < 2 ^ 31 \<Longrightarrow> uint (word_of_int t :: u32) = t"
  by (simp add: uint_word_of_int)

lemma schedule_wait:
  assumes "busy (Dks m) d" "\<not> Completing (disk_of m d)" "0 \<le> t" "t < 2 ^ 31" "t < uint (OperationInterval (disk_of m d))"
  shows "Dks (DKSSchedule d (set_timeslice (disk_schedulable d) t m)) =
    (Dks m)\<lparr>DKSDisks := (DKSDisks (Dks m))(d := (disk_of m d)\<lparr>OperationInterval :=
       OperationInterval (disk_of m d) - word_of_int t\<rparr>)\<rparr>"
proof -
  have "\<not> OperationInterval (disk_of m d) \<le> word_of_int t"
    using assms(5) tick_word [OF assms(3,4)] by (simp add: word_le_def)
  then show ?thesis
    using assms(1,2) by (simp add: DKSSchedule_def Let_def busy_test) (simp add: set_timeslice_def)
qed

lemma schedule_done:
  assumes "busy (Dks m) d" "\<not> Completing (disk_of m d)" "0 \<le> t" "t < 2 ^ 31" "uint (OperationInterval (disk_of m d)) \<le> t"
  shows "Dks (DKSSchedule d (set_timeslice (disk_schedulable d) t m)) =
    Dks (DKSCompleteTransfer d (set_timeslice (disk_schedulable d) t m))"
proof -
  have "OperationInterval (disk_of m d) \<le> word_of_int t"
    using assms(5) tick_word [OF assms(3,4)] by (simp add: word_le_def)
  then show ?thesis
    using assms(1,2) by (simp add: DKSSchedule_def Let_def busy_test) (simp add: set_timeslice_def)
qed

text \<open>
  In the asynchronous mode a pending transfer completes: once the ticks that the scheduler
  gives the disk add up to its operation interval, it is no longer busy and is reported as completed.
\<close>

theorem dks_transfer_completes:
  assumes "busy (Dks m) d" and "d < DKSDISKS" and "\<not> Completing (disk_of m d)"
    and "dts \<noteq> []" and "\<forall>dt \<in> set dts. 0 \<le> dt \<and> dt < 2 ^ 31"
    and "uint (OperationInterval (disk_of m d)) \<le> sum_list dts"
  shows "\<not> busy (Dks (dks_ticks d dts m)) d \<and> bit (DKSCompleted (Dks (dks_ticks d dts m))) d"
  using assms
proof (induction dts arbitrary: m)
  case (Cons dt dts)
  let ?m = "DKSSchedule d (set_timeslice (disk_schedulable d) dt m)"
  have e: "dks_ticks d (dt # dts) m = dks_ticks d dts ?m" by (simp add: DKSStartTimeslice_def)
  have dt: "0 \<le> dt" "dt < 2 ^ 31" using Cons.prems(5) by auto
  show ?case
  proof (cases "uint (OperationInterval (disk_of m d)) \<le> dt")
    case True
    note k = schedule_done [OF Cons.prems(1,3) dt True]
    have "\<not> busy (Dks ?m) d" "bit (DKSCompleted (Dks ?m)) d"
      using complete_status(3,4) [of d "set_timeslice (disk_schedulable d) dt m"] Cons.prems(2) by (simp_all add: k)
    then show ?thesis using ticks_idle [of ?m d dts] by (simp only: e) simp
  next
    case False
    note k = schedule_wait [OF Cons.prems(1,3) dt]
    have w: "Dks ?m = (Dks m)\<lparr>DKSDisks := (DKSDisks (Dks m))(d := (disk_of m d)\<lparr>OperationInterval :=
       OperationInterval (disk_of m d) - word_of_int dt\<rparr>)\<rparr>" using False k by simp
    have "(word_of_int dt :: u32) \<le> OperationInterval (disk_of m d)"
      using False tick_word [OF dt] by (simp add: word_le_def)
    then have oi: "uint (OperationInterval (disk_of ?m d)) = uint (OperationInterval (disk_of m d)) - dt"
      using tick_word [OF dt] w uint_sub_lem [of "word_of_int dt" "OperationInterval (disk_of m d)"]
      by (simp add: disk_of_def word_le_def)
    have ne: "dts \<noteq> []" using False Cons.prems(6) by auto
    show ?thesis
      using Cons.IH [of ?m] ne Cons.prems oi w unfolding e by (simp add: busy_def disk_of_def)
  qed
qed simp

text \<open>
  The last sector of a disk cannot be transferred: a command whose range ends exactly at
  the end of the disk is refused, for reads and writes, and changes nothing.
\<close>

theorem dks_last_sector_refused:
  assumes "DKSSelectedDrive (Dks m) = Some d" and "cmd = 2 \<or> cmd = 3"
    and "unat (DKSPortA (Dks m)) + unat (DKSTransferCount (Dks m)) = unat (SectorCount (disk_of m d))"
  shows "DKSWriteCMD st port cmd p m = (EBUSERROR, m)"
proof -
  have "unat (DKSPortA (Dks m)) + unat (DKSTransferCount (Dks m)) < 2 ^ 32"
    unfolding assms(3) using unsigned_less [of "SectorCount (disk_of m d)", where 'a = nat] by simp
  then have "unat (DKSPortA (Dks m) + DKSTransferCount (Dks m)) = unat (SectorCount (disk_of m d))"
    unfolding assms(3) [symmetric] by (simp add: unat_word_ariths)
  then have "SectorCount (disk_of m d) \<le> DKSPortA (Dks m) + DKSTransferCount (Dks m)"
    by (simp add: word_le_nat_alt)
  with assms(2) show ?thesis
    by (elim disjE) (simp_all add: DKSWriteCMD_def DKSDispatchIO_def Let_def assms(1) if_cancel)
qed

text \<open>
  What a seek adds to the interval of a disk: the time of the head and of the platter in
  milliseconds, rounded down, and nothing when both are in place, however often that happens; the
  count of such seeks, meant to charge one millisecond now and then, never leaves zero. A completed
  transfer does not clear the interval, so what was left of it is charged to the next transfer again.
\<close>

theorem dks_seek_interval:
  assumes "ConsecutiveZeroSeeks disk = 0" and "disk_ok disk"
  shows "ConsecutiveZeroSeeks (seek_disk lba disk) = 0 \<and>
    (LBA_TO_SECTOR disk lba = PlatterLocation disk \<and> LBA_TO_CYLINDER disk lba = HeadLocation disk \<longrightarrow>
       OperationInterval (seek_disk lba disk) = OperationInterval disk) \<and>
    (\<exists>ms \<ge> 0. OperationInterval (seek_disk lba disk) = OperationInterval disk + word_of_int ms) \<and>
    OperationInterval (disk_of (DKSCompleteTransfer d m) d) = OperationInterval (disk_of m d)"
proof -
  let ?cyl = "\<bar>sint (HeadLocation disk) - sint (LBA_TO_CYLINDER disk lba)\<bar>"
  let ?settle = "if HeadLocation disk \<noteq> LBA_TO_CYLINDER disk lba then 30 else 0 :: int"
  let ?s = "sint (LBA_TO_SECTOR disk lba) - sint (PlatterLocation disk)"
  let ?spt = "uint (SectorsPerTrack disk)"
  let ?sec = "if ?s < 0 then ?s + ?spt else ?s"
  let ?ms = "(1000 * ?sec + 9 * ?spt * (?cyl + ?settle)) div (90 * ?spt)"
  have spt: "?spt = 17 \<or> ?spt = 63" and pl: "unat (PlatterLocation disk) < unat (SectorsPerTrack disk)"
    and sptn: "unat (SectorsPerTrack disk) = 17 \<or> unat (SectorsPerTrack disk) = 63"
    using assms(2) by (auto simp: disk_ok_def word_less_nat_alt)
  have small: "0 \<le> sint w \<and> sint w < ?spt" if "unat w < unat (SectorsPerTrack disk)" for w :: u32
  proof -
    have "sint w = int (unat w)" using that sptn by (intro sint_small) auto
    then show ?thesis using that by (simp only: uint_nat of_nat_less_iff of_nat_0_le_iff)
  qed
  have "unat (LBA_TO_SECTOR disk lba) < unat (SectorsPerTrack disk)"
    using sptn unfolding LBA_TO_SECTOR_def unat_mod by (intro mod_less_divisor) linarith
  then have s: "0 \<le> ?sec" using small [OF pl] small [of "LBA_TO_SECTOR disk lba"] by simp
  then have ms: "0 \<le> ?ms" using spt by (intro pos_imp_zdiv_nonneg_iff [THEN iffD2]) auto
  have oi: "OperationInterval (seek_disk lba disk) = OperationInterval disk + word_of_int ?ms"
    using assms(1) spt unfolding seek_disk_def Let_def by auto
  have z: "ConsecutiveZeroSeeks (seek_disk lba disk) = 0"
    using assms(1) spt unfolding seek_disk_def Let_def by auto
  show ?thesis using z oi ms complete_status(6) by auto
qed

section \<open>A sample machine\<close>

definition dks_sample :: Machine where
  "dks_sample = machine_zero\<lparr>Dks := dks_zero\<lparr>DKSDisks := (\<lambda>_. disk_zero)(0 := disk_zero\<lparr>DiskImage := of_nat,
     DiskPresent := True, SectorCount := 100, SectorsPerTrack := 63\<rparr>), DKSSelectedDrive := Some 0\<rparr>\<rparr>"

lemma dks_sample_ok: "dks_ok (Dks dks_sample)"
  by (simp add: dks_sample_def dks_ok_def disk_ok_def dks_zero_def disk_zero_def busy_def)

lemma dks_sample_fields:
  "DKSSelectedDrive (Dks dks_sample) = Some 0" "\<not> DKSAsynchronous (Dks dks_sample)" "DKSStatus (Dks dks_sample) = 0"
  "SectorCount (disk_of dks_sample 0) = 100" "ConsecutiveZeroSeeks (disk_of dks_sample 0) = 0"
  "disk_ok (disk_of dks_sample 0)" "Completing (disk_of dks_sample 0) = False"
  by (simp_all add: dks_sample_def dks_zero_def disk_zero_def disk_of_def disk_ok_def)

lemma dks_sample_ram:
  "ram_inv (RamBoards dks_sample)" "bus_acc 0x1000 1024 dks_sample" "bus_acc 0x20000 1024 dks_sample"
  by (simp_all add: dks_sample_def machine_zero_def ram_inv_def ram_sized_def bus_acc_def ram_window_def ram_acc_def
      ram_off_def ram_slot_def)

lemma dks_transfers_bounded_witness:
  "dks_ok (Dks (DKSSchedule 0 dks_sample)) \<and> dks_ok (Dks (snd (DKSWriteCMD EBUSSUCCESS 0x19 8 0 dks_sample)))"
  using dks_transfers_bounded [OF dks_sample_ok] by blast

lemma dks_disk_roundtrip_witness:
  "let (r1, m1) = dks_command EBUSERROR 0 3 2 10 0x1000 dks_sample; (r2, m2) = dks_command EBUSERROR 0 2 2 10 0x20000 m1
   in r1 = EBUSSUCCESS \<and> r2 = EBUSSUCCESS \<and>
     bus_read dma_ports 0 0x20000 1024 m2 = bus_read dma_ports 0 0x1000 1024 dks_sample"
proof -
  obtain r1 m1 where 1: "dks_command EBUSERROR 0 3 2 10 0x1000 dks_sample = (r1, m1)" by fastforce
  obtain r2 m2 where 2: "dks_command EBUSERROR 0 2 2 10 0x20000 m1 = (r2, m2)" by fastforce
  have "drive_ready 0 2 10 dks_sample"
    by (simp add: drive_ready_def dks_sample_ok dks_sample_fields busy_def)
  from dks_disk_roundtrip [OF this dks_sample_ram(1) _ _ _ _ 1 2, of dma_ports 0] show ?thesis
    using dks_sample_ram(2,3) by (simp add: 1 2)
qed

definition dks_busy_sample :: Machine where
  "dks_busy_sample = dks_sample\<lparr>Dks := (Dks dks_sample)\<lparr>DKSStatus := 1, DKSDisks := (DKSDisks (Dks dks_sample))
     (0 := (disk_of dks_sample 0)\<lparr>OperationInterval := 20\<rparr>)\<rparr>\<rparr>"

lemma dks_transfer_completes_witness:
  "bit (DKSCompleted (Dks (dks_ticks 0 [17, 17] dks_busy_sample))) 0"
proof -
  have "busy (Dks dks_busy_sample) 0" "\<not> Completing (disk_of dks_busy_sample 0)"
    "uint (OperationInterval (disk_of dks_busy_sample 0)) = 20"
    using dks_sample_fields(7) by (simp_all add: dks_busy_sample_def busy_def disk_of_def)
  then show ?thesis using dks_transfer_completes [of dks_busy_sample 0 "[17, 17]"] by simp
qed

lemma dks_last_sector_refused_witness:
  "let m = dks_setup EBUSSUCCESS 0 1 0x1000 99 dks_sample in DKSWriteCMD EBUSSUCCESS 0x19 2 0 m = (EBUSERROR, m)"
proof -
  let ?m = "dks_setup EBUSSUCCESS 0 1 0x1000 99 dks_sample"
  have "?m = dks_sample\<lparr>Dks := (Dks dks_sample)\<lparr>DKSPortA := 99, DKSTransferCount := 1, DKSTransferAddress := 0x1000\<rparr>\<rparr>"
    using setup_eq [of 1 "0x1000" EBUSSUCCESS 0 99 dks_sample] by simp
  then have "DKSSelectedDrive (Dks ?m) = Some 0"
    "unat (DKSPortA (Dks ?m)) + unat (DKSTransferCount (Dks ?m)) = unat (SectorCount (disk_of ?m 0))"
    using dks_sample_fields(1,4) by (simp_all add: disk_of_def)
  from dks_last_sector_refused [OF this(1) _ this(2), of 2 EBUSSUCCESS "0x19" 0] show ?thesis by (simp add: Let_def)
qed

lemma dks_seek_interval_witness:
  "ConsecutiveZeroSeeks (seek_disk 5 (disk_of dks_sample 0)) = 0"
  using dks_seek_interval [OF dks_sample_fields(5,6), of 5] by simp

end
