(* ===== verification/Board.thy ===== *)
theory Board
  imports Dks
begin

text \<open>
  The platform board put together: the table of ports that the devices' initialisation functions
  fill (\<^verbatim>\<open>CitronPorts\<close> of \<^verbatim>\<open>src/src/pboard.c\<close>), the board's and the bus's initialisation, and what
  holds of the bus with this table: no transfer of the disk controller comes back to a port,
  and an access that fails has no effect.
\<close>

section \<open>The table of ports\<close>

definition SerialPortsInit :: "CitronTable \<Rightarrow> CitronTable" where
  "SerialPortsInit ports = ports(
     0x10 := Some \<lparr>WritePort = SerialWriteCMD, ReadPort = SerialReadCMD\<rparr>,
     0x11 := Some \<lparr>WritePort = SerialWriteData, ReadPort = SerialReadData\<rparr>,
     0x12 := Some \<lparr>WritePort = SerialWriteCMD, ReadPort = SerialReadCMD\<rparr>,
     0x13 := Some \<lparr>WritePort = SerialWriteData, ReadPort = SerialReadData\<rparr>)"

definition DKSPortsInit :: "EBusSuccess \<Rightarrow> CitronTable \<Rightarrow> CitronTable" where
  "DKSPortsInit st ports = ports(
     0x19 := Some \<lparr>WritePort = DKSWriteCMD st, ReadPort = DKSReadCMD\<rparr>,
     0x1A := Some \<lparr>WritePort = DKSWritePortA, ReadPort = DKSReadPortA\<rparr>,
     0x1B := Some \<lparr>WritePort = DKSWritePortB, ReadPort = DKSReadPortB\<rparr>)"

definition RTCPortsInit :: "CitronTable \<Rightarrow> CitronTable" where
  "RTCPortsInit ports = ports(
     0x20 := Some \<lparr>WritePort = RTCWriteCMD, ReadPort = RTCReadCMD\<rparr>,
     0x21 := Some \<lparr>WritePort = RTCWritePortA, ReadPort = RTCReadPortA\<rparr>)"

definition AmtsuPortsInit :: "CitronTable \<Rightarrow> CitronTable" where
  "AmtsuPortsInit ports = ports(
     0x30 := Some \<lparr>WritePort = AmtsuWrite30, ReadPort = AmtsuRead30\<rparr>,
     0x31 := Some \<lparr>WritePort = AmtsuWriteMID, ReadPort = AmtsuReadMID\<rparr>,
     0x32 := Some \<lparr>WritePort = AmtsuWriteCMD, ReadPort = AmtsuReadCMD\<rparr>,
     0x33 := Some \<lparr>WritePort = AmtsuWritePortA, ReadPort = AmtsuReadPortA\<rparr>,
     0x34 := Some \<lparr>WritePort = AmtsuWritePortB, ReadPort = AmtsuReadPortB\<rparr>)"

text \<open>\<open>st\<close> is the uninitialised status of an unknown disk command (theory \<open>Dks\<close>).\<close>

definition CitronPorts :: "EBusSuccess \<Rightarrow> CitronTable" where
  "CitronPorts st = AmtsuPortsInit (RTCPortsInit (DKSPortsInit st (SerialPortsInit (\<lambda>_. None))))"

text \<open>\<open>sec\<close> and \<open>usec\<close>: the host's clock; the other arguments are options of the command line.\<close>

definition PBoardInit :: "int \<Rightarrow> int \<Rightarrow> bool \<Rightarrow> u8 list option \<Rightarrow> bool \<Rightarrow> bool \<Rightarrow> Machine \<Rightarrow> Machine" where
  "PBoardInit sec usec columns132 rx tx headless m =
    (let m = m\<lparr>PBoardRegisters := (PBoardRegisters m)(0 := 0x00030001)\<rparr>;
         m = SerialInit 0 columns132 rx tx m; m = SerialInit 1 columns132 rx tx m;
         m = DKSInit m; m = RTCUpdateRealTime sec usec m
     in AmtsuInit headless m)"

definition EBusInit :: "(nat \<Rightarrow> bytes option) \<Rightarrow> (nat \<Rightarrow> u32) \<Rightarrow> int \<Rightarrow> int \<Rightarrow> bool \<Rightarrow> u8 list option \<Rightarrow> bool \<Rightarrow>
    bool \<Rightarrow> Machine \<Rightarrow> Machine option" where
  "EBusInit heap noderam sec usec columns132 rx tx headless m =
    (case RAMInit heap noderam of
       None \<Rightarrow> None
     | Some ram \<Rightarrow>
         let m = PBoardInit sec usec columns132 rx tx headless (m\<lparr>RamBoards := ram\<rparr>)
         in Some (if \<not> headless then KinnowInit m else m))"

section \<open>A failed access has no effect\<close>

lemma serial_cmd_port: "citron_port SerialWriteCMD SerialReadCMD"
  by unfold_locales (auto simp: SerialWriteCMD_def SerialReadCMD_def Let_def split: if_splits)

lemma serial_data_port: "citron_port SerialWriteData SerialReadData"
  by unfold_locales
    (auto simp: SerialWriteData_def SerialReadData_def Let_def split: if_splits option.splits list.splits)

lemma dks_dispatch_error: "DKSDispatchIO type p m = (EBUSERROR, m') \<Longrightarrow> m' = m"
  by (auto simp: DKSDispatchIO_def Let_def split: if_splits option.splits)

definition clean :: "Machine \<Rightarrow> EBusSuccess \<times> Machine \<Rightarrow> bool" where
  "clean m r \<longleftrightarrow> (fst r = EBUSERROR \<longrightarrow> snd r = m)"

lemma clean_intros:
  "clean m (EBUSSUCCESS, m')" "clean m (s, m)" "clean m x \<Longrightarrow> clean m y \<Longrightarrow> clean m (if c then x else y)"
  by (simp_all add: clean_def)

lemma clean_write_cmd: "clean m (DKSWriteCMD st port v p m)"
proof -
  have "clean m (DKSDispatchIO type p m)" for type
    using dks_dispatch_error [of type p m "snd (DKSDispatchIO type p m)"] by (simp add: clean_def prod_eq_iff)
  then show ?thesis unfolding DKSWriteCMD_def Let_def by (intro clean_intros)
qed

lemma dks_cmd_port: "citron_port (DKSWriteCMD st) DKSReadCMD"
proof unfold_locales
  fix port v p m m'
  show "DKSWriteCMD st port v p m = (EBUSERROR, m') \<Longrightarrow> m' = m"
    using clean_write_cmd [of m st port v p] by (simp add: clean_def)
qed (auto simp: DKSReadCMD_def)

lemma simple_ports:
  "citron_port DKSWritePortA DKSReadPortA" "citron_port DKSWritePortB DKSReadPortB"
  "citron_port RTCWriteCMD RTCReadCMD" "citron_port RTCWritePortA RTCReadPortA"
  "citron_port AmtsuWrite30 AmtsuRead30" "citron_port AmtsuWriteMID AmtsuReadMID"
  "citron_port AmtsuWritePortA AmtsuReadPortA" "citron_port AmtsuWritePortB AmtsuReadPortB"
  by (unfold_locales; auto simp: DKSWritePortA_def DKSReadPortA_def DKSWritePortB_def DKSReadPortB_def
      RTCWriteCMD_def RTCReadCMD_def RTCWritePortA_def RTCReadPortA_def AmtsuWrite30_def AmtsuRead30_def
      AmtsuWriteMID_def AmtsuReadMID_def AmtsuWritePortA_def AmtsuReadPortA_def AmtsuWritePortB_def
      AmtsuReadPortB_def Let_def split: if_splits)+

lemma amtsu_cmd_port: "citron_port AmtsuWriteCMD AmtsuReadCMD"
proof unfold_locales
  fix port v p m m'
  have "fst (device_action d v p m) = EBUSSUCCESS" for d
    by (simp add: device_action_def XrAmtsuControllerAction_def XrKeyboardAction_def XrMouseAction_def Let_def
        split: AmtsuActionF.split)
  then show "AmtsuWriteCMD port v p m = (EBUSERROR, m') \<Longrightarrow> m' = m"
    by (auto simp: AmtsuWriteCMD_def split: if_splits) (metis EBusSuccess.distinct(1) fst_conv)
qed (auto simp: AmtsuReadCMD_def split: if_splits)

interpretation board: citron_bus "CitronPorts st" for st
  by (rule citron_bus.intro)
    (auto simp: CitronPorts_def AmtsuPortsInit_def RTCPortsInit_def DKSPortsInit_def SerialPortsInit_def
      serial_cmd_port serial_data_port dks_cmd_port simple_ports amtsu_cmd_port split: if_splits)

text \<open>
  Claim C24. A bus access that reports an error has no effect: whatever the address, the length and
  the device behind it, the whole machine is as before and a read has stored nothing.
\<close>

theorem bus_error_no_effect:
  "(EBusWrite (CitronPorts st) address src len p m = (EBUSERROR, m') \<longrightarrow> m' = m) \<and>
   (EBusRead (CitronPorts st) address len p m = (EBUSERROR, bs, m'') \<longrightarrow> m'' = m \<and> bs = [])"
  using board.write_error board.read_error by blast

section \<open>Transfers do not come back to a port\<close>

lemma mod_512: "(a :: u32) AND 511 = 0 \<longleftrightarrow> unat a mod 512 = 0"
proof -
  have "(511 :: u32) = mask 9" by (simp add: mask_eq_exp_minus_1)
  then have "unat (a AND 511) = unat a mod 512" by (simp only: unat_and_mask) simp
  then show ?thesis by (metis unat_eq_zero)
qed

lemma aligned_port:
  fixes a :: u32
  assumes "a AND 511 = 0" "(a AND 0x7FFFFFF) < 0x400"
  shows "CitronPorts st (unat ((a AND 0x7FFFFFF) div 4)) = None"
proof -
  let ?o = "unat (a AND 0x7FFFFFF)"
  have "unat a mod 512 = 0" using assms(1) by (simp only: mod_512)
  then have "?o mod 512 = 0" unfolding bus_offset_unat by (subst mod_mod_cancel) simp_all
  moreover have "?o < 1024" using assms(2) by (simp add: word_less_nat_alt)
  moreover from calculation(1) obtain k where "?o = 512 * k" by (meson dvdE mod_eq_0_iff_dvd)
  ultimately have "?o = 0 \<or> ?o = 512" by (cases "k = 0"; cases "k = 1") auto
  then have "unat ((a AND 0x7FFFFFF) div 4) = 0 \<or> unat ((a AND 0x7FFFFFF) div 4) = 128" by (auto simp: unat_div)
  then show ?thesis
    by (auto simp: CitronPorts_def AmtsuPortsInit_def RTCPortsInit_def DKSPortsInit_def SerialPortsInit_def)
qed

text \<open>
  The controller's transfers never re-enter the controller or any other port: at the
  addresses it can form, which are multiples of 512, the bus with the full table of ports does
  exactly what the bus without any port does.
\<close>

theorem dma_no_reentry:
  assumes "a AND 511 = 0"
  shows "EBusWrite (CitronPorts st) a src len p m = EBusWrite dma_ports a src len p m \<and>
    EBusRead (CitronPorts st) a len p m = EBusRead dma_ports a len p m"
proof -
  let ?o = "a AND 0x7FFFFFF"
  have "PBoardWrite (CitronPorts st) ?o src len p m = PBoardWrite dma_ports ?o src len p m"
    "PBoardRead (CitronPorts st) ?o len p m = PBoardRead dma_ports ?o len p m"
    unfolding PBoardWrite_def PBoardRead_def Let_def
    using aligned_port [OF assms, of st] by (simp_all add: dma_ports_def cong: if_cong)
  then show ?thesis by (simp add: EBusWrite_def EBusRead_def Let_def)
qed

lemma dma_no_reentry_witness:
  "EBusWrite (CitronPorts EBUSSUCCESS) 0xF8000000 [1, 2, 3, 4] 512 0 machine_zero = (EBUSERROR, machine_zero)"
proof -
  have "(0xF8000000 :: u32) AND 511 = 0" by simp
  from dma_no_reentry [OF this, of EBUSSUCCESS "[1, 2, 3, 4]" 512 0 machine_zero] show ?thesis
    by (simp add: EBusWrite_def PBoardWrite_def dma_ports_def Let_def)
qed

lemma bus_error_no_effect_witness:
  "EBusRead (CitronPorts EBUSSUCCESS) 0x50000000 4 0 machine_zero = (EBUSERROR, [], machine_zero)"
proof -
  obtain s bs m' where r: "EBusRead (CitronPorts EBUSSUCCESS) 0x50000000 4 0 machine_zero = (s, bs, m')"
    by (metis prod.collapse)
  moreover have "s = EBUSERROR" using r by (simp add: EBusRead_def Let_def)
  ultimately show ?thesis using bus_error_no_effect [of EBUSSUCCESS "0x50000000" "[]" 4 0 machine_zero machine_zero bs m'] by simp
qed

section \<open>The NVRAM outlives the emulator\<close>

abbreviation (input) "nvram_address k \<equiv> 0xF8001000 + of_nat k :: u32"

lemma nvram_decode:
  assumes "k + n \<le> 4096" "0 < n"
  shows "drop_bit 27 (nvram_address k) = 31" "(nvram_address k AND 0x7FFFFFF) = 0x1000 + of_nat k"
    and "\<not> (of_nat k :: u32) + of_nat n > 0x1000" "unat (of_nat k :: u32) = k"
    and "\<not> (0x1000 + of_nat k :: u32) < 0x400" "\<not> (0x1000 + of_nat k :: u32) \<ge> 0x7FE0000"
      "(0x1000 + of_nat k :: u32) \<ge> 0x1000" "(0x1000 + of_nat k :: u32) < 0x2000" "(0x1000 + of_nat k :: u32) < 0x11000"
proof -
  have k: "k < 4096" "unat (of_nat k :: u32) = k" using assms by (simp_all add: unat_of_nat)
  have u: "unat (nvram_address k) = 0xF8001000 + k" "unat (0x1000 + of_nat k :: u32) = 0x1000 + k"
    using k by (simp_all add: unat_word_ariths unat_of_nat)
  show "unat (of_nat k :: u32) = k" by (rule k(2))
  have "unat (nvram_address k) div 2 ^ 27 = 31" using k unfolding u by simp
  then show "drop_bit 27 (nvram_address k) = 31" using bus_branch_unat [of 31 "nvram_address k"] by simp
  have "0xF8001000 + k = (0x1000 + k) + 31 * 2 ^ 27" by simp
  then have "(0xF8001000 + k) mod 2 ^ 27 = 0x1000 + k" using k(1) by (simp only: mod_mult_self1) simp
  then show "(nvram_address k AND 0x7FFFFFF) = 0x1000 + of_nat k"
    unfolding word_unat_eq_iff bus_offset_unat u by simp
  have "unat ((of_nat k :: u32) + of_nat n) = k + n" using assms by (simp add: unat_word_ariths unat_of_nat)
  then show "\<not> (of_nat k :: u32) + of_nat n > 0x1000" using assms(1) by (simp add: word_less_nat_alt)
  show "\<not> (0x1000 + of_nat k :: u32) < 0x400" "\<not> (0x1000 + of_nat k :: u32) \<ge> 0x7FE0000"
      "(0x1000 + of_nat k :: u32) \<ge> 0x1000" "(0x1000 + of_nat k :: u32) < 0x2000" "(0x1000 + of_nat k :: u32) < 0x11000"
    using k(1) by (simp_all add: word_less_nat_alt word_le_nat_alt u(2) del: unat_add_lem)
qed

text \<open>
  What the guest stores in the NVRAM it finds there after a restart: bytes written through
  the bus, saved to the file when the emulator ends, and loaded by the next run into a machine in any
  state, are what a read of the same address returns.
\<close>

theorem nvram_persistent:
  assumes "0 < n" "k + n \<le> 4096" "n \<le> length src"
    and "EBusWrite ports (nvram_address k) src n p m = (st, m1)"
    and "NVRAMSave (Some old) m1 = (Some saved, m2)"
  shows "st = EBUSSUCCESS \<and> EBusRead ports' (nvram_address k) n p' (NVRAMLoadFile saved m') =
    (EBUSSUCCESS, take n src, NVRAMLoadFile saved m')"
proof -
  note d = nvram_decode [OF assms(2,1)]
  have w: "st = EBUSSUCCESS" "m1 = m\<lparr>NVRAMDirty := True, NVRAM := poke (NVRAM m) k (take n src)\<rparr>"
    using assms(4) d by (simp_all add: EBusWrite_def PBoardWrite_def Let_def CopyWithLength_def)
  then have sv: "saved = peek (poke (NVRAM m) k (take n src)) 0 4096 @ drop 4096 old"
    using assms(5) by (simp add: NVRAMSave_def)
  have "peek (NVRAM (NVRAMLoadFile saved m')) k n = take n src"
    by (rule nth_equalityI) (use assms(2,3) in \<open>simp_all add: NVRAMLoadFile_def sv nth_append poke_def\<close>)
  then show ?thesis using w(1) d by (simp add: EBusRead_def PBoardRead_def Let_def)
qed

lemma nvram_persistent_witness:
  "\<exists>m1 saved m2. EBusWrite dma_ports 0xF8001010 [1, 2, 3, 4] 4 0 machine_zero = (EBUSSUCCESS, m1) \<and>
     NVRAMSave (Some []) m1 = (Some saved, m2) \<and>
     EBusRead dma_ports 0xF8001010 4 0 (NVRAMLoadFile saved machine_zero) =
       (EBUSSUCCESS, [1, 2, 3, 4], NVRAMLoadFile saved machine_zero)"
proof -
  obtain st m1 where w: "EBusWrite dma_ports (nvram_address 16) [1, 2, 3, 4] 4 0 machine_zero = (st, m1)" by fastforce
  obtain f m2 where s: "NVRAMSave (Some []) m1 = (f, m2)" by fastforce
  then obtain saved where f: "f = Some saved" by (auto simp: NVRAMSave_def split: if_splits)
  from nvram_persistent [OF _ _ _ w s [unfolded f], of dma_ports 0 machine_zero]
  show ?thesis using w s f by auto
qed

section \<open>A transfer without a count\<close>

text \<open>
  After a reset the transfer count is zero and no command refuses it. A read of no sectors
  into the start of the video memory marks a rectangle down to row \<open>0x3FFFFF\<close>, far below the
  screen of 768 rows, and the next redraw reads the video memory beyond its end.
\<close>

theorem dks_zero_count_marks_beyond:
  assumes "DKSSelectedDrive (Dks m) = Some d" "\<not> DKSAsynchronous (Dks m)" "DKSStatus (Dks m) = 0"
    and "DKSTransferCount (Dks m) = 0" "DKSTransferAddress (Dks m) = 0xC0100000"
    and "DKSPortA (Dks m) < SectorCount (disk_of m d)" "KinnowPresent (Kinnow m)"
    and "DirtyRectY2 (Kinnow m) < 768"
  shows "fst (DKSWriteCMD st port 2 p m) = EBUSSUCCESS \<and> FBIsDirty (Kinnow (snd (DKSWriteCMD st port 2 p m))) \<and>
    DirtyRectY2 (Kinnow (snd (DKSWriteCMD st port 2 p m))) = 0x3FFFFF"
proof -
  define w where "w = dispatched DKS_READ d m"
  have oi: "OperationInterval (disk_of w d) = 0" "IoType (disk_of w d) = 1" "TransferCount (disk_of w d) = 0"
    "TransferAddress (disk_of w d) = 0xC0100000" and kw: "Kinnow w = Kinnow m"
    using assms by (simp_all add: w_def dispatched_def Let_def disk_of_def set_disk_def)
  have e: "DKSWriteCMD st port 2 p m = (EBUSSUCCESS, DKSCompleteTransfer d w)"
    using assms oi by (simp add: DKSWriteCMD_def DKSDispatchIO_def Let_def w_def [symmetric] not_le)
  let ?k = "KinnowMarkDirty 0 0 (Kinnow m)"
  have i: "Kinnow (DKSInfo x) = Kinnow x" for x
    by (simp add: DKSInfo_def machine_interrupt_def split: option.split)
  have s: "Kinnow (set_disk d disk x) = Kinnow x" for disk x by (simp add: set_disk_def)
  have kk: "KinnowPresent (Kinnow (set_disk d disk w))" for disk using assms(7) kw s by simp
  have "Kinnow (snd (EBusWrite dma_ports 0xC0100000 src 0 0 x)) = (KinnowMarkDirty 0 0 (Kinnow x))
      \<lparr>KinnowFB := CopyWithLength (KinnowFB (KinnowMarkDirty 0 0 (Kinnow x))) 0 src 0\<rparr>"
    if "KinnowPresent (Kinnow x)" for src x
    using that by (simp add: EBusWrite_def KinnowWrite_def Let_def set_kinnow_def)
  then have "Kinnow (DKSCompleteTransfer d w) = ?k\<lparr>KinnowFB := CopyWithLength (KinnowFB ?k) 0 [] 0\<rparr>"
    using oi kk kw unfolding DKSCompleteTransfer_def dks_read_image_def Let_def
    by (simp add: i s peek_def)
  moreover have "DirtyRectY2 ?k = 0x3FFFFF"
  proof -
    have "DirtyRectY2 (Kinnow m) < 0x3FFFFF" using assms(8) by (simp add: word_less_nat_alt)
    then show ?thesis by (simp add: KinnowMarkDirty_def Let_def)
  qed
  ultimately show ?thesis by (simp add: e) (simp add: KinnowMarkDirty_def Let_def)
qed

definition zero_count_sample :: Machine where
  "zero_count_sample = (KinnowInit dks_sample)\<lparr>Dks := (Dks dks_sample)\<lparr>DKSTransferAddress := 0xC0100000\<rparr>\<rparr>"

lemma dks_zero_count_marks_beyond_witness:
  "DirtyRectY2 (Kinnow (snd (DKSWriteCMD EBUSSUCCESS 0x19 2 0 zero_count_sample))) = 0x3FFFFF"
  using dks_zero_count_marks_beyond [of zero_count_sample 0 EBUSSUCCESS "0x19" 0]
  by (simp add: zero_count_sample_def dks_sample_def machine_zero_def kinnow_zero_def KinnowInit_def set_kinnow_def
      Let_def dks_zero_def disk_zero_def disk_of_def)

end
