(* ===== verification/Dcache.thy ===== *)
theory Dcache
  imports XrTb Board
begin

text \<open>
  The caches and the memory access path of a processor, \<^verbatim>\<open>src/src/xraccess.inc.c\<close>: the
  instruction cache, the write-back data caches that the shared second-level cache keeps
  coherent, the write buffer, and uncached accesses. Processor \<open>p\<close> is entry \<open>p\<close> of the processor
  table, and every operation is a function on the whole machine, because a line leaves
  one processor's cache through the bus on another's behalf. The cache locks make an access
  one step here. A pointer into an array of a processor is an offset.
\<close>

section \<open>Processors of the machine\<close>

definition upd_proc :: "nat \<Rightarrow> (XrProcessor \<Rightarrow> XrProcessor) \<Rightarrow> Machine \<Rightarrow> Machine" where
  "upd_proc p f m = m\<lparr>XrProcessorTable := (XrProcessorTable m)(p := f (XrProcessorTable m p))\<rparr>"

abbreviation (input) "proc_of m p \<equiv> XrProcessorTable m p"

definition set_number :: "u32 \<Rightarrow> nat" where
  "set_number address = unat (drop_bit 4 address AND 1023)"

definition sc_set_number :: "u32 \<Rightarrow> nat" where
  "sc_set_number address = unat (drop_bit 4 address AND 8191)"

definition line_tag :: "u32 \<Rightarrow> u32" where
  "line_tag address = address AND NOT 15"

section \<open>Instruction cache\<close>

text \<open>The offset of the line in \<open>Ic\<close>; \<open>None\<close>: a bus error, for which the exception was raised.\<close>

definition XrIcacheAccess :: "CitronTable \<Rightarrow> nat \<Rightarrow> u32 \<Rightarrow> Machine \<Rightarrow> nat option \<times> Machine" where
  "XrIcacheAccess ports p address m =
    (let proc = proc_of m p; tag = line_tag address; cacheindex = set_number address * 2
     in case List.find (\<lambda>i. IcFlags proc (cacheindex + i) \<noteq> 0 \<and> IcTags proc (cacheindex + i) = tag) [0, 1] of
          Some i \<Rightarrow> (Some ((cacheindex + i) * 16), m)
        | None \<Rightarrow>
            let newindex = cacheindex + unat (IcReplacementIndex proc AND 1);
                m = upd_proc p (\<lambda>proc. proc\<lparr>IcReplacementIndex := IcReplacementIndex proc + 1\<rparr>) m;
                (result, bs, m) = EBusRead ports tag 16 p m;
                m = upd_proc p (\<lambda>proc. proc\<lparr>Ic := poke (Ic proc) (newindex * 16) bs\<rparr>) m
            in if result = EBUSERROR then
                 (None, upd_proc p (\<lambda>proc.
                    let proc = proc\<lparr>IcFlags := (IcFlags proc)(newindex := XR_LINE_INVALID), Cr := (Cr proc)(EBADADDR := address)\<rparr>
                    in XrBasicException proc XR_EXC_BUS (Pc proc)) m)
               else
                 (Some (newindex * 16), upd_proc p (\<lambda>proc.
                    proc\<lparr>IcFlags := (IcFlags proc)(newindex := XR_LINE_SHARED), IcTags := (IcTags proc)(newindex := tag)\<rparr>) m))"

section \<open>Write buffer\<close>

text \<open>Writes a line out and drops its write buffer entry.\<close>

definition wb_write_out :: "CitronTable \<Rightarrow> nat \<Rightarrow> nat \<Rightarrow> nat \<Rightarrow> Machine \<Rightarrow> Machine" where
  "wb_write_out ports p wbindex index m =
    (let proc = proc_of m p;
         m = snd (EBusWrite ports (DcTags proc index) (peek (Dc proc) (index * 16) 16) 16 p m)
     in upd_proc p (\<lambda>proc. proc\<lparr>WbIndices := (WbIndices proc)(wbindex := XR_CACHE_INDEX_INVALID),
          DcIndexToWbIndex := (DcIndexToWbIndex proc)(index := XR_WB_INDEX_INVALID)\<rparr>) m)"

definition XrFlushWriteBuffer :: "CitronTable \<Rightarrow> nat \<Rightarrow> Machine \<Rightarrow> Machine" where
  "XrFlushWriteBuffer ports p m =
    fold (\<lambda>i m. let index = WbIndices (proc_of m p) i
                in if index \<noteq> XR_CACHE_INDEX_INVALID then wb_write_out ports p i index m else m)
      [0..<XR_WB_DEPTH] m"

text \<open>\<open>XrWriteWbEntry\<close> sets the write index from the loop counter; nothing calls it.\<close>

definition XrWriteWbEntry :: "CitronTable \<Rightarrow> nat \<Rightarrow> Machine \<Rightarrow> Machine" where
  "XrWriteWbEntry ports p m =
    (let proc = proc_of m p; wb = (\<lambda>i. (unat (WbWriteIndex proc) + i) mod XR_WB_DEPTH)
     in case List.find (\<lambda>i. WbIndices proc (wb i) \<noteq> XR_CACHE_INDEX_INVALID) [0..<XR_WB_DEPTH] of
          None \<Rightarrow> m
        | Some i \<Rightarrow>
            upd_proc p (\<lambda>proc. proc\<lparr>WbWriteIndex := of_nat i + 1, WbCycles := 3\<rparr>)
              (wb_write_out ports p (wb i) (WbIndices proc (wb i)) m))"

section \<open>Second-level cache\<close>

definition XrFindInScache :: "u32 \<Rightarrow> Machine \<Rightarrow> nat option" where
  "XrFindInScache tag m =
    (let cacheindex = sc_set_number tag
     in map_option (\<lambda>i. cacheindex + i)
          (List.find (\<lambda>i. XrScacheFlags m (cacheindex + i) \<noteq> 0 \<and> XrScacheTags m (cacheindex + i) = tag) [0]))"

text \<open>Lowers the state of a line of processor \<open>q\<close>, if it holds it in a higher one.\<close>

definition XrDowngradeLine :: "CitronTable \<Rightarrow> nat \<Rightarrow> u32 \<Rightarrow> nat \<Rightarrow> Machine \<Rightarrow> Machine" where
  "XrDowngradeLine ports q tag newstate m =
    (let proc = proc_of m q; cacheindex = set_number tag * 2
     in case List.find (\<lambda>i. DcFlags proc (cacheindex + i) > newstate \<and> DcTags proc (cacheindex + i) = tag) [0, 1] of
          None \<Rightarrow> m
        | Some i \<Rightarrow>
            let index = cacheindex + i; wbindex = DcIndexToWbIndex proc index;
                m = (if wbindex \<noteq> XR_WB_INDEX_INVALID then wb_write_out ports q wbindex index m else m)
            in upd_proc q (\<lambda>proc. proc\<lparr>DcFlags := (DcFlags proc)(index := newstate)\<rparr>) m)"

definition XrDowngradeAll :: "CitronTable \<Rightarrow> nat option \<Rightarrow> u32 \<Rightarrow> nat \<Rightarrow> Machine \<Rightarrow> Machine" where
  "XrDowngradeAll ports thisproc tag newstate m =
    fold (\<lambda>i m. if \<not> XrProcessorPresent m i \<or> Some i = thisproc then m
                else XrDowngradeLine ports i tag newstate m) [0..<XR_PROC_MAX] m"

definition set_scache :: "nat \<Rightarrow> nat \<Rightarrow> u32 \<Rightarrow> nat \<Rightarrow> Machine \<Rightarrow> Machine" where
  "set_scache i state tag owner m = m\<lparr>XrScacheFlags := (XrScacheFlags m)(i := state),
     XrScacheTags := (XrScacheTags m)(i := tag), XrScacheExclusiveIds := (XrScacheExclusiveIds m)(i := owner)\<rparr>"

text \<open>Empties an entry that is to be replaced: its line is removed from every cache that has it (lines 409 to 437).\<close>

definition sc_reclaim :: "CitronTable \<Rightarrow> nat \<Rightarrow> Machine \<Rightarrow> Machine" where
  "sc_reclaim ports cacheindex m =
    (if XrScacheFlags m cacheindex = XR_LINE_INVALID then m
     else
       let oldtag = XrScacheTags m cacheindex;
           m = (if XrScacheFlags m cacheindex = XR_LINE_SHARED
                then XrDowngradeAll ports None oldtag XR_LINE_INVALID m
                else if XrScacheFlags m cacheindex = XR_LINE_EXCLUSIVE
                then XrDowngradeLine ports (XrScacheExclusiveIds m cacheindex) oldtag XR_LINE_INVALID m
                else m)
       in m\<lparr>XrScacheFlags := (XrScacheFlags m)(cacheindex := XR_LINE_INVALID)\<rparr>)"

definition XrFindOrReplaceInScache :: "CitronTable \<Rightarrow> nat \<Rightarrow> u32 \<Rightarrow> nat \<Rightarrow> Machine \<Rightarrow> nat \<times> bool \<times> Machine" where
  "XrFindOrReplaceInScache ports p tag newstate m =
    (let cacheindex = sc_set_number tag
     in case List.find (\<lambda>i. XrScacheFlags m (cacheindex + i) \<noteq> 0 \<and> XrScacheTags m (cacheindex + i) = tag) [0] of
          Some i \<Rightarrow> (cacheindex + i, False, m)
        | None \<Rightarrow>
            let cacheindex = cacheindex + unat (XrScacheReplacementIndex m AND 0);
                m = m\<lparr>XrScacheReplacementIndex := XrScacheReplacementIndex m + 1\<rparr>;
                m = sc_reclaim ports cacheindex m
            in (cacheindex, True, set_scache cacheindex newstate tag (ProcId (proc_of m p)) m))"

section \<open>Data cache\<close>

text \<open>The scan of the write buffer: the entry of the tag, the last free entry before it, or neither.\<close>

datatype WbScan = WbHit nat | WbFree nat | WbFull

fun wb_scan :: "XrProcessor \<Rightarrow> u32 \<Rightarrow> nat list \<Rightarrow> nat option \<Rightarrow> WbScan" where
  "wb_scan proc tag [] free = (case free of Some i \<Rightarrow> WbFree i | None \<Rightarrow> WbFull)"
| "wb_scan proc tag (i # is) free =
    (let index = WbIndices proc i
     in if index = XR_CACHE_INDEX_INVALID then wb_scan proc tag is (Some i)
        else if DcTags proc index = tag then WbHit index
        else wb_scan proc tag is free)"

text \<open>Merges a store into a line; \<open>dc_own\<close> makes it the line of a write buffer entry.\<close>

definition dc_merge :: "nat \<Rightarrow> nat \<Rightarrow> u32 \<Rightarrow> nat \<Rightarrow> Machine \<Rightarrow> Machine" where
  "dc_merge p off srcvalue len m =
    upd_proc p (\<lambda>proc. proc\<lparr>Dc := CopyWithLength (Dc proc) off (bytes_of_u32 srcvalue) len\<rparr>) m"

definition dc_own :: "nat \<Rightarrow> nat \<Rightarrow> nat \<Rightarrow> Machine \<Rightarrow> Machine" where
  "dc_own p wbindex index m =
    upd_proc p (\<lambda>proc. proc\<lparr>WbIndices := (WbIndices proc)(wbindex := index),
      DcIndexToWbIndex := (DcIndexToWbIndex proc)(index := wbindex)\<rparr>) m"

text \<open>
  The result is \<open>0\<close> (an exception was raised), \<open>1\<close> (done) or \<open>2\<close> (a conditional store
  failed), the value stored to \<open>dest\<close>, and the machine.
\<close>

type_synonym XrAccessResult = "nat \<times> u32 option \<times> Machine"

text \<open>A write that hits a shared line: everybody else's copy is removed (lines 564 to 649).\<close>

definition dc_upgrade :: "CitronTable \<Rightarrow> nat \<Rightarrow> u32 \<Rightarrow> nat \<Rightarrow> nat \<Rightarrow> nat \<Rightarrow> u32 \<Rightarrow> nat \<Rightarrow> Machine \<Rightarrow> XrAccessResult" where
  "dc_upgrade ports p tag index wbindex lineoffset srcvalue len m =
    (case XrFindInScache tag m of
       None \<Rightarrow> (0, None, m\<lparr>Crashed := True\<rparr>)
     | Some scacheindex \<Rightarrow>
         let m = (if XrScacheFlags m scacheindex = XR_LINE_SHARED
                  then XrDowngradeAll ports (Some p) tag XR_LINE_INVALID m
                  else if XrScacheFlags m scacheindex = XR_LINE_EXCLUSIVE
                  then XrDowngradeLine ports (XrScacheExclusiveIds m scacheindex) tag XR_LINE_INVALID m
                  else m);
             m = m\<lparr>XrScacheFlags := (XrScacheFlags m)(scacheindex := XR_LINE_EXCLUSIVE),
                   XrScacheExclusiveIds := (XrScacheExclusiveIds m)(scacheindex := ProcId (proc_of m p))\<rparr>;
             m = upd_proc p (\<lambda>proc. proc\<lparr>DcFlags := (DcFlags proc)(index := XR_LINE_EXCLUSIVE)\<rparr>) m;
             m = dc_own p wbindex index m
         in (1, None, dc_merge p (index * 16 + lineoffset) srcvalue len m))"

text \<open>The Scache takes the line for a processor that misses it (lines 675 to 711).\<close>

definition dc_miss_scache :: "CitronTable \<Rightarrow> nat \<Rightarrow> u32 \<Rightarrow> bool \<Rightarrow> Machine \<Rightarrow> nat \<times> Machine" where
  "dc_miss_scache ports p tag writing m =
    (let newstate = (if writing then XR_LINE_EXCLUSIVE else XR_LINE_SHARED);
         (scacheindex, created, m) = XrFindOrReplaceInScache ports p tag newstate m
     in if created then (scacheindex, m)
        else
          let m = (if XrScacheFlags m scacheindex = XR_LINE_EXCLUSIVE
                   then XrDowngradeLine ports (XrScacheExclusiveIds m scacheindex) tag
                          (if writing then XR_LINE_INVALID else XR_LINE_SHARED) m
                   else if writing \<and> XrScacheFlags m scacheindex = XR_LINE_SHARED
                   then XrDowngradeAll ports None tag XR_LINE_INVALID m
                   else m)
          in (scacheindex, m\<lparr>XrScacheFlags := (XrScacheFlags m)(scacheindex := newstate),
                XrScacheExclusiveIds := (XrScacheExclusiveIds m)(scacheindex := ProcId (proc_of m p))\<rparr>))"

text \<open>The line that is given up for the new one (lines 720 to 750).\<close>

definition dc_evict :: "CitronTable \<Rightarrow> nat \<Rightarrow> nat \<Rightarrow> Machine \<Rightarrow> Machine" where
  "dc_evict ports p index m =
    (let proc = proc_of m p
     in if DcFlags proc index \<noteq> XR_LINE_INVALID then
          let wbindex = DcIndexToWbIndex proc index;
              m = (if wbindex \<noteq> XR_WB_INDEX_INVALID then wb_write_out ports p wbindex index m else m)
          in upd_proc p (\<lambda>proc. proc\<lparr>DcFlags := (DcFlags proc)(index := XR_LINE_INVALID)\<rparr>) m
        else m)"

text \<open>The line is installed and read in (lines 756 to 786); the status tells whether the bus delivered it.\<close>

definition dc_fill :: "CitronTable \<Rightarrow> nat \<Rightarrow> u32 \<Rightarrow> nat \<Rightarrow> bool \<Rightarrow> Machine \<Rightarrow> EBusSuccess \<times> Machine" where
  "dc_fill ports p tag index writing m =
    (let m = upd_proc p (\<lambda>proc. proc\<lparr>DcFlags := (DcFlags proc)(index := if writing then XR_LINE_EXCLUSIVE else XR_LINE_SHARED),
               DcTags := (DcTags proc)(index := tag)\<rparr>) m;
         (result, bs, m) = EBusRead ports tag 16 p m
     in (result, upd_proc p (\<lambda>proc. proc\<lparr>Dc := poke (Dc proc) (index * 16) bs\<rparr>) m))"

definition dc_miss :: "CitronTable \<Rightarrow> nat \<Rightarrow> u32 \<Rightarrow> bool \<Rightarrow> nat \<Rightarrow> u32 \<Rightarrow> nat \<Rightarrow> Machine \<Rightarrow> XrAccessResult" where
  "dc_miss ports p address writing wbindex srcvalue len m =
    (let tag = line_tag address; lineoffset = unat (address AND 15); cacheindex = set_number address * 2;
         (scacheindex, m) = dc_miss_scache ports p tag writing m;
         index = cacheindex + unat (DcReplacementIndex (proc_of m p) AND 1);
         m = upd_proc p (\<lambda>proc. proc\<lparr>DcReplacementIndex := DcReplacementIndex proc + 1\<rparr>) m;
         m = dc_evict ports p index m;
         (result, m) = dc_fill ports p tag index writing m
     in if result = EBUSERROR then
          let m = m\<lparr>XrScacheFlags := (XrScacheFlags m)(scacheindex := XR_LINE_INVALID)\<rparr>
          in (0, None, upd_proc p (\<lambda>proc.
                let proc = proc\<lparr>DcFlags := (DcFlags proc)(index := XR_LINE_INVALID), Cr := (Cr proc)(EBADADDR := address)\<rparr>
                in XrBasicException proc XR_EXC_BUS (Pc proc)) m)
        else if writing then (1, None, dc_merge p (index * 16 + lineoffset) srcvalue len (dc_own p wbindex index m))
        else (1, Some (CopyWithLengthZext (Dc (proc_of m p)) (index * 16 + lineoffset) len), m))"

text \<open>
  The access. \<open>writing\<close> says that \<open>dest\<close> is null. The two jumps back to \<open>restart\<close> are the
  recursive calls; \<open>None\<close> would be an access that never returns.
\<close>

partial_function (option) XrDcacheAccess ::
    "CitronTable \<Rightarrow> nat \<Rightarrow> u32 \<Rightarrow> bool \<Rightarrow> u32 \<Rightarrow> nat \<Rightarrow> bool \<Rightarrow> Machine \<Rightarrow> XrAccessResult option" where
  "XrDcacheAccess ports p address writing srcvalue len sc m =
    (let tag = line_tag address; lineoffset = unat (address AND 15); cacheindex = set_number address * 2;
         scan = (if writing then wb_scan (proc_of m p) tag [0..<XR_WB_DEPTH] None else WbFree 0)
     in case scan of
          WbHit index \<Rightarrow> Some (1, None, dc_merge p (index * 16 + lineoffset) srcvalue len m)
        | WbFull \<Rightarrow> XrDcacheAccess ports p address writing srcvalue len sc (XrFlushWriteBuffer ports p m)
        | WbFree freewbindex \<Rightarrow>
            let m = (if writing \<and> WbCycles (proc_of m p) = 0
                     then upd_proc p (\<lambda>proc. proc\<lparr>WbCycles := 3\<rparr>) m else m);
                proc = proc_of m p
            in case List.find (\<lambda>i. DcFlags proc (cacheindex + i) \<noteq> 0 \<and> DcTags proc (cacheindex + i) = tag) [0, 1] of
                 Some i \<Rightarrow>
                   let index = cacheindex + i
                   in if \<not> writing then Some (1, Some (CopyWithLengthZext (Dc proc) (index * 16 + lineoffset) len), m)
                      else if DcFlags proc index = XR_LINE_EXCLUSIVE then
                        Some (1, None, dc_merge p (index * 16 + lineoffset) srcvalue len (dc_own p freewbindex index m))
                      else if DcFlags (proc_of m p) index = XR_LINE_INVALID then
                        XrDcacheAccess ports p address writing srcvalue len sc m
                      else Some (dc_upgrade ports p tag index freewbindex lineoffset srcvalue len m)
               | None \<Rightarrow>
                   if sc then Some (2, None, m)
                   else Some (dc_miss ports p address writing freewbindex srcvalue len m))"

section \<open>The access of an instruction\<close>

definition XrAccessMasks :: "nat \<Rightarrow> u32" where
  "XrAccessMasks len = [0, 0xFF, 0xFFFF, 0xFFFFFF, 0xFFFFFFFF] ! len"

text \<open>\<open>old\<close> is what \<open>dest\<close> held before; a read may store fewer bytes than asked for.\<close>

definition store_dest :: "u32 \<Rightarrow> u8 list \<Rightarrow> u32" where
  "store_dest old bs = u32_of_bytes (take 4 (bs @ drop (length bs) (bytes_of_u32 old)))"

definition XrNoncachedAccess ::
    "CitronTable \<Rightarrow> nat \<Rightarrow> u32 \<Rightarrow> bool \<Rightarrow> u32 \<Rightarrow> u32 \<Rightarrow> nat \<Rightarrow> Machine \<Rightarrow> XrAccessResult" where
  "XrNoncachedAccess ports p address writing old srcvalue len m =
    (let (result, dest, m) =
           (if \<not> writing then let (st, bs, m) = EBusRead ports address len p m in (st, Some (store_dest old bs), m)
            else let (st, m) = EBusWrite ports address (bytes_of_u32 srcvalue) len p m in (st, None, m))
     in if result = EBUSERROR then
          (0, None, upd_proc p (\<lambda>proc. let proc = proc\<lparr>Cr := (Cr proc)(EBADADDR := address)\<rparr>
                                       in XrBasicException proc XR_EXC_BUS (Pc proc)) m)
        else (1, dest, m))"

definition access_fault :: "nat \<Rightarrow> u32 \<Rightarrow> u32 \<Rightarrow> Machine \<Rightarrow> Machine" where
  "access_fault p address exc m =
    upd_proc p (\<lambda>proc. let proc = proc\<lparr>Cr := (Cr proc)(EBADADDR := address)\<rparr> in XrBasicException proc exc (Pc proc)) m"

definition XrAccess :: "CitronTable \<Rightarrow> nat \<Rightarrow> u32 \<Rightarrow> bool \<Rightarrow> u32 \<Rightarrow> u32 \<Rightarrow> nat \<Rightarrow> bool \<Rightarrow> Machine \<Rightarrow> XrAccessResult option" where
  "XrAccess ports p address writing old srcvalue len sc m =
    (if address AND (of_nat len - 1) \<noteq> 0 then Some (0, None, access_fault p address XR_EXC_UNA m)
     else
       let (phys, m) =
             (if Cr (proc_of m p) RS AND RS_MMU \<noteq> 0 then
                let (r, proc) = XrTranslate (proc_of m p) address writing False in (r, upd_proc p (\<lambda>_. proc) m)
              else if address \<ge> 0xC0000000 then (Some (address, 8), m)
              else (Some (address, 0), m))
       in case phys of
            None \<Rightarrow> Some (0, None, m)
          | Some (address, flags) \<Rightarrow>
              if flags AND 8 \<noteq> 0 then
                if sc then Some (0, None, access_fault p address XR_EXC_BUS m)
                else
                  let (status, dest, m) = XrNoncachedAccess ports p address writing old srcvalue len m
                  in if status = 0 then Some (0, None, m)
                     else Some (1, map_option (\<lambda>d. d AND XrAccessMasks len) dest, m)
              else XrDcacheAccess ports p address writing srcvalue len sc m)"

end
