(* ===== verification/Coherence.thy ===== *)
theory Coherence
  imports Dcache
begin

text \<open>
  The data caches, the second-level cache and the write buffers together implement one flat memory:
  the invariant that relates a machine to the contents it stands for, its preservation by each
  step of an access, and the resulting equivalence for accesses to RAM by any processors.
\<close>

section \<open>The view of the caches\<close>

record CacheView =
  pres :: "nat \<Rightarrow> bool"
  pid :: "nat \<Rightarrow> nat"
  fl :: "nat \<Rightarrow> nat \<Rightarrow> nat"
  tg :: "nat \<Rightarrow> nat \<Rightarrow> u32"
  wb :: "nat \<Rightarrow> nat \<Rightarrow> nat"
  di :: "nat \<Rightarrow> nat \<Rightarrow> nat"
  dat :: "nat \<Rightarrow> bytes"
  sf :: "nat \<Rightarrow> nat"
  stg :: "nat \<Rightarrow> u32"
  sid :: "nat \<Rightarrow> nat"
  ramv :: Ram
  crash :: bool

definition view :: "Machine \<Rightarrow> CacheView" where
  "view m = \<lparr>pres = XrProcessorPresent m, pid = (\<lambda>p. ProcId (XrProcessorTable m p)),
     fl = (\<lambda>p. DcFlags (XrProcessorTable m p)), tg = (\<lambda>p. DcTags (XrProcessorTable m p)),
     wb = (\<lambda>p. WbIndices (XrProcessorTable m p)), di = (\<lambda>p. DcIndexToWbIndex (XrProcessorTable m p)),
     dat = (\<lambda>p. Dc (XrProcessorTable m p)), sf = XrScacheFlags m, stg = XrScacheTags m,
     sid = XrScacheExclusiveIds m, ramv = RamBoards m, crash = Crashed m\<rparr>"

lemma view_sel [simp]:
  "pres (view m) = XrProcessorPresent m" "pid (view m) p = ProcId (XrProcessorTable m p)"
  "fl (view m) p = DcFlags (XrProcessorTable m p)" "tg (view m) p = DcTags (XrProcessorTable m p)"
  "wb (view m) p = WbIndices (XrProcessorTable m p)" "di (view m) p = DcIndexToWbIndex (XrProcessorTable m p)"
  "dat (view m) p = Dc (XrProcessorTable m p)" "sf (view m) = XrScacheFlags m" "stg (view m) = XrScacheTags m"
  "sid (view m) = XrScacheExclusiveIds m" "ramv (view m) = RamBoards m" "crash (view m) = Crashed m"
  by (simp_all add: view_def)

text \<open>What the steps of the access do to the view.\<close>

abbreviation upd2 :: "(nat \<Rightarrow> nat \<Rightarrow> 'a) \<Rightarrow> nat \<Rightarrow> nat \<Rightarrow> 'a \<Rightarrow> nat \<Rightarrow> nat \<Rightarrow> 'a" where
  "upd2 f p i x \<equiv> f(p := (f p)(i := x))"

lemma upd_proc_table [simp]:
  "XrProcessorTable (upd_proc p f m) = (XrProcessorTable m)(p := f (XrProcessorTable m p))"
  "XrProcessorPresent (upd_proc p f m) = XrProcessorPresent m" "RamBoards (upd_proc p f m) = RamBoards m"
  "XrScacheFlags (upd_proc p f m) = XrScacheFlags m" "XrScacheTags (upd_proc p f m) = XrScacheTags m"
  "XrScacheExclusiveIds (upd_proc p f m) = XrScacheExclusiveIds m" "Crashed (upd_proc p f m) = Crashed m"
  by (simp_all add: upd_proc_def)

lemma view_flag: "view (upd_proc p (\<lambda>proc. proc\<lparr>DcFlags := (DcFlags proc)(i := s)\<rparr>) m) =
    (view m)\<lparr>fl := upd2 (fl (view m)) p i s\<rparr>"
  by (simp add: view_def fun_eq_iff)

lemma view_own: "view (dc_own p k i m) =
    (view m)\<lparr>wb := upd2 (wb (view m)) p k i, di := upd2 (di (view m)) p i k\<rparr>"
  by (simp add: view_def dc_own_def fun_eq_iff)

lemma view_merge: "view (dc_merge p off v len m) =
    (view m)\<lparr>dat := (dat (view m))(p := CopyWithLength (dat (view m) p) off (bytes_of_u32 v) len)\<rparr>"
  by (simp add: view_def dc_merge_def fun_eq_iff)

lemma view_scache: "view (set_scache i s t q m) =
    (view m)\<lparr>sf := (sf (view m))(i := s), stg := (stg (view m))(i := t), sid := (sid (view m))(i := q)\<rparr>"
  by (simp add: view_def set_scache_def)

section \<open>Lines and addresses\<close>

definition line_off :: "u32 \<Rightarrow> nat" where
  "line_off x = unat (x AND 15)"

lemma mask_15: "(15 :: u32) = mask 4"
  by (simp add: mask_eq_exp_minus_1)

lemma line_off_mod: "line_off x = unat x mod 16"
  unfolding line_off_def mask_15 unat_and_mask by simp

lemma line_off_less: "line_off x < 16"
  by (simp add: line_off_mod)

lemma line_split: "x = line_tag x + of_nat (line_off x)"
proof -
  have "x = (x AND NOT 15) OR (x AND 15)" by (rule bit_word_eqI) (auto simp: bit_simps)
  moreover have "(x AND NOT 15) OR (x AND 15) = (x AND NOT 15) + (x AND 15)"
    by (rule disjunctive_add [symmetric]) (auto simp: bit_simps)
  ultimately show ?thesis by (simp add: line_tag_def line_off_def)
qed

lemma line_room:
  assumes "(n :: nat) mod 16 = 0" "n < 2 ^ 32" "k < 16"
  shows "n + k < 2 ^ 32" and "(n + k) div 16 = n div 16" and "n + 16 \<le> 2 ^ 32"
proof -
  obtain q where q: "n = 16 * q" using assms(1) by (meson dvdE mod_eq_0_iff_dvd)
  then show "n + 16 \<le> 2 ^ 32" using assms(2) by simp
  then show "n + k < 2 ^ 32" using assms(3) by linarith
  show "(n + k) div 16 = n div 16" unfolding q using assms(3) by simp
qed

lemma line_unat: "unat x = unat (line_tag x) + line_off x" "unat (line_tag x) mod 16 = 0"
proof -
  have "line_tag x AND 15 = 0" unfolding line_tag_def by (rule bit_word_eqI) (auto simp: bit_simps)
  then have "unat (line_tag x AND 15) = 0" by simp
  then show m: "unat (line_tag x) mod 16 = 0" unfolding mask_15 unat_and_mask by simp
  have "unat (line_tag x) < 2 ^ 32" using unsigned_less [of "line_tag x", where 'a = nat] by simp
  then have "unat (line_tag x) + line_off x < 2 ^ 32" using line_room(1) [OF m _ line_off_less] by simp
  then show "unat x = unat (line_tag x) + line_off x"
    by (subst (1) line_split, subst unat_add_lem [THEN iffD1])
      (use line_off_less [of x] in \<open>simp_all add: unat_of_nat\<close>)
qed

lemma line_tag_eq: "line_tag x = line_tag y \<longleftrightarrow> unat x div 16 = unat y div 16"
proof -
  have lt: "unat (line_tag x) < 2 ^ 32" for x using unsigned_less [of "line_tag x", where 'a = nat] by simp
  have d: "unat (line_tag x) div 16 = unat x div 16" for x
    using line_unat(1) [of x] line_room(2) [OF line_unat(2) lt line_off_less, of x x] by simp
  have "unat (line_tag x) = 16 * (unat x div 16)" for x
    using d [of x] line_unat(2) [of x] by (metis add.right_neutral mult_div_mod_eq)
  then have "line_tag x = line_tag y" if "unat x div 16 = unat y div 16"
    using that by (metis word_unat_eq_iff)
  then show ?thesis using d by metis
qed

lemma line_tag_idem [simp]: "line_tag (line_tag x) = line_tag x" "line_off (line_tag x) = 0"
proof -
  show "line_tag (line_tag x) = line_tag x" unfolding line_tag_def by (simp only: and.assoc and.idem)
  show "line_off (line_tag x) = 0" using line_unat(2) [of x] by (simp add: line_off_mod)
qed

lemma line_tag_fix: "t AND 15 = 0 \<longleftrightarrow> line_tag t = t"
proof
  assume "t AND 15 = 0"
  then have "line_off t = 0" by (simp add: line_off_def)
  then show "line_tag t = t" using line_split [of t] by simp
next
  assume "line_tag t = t"
  then have "line_off t = 0" using line_tag_idem(2) [of t] by simp
  then show "t AND 15 = 0" unfolding line_off_def by (simp only: unat_eq_zero)
qed

text \<open>The bytes of a line, as distances from its tag.\<close>

lemma line_member:
  assumes "line_tag t = t"
  shows "line_tag x = t \<longleftrightarrow> unat (x - t) < 16" and "line_tag x = t \<Longrightarrow> unat (x - t) = line_off x"
proof -
  show d: "unat (x - t) = line_off x" if "line_tag x = t"
  proof -
    have "x - t = of_nat (line_off x)" using line_split [of x] that by (metis add_diff_cancel_left')
    then show ?thesis using line_off_less [of x] by (simp add: unat_of_nat)
  qed
  have "line_tag x = t" if "unat (x - t) < 16"
  proof -
    have "unat t mod 16 = 0" using line_unat(2) [of t] assms by simp
    moreover have "unat t < 2 ^ 32" using unsigned_less [of t, where 'a = nat] by simp
    ultimately have "unat t + unat (x - t) < 2 ^ 32" "(unat t + unat (x - t)) div 16 = unat t div 16"
      using line_room(1,2) [of "unat t" "unat (x - t)"] that by simp_all
    moreover from this(1) have "unat (t + (x - t)) = unat t + unat (x - t)" by (subst unat_add_lem [THEN iffD1]) simp_all
    ultimately have "unat x div 16 = unat t div 16" by simp
    then show ?thesis using assms line_tag_eq by metis
  qed
  then show "line_tag x = t \<longleftrightarrow> unat (x - t) < 16" using d line_off_less [of x] by auto
qed

text \<open>An aligned access of one, two or four bytes stays in its line.\<close>

definition access_ok :: "u32 \<Rightarrow> nat \<Rightarrow> bool" where
  "access_ok a len \<longleftrightarrow> (len = 1 \<or> len = 2 \<or> len = 4) \<and> a AND (of_nat len - 1) = 0"

lemma access_in_line: "access_ok a len \<Longrightarrow> line_off a + len \<le> 16"
proof -
  assume a: "access_ok a len"
  have "unat a mod len = 0"
  proof -
    have "unat (a AND mask 1) = unat a mod 2" "unat (a AND mask 2) = unat a mod 4"
      by (simp_all only: unat_and_mask) simp_all
    moreover have "(mask 1 :: u32) = 1" "(mask 2 :: u32) = 3" by (simp_all add: mask_eq_exp_minus_1)
    ultimately show ?thesis using a by (auto simp: access_ok_def)
  qed
  then show ?thesis using a unfolding access_ok_def line_off_mod by (elim conjE disjE) (simp, presburger, presburger)
qed

lemma access_member:
  assumes "access_ok a len"
  shows "unat (x - a) < len \<longleftrightarrow> line_tag x = line_tag a \<and> line_off a \<le> line_off x \<and> line_off x < line_off a + len"
    and "unat (x - a) < len \<Longrightarrow> unat (x - a) = line_off x - line_off a"
proof -
  have l: "line_off a + len \<le> 16" by (rule access_in_line [OF assms])
  have fwd: "line_tag x = line_tag a \<and> line_off x = line_off a + unat (x - a)" if "unat (x - a) < len"
  proof -
    have "unat (line_tag a) + 16 \<le> 2 ^ 32"
      using line_room(3) [OF line_unat(2) [of a], of 0] unsigned_less [of "line_tag a", where 'a = nat] by simp
    then have "unat a + unat (x - a) < 2 ^ 32" using line_unat(1) [of a] l that by linarith
    then have "unat (a + (x - a)) = unat a + unat (x - a)" by (subst unat_add_lem [THEN iffD1]) simp_all
    then have u: "unat x = unat a + unat (x - a)" by simp
    have "unat a mod 16 + unat (x - a) < 16" using l that by (simp add: line_off_mod)
    then have "unat x div 16 = unat a div 16" "unat x mod 16 = unat a mod 16 + unat (x - a)"
      unfolding u by (simp_all add: div_eq_decomp mod_eq_decomp)
    then show ?thesis by (simp add: line_tag_eq line_off_mod)
  qed
  have "unat (x - a) < len" if "line_tag x = line_tag a" "line_off a \<le> line_off x" "line_off x < line_off a + len"
  proof -
    have "unat x = unat a + (line_off x - line_off a)"
      using line_unat(1) [of x] line_unat(1) [of a] that by simp
    then have "unat (x - a) = line_off x - line_off a" by (simp add: unat_sub word_le_nat_alt)
    then show ?thesis using that by linarith
  qed
  then show "unat (x - a) < len \<longleftrightarrow> line_tag x = line_tag a \<and> line_off a \<le> line_off x \<and> line_off x < line_off a + len"
    using fwd by auto
  show "unat (x - a) < len \<Longrightarrow> unat (x - a) = line_off x - line_off a" using fwd by simp
qed

section \<open>The invariant\<close>

definition valid :: "CacheView \<Rightarrow> nat \<Rightarrow> nat \<Rightarrow> bool" where
  "valid v p i \<longleftrightarrow> pres v p \<and> i < XR_DC_LINE_COUNT \<and> fl v p i \<noteq> 0"

definition dirty :: "CacheView \<Rightarrow> u32 \<Rightarrow> bool" where
  "dirty v t \<longleftrightarrow> (\<exists>p k. pres v p \<and> k < XR_WB_DEPTH \<and> wb v p k \<noteq> XR_CACHE_INDEX_INVALID \<and> tg v p (wb v p k) = t)"

definition ram_line :: "CacheView \<Rightarrow> u32 \<Rightarrow> bool" where
  "ram_line v t \<longleftrightarrow> ram_window t \<and> ram_acc t 16 (ramv v)"

text \<open>
  The structure of the caches: lines sit in their set, once per processor; a line that is valid
  somewhere is in the second-level cache in the same state, which for an exclusive line names
  its owner; the write buffer and its back pointers agree and hold exclusive lines only. Lines with
  a tag in \<open>T\<close> are in the middle of a change of their second-level state.
\<close>

definition scache_agrees :: "CacheView \<Rightarrow> nat \<Rightarrow> nat \<Rightarrow> bool" where
  "scache_agrees v p i \<longleftrightarrow> (let s = sc_set_number (tg v p i)
     in stg v s = tg v p i \<and> sf v s = fl v p i \<and> (fl v p i = XR_LINE_EXCLUSIVE \<longrightarrow> sid v s = p))"

definition cache_ok :: "u32 set \<Rightarrow> CacheView \<Rightarrow> bool" where
  "cache_ok T v \<longleftrightarrow>
     (\<forall>p. pres v p \<longrightarrow> p < XR_PROC_MAX \<and> pid v p = p) \<and>
     (\<forall>p i. valid v p i \<longrightarrow> fl v p i \<le> XR_LINE_EXCLUSIVE \<and> line_tag (tg v p i) = tg v p i \<and>
        set_number (tg v p i) = i div 2 \<and> ram_line v (tg v p i)) \<and>
     (\<forall>p i j. valid v p i \<longrightarrow> valid v p j \<longrightarrow> tg v p i = tg v p j \<longrightarrow> i = j) \<and>
     (\<forall>p i. valid v p i \<longrightarrow> tg v p i \<notin> T \<longrightarrow> scache_agrees v p i) \<and>
     (\<forall>s. sf v s \<le> XR_LINE_EXCLUSIVE \<and> (sf v s = XR_LINE_EXCLUSIVE \<longrightarrow> pres v (sid v s))) \<and>
     (\<forall>p k. pres v p \<longrightarrow> k < XR_WB_DEPTH \<longrightarrow> wb v p k \<noteq> XR_CACHE_INDEX_INVALID \<longrightarrow>
        wb v p k < XR_DC_LINE_COUNT \<and> fl v p (wb v p k) = XR_LINE_EXCLUSIVE \<and> di v p (wb v p k) = k) \<and>
     (\<forall>p i. pres v p \<longrightarrow> i < XR_DC_LINE_COUNT \<longrightarrow> di v p i \<noteq> XR_WB_INDEX_INVALID \<longrightarrow>
        di v p i < XR_WB_DEPTH \<and> wb v p (di v p i) = i) \<and>
     ram_inv (ramv v)"

text \<open>The contents: every valid copy of a byte of RAM, and RAM itself where no copy is newer, hold its value.\<close>

definition data_ok :: "(u32 \<Rightarrow> u8) \<Rightarrow> CacheView \<Rightarrow> bool" where
  "data_ok M v \<longleftrightarrow>
     (\<forall>p i x. valid v p i \<longrightarrow> line_tag x = tg v p i \<longrightarrow> dat v p (i * 16 + line_off x) = M x) \<and>
     (\<forall>x. ram_line v (line_tag x) \<longrightarrow> \<not> dirty v (line_tag x) \<longrightarrow> ram_byte (ramv v) x = M x)"

text \<open>What an operation that only lowers the state of lines of tag \<open>t\<close> keeps.\<close>

definition lowers :: "u32 \<Rightarrow> CacheView \<Rightarrow> CacheView \<Rightarrow> bool" where
  "lowers t v v' \<longleftrightarrow> pres v' = pres v \<and> pid v' = pid v \<and> tg v' = tg v \<and> sf v' = sf v \<and> stg v' = stg v \<and> sid v' = sid v \<and>
     crash v' = crash v \<and> (\<forall>a. ram_line v' a = ram_line v a) \<and> (\<forall>p i. fl v' p i \<le> fl v p i) \<and>
     (\<forall>p i. tg v p i \<noteq> t \<longrightarrow> fl v' p i = fl v p i) \<and>
     (\<forall>p k. wb v' p k = wb v p k \<or> wb v' p k = XR_CACHE_INDEX_INVALID)"

definition untouched :: "nat \<Rightarrow> CacheView \<Rightarrow> CacheView \<Rightarrow> bool" where
  "untouched r v v' \<longleftrightarrow> fl v' r = fl v r \<and> wb v' r = wb v r \<and> di v' r = di v r \<and> dat v' r = dat v r"

lemma lowers_refl: "lowers t v v"
  by (simp add: lowers_def)

lemma lowers_trans: "lowers t u v \<Longrightarrow> lowers t v w \<Longrightarrow> lowers t u w"
  unfolding lowers_def by (intro conjI) (metis order_trans)+

lemma lowers_valid: "lowers t v v' \<Longrightarrow> valid v' p i \<Longrightarrow> valid v p i"
  unfolding lowers_def valid_def by (metis le_zero_eq)

lemma cache_okD:
  assumes "cache_ok T v"
  shows "pres v p \<Longrightarrow> p < XR_PROC_MAX" "pres v p \<Longrightarrow> pid v p = p"
    "valid v p i \<Longrightarrow> fl v p i \<le> XR_LINE_EXCLUSIVE" "valid v p i \<Longrightarrow> line_tag (tg v p i) = tg v p i"
    "valid v p i \<Longrightarrow> set_number (tg v p i) = i div 2" "valid v p i \<Longrightarrow> ram_line v (tg v p i)"
    "valid v p i \<Longrightarrow> valid v p j \<Longrightarrow> tg v p i = tg v p j \<Longrightarrow> i = j"
    "valid v p i \<Longrightarrow> tg v p i \<notin> T \<Longrightarrow> scache_agrees v p i"
    "sf v s \<le> XR_LINE_EXCLUSIVE" "sf v s = XR_LINE_EXCLUSIVE \<Longrightarrow> pres v (sid v s)"
    "pres v p \<Longrightarrow> k < XR_WB_DEPTH \<Longrightarrow> wb v p k \<noteq> XR_CACHE_INDEX_INVALID \<Longrightarrow> wb v p k < XR_DC_LINE_COUNT"
    "pres v p \<Longrightarrow> k < XR_WB_DEPTH \<Longrightarrow> wb v p k \<noteq> XR_CACHE_INDEX_INVALID \<Longrightarrow> fl v p (wb v p k) = XR_LINE_EXCLUSIVE"
    "pres v p \<Longrightarrow> k < XR_WB_DEPTH \<Longrightarrow> wb v p k \<noteq> XR_CACHE_INDEX_INVALID \<Longrightarrow> di v p (wb v p k) = k"
    "pres v p \<Longrightarrow> i < XR_DC_LINE_COUNT \<Longrightarrow> di v p i \<noteq> XR_WB_INDEX_INVALID \<Longrightarrow> di v p i < XR_WB_DEPTH"
    "pres v p \<Longrightarrow> i < XR_DC_LINE_COUNT \<Longrightarrow> di v p i \<noteq> XR_WB_INDEX_INVALID \<Longrightarrow> wb v p (di v p i) = i"
    "ram_inv (ramv v)"
  using assms unfolding cache_ok_def by blast+

lemma cache_okI:
  assumes "\<And>p. pres v p \<Longrightarrow> p < XR_PROC_MAX \<and> pid v p = p"
    "\<And>p i. valid v p i \<Longrightarrow> fl v p i \<le> XR_LINE_EXCLUSIVE \<and> line_tag (tg v p i) = tg v p i \<and>
        set_number (tg v p i) = i div 2 \<and> ram_line v (tg v p i)"
    "\<And>p i j. valid v p i \<Longrightarrow> valid v p j \<Longrightarrow> tg v p i = tg v p j \<Longrightarrow> i = j"
    "\<And>p i. valid v p i \<Longrightarrow> tg v p i \<notin> T \<Longrightarrow> scache_agrees v p i"
    "\<And>s. sf v s \<le> XR_LINE_EXCLUSIVE \<and> (sf v s = XR_LINE_EXCLUSIVE \<longrightarrow> pres v (sid v s))"
    "\<And>p k. pres v p \<Longrightarrow> k < XR_WB_DEPTH \<Longrightarrow> wb v p k \<noteq> XR_CACHE_INDEX_INVALID \<Longrightarrow>
        wb v p k < XR_DC_LINE_COUNT \<and> fl v p (wb v p k) = XR_LINE_EXCLUSIVE \<and> di v p (wb v p k) = k"
    "\<And>p i. pres v p \<Longrightarrow> i < XR_DC_LINE_COUNT \<Longrightarrow> di v p i \<noteq> XR_WB_INDEX_INVALID \<Longrightarrow>
        di v p i < XR_WB_DEPTH \<and> wb v p (di v p i) = i"
    "ram_inv (ramv v)"
  shows "cache_ok T v"
  using assms unfolding cache_ok_def by blast

lemma wb_valid: "cache_ok T v \<Longrightarrow> pres v p \<Longrightarrow> k < XR_WB_DEPTH \<Longrightarrow> wb v p k \<noteq> XR_CACHE_INDEX_INVALID \<Longrightarrow> valid v p (wb v p k)"
  by (simp add: valid_def cache_okD)

section \<open>Single steps\<close>

text \<open>A line that is not in the write buffer loses rights.\<close>

definition lower_flag :: "nat \<Rightarrow> nat \<Rightarrow> nat \<Rightarrow> CacheView \<Rightarrow> CacheView" where
  "lower_flag p i s v = v\<lparr>fl := upd2 (fl v) p i s\<rparr>"

lemma lower_flag_fields [simp]:
  "pres (lower_flag p i s v) = pres v" "pid (lower_flag p i s v) = pid v" "tg (lower_flag p i s v) = tg v"
  "wb (lower_flag p i s v) = wb v" "di (lower_flag p i s v) = di v" "dat (lower_flag p i s v) = dat v"
  "sf (lower_flag p i s v) = sf v" "stg (lower_flag p i s v) = stg v" "sid (lower_flag p i s v) = sid v"
  "ramv (lower_flag p i s v) = ramv v" "crash (lower_flag p i s v) = crash v"
  "ram_line (lower_flag p i s v) t = ram_line v t" "dirty (lower_flag p i s v) t = dirty v t"
  "fl (lower_flag p i s v) q j = (if q = p \<and> j = i then s else fl v q j)"
  by (simp_all add: lower_flag_def ram_line_def dirty_def)

lemma lower_flag_ok:
  assumes ok: "cache_ok T v" and "pres v p" "i < XR_DC_LINE_COUNT" "s < fl v p i" "di v p i = XR_WB_INDEX_INVALID"
    and "s = 0 \<or> tg v p i \<in> T"
  shows "cache_ok T (lower_flag p i s v)" and "data_ok M v \<Longrightarrow> data_ok M (lower_flag p i s v)"
    and "lowers (tg v p i) v (lower_flag p i s v)"
proof -
  have vi: "valid v p i" using assms(2-4) by (simp add: valid_def)
  have vv: "valid v q j" if "valid (lower_flag p i s v) q j" for q j
    using that assms(2-4) by (auto simp: valid_def split: if_splits)
  have ag: "scache_agrees (lower_flag p i s v) q j" if "valid (lower_flag p i s v) q j" "tg v q j \<notin> T" for q j
  proof -
    have "\<not> (q = p \<and> j = i)" using that assms(6) by (auto simp: valid_def)
    then show ?thesis using cache_okD(8) [OF ok vv [OF that(1)]] that(2) by (auto simp: scache_agrees_def Let_def)
  qed
  have nw: "wb v q k \<noteq> i \<or> q \<noteq> p" if "pres v q" "k < 4" "wb v q k \<noteq> XR_CACHE_INDEX_INVALID" for q k
    using cache_okD(13) [OF ok that] assms(5) that(2) by auto
  have fl: "fl (lower_flag p i s v) q j \<le> 2" if "valid (lower_flag p i s v) q j" for q j
    using cache_okD(3) [OF ok vv [OF that]] cache_okD(3) [OF ok vi] assms(4) by auto
  show "cache_ok T (lower_flag p i s v)"
  proof (rule cache_okI)
    show "fl (lower_flag p i s v) q j \<le> 2 \<and> line_tag (tg (lower_flag p i s v) q j) = tg (lower_flag p i s v) q j \<and>
        set_number (tg (lower_flag p i s v) q j) = j div 2 \<and> ram_line (lower_flag p i s v) (tg (lower_flag p i s v) q j)"
      if "valid (lower_flag p i s v) q j" for q j
      using fl [OF that] cache_okD(4-6) [OF ok vv [OF that]] by simp
    show "j = j'" if "valid (lower_flag p i s v) q j" "valid (lower_flag p i s v) q j'"
      "tg (lower_flag p i s v) q j = tg (lower_flag p i s v) q j'" for q j j'
      using cache_okD(7) [OF ok vv [OF that(1)] vv [OF that(2)]] that(3) by simp
    show "wb (lower_flag p i s v) q k < 2048 \<and> fl (lower_flag p i s v) q (wb (lower_flag p i s v) q k) = 2 \<and>
        di (lower_flag p i s v) q (wb (lower_flag p i s v) q k) = k"
      if "pres (lower_flag p i s v) q" "k < 4" "wb (lower_flag p i s v) q k \<noteq> XR_CACHE_INDEX_INVALID" for q k
      using that cache_okD(11-13) [OF ok] nw [of q k] by auto
  qed (use cache_okD [OF ok] ag in \<open>simp_all\<close>)
  show "data_ok M (lower_flag p i s v)" if "data_ok M v" using that vv unfolding data_ok_def by auto
  show "lowers (tg v p i) v (lower_flag p i s v)" using assms(4) by (auto simp: lowers_def)
qed

text \<open>A write buffer entry is written out.\<close>

definition drop_wb :: "nat \<Rightarrow> nat \<Rightarrow> nat \<Rightarrow> Ram \<Rightarrow> CacheView \<Rightarrow> CacheView" where
  "drop_wb p k i R v = v\<lparr>ramv := R, wb := upd2 (wb v) p k XR_CACHE_INDEX_INVALID, di := upd2 (di v) p i XR_WB_INDEX_INVALID\<rparr>"

lemma drop_wb_fields [simp]:
  "pres (drop_wb p k i R v) = pres v" "pid (drop_wb p k i R v) = pid v" "tg (drop_wb p k i R v) = tg v"
  "fl (drop_wb p k i R v) = fl v" "dat (drop_wb p k i R v) = dat v"
  "sf (drop_wb p k i R v) = sf v" "stg (drop_wb p k i R v) = stg v" "sid (drop_wb p k i R v) = sid v"
  "ramv (drop_wb p k i R v) = R" "crash (drop_wb p k i R v) = crash v"
  "wb (drop_wb p k i R v) q l = (if q = p \<and> l = k then XR_CACHE_INDEX_INVALID else wb v q l)"
  "di (drop_wb p k i R v) q j = (if q = p \<and> j = i then XR_WB_INDEX_INVALID else di v q j)"
  "valid (drop_wb p k i R v) = valid v" "scache_agrees (drop_wb p k i R v) = scache_agrees v"
  by (simp_all add: drop_wb_def valid_def scache_agrees_def fun_eq_iff)

lemma line_window:
  assumes "ram_inv (ramv v)" "ram_line v (line_tag x)"
  shows "ram_window x"
proof -
  have "ram_window (line_tag x + of_nat (line_off x))"
    using ram_window_closed [of "ramv v" "line_tag x" 16 "line_off x"] assms line_off_less [of x] by (simp add: ram_line_def)
  then show ?thesis using line_split [of x] by simp
qed

lemma drop_wb_ok:
  assumes ok: "cache_ok T v" and p: "pres v p" and k: "k < XR_WB_DEPTH" and i: "wb v p k = i" "i \<noteq> XR_CACHE_INDEX_INVALID"
    and R: "\<And>x. ram_window x \<Longrightarrow> ram_byte R x =
        (if unat (x - tg v p i) < 16 then dat v p (i * 16 + unat (x - tg v p i)) else ram_byte (ramv v) x)"
      "\<And>a n. ram_acc a n R = ram_acc a n (ramv v)" "ram_inv R"
  shows "cache_ok T (drop_wb p k i R v)" and "data_ok M v \<Longrightarrow> data_ok M (drop_wb p k i R v)"
    and "lowers t v (drop_wb p k i R v)" and "di (drop_wb p k i R v) p i = XR_WB_INDEX_INVALID"
proof -
  let ?v = "drop_wb p k i R v" let ?t = "tg v p i"
  have vi: "valid v p i" using wb_valid [OF ok p k] i by simp
  have t: "line_tag ?t = ?t" by (rule cache_okD(4) [OF ok vi])
  have rl: "ram_line ?v a = ram_line v a" for a by (simp add: ram_line_def R(2))
  have dk: "di v p i = k" using cache_okD(13) [OF ok p k] i by simp
  show "cache_ok T ?v"
  proof (rule cache_okI)
    show "wb ?v q l < 2048 \<and> fl ?v q (wb ?v q l) = 2 \<and> di ?v q (wb ?v q l) = l"
      if "pres ?v q" "l < 4" "wb ?v q l \<noteq> XR_CACHE_INDEX_INVALID" for q l
    proof -
      have o: "pres v q" "wb v q l \<noteq> XR_CACHE_INDEX_INVALID" "\<not> (q = p \<and> l = k)" using that by (auto split: if_splits)
      have "wb v q l \<noteq> i" if "q = p" using cache_okD(13) [OF ok o(1) \<open>l < 4\<close> o(2)] o(3) dk that by auto
      then show ?thesis using cache_okD(11-13) [OF ok o(1) that(2) o(2)] o(3) by auto
    qed
    show "di ?v q j < 4 \<and> wb ?v q (di ?v q j) = j" if "pres ?v q" "j < 2048" "di ?v q j \<noteq> XR_WB_INDEX_INVALID" for q j
    proof -
      have o: "pres v q" "di v q j \<noteq> XR_WB_INDEX_INVALID" "\<not> (q = p \<and> j = i)" using that by (auto split: if_splits)
      have "\<not> (q = p \<and> di v q j = k)" using cache_okD(15) [OF ok o(1) that(2) o(2)] o(3) i(1) by auto
      then show ?thesis using cache_okD(14,15) [OF ok o(1) that(2) o(2)] o(3) by auto
    qed
    show "ram_inv (ramv ?v)" using R(3) by simp
  qed (use cache_okD(1-10) [OF ok] in \<open>simp_all add: rl\<close>)
  show "data_ok M ?v" if d: "data_ok M v"
  proof -
    have "ram_byte R x = M x" if "ram_line v (line_tag x)" "\<not> dirty ?v (line_tag x)" for x
    proof (cases "line_tag x = ?t")
      case True
      then have "ram_byte R x = dat v p (i * 16 + line_off x)"
        using R(1) [OF line_window [OF cache_okD(16) [OF ok] that(1)]] line_member [OF t, of x] by simp
      then show ?thesis using d vi True by (simp add: data_ok_def)
    next
      case False
      then have "ram_byte R x = ram_byte (ramv v) x"
        using R(1) [OF line_window [OF cache_okD(16) [OF ok] that(1)]] line_member(1) [OF t, of x] by simp
      moreover have "\<not> dirty v (line_tag x)"
      proof
        assume "dirty v (line_tag x)"
        then obtain q l where o: "pres v q" "l < 4" "wb v q l \<noteq> XR_CACHE_INDEX_INVALID" "tg v q (wb v q l) = line_tag x"
          by (auto simp: dirty_def)
        then have "\<not> (q = p \<and> l = k)" using False i(1) by auto
        then have "dirty ?v (line_tag x)" using o unfolding dirty_def by (intro exI [of _ q] exI [of _ l]) auto
        then show False using that(2) by blast
      qed
      ultimately show ?thesis using d that(1) by (simp add: data_ok_def)
    qed
    then show ?thesis using d unfolding data_ok_def by (simp add: rl)
  qed
  show "lowers t v ?v" by (simp add: lowers_def rl)
  show "di ?v p i = XR_WB_INDEX_INVALID" by simp
qed

text \<open>Entries of the second-level cache change.\<close>

definition put_scache :: "nat \<Rightarrow> nat \<Rightarrow> u32 \<Rightarrow> nat \<Rightarrow> CacheView \<Rightarrow> CacheView" where
  "put_scache s f t q v = v\<lparr>sf := (sf v)(s := f), stg := (stg v)(s := t), sid := (sid v)(s := q)\<rparr>"

lemma put_scache_fields [simp]:
  "pres (put_scache s f t q v) = pres v" "pid (put_scache s f t q v) = pid v" "tg (put_scache s f t q v) = tg v"
  "fl (put_scache s f t q v) = fl v" "dat (put_scache s f t q v) = dat v" "wb (put_scache s f t q v) = wb v"
  "di (put_scache s f t q v) = di v" "ramv (put_scache s f t q v) = ramv v" "crash (put_scache s f t q v) = crash v"
  "sf (put_scache s f t q v) = (sf v)(s := f)" "stg (put_scache s f t q v) = (stg v)(s := t)"
  "sid (put_scache s f t q v) = (sid v)(s := q)"
  "valid (put_scache s f t q v) = valid v" "ram_line (put_scache s f t q v) = ram_line v"
  "dirty (put_scache s f t q v) = dirty v" "data_ok M (put_scache s f t q v) = data_ok M v"
  by (simp_all add: put_scache_def valid_def ram_line_def dirty_def data_ok_def fun_eq_iff)

lemma put_scache_ok:
  assumes ok: "cache_ok T v" and "f \<le> XR_LINE_EXCLUSIVE" "f = XR_LINE_EXCLUSIVE \<Longrightarrow> pres v q"
    and new: "\<And>p i. valid v p i \<Longrightarrow> sc_set_number (tg v p i) = s \<Longrightarrow>
        tg v p i = t \<and> fl v p i = f \<and> (f = XR_LINE_EXCLUSIVE \<longrightarrow> p = q)"
    and T: "\<And>u. u \<in> T \<Longrightarrow> sc_set_number u = s"
  shows "cache_ok {} (put_scache s f t q v)"
proof (rule cache_okI)
  show "scache_agrees (put_scache s f t q v) p i" if "valid (put_scache s f t q v) p i" for p i
  proof (cases "sc_set_number (tg v p i) = s")
    case True
    then show ?thesis using new [of p i] that by (simp add: scache_agrees_def Let_def)
  next
    case False
    then have "tg v p i \<notin> T" using T by blast
    then show ?thesis using cache_okD(8) [OF ok, of p i] that False by (simp add: scache_agrees_def Let_def)
  qed
qed (use cache_okD [OF ok] assms(2,3) in simp_all)

text \<open>Only the owner of an exclusive line holds a copy.\<close>

lemma exclusive_alone:
  assumes ok: "cache_ok {} v" and "valid v p i" "valid v q j" "tg v p i = tg v q j" "fl v p i = XR_LINE_EXCLUSIVE"
  shows "q = p \<and> j = i"
proof -
  have a: "scache_agrees v p i" "scache_agrees v q j" using cache_okD(8) [OF ok] assms(2,3) by simp_all
  then have "q = p" using assms(4,5) by (auto simp: scache_agrees_def Let_def)
  then show ?thesis using cache_okD(7) [OF ok, of p i j] assms(2-4) by simp
qed

lemma dirty_exclusive:
  assumes "cache_ok T v" "dirty v t"
  obtains p i where "valid v p i" "tg v p i = t" "fl v p i = XR_LINE_EXCLUSIVE" "di v p i \<noteq> XR_WB_INDEX_INVALID"
proof -
  obtain p k where o: "pres v p" "k < 4" "wb v p k \<noteq> XR_CACHE_INDEX_INVALID" "tg v p (wb v p k) = t"
    using assms(2) by (auto simp: dirty_def)
  then show ?thesis
    using that [of p "wb v p k"] wb_valid [OF assms(1) o(1-3)] cache_okD(12,13) [OF assms(1) o(1-3)] by simp
qed

text \<open>A line becomes the line of a free write buffer entry.\<close>

definition own_line :: "nat \<Rightarrow> nat \<Rightarrow> nat \<Rightarrow> CacheView \<Rightarrow> CacheView" where
  "own_line p k i v = v\<lparr>wb := upd2 (wb v) p k i, di := upd2 (di v) p i k\<rparr>"

lemma own_line_fields [simp]:
  "pres (own_line p k i v) = pres v" "pid (own_line p k i v) = pid v" "tg (own_line p k i v) = tg v"
  "fl (own_line p k i v) = fl v" "dat (own_line p k i v) = dat v" "sf (own_line p k i v) = sf v"
  "stg (own_line p k i v) = stg v" "sid (own_line p k i v) = sid v" "ramv (own_line p k i v) = ramv v"
  "crash (own_line p k i v) = crash v" "valid (own_line p k i v) = valid v" "ram_line (own_line p k i v) = ram_line v"
  "scache_agrees (own_line p k i v) = scache_agrees v"
  "wb (own_line p k i v) q l = (if q = p \<and> l = k then i else wb v q l)"
  "di (own_line p k i v) q j = (if q = p \<and> j = i then k else di v q j)"
  by (simp_all add: own_line_def valid_def ram_line_def scache_agrees_def fun_eq_iff)

lemma own_line_ok:
  assumes ok: "cache_ok T v" and "valid v p i" "fl v p i = XR_LINE_EXCLUSIVE" "di v p i = XR_WB_INDEX_INVALID"
    and "k < XR_WB_DEPTH" "wb v p k = XR_CACHE_INDEX_INVALID"
  shows "cache_ok T (own_line p k i v)" and "data_ok M v \<Longrightarrow> data_ok M (own_line p k i v)"
    and "dirty (own_line p k i v) (tg v p i)"
proof -
  let ?v = "own_line p k i v"
  have vi: "pres v p" "i < 2048" using assms(2) by (simp_all add: valid_def)
  show "cache_ok T ?v"
  proof (rule cache_okI)
    show "wb ?v q l < 2048 \<and> fl ?v q (wb ?v q l) = 2 \<and> di ?v q (wb ?v q l) = l"
      if "pres ?v q" "l < 4" "wb ?v q l \<noteq> XR_CACHE_INDEX_INVALID" for q l
    proof (cases "q = p \<and> l = k")
      case True
      then show ?thesis using assms(3) vi by simp
    next
      case False
      then have o: "pres v q" "wb v q l \<noteq> XR_CACHE_INDEX_INVALID" using that by auto
      have "\<not> (q = p \<and> wb v q l = i)" using cache_okD(13) [OF ok o(1) that(2) o(2)] assms(4) that(2) by auto
      then show ?thesis using cache_okD(11-13) [OF ok o(1) that(2) o(2)] False by auto
    qed
    show "di ?v q j < 4 \<and> wb ?v q (di ?v q j) = j" if "pres ?v q" "j < 2048" "di ?v q j \<noteq> XR_WB_INDEX_INVALID" for q j
    proof (cases "q = p \<and> j = i")
      case True
      then show ?thesis using assms(5) by simp
    next
      case False
      then have o: "pres v q" "di v q j \<noteq> XR_WB_INDEX_INVALID" using that by auto
      have "\<not> (q = p \<and> di v q j = k)" using cache_okD(15) [OF ok o(1) that(2) o(2)] assms(6) that(2) by auto
      then show ?thesis using cache_okD(14,15) [OF ok o(1) that(2) o(2)] False by auto
    qed
  qed (use cache_okD [OF ok] in simp_all)
  have more: "dirty ?v t" if d: "dirty v t" for t
  proof -
    obtain q l where o: "pres v q" "l < 4" "wb v q l \<noteq> XR_CACHE_INDEX_INVALID" "tg v q (wb v q l) = t"
      using d by (auto simp: dirty_def)
    then have "\<not> (q = p \<and> l = k)" using assms(6) by auto
    then show ?thesis using o unfolding dirty_def by (intro exI [of _ q] exI [of _ l]) auto
  qed
  show "data_ok M ?v" if "data_ok M v"
    using that more unfolding data_ok_def by (simp only: own_line_fields) blast
  show "dirty ?v (tg v p i)"
    unfolding dirty_def using vi assms(5) by (intro exI [of _ p] exI [of _ k]) simp
qed

text \<open>A store into an exclusive line of the write buffer.\<close>

definition store :: "u32 \<Rightarrow> u32 \<Rightarrow> nat \<Rightarrow> (u32 \<Rightarrow> u8) \<Rightarrow> (u32 \<Rightarrow> u8)" where
  "store a w len M = (\<lambda>x. if unat (x - a) < len then byte_of w (unat (x - a)) else M x)"

definition merge_line :: "nat \<Rightarrow> nat \<Rightarrow> u32 \<Rightarrow> u32 \<Rightarrow> nat \<Rightarrow> CacheView \<Rightarrow> CacheView" where
  "merge_line p i a w len v =
    v\<lparr>dat := (dat v)(p := CopyWithLength (dat v p) (i * 16 + line_off a) (bytes_of_u32 w) len)\<rparr>"

lemma merge_line_fields [simp]:
  "pres (merge_line p i a w len v) = pres v" "pid (merge_line p i a w len v) = pid v" "tg (merge_line p i a w len v) = tg v"
  "fl (merge_line p i a w len v) = fl v" "sf (merge_line p i a w len v) = sf v" "wb (merge_line p i a w len v) = wb v"
  "di (merge_line p i a w len v) = di v" "stg (merge_line p i a w len v) = stg v" "sid (merge_line p i a w len v) = sid v"
  "ramv (merge_line p i a w len v) = ramv v" "crash (merge_line p i a w len v) = crash v"
  "valid (merge_line p i a w len v) = valid v" "ram_line (merge_line p i a w len v) = ram_line v"
  "scache_agrees (merge_line p i a w len v) = scache_agrees v" "dirty (merge_line p i a w len v) = dirty v"
  by (simp_all add: merge_line_def valid_def ram_line_def scache_agrees_def dirty_def fun_eq_iff)

lemma merge_line_ok:
  assumes ok: "cache_ok {} v" and vi: "valid v p i" "fl v p i = XR_LINE_EXCLUSIVE" "tg v p i = line_tag a"
    and "dirty v (line_tag a)" and acc: "access_ok a len" and d: "data_ok M v"
  shows "cache_ok {} (merge_line p i a w len v)" and "data_ok (store a w len M) (merge_line p i a w len v)"
proof -
  let ?v = "merge_line p i a w len v"
  show "cache_ok {} ?v" using ok unfolding cache_ok_def by simp
  have l: "line_off a + len \<le> 16" "len \<le> 4" using access_in_line [OF acc] acc by (auto simp: access_ok_def)
  have "dat ?v q (j * 16 + line_off x) = store a w len M x" if "valid v q j" "line_tag x = tg v q j" for q j x
  proof (cases "q = p \<and> j = i")
    case True
    then have x: "line_tag x = line_tag a" using that(2) vi(3) by simp
    have m: "dat v p (i * 16 + line_off x) = M x" using d vi(1) x vi(3) by (simp add: data_ok_def)
    show ?thesis
      using True x m l access_member [OF acc, of x]
      by (auto simp: store_def merge_line_def CopyWithLength_def poke_def nth_bytes_of_u32)
  next
    case False
    then have ne: "line_tag x \<noteq> line_tag a"
      using exclusive_alone [OF ok vi(1) that(1) _ vi(2)] that(2) vi(3) by auto
    then have s: "store a w len M x = M x" using access_member(1) [OF acc, of x] by (simp add: store_def)
    have "dat ?v q (j * 16 + line_off x) = dat v q (j * 16 + line_off x)"
    proof (cases "q = p")
      case True
      then have "j \<noteq> i" using False by simp
      then have "\<not> (i * 16 + line_off a \<le> j * 16 + line_off x \<and> j * 16 + line_off x < i * 16 + line_off a + len)"
        using l line_off_less [of x] by (cases "j < i") auto
      then show ?thesis using True l by (auto simp: merge_line_def CopyWithLength_def poke_def)
    qed (simp add: merge_line_def)
    then show ?thesis using s d that by (simp add: data_ok_def)
  qed
  moreover have "ram_byte (ramv v) x = store a w len M x"
    if "ram_line v (line_tag x)" "\<not> dirty v (line_tag x)" for x
  proof -
    have "line_tag x \<noteq> line_tag a" using that(2) assms(5) by auto
    then show ?thesis using access_member(1) [OF acc, of x] d that by (simp add: store_def data_ok_def)
  qed
  ultimately show "data_ok (store a w len M) ?v" by (simp add: data_ok_def)
qed

text \<open>A line is read in.\<close>

definition install_line :: "nat \<Rightarrow> nat \<Rightarrow> u32 \<Rightarrow> nat \<Rightarrow> u8 list \<Rightarrow> CacheView \<Rightarrow> CacheView" where
  "install_line p i t f bs v =
    v\<lparr>fl := upd2 (fl v) p i f, tg := upd2 (tg v) p i t, dat := (dat v)(p := poke (dat v p) (i * 16) bs)\<rparr>"

lemma install_line_fields [simp]:
  "pres (install_line p i t f bs v) = pres v" "pid (install_line p i t f bs v) = pid v" "wb (install_line p i t f bs v) = wb v"
  "di (install_line p i t f bs v) = di v" "sf (install_line p i t f bs v) = sf v" "stg (install_line p i t f bs v) = stg v"
  "sid (install_line p i t f bs v) = sid v" "ramv (install_line p i t f bs v) = ramv v" "crash (install_line p i t f bs v) = crash v"
  "ram_line (install_line p i t f bs v) = ram_line v"
  "fl (install_line p i t f bs v) q j = (if q = p \<and> j = i then f else fl v q j)"
  "tg (install_line p i t f bs v) q j = (if q = p \<and> j = i then t else tg v q j)"
  by (simp_all add: install_line_def ram_line_def fun_eq_iff)

lemma install_line_ok:
  assumes ok: "cache_ok {} v" and p: "pres v p" "i < XR_DC_LINE_COUNT" "fl v p i = 0"
    and t: "line_tag t = t" "set_number t = i div 2" "ram_line v t" and f: "f \<noteq> 0" "f \<le> XR_LINE_EXCLUSIVE"
    and s: "stg v (sc_set_number t) = t" "sf v (sc_set_number t) = f" "f = XR_LINE_EXCLUSIVE \<Longrightarrow> sid v (sc_set_number t) = p"
    and miss: "\<And>j. valid v p j \<Longrightarrow> tg v p j \<noteq> t" and d: "data_ok M v"
    and bs: "bs = map (\<lambda>n. ram_byte (ramv v) (t + of_nat n)) [0..<16]"
  shows "cache_ok {} (install_line p i t f bs v)" and "data_ok M (install_line p i t f bs v)"
    and "di (install_line p i t f bs v) p i = XR_WB_INDEX_INVALID" and "\<not> dirty v t"
proof -
  let ?v = "install_line p i t f bs v"
  have di: "di v p i = XR_WB_INDEX_INVALID"
  proof (rule ccontr)
    assume "di v p i \<noteq> XR_WB_INDEX_INVALID"
    then have "di v p i < 4" "wb v p (di v p i) = i" using cache_okD(14,15) [OF ok p(1,2)] by auto
    then show False using cache_okD(12) [OF ok p(1), of "di v p i"] p(2,3) by simp
  qed
  then show "di ?v p i = XR_WB_INDEX_INVALID" by simp
  have val: "valid ?v q j \<longleftrightarrow> q = p \<and> j = i \<or> valid v q j" for q j using p f by (auto simp: valid_def)
  have nv: "\<not> valid v p i" using p by (simp add: valid_def)
  have nowb: "\<not> (q = p \<and> wb v q k = i)" if "pres v q" "k < 4" "wb v q k \<noteq> XR_CACHE_INDEX_INVALID" for q k
    using cache_okD(12) [OF ok that] p(3) by auto
  show "\<not> dirty v t"
  proof
    assume "dirty v t"
    then obtain q j where o: "valid v q j" "tg v q j = t" "fl v q j = 2" by (rule dirty_exclusive [OF ok])
    then have "sf v (sc_set_number t) = 2" "sid v (sc_set_number t) = q"
      using cache_okD(8) [OF ok o(1)] by (simp_all add: scache_agrees_def Let_def)
    then show False using s o miss by auto
  qed
  note nd = this
  show "cache_ok {} ?v"
  proof (rule cache_okI)
    show "fl ?v q j \<le> 2 \<and> line_tag (tg ?v q j) = tg ?v q j \<and> set_number (tg ?v q j) = j div 2 \<and> ram_line ?v (tg ?v q j)"
      if "valid ?v q j" for q j
      using that cache_okD(3-6) [OF ok, of q j] t f by (auto simp: val)
    show "j = j'" if "valid ?v q j" "valid ?v q j'" "tg ?v q j = tg ?v q j'" for q j j'
      using that cache_okD(7) [OF ok, of q j j'] miss by (auto simp: val split: if_splits)
    show "scache_agrees ?v q j" if "valid ?v q j" for q j
      using that cache_okD(8) [OF ok, of q j] s by (auto simp: val scache_agrees_def Let_def)
    show "wb ?v q k < 2048 \<and> fl ?v q (wb ?v q k) = 2 \<and> di ?v q (wb ?v q k) = k"
      if "pres ?v q" "k < 4" "wb ?v q k \<noteq> XR_CACHE_INDEX_INVALID" for q k
      using that cache_okD(11-13) [OF ok, of q k] nowb [of q k] by auto
  qed (use cache_okD [OF ok] in simp_all)
  have dd: "dirty ?v u \<longleftrightarrow> dirty v u" for u
    unfolding dirty_def using nowb by (auto intro!: ex_cong)
  have "dat ?v q (j * 16 + line_off x) = M x" if "valid ?v q j" "line_tag x = tg ?v q j" for q j x
  proof (cases "q = p \<and> j = i")
    case True
    then have x: "line_tag x = t" using that(2) by simp
    have lb: "length bs = 16" using bs by simp
    have "bs ! line_off x = ram_byte (ramv v) (t + of_nat (line_off x))"
      using line_off_less [of x] unfolding bs by (simp del: upt_rec_numeral)
    also have "t + of_nat (line_off x) = x" using line_split [of x] x by simp
    also have "ram_byte (ramv v) x = M x" using d nd t(3) x by (simp add: data_ok_def)
    finally have "bs ! line_off x = M x" .
    then show ?thesis using True line_off_less [of x] lb by (simp add: install_line_def poke_def)
  next
    case False
    then have o: "valid v q j" "line_tag x = tg v q j" using that by (auto simp: val)
    have "dat ?v q (j * 16 + line_off x) = dat v q (j * 16 + line_off x)"
    proof (cases "q = p")
      case True
      then have "j \<noteq> i" using False by simp
      then have "\<not> (i * 16 \<le> j * 16 + line_off x \<and> j * 16 + line_off x < i * 16 + length bs)"
        using line_off_less [of x] bs by (cases "j < i") auto
      then show ?thesis using True by (simp add: install_line_def poke_out)
    qed (simp add: install_line_def)
    then show ?thesis using d o by (simp add: data_ok_def)
  qed
  then show "data_ok M ?v" using d unfolding data_ok_def by (simp add: dd)
qed

section \<open>Operations of the machine\<close>

lemma set_number_less: "set_number t < 1024"
proof -
  have "(1023 :: u32) = mask 10" by (simp add: mask_eq_exp_minus_1)
  then have "set_number t = unat (drop_bit 4 t) mod 2 ^ 10" by (simp only: set_number_def unat_and_mask)
  then show ?thesis by simp
qed

lemma write_out_view:
  assumes ok: "cache_ok T (view m)" and p: "XrProcessorPresent m p" "k < XR_WB_DEPTH"
    and i: "WbIndices (XrProcessorTable m p) k = i" "i \<noteq> XR_CACHE_INDEX_INVALID"
  shows "cache_ok T (view (wb_write_out ports p k i m))"
    and "data_ok M (view m) \<Longrightarrow> data_ok M (view (wb_write_out ports p k i m))"
    and "lowers t (view m) (view (wb_write_out ports p k i m))"
    and "di (view (wb_write_out ports p k i m)) p i = XR_WB_INDEX_INVALID"
    and "fl (view (wb_write_out ports p k i m)) = fl (view m)"
    and "wb (view (wb_write_out ports p k i m)) = upd2 (wb (view m)) p k XR_CACHE_INDEX_INVALID"
    and "r \<noteq> p \<Longrightarrow> untouched r (view m) (view (wb_write_out ports p k i m))"
proof -
  let ?v = "view m" let ?t = "DcTags (XrProcessorTable m p) i" let ?bs = "peek (Dc (XrProcessorTable m p)) (i * 16) 16"
  have vi: "valid ?v p i" using wb_valid [OF ok, of p k] p i by simp
  have rl: "ram_window ?t" "ram_acc ?t 16 (RamBoards m)"
    using cache_okD(6) [OF ok vi] by (simp_all add: ram_line_def)
  have inv: "ram_inv (RamBoards m)" using cache_okD(16) [OF ok] by simp
  let ?R = "(RamBoards m)\<lparr>RAMSlots := (RAMSlots (RamBoards m))(ram_slot ?t :=
        poke (RAMSlots (RamBoards m) (ram_slot ?t)) (ram_off ?t) (take 16 ?bs))\<rparr>"
  have w: "EBusWrite ports ?t ?bs 16 p m = (EBUSSUCCESS, m\<lparr>RamBoards := ?R\<rparr>)"
    using rl by (simp add: bus_ram_write RAMWrite_eq)
  have v: "view (wb_write_out ports p k i m) = drop_wb p k i ?R ?v"
    unfolding wb_write_out_def Let_def w by (simp add: view_def drop_wb_def fun_eq_iff)
  have R: "ram_byte ?R x = (if unat (x - tg ?v p i) < 16 then dat ?v p (i * 16 + unat (x - tg ?v p i)) else ram_byte (ramv ?v) x)"
    for x using ram_write_byte [OF inv rl(2), of ?bs x] by simp
  show "cache_ok T (view (wb_write_out ports p k i m))"
    "data_ok M (view m) \<Longrightarrow> data_ok M (view (wb_write_out ports p k i m))"
    "lowers t (view m) (view (wb_write_out ports p k i m))"
    "di (view (wb_write_out ports p k i m)) p i = XR_WB_INDEX_INVALID"
    unfolding v using ok p i R inv by (intro drop_wb_ok [where T = T]; simp)+
  show "fl (view (wb_write_out ports p k i m)) = fl (view m)"
    "wb (view (wb_write_out ports p k i m)) = upd2 (wb (view m)) p k XR_CACHE_INDEX_INVALID"
    "r \<noteq> p \<Longrightarrow> untouched r (view m) (view (wb_write_out ports p k i m))"
    unfolding v by (simp_all add: fun_eq_iff untouched_def del: view_sel)
qed

lemma find_way: "List.find P [0, 1] = (if P 0 then Some 0 else if P 1 then Some 1 else None :: nat option)"
  by simp

text \<open>The ways of a set that a line can be in.\<close>

lemma line_ways:
  assumes "cache_ok T v" "valid v p i" "tg v p i = t"
  shows "i = set_number t * 2 + 0 \<or> i = set_number t * 2 + 1"
  using cache_okD(5) [OF assms(1,2)] assms(3) by auto

text \<open>A copy loses rights; its write buffer entry, if it has one, is written out first.\<close>

lemma lower_copy:
  assumes ok: "cache_ok T (view m)" "data_ok M (view m)" and q: "XrProcessorPresent m q" "i < XR_DC_LINE_COUNT"
    and s: "s < fl (view m) q i" "s = 0 \<or> tg (view m) q i \<in> T"
    and m': "m' = upd_proc q (\<lambda>proc. proc\<lparr>DcFlags := (DcFlags proc)(i := s)\<rparr>)
        (if DcIndexToWbIndex (proc_of m q) i \<noteq> XR_WB_INDEX_INVALID
         then wb_write_out ports q (DcIndexToWbIndex (proc_of m q) i) i m else m)"
  shows "cache_ok T (view m') \<and> data_ok M (view m') \<and> lowers (tg (view m) q i) (view m) (view m') \<and>
    fl (view m') q i = s \<and> (\<forall>r. r \<noteq> q \<longrightarrow> untouched r (view m) (view m'))"
proof -
  let ?t = "tg (view m) q i"
  define m1 where "m1 = (if DcIndexToWbIndex (proc_of m q) i \<noteq> XR_WB_INDEX_INVALID
      then wb_write_out ports q (DcIndexToWbIndex (proc_of m q) i) i m else m)"
  have m1: "cache_ok T (view m1) \<and> data_ok M (view m1) \<and> lowers ?t (view m) (view m1) \<and>
      di (view m1) q i = XR_WB_INDEX_INVALID \<and> fl (view m1) = fl (view m) \<and>
      (\<forall>r. r \<noteq> q \<longrightarrow> untouched r (view m) (view m1))"
  proof (cases "DcIndexToWbIndex (proc_of m q) i = XR_WB_INDEX_INVALID")
    case True
    then show ?thesis using ok lowers_refl by (simp add: m1_def untouched_def)
  next
    case False
    then have k: "DcIndexToWbIndex (proc_of m q) i < 4" "WbIndices (proc_of m q) (DcIndexToWbIndex (proc_of m q) i) = i"
      using cache_okD(14,15) [OF ok(1), of q i] q by simp_all
    show ?thesis using False write_out_view [OF ok(1) q(1) k] ok(2) q(2) unfolding m1_def by auto
  qed
  then have m1p: "XrProcessorPresent m1 q" "tg (view m1) = tg (view m)" using q by (auto simp: lowers_def)
  have e: "view m' = lower_flag q i s (view m1)" by (simp only: m' m1_def [symmetric] view_flag lower_flag_def)
  have lf: "cache_ok T (view m')" "data_ok M (view m')" "lowers ?t (view m1) (view m')"
    unfolding e using lower_flag_ok [of T "view m1" q i s] m1 m1p q s by auto
  have "untouched r (view m1) (view m')" if "r \<noteq> q" for r
    unfolding e using that by (simp add: untouched_def fun_eq_iff)
  then have "untouched r (view m) (view m')" if "r \<noteq> q" for r using m1 that unfolding untouched_def by simp
  moreover have "fl (view m') q i = s" unfolding e by simp
  ultimately show ?thesis using lf m1 lowers_trans by blast
qed

lemma downgrade_line:
  assumes ok: "cache_ok T (view m)" "data_ok M (view m)" and q: "XrProcessorPresent m q" and s: "s = 0 \<or> t \<in> T"
  shows "cache_ok T (view (XrDowngradeLine ports q t s m)) \<and> data_ok M (view (XrDowngradeLine ports q t s m)) \<and>
    lowers t (view m) (view (XrDowngradeLine ports q t s m)) \<and>
    (\<forall>i. valid (view (XrDowngradeLine ports q t s m)) q i \<longrightarrow> tg (view m) q i = t \<longrightarrow>
       fl (view (XrDowngradeLine ports q t s m)) q i \<le> s) \<and>
    (\<forall>r. r \<noteq> q \<longrightarrow> untouched r (view m) (view (XrDowngradeLine ports q t s m)))"
proof -
  let ?proc = "XrProcessorTable m q" let ?c = "set_number t * 2"
  let ?P = "\<lambda>i. DcFlags ?proc (?c + i) > s \<and> DcTags ?proc (?c + i) = t"
  have c: "?c + 1 < 2048" using set_number_less [of t] by simp
  show ?thesis
  proof (cases "List.find ?P [0, 1]")
    case None
    then have n: "\<not> ?P 0" "\<not> ?P 1" by (simp_all split: if_splits)
    have "fl (view m) q i \<le> s" if "valid (view m) q i" "tg (view m) q i = t" for i
      using line_ways [OF ok(1) that] that(2) n by auto
    then show ?thesis using None ok lowers_refl [of t "view m"] by (simp add: XrDowngradeLine_def Let_def untouched_def)
  next
    case (Some w)
    then have w: "?P w" "w = 0 \<or> w = 1" by (auto split: if_splits)
    define i where "i = ?c + w"
    have i: "i < 2048" "s < fl (view m) q i" "tg (view m) q i = t" using w c by (auto simp: i_def)
    have vi: "valid (view m) q i" using i q by (simp add: valid_def)
    define m' where "m' = XrDowngradeLine ports q t s m"
    have e: "m' = upd_proc q (\<lambda>proc. proc\<lparr>DcFlags := (DcFlags proc)(i := s)\<rparr>)
        (if DcIndexToWbIndex ?proc i \<noteq> XR_WB_INDEX_INVALID then wb_write_out ports q (DcIndexToWbIndex ?proc i) i m else m)"
      using Some by (simp add: m'_def XrDowngradeLine_def Let_def i_def [symmetric] del: find.simps)
    have sT: "s = 0 \<or> tg (view m) q i \<in> T" using s i(3) by blast
    then have lc: "cache_ok T (view m') \<and> data_ok M (view m') \<and> lowers t (view m) (view m') \<and>
        fl (view m') q i = s \<and> (\<forall>r. r \<noteq> q \<longrightarrow> untouched r (view m) (view m'))"
      using lower_copy [OF ok q i(1,2) sT e] i(3) by simp
    have "fl (view m') q j \<le> s" if "valid (view m') q j" "tg (view m) q j = t" for j
    proof (cases "j = i")
      case False
      have "valid (view m) q j" using lowers_valid that(1) lc by blast
      then show ?thesis using cache_okD(7) [OF ok(1) _ vi, of j] that(2) i(3) False by simp
    qed (use lc in simp)
    then show ?thesis using lc unfolding m'_def by blast
  qed
qed

lemma downgrade_all:
  assumes ok: "cache_ok T (view m)" "data_ok M (view m)"
  shows "cache_ok T (view (XrDowngradeAll ports this t 0 m)) \<and> data_ok M (view (XrDowngradeAll ports this t 0 m)) \<and>
    lowers t (view m) (view (XrDowngradeAll ports this t 0 m)) \<and>
    (\<forall>q i. Some q \<noteq> this \<longrightarrow> tg (view m) q i = t \<longrightarrow> \<not> valid (view (XrDowngradeAll ports this t 0 m)) q i) \<and>
    (\<forall>r. Some r = this \<longrightarrow> untouched r (view m) (view (XrDowngradeAll ports this t 0 m)))"
proof -
  define F where "F = (\<lambda>i m. if \<not> XrProcessorPresent m i \<or> Some i = this then m else XrDowngradeLine ports i t 0 m)"
  have step: "cache_ok T (view (fold F qs m)) \<and> data_ok M (view (fold F qs m)) \<and> lowers t (view m) (view (fold F qs m)) \<and>
    (\<forall>q i. q \<in> set qs \<longrightarrow> Some q \<noteq> this \<longrightarrow> tg (view m) q i = t \<longrightarrow> \<not> valid (view (fold F qs m)) q i) \<and>
    (\<forall>r. Some r = this \<longrightarrow> untouched r (view m) (view (fold F qs m)))" for qs
  proof (induction qs rule: rev_induct)
    case Nil
    then show ?case using ok lowers_refl by (simp add: untouched_def)
  next
    case (snoc q qs)
    define m1 where "m1 = fold F qs m"
    have IH: "cache_ok T (view m1)" "data_ok M (view m1)" "lowers t (view m) (view m1)"
      "\<And>q i. q \<in> set qs \<Longrightarrow> Some q \<noteq> this \<Longrightarrow> tg (view m) q i = t \<Longrightarrow> \<not> valid (view m1) q i"
      "\<And>r. Some r = this \<Longrightarrow> untouched r (view m) (view m1)"
      using snoc.IH by (auto simp: m1_def)
    have tgs: "tg (view m1) = tg (view m)" using IH(3) by (simp add: lowers_def)
    have f: "fold F (qs @ [q]) m = F q m1" by (simp add: m1_def)
    show ?case
    proof (cases "\<not> XrProcessorPresent m1 q \<or> Some q = this")
      case True
      then have "F q m1 = m1" by (simp add: F_def)
      moreover have "\<not> valid (view m1) q i" if "Some q \<noteq> this" for i using True that by (simp add: valid_def)
      ultimately show ?thesis using IH unfolding f by auto
    next
      case False
      then have e: "F q m1 = XrDowngradeLine ports q t 0 m1" by (simp add: F_def)
      note d = downgrade_line [OF IH(1,2), of q 0 t ports]
      have d: "cache_ok T (view (F q m1))" "data_ok M (view (F q m1))" "lowers t (view m1) (view (F q m1))"
        "\<And>i. tg (view m) q i = t \<Longrightarrow> \<not> valid (view (F q m1)) q i"
        "\<And>r. r \<noteq> q \<Longrightarrow> untouched r (view m1) (view (F q m1))"
        using d False unfolding e tgs by (auto simp: valid_def)
      have u: "untouched r (view m) (view (F q m1))" if "Some r = this" for r
      proof -
        have "r \<noteq> q" using that False by auto
        then show ?thesis using d(5) [of r] IH(5) [OF that] by (simp add: untouched_def)
      qed
      have "\<not> valid (view (F q m1)) r i" if "r \<in> set (qs @ [q])" "Some r \<noteq> this" "tg (view m) r i = t" for r i
      proof (cases "r = q")
        case True
        then show ?thesis using d(4) that(3) by simp
      next
        case False
        then show ?thesis using IH(4) [of r i] that lowers_valid [OF d(3)] by auto
      qed
      then show ?thesis using d(1-3) u lowers_trans [OF IH(3)] unfolding f by blast
    qed
  qed
  have "\<not> valid v q i" if "cache_ok T v" "16 \<le> q" for v q i
    using cache_okD(1) [OF that(1), of q] that(2) by (auto simp: valid_def)
  then show ?thesis using step [of "[0..<16]"] unfolding XrDowngradeAll_def F_def [symmetric]
    by (metis atLeastLessThan_iff atLeast_upt lessThan_iff linorder_not_le zero_le)
qed

text \<open>What a whole access keeps besides the invariant.\<close>

definition keeps :: "CacheView \<Rightarrow> CacheView \<Rightarrow> bool" where
  "keeps v v' \<longleftrightarrow> pres v' = pres v \<and> pid v' = pid v \<and> tg v' = tg v \<and> crash v' = crash v \<and>
     (\<forall>a. ram_line v' a = ram_line v a) \<and> (\<forall>q i. valid v' q i \<longrightarrow> valid v q i) \<and>
     (\<forall>q k. wb v' q k = wb v q k \<or> wb v' q k = XR_CACHE_INDEX_INVALID)"

lemma keeps_refl: "keeps v v"
  by (simp add: keeps_def)

lemma keeps_trans: "keeps u v \<Longrightarrow> keeps v w \<Longrightarrow> keeps u w"
  unfolding keeps_def by (intro conjI) metis+

lemma lowers_keeps: "lowers t v v' \<Longrightarrow> keeps v v'"
  using lowers_valid by (auto simp: keeps_def lowers_def)

text \<open>What holds of the machine whatever is accessed.\<close>

definition alike :: "CacheView \<Rightarrow> CacheView \<Rightarrow> bool" where
  "alike v v' \<longleftrightarrow> pres v' = pres v \<and> crash v' = crash v \<and> ram_line v' = ram_line v"

lemma alike_refl [simp]: "alike v v"
  by (simp add: alike_def)

lemma alike_trans: "alike u v \<Longrightarrow> alike v w \<Longrightarrow> alike u w"
  by (simp add: alike_def)

lemma keeps_alike: "keeps v v' \<Longrightarrow> alike v v'"
  by (simp add: alike_def keeps_def fun_eq_iff)

lemma put_scache_keeps: "keeps v (put_scache s f t q v)"
  by (simp add: keeps_def)

lemma cache_ok_weaken: "cache_ok {} v \<Longrightarrow> cache_ok T v"
  by (simp add: cache_ok_def)

lemma view_other [simp]:
  "view (m\<lparr>XrScacheReplacementIndex := x\<rparr>) = view m"
  "view (upd_proc p (\<lambda>proc. proc\<lparr>WbCycles := c\<rparr>) m) = view m"
  "view (upd_proc p (\<lambda>proc. proc\<lparr>DcReplacementIndex := f proc\<rparr>) m) = view m"
  by (simp_all add: view_def fun_eq_iff)

lemma downgrade_scache:
  "lowers t (view m) (view m') \<Longrightarrow> XrScacheFlags m' = XrScacheFlags m"
  "lowers t (view m) (view m') \<Longrightarrow> XrScacheTags m' = XrScacheTags m"
  by (simp_all add: lowers_def)

lemma view_take:
  assumes "lowers u (view m) (view m1)" "XrScacheTags m s = t" "ProcId (XrProcessorTable m1 p) = p"
  shows "view (m1\<lparr>XrScacheFlags := (XrScacheFlags m1)(s := f),
      XrScacheExclusiveIds := (XrScacheExclusiveIds m1)(s := ProcId (proc_of m1 p))\<rparr>) = put_scache s f t p (view m1)"
proof -
  have "XrScacheTags m1 s = t" using downgrade_scache(2) [OF assms(1)] assms(2) by simp
  then show ?thesis using assms(3) by (simp add: view_def put_scache_def fun_upd_idem)
qed

definition taken :: "u32 \<Rightarrow> nat \<Rightarrow> nat \<Rightarrow> CacheView \<Rightarrow> bool" where
  "taken t f p v \<longleftrightarrow> stg v (sc_set_number t) = t \<and> sf v (sc_set_number t) = f \<and> sid v (sc_set_number t) = p"

lemma agrees_entry:
  assumes "cache_ok {} v" "valid v q i" "sc_set_number (tg v q i) = s"
  shows "tg v q i = stg v s" "fl v q i = sf v s" "sf v s = XR_LINE_EXCLUSIVE \<Longrightarrow> sid v s = q" "sf v s \<noteq> 0"
  using cache_okD(8) [OF assms(1,2)] assms(2,3) by (auto simp: scache_agrees_def Let_def valid_def)

lemma reclaim_ok:
  assumes ok: "cache_ok {} (view m)" "data_ok M (view m)"
  shows "cache_ok {} (view (sc_reclaim ports s m)) \<and> data_ok M (view (sc_reclaim ports s m)) \<and>
    keeps (view m) (view (sc_reclaim ports s m)) \<and>
    (\<forall>q i. valid (view (sc_reclaim ports s m)) q i \<longrightarrow> sc_set_number (tg (view m) q i) \<noteq> s)"
proof (cases "XrScacheFlags m s = 0")
  case True
  then have "sc_set_number (tg (view m) q i) \<noteq> s" if "valid (view m) q i" for q i
    using agrees_entry(4) [OF ok(1) that] by auto
  then show ?thesis using True ok keeps_refl by (simp add: sc_reclaim_def)
next
  case False
  let ?v = "view m" let ?o = "XrScacheTags m s"
  define m1 where "m1 = (if XrScacheFlags m s = XR_LINE_SHARED then XrDowngradeAll ports None ?o 0 m
      else if XrScacheFlags m s = XR_LINE_EXCLUSIVE then XrDowngradeLine ports (XrScacheExclusiveIds m s) ?o 0 m else m)"
  have "XrScacheFlags m s = 1 \<or> XrScacheFlags m s = 2"
    using cache_okD(9) [OF ok(1), of s] False by auto
  then have m1: "cache_ok {} (view m1) \<and> data_ok M (view m1) \<and> lowers ?o ?v (view m1) \<and>
      (\<forall>q i. valid (view m1) q i \<longrightarrow> sc_set_number (tg ?v q i) \<noteq> s)"
  proof
    assume z: "XrScacheFlags m s = 1"
    then have e: "m1 = XrDowngradeAll ports None ?o 0 m" by (simp add: m1_def)
    have d: "cache_ok {} (view m1)" "data_ok M (view m1)" "lowers ?o ?v (view m1)"
        "\<And>q i. tg ?v q i = ?o \<Longrightarrow> \<not> valid (view m1) q i"
      using downgrade_all [OF ok, of ports None ?o] unfolding e by simp_all
    have "sc_set_number (tg ?v q i) \<noteq> s" if "valid (view m1) q i" for q i
      using agrees_entry(1) [OF ok(1) lowers_valid [OF d(3) that]] d(4) that by auto
    then show ?thesis using d by blast
  next
    assume z: "XrScacheFlags m s = 2"
    let ?q = "XrScacheExclusiveIds m s"
    have e: "m1 = XrDowngradeLine ports ?q ?o 0 m" using z by (simp add: m1_def)
    have "XrProcessorPresent m ?q" using cache_okD(10) [OF ok(1), of s] z by simp
    then have d: "cache_ok {} (view m1)" "data_ok M (view m1)" "lowers ?o ?v (view m1)"
        "\<And>i. valid (view m1) ?q i \<Longrightarrow> tg ?v ?q i \<noteq> ?o"
      using downgrade_line [OF ok, of ?q 0 ?o ports] unfolding e by (auto simp: valid_def)
    have "sc_set_number (tg ?v q i) \<noteq> s" if "valid (view m1) q i" for q i
      using agrees_entry(1,3) [OF ok(1) lowers_valid [OF d(3) that]] d(4) [of i] that z by auto
    then show ?thesis using d by blast
  qed
  have e: "view (sc_reclaim ports s m) = put_scache s 0 (stg (view m1) s) (sid (view m1) s) (view m1)"
  proof -
    have "sc_reclaim ports s m = m1\<lparr>XrScacheFlags := (XrScacheFlags m1)(s := 0)\<rparr>"
      by (simp only: sc_reclaim_def Let_def m1_def False if_False)
    then show ?thesis by (simp add: view_def put_scache_def)
  qed
  have tgs: "tg (view m1) = tg ?v" using m1 by (simp add: lowers_def)
  have "cache_ok {} (put_scache s 0 (stg (view m1) s) (sid (view m1) s) (view m1))"
    using m1 unfolding tgs [symmetric] by (intro put_scache_ok [of "{}"]) simp_all
  then show ?thesis
    unfolding e using m1 lowers_keeps keeps_trans put_scache_keeps by (simp only: put_scache_fields) blast
qed

lemma replace_scache:
  assumes ok: "cache_ok {} (view m)" "data_ok M (view m)" and p: "XrProcessorPresent m p" and f: "f \<le> XR_LINE_EXCLUSIVE"
    and r: "XrFindOrReplaceInScache ports p t f m = (s, created, m')"
  shows "s = sc_set_number t \<and> (\<not> created \<longrightarrow> m' = m \<and> XrScacheFlags m s \<noteq> 0 \<and> XrScacheTags m s = t) \<and>
    (created \<longrightarrow> cache_ok {} (view m') \<and> data_ok M (view m') \<and> keeps (view m) (view m') \<and> taken t f p (view m'))"
proof (cases "XrScacheFlags m (sc_set_number t) \<noteq> 0 \<and> XrScacheTags m (sc_set_number t) = t")
  case True
  then show ?thesis using r by (simp add: XrFindOrReplaceInScache_def Let_def)
next
  case False
  let ?s = "sc_set_number t"
  define m0 where "m0 = m\<lparr>XrScacheReplacementIndex := XrScacheReplacementIndex m + 1\<rparr>"
  define m1 where "m1 = sc_reclaim ports ?s m0"
  have v0: "view m0 = view m" by (simp add: m0_def)
  have d: "cache_ok {} (view m1)" "data_ok M (view m1)" "keeps (view m) (view m1)"
      "\<And>q i. valid (view m1) q i \<Longrightarrow> sc_set_number (tg (view m) q i) \<noteq> ?s"
    using reclaim_ok [of m0 M ports ?s] ok unfolding v0 m1_def by simp_all
  have p1: "XrProcessorPresent m1 p" "tg (view m1) = tg (view m)" using d(3) p by (simp_all add: keeps_def)
  have pp: "ProcId (XrProcessorTable m1 p) = p" using cache_okD(2) [OF d(1)] p1 by simp
  have r': "(s, created, m') = (?s, True, set_scache ?s f t (ProcId (proc_of m1 p)) m1)"
    using False unfolding r [symmetric] by (auto simp: XrFindOrReplaceInScache_def Let_def m1_def m0_def)
  then have v': "view m' = put_scache ?s f t p (view m1)" using pp by (simp add: view_scache put_scache_def)
  have "cache_ok {} (view m')"
    unfolding v' using d f p1 by (intro put_scache_ok [of "{}"]) auto
  moreover have "keeps (view m) (view m')" unfolding v' using d(3) keeps_trans put_scache_keeps by blast
  ultimately show ?thesis using r' d(2) v' by (simp add: taken_def)
qed

lemma miss_scache_ok:
  assumes ok: "cache_ok {} (view m)" "data_ok M (view m)" and p: "XrProcessorPresent m p"
    and f: "f = (if writing then XR_LINE_EXCLUSIVE else XR_LINE_SHARED)"
    and r: "dc_miss_scache ports p t writing m = (s, m')"
  shows "s = sc_set_number t \<and> cache_ok {} (view m') \<and> data_ok M (view m') \<and> keeps (view m) (view m') \<and> taken t f p (view m')"
proof -
  obtain s1 created m1 where fr: "XrFindOrReplaceInScache ports p t f m = (s1, created, m1)" by (metis prod.collapse)
  note rs = replace_scache [OF ok p _ fr]
  have f2: "f \<le> 2" using f by simp
  show ?thesis
  proof (cases created)
    case True
    then show ?thesis using r rs [OF f2] fr f by (auto simp: dc_miss_scache_def Let_def)
  next
    case False
    then have e: "s1 = sc_set_number t" "m1 = m" "XrScacheFlags m s1 \<noteq> 0" "XrScacheTags m s1 = t" using rs [OF f2] by auto
    let ?s = "sc_set_number t"
    define m2 where "m2 = (if XrScacheFlags m ?s = XR_LINE_EXCLUSIVE
        then XrDowngradeLine ports (XrScacheExclusiveIds m ?s) t (if writing then XR_LINE_INVALID else XR_LINE_SHARED) m
        else if writing \<and> XrScacheFlags m ?s = XR_LINE_SHARED then XrDowngradeAll ports None t XR_LINE_INVALID m else m)"
    have res: "s = ?s" "m' = m2\<lparr>XrScacheFlags := (XrScacheFlags m2)(?s := f),
        XrScacheExclusiveIds := (XrScacheExclusiveIds m2)(?s := ProcId (proc_of m2 p))\<rparr>"
    proof -
      have "dc_miss_scache ports p t writing m = (?s, m2\<lparr>XrScacheFlags := (XrScacheFlags m2)(?s := f),
        XrScacheExclusiveIds := (XrScacheExclusiveIds m2)(?s := ProcId (proc_of m2 p))\<rparr>)"
        unfolding dc_miss_scache_def Let_def f [symmetric] fr e(2) m2_def using False e(1) by simp
      then show "s = ?s" "m' = m2\<lparr>XrScacheFlags := (XrScacheFlags m2)(?s := f),
        XrScacheExclusiveIds := (XrScacheExclusiveIds m2)(?s := ProcId (proc_of m2 p))\<rparr>" using r by simp_all
    qed
    have line: "tg (view m) q i = t" "fl (view m) q i = XrScacheFlags m ?s" "XrScacheFlags m ?s = 2 \<Longrightarrow> q = XrScacheExclusiveIds m ?s"
      if "valid (view m) q i" "sc_set_number (tg (view m) q i) = ?s" for q i
      using agrees_entry [OF ok(1) that] e(1,4) by auto
    have "XrScacheFlags m ?s = 1 \<or> XrScacheFlags m ?s = 2"
      using cache_okD(9) [OF ok(1), of ?s] e(1,3) by auto
    then have m2: "cache_ok {t} (view m2) \<and> data_ok M (view m2) \<and> lowers t (view m) (view m2) \<and>
        (\<forall>q i. valid (view m2) q i \<longrightarrow> sc_set_number (tg (view m) q i) = ?s \<longrightarrow> f = 1 \<and> fl (view m2) q i = 1)"
    proof
      assume z: "XrScacheFlags m ?s = 2"
      let ?q = "XrScacheExclusiveIds m ?s"
      have e2: "m2 = XrDowngradeLine ports ?q t (if writing then 0 else 1) m" using z by (simp add: m2_def)
      have "XrProcessorPresent m ?q" using cache_okD(10) [OF ok(1), of ?s] z by simp
      then have d: "cache_ok {t} (view m2)" "data_ok M (view m2)" "lowers t (view m) (view m2)"
          "\<And>i. valid (view m2) ?q i \<Longrightarrow> tg (view m) ?q i = t \<Longrightarrow> fl (view m2) ?q i \<le> (if writing then 0 else 1)"
        using downgrade_line [OF cache_ok_weaken [OF ok(1)] ok(2), of ?q "if writing then 0 else 1" t "{t}" ports]
        unfolding e2 by simp_all
      have "f = 1 \<and> fl (view m2) q i = 1" if "valid (view m2) q i" "sc_set_number (tg (view m) q i) = ?s" for q i
      proof -
        have l: "q = ?q" "tg (view m) q i = t" using line [OF lowers_valid [OF d(3) that(1)] that(2)] z by simp_all
        then have "fl (view m2) q i \<le> (if writing then 0 else 1)" using d(4) [of i] that(1) by simp
        moreover have "fl (view m2) q i \<noteq> 0" using that(1) by (simp add: valid_def)
        ultimately show ?thesis using f by (auto split: if_splits)
      qed
      then show ?thesis using d by blast
    next
      assume z: "XrScacheFlags m ?s = 1"
      show ?thesis
      proof (cases writing)
        case True
        then have e2: "m2 = XrDowngradeAll ports None t 0 m" using z by (simp add: m2_def)
        have d: "cache_ok {t} (view m2)" "data_ok M (view m2)" "lowers t (view m) (view m2)"
            "\<And>q i. tg (view m) q i = t \<Longrightarrow> \<not> valid (view m2) q i"
          using downgrade_all [OF cache_ok_weaken [OF ok(1)] ok(2), of "{t}" ports None t] unfolding e2 by simp_all
        have "\<not> valid (view m2) q i" if "sc_set_number (tg (view m) q i) = ?s" for q i
          using d(4) line(1) [OF lowers_valid [OF d(3)] that] by auto
        then show ?thesis using d by blast
      next
        case False
        then have "m2 = m" using z by (simp add: m2_def)
        then show ?thesis using ok cache_ok_weaken lowers_refl line(2) z f False by auto
      qed
    qed
    have pid: "ProcId (XrProcessorTable m2 p) = p"
    proof -
      have "XrProcessorPresent m2 p" using m2 p by (simp add: lowers_def)
      then show ?thesis using cache_okD(2) [of "{t}" "view m2" p] m2 by simp
    qed
    have v': "view m' = put_scache ?s f t p (view m2)"
      unfolding res(2) using m2 e(1,4) pid by (intro view_take [of t m]) simp_all
    have tgs: "tg (view m2) = tg (view m)" using m2 by (simp add: lowers_def)
    have "cache_ok {} (view m')"
      unfolding v'
    proof (rule put_scache_ok [of "{t}"])
      show "tg (view m2) q i = t \<and> fl (view m2) q i = f \<and> (f = 2 \<longrightarrow> q = p)"
        if "valid (view m2) q i" "sc_set_number (tg (view m2) q i) = ?s" for q i
      proof -
        have "valid (view m) q i" using lowers_valid m2 that(1) by blast
        then have "tg (view m) q i = t" using line(1) that(2) tgs by auto
        then show ?thesis using m2 that tgs by auto
      qed
      show "pres (view m2) p" using m2 p by (simp add: lowers_def)
    qed (use m2 f2 in auto)
    moreover have "keeps (view m) (view m')"
      unfolding v' using m2 lowers_keeps keeps_trans put_scache_keeps by blast
    ultimately show ?thesis using m2 res(1) unfolding v' by (simp add: taken_def)
  qed
qed

text \<open>A shared line becomes exclusive.\<close>

lemma raise_ok:
  assumes ok: "cache_ok {t} v" "data_ok M v" and i: "valid v p i" "tg v p i = t" "fl v p i \<le> XR_LINE_EXCLUSIVE"
    and alone: "\<And>q j. valid v q j \<Longrightarrow> tg v q j = t \<Longrightarrow> q = p \<and> j = i"
    and s: "stg v (sc_set_number t) = t"
  shows "cache_ok {} (put_scache (sc_set_number t) XR_LINE_EXCLUSIVE t p (lower_flag p i XR_LINE_EXCLUSIVE v))"
    and "data_ok M (lower_flag p i XR_LINE_EXCLUSIVE v)"
proof -
  let ?v = "lower_flag p i XR_LINE_EXCLUSIVE v" let ?s = "sc_set_number t"
  have val: "valid ?v q j = valid v q j" for q j using i(1) by (auto simp: valid_def)
  have ag: "scache_agrees ?v q j" if "valid v q j" "tg v q j \<noteq> t" for q j
    using cache_okD(8) [OF ok(1) that(1)] that(2) i(2) by (auto simp: scache_agrees_def Let_def)
  have okt: "cache_ok {t} ?v"
  proof (rule cache_okI)
    show "fl ?v q j \<le> 2 \<and> line_tag (tg ?v q j) = tg ?v q j \<and> set_number (tg ?v q j) = j div 2 \<and> ram_line ?v (tg ?v q j)"
      if "valid ?v q j" for q j using that cache_okD(3-6) [OF ok(1), of q j] by (auto simp: val)
    show "j = j'" if "valid ?v q j" "valid ?v q j'" "tg ?v q j = tg ?v q j'" for q j j'
      using that cache_okD(7) [OF ok(1), of q j j'] by (simp add: val)
    show "wb ?v q k < 2048 \<and> fl ?v q (wb ?v q k) = 2 \<and> di ?v q (wb ?v q k) = k"
      if "pres ?v q" "k < 4" "wb ?v q k \<noteq> XR_CACHE_INDEX_INVALID" for q k
      using that cache_okD(11-13) [OF ok(1), of q k] by auto
  qed (use cache_okD [OF ok(1)] ag in \<open>simp_all add: val\<close>)
  have own: "tg ?v q j = t \<and> fl ?v q j = 2 \<and> (2 = XR_LINE_EXCLUSIVE \<longrightarrow> q = p)"
    if "valid ?v q j" "sc_set_number (tg ?v q j) = ?s" for q j
  proof -
    have "tg v q j = t"
    proof (rule ccontr)
      assume ne: "tg v q j \<noteq> t"
      then have "stg v ?s = tg v q j" using cache_okD(8) [OF ok(1), of q j] that by (auto simp: val scache_agrees_def Let_def)
      then show False using s ne by simp
    qed
    then show ?thesis using alone [of q j] that(1) by (simp add: val)
  qed
  have pr: "pres v p" using i(1) by (simp add: valid_def)
  show "cache_ok {} (put_scache ?s XR_LINE_EXCLUSIVE t p ?v)"
  proof (rule put_scache_ok [of "{t}"])
    show "cache_ok {t} ?v" by (rule okt)
    show "tg ?v q j = t \<and> fl ?v q j = XR_LINE_EXCLUSIVE \<and> (XR_LINE_EXCLUSIVE = XR_LINE_EXCLUSIVE \<longrightarrow> q = p)"
      if "valid ?v q j" "sc_set_number (tg ?v q j) = ?s" for q j using own [OF that] by blast
  qed (use pr in simp_all)
  show "data_ok M ?v" using ok(2) unfolding data_ok_def by (simp add: val)
qed

lemma own_merge:
  assumes "cache_ok {} (view m)" "data_ok M (view m)" "valid (view m) p i" "fl (view m) p i = XR_LINE_EXCLUSIVE"
    and "di (view m) p i = XR_WB_INDEX_INVALID" "k < XR_WB_DEPTH" "wb (view m) p k = XR_CACHE_INDEX_INVALID"
    and "tg (view m) p i = line_tag a" "access_ok a len"
  shows "cache_ok {} (view (dc_merge p (i * 16 + unat (a AND 15)) w len (dc_own p k i m))) \<and>
    data_ok (store a w len M) (view (dc_merge p (i * 16 + unat (a AND 15)) w len (dc_own p k i m))) \<and>
    alike (view m) (view (dc_merge p (i * 16 + unat (a AND 15)) w len (dc_own p k i m)))"
proof -
  have v1: "view (dc_own p k i m) = own_line p k i (view m)" by (simp add: view_own own_line_def)
  have v: "view (dc_merge p (i * 16 + unat (a AND 15)) w len (dc_own p k i m)) = merge_line p i a w len (own_line p k i (view m))"
    unfolding view_merge v1 merge_line_def line_off_def ..
  note o = own_line_ok [OF assms(1) assms(3-7)]
  have "alike (view m) (merge_line p i a w len (own_line p k i (view m)))" by (simp add: alike_def)
  then show ?thesis
    unfolding v using merge_line_ok [of "own_line p k i (view m)" p i a len M w] o assms by simp
qed

lemma upgrade_ok:
  assumes ok: "cache_ok {} (view m)" "data_ok M (view m)" and i: "valid (view m) p i" "tg (view m) p i = line_tag a"
      "fl (view m) p i = XR_LINE_SHARED" and k: "k < XR_WB_DEPTH" "wb (view m) p k = XR_CACHE_INDEX_INVALID"
    and acc: "access_ok a len" and r: "dc_upgrade ports p (line_tag a) i k (unat (a AND 15)) w len m = (st, dest, m')"
  shows "st = 1 \<and> cache_ok {} (view m') \<and> data_ok (store a w len M) (view m') \<and> alike (view m) (view m')"
proof -
  let ?t = "line_tag a" let ?s = "sc_set_number ?t"
  have ag: "scache_agrees (view m) p i" using cache_okD(8) [OF ok(1) i(1)] by simp
  then have s: "XrScacheTags m ?s = ?t" "XrScacheFlags m ?s = 1" using i(2,3) by (simp_all add: scache_agrees_def Let_def)
  then have fs: "XrFindInScache ?t m = Some ?s" by (simp add: XrFindInScache_def Let_def)
  define m1 where "m1 = XrDowngradeAll ports (Some p) ?t 0 m"
  have d: "cache_ok {?t} (view m1)" "data_ok M (view m1)" "lowers ?t (view m) (view m1)"
      "\<And>q j. q \<noteq> p \<Longrightarrow> tg (view m) q j = ?t \<Longrightarrow> \<not> valid (view m1) q j" "untouched p (view m) (view m1)"
    using downgrade_all [OF cache_ok_weaken [OF ok(1)] ok(2), of "{?t}" ports "Some p" ?t] unfolding m1_def by simp_all
  have p1: "XrProcessorPresent m1 p" "ProcId (XrProcessorTable m1 p) = p"
  proof -
    show "XrProcessorPresent m1 p" using d(3) i(1) by (simp add: lowers_def valid_def)
    then show "ProcId (XrProcessorTable m1 p) = p" using cache_okD(2) [OF d(1), of p] by simp
  qed
  have tgs: "tg (view m1) = tg (view m)" "XrScacheTags m1 = XrScacheTags m" using d(3) by (simp_all add: lowers_def)
  have i1: "valid (view m1) p i" "fl (view m1) p i = 1" using i d(5) p1 by (simp_all add: valid_def untouched_def)
  have alone: "q = p \<and> j = i" if "valid (view m1) q j" "tg (view m1) q j = ?t" for q j
  proof -
    have "q = p" using d(4) [of q j] that tgs by auto
    then show ?thesis using cache_okD(7) [OF d(1), of p j i] i1 i(2) that tgs by auto
  qed
  let ?v2 = "put_scache ?s XR_LINE_EXCLUSIVE ?t p (lower_flag p i XR_LINE_EXCLUSIVE (view m1))"
  have a: "tg (view m1) p i = ?t" "fl (view m1) p i \<le> 2" "stg (view m1) ?s = ?t"
    using tgs i(2) i1(2) s(1) by simp_all
  have r2: "cache_ok {} ?v2" "data_ok M ?v2"
    using raise_ok [OF d(1,2) i1(1) a(1,2) alone a(3)] by simp_all
  define m2 where "m2 = m1\<lparr>XrScacheFlags := (XrScacheFlags m1)(?s := XR_LINE_EXCLUSIVE),
      XrScacheExclusiveIds := (XrScacheExclusiveIds m1)(?s := ProcId (proc_of m1 p))\<rparr>"
  define m3 where "m3 = upd_proc p (\<lambda>proc. proc\<lparr>DcFlags := (DcFlags proc)(i := XR_LINE_EXCLUSIVE)\<rparr>) m2"
  have v2: "view m2 = put_scache ?s XR_LINE_EXCLUSIVE ?t p (view m1)"
    unfolding m2_def using d(3) s(1) p1(2) by (intro view_take) simp_all
  have v3: "view m3 = ?v2"
    unfolding m3_def view_flag v2 by (simp add: put_scache_def lower_flag_def)
  have di: "di (view m) p i = XR_WB_INDEX_INVALID"
  proof (rule ccontr)
    assume n: "di (view m) p i \<noteq> XR_WB_INDEX_INVALID"
    have pi: "pres (view m) p" "i < 2048" using i(1) by (simp_all add: valid_def)
    from cache_okD(14,15) [OF ok(1) pi n] cache_okD(12) [OF ok(1) pi(1), of "di (view m) p i"] show False
      using pi(2) i(3) by simp
  qed
  have r': "(st, dest, m') = (1, None, dc_merge p (i * 16 + unat (a AND 15)) w len (dc_own p k i m3))"
    unfolding r [symmetric] dc_upgrade_def fs using s(2) by (simp add: Let_def m3_def m2_def m1_def)
  have "alike (view m) ?v2" using d(3) by (simp add: lowers_def alike_def fun_eq_iff)
  moreover have "valid (view m3) p i" "fl (view m3) p i = 2" "di (view m3) p i = XR_WB_INDEX_INVALID"
      "wb (view m3) p k = XR_CACHE_INDEX_INVALID" "tg (view m3) p i = ?t"
    unfolding v3 using i1(1) d(5) di k(2) i(2) tgs by (simp_all add: valid_def untouched_def del: view_sel)
  ultimately show ?thesis
    using own_merge [of m3 M p i k a len w] r2 r' k(1) acc alike_trans by (auto simp: v3 simp del: view_sel)
qed

end
