(* ===== verification/FlatMemory.thy ===== *)
theory FlatMemory
  imports Coherence
begin

text \<open>
  The accesses of any number of processors, through their caches and write buffers, are the
  accesses of one flat memory: the miss path, the whole access with its restarts, and sequences.
\<close>

section \<open>A miss\<close>

lemma evict_ok:
  assumes ok: "cache_ok {} (view m)" "data_ok M (view m)" and p: "XrProcessorPresent m p" "i < XR_DC_LINE_COUNT"
  shows "cache_ok {} (view (dc_evict ports p i m)) \<and> data_ok M (view (dc_evict ports p i m)) \<and>
    (\<exists>t. lowers t (view m) (view (dc_evict ports p i m))) \<and> fl (view (dc_evict ports p i m)) p i = XR_LINE_INVALID"
proof (cases "DcFlags (proc_of m p) i = XR_LINE_INVALID")
  case True
  then show ?thesis using ok lowers_refl by (auto simp: dc_evict_def Let_def)
next
  case False
  let ?m = "dc_evict ports p i m"
  have e: "?m = upd_proc p (\<lambda>proc. proc\<lparr>DcFlags := (DcFlags proc)(i := 0)\<rparr>)
      (if DcIndexToWbIndex (proc_of m p) i \<noteq> XR_WB_INDEX_INVALID
       then wb_write_out ports p (DcIndexToWbIndex (proc_of m p) i) i m else m)"
    using False by (simp add: dc_evict_def Let_def)
  show ?thesis using lower_copy [OF ok p _ _ e] False by auto
qed

lemma fill_ok:
  assumes ok: "cache_ok {} (view m)" "data_ok M (view m)" and p: "XrProcessorPresent m p" "i < XR_DC_LINE_COUNT"
    "fl (view m) p i = XR_LINE_INVALID"
    and t: "line_tag t = t" "set_number t = i div 2" "ram_line (view m) t"
    and f: "f = (if writing then XR_LINE_EXCLUSIVE else XR_LINE_SHARED)" and s: "taken t f p (view m)"
    and miss: "\<And>j. valid (view m) p j \<Longrightarrow> tg (view m) p j \<noteq> t"
    and r: "dc_fill ports p t i writing m = (st, m')"
  shows "st = EBUSSUCCESS \<and> cache_ok {} (view m') \<and> data_ok M (view m') \<and> alike (view m) (view m') \<and>
    valid (view m') p i \<and> tg (view m') p i = t \<and> fl (view m') p i = f \<and> di (view m') p i = XR_WB_INDEX_INVALID \<and>
    wb (view m') = wb (view m)"
proof -
  let ?bs = "map (\<lambda>n. ram_byte (RamBoards m) (t + of_nat n)) [0..<16]"
  have w: "ram_window t" "ram_acc t 16 (RamBoards m)" using t(3) by (simp_all add: ram_line_def)
  have inv: "ram_inv (RamBoards m)" using cache_okD(16) [OF ok(1)] by simp
  define m1 where "m1 = upd_proc p (\<lambda>proc. proc\<lparr>DcFlags := (DcFlags proc)(i := f), DcTags := (DcTags proc)(i := t)\<rparr>) m"
  have rb: "RamBoards m1 = RamBoards m" by (simp add: m1_def)
  have "EBusRead ports t 16 p m1 = (EBUSSUCCESS, ?bs, m1)"
    using w inv by (simp add: bus_ram_read RAMRead_eq ram_read_bytes rb del: upt_rec_numeral)
  then have e: "(st, m') = (EBUSSUCCESS, upd_proc p (\<lambda>proc. proc\<lparr>Dc := poke (Dc proc) (i * 16) ?bs\<rparr>) m1)"
    unfolding r [symmetric] dc_fill_def Let_def f [symmetric] m1_def [symmetric] by (simp del: upt_rec_numeral)
  have v: "view m' = install_line p i t f ?bs (view m)"
    using e by (simp add: view_def install_line_def m1_def fun_eq_iff del: upt_rec_numeral)
  have f2: "f \<noteq> 0" "f \<le> 2" using f by simp_all
  have s': "stg (view m) (sc_set_number t) = t" "sf (view m) (sc_set_number t) = f" "sid (view m) (sc_set_number t) = p"
    using s by (simp_all add: taken_def)
  have p': "pres (view m) p" using p by simp
  have bs: "?bs = map (\<lambda>n. ram_byte (ramv (view m)) (t + of_nat n)) [0..<16]" by simp
  note il = install_line_ok [OF ok(1) p' p(2,3) t f2 s'(1,2) s'(3) miss ok(2) bs]
  have "valid (install_line p i t f ?bs (view m)) p i" using p f2 by (simp add: valid_def)
  moreover have "alike (view m) (install_line p i t f ?bs (view m))" by (simp add: alike_def)
  ultimately show ?thesis using il e unfolding v by (simp del: view_sel upt_rec_numeral)
qed

definition load :: "u32 \<Rightarrow> nat \<Rightarrow> (u32 \<Rightarrow> u8) \<Rightarrow> u32" where
  "load a len M = u32_of_bytes (map (\<lambda>n. M (a + of_nat n)) [0..<len])"

lemma read_value:
  assumes "valid v p i" "tg v p i = line_tag a" "data_ok M v" "access_ok a len"
  shows "CopyWithLengthZext (dat v p) (i * 16 + unat (a AND 15)) len = load a len M"
proof -
  have "dat v p (i * 16 + line_off a + n) = M (a + of_nat n)" if n: "n < len" for n
  proof -
    have "n < 4" using n assms(4) by (auto simp: access_ok_def)
    then have d: "unat (a + of_nat n - a) = n" by (simp add: unat_of_nat)
    then have "line_tag (a + of_nat n) = line_tag a" "line_off (a + of_nat n) = line_off a + n"
      using access_member [OF assms(4), of "a + of_nat n"] n by auto
    then show ?thesis using assms(1-3) unfolding data_ok_def add.assoc by metis
  qed
  then have "peek (dat v p) (i * 16 + line_off a) len = map (\<lambda>n. M (a + of_nat n)) [0..<len]"
    by (intro nth_equalityI) simp_all
  then show ?thesis by (simp add: CopyWithLengthZext_def load_def line_off_def)
qed

lemma set_number_line: "set_number (line_tag a) = set_number a"
proof -
  have "(1023 :: u32) = mask 10" by (simp add: mask_eq_exp_minus_1)
  then have e: "set_number x = unat x div 16 mod 1024" for x
    by (simp only: set_number_def unat_and_mask unat_drop_bit_eq) (simp add: drop_bit_eq_div)
  show ?thesis using line_tag_eq [of "line_tag a" a] by (simp add: e)
qed

lemma way_index:
  "set_number a * 2 + unat (x AND 1) < XR_DC_LINE_COUNT"
  "(set_number a * 2 + unat ((x :: u32) AND 1)) div 2 = set_number (line_tag a)"
proof -
  have "unat (x AND mask 1) < 2" by (simp only: unat_and_mask) simp
  then have x: "unat (x AND 1) < 2" by (simp add: mask_eq_exp_minus_1)
  then show "set_number a * 2 + unat (x AND 1) < XR_DC_LINE_COUNT" using set_number_less [of a] by simp
  show "(set_number a * 2 + unat (x AND 1)) div 2 = set_number (line_tag a)" using x by (simp add: set_number_line)
qed

text \<open>A miss fetches the line: a read returns the contents, a write leaves it in the write buffer with the new contents.\<close>

lemma miss_ok:
  assumes ok: "cache_ok {} (view m)" "data_ok M (view m)" and p: "XrProcessorPresent m p"
    and a: "ram_line (view m) (line_tag a)" "access_ok a len"
    and miss: "\<And>j. valid (view m) p j \<Longrightarrow> tg (view m) p j \<noteq> line_tag a"
    and k: "writing \<Longrightarrow> k < XR_WB_DEPTH \<and> wb (view m) p k = XR_CACHE_INDEX_INVALID"
    and r: "dc_miss ports p a writing k w len m = (st, dest, m')"
  shows "st = 1 \<and> cache_ok {} (view m') \<and> alike (view m) (view m') \<and>
    (if writing then data_ok (store a w len M) (view m')
     else data_ok M (view m') \<and> dest = Some (load a len M))"
proof -
  let ?t = "line_tag a" let ?f = "if writing then XR_LINE_EXCLUSIVE else XR_LINE_SHARED"
  obtain s m1 where e1: "dc_miss_scache ports p ?t writing m = (s, m1)" by fastforce
  have m1: "cache_ok {} (view m1)" "data_ok M (view m1)" "keeps (view m) (view m1)" "taken ?t ?f p (view m1)"
    using miss_scache_ok [OF ok p refl e1] by simp_all
  define i where "i = set_number a * 2 + unat (DcReplacementIndex (proc_of m1 p) AND 1)"
  define m2 where "m2 = upd_proc p (\<lambda>proc. proc\<lparr>DcReplacementIndex := DcReplacementIndex proc + 1\<rparr>) m1"
  define m3 where "m3 = dc_evict ports p i m2"
  obtain res m4 where e4: "dc_fill ports p ?t i writing m3 = (res, m4)" by fastforce
  have i: "i < 2048" "set_number ?t = i div 2" using way_index [of a] by (simp_all add: i_def)
  have v2: "view m2 = view m1" by (simp add: m2_def)
  have p2: "XrProcessorPresent m2 p" using m1(3) p by (simp add: keeps_def m2_def)
  obtain u where m3: "cache_ok {} (view m3)" "data_ok M (view m3)" "lowers u (view m1) (view m3)" "fl (view m3) p i = 0"
    using evict_ok [of m2 M p i ports] m1 p2 i(1) unfolding v2 m3_def [symmetric] by auto
  have p3: "XrProcessorPresent m3 p" "ram_line (view m3) ?t" "taken ?t ?f p (view m3)"
    using m1(3,4) m3(3) p a(1) by (simp_all add: lowers_def keeps_def taken_def)
  have ms: "tg (view m3) p j \<noteq> ?t" if "valid (view m3) p j" for j
  proof -
    have "valid (view m) p j" using lowers_valid [OF m3(3) that] m1(3) by (simp add: keeps_def)
    moreover have "tg (view m3) = tg (view m)" using m1(3) m3(3) by (simp add: lowers_def keeps_def)
    ultimately show ?thesis using miss by simp
  qed
  have m4: "res = EBUSSUCCESS" "cache_ok {} (view m4)" "data_ok M (view m4)" "alike (view m3) (view m4)"
      "valid (view m4) p i" "tg (view m4) p i = ?t" "fl (view m4) p i = ?f" "di (view m4) p i = XR_WB_INDEX_INVALID"
      "wb (view m4) = wb (view m3)"
    using fill_ok [OF m3(1,2) p3(1) i(1) m3(4) line_tag_idem(1) i(2) p3(2) refl p3(3) ms e4] by simp_all
  have al: "alike (view m) (view m4)"
    using keeps_alike [OF m1(3)] keeps_alike [OF lowers_keeps [OF m3(3)]] m4(4) alike_trans by blast
  have e: "(st, dest, m') = (if writing then (1, None, dc_merge p (i * 16 + unat (a AND 15)) w len (dc_own p k i m4))
      else (1, Some (CopyWithLengthZext (Dc (proc_of m4 p)) (i * 16 + unat (a AND 15)) len), m4))"
    unfolding r [symmetric] dc_miss_def Let_def e1 prod.case i_def [symmetric] m2_def [symmetric] m3_def [symmetric] e4
    using m4(1) by simp
  show ?thesis
  proof (cases writing)
    case True
    have "wb (view m4) p k = XR_CACHE_INDEX_INVALID"
      using k [OF True] m1(3) m3(3) m4(9) unfolding lowers_def keeps_def by metis
    then show ?thesis
      using True e al own_merge [of m4 M p i k a len w] m4 k a(2) alike_trans by (auto simp del: view_sel)
  next
    case False
    then show ?thesis using e al m4 read_value [OF m4(5,6,3) a(2)] by simp
  qed
qed

section \<open>The write buffer\<close>

lemma wb_scan_cases:
  fixes js :: "nat list"
  shows "case wb_scan proc tag js free of
     WbHit j \<Rightarrow> \<exists>k\<in>set js. WbIndices proc k = j \<and> j \<noteq> XR_CACHE_INDEX_INVALID \<and> DcTags proc j = tag
   | WbFree k \<Rightarrow> (free = Some k \<or> k \<in> set js \<and> WbIndices proc k = XR_CACHE_INDEX_INVALID) \<and>
       (\<forall>l\<in>set js. WbIndices proc l = XR_CACHE_INDEX_INVALID \<or> DcTags proc (WbIndices proc l) \<noteq> tag)
   | WbFull \<Rightarrow> free = None \<and> (\<forall>k\<in>set js. WbIndices proc k \<noteq> XR_CACHE_INDEX_INVALID)"
proof (induction js arbitrary: free)
  case Nil
  then show ?case by (simp split: option.split)
next
  case (Cons i js)
  from Cons [of free] Cons [of "Some i"] show ?case by (auto simp: Let_def split: WbScan.splits)
qed

text \<open>A flush writes every line of the write buffer to RAM and empties it.\<close>

lemma flush_ok:
  assumes ok: "cache_ok {} (view m)" "data_ok M (view m)" and p: "XrProcessorPresent m p"
  shows "cache_ok {} (view (XrFlushWriteBuffer ports p m)) \<and> data_ok M (view (XrFlushWriteBuffer ports p m)) \<and>
    lowers t (view m) (view (XrFlushWriteBuffer ports p m)) \<and>
    (\<forall>k < XR_WB_DEPTH. wb (view (XrFlushWriteBuffer ports p m)) p k = XR_CACHE_INDEX_INVALID)"
proof -
  define F where "F = (\<lambda>i m. let index = WbIndices (proc_of m p) i
      in if index \<noteq> XR_CACHE_INDEX_INVALID then wb_write_out ports p i index m else m)"
  have "cache_ok {} (view (fold F [0..<n] m)) \<and> data_ok M (view (fold F [0..<n] m)) \<and> lowers t (view m) (view (fold F [0..<n] m)) \<and>
      (\<forall>k < n. wb (view (fold F [0..<n] m)) p k = XR_CACHE_INDEX_INVALID)" if "n \<le> 4" for n
    using that
  proof (induction n)
    case 0
    then show ?case using ok lowers_refl by simp
  next
    case (Suc n)
    define m1 where "m1 = fold F [0..<n] m"
    have IH: "cache_ok {} (view m1)" "data_ok M (view m1)" "lowers t (view m) (view m1)"
        "\<And>k. k < n \<Longrightarrow> wb (view m1) p k = XR_CACHE_INDEX_INVALID"
      using Suc by (simp_all add: m1_def)
    have p1: "XrProcessorPresent m1 p" using IH(3) p by (simp add: lowers_def)
    have f: "fold F [0..<Suc n] m = F n m1" by (simp add: m1_def)
    show ?case
    proof (cases "WbIndices (proc_of m1 p) n = XR_CACHE_INDEX_INVALID")
      case True
      then have "F n m1 = m1" by (simp add: F_def)
      then show ?thesis using IH True unfolding f by (auto simp: less_Suc_eq)
    next
      case False
      then have e: "F n m1 = wb_write_out ports p n (WbIndices (proc_of m1 p) n) m1" by (simp add: F_def)
      have n: "n < 4" using Suc.prems by simp
      note w = write_out_view [OF IH(1) p1 n refl False]
      show ?thesis
        unfolding f e using w(1) w(2) [OF IH(2)] lowers_trans [OF IH(3) w(3)] IH(4) w(6)
        by (auto simp: less_Suc_eq simp del: view_sel)
    qed
  qed
  from this [of 4] show ?thesis by (simp add: XrFlushWriteBuffer_def F_def [symmetric])
qed

section \<open>The access\<close>

definition access_result :: "bool \<Rightarrow> bool \<Rightarrow> u32 \<Rightarrow> u32 \<Rightarrow> nat \<Rightarrow> (u32 \<Rightarrow> u8) \<Rightarrow> CacheView \<Rightarrow> XrAccessResult \<Rightarrow> bool" where
  "access_result writing sc a w len M v r =
    (let (st, dest, m') = r
     in cache_ok {} (view m') \<and> alike v (view m') \<and>
        (if st = 2 then sc \<and> data_ok M (view m')
         else st = 1 \<and> (if writing then data_ok (store a w len M) (view m')
                        else data_ok M (view m') \<and> dest = Some (load a len M))))"

text \<open>A store that finds its line in the write buffer, and what a free entry tells.\<close>

lemma wb_hit_ok:
  assumes ok: "cache_ok {} (view m)" "data_ok M (view m)" and p: "XrProcessorPresent m p" and acc: "access_ok a len"
    and hit: "wb_scan (proc_of m p) (line_tag a) [0..<XR_WB_DEPTH] None = WbHit j"
  shows "access_result True sc a w len M (view m) (1, None, dc_merge p (j * 16 + unat (a AND 15)) w len m)"
proof -
  obtain k where k: "k < 4" "WbIndices (proc_of m p) k = j" "j \<noteq> XR_CACHE_INDEX_INVALID" "DcTags (proc_of m p) j = line_tag a"
    using wb_scan_cases [where proc = "proc_of m p" and tag = "line_tag a" and js = "[0..<XR_WB_DEPTH]" and free = None] hit
    by (auto simp del: upt_rec_numeral)
  have vj: "valid (view m) p j" using wb_valid [OF ok(1), of p k] p k by simp
  have d: "dirty (view m) (line_tag a)" unfolding dirty_def using p k by (intro exI [of _ p] exI [of _ k]) simp
  have ex: "fl (view m) p j = 2" using cache_okD(12) [OF ok(1), of p k] p k by simp
  have v: "view (dc_merge p (j * 16 + unat (a AND 15)) w len m) = merge_line p j a w len (view m)"
    unfolding view_merge merge_line_def line_off_def ..
  have "alike (view m) (merge_line p j a w len (view m))" by (simp add: alike_def)
  then show ?thesis
    using merge_line_ok [OF ok(1) vj ex _ d acc ok(2), of w] k(4) v by (simp add: access_result_def)
qed

lemma wb_free_ok:
  assumes ok: "cache_ok {} (view m)" and free: "wb_scan (proc_of m p) t [0..<XR_WB_DEPTH] None = WbFree k"
  shows "k < XR_WB_DEPTH" "wb (view m) p k = XR_CACHE_INDEX_INVALID"
    and "valid (view m) p j \<Longrightarrow> tg (view m) p j = t \<Longrightarrow> di (view m) p j = XR_WB_INDEX_INVALID"
proof -
  note c = wb_scan_cases [where proc = "proc_of m p" and tag = t and js = "[0..<XR_WB_DEPTH]" and free = None]
  show "k < XR_WB_DEPTH" "wb (view m) p k = XR_CACHE_INDEX_INVALID" using c free by (auto simp del: upt_rec_numeral)
  assume v: "valid (view m) p j" "tg (view m) p j = t"
  then have j: "pres (view m) p" "j < 2048" by (simp_all add: valid_def)
  show "di (view m) p j = XR_WB_INDEX_INVALID"
  proof (rule ccontr)
    assume d: "di (view m) p j \<noteq> XR_WB_INDEX_INVALID"
    have "WbIndices (proc_of m p) l = XR_CACHE_INDEX_INVALID \<or> DcTags (proc_of m p) (WbIndices (proc_of m p) l) \<noteq> t"
      if "l < 4" for l using that free c by (auto simp del: upt_rec_numeral)
    moreover have "di (view m) p j < 4" "wb (view m) p (di (view m) p j) = j" using cache_okD(14,15) [OF ok j d] by auto
    ultimately show False using j(2) v(2) by fastforce
  qed
qed

text \<open>One pass through the access, when the write buffer has room.\<close>

lemma access_pass:
  assumes ok: "cache_ok {} (view m)" "data_ok M (view m)" and p: "XrProcessorPresent m p"
    and a: "ram_line (view m) (line_tag a)" "access_ok a len"
    and room: "writing \<Longrightarrow> wb_scan (proc_of m p) (line_tag a) [0..<XR_WB_DEPTH] None \<noteq> WbFull"
  shows "\<exists>r. XrDcacheAccess ports p a writing w len sc m = Some r \<and> access_result writing sc a w len M (view m) r"
proof -
  let ?t = "line_tag a" let ?c = "set_number a * 2"
  define scan where "scan = (if writing then wb_scan (proc_of m p) ?t [0..<XR_WB_DEPTH] None else WbFree 0)"
  show ?thesis
  proof (cases scan)
    case (WbHit j)
    then have h: "writing" "wb_scan (proc_of m p) ?t [0..<XR_WB_DEPTH] None = WbHit j"
      by (auto simp: scan_def split: if_splits)
    have "XrDcacheAccess ports p a writing w len sc m = Some (1, None, dc_merge p (j * 16 + unat (a AND 15)) w len m)"
      using WbHit unfolding scan_def by (subst XrDcacheAccess.simps) (simp add: Let_def)
    then show ?thesis using wb_hit_ok [OF ok p a(2) h(2)] h(1) by simp
  next
    case WbFull
    then show ?thesis using room by (auto simp: scan_def split: if_splits)
  next
    case (WbFree k)
    note fr = wb_free_ok [OF ok(1), of p ?t k]
    have k: "k < XR_WB_DEPTH" "wb (view m) p k = XR_CACHE_INDEX_INVALID"
        "valid (view m) p j \<Longrightarrow> tg (view m) p j = ?t \<Longrightarrow> di (view m) p j = XR_WB_INDEX_INVALID" if "writing" for j
      using WbFree that fr by (simp_all add: scan_def del: view_sel upt_rec_numeral)
    define m1 where "m1 = (if writing \<and> WbCycles (proc_of m p) = 0 then upd_proc p (\<lambda>proc. proc\<lparr>WbCycles := 3\<rparr>) m else m)"
    have v1: "view m1 = view m" by (simp add: m1_def)
    let ?P = "\<lambda>i. DcFlags (proc_of m1 p) (?c + i) \<noteq> 0 \<and> DcTags (proc_of m1 p) (?c + i) = ?t"
    have same: "DcFlags (proc_of m1 p) = fl (view m) p" "DcTags (proc_of m1 p) = tg (view m) p" "Dc (proc_of m1 p) = dat (view m) p"
      by (simp_all add: m1_def)
    have ok1: "cache_ok {} (view m1)" "data_ok M (view m1)" "XrProcessorPresent m1 p" "ram_line (view m1) ?t"
      using ok p a v1 by (simp_all add: m1_def)
    have body: "XrDcacheAccess ports p a writing w len sc m =
        (case List.find ?P [0, 1] of
           Some n \<Rightarrow>
             if \<not> writing then Some (1, Some (CopyWithLengthZext (Dc (proc_of m1 p)) ((?c + n) * 16 + unat (a AND 15)) len), m1)
             else if DcFlags (proc_of m1 p) (?c + n) = XR_LINE_EXCLUSIVE then
               Some (1, None, dc_merge p ((?c + n) * 16 + unat (a AND 15)) w len (dc_own p k (?c + n) m1))
             else if DcFlags (proc_of m1 p) (?c + n) = XR_LINE_INVALID then XrDcacheAccess ports p a writing w len sc m1
             else Some (dc_upgrade ports p ?t (?c + n) k (unat (a AND 15)) w len m1)
         | None \<Rightarrow> if sc then Some (2, None, m1) else Some (dc_miss ports p a writing k w len m1))"
      by (subst XrDcacheAccess.simps) (simp only: Let_def scan_def [symmetric] WbFree WbScan.case m1_def [symmetric])
    have c: "?c + 1 < 2048" using set_number_less [of a] by simp
    show ?thesis
    proof (cases "List.find ?P [0, 1]")
      case None
      have miss: "tg (view m1) p j \<noteq> ?t" if "valid (view m1) p j" for j
        using line_ways [OF ok1(1) that] None that by (auto simp: set_number_line valid_def split: if_splits)
      show ?thesis
      proof (cases sc)
        case True
        then have "XrDcacheAccess ports p a writing w len sc m = Some (2, None, m1)"
          using None unfolding body by simp
        then show ?thesis using True ok1 v1 by (simp add: access_result_def)
      next
        case False
        obtain st dest m' where r: "dc_miss ports p a writing k w len m1 = (st, dest, m')" by (metis prod.collapse)
        have "XrDcacheAccess ports p a writing w len sc m = Some (st, dest, m')"
          using None False r unfolding body by simp
        then show ?thesis
          using miss_ok [OF ok1 a(2) miss _ r] k v1 by (auto simp: access_result_def)
      qed
    next
      case (Some n)
      then have n: "?P n" "n = 0 \<or> n = 1" by (auto split: if_splits)
      define i where "i = ?c + n"
      have i: "valid (view m1) p i" "tg (view m1) p i = ?t" using n c ok1(3) by (auto simp: i_def valid_def)
      have "fl (view m1) p i = 1 \<or> fl (view m1) p i = 2"
        using cache_okD(3) [OF ok1(1) i(1)] i(1) by (auto simp: valid_def)
      then show ?thesis
      proof (cases "writing \<and> fl (view m1) p i = 1")
        case True
        obtain st dest m' where r: "dc_upgrade ports p ?t i k (unat (a AND 15)) w len m1 = (st, dest, m')" by (metis prod.collapse)
        have "XrDcacheAccess ports p a writing w len sc m = Some (st, dest, m')"
          using Some True r unfolding body i_def by (simp del: find.simps)
        then show ?thesis
          using upgrade_ok [OF ok1(1,2) i _ _ _ a(2) r] True k v1 by (simp add: access_result_def)
      next
        case False
        show ?thesis
        proof (cases writing)
          case True
          then have f: "fl (view m1) p i = 2" using False \<open>fl (view m1) p i = 1 \<or> fl (view m1) p i = 2\<close> by simp
          have "XrDcacheAccess ports p a writing w len sc m =
              Some (1, None, dc_merge p (i * 16 + unat (a AND 15)) w len (dc_own p k i m1))"
            using Some True f unfolding body i_def by (simp del: find.simps)
          then show ?thesis
            using own_merge [OF ok1(1,2) i(1) f _ _ _ i(2) a(2)] k [OF True] i True v1
            by (simp add: access_result_def)
        next
          case False
          then have "XrDcacheAccess ports p a writing w len sc m =
              Some (1, Some (CopyWithLengthZext (dat (view m1) p) (i * 16 + unat (a AND 15)) len), m1)"
            using Some unfolding body i_def by (simp del: find.simps)
          then show ?thesis using read_value [OF i ok1(2) a(2)] False ok1 v1 by (simp add: access_result_def)
        qed
    qed
  qed
qed
qed

lemma scan_room:
  "(\<forall>k < XR_WB_DEPTH. WbIndices proc k = XR_CACHE_INDEX_INVALID) \<Longrightarrow> wb_scan proc t [0..<XR_WB_DEPTH] None \<noteq> WbFull"
proof
  assume e: "\<forall>k < XR_WB_DEPTH. WbIndices proc k = XR_CACHE_INDEX_INVALID"
    and f: "wb_scan proc t [0..<XR_WB_DEPTH] None = WbFull"
  have "\<forall>k\<in>{0..<XR_WB_DEPTH}. WbIndices proc k \<noteq> XR_CACHE_INDEX_INVALID"
    using wb_scan_cases [where proc = proc and tag = t and js = "[0..<XR_WB_DEPTH]" and free = None] f
    by (simp del: upt_rec_numeral)
  then have "WbIndices proc 0 \<noteq> XR_CACHE_INDEX_INVALID" by (rule bspec) simp
  then show False using e by simp
qed

lemma access_flat:
  assumes ok: "cache_ok {} (view m)" "data_ok M (view m)" and p: "XrProcessorPresent m p"
    and a: "ram_line (view m) (line_tag a)" "access_ok a len"
  shows "\<exists>r. XrDcacheAccess ports p a writing w len sc m = Some r \<and> access_result writing sc a w len M (view m) r"
proof (cases "writing \<and> wb_scan (proc_of m p) (line_tag a) [0..<XR_WB_DEPTH] None = WbFull")
  case True
  let ?m = "XrFlushWriteBuffer ports p m"
  have f: "cache_ok {} (view ?m)" "data_ok M (view ?m)" "lowers 0 (view m) (view ?m)"
      "\<forall>k < XR_WB_DEPTH. wb (view ?m) p k = XR_CACHE_INDEX_INVALID"
    using flush_ok [OF ok p, of ports 0] by simp_all
  have "XrDcacheAccess ports p a writing w len sc m = XrDcacheAccess ports p a writing w len sc ?m"
    using True by (subst XrDcacheAccess.simps) (simp add: Let_def)
  moreover have "XrProcessorPresent ?m p" "ram_line (view ?m) (line_tag a)" "alike (view m) (view ?m)"
    using f(3) p a(1) keeps_alike [OF lowers_keeps [OF f(3)]] by (simp_all add: lowers_def)
  moreover have "wb_scan (proc_of ?m p) (line_tag a) [0..<XR_WB_DEPTH] None \<noteq> WbFull"
    using scan_room f(4) by simp
  ultimately show ?thesis
    using access_pass [OF f(1,2) _ _ a(2), of p writing ports w sc] alike_trans
    unfolding access_result_def by fastforce
next
  case False
  then show ?thesis using access_pass [OF ok p a] by blast
qed

text \<open>
  Claim C3. An aligned cached access to RAM always returns, whatever the caches and write buffers of all
  processors hold: the two jumps back to the start of the routine are taken at most once, nothing aborts,
  a read delivers the contents of the flat memory the caches stand for, a write changes exactly
  its bytes of that memory, and only a conditional store can fail, which leaves the memory alone. The
  coherence invariant holds again afterwards.
\<close>

theorem dcache_access_flat:
  assumes "cache_ok {} (view m)" "data_ok M (view m)" "XrProcessorPresent m p"
    and "ram_line (view m) (line_tag a)" "access_ok a len"
  shows "\<exists>st dest m'. XrDcacheAccess ports p a writing w len sc m = Some (st, dest, m') \<and>
    cache_ok {} (view m') \<and> Crashed m' = Crashed m \<and> (st = 1 \<or> st = 2 \<and> sc \<and> data_ok M (view m')) \<and>
    (st = 1 \<longrightarrow> (if writing then data_ok (store a w len M) (view m')
                 else data_ok M (view m') \<and> dest = Some (load a len M)))"
  using access_flat [OF assms, of ports writing w sc]
  unfolding access_result_def by (auto simp: alike_def split: if_splits)

section \<open>Sequences of accesses\<close>

datatype MemOp = Load (op_proc: nat) (op_addr: u32) (op_len: nat)
  | Store (op_proc: nat) (op_addr: u32) (op_val: u32) (op_len: nat)

fun run_ops :: "CitronTable \<Rightarrow> MemOp list \<Rightarrow> Machine \<Rightarrow> (u32 list \<times> Machine) option" where
  "run_ops ports [] m = Some ([], m)"
| "run_ops ports (Load p a len # ops) m =
    (case XrDcacheAccess ports p a False 0 len False m of
       Some (st, Some x, m') \<Rightarrow>
         if st = 1 then map_option (\<lambda>(xs, m''). (x # xs, m'')) (run_ops ports ops m') else None
     | _ \<Rightarrow> None)"
| "run_ops ports (Store p a w len # ops) m =
    (case XrDcacheAccess ports p a True w len False m of
       Some (st, _, m') \<Rightarrow> if st = 1 then run_ops ports ops m' else None
     | _ \<Rightarrow> None)"

fun flat_ops :: "MemOp list \<Rightarrow> (u32 \<Rightarrow> u8) \<Rightarrow> u32 list \<times> (u32 \<Rightarrow> u8)" where
  "flat_ops [] M = ([], M)"
| "flat_ops (Load p a len # ops) M = (let (xs, M') = flat_ops ops M in (load a len M # xs, M'))"
| "flat_ops (Store p a w len # ops) M = flat_ops ops (store a w len M)"

definition op_ok :: "CacheView \<Rightarrow> MemOp \<Rightarrow> bool" where
  "op_ok v op \<longleftrightarrow> pres v (op_proc op) \<and> ram_line v (line_tag (op_addr op)) \<and> access_ok (op_addr op) (op_len op)"

lemma op_ok_alike: "alike v v' \<Longrightarrow> op_ok v' op = op_ok v op"
  by (simp add: op_ok_def alike_def)

lemma run_ops_flat:
  assumes "cache_ok {} (view m)" "data_ok M (view m)" "\<forall>op\<in>set ops. op_ok (view m) op"
  shows "\<exists>m'. run_ops ports ops m = Some (fst (flat_ops ops M), m') \<and> cache_ok {} (view m') \<and>
    data_ok (snd (flat_ops ops M)) (view m') \<and> alike (view m) (view m')"
  using assms
proof (induction ops arbitrary: m M)
  case Nil
  then show ?case by simp
next
  case (Cons op ops)
  have ok: "op_ok (view m) op" using Cons.prems(3) by simp
  have rest: "\<forall>op\<in>set ops. op_ok (view m') op" if "alike (view m) (view m')" for m'
    using Cons.prems(3) op_ok_alike [OF that] by simp
  show ?case
  proof (cases op)
    case (Load p a len)
    have a: "XrProcessorPresent m p" "ram_line (view m) (line_tag a)" "access_ok a len" using ok Load by (simp_all add: op_ok_def)
    obtain m' where e: "XrDcacheAccess ports p a False 0 len False m = Some (1, Some (load a len M), m')"
        "cache_ok {} (view m')" "data_ok M (view m')" "alike (view m) (view m')"
      using access_flat [OF Cons.prems(1,2) a, of ports False 0 False] by (auto simp: access_result_def split: if_splits)
    obtain m'' where "run_ops ports ops m' = Some (fst (flat_ops ops M), m'')" "cache_ok {} (view m'')"
        "data_ok (snd (flat_ops ops M)) (view m'')" "alike (view m') (view m'')"
      using Cons.IH [OF e(2,3) rest [OF e(4)]] by blast
    then show ?thesis using Load e(1) alike_trans [OF e(4)] by (simp add: case_prod_unfold Let_def)
  next
    case (Store p a w len)
    have a: "XrProcessorPresent m p" "ram_line (view m) (line_tag a)" "access_ok a len" using ok Store by (simp_all add: op_ok_def)
    obtain dest m' where e: "XrDcacheAccess ports p a True w len False m = Some (1, dest, m')"
        "cache_ok {} (view m')" "data_ok (store a w len M) (view m')" "alike (view m) (view m')"
      using access_flat [OF Cons.prems(1,2) a, of ports True w False] by (auto simp: access_result_def split: if_splits)
    obtain m'' where "run_ops ports ops m' = Some (fst (flat_ops ops (store a w len M)), m'')" "cache_ok {} (view m'')"
        "data_ok (snd (flat_ops ops (store a w len M))) (view m'')" "alike (view m') (view m'')"
      using Cons.IH [OF e(2,3) rest [OF e(4)]] by blast
    then show ?thesis using Store e(1) alike_trans [OF e(4)] by simp
  qed
qed

text \<open>Empty caches stand for the contents of RAM.\<close>

definition caches_empty :: "Machine \<Rightarrow> bool" where
  "caches_empty m \<longleftrightarrow>
     (\<forall>p. XrProcessorPresent m p \<longrightarrow> p < XR_PROC_MAX \<and> ProcId (proc_of m p) = p \<and>
        DcFlags (proc_of m p) = (\<lambda>_. XR_LINE_INVALID) \<and>
        (\<forall>k < XR_WB_DEPTH. WbIndices (proc_of m p) k = XR_CACHE_INDEX_INVALID) \<and>
        (\<forall>i < XR_DC_LINE_COUNT. DcIndexToWbIndex (proc_of m p) i = XR_WB_INDEX_INVALID)) \<and>
     XrScacheFlags m = (\<lambda>_. XR_LINE_INVALID) \<and> ram_inv (RamBoards m)"

lemma caches_empty_ok:
  assumes "caches_empty m"
  shows "cache_ok {} (view m)" and "data_ok (ram_byte (RamBoards m)) (view m)"
proof -
  have nv: "\<not> valid (view m) p i" for p i using assms by (auto simp: caches_empty_def valid_def)
  show "cache_ok {} (view m)" by (rule cache_okI) (use assms in \<open>auto simp: nv caches_empty_def\<close>)
  show "data_ok (ram_byte (RamBoards m)) (view m)" by (simp add: data_ok_def nv)
qed

text \<open>
  Claim C1. Sequential consistency of the caches: any sequence of aligned loads and stores of RAM by any of the
  processors, through their write-back caches and write buffers, returns the values that one flat
  memory returns, and leaves caches that stand for the final contents of that memory.
\<close>

theorem caches_flat_memory:
  assumes "cache_ok {} (view m)" "data_ok M (view m)" "\<forall>op\<in>set ops. op_ok (view m) op"
  shows "\<exists>m'. run_ops ports ops m = Some (fst (flat_ops ops M), m') \<and> cache_ok {} (view m') \<and>
    data_ok (snd (flat_ops ops M)) (view m') \<and> Crashed m' = Crashed m"
  using run_ops_flat [OF assms, of ports] by (auto simp: alike_def)

text \<open>Two processors of a machine that has just been reset share a line.\<close>

definition cache_sample :: Machine where
  "cache_sample = machine_zero\<lparr>XrProcessorTable := (\<lambda>i. XrReset (proc_zero\<lparr>ProcId := i\<rparr>))\<rparr>"

lemma cache_sample_empty: "caches_empty cache_sample"
  by (simp add: caches_empty_def cache_sample_def machine_zero_def XrReset_def proc_zero_def ram_inv_def ram_sized_def)

lemma cache_sample_ops: "op_ok (view cache_sample) op"
  if "op_proc op < 2" "op_addr op \<in> {0x100, 0x104}" "op_len op = 4" for op
  using that by (auto simp: op_ok_def cache_sample_def machine_zero_def access_ok_def ram_line_def line_tag_def
    ram_window_def ram_acc_def ram_off_def ram_slot_def)

lemma caches_flat_memory_witness:
  "\<exists>m'. run_ops dma_ports [Store 0 0x100 7 4, Load 1 0x100 4, Store 1 0x104 9 4, Load 0 0x104 4] cache_sample =
     Some ([7, 9], m')"
proof -
  let ?ops = "[Store 0 0x100 7 4, Load 1 0x100 4, Store 1 0x104 9 4, Load 0 0x104 4]"
  have "\<forall>op\<in>set ?ops. op_ok (view cache_sample) op" using cache_sample_ops by simp
  moreover have "fst (flat_ops ?ops M) = [7, 9]" for M
    by (simp add: load_def store_def byte_of_def upt_rec)
  ultimately show ?thesis
    using caches_flat_memory [OF caches_empty_ok [OF cache_sample_empty], of ?ops dma_ports] by auto
qed

definition flush_all :: "CitronTable \<Rightarrow> nat list \<Rightarrow> Machine \<Rightarrow> Machine" where
  "flush_all ports ps m = fold (\<lambda>p m. if XrProcessorPresent m p then XrFlushWriteBuffer ports p m else m) ps m"

lemma flush_all_ok:
  assumes "cache_ok {} (view m)" "data_ok M (view m)"
  shows "cache_ok {} (view (flush_all ports ps m)) \<and> data_ok M (view (flush_all ports ps m)) \<and>
    lowers t (view m) (view (flush_all ports ps m)) \<and>
    (\<forall>p\<in>set ps. \<forall>k < XR_WB_DEPTH. pres (view m) p \<longrightarrow> wb (view (flush_all ports ps m)) p k = XR_CACHE_INDEX_INVALID)"
  using assms
proof (induction ps rule: rev_induct)
  case Nil
  then show ?case using lowers_refl by (simp add: flush_all_def)
next
  case (snoc p ps)
  define m1 where "m1 = flush_all ports ps m"
  have IH: "cache_ok {} (view m1)" "data_ok M (view m1)" "lowers t (view m) (view m1)"
      "\<And>q k. q \<in> set ps \<Longrightarrow> k < 4 \<Longrightarrow> pres (view m) q \<Longrightarrow> wb (view m1) q k = XR_CACHE_INDEX_INVALID"
    using snoc by (simp_all add: m1_def)
  have e: "flush_all ports (ps @ [p]) m = (if XrProcessorPresent m1 p then XrFlushWriteBuffer ports p m1 else m1)"
    by (simp add: flush_all_def m1_def)
  show ?case
  proof (cases "XrProcessorPresent m1 p")
    case True
    let ?m = "XrFlushWriteBuffer ports p m1"
    have f: "cache_ok {} (view ?m)" "data_ok M (view ?m)" "lowers t (view m1) (view ?m)"
        "\<And>k. k < 4 \<Longrightarrow> wb (view ?m) p k = XR_CACHE_INDEX_INVALID"
      using flush_ok [OF IH(1,2) True, of ports t] by simp_all
    have "wb (view ?m) q k = XR_CACHE_INDEX_INVALID" if "wb (view m1) q k = XR_CACHE_INDEX_INVALID" for q k
      using f(3) that unfolding lowers_def by metis
    then show ?thesis using True e f IH(4) lowers_trans [OF IH(3) f(3)] by auto
  next
    case False
    then have "\<not> pres (view m) p" using IH(3) by (simp add: lowers_def)
    then show ?thesis using False e IH by auto
  qed
qed

text \<open>
  Claim C14. When every processor has flushed its write buffer, RAM itself holds the contents the
  caches stand for: a device that reads memory over the bus then sees every store. The caches stay valid.
\<close>

theorem flush_publishes_stores:
  assumes "cache_ok {} (view m)" "data_ok M (view m)" "ram_line (view m) (line_tag x)"
  shows "ram_byte (RamBoards (flush_all ports [0..<XR_PROC_MAX] m)) x = M x \<and>
    cache_ok {} (view (flush_all ports [0..<XR_PROC_MAX] m))"
proof -
  let ?m = "flush_all ports [0..<XR_PROC_MAX] m"
  have f: "cache_ok {} (view ?m)" "data_ok M (view ?m)" "lowers 0 (view m) (view ?m)"
      "\<And>p k. p < 16 \<Longrightarrow> k < 4 \<Longrightarrow> pres (view m) p \<Longrightarrow> wb (view ?m) p k = XR_CACHE_INDEX_INVALID"
    using flush_all_ok [OF assms(1,2), of ports "[0..<XR_PROC_MAX]" 0] by (auto simp del: upt_rec_numeral)
  have "\<not> dirty (view ?m) (line_tag x)"
    unfolding dirty_def using f(3,4) cache_okD(1) [OF f(1)] by (auto simp: lowers_def)
  moreover have "ram_line (view ?m) (line_tag x)" using assms(3) f(3) by (simp add: lowers_def)
  ultimately show ?thesis using f(1,2) by (simp add: data_ok_def)
qed

text \<open>The store of a processor reaches RAM.\<close>

lemma flush_publishes_stores_witness:
  "\<exists>m'. run_ops dma_ports [Store 0 0x100 7 4] cache_sample = Some ([], m') \<and>
     ram_byte (RamBoards (flush_all dma_ports [0..<XR_PROC_MAX] m')) 0x100 = 7"
proof -
  let ?ops = "[Store 0 0x100 7 4]" let ?M = "ram_byte (RamBoards cache_sample)"
  have "\<forall>op\<in>set ?ops. op_ok (view cache_sample) op" using cache_sample_ops by simp
  then obtain m' where m': "run_ops dma_ports ?ops cache_sample = Some ([], m')" "cache_ok {} (view m')"
      "data_ok (store 0x100 7 4 ?M) (view m')" "alike (view cache_sample) (view m')"
    using run_ops_flat [OF caches_empty_ok [OF cache_sample_empty], of ?ops dma_ports] by auto
  have "op_ok (view cache_sample) (Load 0 0x100 4)" by (rule cache_sample_ops) simp_all
  then have "ram_line (view m') (line_tag 0x100)" using m'(4) by (simp add: op_ok_def alike_def)
  from flush_publishes_stores [OF m'(2,3) this, of dma_ports] m'(1)
  show ?thesis by (simp add: store_def byte_of_def del: upt_rec_numeral)
qed

lemma dcache_access_flat_witness:
  "\<exists>m'. XrDcacheAccess dma_ports 1 0x104 False 0 4 False cache_sample = Some (1, Some 0, m')"
proof -
  have "op_ok (view cache_sample) (Load 1 0x104 4)" by (rule cache_sample_ops) simp_all
  then have a: "XrProcessorPresent cache_sample 1" "ram_line (view cache_sample) (line_tag 0x104)" "access_ok 0x104 4"
    by (simp_all add: op_ok_def)
  have "load 0x104 4 (ram_byte (RamBoards cache_sample)) = 0"
    by (simp add: load_def cache_sample_def machine_zero_def ram_byte_def upt_rec)
  then show ?thesis
    using dcache_access_flat [OF caches_empty_ok [OF cache_sample_empty] a, of dma_ports False 0 False]
    by (auto split: if_splits)
qed

end
