(* ===== verification/Iblock.thy ===== *)
theory Iblock
  imports XrProc
begin

text \<open>
  The cache of decoded basic blocks, \<^verbatim>\<open>src/src/xr17032fast.c\<close> lines 220-501: blocks live in a
  hash table by program counter, on one list in order of creation, and on a list per virtual
  page; blocks link to each other by cached pointers, which are tracked by back
  pointers so that they can be cleared when the target goes. Pointers are indices,
  lists are lists of indices (the intrusive lists are treated in theory \<open>Queue\<close>), and the free lists
  threaded through the records are lists too. \<^term>\<open>None\<close> is the dereference of a null pointer.
\<close>

abbreviation (input) "XR_IBLOCK_COUNT \<equiv> 2048 :: nat"
abbreviation (input) "XR_IBLOCK_RECLAIM \<equiv> 32 :: nat"
abbreviation (input) "XR_IBLOCK_CACHEDBY_MAX \<equiv> 4 :: nat"
abbreviation (input) "XR_CACHED_PATH_MAX \<equiv> 2 :: nat"
abbreviation (input) "XR_TRUE_PATH \<equiv> 0 :: nat"
abbreviation (input) "XR_FALSE_PATH \<equiv> 1 :: nat"
abbreviation (input) "XR_IBLOCK_INSTS \<equiv> 32 :: nat"
abbreviation (input) "XR_JALR_PREDICTION_TABLE_ENTRIES \<equiv> 8 :: nat"

definition XR_IBLOCK_HASH :: "u32 \<Rightarrow> nat" where
  "XR_IBLOCK_HASH pc = unat (drop_bit 2 pc AND 255)"

definition XR_VPN_BUCKET_INDEX :: "u32 \<Rightarrow> nat" where
  "XR_VPN_BUCKET_INDEX pc = unat (drop_bit 12 pc AND 31)"

definition upd_iblock :: "nat \<Rightarrow> (XrIblock \<Rightarrow> XrIblock) \<Rightarrow> XrIblockCache \<Rightarrow> XrIblockCache" where
  "upd_iblock b f c = c\<lparr>Iblocks := (Iblocks c)(b := f (Iblocks c b))\<rparr>"

definition upd_ptable :: "nat \<Rightarrow> (XrJalrPredictionTable \<Rightarrow> XrJalrPredictionTable) \<Rightarrow> XrIblockCache \<Rightarrow> XrIblockCache" where
  "upd_ptable t f c = c\<lparr>Ptables := (Ptables c)(t := f (Ptables c t))\<rparr>"

definition upd_vpage :: "nat \<Rightarrow> (XrVirtualPage \<Rightarrow> XrVirtualPage) \<Rightarrow> XrIblockCache \<Rightarrow> XrIblockCache" where
  "upd_vpage v f c = c\<lparr>Vpages := (Vpages c)(v := f (Vpages c v))\<rparr>"

section \<open>Cached pointers\<close>

text \<open>
  What a cached pointer holds, when it is the pointer to a block: slot 0 of a block with a prediction
  table holds the pointer to the table instead.
\<close>

fun path_deref :: "XrIblockCache \<Rightarrow> XrPathRef \<Rightarrow> nat option" where
  "path_deref c (BlockPath b k) = (if HasPtable (Iblocks c b) \<and> k = 0 then None else CachedPaths (Iblocks c b) k)"
| "path_deref c (PtablePath t k) = PtIblocks (Ptables c t) k"

fun path_assign :: "XrPathRef \<Rightarrow> nat option \<Rightarrow> XrIblockCache \<Rightarrow> XrIblockCache" where
  "path_assign (BlockPath b k) x c = upd_iblock b (\<lambda>ib. ib\<lparr>CachedPaths := (CachedPaths ib)(k := x)\<rparr>) c"
| "path_assign (PtablePath t k) x c = upd_ptable t (\<lambda>pt. pt\<lparr>PtIblocks := (PtIblocks pt)(k := x)\<rparr>) c"

text \<open>Clears the pointer in a back pointer slot of block \<open>b\<close> if it still points to \<open>b\<close>.\<close>

definition clear_cached_by :: "nat \<Rightarrow> nat \<Rightarrow> XrIblockCache \<Rightarrow> XrIblockCache" where
  "clear_cached_by b i c =
    (case CachedBy (Iblocks c b) i of
       Some r \<Rightarrow> if path_deref c r = Some b then path_assign r None c else c
     | None \<Rightarrow> c)"

definition XrInvalidateIblockPointers :: "nat \<Rightarrow> XrIblockCache \<Rightarrow> XrIblockCache" where
  "XrInvalidateIblockPointers b c = fold (clear_cached_by b) [0..<XR_IBLOCK_CACHEDBY_MAX] c"

definition XrCreateCachedPointerToBlock :: "nat \<Rightarrow> XrPathRef \<Rightarrow> XrIblockCache \<Rightarrow> XrIblockCache" where
  "XrCreateCachedPointerToBlock b ptr c =
    (let index = unat (CachedByFifoIndex (Iblocks c b) AND 3);
         c = upd_iblock b (\<lambda>ib. ib\<lparr>CachedByFifoIndex := CachedByFifoIndex ib + 1\<rparr>) c;
         c = clear_cached_by b index c;
         c = path_assign ptr (Some b) c
     in upd_iblock b (\<lambda>ib. ib\<lparr>CachedBy := (CachedBy ib)(index := Some ptr)\<rparr>) c)"

section \<open>Prediction tables and virtual pages\<close>

definition XrAllocatePtable :: "XrIblockCache \<Rightarrow> (nat \<times> XrIblockCache) option" where
  "XrAllocatePtable c =
    (case PtableFreeList c of
       [] \<Rightarrow> None
     | t # ts \<Rightarrow> Some (t, upd_ptable t (\<lambda>pt. pt\<lparr>PtIblocks := (\<lambda>i. if i < XR_JALR_PREDICTION_TABLE_ENTRIES then None else PtIblocks pt i)\<rparr>)
                     (c\<lparr>PtableFreeList := ts\<rparr>)))"

text \<open>The free list runs through slot 0, which then does not point to a block.\<close>

definition XrFreePtable :: "nat \<Rightarrow> XrIblockCache \<Rightarrow> XrIblockCache" where
  "XrFreePtable t c =
    (upd_ptable t (\<lambda>pt. pt\<lparr>PtIblocks := (PtIblocks pt)(0 := None)\<rparr>) c)\<lparr>PtableFreeList := t # PtableFreeList c\<rparr>"

definition XrAllocateVpage :: "XrIblockCache \<Rightarrow> (nat \<times> XrIblockCache) option" where
  "XrAllocateVpage c =
    (case VpageFreeList c of [] \<Rightarrow> None | v # vs \<Rightarrow> Some (v, c\<lparr>VpageFreeList := vs\<rparr>))"

definition XrFreeVpage :: "nat \<Rightarrow> XrIblockCache \<Rightarrow> XrIblockCache" where
  "XrFreeVpage v c = c\<lparr>VpageFreeList := v # VpageFreeList c\<rparr>"

section \<open>Freeing blocks\<close>

text \<open>The page loses a block, and is freed with its last one.\<close>

definition vpage_release :: "nat \<Rightarrow> nat \<Rightarrow> XrIblockCache \<Rightarrow> XrIblockCache" where
  "vpage_release b v c =
    (let c = upd_vpage v (\<lambda>vp. vp\<lparr>IblockVpnList := remove1 b (IblockVpnList vp), References := References vp - 1\<rparr>) c
     in if References (Vpages c v) = 0 then
          let h = XR_VPN_BUCKET_INDEX (VpVpn (Vpages c v))
          in XrFreeVpage v (c\<lparr>VpageHashBuckets := (VpageHashBuckets c)(h := remove1 v (VpageHashBuckets c h))\<rparr>)
        else c)"

definition XrFreeIblock :: "nat \<Rightarrow> XrIblockCache \<Rightarrow> XrIblockCache" where
  "XrFreeIblock b c =
    (let ib = Iblocks c b; h = XR_IBLOCK_HASH (IbPc ib);
         c = c\<lparr>IblockLruList := remove1 b (IblockLruList c),
               IblockHashBuckets := (IblockHashBuckets c)(h := remove1 b (IblockHashBuckets c h))\<rparr>;
         c = vpage_release b (IbVpage ib) c;
         c = (if HasPtable ib then case CachedPaths ib 0 of Some t \<Rightarrow> XrFreePtable t c | None \<Rightarrow> c else c)
     in c\<lparr>IblockFreeList := b # IblockFreeList c\<rparr>)"

text \<open>The oldest blocks are reclaimed, but for the one the caller is executing (\<open>hazard\<close>).\<close>

definition XrPopulateIblockList :: "nat option \<Rightarrow> XrIblockCache \<Rightarrow> XrIblockCache" where
  "XrPopulateIblockList hazard c =
    fold (\<lambda>b c. if hazard \<noteq> Some b then XrFreeIblock b (XrInvalidateIblockPointers b c) else c)
      (take XR_IBLOCK_RECLAIM (rev (IblockLruList c))) c"

definition XrInvalidateIblockCache :: "XrIblockCache \<Rightarrow> XrIblockCache" where
  "XrInvalidateIblockCache c = fold XrFreeIblock (IblockLruList c) c"

definition XrInvalidateVpage :: "nat \<Rightarrow> XrIblockCache \<Rightarrow> XrIblockCache" where
  "XrInvalidateVpage v c =
    fold (\<lambda>b c. XrFreeIblock b (XrInvalidateIblockPointers b c)) (IblockVpnList (Vpages c v)) c"

definition XrInvalidateIblockCacheByVpn :: "u32 \<Rightarrow> XrIblockCache \<Rightarrow> XrIblockCache" where
  "XrInvalidateIblockCacheByVpn vpn c =
    (case List.find (\<lambda>v. VpVpn (Vpages c v) = vpn) (VpageHashBuckets c (XR_VPN_BUCKET_INDEX vpn)) of
       Some v \<Rightarrow> XrInvalidateVpage v c
     | None \<Rightarrow> c)"

section \<open>New blocks\<close>

definition XrInsertIblockInVpage :: "nat \<Rightarrow> u32 \<Rightarrow> XrIblockCache \<Rightarrow> XrIblockCache option" where
  "XrInsertIblockInVpage b pc c =
    (let vpn = pc AND NOT 0xFFF; h = XR_VPN_BUCKET_INDEX vpn
     in case List.find (\<lambda>v. VpVpn (Vpages c v) = vpn) (VpageHashBuckets c h) of
          Some v \<Rightarrow>
            Some (upd_iblock b (\<lambda>ib. ib\<lparr>IbVpage := v\<rparr>)
              (upd_vpage v (\<lambda>vp. vp\<lparr>References := References vp + 1, IblockVpnList := b # IblockVpnList vp\<rparr>) c))
        | None \<Rightarrow>
            (case XrAllocateVpage c of
               None \<Rightarrow> None
             | Some (v, c) \<Rightarrow>
                 Some (upd_iblock b (\<lambda>ib. ib\<lparr>IbVpage := v\<rparr>)
                   (upd_vpage v (\<lambda>vp. vp\<lparr>VpVpn := vpn, References := 1, IblockVpnList := b # IblockVpnList vp\<rparr>)
                     (c\<lparr>VpageHashBuckets := (VpageHashBuckets c)(h := v # VpageHashBuckets c h)\<rparr>)))))"

definition XrAllocateIblock :: "nat option \<Rightarrow> XrIblockCache \<Rightarrow> (nat \<times> XrIblockCache) option" where
  "XrAllocateIblock hazard c =
    (let c = (if IblockFreeList c = [] then XrPopulateIblockList hazard c else c)
     in case IblockFreeList c of [] \<Rightarrow> None | b # bs \<Rightarrow> Some (b, c\<lparr>IblockFreeList := bs\<rparr>))"

definition XrLookupIblock :: "u32 \<Rightarrow> u32 \<Rightarrow> XrIblockCache \<Rightarrow> nat option" where
  "XrLookupIblock pc asid c =
    List.find (\<lambda>b. IbPc (Iblocks c b) = pc \<and> IbAsid (Iblocks c b) = asid) (IblockHashBuckets c (XR_IBLOCK_HASH pc))"

text \<open>The part of \<open>XrDecodeInstructions\<close> that takes a block and files it, before anything is decoded into it.\<close>

definition iblock_new :: "nat option \<Rightarrow> u32 \<Rightarrow> u32 \<Rightarrow> u32 \<Rightarrow> XrIblockCache \<Rightarrow> (nat \<times> XrIblockCache) option" where
  "iblock_new hazard pc asid flags c =
    (case XrAllocateIblock hazard c of
       None \<Rightarrow> None
     | Some (b, c) \<Rightarrow>
         let c = upd_iblock b (\<lambda>ib. ib\<lparr>IbPc := pc, IbAsid := asid, IbCycles := 0, CachedByFifoIndex := 0,
                   PteFlags := flags, HasPtable := False,
                   CachedPaths := (\<lambda>i. if i < XR_CACHED_PATH_MAX then None else CachedPaths ib i),
                   CachedBy := (\<lambda>i. if i < XR_IBLOCK_CACHEDBY_MAX then None else CachedBy ib i)\<rparr>) c;
             h = XR_IBLOCK_HASH pc;
             c = c\<lparr>IblockHashBuckets := (IblockHashBuckets c)(h := b # IblockHashBuckets c h),
                   IblockLruList := b # IblockLruList c\<rparr>
         in map_option (Pair b) (XrInsertIblockInVpage b pc c))"

text \<open>What \<open>XrInitializeProcessor\<close> makes of the cache: everything is free.\<close>

definition iblock_cache_init :: "XrIblockCache \<Rightarrow> XrIblockCache" where
  "iblock_cache_init c = c\<lparr>IblockFreeList := rev [0..<XR_IBLOCK_COUNT], PtableFreeList := rev [0..<XR_IBLOCK_COUNT],
     VpageFreeList := rev [0..<XR_IBLOCK_COUNT], IblockLruList := [], IblockHashBuckets := (\<lambda>_. []),
     VpageHashBuckets := (\<lambda>_. []),
     Ptables := (\<lambda>t. (Ptables c t)\<lparr>PtIblocks := (PtIblocks (Ptables c t))(0 := None)\<rparr>),
     Vpages := (\<lambda>v. (Vpages c v)\<lparr>IblockVpnList := []\<rparr>)\<rparr>"

end
