(* ===== verification/IblockInv.thy ===== *)
theory IblockInv
  imports Iblock
begin

text \<open>
  The block cache is well formed and stays so: blocks, prediction tables and virtual pages are each
  partitioned into free ones and ones in use, every active block is found where its program counter and page
  say, and every cached pointer of an active block leads to an active block at the program
  counter the pointer stands for.
\<close>

section \<open>The invariant\<close>

abbreviation active :: "XrIblockCache \<Rightarrow> nat set" where
  "active c \<equiv> set (IblockLruList c)"

definition ptable_of :: "XrIblockCache \<Rightarrow> nat \<Rightarrow> nat option" where
  "ptable_of c b = (if HasPtable (Iblocks c b) then CachedPaths (Iblocks c b) 0 else None)"

definition blocks_ok :: "XrIblockCache \<Rightarrow> bool" where
  "blocks_ok c \<longleftrightarrow> distinct (IblockLruList c) \<and> distinct (IblockFreeList c) \<and>
     active c \<inter> set (IblockFreeList c) = {} \<and> active c \<union> set (IblockFreeList c) = {..<XR_IBLOCK_COUNT} \<and>
     (\<forall>h. distinct (IblockHashBuckets c h) \<and>
          set (IblockHashBuckets c h) = {b \<in> active c. XR_IBLOCK_HASH (IbPc (Iblocks c b)) = h})"

definition ptables_ok :: "XrIblockCache \<Rightarrow> bool" where
  "ptables_ok c \<longleftrightarrow> distinct (PtableFreeList c) \<and>
     (\<forall>b \<in> active c. HasPtable (Iblocks c b) \<longrightarrow> CachedPaths (Iblocks c b) 0 \<noteq> None) \<and>
     (\<forall>b \<in> active c. \<forall>t. ptable_of c b = Some t \<longrightarrow> t < XR_IBLOCK_COUNT \<and> (\<forall>b' \<in> active c. ptable_of c b' = Some t \<longrightarrow> b' = b)) \<and>
     (\<forall>t. t \<in> set (PtableFreeList c) \<longleftrightarrow> t < XR_IBLOCK_COUNT \<and> (\<forall>b \<in> active c. ptable_of c b \<noteq> Some t))"

text \<open>The pages in use are those of the active blocks.\<close>

definition pages :: "XrIblockCache \<Rightarrow> nat set" where
  "pages c = (\<lambda>b. IbVpage (Iblocks c b)) ` active c"

definition vpages_ok :: "XrIblockCache \<Rightarrow> bool" where
  "vpages_ok c \<longleftrightarrow> distinct (VpageFreeList c) \<and> set (VpageFreeList c) = {..<XR_IBLOCK_COUNT} - pages c \<and>
     pages c \<subseteq> {..<XR_IBLOCK_COUNT} \<and>
     (\<forall>b \<in> active c. VpVpn (Vpages c (IbVpage (Iblocks c b))) = IbPc (Iblocks c b) AND NOT 0xFFF) \<and>
     (\<forall>v. distinct (IblockVpnList (Vpages c v)) \<and> set (IblockVpnList (Vpages c v)) = {b \<in> active c. IbVpage (Iblocks c b) = v}) \<and>
     (\<forall>v \<in> pages c. unat (References (Vpages c v)) = length (IblockVpnList (Vpages c v))) \<and>
     (\<forall>h. distinct (VpageHashBuckets c h) \<and>
          set (VpageHashBuckets c h) = {v \<in> pages c. XR_VPN_BUCKET_INDEX (VpVpn (Vpages c v)) = h}) \<and>
     inj_on (\<lambda>v. VpVpn (Vpages c v)) (pages c)"

section \<open>Freeing a block\<close>

lemma upd_fields [simp]:
  "Iblocks (upd_vpage v g c) = Iblocks c" "Ptables (upd_vpage v g c) = Ptables c"
  "IblockFreeList (upd_vpage v g c) = IblockFreeList c" "PtableFreeList (upd_vpage v g c) = PtableFreeList c"
  "VpageFreeList (upd_vpage v g c) = VpageFreeList c" "IblockLruList (upd_vpage v g c) = IblockLruList c"
  "IblockHashBuckets (upd_vpage v g c) = IblockHashBuckets c" "VpageHashBuckets (upd_vpage v g c) = VpageHashBuckets c"
  "Vpages (upd_vpage v g c) = (Vpages c)(v := g (Vpages c v))"
  "Vpages (upd_ptable t f c) = Vpages c" "Iblocks (upd_ptable t f c) = Iblocks c"
  "IblockFreeList (upd_ptable t f c) = IblockFreeList c" "PtableFreeList (upd_ptable t f c) = PtableFreeList c"
  "VpageFreeList (upd_ptable t f c) = VpageFreeList c" "IblockLruList (upd_ptable t f c) = IblockLruList c"
  "IblockHashBuckets (upd_ptable t f c) = IblockHashBuckets c" "VpageHashBuckets (upd_ptable t f c) = VpageHashBuckets c"
  "Ptables (upd_ptable t f c) = (Ptables c)(t := f (Ptables c t))"
  "Vpages (upd_iblock b k c) = Vpages c" "Ptables (upd_iblock b k c) = Ptables c"
  "IblockFreeList (upd_iblock b k c) = IblockFreeList c" "PtableFreeList (upd_iblock b k c) = PtableFreeList c"
  "VpageFreeList (upd_iblock b k c) = VpageFreeList c" "IblockLruList (upd_iblock b k c) = IblockLruList c"
  "IblockHashBuckets (upd_iblock b k c) = IblockHashBuckets c" "VpageHashBuckets (upd_iblock b k c) = VpageHashBuckets c"
  "Iblocks (upd_iblock b k c) = (Iblocks c)(b := k (Iblocks c b))"
  by (simp_all add: upd_vpage_def upd_ptable_def upd_iblock_def)

lemma release_fields [simp]:
  "Iblocks (vpage_release b v c) = Iblocks c" "Ptables (vpage_release b v c) = Ptables c"
  "IblockFreeList (vpage_release b v c) = IblockFreeList c" "PtableFreeList (vpage_release b v c) = PtableFreeList c"
  "IblockLruList (vpage_release b v c) = IblockLruList c" "IblockHashBuckets (vpage_release b v c) = IblockHashBuckets c"
  by (simp_all add: vpage_release_def Let_def XrFreeVpage_def)

lemma release_vpages:
  "Vpages (vpage_release b v c) = (Vpages c)(v := (Vpages c v)\<lparr>IblockVpnList := remove1 b (IblockVpnList (Vpages c v)),
     References := References (Vpages c v) - 1\<rparr>)"
  "VpageFreeList (vpage_release b v c) =
     (if References (Vpages c v) = 1 then v # VpageFreeList c else VpageFreeList c)"
  "VpageHashBuckets (vpage_release b v c) =
     (if References (Vpages c v) = 1 then
        let h = XR_VPN_BUCKET_INDEX (VpVpn (Vpages c v)) in (VpageHashBuckets c)(h := remove1 v (VpageHashBuckets c h))
      else VpageHashBuckets c)"
  by (simp_all add: vpage_release_def Let_def XrFreeVpage_def)

lemma free_ptable_fields [simp]:
  "Iblocks (XrFreePtable t c) = Iblocks c" "Vpages (XrFreePtable t c) = Vpages c"
  "IblockFreeList (XrFreePtable t c) = IblockFreeList c" "VpageFreeList (XrFreePtable t c) = VpageFreeList c"
  "IblockLruList (XrFreePtable t c) = IblockLruList c" "IblockHashBuckets (XrFreePtable t c) = IblockHashBuckets c"
  "VpageHashBuckets (XrFreePtable t c) = VpageHashBuckets c" "PtableFreeList (XrFreePtable t c) = t # PtableFreeList c"
  "Ptables (XrFreePtable t c) = (Ptables c)(t := (Ptables c t)\<lparr>PtIblocks := (PtIblocks (Ptables c t))(0 := None)\<rparr>)"
  by (simp_all add: XrFreePtable_def)

lemma free_fields:
  "Iblocks (XrFreeIblock b c) = Iblocks c" "IblockLruList (XrFreeIblock b c) = remove1 b (IblockLruList c)"
  "IblockFreeList (XrFreeIblock b c) = b # IblockFreeList c"
  "IblockHashBuckets (XrFreeIblock b c) = (let h = XR_IBLOCK_HASH (IbPc (Iblocks c b))
     in (IblockHashBuckets c)(h := remove1 b (IblockHashBuckets c h)))"
  "PtableFreeList (XrFreeIblock b c) = (case ptable_of c b of Some t \<Rightarrow> t # PtableFreeList c | None \<Rightarrow> PtableFreeList c)"
  "Ptables (XrFreeIblock b c) = (case ptable_of c b of
     Some t \<Rightarrow> (Ptables c)(t := (Ptables c t)\<lparr>PtIblocks := (PtIblocks (Ptables c t))(0 := None)\<rparr>) | None \<Rightarrow> Ptables c)"
  "Vpages (XrFreeIblock b c) = Vpages (vpage_release b (IbVpage (Iblocks c b)) c)"
  "VpageFreeList (XrFreeIblock b c) = VpageFreeList (vpage_release b (IbVpage (Iblocks c b)) c)"
  "VpageHashBuckets (XrFreeIblock b c) = VpageHashBuckets (vpage_release b (IbVpage (Iblocks c b)) c)"
  by (auto simp: XrFreeIblock_def Let_def ptable_of_def release_vpages split: option.split)

lemma free_ptable_of [simp]: "ptable_of (XrFreeIblock b c) = ptable_of c"
  by (simp add: ptable_of_def free_fields fun_eq_iff)

lemma free_active: "blocks_ok c \<Longrightarrow> active (XrFreeIblock b c) = active c - {b}"
  by (simp add: free_fields blocks_ok_def)

lemma free_blocks_ok: "blocks_ok c \<Longrightarrow> b \<in> active c \<Longrightarrow> blocks_ok (XrFreeIblock b c)"
  unfolding blocks_ok_def by (auto simp: free_fields Let_def)

lemma ptables_okI:
  assumes "distinct (PtableFreeList c)"
    and "\<And>b. b \<in> active c \<Longrightarrow> HasPtable (Iblocks c b) \<Longrightarrow> CachedPaths (Iblocks c b) 0 \<noteq> None"
    and "\<And>b t. b \<in> active c \<Longrightarrow> ptable_of c b = Some t \<Longrightarrow> t < XR_IBLOCK_COUNT"
    and "\<And>b b' t. b \<in> active c \<Longrightarrow> b' \<in> active c \<Longrightarrow> ptable_of c b = Some t \<Longrightarrow> ptable_of c b' = Some t \<Longrightarrow> b' = b"
    and "\<And>t. t \<in> set (PtableFreeList c) \<longleftrightarrow> t < XR_IBLOCK_COUNT \<and> (\<forall>b \<in> active c. ptable_of c b \<noteq> Some t)"
  shows "ptables_ok c"
  using assms unfolding ptables_ok_def by blast

lemma ptables_okD:
  assumes "ptables_ok c"
  shows "distinct (PtableFreeList c)"
    and "b \<in> active c \<Longrightarrow> HasPtable (Iblocks c b) \<Longrightarrow> CachedPaths (Iblocks c b) 0 \<noteq> None"
    and "b \<in> active c \<Longrightarrow> ptable_of c b = Some t \<Longrightarrow> t < XR_IBLOCK_COUNT"
    and "b \<in> active c \<Longrightarrow> b' \<in> active c \<Longrightarrow> ptable_of c b = Some t \<Longrightarrow> ptable_of c b' = Some t \<Longrightarrow> b' = b"
    and "t \<in> set (PtableFreeList c) \<longleftrightarrow> t < XR_IBLOCK_COUNT \<and> (\<forall>b \<in> active c. ptable_of c b \<noteq> Some t)"
  using assms unfolding ptables_ok_def by blast+

lemma free_ptables_ok:
  assumes ok: "blocks_ok c" "ptables_ok c" and b: "b \<in> active c"
  shows "ptables_ok (XrFreeIblock b c)"
proof (rule ptables_okI)
  note a = free_active [OF ok(1), of b]
  show "distinct (PtableFreeList (XrFreeIblock b c))"
    using ptables_okD(1) [OF ok(2)] ptables_okD(5) [OF ok(2)] b by (auto simp: free_fields split: option.split)
  show "CachedPaths (Iblocks (XrFreeIblock b c) b') 0 \<noteq> None"
    if "b' \<in> active (XrFreeIblock b c)" "HasPtable (Iblocks (XrFreeIblock b c) b')" for b'
    using that ptables_okD(2) [OF ok(2)] unfolding a by (auto simp: free_fields)
  show "t < 2048" if "b' \<in> active (XrFreeIblock b c)" "ptable_of (XrFreeIblock b c) b' = Some t" for b' t
    using that ptables_okD(3) [OF ok(2)] unfolding a by auto
  show "b2 = b1" if "b1 \<in> active (XrFreeIblock b c)" "b2 \<in> active (XrFreeIblock b c)"
    "ptable_of (XrFreeIblock b c) b1 = Some t" "ptable_of (XrFreeIblock b c) b2 = Some t" for b1 b2 t
    using that ptables_okD(4) [OF ok(2)] unfolding a by auto
  show "t \<in> set (PtableFreeList (XrFreeIblock b c)) \<longleftrightarrow>
      t < 2048 \<and> (\<forall>b' \<in> active (XrFreeIblock b c). ptable_of (XrFreeIblock b c) b' \<noteq> Some t)" for t
  proof (cases "ptable_of c b = Some t")
    case True
    then show ?thesis
      using ptables_okD(3) [OF ok(2) b True] ptables_okD(4) [OF ok(2) b _ True] unfolding a by (auto simp: free_fields)
  next
    case False
    then have "t \<in> set (PtableFreeList (XrFreeIblock b c)) \<longleftrightarrow> t \<in> set (PtableFreeList c)"
      by (auto simp: free_fields split: option.split)
    then show ?thesis using False b unfolding a ptables_okD(5) [OF ok(2), of t] by auto
  qed
qed

lemma vpages_okI:
  assumes "distinct (VpageFreeList c)" "set (VpageFreeList c) = {..<XR_IBLOCK_COUNT} - pages c" "pages c \<subseteq> {..<XR_IBLOCK_COUNT}"
    and "\<And>b. b \<in> active c \<Longrightarrow> VpVpn (Vpages c (IbVpage (Iblocks c b))) = IbPc (Iblocks c b) AND NOT 0xFFF"
    and "\<And>v. distinct (IblockVpnList (Vpages c v)) \<and> set (IblockVpnList (Vpages c v)) = {b \<in> active c. IbVpage (Iblocks c b) = v}"
    and "\<And>v. v \<in> pages c \<Longrightarrow> unat (References (Vpages c v)) = length (IblockVpnList (Vpages c v))"
    and "\<And>h. distinct (VpageHashBuckets c h) \<and>
          set (VpageHashBuckets c h) = {v \<in> pages c. XR_VPN_BUCKET_INDEX (VpVpn (Vpages c v)) = h}"
    and "inj_on (\<lambda>v. VpVpn (Vpages c v)) (pages c)"
  shows "vpages_ok c"
  using assms unfolding vpages_ok_def by blast

lemma vpages_okD:
  assumes "vpages_ok c"
  shows "distinct (VpageFreeList c)" "set (VpageFreeList c) = {..<XR_IBLOCK_COUNT} - pages c" "pages c \<subseteq> {..<XR_IBLOCK_COUNT}"
    and "b \<in> active c \<Longrightarrow> VpVpn (Vpages c (IbVpage (Iblocks c b))) = IbPc (Iblocks c b) AND NOT 0xFFF"
    and "distinct (IblockVpnList (Vpages c v))" "set (IblockVpnList (Vpages c v)) = {b \<in> active c. IbVpage (Iblocks c b) = v}"
    and "v \<in> pages c \<Longrightarrow> unat (References (Vpages c v)) = length (IblockVpnList (Vpages c v))"
    and "distinct (VpageHashBuckets c h)" "set (VpageHashBuckets c h) = {v \<in> pages c. XR_VPN_BUCKET_INDEX (VpVpn (Vpages c v)) = h}"
    and "inj_on (\<lambda>v. VpVpn (Vpages c v)) (pages c)"
  using assms unfolding vpages_ok_def by blast+

lemma refs_pred: "0 < unat r \<Longrightarrow> unat (r - 1 :: u32) = unat r - 1"
  by (metis neq0_conv unat_0 unat_minus_one)

lemma free_vpages_ok:
  assumes ok: "blocks_ok c" "vpages_ok c" and b: "b \<in> active c"
  shows "vpages_ok (XrFreeIblock b c)"
proof -
  let ?c = "XrFreeIblock b c" let ?v = "IbVpage (Iblocks c b)" let ?R = "References (Vpages c ?v)"
  note a = free_active [OF ok(1), of b] note D = vpages_okD [OF ok(2)]
  have v: "?v \<in> pages c" using b by (simp add: pages_def)
  have ib: "Iblocks ?c = Iblocks c" by (simp add: free_fields)
  have bl: "b \<in> set (IblockVpnList (Vpages c ?v))" using D(6) [of ?v] b by simp
  have len: "unat ?R = length (IblockVpnList (Vpages c ?v))" "0 < unat ?R" using D(7) [OF v] bl by auto
  have lst: "IblockVpnList (Vpages ?c w) = (if w = ?v then remove1 b (IblockVpnList (Vpages c ?v)) else IblockVpnList (Vpages c w))" for w
    by (simp add: free_fields release_vpages)
  have vpn: "VpVpn (Vpages ?c w) = VpVpn (Vpages c w)" for w by (simp add: free_fields release_vpages)
  define B where "B = {b' \<in> active c. IbVpage (Iblocks c b') = ?v}"
  have bB: "b \<in> B" using b by (simp add: B_def)
  have one: "?R = 1 \<longleftrightarrow> B = {b}"
  proof -
    have "?R = 1 \<longleftrightarrow> unat ?R = 1" by (metis unat_1 word_unat_eq_iff)
    also have "\<dots> \<longleftrightarrow> card B = 1" using len(1) distinct_card [OF D(5) [of ?v]] D(6) [of ?v] by (simp add: B_def)
    also have "\<dots> \<longleftrightarrow> B = {b}" using bB by (auto simp: card_1_singleton_iff)
    finally show ?thesis .
  qed
  have pg: "pages ?c = (if ?R = 1 then pages c - {?v} else pages c)"
  proof (cases "B = {b}")
    case True
    then show ?thesis unfolding pages_def a ib one using b by (auto simp: B_def)
  next
    case False
    then obtain b' where b': "b' \<in> active c - {b}" "IbVpage (Iblocks c b') = ?v" using bB by (auto simp: B_def)
    have "(\<lambda>b. IbVpage (Iblocks c b)) ` active c = insert ?v ((\<lambda>b. IbVpage (Iblocks c b)) ` (active c - {b}))"
      using b by auto
    also have "\<dots> = (\<lambda>b. IbVpage (Iblocks c b)) ` (active c - {b})" using b' by (intro insert_absorb) (metis imageI)
    finally show ?thesis using False unfolding pages_def a ib one by simp
  qed
  have free: "VpageFreeList ?c = (if ?R = 1 then ?v # VpageFreeList c else VpageFreeList c)"
    by (simp add: free_fields release_vpages)
  have bk: "VpageHashBuckets ?c h = (if ?R = 1 then remove1 ?v (VpageHashBuckets c h) else VpageHashBuckets c h)" for h
  proof -
    have "?v \<notin> set (VpageHashBuckets c h)" if "h \<noteq> XR_VPN_BUCKET_INDEX (VpVpn (Vpages c ?v))"
      using D(9) [of h] that by simp
    then show ?thesis by (auto simp: free_fields release_vpages Let_def remove1_idem)
  qed
  show ?thesis
  proof (rule vpages_okI)
    show "distinct (VpageFreeList ?c)" using D(1,2) v by (simp add: free)
    show "set (VpageFreeList ?c) = {..<2048} - pages ?c" using D(2,3) v by (auto simp: free pg)
    show "pages ?c \<subseteq> {..<2048}" using D(3) by (auto simp: pg)
    show "VpVpn (Vpages ?c (IbVpage (Iblocks ?c b'))) = IbPc (Iblocks ?c b') AND NOT 0xFFF" if "b' \<in> active ?c" for b'
      using D(4) that unfolding a vpn ib by blast
    show "distinct (IblockVpnList (Vpages ?c w)) \<and> set (IblockVpnList (Vpages ?c w)) = {b' \<in> active ?c. IbVpage (Iblocks ?c b') = w}" for w
      using D(5,6) [of w] unfolding a ib lst by (cases "w = ?v") (auto simp: distinct_remove1)
    show "unat (References (Vpages ?c w)) = length (IblockVpnList (Vpages ?c w))" if "w \<in> pages ?c" for w
    proof (cases "w = ?v")
      case True
      then have "References (Vpages ?c w) = ?R - 1" by (simp add: free_fields release_vpages)
      then show ?thesis using True len bl refs_pred [OF len(2)] by (simp add: lst length_remove1)
    next
      case False
      then show ?thesis using that D(7) [of w] by (simp add: pg lst) (auto simp: free_fields release_vpages split: if_splits)
    qed
    show "distinct (VpageHashBuckets ?c h) \<and>
        set (VpageHashBuckets ?c h) = {v \<in> pages ?c. XR_VPN_BUCKET_INDEX (VpVpn (Vpages ?c v)) = h}" for h
      unfolding pg vpn bk using D(8,9) [of h] by auto
    show "inj_on (\<lambda>v. VpVpn (Vpages ?c v)) (pages ?c)"
      unfolding pg vpn using inj_on_subset [OF D(10)] by auto
  qed
qed

section \<open>Cached pointers\<close>

text \<open>
  What a block executes: its slots up to the first instruction that ends it. A shift that was split off
  an instruction has no program counter of its own.
\<close>

definition is_virtual :: "XrFunc \<Rightarrow> bool" where
  "is_virtual f \<longleftrightarrow> f \<in> FSys ` {ExecuteVirtualLsh, ExecuteVirtualRsh, ExecuteVirtualAsh, ExecuteVirtualRor}"

fun ends_block :: "XrFunc \<Rightarrow> bool" where
  "ends_block (FFlow f) = True"
| "ends_block (FSys f) = (f = ExecuteIllegalInstruction \<or> f = ExecuteRfe \<or> f = ExecuteHlt)"
| "ends_block f = False"

definition slot_pc :: "XrIblock \<Rightarrow> nat \<Rightarrow> u32" where
  "slot_pc ib k = IbPc ib + 4 * of_nat (length (filter (\<lambda>j. \<not> is_virtual (Func (Insts ib j))) [0..<k]))"

definition block_end :: "XrIblock \<Rightarrow> nat option" where
  "block_end ib = List.find (\<lambda>k. ends_block (Func (Insts ib k))) [0..<34]"

definition end_func :: "XrIblock \<Rightarrow> XrFunc option" where
  "end_func ib = map_option (\<lambda>e. Func (Insts ib e)) (block_end ib)"

text \<open>The program counter that path \<open>k\<close> of a block leads to; a register jump has a prediction table instead.\<close>

definition path_pc :: "XrIblock \<Rightarrow> nat \<Rightarrow> u32 option" where
  "path_pc ib k =
    (case block_end ib of
       None \<Rightarrow> None
     | Some e \<Rightarrow>
         if Func (Insts ib e) = FFlow ExecuteJalr then None
         else if k = XR_FALSE_PATH then Some (slot_pc ib e + 4)
         else if Func (Insts ib e) = FFlow SpecialLinkageInstruction then Some (slot_pc ib e)
         else Some (Imm32_1 (Insts ib e)))"

lemma path_pc_cong:
  assumes "Insts ib' = Insts ib" "IbPc ib' = IbPc ib"
  shows "slot_pc ib' k = slot_pc ib k" "block_end ib' = block_end ib" "path_pc ib' k = path_pc ib k" "end_func ib' = end_func ib"
proof -
  show s: "slot_pc ib' k = slot_pc ib k" for k using assms by (simp add: slot_pc_def)
  show e: "block_end ib' = block_end ib" using assms by (simp add: block_end_def)
  show "end_func ib' = end_func ib" unfolding end_func_def e assms(1) ..
  show "path_pc ib' k = path_pc ib k" unfolding path_pc_def e s assms(1) ..
qed

fun ref_pc :: "XrIblockCache \<Rightarrow> XrPathRef \<Rightarrow> u32 option" where
  "ref_pc c (BlockPath b k) = path_pc (Iblocks c b) k"
| "ref_pc c (PtablePath t k) = Some (PtPcs (Ptables c t) k)"

text \<open>The pointers that an active block can follow.\<close>

fun live :: "XrIblockCache \<Rightarrow> XrPathRef \<Rightarrow> bool" where
  "live c (BlockPath b k) \<longleftrightarrow> b \<in> active c \<and> k < XR_CACHED_PATH_MAX"
| "live c (PtablePath t k) \<longleftrightarrow> k < XR_JALR_PREDICTION_TABLE_ENTRIES \<and> (\<exists>b \<in> active c. ptable_of c b = Some t)"

definition tracked :: "XrIblockCache \<Rightarrow> nat \<Rightarrow> XrPathRef \<Rightarrow> bool" where
  "tracked c b r \<longleftrightarrow> (\<exists>i < XR_IBLOCK_CACHEDBY_MAX. CachedBy (Iblocks c b) i = Some r)"

definition paths_ok :: "XrIblockCache \<Rightarrow> bool" where
  "paths_ok c \<longleftrightarrow> (\<forall>r b. live c r \<longrightarrow> path_deref c r = Some b \<longrightarrow>
     b \<in> active c \<and> tracked c b r \<and> ref_pc c r = Some (IbPc (Iblocks c b)))"

text \<open>Only a block that ends in a register jump has a prediction table.\<close>

definition jalr_ok :: "XrIblockCache \<Rightarrow> bool" where
  "jalr_ok c \<longleftrightarrow> (\<forall>b \<in> active c. HasPtable (Iblocks c b) \<longrightarrow> end_func (Iblocks c b) = Some (FFlow ExecuteJalr))"

definition ibc_ok :: "XrIblockCache \<Rightarrow> bool" where
  "ibc_ok c \<longleftrightarrow> blocks_ok c \<and> ptables_ok c \<and> vpages_ok c \<and> paths_ok c \<and> jalr_ok c"

text \<open>Changes of cached pointers leave everything else alone.\<close>

definition same_shape :: "XrIblockCache \<Rightarrow> XrIblockCache \<Rightarrow> bool" where
  "same_shape c c' \<longleftrightarrow> IblockLruList c' = IblockLruList c \<and> IblockFreeList c' = IblockFreeList c \<and>
     IblockHashBuckets c' = IblockHashBuckets c \<and> PtableFreeList c' = PtableFreeList c \<and>
     VpageFreeList c' = VpageFreeList c \<and> VpageHashBuckets c' = VpageHashBuckets c \<and> Vpages c' = Vpages c \<and>
     (\<forall>b. IbVpage (Iblocks c' b) = IbVpage (Iblocks c b) \<and> IbPc (Iblocks c' b) = IbPc (Iblocks c b) \<and>
          IbAsid (Iblocks c' b) = IbAsid (Iblocks c b) \<and> IbCycles (Iblocks c' b) = IbCycles (Iblocks c b) \<and>
          PteFlags (Iblocks c' b) = PteFlags (Iblocks c b) \<and> HasPtable (Iblocks c' b) = HasPtable (Iblocks c b) \<and>
          Insts (Iblocks c' b) = Insts (Iblocks c b) \<and>
          (HasPtable (Iblocks c b) \<longrightarrow> CachedPaths (Iblocks c' b) 0 = CachedPaths (Iblocks c b) 0)) \<and>
     (\<forall>t. PtPcs (Ptables c' t) = PtPcs (Ptables c t))"

lemma same_shape_refl [simp]: "same_shape c c"
  by (simp add: same_shape_def)

lemma same_shape_trans: "same_shape a b \<Longrightarrow> same_shape b c \<Longrightarrow> same_shape a c"
  by (simp add: same_shape_def)

lemma same_shape_ptable_of: "same_shape c c' \<Longrightarrow> ptable_of c' = ptable_of c"
  by (simp add: same_shape_def ptable_of_def fun_eq_iff)

lemma same_shape_ok:
  assumes "same_shape c c'"
  shows "blocks_ok c' = blocks_ok c" "ptables_ok c' = ptables_ok c" "vpages_ok c' = vpages_ok c"
    and "live c' r = live c r" "ref_pc c' r = ref_pc c r" "pages c' = pages c" "active c' = active c"
    and "jalr_ok c' = jalr_ok c"
proof -
  note p = same_shape_ptable_of [OF assms] and s = assms [unfolded same_shape_def]
  show "blocks_ok c' = blocks_ok c" using s by (simp add: blocks_ok_def)
  show "ptables_ok c' = ptables_ok c" using s p unfolding ptables_ok_def by simp
  show pg: "pages c' = pages c" using s by (simp add: pages_def)
  then show "vpages_ok c' = vpages_ok c" using s by (simp add: vpages_ok_def)
  show "live c' r = live c r" using s p by (cases r) simp_all
  have "path_pc (Iblocks c' b) k = path_pc (Iblocks c b) k" for b k by (intro path_pc_cong(3)) (use s in simp_all)
  then show "ref_pc c' r = ref_pc c r" using s by (cases r) simp_all
  show "active c' = active c" using s by simp
  have "end_func (Iblocks c' b) = end_func (Iblocks c b)" for b by (intro path_pc_cong(4)) (use s in simp_all)
  then show "jalr_ok c' = jalr_ok c" using s by (simp add: jalr_ok_def)
qed

lemma same_shape_assign: "\<not> (\<exists>b. r = BlockPath b 0 \<and> HasPtable (Iblocks c b)) \<Longrightarrow> same_shape c (path_assign r x c)"
  by (cases r) (auto simp: same_shape_def)

lemma deref_not_ptable: "path_deref c r = Some b \<Longrightarrow> \<not> (\<exists>b. r = BlockPath b 0 \<and> HasPtable (Iblocks c b))"
  by auto

lemma assign_deref:
  assumes "\<not> (\<exists>b. r = BlockPath b 0 \<and> HasPtable (Iblocks c b))"
  shows "path_deref (path_assign r x c) r' = (if r' = r then x else path_deref c r')"
proof (cases r)
  case (BlockPath b k)
  then show ?thesis using assms by (cases r'; cases "k = 0") auto
next
  case (PtablePath t k)
  then show ?thesis by (cases r') auto
qed

lemma assign_cached_by [simp]: "CachedBy (Iblocks (path_assign r x c) b) = CachedBy (Iblocks c b)"
  by (cases r) auto

lemma clear_shape: "same_shape c (clear_cached_by b i c)"
  using same_shape_assign deref_not_ptable by (auto simp: clear_cached_by_def split: option.split)

lemma clear_deref:
  "path_deref (clear_cached_by b i c) r =
    (if CachedBy (Iblocks c b) i = Some r \<and> path_deref c r = Some b then None else path_deref c r)"
  by (auto simp: clear_cached_by_def assign_deref deref_not_ptable split: option.split)

lemma clear_cached_by_cb [simp]: "CachedBy (Iblocks (clear_cached_by b i c) b') = CachedBy (Iblocks c b')"
  by (simp add: clear_cached_by_def split: option.split)

lemma tracked_clear [simp]: "tracked (clear_cached_by b i c) b' r = tracked c b' r"
  by (simp add: tracked_def)

lemma same_shape_pc: "same_shape c c' \<Longrightarrow> IbPc (Iblocks c' b) = IbPc (Iblocks c b)"
  by (simp add: same_shape_def)

lemma paths_okD:
  "paths_ok c \<Longrightarrow> live c r \<Longrightarrow> path_deref c r = Some b \<Longrightarrow>
     b \<in> active c \<and> tracked c b r \<and> ref_pc c r = Some (IbPc (Iblocks c b))"
  by (simp add: paths_ok_def)

lemma paths_okI:
  "(\<And>r b. live c r \<Longrightarrow> path_deref c r = Some b \<Longrightarrow>
     b \<in> active c \<and> tracked c b r \<and> ref_pc c r = Some (IbPc (Iblocks c b))) \<Longrightarrow> paths_ok c"
  by (simp add: paths_ok_def)

lemma clear_paths_ok:
  assumes "paths_ok c"
  shows "paths_ok (clear_cached_by b i c)"
proof (rule paths_okI)
  fix r b'
  note s = clear_shape [of c b i]
  assume "live (clear_cached_by b i c) r" "path_deref (clear_cached_by b i c) r = Some b'"
  then have "live c r" "path_deref c r = Some b'" by (simp_all add: same_shape_ok(4) [OF s] clear_deref split: if_splits)
  from paths_okD [OF assms this] show "b' \<in> active (clear_cached_by b i c) \<and> tracked (clear_cached_by b i c) b' r \<and>
      ref_pc (clear_cached_by b i c) r = Some (IbPc (Iblocks (clear_cached_by b i c) b'))"
    by (simp add: same_shape_ok(5,7) [OF s] same_shape_pc [OF s])
qed

lemma invalidate_pointers:
  "same_shape c (XrInvalidateIblockPointers b c)"
  "paths_ok c \<Longrightarrow> paths_ok (XrInvalidateIblockPointers b c)"
  "path_deref (XrInvalidateIblockPointers b c) r =
    (if path_deref c r = Some b \<and> tracked c b r then None else path_deref c r)"
proof -
  have *: "same_shape c (fold (clear_cached_by b) [0..<n] c) \<and> (paths_ok c \<longrightarrow> paths_ok (fold (clear_cached_by b) [0..<n] c)) \<and>
      CachedBy (Iblocks (fold (clear_cached_by b) [0..<n] c) b) = CachedBy (Iblocks c b) \<and>
      (\<forall>r. path_deref (fold (clear_cached_by b) [0..<n] c) r =
        (if path_deref c r = Some b \<and> (\<exists>i<n. CachedBy (Iblocks c b) i = Some r) then None else path_deref c r))" for n
  proof (induction n)
    case (Suc n)
    then show ?case
      using clear_shape clear_paths_ok same_shape_trans by (auto simp: clear_deref less_Suc_eq)
  qed simp
  show "same_shape c (XrInvalidateIblockPointers b c)" "paths_ok c \<Longrightarrow> paths_ok (XrInvalidateIblockPointers b c)"
    "path_deref (XrInvalidateIblockPointers b c) r =
      (if path_deref c r = Some b \<and> tracked c b r then None else path_deref c r)"
    using * [of 4] by (simp_all add: XrInvalidateIblockPointers_def tracked_def del: upt_rec_numeral)
qed

section \<open>Removing blocks\<close>

lemma free_deref:
  "path_deref (XrFreeIblock b c) r = (case ptable_of c b of
     Some t \<Rightarrow> if r = PtablePath t 0 then None else path_deref c r | None \<Rightarrow> path_deref c r)"
  by (cases r) (auto simp: free_fields split: option.split)

lemma free_live:
  assumes "blocks_ok c" "ptables_ok c" "b \<in> active c"
  shows "live (XrFreeIblock b c) r \<Longrightarrow> live c r"
    and "live (XrFreeIblock b c) r \<Longrightarrow> path_deref (XrFreeIblock b c) r = path_deref c r"
proof -
  note a = free_active [OF assms(1), of b]
  show l: "live c r" if "live (XrFreeIblock b c) r" using that by (cases r) (auto simp: a)
  assume lv: "live (XrFreeIblock b c) r"
  have "r \<noteq> PtablePath t 0" if "ptable_of c b = Some t" for t
    using ptables_okD(4) [OF assms(2,3) _ that] lv by (auto simp: a)
  then show "path_deref (XrFreeIblock b c) r = path_deref c r" by (simp add: free_deref split: option.split)
qed

lemma free_ref_pc: "ref_pc (XrFreeIblock b c) r = ref_pc c r"
  by (cases r) (auto simp: free_fields split: option.split)

lemma free_paths_ok:
  assumes ok: "blocks_ok c" "ptables_ok c" "paths_ok c" and b: "b \<in> active c"
    and unref: "\<And>r. live c r \<Longrightarrow> path_deref c r \<noteq> Some b"
  shows "paths_ok (XrFreeIblock b c)"
proof (rule paths_okI)
  fix r b'
  assume lv: "live (XrFreeIblock b c) r" and d: "path_deref (XrFreeIblock b c) r = Some b'"
  note l = free_live [OF ok(1,2) b lv]
  have e: "path_deref c r = Some b'" using l(2) d by simp
  then have "b' \<noteq> b" using unref [OF l(1)] by auto
  with e paths_okD [OF ok(3) l(1)] show "b' \<in> active (XrFreeIblock b c) \<and> tracked (XrFreeIblock b c) b' r \<and>
      ref_pc (XrFreeIblock b c) r = Some (IbPc (Iblocks (XrFreeIblock b c) b'))"
    by (simp add: free_active [OF ok(1)] tracked_def free_ref_pc free_fields)
qed

lemma free_jalr_ok: "blocks_ok c \<Longrightarrow> jalr_ok c \<Longrightarrow> jalr_ok (XrFreeIblock b c)"
  by (simp add: jalr_ok_def free_active) (simp add: free_fields)

text \<open>A block goes: its pointers are cleared and it is freed.\<close>

abbreviation (input) drop_iblock :: "nat \<Rightarrow> XrIblockCache \<Rightarrow> XrIblockCache" where
  "drop_iblock b c \<equiv> XrFreeIblock b (XrInvalidateIblockPointers b c)"

text \<open>What dropping blocks keeps of the blocks that stay, and that nothing new appears.\<close>

definition shrinks :: "XrIblockCache \<Rightarrow> XrIblockCache \<Rightarrow> bool" where
  "shrinks c c' \<longleftrightarrow>
     (\<forall>b. IbVpage (Iblocks c' b) = IbVpage (Iblocks c b) \<and> IbPc (Iblocks c' b) = IbPc (Iblocks c b) \<and>
          IbAsid (Iblocks c' b) = IbAsid (Iblocks c b) \<and> IbCycles (Iblocks c' b) = IbCycles (Iblocks c b) \<and>
          PteFlags (Iblocks c' b) = PteFlags (Iblocks c b) \<and> HasPtable (Iblocks c' b) = HasPtable (Iblocks c b) \<and>
          Insts (Iblocks c' b) = Insts (Iblocks c b)) \<and> ptable_of c' = ptable_of c \<and>
     (\<forall>t. PtPcs (Ptables c' t) = PtPcs (Ptables c t)) \<and>
     (\<forall>b r. path_deref c' r = Some b \<longrightarrow> path_deref c r = Some b)"

lemma shrinks_refl [simp]: "shrinks c c"
  by (simp add: shrinks_def)

lemma shrinks_trans: "shrinks a b \<Longrightarrow> shrinks b c \<Longrightarrow> shrinks a c"
  by (simp add: shrinks_def)

lemma drop_ok:
  assumes ok: "ibc_ok c" and b: "b \<in> active c"
  shows "ibc_ok (drop_iblock b c)" "active (drop_iblock b c) = active c - {b}"
    "IblockLruList (drop_iblock b c) = remove1 b (IblockLruList c)" "shrinks c (drop_iblock b c)"
    "IblockFreeList (drop_iblock b c) = b # IblockFreeList c"
proof -
  let ?c = "XrInvalidateIblockPointers b c"
  note s = invalidate_pointers(1) [of c b]
  have o: "blocks_ok ?c" "ptables_ok ?c" "vpages_ok ?c" "paths_ok ?c" "b \<in> active ?c" "jalr_ok ?c"
    using ok b invalidate_pointers(2) same_shape_ok [OF s] by (simp_all add: ibc_ok_def)
  have "path_deref ?c r \<noteq> Some b" if "live ?c r" for r
  proof -
    have "path_deref c r \<noteq> Some b \<or> tracked c b r"
      using paths_okD [of c r b] that ok by (auto simp: ibc_ok_def same_shape_ok(4) [OF s])
    then show ?thesis by (auto simp: invalidate_pointers(3))
  qed
  then show "ibc_ok (drop_iblock b c)"
    using o free_blocks_ok free_ptables_ok free_vpages_ok free_paths_ok free_jalr_ok by (simp add: ibc_ok_def)
  show "active (drop_iblock b c) = active c - {b}" using free_active [OF o(1)] same_shape_ok(7) [OF s] by simp
  show "IblockLruList (drop_iblock b c) = remove1 b (IblockLruList c)" "IblockFreeList (drop_iblock b c) = b # IblockFreeList c"
    using s by (simp_all add: free_fields same_shape_def)
  have "path_deref c r = Some d" if "path_deref (drop_iblock b c) r = Some d" for d r
    using that by (auto simp: free_deref invalidate_pointers(3) split: option.splits if_splits)
  then show "shrinks c (drop_iblock b c)"
    using s same_shape_ptable_of [OF s] by (simp add: shrinks_def same_shape_def free_fields split: option.split)
qed

lemma drop_all_ok:
  assumes "ibc_ok c" "distinct bs" "set bs \<subseteq> active c"
  shows "ibc_ok (fold drop_iblock bs c) \<and> active (fold drop_iblock bs c) = active c - set bs \<and>
    shrinks c (fold drop_iblock bs c) \<and> IblockFreeList (fold drop_iblock bs c) = rev bs @ IblockFreeList c"
  using assms
proof (induction bs arbitrary: c)
  case (Cons b bs)
  have b: "b \<in> active c" using Cons.prems by simp
  note d = drop_ok [OF Cons.prems(1) b]
  have "set bs \<subseteq> active (drop_iblock b c)" using Cons.prems d(2) by auto
  then show ?case using Cons.IH [OF d(1)] Cons.prems(2) d shrinks_trans [OF d(4)] by auto
qed simp

text \<open>The reclaim frees all of the oldest blocks but the one that is in use.\<close>

lemma populate_fold:
  "XrPopulateIblockList hazard c =
    fold drop_iblock (filter (\<lambda>b. hazard \<noteq> Some b) (take XR_IBLOCK_RECLAIM (rev (IblockLruList c)))) c"
proof -
  have "fold (\<lambda>b c. if P b then f b c else c) bs c = fold f (filter P bs) c" for P f bs and c :: XrIblockCache
    by (induction bs arbitrary: c) auto
  then show ?thesis by (simp add: XrPopulateIblockList_def)
qed

lemma populate_ok:
  assumes ok: "ibc_ok c"
  shows "ibc_ok (XrPopulateIblockList hazard c) \<and> shrinks c (XrPopulateIblockList hazard c) \<and>
    active (XrPopulateIblockList hazard c) \<subseteq> active c \<and>
    (\<forall>b \<in> active c. hazard = Some b \<longrightarrow> b \<in> active (XrPopulateIblockList hazard c)) \<and>
    (IblockFreeList c = [] \<longrightarrow> IblockFreeList (XrPopulateIblockList hazard c) \<noteq> [])"
proof -
  let ?old = "take XR_IBLOCK_RECLAIM (rev (IblockLruList c))" let ?bs = "filter (\<lambda>b. hazard \<noteq> Some b) ?old"
  have b: "distinct (IblockLruList c)" "IblockFreeList c = [] \<Longrightarrow> active c = {..<2048}"
    using ok by (auto simp: ibc_ok_def blocks_ok_def)
  have "distinct ?old" "set ?old \<subseteq> active c" using b(1) set_take_subset [of 32 "rev (IblockLruList c)"] by simp_all
  then have d: "distinct ?bs" "set ?bs \<subseteq> active c" by auto
  have "?bs \<noteq> []" if "IblockFreeList c = []"
  proof
    assume e: "?bs = []"
    have "length (IblockLruList c) = 2048" using distinct_card [OF b(1)] b(2) [OF that] by simp
    then have "length ?old = 32" by simp
    moreover have "set ?old \<subseteq> set_option hazard" using e by (auto simp: filter_empty_conv)
    then have "card (set ?old) \<le> 1" by (cases hazard) (auto intro: card_mono [of "{_}", simplified])
    ultimately show False using distinct_card [OF \<open>distinct ?old\<close>] by simp
  qed
  then show ?thesis
    using drop_all_ok [OF ok d] unfolding populate_fold by auto
qed

section \<open>Invalidation\<close>

lemma free_all_ok:
  assumes "blocks_ok c" "ptables_ok c" "vpages_ok c" "distinct bs" "set bs \<subseteq> active c"
  shows "blocks_ok (fold XrFreeIblock bs c) \<and> ptables_ok (fold XrFreeIblock bs c) \<and> vpages_ok (fold XrFreeIblock bs c) \<and>
    active (fold XrFreeIblock bs c) = active c - set bs"
  using assms
proof (induction bs arbitrary: c)
  case (Cons b bs)
  have b: "b \<in> active c" using Cons.prems by simp
  have a: "active (XrFreeIblock b c) = active c - {b}" by (rule free_active [OF Cons.prems(1)])
  have "set bs \<subseteq> active (XrFreeIblock b c)" using Cons.prems a by auto
  then show ?case
    using Cons.IH [OF free_blocks_ok free_ptables_ok free_vpages_ok] Cons.prems b a by auto
qed simp

lemma invalidate_cache_ok:
  assumes "ibc_ok c"
  shows "ibc_ok (XrInvalidateIblockCache c)" "active (XrInvalidateIblockCache c) = {}"
proof -
  have "distinct (IblockLruList c)" using assms by (simp add: ibc_ok_def blocks_ok_def)
  then have f: "blocks_ok (XrInvalidateIblockCache c)" "ptables_ok (XrInvalidateIblockCache c)"
      "vpages_ok (XrInvalidateIblockCache c)" "active (XrInvalidateIblockCache c) = {}"
    using free_all_ok [of c "IblockLruList c"] assms by (simp_all add: ibc_ok_def XrInvalidateIblockCache_def)
  have "\<not> live (XrInvalidateIblockCache c) r" for r using f(4) by (cases r) auto
  then show "ibc_ok (XrInvalidateIblockCache c)" using f by (simp add: ibc_ok_def paths_ok_def jalr_ok_def)
  show "active (XrInvalidateIblockCache c) = {}" by (rule f(4))
qed

lemma find_page:
  assumes "vpages_ok c"
  shows "case List.find (\<lambda>v. VpVpn (Vpages c v) = vpn) (VpageHashBuckets c (XR_VPN_BUCKET_INDEX vpn)) of
    Some v \<Rightarrow> v \<in> pages c \<and> VpVpn (Vpages c v) = vpn
  | None \<Rightarrow> (\<forall>v \<in> pages c. VpVpn (Vpages c v) \<noteq> vpn)"
  using vpages_okD(9) [OF assms, of "XR_VPN_BUCKET_INDEX vpn"]
  by (auto split: option.split simp: find_Some_iff find_None_iff)

lemma page_blocks:
  assumes "vpages_ok c" "v \<in> pages c" "VpVpn (Vpages c v) = vpn"
  shows "set (IblockVpnList (Vpages c v)) = {b \<in> active c. IbPc (Iblocks c b) AND NOT 0xFFF = vpn}"
proof -
  have "IbVpage (Iblocks c b) = v \<longleftrightarrow> IbPc (Iblocks c b) AND NOT 0xFFF = vpn" if "b \<in> active c" for b
  proof
    show "IbPc (Iblocks c b) AND NOT 0xFFF = vpn" if "IbVpage (Iblocks c b) = v"
      using vpages_okD(4) [OF assms(1) \<open>b \<in> active c\<close>] that assms(3) by simp
    assume "IbPc (Iblocks c b) AND NOT 0xFFF = vpn"
    then have "VpVpn (Vpages c (IbVpage (Iblocks c b))) = VpVpn (Vpages c v)"
      using vpages_okD(4) [OF assms(1) that] assms(3) by simp
    moreover have "IbVpage (Iblocks c b) \<in> pages c" using that by (simp add: pages_def)
    ultimately show "IbVpage (Iblocks c b) = v" using inj_onD [OF vpages_okD(10) [OF assms(1)]] assms(2) by simp
  qed
  then show ?thesis using vpages_okD(6) [OF assms(1), of v] by auto
qed

lemma invalidate_vpn_ok:
  assumes "ibc_ok c"
  shows "ibc_ok (XrInvalidateIblockCacheByVpn vpn c)" "shrinks c (XrInvalidateIblockCacheByVpn vpn c)"
    "active (XrInvalidateIblockCacheByVpn vpn c) = {b \<in> active c. IbPc (Iblocks c b) AND NOT 0xFFF \<noteq> vpn}"
proof -
  have vp: "vpages_ok c" using assms by (simp add: ibc_ok_def)
  let ?f = "List.find (\<lambda>v. VpVpn (Vpages c v) = vpn) (VpageHashBuckets c (XR_VPN_BUCKET_INDEX vpn))"
  have "ibc_ok (XrInvalidateIblockCacheByVpn vpn c) \<and> shrinks c (XrInvalidateIblockCacheByVpn vpn c) \<and>
    active (XrInvalidateIblockCacheByVpn vpn c) = {b \<in> active c. IbPc (Iblocks c b) AND NOT 0xFFF \<noteq> vpn}"
  proof (cases ?f)
    case None
    then have "IbPc (Iblocks c b) AND NOT 0xFFF \<noteq> vpn" if "b \<in> active c" for b
      using find_page [OF vp, of vpn] vpages_okD(4) [OF vp that] that by (auto simp: pages_def)
    then show ?thesis using None assms by (auto simp: XrInvalidateIblockCacheByVpn_def)
  next
    case (Some v)
    then have v: "v \<in> pages c" "VpVpn (Vpages c v) = vpn" using find_page [OF vp, of vpn] by simp_all
    let ?l = "IblockVpnList (Vpages c v)"
    have l: "set ?l = {b \<in> active c. IbPc (Iblocks c b) AND NOT 0xFFF = vpn}" by (rule page_blocks [OF vp v])
    have "distinct ?l" "set ?l \<subseteq> active c" using vpages_okD(5) [OF vp] l by auto
    from drop_all_ok [OF assms this] show ?thesis
      using Some l by (auto simp: XrInvalidateIblockCacheByVpn_def XrInvalidateVpage_def)
  qed
  then show "ibc_ok (XrInvalidateIblockCacheByVpn vpn c)" "shrinks c (XrInvalidateIblockCacheByVpn vpn c)"
    "active (XrInvalidateIblockCacheByVpn vpn c) = {b \<in> active c. IbPc (Iblocks c b) AND NOT 0xFFF \<noteq> vpn}"
    by auto
qed

lemma init_ok: "ibc_ok (iblock_cache_init c)"
proof -
  have "\<not> live (iblock_cache_init c) r" for r by (cases r) (auto simp: iblock_cache_init_def)
  then show ?thesis
    by (auto simp: ibc_ok_def blocks_ok_def ptables_ok_def vpages_ok_def paths_ok_def jalr_ok_def pages_def iblock_cache_init_def)
qed

section \<open>Lookup\<close>

lemma lookup_cases:
  assumes "blocks_ok c"
  shows "case XrLookupIblock pc asid c of
    Some b \<Rightarrow> b \<in> active c \<and> IbPc (Iblocks c b) = pc \<and> IbAsid (Iblocks c b) = asid
  | None \<Rightarrow> (\<forall>b \<in> active c. \<not> (IbPc (Iblocks c b) = pc \<and> IbAsid (Iblocks c b) = asid))"
proof -
  have "set (IblockHashBuckets c (XR_IBLOCK_HASH pc)) = {b \<in> active c. XR_IBLOCK_HASH (IbPc (Iblocks c b)) = XR_IBLOCK_HASH pc}"
    using assms by (simp add: blocks_ok_def)
  then show ?thesis
    unfolding XrLookupIblock_def
    by (auto split: option.split simp: find_Some_iff find_None_iff)
qed

section \<open>New blocks and pointers\<close>

text \<open>The block is filed under its page: the page lists gain it, everything else stays.\<close>

lemma insert_page:
  assumes vp: "vpages_ok c" and bl: "blocks_ok c" and b: "b < XR_IBLOCK_COUNT" "b \<notin> active c"
    and c2: "Vpages c2 = Vpages c" "VpageFreeList c2 = VpageFreeList c" "VpageHashBuckets c2 = VpageHashBuckets c"
      "IblockLruList c2 = b # IblockLruList c" "\<And>b'. b' \<noteq> b \<Longrightarrow> Iblocks c2 b' = Iblocks c b'" "IbPc (Iblocks c2 b) = pc"
  shows "\<exists>v c3. XrInsertIblockInVpage b pc c2 = Some c3 \<and> vpages_ok c3 \<and> Ptables c3 = Ptables c2 \<and>
    PtableFreeList c3 = PtableFreeList c2 \<and> IblockLruList c3 = IblockLruList c2 \<and> IblockFreeList c3 = IblockFreeList c2 \<and>
    IblockHashBuckets c3 = IblockHashBuckets c2 \<and> Iblocks c3 = (Iblocks c2)(b := (Iblocks c2 b)\<lparr>IbVpage := v\<rparr>)"
proof -
  let ?vpn = "pc AND NOT 0xFFF"
  note D = vpages_okD [OF vp]
  have fin: "finite (active c)" "active c \<subset> {..<2048}"
    using bl b by (auto simp: blocks_ok_def)
  have len: "length (IblockVpnList (Vpages c v)) < 2048" for v
  proof -
    have "card (set (IblockVpnList (Vpages c v))) \<le> card (active c)" using D(6) [of v] fin(1) by (intro card_mono) auto
    also have "\<dots> < 2048" using psubset_card_mono [OF _ fin(2)] by simp
    finally show ?thesis using distinct_card [OF D(5) [of v]] by simp
  qed
  show ?thesis
  proof (cases "List.find (\<lambda>v. VpVpn (Vpages c v) = ?vpn) (VpageHashBuckets c (XR_VPN_BUCKET_INDEX ?vpn))")
    case (Some v)
    then have v: "v \<in> pages c" "VpVpn (Vpages c v) = ?vpn" using find_page [OF vp, of ?vpn] by simp_all
    define c3 where "c3 = upd_iblock b (\<lambda>ib. ib\<lparr>IbVpage := v\<rparr>)
      (upd_vpage v (\<lambda>vp. vp\<lparr>References := References vp + 1, IblockVpnList := b # IblockVpnList vp\<rparr>) c2)"
    have e: "XrInsertIblockInVpage b pc c2 = Some c3"
      using Some by (simp add: XrInsertIblockInVpage_def Let_def c2 c3_def)
    have ib: "Iblocks c3 b' = (if b' = b then (Iblocks c2 b)\<lparr>IbVpage := v\<rparr> else Iblocks c b')" for b'
      using c2(5) by (simp add: c3_def)
    have a: "active c3 = insert b (active c)" by (simp add: c3_def c2)
    have pg: "pages c3 = pages c" using v(1) b(2) unfolding pages_def a by (auto simp: ib)
    have vpn: "VpVpn (Vpages c3 w) = VpVpn (Vpages c w)" for w by (simp add: c3_def c2(1))
    have bk: "VpageHashBuckets c3 h = VpageHashBuckets c h" for h by (simp add: c3_def c2)
    have vp3: "vpages_ok c3"
    proof (rule vpages_okI)
      show "VpVpn (Vpages c3 (IbVpage (Iblocks c3 b'))) = IbPc (Iblocks c3 b') AND NOT 0xFFF" if "b' \<in> active c3" for b'
      proof (cases "b' = b")
        case True
        then show ?thesis using v(2) c2(6) by (simp add: c3_def c2(1))
      next
        case False
        then have "b' \<in> active c" using that by (simp add: a)
        from D(4) [OF this] show ?thesis using False c2(5) by (auto simp: c3_def c2(1))
      qed
      show "distinct (IblockVpnList (Vpages c3 w)) \<and> set (IblockVpnList (Vpages c3 w)) = {b' \<in> active c3. IbVpage (Iblocks c3 b') = w}" for w
      proof -
        have "{b' \<in> active c3. IbVpage (Iblocks c3 b') = w} =
            (if w = v then {b} else {}) \<union> {b' \<in> active c. IbVpage (Iblocks c b') = w}"
          using b(2) unfolding a by (auto simp: ib)
        moreover have "IblockVpnList (Vpages c3 w) = (if w = v then [b] else []) @ IblockVpnList (Vpages c w)"
          by (simp add: c3_def c2(1))
        ultimately show ?thesis using D(5,6) [of w] b(2) by auto
      qed
      show "unat (References (Vpages c3 w)) = length (IblockVpnList (Vpages c3 w))" if "w \<in> pages c3" for w
      proof (cases "w = v")
        case True
        have r: "unat (References (Vpages c v)) = length (IblockVpnList (Vpages c v))" by (rule D(7) [OF v(1)])
        then have "unat (References (Vpages c v) + 1) = Suc (unat (References (Vpages c v)))"
          using len [of v] r by (subst unat_add_lem [THEN iffD1]) simp_all
        then show ?thesis using True r by (simp add: c3_def c2(1))
      next
        case False
        have "w \<in> pages c" using that pg by simp
        then show ?thesis using False D(7) [of w] by (simp add: c3_def c2(1))
      qed
      show "distinct (VpageHashBuckets c3 h) \<and>
          set (VpageHashBuckets c3 h) = {v \<in> pages c3. XR_VPN_BUCKET_INDEX (VpVpn (Vpages c3 v)) = h}" for h
        using D(8,9) [of h] unfolding pg vpn bk by blast
      show "inj_on (\<lambda>v. VpVpn (Vpages c3 v)) (pages c3)" using D(10) unfolding pg vpn .
      have "VpageFreeList c3 = VpageFreeList c" by (simp add: c3_def c2)
      then show "distinct (VpageFreeList c3)" "set (VpageFreeList c3) = {..<2048} - pages c3" "pages c3 \<subseteq> {..<2048}"
        using D(1-3) unfolding pg by simp_all
    qed
    then show ?thesis using e by (intro exI [of _ v] exI [of _ c3]) (simp add: c3_def)
  next
    case None
    then have n: "\<And>v. v \<in> pages c \<Longrightarrow> VpVpn (Vpages c v) \<noteq> ?vpn" using find_page [OF vp, of ?vpn] by simp
    have "card (pages c) < 2048"
      using card_image_le [OF fin(1), of "\<lambda>b. IbVpage (Iblocks c b)"] psubset_card_mono [OF _ fin(2)] by (simp add: pages_def)
    then have "pages c \<noteq> {..<2048}" by (metis card_lessThan less_irrefl)
    then have "VpageFreeList c \<noteq> []" using D(2,3) by auto
    then obtain v vs where vs: "VpageFreeList c = v # vs" by (cases "VpageFreeList c") auto
    then have "v \<in> {..<2048} - pages c" using D(2) by (metis list.set_intros(1))
    then have v: "v \<notin> pages c" "v < 2048" by simp_all
    then have "set (IblockVpnList (Vpages c v)) = {}" using D(6) [of v] by (auto simp: pages_def)
    then have v: "v \<notin> pages c" "v < 2048" "IblockVpnList (Vpages c v) = []" using v by simp_all
    let ?h = "XR_VPN_BUCKET_INDEX ?vpn"
    define c3 where "c3 = upd_iblock b (\<lambda>ib. ib\<lparr>IbVpage := v\<rparr>)
      (upd_vpage v (\<lambda>vp. vp\<lparr>VpVpn := ?vpn, References := 1, IblockVpnList := b # IblockVpnList vp\<rparr>)
        (c2\<lparr>VpageFreeList := vs, VpageHashBuckets := (VpageHashBuckets c2)(?h := v # VpageHashBuckets c2 ?h)\<rparr>))"
    have e: "XrInsertIblockInVpage b pc c2 = Some c3"
      using None vs by (simp add: XrInsertIblockInVpage_def Let_def c2 c3_def XrAllocateVpage_def)
    have ib: "Iblocks c3 b' = (if b' = b then (Iblocks c2 b)\<lparr>IbVpage := v\<rparr> else Iblocks c b')" for b'
      using c2(5) by (simp add: c3_def)
    have a: "active c3 = insert b (active c)" by (simp add: c3_def c2)
    have pg: "pages c3 = insert v (pages c)" using b(2) unfolding pages_def a by (auto simp: ib)
    have old: "Vpages c3 w = Vpages c w" if "w \<noteq> v" for w using that by (simp add: c3_def c2)
    have oldp: "Vpages c3 w = Vpages c w" if "w \<in> pages c" for w using that v(1) old by metis
    have new: "VpVpn (Vpages c3 v) = ?vpn" "References (Vpages c3 v) = 1" "IblockVpnList (Vpages c3 v) = [b]"
      using v(3) by (simp_all add: c3_def c2)
    have vp3: "vpages_ok c3"
    proof (rule vpages_okI)
      show "distinct (VpageFreeList c3)" "set (VpageFreeList c3) = {..<2048} - pages c3" "pages c3 \<subseteq> {..<2048}"
        using D(1-3) vs v(2) unfolding pg by (auto simp: c3_def)
      show "VpVpn (Vpages c3 (IbVpage (Iblocks c3 b'))) = IbPc (Iblocks c3 b') AND NOT 0xFFF" if "b' \<in> active c3" for b'
      proof (cases "b' = b")
        case True
        then show ?thesis using new(1) c2(6) by (simp add: ib)
      next
        case False
        then have "b' \<in> active c" using that by (simp add: a)
        moreover from this have "IbVpage (Iblocks c b') \<noteq> v" using v(1) by (auto simp: pages_def)
        ultimately show ?thesis using False D(4) [of b'] by (simp add: ib old)
      qed
      show "distinct (IblockVpnList (Vpages c3 w)) \<and> set (IblockVpnList (Vpages c3 w)) = {b' \<in> active c3. IbVpage (Iblocks c3 b') = w}" for w
      proof (cases "w = v")
        case True
        then show ?thesis using new(3) v(1) unfolding a by (auto simp: ib pages_def)
      next
        case False
        then show ?thesis using D(5,6) [of w] b(2) unfolding a by (auto simp: ib old)
      qed
      show "unat (References (Vpages c3 w)) = length (IblockVpnList (Vpages c3 w))" if "w \<in> pages c3" for w
        using that D(7) [of w] new v(1) by (cases "w = v") (auto simp: pg old)
      show "distinct (VpageHashBuckets c3 h) \<and>
          set (VpageHashBuckets c3 h) = {v \<in> pages c3. XR_VPN_BUCKET_INDEX (VpVpn (Vpages c3 v)) = h}" for h
      proof -
        have "{v' \<in> pages c3. XR_VPN_BUCKET_INDEX (VpVpn (Vpages c3 v')) = h} =
            (if h = ?h then {v} else {}) \<union> {v' \<in> pages c. XR_VPN_BUCKET_INDEX (VpVpn (Vpages c v')) = h}"
          using new(1) unfolding pg by (auto simp: oldp)
        moreover have "VpageHashBuckets c3 h = (if h = ?h then [v] else []) @ VpageHashBuckets c h" by (simp add: c3_def c2)
        ultimately show ?thesis using D(8,9) [of h] v(1) by auto
      qed
      show "inj_on (\<lambda>v. VpVpn (Vpages c3 v)) (pages c3)"
      proof -
        have "inj_on (\<lambda>w. VpVpn (Vpages c3 w)) (pages c)" using D(10) by (simp add: inj_on_def oldp)
        moreover have "?vpn \<notin> (\<lambda>w. VpVpn (Vpages c3 w)) ` pages c" using n by (force simp: oldp)
        ultimately show ?thesis using new(1) unfolding pg by (auto simp: inj_on_insert)
      qed
    qed
    then show ?thesis using e by (intro exI [of _ v] exI [of _ c3]) (simp add: c3_def)
  qed
qed

lemma iblock_new_ok:
  assumes ok: "ibc_ok c"
  shows "\<exists>b c' c1. iblock_new hazard pc asid flags c = Some (b, c') \<and> ibc_ok c' \<and>
    shrinks c c1 \<and> active c1 \<subseteq> active c \<and> (\<forall>h \<in> active c. hazard = Some h \<longrightarrow> h \<in> active c1) \<and>
    b \<notin> active c1 \<and> active c' = insert b (active c1) \<and> (\<forall>b'. b' \<noteq> b \<longrightarrow> Iblocks c' b' = Iblocks c1 b') \<and> Ptables c' = Ptables c1 \<and>
    IbPc (Iblocks c' b) = pc \<and> IbAsid (Iblocks c' b) = asid \<and> IbCycles (Iblocks c' b) = 0 \<and> PteFlags (Iblocks c' b) = flags \<and>
    \<not> HasPtable (Iblocks c' b) \<and> (\<forall>k < XR_CACHED_PATH_MAX. CachedPaths (Iblocks c' b) k = None)"
proof -
  define c1 where "c1 = (if IblockFreeList c = [] then XrPopulateIblockList hazard c else c)"
  have c1: "ibc_ok c1" "shrinks c c1" "active c1 \<subseteq> active c" "\<forall>h \<in> active c. hazard = Some h \<longrightarrow> h \<in> active c1"
      "IblockFreeList c1 \<noteq> []"
    using populate_ok [OF ok, of hazard] ok by (auto simp: c1_def)
  then obtain b bs where bs: "IblockFreeList c1 = b # bs" by (cases "IblockFreeList c1") auto
  have o: "blocks_ok c1" "ptables_ok c1" "vpages_ok c1" "paths_ok c1" "jalr_ok c1" using c1(1) by (simp_all add: ibc_ok_def)
  have b: "b < 2048" "b \<notin> active c1" "b \<notin> set bs" "active c1 \<inter> set bs = {}" "distinct bs"
      "insert b (active c1) \<union> set bs = {..<2048}" "distinct (IblockLruList c1)"
    using o(1) bs by (auto simp: blocks_ok_def)
  let ?h = "XR_IBLOCK_HASH pc"
  define c2 where "c2 = (let c = upd_iblock b (\<lambda>ib. ib\<lparr>IbPc := pc, IbAsid := asid, IbCycles := 0, CachedByFifoIndex := 0,
         PteFlags := flags, HasPtable := False,
         CachedPaths := (\<lambda>i. if i < XR_CACHED_PATH_MAX then None else CachedPaths ib i),
         CachedBy := (\<lambda>i. if i < XR_IBLOCK_CACHEDBY_MAX then None else CachedBy ib i)\<rparr>) (c1\<lparr>IblockFreeList := bs\<rparr>)
       in c\<lparr>IblockHashBuckets := (IblockHashBuckets c)(?h := b # IblockHashBuckets c ?h), IblockLruList := b # IblockLruList c\<rparr>)"
  obtain v c3 where c3: "XrInsertIblockInVpage b pc c2 = Some c3" "vpages_ok c3" "Ptables c3 = Ptables c2"
      "PtableFreeList c3 = PtableFreeList c2" "IblockLruList c3 = IblockLruList c2" "IblockFreeList c3 = IblockFreeList c2"
      "IblockHashBuckets c3 = IblockHashBuckets c2" "Iblocks c3 = (Iblocks c2)(b := (Iblocks c2 b)\<lparr>IbVpage := v\<rparr>)"
    using insert_page [OF o(3,1) b(1,2), of c2 pc] by (auto simp: c2_def Let_def)
  have e: "iblock_new hazard pc asid flags c = Some (b, c3)"
    using bs c3(1) by (simp add: iblock_new_def XrAllocateIblock_def c1_def [symmetric] c2_def Let_def)
  have other: "Iblocks c3 b' = Iblocks c1 b'" if "b' \<noteq> b" for b' using that by (simp add: c3 c2_def Let_def)
  have a: "active c3 = insert b (active c1)" by (simp add: c3 c2_def Let_def)
  have new: "IbPc (Iblocks c3 b) = pc" "IbAsid (Iblocks c3 b) = asid" "IbCycles (Iblocks c3 b) = 0" "PteFlags (Iblocks c3 b) = flags"
      "\<not> HasPtable (Iblocks c3 b)" "\<forall>k<2. CachedPaths (Iblocks c3 b) k = None"
    by (simp_all add: c3 c2_def Let_def)
  have pt: "ptable_of c3 b' = (if b' = b then None else ptable_of c1 b')" for b'
    using new(5) other by (simp add: ptable_of_def)
  have pl: "Ptables c3 = Ptables c1" "PtableFreeList c3 = PtableFreeList c1" by (simp_all add: c3 c2_def Let_def)
  have "blocks_ok c3"
  proof -
    have "distinct (IblockHashBuckets c3 h) \<and>
        set (IblockHashBuckets c3 h) = {b' \<in> active c3. XR_IBLOCK_HASH (IbPc (Iblocks c3 b')) = h}" for h
    proof -
      have "IblockHashBuckets c3 h = (if h = ?h then [b] else []) @ IblockHashBuckets c1 h" by (simp add: c3 c2_def Let_def)
      moreover have "{b' \<in> active c3. XR_IBLOCK_HASH (IbPc (Iblocks c3 b')) = h} =
          (if h = ?h then {b} else {}) \<union> {b' \<in> active c1. XR_IBLOCK_HASH (IbPc (Iblocks c1 b')) = h}"
        using b(2) new(1) other unfolding a by (auto split: if_splits) (metis+)
      moreover have "distinct (IblockHashBuckets c1 h)" "set (IblockHashBuckets c1 h) = {b' \<in> active c1. XR_IBLOCK_HASH (IbPc (Iblocks c1 b')) = h}"
        using o(1) by (simp_all add: blocks_ok_def)
      ultimately show ?thesis using b(2) by auto
    qed
    moreover have "IblockLruList c3 = b # IblockLruList c1" "IblockFreeList c3 = bs" by (simp_all add: c3 c2_def Let_def)
    ultimately show ?thesis using b unfolding blocks_ok_def by auto
  qed
  moreover have "ptables_ok c3"
  proof (rule ptables_okI)
    show "t \<in> set (PtableFreeList c3) \<longleftrightarrow> t < 2048 \<and> (\<forall>b'\<in>active c3. ptable_of c3 b' \<noteq> Some t)" for t
      using ptables_okD(5) [OF o(2), of t] b(2) unfolding pl a pt by auto
    show "CachedPaths (Iblocks c3 b') 0 \<noteq> None" if "b' \<in> active c3" "HasPtable (Iblocks c3 b')" for b'
    proof -
      have "b' \<noteq> b" using that(2) new(5) by auto
      then show ?thesis using that ptables_okD(2) [OF o(2), of b'] by (simp add: a other)
    qed
  qed (use ptables_okD(1,3,4) [OF o(2)] in \<open>auto simp: pl pt a split: if_splits\<close>)
  moreover have "paths_ok c3"
  proof (rule paths_okI)
    fix r d
    assume lv: "live c3 r" and dr: "path_deref c3 r = Some d"
    have "live c1 r \<and> path_deref c1 r = Some d \<and> ref_pc c3 r = ref_pc c1 r"
    proof (cases r)
      case (BlockPath b' k)
      then have n: "b' \<noteq> b" using lv dr new(6) by (auto split: if_splits)
      show ?thesis using lv dr n unfolding BlockPath path_deref.simps live.simps ref_pc.simps other [OF n] a by blast
    next
      case (PtablePath t k)
      then show ?thesis using lv dr pl by (auto simp: a pt split: if_splits)
    qed
    then have "d \<in> active c1 \<and> tracked c1 d r \<and> ref_pc c3 r = Some (IbPc (Iblocks c1 d))" using paths_okD [OF o(4), of r d] by simp
    moreover from this have "d \<noteq> b" using b(2) by blast
    ultimately show "d \<in> active c3 \<and> tracked c3 d r \<and> ref_pc c3 r = Some (IbPc (Iblocks c3 d))"
      by (simp add: a tracked_def other)
  qed
  moreover have "jalr_ok c3" using o(5) new(5) other unfolding jalr_ok_def a by (metis insertE)
  ultimately have "ibc_ok c3" using c3(2) by (simp add: ibc_ok_def)
  then show ?thesis using e c1 b(2) a other pl new by (intro exI [of _ b] exI [of _ c3] exI [of _ c1]) simp
qed


text \<open>The block is decoded into.\<close>

lemma fill_block_ok:
  assumes ok: "ibc_ok c" and b: "\<not> HasPtable (Iblocks c b)" "\<forall>k < XR_CACHED_PATH_MAX. CachedPaths (Iblocks c b) k = None"
  shows "ibc_ok (upd_iblock b (\<lambda>ib. ib\<lparr>Insts := I, IbCycles := n\<rparr>) c)"
proof -
  let ?c = "upd_iblock b (\<lambda>ib. ib\<lparr>Insts := I, IbCycles := n\<rparr>) c"
  have f: "IbVpage (Iblocks ?c b') = IbVpage (Iblocks c b')" "IbPc (Iblocks ?c b') = IbPc (Iblocks c b')"
      "HasPtable (Iblocks ?c b') = HasPtable (Iblocks c b')" "CachedPaths (Iblocks ?c b') = CachedPaths (Iblocks c b')"
      "CachedBy (Iblocks ?c b') = CachedBy (Iblocks c b')" for b'
    by simp_all
  have pt: "ptable_of ?c = ptable_of c" by (simp add: ptable_of_def fun_eq_iff)
  have g: "IblockLruList ?c = IblockLruList c" "IblockFreeList ?c = IblockFreeList c" "IblockHashBuckets ?c = IblockHashBuckets c"
      "PtableFreeList ?c = PtableFreeList c" "VpageFreeList ?c = VpageFreeList c" "VpageHashBuckets ?c = VpageHashBuckets c"
      "Vpages ?c = Vpages c"
    by simp_all
  have "blocks_ok ?c = blocks_ok c" unfolding blocks_ok_def f g ..
  moreover have "ptables_ok ?c = ptables_ok c" unfolding ptables_ok_def f pt g ..
  moreover have "vpages_ok ?c = vpages_ok c" unfolding vpages_ok_def pages_def f g ..
  moreover have "jalr_ok ?c" using ok b(1) by (auto simp: ibc_ok_def jalr_ok_def)
  moreover have "paths_ok ?c"
  proof (rule paths_okI)
    fix r d
    assume lv: "live ?c r" and dr: "path_deref ?c r = Some d"
    have l: "live c r" using lv by (cases r) (simp_all add: pt)
    have dd: "path_deref c r = Some d"
    proof (cases r)
      case (BlockPath b' k)
      then show ?thesis using dr unfolding BlockPath path_deref.simps f by blast
    next
      case (PtablePath t k)
      then show ?thesis using dr by simp
    qed
    have "ref_pc ?c r = ref_pc c r"
    proof (cases r)
      case (BlockPath b' k)
      then have "b' \<noteq> b" using l dd b(2) by (auto split: if_splits)
      then show ?thesis using BlockPath by simp
    qed simp
    then show "d \<in> active ?c \<and> tracked ?c d r \<and> ref_pc ?c r = Some (IbPc (Iblocks ?c d))"
      using paths_okD [OF _ l dd] ok unfolding tracked_def f by (simp add: ibc_ok_def)
  qed
  ultimately show ?thesis using ok by (simp add: ibc_ok_def)
qed

text \<open>A pointer is cached. The slot may have been prepared for the block before.\<close>

lemma create_pointer_ok:
  assumes ok: "blocks_ok c" "ptables_ok c" "vpages_ok c" "jalr_ok c" and b: "b \<in> active c" "ref_pc c ptr = Some (IbPc (Iblocks c b))"
    and ptr: "\<not> (\<exists>b0. ptr = BlockPath b0 0 \<and> HasPtable (Iblocks c b0))"
    and paths: "\<And>r d. r \<noteq> ptr \<Longrightarrow> live c r \<Longrightarrow> path_deref c r = Some d \<Longrightarrow>
        d \<in> active c \<and> tracked c d r \<and> ref_pc c r = Some (IbPc (Iblocks c d))"
  shows "ibc_ok (XrCreateCachedPointerToBlock b ptr c)" "same_shape c (XrCreateCachedPointerToBlock b ptr c)"
proof -
  let ?i = "unat (CachedByFifoIndex (Iblocks c b) AND 3)"
  define c1 where "c1 = upd_iblock b (\<lambda>ib. ib\<lparr>CachedByFifoIndex := CachedByFifoIndex ib + 1\<rparr>) c"
  define c2 where "c2 = clear_cached_by b ?i c1"
  define c3 where "c3 = path_assign ptr (Some b) c2"
  define c4 where "c4 = upd_iblock b (\<lambda>ib. ib\<lparr>CachedBy := (CachedBy ib)(?i := Some ptr)\<rparr>) c3"
  have e: "XrCreateCachedPointerToBlock b ptr c = c4"
    by (simp add: XrCreateCachedPointerToBlock_def Let_def c1_def c2_def c3_def c4_def)
  have i: "?i < 4"
  proof -
    have "(3 :: u8) = mask 2" by (simp add: mask_eq_exp_minus_1)
    then have "?i = unat (CachedByFifoIndex (Iblocks c b)) mod 2 ^ 2" by (simp only: unat_and_mask)
    then show ?thesis by simp
  qed
  have s1: "same_shape c c1" by (simp add: same_shape_def c1_def)
  have s2: "same_shape c c2" unfolding c2_def using same_shape_trans [OF s1 clear_shape] .
  have ptr2: "\<not> (\<exists>b0. ptr = BlockPath b0 0 \<and> HasPtable (Iblocks c2 b0))" using ptr s2 by (simp add: same_shape_def)
  have s3: "same_shape c c3" unfolding c3_def using same_shape_trans [OF s2 same_shape_assign [OF ptr2]] .
  have "same_shape c3 c4" by (simp add: same_shape_def c4_def)
  then have s: "same_shape c c4" using same_shape_trans [OF s3] by simp
  then show "same_shape c (XrCreateCachedPointerToBlock b ptr c)" unfolding e .
  have cb: "CachedBy (Iblocks c4 d) j = (if d = b \<and> j = ?i then Some ptr else CachedBy (Iblocks c d) j)" for d j
    by (simp add: c4_def c3_def c2_def c1_def)
  have d1: "path_deref c1 r = path_deref c r" for r by (cases r) (simp_all add: c1_def)
  have d4: "path_deref c4 r = path_deref c3 r" for r by (cases r) (simp_all add: c4_def)
  have dr: "path_deref c4 r = (if r = ptr then Some b
      else if CachedBy (Iblocks c b) ?i = Some r \<and> path_deref c r = Some b then None else path_deref c r)" for r
  proof -
    have "path_deref c3 r = (if r = ptr then Some b else path_deref c2 r)" unfolding c3_def by (rule assign_deref [OF ptr2])
    moreover have "path_deref c2 r = (if CachedBy (Iblocks c b) ?i = Some r \<and> path_deref c r = Some b then None else path_deref c r)"
      unfolding c2_def clear_deref d1 by (simp add: c1_def)
    ultimately show ?thesis by (simp only: d4)
  qed
  have "paths_ok c4"
  proof (rule paths_okI)
    fix r d
    assume lv: "live c4 r" and dd: "path_deref c4 r = Some d"
    show "d \<in> active c4 \<and> tracked c4 d r \<and> ref_pc c4 r = Some (IbPc (Iblocks c4 d))"
    proof (cases "r = ptr")
      case True
      then have "d = b" using dd by (simp add: dr)
      moreover have "tracked c4 b ptr" using i unfolding tracked_def by (intro exI [of _ ?i]) (simp add: cb)
      ultimately show ?thesis using True b by (simp add: same_shape_ok(5,7) [OF s] same_shape_pc [OF s])
    next
      case False
      then have o: "path_deref c r = Some d" "\<not> (CachedBy (Iblocks c b) ?i = Some r \<and> d = b)" using dd by (auto simp: dr split: if_splits)
      have l: "live c r" using lv by (simp add: same_shape_ok(4) [OF s])
      note p = paths [OF False l o(1)]
      then have "tracked c4 d r" using o(2) False unfolding tracked_def cb by (metis option.inject)
      then show ?thesis using p by (simp add: same_shape_ok(5,7) [OF s] same_shape_pc [OF s])
    qed
  qed
  then show "ibc_ok (XrCreateCachedPointerToBlock b ptr c)"
    unfolding e ibc_ok_def using ok by (simp add: same_shape_ok(1-3,8) [OF s])
qed


text \<open>A block that ends in a register jump gets its prediction table.\<close>

lemma attach_ptable_ok:
  assumes ok: "ibc_ok c" and b: "b \<in> active c" "\<not> HasPtable (Iblocks c b)" "end_func (Iblocks c b) = Some (FFlow ExecuteJalr)"
  shows "\<exists>t c1. XrAllocatePtable c = Some (t, c1) \<and>
    ibc_ok (upd_iblock b (\<lambda>ib. ib\<lparr>CachedPaths := (CachedPaths ib)(0 := Some t), HasPtable := True\<rparr>) c1) \<and>
    IblockLruList c1 = IblockLruList c \<and> Iblocks c1 = Iblocks c \<and> PtPcs (Ptables c1 t) = PtPcs (Ptables c t)"
proof -
  have o: "blocks_ok c" "ptables_ok c" "vpages_ok c" "paths_ok c" "jalr_ok c" using ok by (simp_all add: ibc_ok_def)
  define used where "used = {t. \<exists>b' \<in> active c. ptable_of c b' = Some t}"
  have nb: "ptable_of c b = None" using b(2) by (simp add: ptable_of_def)
  have "used \<subseteq> (\<lambda>b'. the (ptable_of c b')) ` (active c - {b})" using nb by (force simp: used_def)
  moreover have "card (active c - {b}) < 2048"
  proof -
    have "active c \<subseteq> {..<2048}" using o(1) by (auto simp: blocks_ok_def)
    then have "card (active c) \<le> 2048" using card_mono [of "{..<2048}" "active c"] by simp
    then show ?thesis using b(1) by (simp add: card_gt_0_iff less_le_trans [OF card_Diff1_less])
  qed
  ultimately have "card used < 2048"
    by (meson card_image_le card_mono finite_Diff finite_imageI finite_set le_less_trans)
  then have "used \<noteq> {..<2048}" by (metis card_lessThan less_irrefl)
  moreover have "used \<subseteq> {..<2048}" using ptables_okD(3) [OF o(2)] by (auto simp: used_def)
  ultimately obtain t0 where "t0 < 2048" "t0 \<notin> used" by blast
  then have "t0 \<in> set (PtableFreeList c)" using ptables_okD(5) [OF o(2), of t0] by (auto simp: used_def)
  then obtain t ts where ts: "PtableFreeList c = t # ts" by (cases "PtableFreeList c") auto
  then have t: "t < 2048" "\<And>b'. b' \<in> active c \<Longrightarrow> ptable_of c b' \<noteq> Some t"
    using ptables_okD(5) [OF o(2), of t] by auto
  define c1 where "c1 = upd_ptable t (\<lambda>pt. pt\<lparr>PtIblocks := (\<lambda>i. if i < XR_JALR_PREDICTION_TABLE_ENTRIES then None else PtIblocks pt i)\<rparr>)
      (c\<lparr>PtableFreeList := ts\<rparr>)"
  define c2 where "c2 = upd_iblock b (\<lambda>ib. ib\<lparr>CachedPaths := (CachedPaths ib)(0 := Some t), HasPtable := True\<rparr>) c1"
  have f: "IbVpage (Iblocks c2 b') = IbVpage (Iblocks c b')" "IbPc (Iblocks c2 b') = IbPc (Iblocks c b')"
      "CachedBy (Iblocks c2 b') = CachedBy (Iblocks c b')" "Insts (Iblocks c2 b') = Insts (Iblocks c b')"
      "end_func (Iblocks c2 b') = end_func (Iblocks c b')" for b'
    by (simp_all add: c2_def c1_def end_func_def block_end_def)
  have g: "IblockLruList c2 = IblockLruList c" "IblockFreeList c2 = IblockFreeList c" "IblockHashBuckets c2 = IblockHashBuckets c"
      "VpageFreeList c2 = VpageFreeList c" "VpageHashBuckets c2 = VpageHashBuckets c" "Vpages c2 = Vpages c" "PtableFreeList c2 = ts"
    by (simp_all add: c2_def c1_def)
  have other: "Iblocks c2 b' = Iblocks c b'" if "b' \<noteq> b" for b' using that by (simp add: c2_def c1_def)
  have pt: "ptable_of c2 b' = (if b' = b then Some t else ptable_of c b')" for b'
    using other by (simp add: ptable_of_def) (simp add: c2_def)
  have "blocks_ok c2 = blocks_ok c" unfolding blocks_ok_def f g ..
  moreover have "vpages_ok c2 = vpages_ok c" unfolding vpages_ok_def pages_def f g ..
  moreover have "ptables_ok c2"
  proof (rule ptables_okI)
    show "t' \<in> set (PtableFreeList c2) \<longleftrightarrow> t' < 2048 \<and> (\<forall>b'\<in>active c2. ptable_of c2 b' \<noteq> Some t')" for t'
      using ptables_okD(1) [OF o(2)] ptables_okD(5) [OF o(2), of t'] ts nb b(1) t(2) unfolding g pt by auto
    show "distinct (PtableFreeList c2)" using ptables_okD(1) [OF o(2)] ts unfolding g by simp
    show "CachedPaths (Iblocks c2 b') 0 \<noteq> None" if "b' \<in> active c2" "HasPtable (Iblocks c2 b')" for b'
      using that(2) that(1) [unfolded g] ptables_okD(2) [OF o(2), of b'] other by (cases "b' = b") (simp_all add: c2_def)
    show "t' < 2048" if "b' \<in> active c2" "ptable_of c2 b' = Some t'" for b' t'
      using that t(1) ptables_okD(3) [OF o(2), of b' t'] unfolding g pt by (auto split: if_splits)
    show "b2 = b1" if "b1 \<in> active c2" "b2 \<in> active c2" "ptable_of c2 b1 = Some t'" "ptable_of c2 b2 = Some t'" for b1 b2 t'
      using that t(2) ptables_okD(4) [OF o(2), of b1 b2 t'] unfolding g pt by (auto split: if_splits)
  qed
  moreover have "jalr_ok c2" using o(5) b(3) other f(5) g(1) unfolding jalr_ok_def by metis
  moreover have "paths_ok c2"
  proof (rule paths_okI)
    fix r d
    assume lv: "live c2 r" and dd: "path_deref c2 r = Some d"
    have "live c r \<and> path_deref c r = Some d \<and> ref_pc c2 r = ref_pc c r"
    proof (cases r)
      case (BlockPath b' k)
      have "path_pc (Iblocks c2 b') k = path_pc (Iblocks c b') k" by (intro path_pc_cong(3) f)
      moreover have "path_deref c r = Some d"
      proof (cases "b' = b")
        case True
        then have k: "k \<noteq> 0" using dd BlockPath by (cases "k = 0") (simp_all add: c2_def)
        then have "CachedPaths (Iblocks c2 b) k = CachedPaths (Iblocks c b) k" by (simp add: c2_def c1_def)
        then show ?thesis using True dd BlockPath k by simp
      next
        case False
        then show ?thesis using dd unfolding BlockPath path_deref.simps other [OF False] by blast
      qed
      ultimately show ?thesis using lv BlockPath g(1) by simp
    next
      case (PtablePath t' k)
      have k: "k < 8" using lv PtablePath by simp
      then have n: "t' \<noteq> t" using dd PtablePath by (auto simp: c2_def c1_def)
      then have "Ptables c2 t' = Ptables c t'" by (simp add: c2_def c1_def)
      moreover have "\<exists>b' \<in> active c. ptable_of c b' = Some t'"
        using lv n unfolding PtablePath live.simps g pt by (auto split: if_splits)
      ultimately show ?thesis using dd PtablePath k by simp
    qed
    then show "d \<in> active c2 \<and> tracked c2 d r \<and> ref_pc c2 r = Some (IbPc (Iblocks c2 d))"
      using paths_okD [OF o(4), of r d] unfolding tracked_def f g by simp
  qed
  ultimately have "ibc_ok c2" using o by (simp add: ibc_ok_def)
  moreover have "XrAllocatePtable c = Some (t, c1)" using ts by (simp add: XrAllocatePtable_def c1_def)
  ultimately show ?thesis by (intro exI [of _ t] exI [of _ c1]) (simp add: c2_def c1_def)
qed

end
