(* ===== verification/Execute.thy ===== *)
theory Execute
  imports ExecuteReg Dcache IblockInv Rtc "HOL-Library.Monad_Syntax"
begin

text \<open>
  The interpreter, \<^verbatim>\<open>src/src/xr17032fast.c\<close>: fetching and decoding a basic block, the
  instruction handlers that use the memory, the caches or the block cache, the chain of tail calls with the check of
  conditions, and the loop that gives a processor its cycles. Handlers work on the whole machine; processor
  \<open>p\<close> executes slot \<open>inst\<close> of block \<open>block\<close>. The value \<^term>\<open>None\<close> of an option result is code that never returns.
\<close>

type_synonym XrHandler = "CitronTable \<Rightarrow> nat \<Rightarrow> nat \<Rightarrow> nat \<Rightarrow> Machine \<Rightarrow> (XrTail \<times> Machine) option"

section \<open>Fetch and decode\<close>

definition XR_CURRENT_ASID :: "XrProcessor \<Rightarrow> u32" where
  "XR_CURRENT_ASID proc = (if Cr proc RS AND RS_MMU \<noteq> 0 then Cr proc ITBTAG AND 0xFFF00000 else 0xFFFFFFFF)"

text \<open>The lines of the block, one at a time; \<^term>\<open>None\<close> when an exception was raised.\<close>

fun fetch_lines :: "CitronTable \<Rightarrow> nat \<Rightarrow> nat \<Rightarrow> u32 \<Rightarrow> u8 list \<Rightarrow> Machine \<Rightarrow> u8 list option \<times> Machine" where
  "fetch_lines ports p 0 fetchpc ir m = (Some ir, m)"
| "fetch_lines ports p (Suc n) fetchpc ir m =
    (case XrIcacheAccess ports p fetchpc m of
       (None, m) \<Rightarrow> (None, m)
     | (Some i, m) \<Rightarrow> fetch_lines ports p n (fetchpc + 16) (ir @ peek (Ic (proc_of m p)) i 16) m)"

definition link_block :: "(nat \<Rightarrow> XrCachedInst) \<Rightarrow> nat \<Rightarrow> nat \<Rightarrow> XrCachedInst" where
  "link_block insts inst = insts(inst := (insts inst)\<lparr>Func := FFlow SpecialLinkageInstruction\<rparr>)"

text \<open>The decode loop over the \<open>n\<close> words that are left, from word \<open>k\<close> of \<open>ir\<close> on; also the cycles of the block.\<close>

fun decode_loop :: "XrProcessor \<Rightarrow> (nat \<Rightarrow> u32) \<Rightarrow> nat \<Rightarrow> nat \<Rightarrow> (nat \<Rightarrow> XrCachedInst) \<Rightarrow> nat \<Rightarrow> u32 \<Rightarrow> u8 \<Rightarrow>
    (nat \<Rightarrow> XrCachedInst) \<times> u8" where
  "decode_loop proc ir 0 k insts inst pc cycles = (link_block insts inst, cycles)"
| "decode_loop proc ir (Suc n) k insts inst pc cycles =
    (case XrDecodeLowThree (unat (ir k AND 7)) proc insts inst (ir k) pc of
       (None, insts) \<Rightarrow> (insts, cycles + 1)
     | (Some next, insts) \<Rightarrow>
         if next \<ge> XR_IBLOCK_INSTS then (link_block insts next, cycles + 1)
         else decode_loop proc ir n (k + 1) insts next (pc + 4) (cycles + 1))"

text \<open>How many words are fetched: a fetch stays in its page.\<close>

definition fetch_count :: "u32 \<Rightarrow> nat" where
  "fetch_count pc =
    (let fetchpc = pc AND NOT 15
     in if (fetchpc + 127) AND 0xFFFFF000 \<noteq> pc AND 0xFFFFF000
        then unat (drop_bit 2 (((pc + 0x1000) AND 0xFFFFF000) - fetchpc)) else XR_IBLOCK_INSTS)"

definition XrDecodeInstructions :: "CitronTable \<Rightarrow> nat \<Rightarrow> nat option \<Rightarrow> Machine \<Rightarrow> nat option \<times> Machine" where
  "XrDecodeInstructions ports p hazard m =
    (let proc = proc_of m p; pc = Pc proc; asid = XR_CURRENT_ASID proc
     in case XrLookupIblock pc asid (Ibc proc) of
          Some b \<Rightarrow>
            if PteFlags (Iblocks (Ibc proc) b) AND 4 \<noteq> 0 \<and> Cr proc RS AND RS_USER \<noteq> 0 then
              (None, upd_proc p (\<lambda>proc. XrBasicException (proc\<lparr>Cr := (Cr proc)(EBADADDR := pc)\<rparr>) XR_EXC_PGF pc) m)
            else (Some b, m)
        | None \<Rightarrow>
            let fetchpc = pc AND NOT 15; instindex = unat (drop_bit 2 (pc - fetchpc)); instcount = fetch_count pc;
                (translated, m) =
                  (if Cr proc RS AND RS_MMU \<noteq> 0 then
                     let (r, proc) = XrTranslate proc fetchpc False True in (r, upd_proc p (\<lambda>_. proc) m)
                   else (Some (fetchpc, 0), m))
            in case translated of
                 None \<Rightarrow> (None, m)
               | Some (fetchpc, flags) \<Rightarrow>
                   (case fetch_lines ports p ((instcount + 3) div 4) fetchpc [] m of
                      (None, m) \<Rightarrow> (None, m)
                    | (Some ir, m) \<Rightarrow>
                        (case iblock_new hazard pc asid flags (Ibc (proc_of m p)) of
                           None \<Rightarrow> (None, m\<lparr>Crashed := True\<rparr>)
                         | Some (b, c) \<Rightarrow>
                             let (insts, cycles) = decode_loop (proc_of m p) (\<lambda>i. u32_of_bytes (take 4 (drop (4 * i) ir)))
                                   (instcount - instindex) instindex (Insts (Iblocks c b)) 0 pc 0
                             in (Some b, upd_proc p (\<lambda>proc. proc\<lparr>Ibc := upd_iblock b (\<lambda>ib. ib\<lparr>Insts := insts, IbCycles := cycles\<rparr>) c\<rparr>) m))))"

section \<open>How a handler ends\<close>

definition inst_of :: "nat \<Rightarrow> nat \<Rightarrow> nat \<Rightarrow> Machine \<Rightarrow> XrCachedInst" where
  "inst_of p block inst m = XrInst (proc_of m p) block inst"

text \<open>A handler of one processor on the machine.\<close>

definition on_proc :: "nat \<Rightarrow> (XrProcessor \<Rightarrow> XrTail \<times> XrProcessor) \<Rightarrow> Machine \<Rightarrow> XrTail \<times> Machine" where
  "on_proc p f m = (let (t, proc) = f (proc_of m p) in (t, upd_proc p (\<lambda>_. proc) m))"

definition mNEXT :: "nat \<Rightarrow> nat \<Rightarrow> nat \<Rightarrow> Machine \<Rightarrow> XrTail \<times> Machine" where
  "mNEXT p block inst = on_proc p (\<lambda>proc. XR_NEXT proc block inst)"

definition mEARLY_EXIT :: "nat \<Rightarrow> nat \<Rightarrow> Machine \<Rightarrow> XrTail \<times> Machine" where
  "mEARLY_EXIT p inst = on_proc p (\<lambda>proc. XR_EARLY_EXIT proc inst)"

definition mDISPATCH :: "nat \<Rightarrow> nat \<Rightarrow> nat \<Rightarrow> Machine \<Rightarrow> XrTail \<times> Machine" where
  "mDISPATCH p block next = on_proc p (\<lambda>proc. XR_DISPATCH proc block next)"

section \<open>Loads and stores\<close>

text \<open>\<open>XrReadByte\<close>, \<open>XrReadInt\<close> and \<open>XrReadLong\<close> into register \<open>Imm8_1\<close>.\<close>

definition load_inst :: "nat \<Rightarrow> (XrProcessor \<Rightarrow> nat \<Rightarrow> nat \<Rightarrow> u32) \<Rightarrow> XrHandler" where
  "load_inst len addr ports p block inst m =
    (let rd = unat (Imm8_1 (inst_of p block inst m))
     in case XrAccess ports p (addr (proc_of m p) block inst) False (Reg (proc_of m p) rd) 0 len False m of
          None \<Rightarrow> None
        | Some (status, dest, m) \<Rightarrow>
            if status = 0 then Some (mEARLY_EXIT p inst m)
            else Some (mNEXT p block inst (upd_proc p (\<lambda>proc. case dest of
                   Some v \<Rightarrow> proc\<lparr>Reg := (Reg proc)(rd := v)\<rparr> | None \<Rightarrow> proc) m)))"

definition store_inst :: "nat \<Rightarrow> (XrProcessor \<Rightarrow> nat \<Rightarrow> nat \<Rightarrow> u32) \<Rightarrow> (XrProcessor \<Rightarrow> nat \<Rightarrow> nat \<Rightarrow> u32) \<Rightarrow> XrHandler" where
  "store_inst len addr val ports p block inst m =
    (case XrAccess ports p (addr (proc_of m p) block inst) True 0 (val (proc_of m p) block inst) len False m of
       None \<Rightarrow> None
     | Some (status, _, m) \<Rightarrow> if status = 0 then Some (mEARLY_EXIT p inst m) else Some (mNEXT p block inst m))"

definition reg_offset :: "XrProcessor \<Rightarrow> nat \<Rightarrow> nat \<Rightarrow> u32" where
  "reg_offset proc block inst = XR_REG_RA proc block inst + XR_REG_RB proc block inst"

definition imm_offset_rd :: "XrProcessor \<Rightarrow> nat \<Rightarrow> nat \<Rightarrow> u32" where
  "imm_offset_rd proc block inst = XR_REG_RD proc block inst + Imm32_1 (XrInst proc block inst)"

definition imm_offset_ra :: "XrProcessor \<Rightarrow> nat \<Rightarrow> nat \<Rightarrow> u32" where
  "imm_offset_ra proc block inst = XR_REG_RA proc block inst + Imm32_1 (XrInst proc block inst)"

definition small_imm :: "XrProcessor \<Rightarrow> nat \<Rightarrow> nat \<Rightarrow> u32" where
  "small_imm proc block inst = SignExt5 (ucast (Imm8_2 (XrInst proc block inst)))"

definition XrExecuteStoreLongRegOffset :: XrHandler where
  "XrExecuteStoreLongRegOffset = store_inst 4 reg_offset XR_REG_RD"

definition XrExecuteStoreIntRegOffset :: XrHandler where
  "XrExecuteStoreIntRegOffset = store_inst 2 reg_offset XR_REG_RD"

definition XrExecuteStoreByteRegOffset :: XrHandler where
  "XrExecuteStoreByteRegOffset = store_inst 1 reg_offset XR_REG_RD"

definition XrExecuteLoadLongRegOffset :: XrHandler where
  "XrExecuteLoadLongRegOffset = load_inst 4 reg_offset"

definition XrExecuteLoadIntRegOffset :: XrHandler where
  "XrExecuteLoadIntRegOffset = load_inst 2 reg_offset"

definition XrExecuteLoadByteRegOffset :: XrHandler where
  "XrExecuteLoadByteRegOffset = load_inst 1 reg_offset"

definition XrExecuteStoreLongImmOffsetImm :: XrHandler where
  "XrExecuteStoreLongImmOffsetImm = store_inst 4 imm_offset_rd small_imm"

definition XrExecuteStoreIntImmOffsetImm :: XrHandler where
  "XrExecuteStoreIntImmOffsetImm = store_inst 2 imm_offset_rd small_imm"

definition XrExecuteStoreByteImmOffsetImm :: XrHandler where
  "XrExecuteStoreByteImmOffsetImm = store_inst 1 imm_offset_rd small_imm"

definition XrExecuteStoreLongImmOffsetReg :: XrHandler where
  "XrExecuteStoreLongImmOffsetReg = store_inst 4 imm_offset_rd XR_REG_RA"

definition XrExecuteStoreIntImmOffsetReg :: XrHandler where
  "XrExecuteStoreIntImmOffsetReg = store_inst 2 imm_offset_rd XR_REG_RA"

definition XrExecuteStoreByteImmOffsetReg :: XrHandler where
  "XrExecuteStoreByteImmOffsetReg = store_inst 1 imm_offset_rd XR_REG_RA"

definition XrExecuteLoadLongImmOffset :: XrHandler where
  "XrExecuteLoadLongImmOffset = load_inst 4 imm_offset_ra"

definition XrExecuteLoadIntImmOffset :: XrHandler where
  "XrExecuteLoadIntImmOffset = load_inst 2 imm_offset_ra"

definition XrExecuteLoadByteImmOffset :: XrHandler where
  "XrExecuteLoadByteImmOffset = load_inst 1 imm_offset_ra"

text \<open>The conditional pair: status 2 is a line that was lost since the load.\<close>

definition XrExecuteSC :: XrHandler where
  "XrExecuteSC ports p block inst m =
    (let proc = proc_of m p
     in if \<not> Locked proc then Some (mNEXT p block inst (upd_proc p (\<lambda>proc. XR_SET_RD proc block inst 0) m))
        else case XrAccess ports p (XR_REG_RA proc block inst) True 0 (XR_REG_RB proc block inst) 4 True m of
               None \<Rightarrow> None
             | Some (status, _, m) \<Rightarrow>
                 if status = 0 then Some (mEARLY_EXIT p inst m)
                 else Some (mNEXT p block inst
                        (upd_proc p (\<lambda>proc. XR_SET_RD proc block inst (if status = 2 then 0 else 1)) m)))"

definition XrExecuteLL :: XrHandler where
  "XrExecuteLL ports p block inst m =
    (let rd = unat (Imm8_1 (inst_of p block inst m))
     in case XrAccess ports p (XR_REG_RA (proc_of m p) block inst) False (Reg (proc_of m p) rd) 0 4 False m of
          None \<Rightarrow> None
        | Some (status, dest, m) \<Rightarrow>
            if status = 0 then Some (mEARLY_EXIT p inst m)
            else Some (mNEXT p block inst (upd_proc p (\<lambda>proc. case dest of
                   Some v \<Rightarrow> proc\<lparr>Reg := (Reg proc)(rd := v), Locked := True\<rparr> | None \<Rightarrow> proc\<lparr>Locked := True\<rparr>) m)))"

definition XrExecuteWmb :: XrHandler where
  "XrExecuteWmb ports p block inst m = Some (mNEXT p block inst (XrFlushWriteBuffer ports p m))"

definition XrExecuteMb :: XrHandler where
  "XrExecuteMb ports p block inst m = Some (mNEXT p block inst (XrFlushWriteBuffer ports p m))"

section \<open>Control registers\<close>

abbreviation (input) "TB_INVALID_ENTRY \<equiv> 0xFFF0000000000000 :: u64"

text \<open>Lines \<open>lo \<le> i < hi\<close> of a cache whose tag lies in page frame \<open>phys\<close> are invalidated.\<close>

definition invalidate_lines :: "nat \<Rightarrow> nat \<Rightarrow> u32 \<Rightarrow> (nat \<Rightarrow> u32) \<Rightarrow> (nat \<Rightarrow> nat) \<Rightarrow> nat \<Rightarrow> nat" where
  "invalidate_lines lo hi phys tags flags =
    (\<lambda>i. if lo \<le> i \<and> i < hi \<and> tags i AND 0xFFFFF000 = phys then XR_LINE_INVALID else flags i)"

text \<open>The flags of a cache after a write of \<open>v\<close> to its control register.\<close>

definition cache_ctrl :: "u32 \<Rightarrow> (nat \<Rightarrow> u32) \<Rightarrow> (nat \<Rightarrow> nat) \<Rightarrow> nat \<Rightarrow> nat" where
  "cache_ctrl v tags flags =
    (if v AND 3 = 3 then (\<lambda>i. if i < XR_DC_LINE_COUNT then XR_LINE_INVALID else flags i)
     else if v AND 3 = 2 then
       let phys = v AND 0xFFFFF000;
           lowindex = set_number phys * 2; highindex = set_number (phys + 4096) * 2
       in invalidate_lines lowindex highindex phys tags flags
     else flags)"

text \<open>The entries of a translation buffer after a write of \<open>v\<close> to its control register.\<close>

definition tb_ctrl :: "u32 \<Rightarrow> (nat \<Rightarrow> u64) \<Rightarrow> nat \<Rightarrow> u64" where
  "tb_ctrl v tb =
    (\<lambda>i. if i < XR_TB_SIZE \<and>
            (if v AND 3 = 3 then True
             else if v AND 3 = 2 then 4 \<le> i \<and> tb i AND PTE_GLOBAL = 0
             else if v AND 3 = 1 then 4 \<le> i
             else tb i AND 0x000FFFFF00000000 = push_bit 32 (ucast (drop_bit 12 v)))
          then TB_INVALID_ENTRY else tb i)"

text \<open>An entry is written at the index register, which skips the four reserved entries when it wraps.\<close>

definition tb_write :: "nat \<Rightarrow> nat \<Rightarrow> u32 \<Rightarrow> (nat \<Rightarrow> u64) \<Rightarrow> XrProcessor \<Rightarrow> (nat \<Rightarrow> u64) \<times> (nat \<Rightarrow> u32)" where
  "tb_write index tag v tb proc =
    (let i = Cr proc index; e = push_bit 32 (ucast (Cr proc tag)) OR ucast v
     in (tb(unat i := e), (Cr proc)(index := (if i + 1 = 32 then 4 else i + 1))))"

definition XrExecuteMtcr :: XrHandler where
  "XrExecuteMtcr ports p block inst m =
    (if Cr (proc_of m p) RS AND RS_USER \<noteq> 0 then
       Some (mEARLY_EXIT p inst (upd_proc p (\<lambda>proc. XrBasicException proc XR_EXC_PRV (Pc proc)) m))
     else
       let m = upd_proc p (\<lambda>proc. proc\<lparr>NmiMaskCounter := NMI_MASK_CYCLES\<rparr>) m;
           v = Reg (proc_of m p) (unat (Imm8_1 (inst_of p block inst m)));
           rb = unat (Imm8_2 (inst_of p block inst m))
       in if rb = ICACHECTRL then
            Some (mEARLY_EXIT p inst (upd_proc p (\<lambda>proc.
              proc\<lparr>IcFlags := cache_ctrl v (IcTags proc) (IcFlags proc),
                   Ibc := XrInvalidateIblockCache (Ibc proc), Pc := Pc proc + 4\<rparr>) m))
          else if rb = DCACHECTRL then
            Some (mNEXT p block inst (upd_proc p (\<lambda>proc.
              proc\<lparr>DcFlags := cache_ctrl v (DcTags proc) (DcFlags proc)\<rparr>) (XrFlushWriteBuffer ports p m)))
          else if rb = ITBCTRL then
            Some (mEARLY_EXIT p inst (upd_proc p (\<lambda>proc.
              let proc = proc\<lparr>Itb := tb_ctrl v (Itb proc)\<rparr>
              in if v AND 3 = 0 then
                   proc\<lparr>ItbLastVpn := (if ItbLastVpn proc = drop_bit 12 v then - 1 else ItbLastVpn proc),
                        Pc := Pc proc + 4, Ibc := XrInvalidateIblockCacheByVpn (v AND NOT 0xFFF) (Ibc proc)\<rparr>
                 else proc\<lparr>ItbLastVpn := - 1, Ibc := XrInvalidateIblockCache (Ibc proc), Pc := Pc proc + 4\<rparr>) m))
          else
            Some (mNEXT p block inst (upd_proc p (\<lambda>proc.
              if rb = DTBCTRL then
                proc\<lparr>Dtb := tb_ctrl v (Dtb proc),
                     DtbLastVpn := (if v AND 3 = 0 \<and> DtbLastVpn proc \<noteq> drop_bit 12 v then DtbLastVpn proc else - 1)\<rparr>
              else if rb = ITBPTE then
                let (tb, cr) = tb_write ITBINDEX ITBTAG v (Itb proc) proc in proc\<lparr>Itb := tb, Cr := cr\<rparr>
              else if rb = DTBPTE then
                let (tb, cr) = tb_write DTBINDEX DTBTAG v (Dtb proc) proc in proc\<lparr>Dtb := tb, Cr := cr\<rparr>
              else if rb = ITBINDEX then proc\<lparr>Cr := (Cr proc)(ITBINDEX := v AND 31)\<rparr>
              else if rb = DTBINDEX then proc\<lparr>Cr := (Cr proc)(DTBINDEX := v AND 31)\<rparr>
              else if rb = DTBTAG then proc\<lparr>Cr := (Cr proc)(DTBTAG := v), DtbLastVpn := - 1\<rparr>
              else if rb = ITBTAG then proc\<lparr>Cr := (Cr proc)(ITBTAG := v), ItbLastVpn := - 1\<rparr>
              else proc\<lparr>Cr := (Cr proc)(rb := v)\<rparr>) m)))"

section \<open>Control flow\<close>

text \<open>
  The end of a block: along the cached pointer if there is one, else the block is looked up or decoded
  and the pointer is cached. A prediction table in the slot of a pointer would be taken for a block.
\<close>

definition flow_dispatch :: "nat \<Rightarrow> XrHandler" where
  "flow_dispatch path ports p block inst m =
    (let ib = Iblocks (Ibc (proc_of m p)) block
     in if HasPtable ib \<and> path = 0 then Some (TailAbort, m\<lparr>Crashed := True\<rparr>)
        else case CachedPaths ib path of
               Some b \<Rightarrow> Some (mDISPATCH p block b m)
             | None \<Rightarrow>
                 (case XrDecodeInstructions ports p (Some block) m of
                    (None, m) \<Rightarrow> Some (mEARLY_EXIT p inst m)
                  | (Some b, m) \<Rightarrow>
                      Some (mDISPATCH p block b (upd_proc p (\<lambda>proc.
                        proc\<lparr>Ibc := XrCreateCachedPointerToBlock b (BlockPath block path) (Ibc proc)\<rparr>) m))))"

definition branch_inst :: "(u32 \<Rightarrow> bool) \<Rightarrow> XrHandler" where
  "branch_inst cond ports p block inst m =
    (let i = inst_of p block inst m
     in if cond (Reg (proc_of m p) (unat (Imm8_1 i)))
        then flow_dispatch XR_TRUE_PATH ports p block inst (upd_proc p (\<lambda>proc. proc\<lparr>Pc := Imm32_1 i\<rparr>) m)
        else flow_dispatch XR_FALSE_PATH ports p block inst (upd_proc p (\<lambda>proc. proc\<lparr>Pc := Pc proc + 4\<rparr>) m))"

definition XrExecuteBpo :: XrHandler where "XrExecuteBpo = branch_inst (\<lambda>v. v AND 1 \<noteq> 0)"

definition XrExecuteBpe :: XrHandler where "XrExecuteBpe = branch_inst (\<lambda>v. v AND 1 = 0)"

definition XrExecuteBge :: XrHandler where "XrExecuteBge = branch_inst (\<lambda>v. sint v \<ge> 0)"

definition XrExecuteBle :: XrHandler where "XrExecuteBle = branch_inst (\<lambda>v. sint v \<le> 0)"

definition XrExecuteBgt :: XrHandler where "XrExecuteBgt = branch_inst (\<lambda>v. sint v > 0)"

definition XrExecuteBlt :: XrHandler where "XrExecuteBlt = branch_inst (\<lambda>v. sint v < 0)"

definition XrExecuteBne :: XrHandler where "XrExecuteBne = branch_inst (\<lambda>v. v \<noteq> 0)"

definition XrExecuteBeq :: XrHandler where "XrExecuteBeq = branch_inst (\<lambda>v. v = 0)"

definition XrExecuteB :: XrHandler where
  "XrExecuteB ports p block inst m =
    flow_dispatch XR_TRUE_PATH ports p block inst
      (upd_proc p (\<lambda>proc. proc\<lparr>Pc := Imm32_1 (XrInst proc block inst)\<rparr>) m)"

definition XrExecuteJ :: XrHandler where
  "XrExecuteJ ports p block inst m =
    flow_dispatch XR_TRUE_PATH ports p block inst
      (upd_proc p (\<lambda>proc. proc\<lparr>Pc := Imm32_1 (XrInst proc block inst)\<rparr>) m)"

definition XrExecuteJal :: XrHandler where
  "XrExecuteJal ports p block inst m =
    flow_dispatch XR_TRUE_PATH ports p block inst
      (upd_proc p (\<lambda>proc. proc\<lparr>Reg := (Reg proc)(LR := Pc proc + 4), Pc := Imm32_1 (XrInst proc block inst)\<rparr>) m)"

definition XrSpecialLinkageInstruction :: XrHandler where
  "XrSpecialLinkageInstruction = flow_dispatch XR_TRUE_PATH"

text \<open>The prediction table of the block, allocated at its first register jump.\<close>

definition jalr_table :: "nat \<Rightarrow> XrIblockCache \<Rightarrow> (nat \<times> XrIblockCache) option" where
  "jalr_table block c =
    (case CachedPaths (Iblocks c block) 0 of
       Some t \<Rightarrow> if HasPtable (Iblocks c block) then Some (t, c) else None
     | None \<Rightarrow>
         (case XrAllocatePtable c of
            None \<Rightarrow> None
          | Some (t, c) \<Rightarrow> Some (t, upd_iblock block (\<lambda>ib. ib\<lparr>CachedPaths := (CachedPaths ib)(0 := Some t), HasPtable := True\<rparr>) c)))"

definition XrExecuteJalr :: XrHandler where
  "XrExecuteJalr ports p block inst m =
    (let i = inst_of p block inst m; pc = Reg (proc_of m p) (unat (Imm8_2 i)) + Imm32_1 i;
         m = upd_proc p (\<lambda>proc. proc\<lparr>Reg := (Reg proc)(unat (Imm8_1 i) := Pc proc + 4), Pc := pc\<rparr>) m
     in if pc AND 3 \<noteq> 0 then
          Some (mEARLY_EXIT p inst (upd_proc p (\<lambda>proc.
            XrBasicException (proc\<lparr>Cr := (Cr proc)(EBADADDR := pc)\<rparr>) XR_EXC_UNA pc) m))
        else case jalr_table block (Ibc (proc_of m p)) of
               None \<Rightarrow> Some (TailAbort, m\<lparr>Crashed := True\<rparr>)
             | Some (t, c) \<Rightarrow>
                 let m = upd_proc p (\<lambda>proc. proc\<lparr>Ibc := c\<rparr>) m; index = unat (drop_bit 2 pc AND 7)
                 in case (if PtPcs (Ptables c t) index = pc then PtIblocks (Ptables c t) index else None) of
                      Some b \<Rightarrow> Some (mDISPATCH p block b m)
                    | None \<Rightarrow>
                        (case XrDecodeInstructions ports p (Some block) m of
                           (None, m) \<Rightarrow> Some (mEARLY_EXIT p inst m)
                         | (Some b, m) \<Rightarrow>
                             Some (mDISPATCH p block b (upd_proc p (\<lambda>proc.
                               proc\<lparr>Ibc := XrCreateCachedPointerToBlock b (PtablePath t index)
                                 (upd_ptable t (\<lambda>pt. pt\<lparr>PtPcs := (PtPcs pt)(index := pc)\<rparr>) (Ibc proc))\<rparr>) m))))"

section \<open>The handler a cached instruction points to\<close>

fun XrMemImpl :: "XrMemFunc \<Rightarrow> XrHandler" where
  "XrMemImpl ExecuteStoreLongRegOffset = XrExecuteStoreLongRegOffset"
| "XrMemImpl ExecuteStoreIntRegOffset = XrExecuteStoreIntRegOffset"
| "XrMemImpl ExecuteStoreByteRegOffset = XrExecuteStoreByteRegOffset"
| "XrMemImpl ExecuteLoadLongRegOffset = XrExecuteLoadLongRegOffset"
| "XrMemImpl ExecuteLoadIntRegOffset = XrExecuteLoadIntRegOffset"
| "XrMemImpl ExecuteLoadByteRegOffset = XrExecuteLoadByteRegOffset"
| "XrMemImpl ExecuteStoreLongImmOffsetImm = XrExecuteStoreLongImmOffsetImm"
| "XrMemImpl ExecuteStoreIntImmOffsetImm = XrExecuteStoreIntImmOffsetImm"
| "XrMemImpl ExecuteStoreByteImmOffsetImm = XrExecuteStoreByteImmOffsetImm"
| "XrMemImpl ExecuteStoreLongImmOffsetReg = XrExecuteStoreLongImmOffsetReg"
| "XrMemImpl ExecuteStoreIntImmOffsetReg = XrExecuteStoreIntImmOffsetReg"
| "XrMemImpl ExecuteStoreByteImmOffsetReg = XrExecuteStoreByteImmOffsetReg"
| "XrMemImpl ExecuteLoadLongImmOffset = XrExecuteLoadLongImmOffset"
| "XrMemImpl ExecuteLoadIntImmOffset = XrExecuteLoadIntImmOffset"
| "XrMemImpl ExecuteLoadByteImmOffset = XrExecuteLoadByteImmOffset"
| "XrMemImpl ExecuteSC = XrExecuteSC"
| "XrMemImpl ExecuteLL = XrExecuteLL"

fun XrFlowImpl :: "XrFlowFunc \<Rightarrow> XrHandler" where
  "XrFlowImpl ExecuteBpo = XrExecuteBpo"
| "XrFlowImpl ExecuteBpe = XrExecuteBpe"
| "XrFlowImpl ExecuteBge = XrExecuteBge"
| "XrFlowImpl ExecuteBle = XrExecuteBle"
| "XrFlowImpl ExecuteBgt = XrExecuteBgt"
| "XrFlowImpl ExecuteBlt = XrExecuteBlt"
| "XrFlowImpl ExecuteBne = XrExecuteBne"
| "XrFlowImpl ExecuteBeq = XrExecuteBeq"
| "XrFlowImpl ExecuteB = XrExecuteB"
| "XrFlowImpl ExecuteJalr = XrExecuteJalr"
| "XrFlowImpl ExecuteJal = XrExecuteJal"
| "XrFlowImpl ExecuteJ = XrExecuteJ"
| "XrFlowImpl SpecialLinkageInstruction = XrSpecialLinkageInstruction"

definition on_local :: "XrInstImplF \<Rightarrow> XrHandler" where
  "on_local f ports p block inst m = Some (on_proc p (\<lambda>proc. f proc block inst) m)"

fun XrImpl :: "XrFunc \<Rightarrow> XrHandler" where
  "XrImpl (FReg f) = on_local (XrRegImpl f)"
| "XrImpl (FImm f) = on_local (XrImmImpl f)"
| "XrImpl (FMem f) = XrMemImpl f"
| "XrImpl (FFlow f) = XrFlowImpl f"
| "XrImpl (FSys f) =
    (case XrSysImpl f of
       Some impl \<Rightarrow> on_local impl
     | None \<Rightarrow> if f = ExecuteWmb then XrExecuteWmb else if f = ExecuteMb then XrExecuteMb else XrExecuteMtcr)"

text \<open>One call through the pointer of a cached instruction.\<close>

definition XrExecuteInst :: XrHandler where
  "XrExecuteInst ports p block inst m = XrImpl (Func (inst_of p block inst m)) ports p block inst m"

section \<open>Check of conditions\<close>

text \<open>The part after the label \<open>retry\<close>; \<open>next\<close> is the block to continue with.\<close>

partial_function (option) check_retry :: "CitronTable \<Rightarrow> nat \<Rightarrow> nat option \<Rightarrow> Machine \<Rightarrow> (XrTail \<times> Machine) option" where
  "check_retry ports p next m =
    (let proc = proc_of m p; stop = upd_proc p (\<lambda>proc. proc\<lparr>NoMore := True\<rparr>) m
     in if CyclesDone proc \<ge> CyclesGoal proc then Some (TailReturn, stop)
        else if Halted proc then Some (TailReturn, stop)
        else if PauseCalls proc \<ge> XR_PAUSE_MAX then Some (TailReturn, stop)
        else
          let m = (if NmiMaskCounter proc \<noteq> 0
                   then upd_proc p (\<lambda>proc. proc\<lparr>NmiMaskCounter := NmiMaskCounter proc - 1\<rparr>) m else m);
              int = (InterruptPending (LsicTab m (ProcId proc)) \<and> Cr proc RS AND RS_INT \<noteq> 0);
              m = (if int then upd_proc p (\<lambda>proc. (XrBasicException proc XR_EXC_INT (Pc proc))\<lparr>Progress := XR_POLL_MAX\<rparr>) m else m);
              next = (if int then None else next)
          in case next of
               Some b \<Rightarrow> Some (TailInst b 0, m)
             | None \<Rightarrow>
                 (case XrDecodeInstructions ports p None m of
                    (None, m) \<Rightarrow> check_retry ports p None
                        (upd_proc p (\<lambda>proc. proc\<lparr>CyclesDone := CyclesDone proc + of_nat XR_IBLOCK_INSTS\<rparr>) m)
                  | (Some b, m) \<Rightarrow> Some (TailInst b 0, m)))"

definition XrCheckConditions :: "CitronTable \<Rightarrow> nat \<Rightarrow> nat option \<Rightarrow> Machine \<Rightarrow> (XrTail \<times> Machine) option" where
  "XrCheckConditions ports p next m =
    check_retry ports p next
      (if WbCycles (proc_of m p) \<noteq> 0
       then XrFlushWriteBuffer ports p (upd_proc p (\<lambda>proc. proc\<lparr>WbCycles := 0\<rparr>) m) else m)"

section \<open>Giving a processor its cycles\<close>

text \<open>One tail call: the next instruction, or the check of conditions.\<close>

definition tail_step :: "CitronTable \<Rightarrow> nat \<Rightarrow> XrTail \<Rightarrow> Machine \<Rightarrow> (XrTail \<times> Machine) option" where
  "tail_step ports p t m =
    (case t of
       TailInst block inst \<Rightarrow> XrExecuteInst ports p block inst m
     | TailCheckConditions \<Rightarrow> XrCheckConditions ports p None m
     | _ \<Rightarrow> Some (t, m))"

text \<open>A chain of tail calls runs until a handler returns.\<close>

partial_function (option) run_chain :: "CitronTable \<Rightarrow> nat \<Rightarrow> XrTail \<Rightarrow> Machine \<Rightarrow> Machine option" where
  "run_chain ports p t m =
    (if t = TailReturn \<or> t = TailAbort then Some m
     else do { (t, m) \<leftarrow> tail_step ports p t m; run_chain ports p t m })"

text \<open>The loop of \<open>XrExecuteFast\<close>; it also ends when the host program has died.\<close>

partial_function (option) run_cycles :: "CitronTable \<Rightarrow> nat \<Rightarrow> Machine \<Rightarrow> Machine option" where
  "run_cycles ports p m =
    (if NoMore (proc_of m p) \<or> Crashed m then Some m
     else do { m \<leftarrow> run_chain ports p TailCheckConditions m; run_cycles ports p m })"

definition XrExecuteFast :: "CitronTable \<Rightarrow> nat \<Rightarrow> u32 \<Rightarrow> Machine \<Rightarrow> (u32 \<times> Machine) option" where
  "XrExecuteFast ports p cycles m =
    (let proc = proc_of m p; lsic = LsicTab m (ProcId proc)
     in if \<not> Running proc then Some (cycles, m)
        else if Halted proc \<and> (\<not> InterruptPending lsic \<or> Cr proc RS AND RS_INT = 0)
        then Some (cycles, upd_proc p (\<lambda>proc. proc\<lparr>NmiMaskCounter := 0\<rparr>) m)
        else
          let m = (if Halted proc then upd_proc p (\<lambda>proc. proc\<lparr>NmiMaskCounter := 0, Halted := False\<rparr>) m else m);
              m = upd_proc p (\<lambda>proc. proc\<lparr>CyclesGoal := cycles, CyclesDone := 0\<rparr>) m;
              m = upd_proc p (\<lambda>proc. if UserBreak proc \<and> NmiMaskCounter proc = 0
                    then (XrBasicException proc XR_EXC_NMI (Pc proc))\<lparr>UserBreak := False, Halted := False\<rparr> else proc) m
          in if Progress (proc_of m p) \<le> 0 then Some (cycles, m)
             else do {
               m \<leftarrow> run_cycles ports p (upd_proc p (\<lambda>proc. proc\<lparr>PauseCalls := 0, NoMore := False\<rparr>) m);
               Some (CyclesDone (proc_of m p), m)
             })"

section \<open>Scheduling a processor\<close>

text \<open>
  The loop of \<open>XrProcessorSchedule\<close>: \<open>cyc\<close> is the number of cycles in a millisecond, \<open>clock n\<close> what
  \<^verbatim>\<open>gettimeofday\<close> returns in round \<open>n\<close>. The machine crashes only as the host program does.
\<close>

partial_function (option) schedule_rounds ::
    "CitronTable \<Rightarrow> (nat \<Rightarrow> int \<times> int) \<Rightarrow> u32 \<Rightarrow> nat \<Rightarrow> nat \<Rightarrow> int \<Rightarrow> Machine \<Rightarrow> (int \<times> Machine) option" where
  "schedule_rounds ports clock cyc p n timeslice m =
    (if timeslice > 0 then
       let proc = proc_of m p; interval = RTCIntervalMS (Rtc m);
           m = (if interval \<noteq> 0 \<and> TimerInterruptCounter proc \<ge> interval
                then upd_proc p (\<lambda>proc. proc\<lparr>TimerInterruptCounter := 0\<rparr>)
                       (m\<lparr>LsicTab := LsicInterruptTargeted (ProcId proc) 2 (LsicTab m)\<rparr>)
                else m);
           m = (if ProcId proc = 0 then RTCUpdateRealTime (fst (clock n)) (snd (clock n)) m else m)
       in do {
            (real, m) \<leftarrow> XrExecuteFast ports p cyc m;
            let m = upd_proc p (\<lambda>proc. proc\<lparr>CyclesThisRound := CyclesThisRound proc + real\<rparr>) m;
            let full = (CyclesThisRound (proc_of m p) \<ge> cyc);
            let timeslice = (if full then timeslice - 1 else timeslice);
            let m = (if full then upd_proc p (\<lambda>proc. proc\<lparr>CyclesThisRound := CyclesThisRound proc - cyc,
                       TimerInterruptCounter := TimerInterruptCounter proc + 1\<rparr>) m else m);
            let proc = proc_of m p;
            if PauseCalls proc \<ge> XR_PAUSE_MAX \<or> Halted proc \<or> Progress proc \<le> 0
            then Some (timeslice, upd_proc p (\<lambda>proc. proc\<lparr>PauseCalls := 0\<rparr>) m)
            else schedule_rounds ports clock cyc p (n + 1) timeslice m
          }
     else Some (timeslice, m))"

definition XrProcessorSchedule :: "CitronTable \<Rightarrow> (nat \<Rightarrow> int \<times> int) \<Rightarrow> nat \<Rightarrow> nat \<Rightarrow> Machine \<Rightarrow> Machine option" where
  "XrProcessorSchedule ports clock freq p m =
    do {
      (timeslice, m) \<leftarrow> schedule_rounds ports clock (of_nat ((freq + 999) div 1000)) p 0 (Timeslice (Sched m) p) m;
      let m = m\<lparr>Sched := (Sched m)\<lparr>Timeslice := (Timeslice (Sched m))(p := timeslice)\<rparr>\<rparr>;
      Some (if timeslice = 0 then m\<lparr>Sched := XrScheduleWorkForNextFrame p False (Sched m)\<rparr>
            else if Halted (proc_of m p) then schedule_for_me p p m
            else m\<lparr>Sched := XrScheduleWorkForAny p (Sched m)\<rparr>)
    }"

text \<open>Too much pending time is dropped: 17 is the length of a frame in milliseconds.\<close>

definition XrProcessorStartTimeslice :: "nat \<Rightarrow> int \<Rightarrow> Machine \<Rightarrow> Machine" where
  "XrProcessorStartTimeslice p dt m =
    (let m = upd_proc p (\<lambda>proc. proc\<lparr>Progress := XR_POLL_MAX, PauseCalls := 0, CyclesThisRound := 0\<rparr>) m;
         t = Timeslice (Sched m) p + dt
     in m\<lparr>Sched := (Sched m)\<lparr>Timeslice := (Timeslice (Sched m))(p := if t \<ge> 17 * 50 then 17 else t)\<rparr>\<rparr>)"

section \<open>Start-up\<close>

text \<open>\<open>junk\<close> is what the fresh memory of the processor holds.\<close>

definition XrInitializeProcessor :: "XrProcessor \<Rightarrow> nat \<Rightarrow> Machine \<Rightarrow> Machine" where
  "XrInitializeProcessor junk n m =
    (let proc = XrReset (junk\<lparr>ProcId := n, TimerInterruptCounter := 0, CyclesThisRound := 0,
                  Ibc := iblock_cache_init (Ibc junk)\<rparr>)
     in m\<lparr>XrProcessorTable := (XrProcessorTable m)(n := proc),
          XrProcessorPresent := (XrProcessorPresent m)(n := True),
          Sched := XrScheduleWorkForNextFrame n False (XrInitializeSchedulable n (Sched m))\<rparr>)"

text \<open>\<open>count node\<close> is the number of processors of a node.\<close>

definition XrInitializeProcessors :: "(nat \<Rightarrow> nat) \<Rightarrow> XrProcessor \<Rightarrow> Machine \<Rightarrow> Machine" where
  "XrInitializeProcessors count junk m =
    fold (XrInitializeProcessor junk)
      (concat (map (\<lambda>node. map (\<lambda>i. node * 4 + i) [0..<count node]) [0..<4])) m"

end
