(* ===== verification/Frame.thy ===== *)
theory Frame
  imports Execute
begin

text \<open>
  What an access leaves alone. Bus accesses, whatever device they reach, change nothing of a processor
  but the counters that penalise polling; a memory access changes caches and translation state, and the
  program counter only when it raises an exception. From this follows that an access always
  returns: the two jumps back to its start are taken at most once.
\<close>

section \<open>The bus and the processors\<close>

definition core :: "XrProcessor \<Rightarrow> XrProcessor" where
  "core proc = proc\<lparr>Progress := 0, PauseCalls := 0\<rparr>"

text \<open>Every processor, and whether it is there.\<close>

definition cores :: "Machine \<Rightarrow> nat \<Rightarrow> XrProcessor \<times> bool" where
  "cores m q = (core (XrProcessorTable m q), XrProcessorPresent m q)"

lemma cores_present: "cores m' = cores m \<Longrightarrow> XrProcessorPresent m' = XrProcessorPresent m"
  by (simp add: cores_def fun_eq_iff)

lemma core_fields:
  assumes "core a = core b"
  shows "Itb a = Itb b" "Dtb a = Dtb b" "Ibc a = Ibc b" "IcTags a = IcTags b" "IcFlags a = IcFlags b" "DcTags a = DcTags b"
    "DcFlags a = DcFlags b" "WbIndices a = WbIndices b" "Reg a = Reg b" "Cr a = Cr b" "Pc a = Pc b"
    "CyclesDone a = CyclesDone b" "CyclesGoal a = CyclesGoal b" "Dispatches a = Dispatches b" "Locked a = Locked b"
    "DcIndexToWbIndex a = DcIndexToWbIndex b" "ProcId a = ProcId b" "NmiMaskCounter a = NmiMaskCounter b"
    "Halted a = Halted b" "Running a = Running b"
  using assms unfolding core_def by (cases a; cases b; simp)+

lemma cores_upd [simp]:
  "cores (m\<lparr>XrScacheFlags := x1\<rparr>) = cores m" "cores (m\<lparr>XrScacheTags := x2\<rparr>) = cores m"
  "cores (m\<lparr>XrScacheExclusiveIds := x3\<rparr>) = cores m" "cores (m\<lparr>XrScacheReplacementIndex := x4\<rparr>) = cores m"
  "cores (m\<lparr>LsicTab := x5\<rparr>) = cores m" "cores (m\<lparr>RamBoards := x6\<rparr>) = cores m" "cores (m\<lparr>PBoardRegisters := x7\<rparr>) = cores m"
  "cores (m\<lparr>NVRAM := x8\<rparr>) = cores m" "cores (m\<lparr>NVRAMDirty := x9\<rparr>) = cores m" "cores (m\<lparr>BootROM := x10\<rparr>) = cores m"
  "cores (m\<lparr>Rtc := x11\<rparr>) = cores m" "cores (m\<lparr>Amtsu := x12\<rparr>) = cores m" "cores (m\<lparr>SerialPorts := x13\<rparr>) = cores m"
  "cores (m\<lparr>Dks := x14\<rparr>) = cores m" "cores (m\<lparr>Kinnow := x15\<rparr>) = cores m" "cores (m\<lparr>Sched := x16\<rparr>) = cores m"
  "cores (m\<lparr>Crashed := x17\<rparr>) = cores m"
  by (simp_all add: cores_def fun_eq_iff)

lemma cores_if [simp]: "cores (if c then x else y) = (if c then cores x else cores y)"
  by simp

lemma cores_fold: "(\<And>x m. cores (f x m) = cores m) \<Longrightarrow> cores (fold f xs m) = cores m"
  by (induction xs arbitrary: m) simp_all

named_theorems cores "operations that keep the processors"

lemma cores_effects [simp, cores]:
  "cores (machine_interrupt n m) = cores m" "cores (schedule_for_me p w m) = cores m"
  "cores (XrDecrementProgress p ints m) = cores m" "cores (set_timeslice w t m) = cores m"
  "cores (set_port n port m) = cores m" "cores (set_device d dev m) = cores m" "cores (set_disk d disk m) = cores m"
  "cores (set_kinnow k m) = cores m" "cores (RTCReset m) = cores m" "cores (NVRAM_SET_RTCOFFSET off m) = cores m"
  by (auto simp: machine_interrupt_def schedule_for_me_def XrDecrementProgress_def set_timeslice_def set_port_def set_device_def
      set_disk_def set_kinnow_def RTCReset_def NVRAM_SET_RTCOFFSET_def Let_def cores_def core_def fun_eq_iff split: option.split)

subsection \<open>Serial ports\<close>

lemma cores_serial_input [simp]: "cores (SerialInput n c m) = cores m"
  by (simp add: SerialInput_def Let_def)

lemma cores_serial_put [simp]: "cores (SerialPutCharacter n c m) = cores m"
  by (auto simp: SerialPutCharacter_def Let_def cores_fold split: option.split)

lemma cores_serial_ports [simp]:
  "cores (SerialReset m) = cores m" "cores (snd (SerialWriteCMD port v p m)) = cores m"
  "cores (snd (snd (SerialReadCMD port p m))) = cores m" "cores (snd (SerialWriteData port v p m)) = cores m"
  "cores (snd (snd (SerialReadData port p m))) = cores m"
  by (simp_all add: SerialReset_def SerialWriteCMD_def SerialReadCMD_def SerialWriteData_def SerialReadData_def Let_def
      split: option.split list.split)

subsection \<open>Clock, keyboard and mouse\<close>

lemma cores_rtc_ports [simp]:
  "cores (snd (RTCWriteCMD port v p m)) = cores m" "cores (snd (snd (RTCReadCMD port p m))) = cores m"
  "cores (snd (RTCWritePortA port v p m)) = cores m" "cores (snd (snd (RTCReadPortA port p m))) = cores m"
  by (simp_all add: RTCWriteCMD_def RTCReadCMD_def RTCWritePortA_def RTCReadPortA_def Let_def)

lemma cores_keyboard [simp]:
  "cores (XrKeyboardReset d m) = cores m" "cores (MouseResetDevice d m) = cores m" "cores (XrKeyboardPop d p m) = cores m"
  by (simp_all add: XrKeyboardReset_def MouseResetDevice_def XrKeyboardPop_def Let_def split: option.split)

lemma cores_device_reset [simp]: "cores (device_reset d m) = cores m"
  by (simp add: device_reset_def Let_def split: AmtsuResetF.split)

lemma cores_amtsu_reset [simp]: "cores (AmtsuReset m) = cores m"
  by (simp add: AmtsuReset_def cores_fold)

lemma cores_device_action [simp]: "cores (snd (device_action d v p m)) = cores m"
  by (simp add: device_action_def XrAmtsuControllerAction_def XrKeyboardAction_def XrMouseAction_def Let_def
      split: AmtsuActionF.split)

lemma cores_amtsu_ports [simp]:
  "cores (snd (AmtsuWrite30 port v p m)) = cores m" "cores (snd (snd (AmtsuRead30 port p m))) = cores m"
  "cores (snd (AmtsuWriteMID port v p m)) = cores m" "cores (snd (snd (AmtsuReadMID port p m))) = cores m"
  "cores (snd (AmtsuWriteCMD port v p m)) = cores m" "cores (snd (snd (AmtsuReadCMD port p m))) = cores m"
  "cores (snd (AmtsuWritePortA port v p m)) = cores m" "cores (snd (snd (AmtsuReadPortA port p m))) = cores m"
  "cores (snd (AmtsuWritePortB port v p m)) = cores m" "cores (snd (snd (AmtsuReadPortB port p m))) = cores m"
  by (simp_all add: AmtsuWrite30_def AmtsuRead30_def AmtsuWriteMID_def AmtsuReadMID_def AmtsuWriteCMD_def AmtsuReadCMD_def
      AmtsuWritePortA_def AmtsuReadPortA_def AmtsuWritePortB_def AmtsuReadPortB_def)

section \<open>The contract of a table of ports\<close>

lemma cores_board [simp]:
  "cores (DKSReset m) = cores m" "cores (EBusReset m) = cores m" "cores (snd (KinnowWrite a src n m)) = cores m"
  "cores (snd (snd (KinnowRead a n m))) = cores m"
  by (simp_all add: DKSReset_def EBusReset_def PBoardReset_def KinnowWrite_def KinnowRead_def Let_def)

locale quiet_bus =
  fixes ports :: CitronTable
  assumes wr: "ports k = Some cp \<Longrightarrow> cores (snd (WritePort cp k v p m)) = cores m"
    and rd: "ports k = Some cp \<Longrightarrow> cores (snd (snd (ReadPort cp k p m))) = cores m"
begin

lemma pboard_write: "cores (snd (PBoardWrite ports a src n p m)) = cores m"
  by (simp add: PBoardWrite_def Let_def wr split: option.split prod.split)

lemma pboard_read: "cores (snd (snd (PBoardRead ports a n p m))) = cores m"
  using rd by (simp add: PBoardRead_def Let_def case_prod_beta split: option.split)

lemma bus_write: "cores (snd (EBusWrite ports a src n p m)) = cores m"
  by (simp add: EBusWrite_def Let_def pboard_write case_prod_beta)

lemma bus_read: "cores (snd (snd (EBusRead ports a n p m))) = cores m"
  by (simp add: EBusRead_def Let_def pboard_read case_prod_beta)

end

interpretation dma: quiet_bus dma_ports
  by unfold_locales (simp_all add: dma_ports_def)

subsection \<open>Disk controller\<close>

lemma cores_disk_ops [simp]:
  "cores (DKSInfo m) = cores m" "cores (dks_read_image d m) = cores m" "cores (dks_write_image d m) = cores m"
  "cores (DKSSeek d m) = cores m" "cores (dispatched type d m) = cores m"
  by (simp_all add: DKSInfo_def dks_read_image_def dks_write_image_def DKSSeek_def dispatched_def Let_def dma.bus_write
      dma.bus_read case_prod_beta)

lemma cores_complete [simp]: "cores (DKSCompleteTransfer d m) = cores m"
  by (simp add: DKSCompleteTransfer_def Let_def)

lemma cores_dispatch [simp]: "cores (snd (DKSDispatchIO type p m)) = cores m"
  by (simp add: DKSDispatchIO_def Let_def split: option.split)

lemma cores_dks_write [simp]: "cores (snd (DKSWriteCMD st port v p m)) = cores m"
  by (simp add: DKSWriteCMD_def Let_def)

lemma cores_dks_ports [simp]:
  "cores (snd (snd (DKSReadCMD port p m))) = cores m"
  "cores (snd (DKSWritePortA port v p m)) = cores m" "cores (snd (snd (DKSReadPortA port p m))) = cores m"
  "cores (snd (DKSWritePortB port v p m)) = cores m" "cores (snd (snd (DKSReadPortB port p m))) = cores m"
  by (simp_all add: DKSReadCMD_def DKSWritePortA_def DKSReadPortA_def DKSWritePortB_def DKSReadPortB_def)
    (simp add: cores_def core_def fun_eq_iff)

interpretation machine: quiet_bus "CitronPorts st" for st
  by unfold_locales (auto simp: CitronPorts_def AmtsuPortsInit_def RTCPortsInit_def DKSPortsInit_def SerialPortsInit_def
      split: if_splits)

section \<open>The architectural state\<close>

text \<open>A processor without its caches, the lookup hints and the polling counters.\<close>

type_synonym XrArch = "((nat \<Rightarrow> u64) \<times> (nat \<Rightarrow> u64) \<times> XrIblockCache \<times> (nat \<Rightarrow> u32) \<times> (nat \<Rightarrow> u32) \<times> u32) \<times>
  (u8 \<times> nat \<times> u32 \<times> u32 \<times> u32 \<times> u32 \<times> u8) \<times> bool \<times> bool \<times> bool \<times> bool \<times> bool \<times> bool"

definition arch :: "XrProcessor \<Rightarrow> XrArch" where
  "arch proc = ((Itb proc, Dtb proc, Ibc proc, Reg proc, Cr proc, Pc proc),
     (Dispatches proc, ProcId proc, CyclesDone proc, CyclesGoal proc, CyclesThisRound proc, TimerInterruptCounter proc,
      NmiMaskCounter proc),
     Locked proc, LastTbMissWasWrite proc, UserBreak proc, Halted proc, Running proc, NoMore proc)"

definition archs :: "Machine \<Rightarrow> nat \<Rightarrow> XrArch" where
  "archs m q = arch (XrProcessorTable m q)"

lemma arch_fields:
  assumes "arch a = arch b"
  shows "Ibc a = Ibc b" "Reg a = Reg b" "Cr a = Cr b" "Pc a = Pc b" "CyclesDone a = CyclesDone b" "CyclesGoal a = CyclesGoal b"
    "Dispatches a = Dispatches b" "ProcId a = ProcId b" "Halted a = Halted b" "Locked a = Locked b"
  using assms by (simp_all add: arch_def)

lemma arch_of_core: "arch (core a) = arch a"
  by (simp add: arch_def core_def)

lemma arch_core: "core a = core b \<Longrightarrow> arch a = arch b"
  by (metis arch_of_core)

lemma cores_archs: "cores m' = cores m \<Longrightarrow> archs m' = archs m"
  unfolding fun_eq_iff cores_def archs_def prod.inject by (blast intro: arch_core)

lemma archs_same:
  assumes "archs m' = archs m"
  shows "arch (XrProcessorTable m' q) = arch (XrProcessorTable m q)"
  using assms unfolding fun_eq_iff archs_def by blast

lemma archs_upd_proc: "archs (upd_proc p f m) = (archs m)(p := arch (f (XrProcessorTable m p)))"
  by (simp add: archs_def upd_proc_def fun_eq_iff)

lemma archs_keep: "arch (f (XrProcessorTable m p)) = arch (XrProcessorTable m p) \<Longrightarrow> archs (upd_proc p f m) = archs m"
  by (simp add: archs_def upd_proc_def fun_eq_iff)

lemma archs_upd [simp]:
  "archs (m\<lparr>XrScacheFlags := x1\<rparr>) = archs m" "archs (m\<lparr>XrScacheTags := x2\<rparr>) = archs m"
  "archs (m\<lparr>XrScacheExclusiveIds := x3\<rparr>) = archs m" "archs (m\<lparr>XrScacheReplacementIndex := x4\<rparr>) = archs m"
  "archs (m\<lparr>LsicTab := x5\<rparr>) = archs m" "archs (m\<lparr>Rtc := x11\<rparr>) = archs m" "archs (m\<lparr>Sched := x16\<rparr>) = archs m"
  "archs (m\<lparr>Crashed := x17\<rparr>) = archs m"
  by (simp_all add: archs_def fun_eq_iff)

lemma archs_if [simp]: "archs (if c then x else y) = (if c then archs x else archs y)"
  by simp

lemma archs_fold: "(\<And>x m. archs (f x m) = archs m) \<Longrightarrow> archs (fold f xs m) = archs m"
  by (induction xs arbitrary: m) simp_all

text \<open>What even an exception leaves alone.\<close>

definition ctl :: "XrProcessor \<Rightarrow> XrIblockCache \<times> u32 \<times> u32 \<times> nat" where
  "ctl proc = (Ibc proc, CyclesDone proc, CyclesGoal proc, ProcId proc)"

lemma ctl_arch: "arch a = arch b \<Longrightarrow> ctl a = ctl b"
  by (simp add: ctl_def arch_def)

text \<open>An exception keeps this much, and the register that stands for zero.\<close>

definition excepts :: "XrProcessor \<Rightarrow> XrProcessor \<Rightarrow> bool" where
  "excepts proc proc' \<longleftrightarrow> ctl proc' = ctl proc \<and>
     (Reg proc XR_FAKE_ZERO_REGISTER = 0 \<longrightarrow> Reg proc' XR_FAKE_ZERO_REGISTER = 0)"

lemma excepts_refl [simp]: "excepts proc proc"
  by (simp add: excepts_def)

lemma excepts_trans: "excepts a b \<Longrightarrow> excepts b c \<Longrightarrow> excepts a c"
  by (simp add: excepts_def)

lemma excepts_arch: "arch a = arch b \<Longrightarrow> excepts a b"
  by (simp add: excepts_def ctl_def arch_def)

lemma excepts_step [simp]:
  "excepts a b \<Longrightarrow> excepts a (XrReset b)" "excepts a b \<Longrightarrow> excepts a (XrPushMode b)"
  "excepts a b \<Longrightarrow> excepts a (XrSetEcause b exc)" "excepts a b \<Longrightarrow> excepts a (b\<lparr>Cr := cr\<rparr>)"
  "excepts a b \<Longrightarrow> excepts a (b\<lparr>DcFlags := x\<rparr>)" "excepts a b \<Longrightarrow> excepts a (b\<lparr>IcFlags := x\<rparr>)"
  "excepts a b \<Longrightarrow> excepts a (b\<lparr>LastTbMissWasWrite := w\<rparr>)"
  by (simp_all add: excepts_def ctl_def XrReset_def XrPushMode_def XrSetEcause_def)

lemma excepts_vector [simp]: "excepts a b \<Longrightarrow> excepts a (XrVectorException b exc)"
proof (cases "Cr b EB = 0")
  case False
  then show "excepts a b \<Longrightarrow> ?thesis" by (simp add: excepts_def ctl_def XrVectorException_def Let_def)
qed (simp add: XrVectorException_def)

lemma excepts_basic [simp]: "excepts a b \<Longrightarrow> excepts a (XrBasicException b exc pc)"
  by (simp add: XrBasicException_def Let_def)

section \<open>Cache operations\<close>

lemma arch_cache [simp]:
  "arch (proc\<lparr>Dc := x1\<rparr>) = arch proc" "arch (proc\<lparr>DcTags := x2\<rparr>) = arch proc" "arch (proc\<lparr>DcFlags := x3\<rparr>) = arch proc"
  "arch (proc\<lparr>Ic := x4\<rparr>) = arch proc" "arch (proc\<lparr>IcTags := x5\<rparr>) = arch proc" "arch (proc\<lparr>IcFlags := x6\<rparr>) = arch proc"
  "arch (proc\<lparr>WbIndices := x7\<rparr>) = arch proc" "arch (proc\<lparr>DcIndexToWbIndex := x8\<rparr>) = arch proc"
  "arch (proc\<lparr>WbCycles := x9\<rparr>) = arch proc" "arch (proc\<lparr>DcReplacementIndex := x10\<rparr>) = arch proc"
  "arch (proc\<lparr>IcReplacementIndex := x11\<rparr>) = arch proc" "arch (proc\<lparr>ItbLastVpn := x12\<rparr>) = arch proc"
  "arch (proc\<lparr>ItbLastResult := x13\<rparr>) = arch proc" "arch (proc\<lparr>DtbLastVpn := x14\<rparr>) = arch proc"
  "arch (proc\<lparr>DtbLastResult := x15\<rparr>) = arch proc" "arch (proc\<lparr>PauseCalls := x16\<rparr>) = arch proc"
  "arch (proc\<lparr>Progress := x17\<rparr>) = arch proc"
  by (simp_all add: arch_def)

context quiet_bus
begin

lemma write_archs [simp]: "archs (snd (EBusWrite ports a src n p m)) = archs m"
  by (rule cores_archs) (rule bus_write)

lemma read_archs [simp]: "archs (snd (snd (EBusRead ports a n p m))) = archs m"
  by (rule cores_archs) (rule bus_read)

lemma wb_write_out_archs [simp]: "archs (wb_write_out ports p w i m) = archs m"
  by (simp add: wb_write_out_def Let_def archs_keep)

lemma flush_archs [simp]: "archs (XrFlushWriteBuffer ports p m) = archs m"
  by (simp add: XrFlushWriteBuffer_def archs_fold Let_def)

lemma downgrade_archs [simp]: "archs (XrDowngradeLine ports q tag s m) = archs m"
  by (simp add: XrDowngradeLine_def Let_def archs_keep split: option.split)

lemma downgrade_all_archs [simp]: "archs (XrDowngradeAll ports p tag s m) = archs m"
  by (simp add: XrDowngradeAll_def archs_fold)

lemma sc_reclaim_archs [simp]: "archs (sc_reclaim ports i m) = archs m"
  by (simp add: sc_reclaim_def Let_def)

lemma set_scache_archs [simp]: "archs (set_scache i s t own m) = archs m"
  by (simp add: set_scache_def)

lemma find_or_replace_archs [simp]: "archs (snd (snd (XrFindOrReplaceInScache ports p tag s m))) = archs m"
  by (simp add: XrFindOrReplaceInScache_def Let_def split: option.split)

lemma merge_archs [simp]: "archs (dc_merge p off v n m) = archs m" "archs (dc_own p w i m) = archs m"
  by (simp_all add: dc_merge_def dc_own_def archs_keep)

lemma upgrade_archs [simp]: "archs (snd (snd (dc_upgrade ports p tag i w off v n m))) = archs m"
  by (simp add: dc_upgrade_def Let_def archs_keep split: option.split)

lemma miss_scache_archs [simp]: "archs (snd (dc_miss_scache ports p tag writing m)) = archs m"
  by (simp add: dc_miss_scache_def Let_def case_prod_beta)

lemma evict_archs [simp]: "archs (dc_evict ports p i m) = archs m"
  by (simp add: dc_evict_def Let_def archs_keep)

lemma fill_archs [simp]: "archs (snd (dc_fill ports p tag i writing m)) = archs m"
  by (simp add: dc_fill_def Let_def case_prod_beta archs_keep)

end

section \<open>An access returns\<close>

text \<open>An exception of processor \<open>p\<close> leaves the other processors and the block caches alone.\<close>

definition faulted :: "nat \<Rightarrow> Machine \<Rightarrow> Machine \<Rightarrow> bool" where
  "faulted p m m' \<longleftrightarrow> excepts (XrProcessorTable m p) (XrProcessorTable m' p) \<and> (\<forall>q. q \<noteq> p \<longrightarrow> archs m' q = archs m q)"

definition access_kept :: "nat \<Rightarrow> Machine \<Rightarrow> XrAccessResult \<Rightarrow> bool" where
  "access_kept p m r \<longleftrightarrow> (case r of (st, d, m') \<Rightarrow> if st = 0 then faulted p m m' else archs m' = archs m)"

lemma archs_excepts:
  assumes "archs m' = archs m"
  shows "excepts (XrProcessorTable m p) (XrProcessorTable m' p)"
  by (rule excepts_arch) (simp add: archs_same [OF assms])

lemma faulted_trans: "archs m1 = archs m \<Longrightarrow> faulted p m1 m2 \<Longrightarrow> faulted p m m2"
  unfolding faulted_def by (metis archs_excepts excepts_trans)

lemma faulted_upd: "excepts (XrProcessorTable m p) (f (XrProcessorTable m p)) \<Longrightarrow> faulted p m (upd_proc p f m)"
  by (simp add: faulted_def archs_upd_proc) (simp add: upd_proc_def)

lemma faultedI:
  "archs m1 = archs m \<Longrightarrow> excepts (XrProcessorTable m1 p) (f (XrProcessorTable m1 p)) \<Longrightarrow> faulted p m (upd_proc p f m1)"
  by (rule faulted_trans [of m1]) (simp_all add: faulted_upd)

lemma faulted_archs: "archs m' = archs m \<Longrightarrow> faulted p m m'"
  by (simp add: faulted_def archs_excepts)

lemma access_kept_simps [simp]:
  "access_kept p m (Suc st, d, m') \<longleftrightarrow> archs m' = archs m" "access_kept p m (0, d, m') \<longleftrightarrow> faulted p m m'"
  "access_kept p m (1, d, m') \<longleftrightarrow> archs m' = archs m" "access_kept p m (2, d, m') \<longleftrightarrow> archs m' = archs m"
  by (simp_all add: access_kept_def)

lemma access_kept_archs: "archs m1 = archs m \<Longrightarrow> access_kept p m1 r \<Longrightarrow> access_kept p m r"
  using faulted_trans [of m1 m p] by (auto simp: access_kept_def split: if_splits)

context quiet_bus
begin

lemma miss_kept: "access_kept p m (dc_miss ports p address writing w v n m)"
proof -
  obtain sc m1 where 1: "dc_miss_scache ports p (line_tag address) writing m = (sc, m1)" by force
  define m2 where "m2 = upd_proc p (\<lambda>proc. proc\<lparr>DcReplacementIndex := DcReplacementIndex proc + 1\<rparr>) m1"
  define i where "i = set_number address * 2 + unat (DcReplacementIndex (proc_of m1 p) AND 1)"
  obtain st m3 where 3: "dc_fill ports p (line_tag address) i writing (dc_evict ports p i m2) = (st, m3)" by force
  have "archs m3 = archs m"
    using fill_archs [of p "line_tag address" i writing "dc_evict ports p i m2"] miss_scache_archs [of p "line_tag address" writing m]
    by (simp add: 1 3) (simp add: m2_def archs_keep)
  then show ?thesis
    by (simp add: dc_miss_def Let_def 1 3 [unfolded m2_def i_def] i_def [symmetric] m2_def [symmetric] 3)
      (auto intro!: faultedI)
qed

lemma flush_empty: "i < XR_WB_DEPTH \<Longrightarrow> WbIndices (proc_of (XrFlushWriteBuffer ports p m) p) i = XR_CACHE_INDEX_INVALID"
proof -
  have wr: "WbIndices (proc_of (snd (EBusWrite ports a src n p m)) p) = WbIndices (proc_of m p)" for a src n m
    using fun_cong [OF bus_write [of a src n p m], of p] by (intro core_fields(8)) (simp add: cores_def)
  define f where "f i m = (let index = WbIndices (proc_of m p) i
      in if index \<noteq> XR_CACHE_INDEX_INVALID then wb_write_out ports p i index m else m)" for i m
  have f: "WbIndices (proc_of (f i m) p) = (WbIndices (proc_of m p))(i := XR_CACHE_INDEX_INVALID)" for i m
    by (auto simp: f_def Let_def wb_write_out_def upd_proc_def wr)
  have u: "[0..<4] = [0, 1, 2, 3::nat]" by (simp add: upt_rec)
  have "XrFlushWriteBuffer ports p m = fold f [0..<4] m"
    unfolding XrFlushWriteBuffer_def f_def ..
  then have "XrFlushWriteBuffer ports p m = f 3 (f 2 (f 1 (f 0 m)))" unfolding u by simp
  then have "WbIndices (proc_of (XrFlushWriteBuffer ports p m) p) = (WbIndices (proc_of m p))
      (0 := XR_CACHE_INDEX_INVALID, 1 := XR_CACHE_INDEX_INVALID, 2 := XR_CACHE_INDEX_INVALID, 3 := XR_CACHE_INDEX_INVALID)"
    by (simp only: f)
  then show "i < XR_WB_DEPTH \<Longrightarrow> ?thesis" by (auto simp: less_4_cases)
qed

lemma flush_scan: "wb_scan (proc_of (XrFlushWriteBuffer ports p m) p) tag [0..<XR_WB_DEPTH] None = WbFree 3"
  by (simp add: upt_rec flush_empty)

lemma dcache_scanned:
  assumes "writing \<Longrightarrow> wb_scan (proc_of m p) (line_tag address) [0..<XR_WB_DEPTH] None \<noteq> WbFull"
  shows "\<exists>r. XrDcacheAccess ports p address writing v n sc m = Some r \<and> access_kept p m r"
proof -
  define scan where "scan = (if writing then wb_scan (proc_of m p) (line_tag address) [0..<XR_WB_DEPTH] None else WbFree 0)"
  have "scan \<noteq> WbFull" using assms by (simp add: scan_def)
  note step = XrDcacheAccess.simps [of ports p address writing v n sc m, unfolded Let_def, folded scan_def]
  show ?thesis
  proof (cases scan)
    case (WbHit i)
    then show ?thesis unfolding step by simp
  next
    case (WbFree w)
    define m1 where "m1 = (if writing \<and> WbCycles (proc_of m p) = 0 then upd_proc p (\<lambda>proc. proc\<lparr>WbCycles := 3\<rparr>) m else m)"
    have m1: "archs m1 = archs m" by (simp add: m1_def archs_keep)
    note k = access_kept_archs [OF m1]
    let ?find = "List.find (\<lambda>i. DcFlags (proc_of m1 p) (set_number address * 2 + i) \<noteq> 0 \<and>
      DcTags (proc_of m1 p) (set_number address * 2 + i) = line_tag address) [0, 1]"
    show ?thesis
    proof (cases ?find)
      case None
      have "access_kept p m (dc_miss ports p address writing w v n m1)" by (rule k) (rule miss_kept)
      moreover have "access_kept p m (2, None, m1)" using m1 by simp
      ultimately show ?thesis unfolding step WbFree WbScan.case m1_def [symmetric] None option.case by (cases sc) simp_all
    next
      case (Some i)
      let ?u = "dc_upgrade ports p (line_tag address) (set_number address * 2 + i) w (unat (address AND 15)) v n m1"
      have u: "access_kept p m ?u" using upgrade_archs [of p "line_tag address" "set_number address * 2 + i" w "unat (address AND 15)" v n m1] m1
        by (auto simp: access_kept_def case_prod_beta intro: faulted_archs)
      have "DcFlags (proc_of m1 p) (set_number address * 2 + i) \<noteq> 0" using Some by (auto split: if_splits)
      then show ?thesis unfolding step WbFree WbScan.case m1_def [symmetric] Some option.case using u m1 by (cases ?u) auto
    qed
  qed (use \<open>scan \<noteq> WbFull\<close> in simp)
qed

lemma dcache_returns: "\<exists>r. XrDcacheAccess ports p address writing v n sc m = Some r \<and> access_kept p m r"
proof (cases "writing \<and> wb_scan (proc_of m p) (line_tag address) [0..<XR_WB_DEPTH] None = WbFull")
  case True
  then have "XrDcacheAccess ports p address writing v n sc m =
      XrDcacheAccess ports p address writing v n sc (XrFlushWriteBuffer ports p m)"
    by (subst XrDcacheAccess.simps) (simp add: Let_def)
  then show ?thesis
    using dcache_scanned [of writing "XrFlushWriteBuffer ports p m" p address v n sc] flush_scan
      access_kept_archs [OF flush_archs] by auto
qed (intro dcache_scanned, simp)

end

lemma excepts_translate:
  assumes "XrTranslate proc virtual writing ifetch = (r, proc')"
  shows "excepts proc proc'"
proof -
  have tb: "excepts proc (snd (tb_entry proc virtual writing ifetch))"
    by (simp add: tb_entry_def XrLookupItb_def XrLookupDtb_def tb_miss_enter_def Let_def split: option.split)
  have pf: "excepts a (page_fault q virtual writing)" if "excepts a q" for a q
    using that by (simp add: page_fault_def Let_def)
  have hint: "excepts a (q\<lparr>ItbLastVpn := v, ItbLastResult := w\<rparr>)" "excepts a (q\<lparr>DtbLastVpn := v, DtbLastResult := x\<rparr>)"
    if "excepts a q" for a q v w x
    using that by (simp_all add: excepts_def ctl_def)
  show ?thesis
    using assms tb by (auto simp: XrTranslate_def pf hint split: prod.splits option.splits if_splits)
qed

lemma arch_translate:
  assumes "XrTranslate proc virtual writing ifetch = (Some r, proc')"
  shows "arch proc' = arch proc"
proof -
  obtain e proc1 where 1: "tb_entry proc virtual writing ifetch = (Some e, proc1)"
    using assms by (cases "tb_entry proc virtual writing ifetch") (auto simp: XrTranslate_def split: option.splits)
  then have "proc1 = proc"
    by (auto simp: tb_entry_def XrLookupItb_def XrLookupDtb_def Let_def split: if_splits option.splits)
  then show ?thesis using assms 1 by (auto simp: XrTranslate_def split: if_splits)
qed

lemma archs_translate:
  "XrTranslate (proc_of m p) virtual writing ifetch = (Some r, proc') \<Longrightarrow> archs (upd_proc p (\<lambda>_. proc') m) = archs m"
  by (rule archs_keep) (rule arch_translate)

context quiet_bus
begin

lemma noncached_kept: "access_kept p m (XrNoncachedAccess ports p address writing old v n m)"
  by (simp add: XrNoncachedAccess_def Let_def case_prod_beta faultedI)

lemma access_returns: "\<exists>r. XrAccess ports p address writing old v n sc m = Some r \<and> access_kept p m r"
proof -
  have fault: "access_kept p m (0, None, access_fault p a exc m')" if "archs m' = archs m" for a exc m'
    using that by (simp add: access_fault_def faultedI)
  have cont: "\<exists>r. (if flags AND 8 \<noteq> 0 then
        if sc then Some (0, None, access_fault p a XR_EXC_BUS m1)
        else let (status, dest, m) = XrNoncachedAccess ports p a writing old v n m1
             in if status = 0 then Some (0, None, m) else Some (1, map_option (\<lambda>d. d AND XrAccessMasks n) dest, m)
      else XrDcacheAccess ports p a writing v n sc m1) = Some r \<and> access_kept p m r"
    if m1: "archs m1 = archs m" for a m1 and flags :: u32
  proof -
    obtain st d m2 where n: "XrNoncachedAccess ports p a writing old v n m1 = (st, d, m2)" using prod_cases3 by blast
    have nk: "access_kept p m (st, d, m2)"
      using access_kept_archs [OF m1 noncached_kept [of p m1 a writing old v n]] by (simp only: n)
    obtain r where r: "XrDcacheAccess ports p a writing v n sc m1 = Some r" "access_kept p m r"
      using dcache_returns [of p a writing v n sc m1] m1 access_kept_archs by blast
    show ?thesis
    proof (cases "flags AND 8 = 0")
      case True
      then show ?thesis using r by simp
    next
      case False
      then show ?thesis using nk fault [OF m1] by (cases "st = 0") (auto simp: n access_kept_def)
    qed
  qed
  show ?thesis
  proof (cases "address AND (of_nat n - 1) \<noteq> 0")
    case True
    then show ?thesis using fault [of m] by (simp add: XrAccess_def)
  next
    case al: False
    show ?thesis
    proof (cases "Cr (proc_of m p) RS AND RS_MMU \<noteq> 0")
      case True
      obtain r proc' where t: "XrTranslate (proc_of m p) address writing False = (r, proc')" by force
      show ?thesis
      proof (cases r)
        case None
        then show ?thesis using t excepts_translate [OF t] by (simp add: XrAccess_def al True faulted_upd)
      next
        case (Some af)
        then show ?thesis
          using t cont [of "upd_proc p (\<lambda>_. proc') m" "snd af" "fst af"] archs_translate [of m p address writing False af proc']
          by (simp add: XrAccess_def al True case_prod_beta)
      qed
    next
      case False
      then show ?thesis
        using cont [of m 8 address] cont [of m 0 address] unfolding XrAccess_def Let_def by (simp add: al)
    qed
  qed
qed

end

end
