(* ===== verification/DecodeInv.thy ===== *)
theory DecodeInv
  imports Execute
begin

text \<open>
  What the decoder writes. A decode routine fills one slot, or a virtual shift and the slot after it,
  and leaves the earlier slots alone; it ends the block exactly at the instructions that leave it.
  The decode loop therefore always closes the block inside its 34 slots. The operands it writes are
  well typed: sources are among the 34 registers of the array, destinations among the 32 of the
  architecture, so that the fake zero register is never a destination.
\<close>

section \<open>Operands\<close>

abbreviation (input) "dest i \<equiv> unat (Imm8_1 i) < 32"
abbreviation (input) "src_d i \<equiv> unat (Imm8_1 i) \<le> XR_FAKE_ZERO_REGISTER"
abbreviation (input) "src_a i \<equiv> unat (Imm8_2 i) \<le> XR_FAKE_ZERO_REGISTER"
abbreviation (input) "src_b i \<equiv> unat (Imm32_1 i) \<le> XR_FAKE_SHIFT_SINK"

fun mem_typed :: "XrMemFunc \<Rightarrow> XrCachedInst \<Rightarrow> bool" where
  "mem_typed f i =
    (if f \<in> {ExecuteLoadLongRegOffset, ExecuteLoadIntRegOffset, ExecuteLoadByteRegOffset, ExecuteSC}
     then dest i \<and> src_a i \<and> src_b i
     else if f \<in> {ExecuteLoadLongImmOffset, ExecuteLoadIntImmOffset, ExecuteLoadByteImmOffset, ExecuteLL} then dest i \<and> src_a i
     else if f \<in> {ExecuteStoreLongRegOffset, ExecuteStoreIntRegOffset, ExecuteStoreByteRegOffset}
     then src_d i \<and> src_a i \<and> src_b i
     else src_d i \<and> src_a i)"

fun typed :: "XrFunc \<Rightarrow> XrCachedInst \<Rightarrow> bool" where
  "typed (FReg f) i = (dest i \<and> src_a i \<and> src_b i)"
| "typed (FImm f) i = (dest i \<and> (f \<noteq> ExecuteAdr \<longrightarrow> src_a i))"
| "typed (FMem f) i = mem_typed f i"
| "typed (FFlow f) i =
    (if f = ExecuteJalr then dest i \<and> src_a i
     else f \<notin> {ExecuteB, ExecuteJ, ExecuteJal, SpecialLinkageInstruction} \<longrightarrow> src_d i)"
| "typed (FSys f) i =
    (if f = ExecuteMtcr then src_d i \<and> unat (Imm8_2 i) < 32
     else if f = ExecuteMfcr then dest i \<and> unat (Imm8_2 i) < 32
     else is_virtual (FSys f) \<longrightarrow> src_d i \<and> unat (Imm8_2 i) < 32)"

definition well_typed :: "XrCachedInst \<Rightarrow> bool" where
  "well_typed i \<longleftrightarrow> typed (Func i) i"

lemma field_bound: "unat (x AND 31 :: u32) < 32"
proof -
  have "(31 :: u32) = mask 5" by (simp add: mask_eq_exp_minus_1)
  then have "unat (x AND 31) = unat x mod 32" by (simp only: unat_and_mask) simp
  then show ?thesis by simp
qed

lemma field_u8 [simp]: "unat (ucast (x AND 31 :: u32) :: u8) < 32"
  using field_bound [of x] by (simp add: unat_ucast_mod)

lemma redirect_bound: "unat (XR_REDIRECT_ZERO_SRC proc (x AND 31)) \<le> 32"
  using field_bound [of x] by (simp add: XR_REDIRECT_ZERO_SRC_def)

lemma redirect_u8 [simp]: "unat (ucast (XR_REDIRECT_ZERO_SRC proc (x AND 31)) :: u8) \<le> 32"
  using redirect_bound [of proc x] by (simp add: unat_ucast_mod)

lemma field_le [simp]: "unat (ucast (x AND 31 :: u32) :: u8) \<le> 32" "unat (XR_REDIRECT_ZERO_SRC proc (x AND 31)) \<le> 33"
  using field_u8 [of x] redirect_bound [of proc x] by linarith+

section \<open>One instruction\<close>

definition closes :: "XrCachedInst \<Rightarrow> bool" where
  "closes i \<longleftrightarrow> well_typed i \<and> ends_block (Func i) \<and> Func i \<noteq> FFlow SpecialLinkageInstruction"

definition opens :: "XrCachedInst \<Rightarrow> bool" where
  "opens i \<longleftrightarrow> well_typed i \<and> \<not> ends_block (Func i) \<and> \<not> is_virtual (Func i)"

text \<open>What a decode routine returns that is given slot \<open>k\<close> of \<open>insts\<close>.\<close>

definition decoded :: "(nat \<Rightarrow> XrCachedInst) \<Rightarrow> nat \<Rightarrow> nat option \<times> (nat \<Rightarrow> XrCachedInst) \<Rightarrow> bool" where
  "decoded insts k r \<longleftrightarrow> (\<forall>j < k. snd r j = insts j) \<and>
     (case fst r of
        None \<Rightarrow> closes (snd r k)
      | Some next \<Rightarrow> next = k + 1 \<and> opens (snd r k) \<or>
          next = k + 2 \<and> is_virtual (Func (snd r k)) \<and> well_typed (snd r k) \<and> opens (snd r (k + 1)))"

lemma decoded_None [simp]: "decoded insts k (None, insts(k := i)) \<longleftrightarrow> closes i"
  by (simp add: decoded_def)

lemma decoded_Some [simp]: "decoded insts k (Some (Suc k), insts(k := i)) \<longleftrightarrow> opens i"
  by (simp add: decoded_def)

lemma two_bits: "unat (x AND 3 :: u32) < 4"
proof -
  have "(3 :: u32) = mask 2" by (simp add: mask_eq_exp_minus_1)
  then have "unat (x AND 3) = unat x mod 4" by (simp only: unat_and_mask) simp
  then show ?thesis by simp
qed

lemma virtual_shift:
  "is_virtual (XrVirtualShiftInstructionTable (unat (x AND 3 :: u32)))"
  "\<exists>f. XrVirtualShiftInstructionTable (unat (x AND 3)) = FSys f \<and> f \<noteq> ExecuteMtcr \<and> f \<noteq> ExecuteMfcr"
  using two_bits [of x] by (auto simp: less_4_cases XrVirtualShiftInstructionTable_def is_virtual_def)

lemma shift_well_typed:
  "well_typed (i\<lparr>Func := XrVirtualShiftInstructionTable (unat (x AND 3 :: u32)),
     Imm8_1 := ucast (XR_REDIRECT_ZERO_SRC proc (y AND 31)), Imm8_2 := ucast (z AND 31 :: u32)\<rparr>)"
  using virtual_shift(2) [of x] by (auto simp: well_typed_def)

lemma decoded_shifted:
  assumes "\<And>rb. unat rb \<le> 33 \<Longrightarrow> opens \<lparr>Func = f, Imm32_1 = rb, Imm8_1 = a, Imm8_2 = b\<rparr>"
  shows "decoded insts k
    (let (insts, k, rb) = XR_INSERT_SHIFT ir insts k (XR_REDIRECT_ZERO_SRC proc (x AND 31))
     in (Some (k + 1), insts(k := (insts k)\<lparr>Func := f, Imm8_1 := a, Imm8_2 := b, Imm32_1 := rb\<rparr>)))"
proof -
  have i: "opens (j\<lparr>Func := f, Imm8_1 := a, Imm8_2 := b, Imm32_1 := rb\<rparr>)" if "unat rb \<le> 33" for j rb
    using assms [OF that] by (cases j) simp
  show ?thesis
    using virtual_shift(1) [of "drop_bit 26 ir"] shift_well_typed i
    by (simp add: XR_INSERT_SHIFT_def decoded_def)
qed

lemmas shifted_defs = XrDecodeMod_def XrDecodeDivSigned_def XrDecodeDiv_def XrDecodeMul_def XrDecodeNor_def XrDecodeOr_def
  XrDecodeXor_def XrDecodeAnd_def XrDecodeSltSigned_def XrDecodeSlt_def XrDecodeSub_def XrDecodeAdd_def
  XrDecodeStoreLongRegOffset_def XrDecodeStoreIntRegOffset_def XrDecodeStoreByteRegOffset_def
  XrDecodeLoadLongRegOffset_def XrDecodeLoadIntRegOffset_def XrDecodeLoadByteRegOffset_def

lemma decode_shifted:
  "d \<in> {XrDecodeMod, XrDecodeDivSigned, XrDecodeDiv, XrDecodeMul, XrDecodeNor, XrDecodeOr, XrDecodeXor, XrDecodeAnd,
     XrDecodeSltSigned, XrDecodeSlt, XrDecodeSub, XrDecodeAdd, XrDecodeStoreLongRegOffset, XrDecodeStoreIntRegOffset,
     XrDecodeStoreByteRegOffset, XrDecodeLoadLongRegOffset, XrDecodeLoadIntRegOffset, XrDecodeLoadByteRegOffset} \<Longrightarrow>
   decoded insts k (d proc insts k ir pc)"
  by (auto simp only: insert_iff empty_iff shifted_defs; (rule decoded_shifted, simp add: opens_def well_typed_def is_virtual_def))

lemma shift_function: "\<exists>f. XrRegShiftFunctionTable (unat (x AND 3 :: u32)) = FReg f"
  by (simp add: XrRegShiftFunctionTable_def)

lemma opens_rules [simp]:
  "opens (i\<lparr>Func := FReg f, Imm8_1 := a, Imm8_2 := b, Imm32_1 := c\<rparr>) \<longleftrightarrow> unat a < 32 \<and> unat b \<le> 32 \<and> unat c \<le> 33"
  by (auto simp: opens_def well_typed_def is_virtual_def)

lemma decode_reg_shifts: "decoded insts k (XrDecodeRegShifts proc insts k ir pc)"
  using shift_function [of "drop_bit 26 ir"] by (auto simp: XrDecodeRegShifts_def)

lemmas plain_defs = XrDecodeIllegalInstruction_def XrDecodeRfe_def XrDecodeHlt_def XrDecodeMtcr_def XrDecodeMfcr_def XrDecodeSys_def
  XrDecodeBrk_def XrDecodeWmb_def XrDecodeMb_def XrDecodePause_def XrDecodeSC_def XrDecodeLL_def XrDecodeLui_def XrDecodeBpo_def
  XrDecodeStoreLongImmOffsetImm_def XrDecodeOri_def XrDecodeBpe_def XrDecodeStoreIntImmOffsetImm_def XrDecodeXori_def
  XrDecodeBge_def XrDecodeStoreByteImmOffsetImm_def XrDecodeAndi_def XrDecodeBle_def XrDecodeSltiSigned_def XrDecodeBgt_def
  XrDecodeStoreLongImmOffsetReg_def XrDecodeLoadLongImmOffset_def XrDecodeSlti_def XrDecodeBlt_def
  XrDecodeStoreIntImmOffsetReg_def XrDecodeLoadIntImmOffset_def XrDecodeSubi_def XrDecodeBne_def XrDecodeJalr_def XrDecodeAdr_def
  XrDecodeStoreByteImmOffsetReg_def XrDecodeLoadByteImmOffset_def XrDecodeAddi_def XrDecodeJal_def XrDecodeJ_def

lemma decode_plain:
  "d \<in> {XrDecodeIllegalInstruction, XrDecodeRfe, XrDecodeHlt, XrDecodeMtcr, XrDecodeMfcr, XrDecodeSys, XrDecodeBrk, XrDecodeWmb,
     XrDecodeMb, XrDecodePause, XrDecodeSC, XrDecodeLL, XrDecodeLui, XrDecodeBpo, XrDecodeStoreLongImmOffsetImm, XrDecodeOri,
     XrDecodeBpe, XrDecodeStoreIntImmOffsetImm, XrDecodeXori, XrDecodeBge, XrDecodeStoreByteImmOffsetImm, XrDecodeAndi,
     XrDecodeBle, XrDecodeSltiSigned, XrDecodeBgt, XrDecodeStoreLongImmOffsetReg, XrDecodeLoadLongImmOffset, XrDecodeSlti,
     XrDecodeBlt, XrDecodeStoreIntImmOffsetReg, XrDecodeLoadIntImmOffset, XrDecodeSubi, XrDecodeBne, XrDecodeJalr, XrDecodeAdr,
     XrDecodeStoreByteImmOffsetReg, XrDecodeLoadByteImmOffset, XrDecodeAddi, XrDecodeJal, XrDecodeJ} \<Longrightarrow>
   decoded insts k (d proc insts k ir pc)"
  by (auto simp only: insert_iff empty_iff plain_defs; simp add: opens_def closes_def well_typed_def is_virtual_def)

lemma decode_beq: "decoded insts k (XrDecodeBeq proc insts k ir pc)"
  by (simp add: XrDecodeBeq_def Let_def closes_def well_typed_def)

lemma top_bits: "unat (drop_bit 28 (ir :: u32)) < 16"
proof -
  have "unat ir < 2 ^ 32" using unsigned_less [of ir] by simp
  then show ?thesis by (simp add: unat_drop_bit less_mult_imp_div_less)
qed

lemma decoded_if:
  "decoded insts k (d proc insts k ir pc) \<Longrightarrow> decoded insts k (e proc insts k ir pc) \<Longrightarrow>
   decoded insts k ((if c then d else e) proc insts k ir pc)"
  by simp

lemma decode_tables:
  "decoded insts k (XrDecode101001 proc insts k ir pc)" "decoded insts k (XrDecode110001 proc insts k ir pc)"
  "decoded insts k (XrDecode111001 proc insts k ir pc)"
proof -
  show "decoded insts k (XrDecode101001 proc insts k ir pc)"
    unfolding XrDecode101001_def XrDecodeFunctions101001_def by (intro decoded_if; rule decode_plain; simp)
  show "decoded insts k (XrDecode110001 proc insts k ir pc)"
    unfolding XrDecode110001_def XrDecodeFunctions110001_def
    by (intro decoded_if; (rule decode_plain, simp; fail | rule decode_shifted, simp))
  have "\<forall>n < 16. decoded insts k (XrDecodeFunctions111001 n proc insts k ir pc)"
    by (simp add: All_less_Suc numeral_eq_Suc XrDecodeFunctions111001_def decode_reg_shifts)
      (intro conjI; (rule decode_plain, simp; fail | rule decode_shifted, simp))
  then show "decoded insts k (XrDecode111001 proc insts k ir pc)"
    unfolding XrDecode111001_def using top_bits by blast
qed

text \<open>Every instruction word decodes to well-typed slots and says correctly whether the block goes on.\<close>

lemma decode_ok: "decoded insts k (XrDecodeLowThree n proc insts k ir pc)"
  unfolding XrDecodeLowThree_def XrDecodeMajor_def XrDecodeLowSix_def
  by (intro decoded_if decode_tables decode_beq; rule decode_plain; simp)

section \<open>A whole block\<close>

text \<open>
  The slots that a decoder has filled before it comes to slot \<open>k\<close>, and a closed block: its last
  slot \<open>e\<close> leaves the block, no earlier one does, and a virtual shift is followed by the instruction it belongs to.
\<close>

definition body :: "(nat \<Rightarrow> XrCachedInst) \<Rightarrow> nat \<Rightarrow> bool" where
  "body insts k \<longleftrightarrow> (\<forall>j < k. \<not> ends_block (Func (insts j)) \<and> well_typed (insts j))"

definition closed :: "(nat \<Rightarrow> XrCachedInst) \<Rightarrow> nat \<Rightarrow> bool" where
  "closed insts e \<longleftrightarrow> body insts e \<and> ends_block (Func (insts e)) \<and> well_typed (insts e)"

lemma body_decoded:
  assumes "decoded insts k (r, insts')" "body insts k"
  shows "case r of None \<Rightarrow> closed insts' k | Some next \<Rightarrow> body insts' next \<and> k < next \<and> next \<le> k + 2"
proof -
  have v: "is_virtual f \<Longrightarrow> \<not> ends_block f" for f by (auto simp: is_virtual_def)
  have *: "body insts' k" using assms by (auto simp: decoded_def body_def)
  show ?thesis
  proof (cases r)
    case None
    then show ?thesis using assms(1) * by (simp add: decoded_def closed_def closes_def)
  next
    case (Some nxt)
    then show ?thesis using assms(1) * v by (auto simp: decoded_def body_def opens_def less_Suc_eq)
  qed
qed

lemma link_closed:
  assumes "body insts k"
  shows "closed (link_block insts k) k"
  using assms by (auto simp: closed_def body_def link_block_def well_typed_def)

lemma decode_loop_closed:
  assumes "body insts k" "k < XR_IBLOCK_INSTS"
  shows "\<exists>e < 34. closed (fst (decode_loop proc ir n w insts k pc cycles)) e"
  using assms
proof (induction n arbitrary: w insts k pc cycles)
  case 0
  then show ?case using link_closed by (intro exI [of _ k]) simp
next
  case (Suc n)
  obtain r insts' where d: "XrDecodeLowThree (unat (ir w AND 7)) proc insts k (ir w) pc = (r, insts')" by force
  note b = body_decoded [OF decode_ok [of insts k "unat (ir w AND 7)" proc "ir w" pc, unfolded d] Suc.prems(1)]
  show ?case
  proof (cases r)
    case None
    then show ?thesis using b Suc.prems(2) by (intro exI [of _ k]) (simp add: d)
  next
    case (Some nxt)
    then have n: "body insts' nxt" "nxt \<le> k + 2" using b by simp_all
    show ?thesis
    proof (cases "nxt \<ge> 32")
      case True
      then show ?thesis using link_closed [OF n(1)] n(2) Suc.prems(2) by (intro exI [of _ nxt]) (simp add: d Some)
    next
      case False
      then show ?thesis using Suc.IH [OF n(1)] by (simp add: d Some)
    qed
  qed
qed

lemma decode_loop_cycles:
  assumes "unat cycles + n < 256"
  shows "unat (snd (decode_loop proc ir n w insts k pc cycles)) \<le> unat cycles + n \<and>
    (0 < n \<longrightarrow> unat cycles < unat (snd (decode_loop proc ir n w insts k pc cycles)))"
  using assms
proof (induction n arbitrary: w insts k pc cycles)
  case (Suc n)
  have c: "unat (cycles + 1) = unat cycles + 1"
    using Suc.prems by (subst unat_add_lem [THEN iffD1]) simp_all
  obtain r insts' where d: "XrDecodeLowThree (unat (ir w AND 7)) proc insts k (ir w) pc = (r, insts')" by force
  show ?case
  proof (cases "\<exists>nxt. r = Some nxt \<and> nxt < 32")
    case True
    then obtain nxt where r: "r = Some nxt" "nxt < 32" by blast
    have "unat (cycles + 1) + n < 256" using Suc.prems by (simp add: c)
    from Suc.IH [OF this, of "w + 1" insts' nxt "pc + 4"] show ?thesis using r by (cases "n = 0") (simp_all add: d c)
  next
    case False
    then have "snd (decode_loop proc ir (Suc n) w insts k pc cycles) = cycles + 1" by (auto simp: d split: option.split)
    then show ?thesis by (simp add: c)
  qed
qed simp

lemma decode_loop_keeps:
  "j < k \<Longrightarrow> fst (decode_loop proc ir n w insts k pc cycles) j = insts j"
proof (induction n arbitrary: w insts k pc cycles)
  case (Suc n)
  obtain r insts' where d: "XrDecodeLowThree (unat (ir w AND 7)) proc insts k (ir w) pc = (r, insts')" by force
  note o = decode_ok [of insts k "unat (ir w AND 7)" proc "ir w" pc, unfolded d]
  then have j: "insts' j = insts j" using Suc.prems by (simp add: decoded_def)
  have "j < nxt" if "r = Some nxt" for nxt using o that Suc.prems by (auto simp: decoded_def)
  then show ?case using Suc.IH j by (auto simp: d link_block_def split: option.split)
qed (simp add: link_block_def)

lemma closed_end:
  assumes "closed (Insts ib) e" "e < 34"
  shows "block_end ib = Some e"
  using assms unfolding block_end_def by (intro find_upt_Some) (simp_all add: closed_def body_def)

section \<open>Properties\<close>

text \<open>
  Claim C8. Decoding is type-safe: whatever the instruction word, a decode routine leaves the earlier slots alone, fills one slot, or a
  virtual shift and the slot after it, with operands inside the register array and destinations among
  the architectural registers, and ends the block exactly at an instruction that leaves it.
\<close>

theorem decode_well_typed:
  "case XrDecodeLowThree (unat (ir AND 7)) proc insts k ir pc of (r, insts') \<Rightarrow>
     (\<forall>j < k. insts' j = insts j) \<and> well_typed (insts' k) \<and>
     (case r of
        None \<Rightarrow> ends_block (Func (insts' k))
      | Some next \<Rightarrow> \<not> ends_block (Func (insts' k)) \<and>
          (if is_virtual (Func (insts' k))
           then next = k + 2 \<and> well_typed (insts' (k + 1)) \<and> \<not> ends_block (Func (insts' (k + 1))) \<and> \<not> is_virtual (Func (insts' (k + 1)))
           else next = k + 1))"
proof -
  obtain r insts' where d: "XrDecodeLowThree (unat (ir AND 7)) proc insts k ir pc = (r, insts')" by force
  have v: "is_virtual f \<Longrightarrow> \<not> ends_block f" for f by (auto simp: is_virtual_def)
  show ?thesis
    using decode_ok [of insts k "unat (ir AND 7)" proc ir pc] v
    by (cases r) (auto simp: d decoded_def closes_def opens_def)
qed

theorem decode_well_typed_witness:
  "case XrDecodeLowThree (unat (0x00A3104C AND (7 :: u32))) proc_zero
      (\<lambda>_. \<lparr>Func = FFlow ExecuteB, Imm32_1 = 0, Imm8_1 = 0, Imm8_2 = 0\<rparr>) 1 0x00A3104C 0 of
    (r, insts') \<Rightarrow> Func (insts' 0) = FFlow ExecuteB \<and> well_typed (insts' 1)"
  using decode_well_typed [where ir = "0x00A3104C" and proc = proc_zero and k = 1 and pc = 0 and
    insts = "\<lambda>_. \<lparr>Func = FFlow ExecuteB, Imm32_1 = 0, Imm8_1 = 0, Imm8_2 = 0\<rparr>"]
  by (auto split: prod.splits)



end
