(* ===== verification/ExecuteInv.thy ===== *)
theory ExecuteInv
  imports Frame DecodeInv
begin

text \<open>
  The interpreter follows its block cache safely: whatever instructions the guest runs, the cache stays
  well formed, control moves only between slots of active blocks, along cached pointers too, and the
  program counter is the one the slot was decoded for. Every chain of tail calls ends, and no handler writes
  the register that stands for zero.
\<close>

section \<open>The invariant\<close>

definition block_ok :: "XrIblock \<Rightarrow> bool" where
  "block_ok ib \<longleftrightarrow> (\<exists>e < 34. closed (Insts ib) e) \<and> 0 < IbCycles ib \<and> IbCycles ib \<le> 32"

definition code_ok :: "XrIblockCache \<Rightarrow> bool" where
  "code_ok c \<longleftrightarrow> ibc_ok c \<and> (\<forall>b \<in> active c. block_ok (Iblocks c b))"

definition at_slot :: "XrProcessor \<Rightarrow> nat \<Rightarrow> nat \<Rightarrow> bool" where
  "at_slot proc b k \<longleftrightarrow> b \<in> active (Ibc proc) \<and>
     (\<exists>e. block_end (Iblocks (Ibc proc) b) = Some e \<and> k \<le> e) \<and> Pc proc = slot_pc (Iblocks (Ibc proc) b) k"

lemma code_okD:
  assumes "code_ok c" "b \<in> active c"
  obtains e where "closed (Insts (Iblocks c b)) e" "e < 34" "block_end (Iblocks c b) = Some e"
  using assms closed_end by (auto simp: code_ok_def block_ok_def)

lemma block_end_closed:
  assumes "code_ok c" "b \<in> active c" "block_end (Iblocks c b) = Some e"
  shows "closed (Insts (Iblocks c b)) e" "e < 34"
  using code_okD [OF assms(1,2)] assms(3) by auto

section \<open>Fetch\<close>

definition kept :: "nat \<Rightarrow> Machine \<Rightarrow> 'a option \<Rightarrow> Machine \<Rightarrow> bool" where
  "kept p m r m' \<longleftrightarrow> (if r = None then faulted p m m' else archs m' = archs m)"

context quiet_bus
begin

lemma icache_kept: "XrIcacheAccess ports p a m = (r, m') \<Longrightarrow> kept p m r m'"
proof -
  define i where "i = set_number a * 2 + unat (IcReplacementIndex (proc_of m p) AND 1)"
  define m1 where "m1 = upd_proc p (\<lambda>proc. proc\<lparr>IcReplacementIndex := IcReplacementIndex proc + 1\<rparr>) m"
  obtain st bs m2 where r: "EBusRead ports (line_tag a) 16 p m1 = (st, bs, m2)" using prod_cases3 by blast
  define m3 where "m3 = upd_proc p (\<lambda>proc. proc\<lparr>Ic := poke (Ic proc) (i * 16) bs\<rparr>) m2"
  have m3: "archs m3 = archs m"
    using read_archs [of "line_tag a" 16 p m1] by (simp add: r m3_def archs_keep) (simp add: m1_def archs_keep)
  have f: "faulted p m (upd_proc p (\<lambda>proc. XrBasicException (proc\<lparr>IcFlags := (IcFlags proc)(i := XR_LINE_INVALID),
      Cr := (Cr proc)(EBADADDR := a)\<rparr>) XR_EXC_BUS (Pc proc)) m3)"
    by (rule faultedI [OF m3]) simp
  have g: "archs (upd_proc p (\<lambda>proc. proc\<lparr>IcFlags := (IcFlags proc)(i := XR_LINE_SHARED), IcTags := (IcTags proc)(i := t)\<rparr>) m3) = archs m" for t
    by (simp add: archs_keep m3)
  show "XrIcacheAccess ports p a m = (r, m') \<Longrightarrow> ?thesis"
    unfolding XrIcacheAccess_def Let_def i_def [symmetric] m1_def [symmetric] r prod.case m3_def [symmetric]
    using f g by (auto simp: kept_def split: option.splits if_splits)
qed

lemma fetch_kept: "fetch_lines ports p n a ir m = (r, m') \<Longrightarrow> kept p m r m'"
proof (induction n arbitrary: a ir m)
  case (Suc n)
  obtain i m1 where i: "XrIcacheAccess ports p a m = (i, m1)" by force
  note k = icache_kept [OF i]
  show ?case
  proof (cases i)
    case None
    then show ?thesis using Suc.prems k by (auto simp: i kept_def)
  next
    case (Some j)
    then have "fetch_lines ports p n (a + 16) (ir @ peek (Ic (proc_of m1 p)) j 16) m1 = (r, m')"
      using Suc.prems by (simp add: i)
    from Suc.IH [OF this] show ?thesis using k Some faulted_trans [of m1 m p m'] by (auto simp: kept_def)
  qed
qed (auto simp: kept_def)

end

text \<open>What a block looks like to somebody who executes it while other blocks come and go.\<close>

definition stays :: "XrIblockCache \<Rightarrow> XrIblockCache \<Rightarrow> nat \<Rightarrow> bool" where
  "stays c c' d \<longleftrightarrow> d \<in> active c' \<and> Insts (Iblocks c' d) = Insts (Iblocks c d) \<and> IbPc (Iblocks c' d) = IbPc (Iblocks c d) \<and>
     IbCycles (Iblocks c' d) = IbCycles (Iblocks c d) \<and> HasPtable (Iblocks c' d) = HasPtable (Iblocks c d) \<and>
     ptable_of c' d = ptable_of c d"

definition fetched :: "nat \<Rightarrow> nat option \<Rightarrow> Machine \<Rightarrow> Machine \<Rightarrow> nat \<Rightarrow> bool" where
  "fetched p hazard m m' b \<longleftrightarrow>
     (let c = Ibc (proc_of m p); c' = Ibc (proc_of m' p)
      in code_ok c' \<and> b \<in> active c' \<and> IbPc (Iblocks c' b) = Pc (proc_of m p) \<and>
         archs m' = (archs m)(p := arch ((proc_of m p)\<lparr>Ibc := c'\<rparr>)) \<and>
         (\<forall>d \<in> active c. hazard = Some d \<longrightarrow> stays c c' d))"

lemma stays_refl: "d \<in> active c \<Longrightarrow> stays c c d"
  by (simp add: stays_def)

lemma new_block:
  assumes ok: "code_ok c" and n: "0 < n" "n \<le> 32"
  shows "\<exists>b c1. iblock_new hazard pc asid flags c = Some (b, c1) \<and>
    (\<forall>c'. c' = upd_iblock b (\<lambda>ib. ib\<lparr>Insts := fst (decode_loop proc ir n w (Insts (Iblocks c1 b)) 0 pc 0),
        IbCycles := snd (decode_loop proc ir n w (Insts (Iblocks c1 b)) 0 pc 0)\<rparr>) c1 \<longrightarrow>
       code_ok c' \<and> b \<in> active c' \<and> IbPc (Iblocks c' b) = pc \<and> (\<forall>d \<in> active c. hazard = Some d \<longrightarrow> stays c c' d) \<and>
       IbAsid (Iblocks c' b) = asid \<and> active c' \<subseteq> insert b (active c))"
proof -
  have "ibc_ok c" using ok by (simp add: code_ok_def)
  from iblock_new_ok [OF this, of hazard pc asid flags] obtain b c1 c0 where
    1: "iblock_new hazard pc asid flags c = Some (b, c1)" "ibc_ok c1" "shrinks c c0" "active c0 \<subseteq> active c"
      "\<forall>h \<in> active c. hazard = Some h \<longrightarrow> h \<in> active c0" "b \<notin> active c0" "active c1 = insert b (active c0)"
      "\<forall>b'. b' \<noteq> b \<longrightarrow> Iblocks c1 b' = Iblocks c0 b'" "IbPc (Iblocks c1 b) = pc" "\<not> HasPtable (Iblocks c1 b)" "IbAsid (Iblocks c1 b) = asid"
      "\<forall>k < XR_CACHED_PATH_MAX. CachedPaths (Iblocks c1 b) k = None" by blast
  let ?r = "decode_loop proc ir n w (Insts (Iblocks c1 b)) 0 pc 0"
  define c' where "c' = upd_iblock b (\<lambda>ib. ib\<lparr>Insts := fst ?r, IbCycles := snd ?r\<rparr>) c1"
  have f: "active c' = insert b (active c0)" "Iblocks c' b = (Iblocks c1 b)\<lparr>Insts := fst ?r, IbCycles := snd ?r\<rparr>"
      "\<And>d. d \<noteq> b \<Longrightarrow> Iblocks c' d = Iblocks c0 d" using 1(7,8) by (simp_all add: c'_def)
  have s: "Insts (Iblocks c0 d) = Insts (Iblocks c d)" "IbPc (Iblocks c0 d) = IbPc (Iblocks c d)"
      "IbCycles (Iblocks c0 d) = IbCycles (Iblocks c d)" "HasPtable (Iblocks c0 d) = HasPtable (Iblocks c d)"
      "ptable_of c0 d = ptable_of c d" for d
    using 1(3) by (simp_all add: shrinks_def)
  have ibc: "ibc_ok c'" unfolding c'_def by (rule fill_block_ok [OF 1(2,10,12)])
  have "\<exists>e < 34. closed (fst ?r) e" by (rule decode_loop_closed) (simp_all add: body_def)
  moreover have "unat (snd ?r) \<le> n" "0 < unat (snd ?r)"
    using decode_loop_cycles [of 0 n proc ir w "Insts (Iblocks c1 b)" 0 pc] n by simp_all
  then have "0 < snd ?r" "snd ?r \<le> 32" using n(2) by (simp_all add: word_less_nat_alt word_le_nat_alt)
  ultimately have "block_ok (Iblocks c' b)" unfolding f(2) block_ok_def by simp
  moreover have "block_ok (Iblocks c' d)" if "d \<in> active c0" for d
  proof -
    have "block_ok (Iblocks c d)" "d \<noteq> b" using that 1(4,6) ok by (auto simp: code_ok_def)
    then show ?thesis by (simp add: f(3) block_ok_def s)
  qed
  ultimately have "code_ok c'" using ibc by (simp add: code_ok_def f(1))
  moreover have "stays c c' d" if "d \<in> active c" "hazard = Some d" for d
  proof -
    have d: "d \<in> active c0" "d \<noteq> b" using 1(5,6) that by auto
    then have i: "Iblocks c' d = Iblocks c0 d" by (simp add: f)
    then have "ptable_of c' d = ptable_of c0 d" by (simp add: ptable_of_def)
    then show ?thesis using d s [of d] by (simp add: stays_def f(1) i)
  qed
  ultimately show ?thesis using 1(1,4,9,11) f by (intro exI [of _ b] exI [of _ c1]) (auto simp: c'_def)
qed

lemma arch_ibc: "arch a = arch b \<Longrightarrow> arch (a\<lparr>Ibc := c\<rparr>) = arch (b\<lparr>Ibc := c\<rparr>)"
  by (simp add: arch_def)

text \<open>The words fetched lie in the page of the program counter and fill the buffer at most.\<close>

lemma and_not_diff: "(x :: u32) AND NOT y = x - (x AND y)"
proof -
  have "x - (x AND y) = x AND NOT (x AND y)" by (rule disjunctive_diff) (simp add: bit_simps)
  also have "\<dots> = x AND NOT y" by (rule bit_word_eqI) (auto simp: bit_simps)
  finally show ?thesis by simp
qed

lemma of_nat_unat_eq: "of_nat (unat (x :: u32)) = x"
  by simp

lemma low_part:
  assumes "unat (page :: u32) mod 4096 = 0"
  shows "(page + of_nat k) AND 0xFFFFF000 = page + of_nat k - of_nat (k mod 4096)"
proof -
  have m: "(0xFFFFF000 :: u32) = NOT (mask 12)" by (simp add: mask_eq_exp_minus_1)
  have "unat (page + of_nat k) mod 4096 = (unat page + k) mod 2 ^ 32 mod 4096"
    by (simp add: unat_word_ariths unat_of_nat mod_add_right_eq)
  also have "\<dots> = (unat page + k) mod 4096" by (rule mod_mod_cancel) simp
  also have "\<dots> = k mod 4096" using assms by (metis add_0 mod_add_left_eq)
  finally have "unat ((page + of_nat k) AND mask 12) = k mod 4096" by (simp add: unat_and_mask)
  then have "(page + of_nat k) AND mask 12 = of_nat (k mod 4096)" by (metis of_nat_unat_eq)
  then show ?thesis unfolding m and_not_diff by (simp only:)
qed

lemma mod_page: "4096 \<le> x \<Longrightarrow> x < 8192 \<Longrightarrow> x = x mod 4096 + (4096 :: nat)"
  using mod_less [of "x - 4096" 4096] by (simp add: le_mod_geq)

lemma fetch_count_bounds:
  "unat (drop_bit 2 (pc - (pc AND NOT 15))) < fetch_count pc \<and> fetch_count pc \<le> 32"
proof -
  define o' where "o' = unat pc mod 4096"
  define page where "page = pc - of_nat o'"
  have o': "o' < 4096" by (simp add: o'_def)
  have "o' \<le> unat pc" by (simp add: o'_def)
  then have "unat page = unat pc - o'"
    by (simp add: page_def unat_sub_if' word_le_nat_alt unat_of_nat o'_def)
  then have page: "unat page mod 4096 = 0"
    by (simp add: o'_def minus_mod_eq_mult_div)
  have pc: "pc = page + of_nat o'" by (simp add: page_def)
  have "unat (pc AND 15) = unat pc mod 16"
  proof -
    have "(15 :: u32) = mask 4" by (simp add: mask_eq_exp_minus_1)
    then show ?thesis by (simp only: unat_and_mask) simp
  qed
  moreover have "unat pc mod 16 = o' mod 16" unfolding o'_def by (simp add: mod_mod_cancel)
  ultimately have low: "unat (pc AND 15) = o' mod 16" by simp
  then have f: "pc AND NOT 15 = page + of_nat (o' - o' mod 16)"
    unfolding and_not_diff by (metis (no_types, lifting) pc add_diff_eq mod_less_eq_dividend of_nat_diff of_nat_unat_eq)
  have i: "unat (drop_bit 2 (pc - (pc AND NOT 15))) < 4"
  proof -
    have "pc - (pc AND NOT 15) = pc AND 15" unfolding and_not_diff by simp
    then show ?thesis using two_bits by simp
  qed
  define k where "k = o' - o' mod 16"
  note f = f [folded k_def]
  have "k = 16 * (o' div 16)" by (simp add: k_def minus_mod_eq_mult_div)
  moreover have "o' div 16 < 256" using o' by (simp add: less_mult_imp_div_less)
  ultimately have fb: "k \<le> 4080" by linarith
  have pg: "pc AND 0xFFFFF000 = page" using low_part [OF page, of o'] o' by (simp add: pc [symmetric]) (simp add: page_def)
  have e: "page + of_nat k + 127 = page + of_nat (k + 127)" by (simp only: of_nat_add of_nat_numeral add.assoc)
  show ?thesis
  proof (cases "k + 127 < 4096")
    case True
    then have "(pc AND NOT 15) + 127 AND 0xFFFFF000 = page"
      unfolding f e low_part [OF page, of "k + 127"] by simp
    then show ?thesis using i by (simp add: fetch_count_def Let_def pg)
  next
    case False
    define r where "r = (k + 127) mod 4096"
    have "k + 127 = r + 4096" unfolding r_def by (rule mod_page) (use fb False in simp_all)
    then have "of_nat (k + 127) = (of_nat (r + 4096) :: u32)" by (simp only:)
    also have "\<dots> = of_nat r + 4096" by simp
    finally have "of_nat (k + 127) = (of_nat r + 4096 :: u32)" .
    then have "(pc AND NOT 15) + 127 AND 0xFFFFF000 = page + 4096"
      unfolding f e low_part [OF page, of "k + 127"] r_def [symmetric] by simp
    then have c: "fetch_count pc = unat (drop_bit 2 (((pc + 0x1000) AND 0xFFFFF000) - (pc AND NOT 15)))"
      by (simp add: fetch_count_def Let_def pg)
    have "(pc + 0x1000) AND 0xFFFFF000 = page + 0x1000"
      using low_part [OF page, of "o' + 4096"] o' by (simp add: pc [symmetric] add.assoc [symmetric]) (simp add: page_def)
    then have "((pc + 0x1000) AND 0xFFFFF000) - (pc AND NOT 15) = of_nat (4096 - k)"
      unfolding f using fb by (simp add: of_nat_diff)
    moreover have "unat (of_nat (4096 - k) :: u32) = 4096 - k" by (rule unat_of_nat_le) simp
    ultimately have "fetch_count pc = (4096 - k) div 4" by (simp only: c unat_drop_bit) simp
    then show ?thesis using i fb False by auto
  qed
qed

context quiet_bus
begin

lemma decode_kept:
  assumes d: "XrDecodeInstructions ports p hazard m = (r, m')" and ok: "code_ok (Ibc (proc_of m p))"
  shows "case r of None \<Rightarrow> faulted p m m' | Some b \<Rightarrow> fetched p hazard m m' b"
proof -
  define pc asid where "pc = Pc (proc_of m p)" and "asid = XR_CURRENT_ASID (proc_of m p)"
  define c where "c = Ibc (proc_of m p)"
  have okc: "code_ok c" "blocks_ok c" using ok by (simp_all add: c_def code_ok_def ibc_ok_def)
  note dd = d [unfolded XrDecodeInstructions_def Let_def, folded pc_def asid_def c_def]
  show ?thesis
  proof (cases "XrLookupIblock pc asid c")
    case (Some b)
    have b: "b \<in> active c" "IbPc (Iblocks c b) = pc"
      using lookup_cases [OF okc(2), of pc asid] Some by simp_all
    have "fetched p hazard m m b"
      using b okc(1) stays_refl by (simp add: fetched_def Let_def c_def [symmetric] pc_def [symmetric])
        (simp add: c_def archs_def fun_eq_iff)
    then show ?thesis using dd by (auto simp: Some faulted_upd split: if_splits)
  next
    case None
    define fpc where "fpc = pc AND NOT 15"
    define n w where "n = fetch_count pc" and "w = unat (drop_bit 2 (pc - fpc))"
    have nw: "w < n" "n \<le> 32" using fetch_count_bounds [of pc] by (simp_all add: n_def w_def fpc_def)
    define tr where "tr = (if Cr (proc_of m p) RS AND RS_MMU \<noteq> 0
      then case XrTranslate (proc_of m p) fpc False True of (r, proc) \<Rightarrow> (r, upd_proc p (\<lambda>_. proc) m)
      else (Some (fpc, 0), m))"
    obtain t m1 where t: "tr = (t, m1)" by force
    have k1: "kept p m t m1"
    proof (cases "Cr (proc_of m p) RS AND RS_MMU \<noteq> 0")
      case True
      obtain r' q where x: "XrTranslate (proc_of m p) fpc False True = (r', q)" by force
      then have e: "t = r'" "m1 = upd_proc p (\<lambda>_. q) m" using t True by (simp_all add: tr_def)
      show ?thesis
        using excepts_translate [OF x] archs_translate [of m p fpc False True _ q] x
        by (cases r') (auto simp: kept_def e faulted_upd)
    qed (use t in \<open>auto simp: tr_def kept_def\<close>)
    show ?thesis
    proof (cases t)
      case None
      then show ?thesis
        using dd k1 unfolding \<open>XrLookupIblock pc asid c = None\<close> option.case fpc_def [symmetric] tr_def [symmetric] t prod.case
        by (auto simp: kept_def)
    next
      case (Some tf)
      obtain fpc' flags where tf: "tf = (fpc', flags)" by force
      obtain ir m2 where ir: "fetch_lines ports p ((n + 3) div 4) fpc' [] m1 = (ir, m2)" by force
      note k2 = fetch_kept [OF ir]
      have m1: "archs m1 = archs m" using k1 Some by (simp add: kept_def)
      note d2 = dd [unfolded None option.case fpc_def [symmetric] n_def [symmetric] w_def [symmetric] tr_def [symmetric] t
          prod.case Some tf ir]
      show ?thesis
      proof (cases ir)
        case None
        then show ?thesis using d2 k2 faulted_trans [OF m1] by (auto simp: kept_def)
      next
        case (Some bytes)
        define words where "words = (\<lambda>i. u32_of_bytes (take 4 (drop (4 * i) bytes)))"
        have m2: "archs m2 = archs m" using k2 m1 Some by (simp add: kept_def)
        have a2: "arch (proc_of m2 p) = arch (proc_of m p)" using fun_cong [OF m2, of p] by (simp add: archs_def)
        have c2: "Ibc (proc_of m2 p) = c" using arch_fields(1) [OF a2] by (simp add: c_def)
        have lt: "0 < n - w" "n - w \<le> 32" using nw by simp_all
        obtain b c1 where b: "iblock_new hazard pc asid flags c = Some (b, c1)" and
          n: "\<forall>c'. c' = upd_iblock b (\<lambda>ib. ib\<lparr>Insts := fst (decode_loop (proc_of m2 p) words (n - w) w (Insts (Iblocks c1 b)) 0 pc 0),
              IbCycles := snd (decode_loop (proc_of m2 p) words (n - w) w (Insts (Iblocks c1 b)) 0 pc 0)\<rparr>) c1 \<longrightarrow>
            code_ok c' \<and> b \<in> active c' \<and> IbPc (Iblocks c' b) = pc \<and> (\<forall>d \<in> active c. hazard = Some d \<longrightarrow> stays c c' d) \<and>
            IbAsid (Iblocks c' b) = asid \<and> active c' \<subseteq> insert b (active c)"
          using new_block [OF okc(1) lt, of hazard pc asid flags "proc_of m2 p" words w] by blast
        obtain insts cyc where l: "decode_loop (proc_of m2 p) words (n - w) w (Insts (Iblocks c1 b)) 0 pc 0 = (insts, cyc)" by force
        define c' where "c' = upd_iblock b (\<lambda>ib. ib\<lparr>Insts := insts, IbCycles := cyc\<rparr>) c1"
        have c': "code_ok c' \<and> b \<in> active c' \<and> IbPc (Iblocks c' b) = pc \<and> (\<forall>d \<in> active c. hazard = Some d \<longrightarrow> stays c c' d)"
          using n by (simp add: c'_def l)
        have r: "r = Some b" "m' = upd_proc p (\<lambda>proc. proc\<lparr>Ibc := c'\<rparr>) m2"
          using d2 unfolding Some option.case c2 b words_def [symmetric] l prod.case c'_def by auto
        have "Ibc (proc_of m' p) = c'" by (simp add: r upd_proc_def)
        moreover have "archs m' = (archs m)(p := arch ((proc_of m p)\<lparr>Ibc := c'\<rparr>))"
          unfolding r archs_upd_proc m2 arch_ibc [OF a2] ..
        ultimately show ?thesis using c' by (simp add: r(1) fetched_def Let_def c_def [symmetric] pc_def [symmetric])
      qed
    qed
  qed
qed

end

end
