(* ===== verification/StepInv.thy ===== *)
theory StepInv
  imports ExecuteInv
begin

text \<open>
  Every handler keeps the invariant of theory \<open>ExecuteInv\<close>: it goes on to the next slot of its
  block, dispatches to an active block at the program counter, or returns.
\<close>

section \<open>What a handler may do\<close>

text \<open>Where control goes, and what that costs.\<close>

definition charged :: "XrProcessor \<Rightarrow> XrProcessor \<Rightarrow> bool" where
  "charged proc proc' \<longleftrightarrow> (\<exists>c. 0 < c \<and> c \<le> 32 \<and> CyclesDone proc' = CyclesDone proc + c)"

definition goes :: "XrProcessor \<Rightarrow> nat \<Rightarrow> nat \<Rightarrow> XrTail \<Rightarrow> XrProcessor \<Rightarrow> bool" where
  "goes proc b k t proc' \<longleftrightarrow>
     (case t of
        TailInst b' k' \<Rightarrow> at_slot proc' b' k' \<and>
          (b' = b \<and> k' = k + 1 \<and> CyclesDone proc' = CyclesDone proc \<and> Dispatches proc' = Dispatches proc \<and>
             block_end (Iblocks (Ibc proc') b) = block_end (Iblocks (Ibc proc) b) \<or>
           k' = 0 \<and> charged proc proc' \<and> Dispatches proc' = Dispatches proc + 1 \<and> Dispatches proc AND 31 \<noteq> 0)
      | TailCheckConditions \<Rightarrow> charged proc proc'
      | TailReturn \<Rightarrow> True
      | TailAbort \<Rightarrow> Func (XrInst proc b k) = FReg ExecuteDivSigned)"

definition proc_ok :: "XrProcessor \<Rightarrow> nat \<Rightarrow> nat \<Rightarrow> XrTail \<times> XrProcessor \<Rightarrow> bool" where
  "proc_ok proc b k r \<longleftrightarrow> (case r of (t, proc') \<Rightarrow> code_ok (Ibc proc') \<and> CyclesGoal proc' = CyclesGoal proc \<and>
     (Reg proc XR_FAKE_ZERO_REGISTER = 0 \<longrightarrow> Reg proc' XR_FAKE_ZERO_REGISTER = 0) \<and> goes proc b k t proc')"

definition step_ok :: "nat \<Rightarrow> Machine \<Rightarrow> nat \<Rightarrow> nat \<Rightarrow> XrTail \<times> Machine \<Rightarrow> bool" where
  "step_ok p m b k r \<longleftrightarrow> (case r of (t, m') \<Rightarrow> (\<forall>q. q \<noteq> p \<longrightarrow> archs m' q = archs m q) \<and>
     proc_ok (proc_of m p) b k (t, proc_of m' p))"

lemma slot_info:
  assumes "code_ok (Ibc proc)" "at_slot proc b k"
  obtains e where "block_end (Iblocks (Ibc proc) b) = Some e" "k \<le> e" "e < 34" "well_typed (XrInst proc b k)"
    "ends_block (Func (XrInst proc b k)) \<longleftrightarrow> k = e" "0 < IbCycles (Iblocks (Ibc proc) b)" "IbCycles (Iblocks (Ibc proc) b) \<le> 32"
proof -
  obtain e where e: "block_end (Iblocks (Ibc proc) b) = Some e" "k \<le> e" "b \<in> active (Ibc proc)"
    using assms(2) by (auto simp: at_slot_def)
  note c = block_end_closed [OF assms(1) e(3,1)]
  have "block_ok (Iblocks (Ibc proc) b)" using assms(1) e(3) by (simp add: code_ok_def)
  moreover have "well_typed (XrInst proc b k)" "ends_block (Func (XrInst proc b k)) \<longleftrightarrow> k = e"
    using c(1) e(2) by (cases "k = e"; auto simp: closed_def body_def XrInst_def)+
  ultimately show ?thesis using that e c(2) by (simp add: block_ok_def)
qed

lemma slot_pc_Suc:
  "slot_pc ib (Suc k) = (if is_virtual (Func (Insts ib k)) then slot_pc ib k else slot_pc ib k + 4)"
  by (simp add: slot_pc_def)

section \<open>The ways to leave a handler\<close>

lemma next_ok:
  assumes "code_ok (Ibc proc)" "at_slot proc b k" "\<not> ends_block (Func (XrInst proc b k))"
    and "Ibc proc' = Ibc proc" "CyclesDone proc' = CyclesDone proc" "Dispatches proc' = Dispatches proc"
    and "CyclesGoal proc' = CyclesGoal proc" "Reg proc 32 = 0 \<Longrightarrow> Reg proc' 32 = 0"
    and pc: "Pc proc' = (if is_virtual (Func (XrInst proc b k)) then Pc proc else Pc proc + 4)"
  shows "proc_ok proc b k (XR_NEXT_NO_PC proc' b k)"
proof -
  obtain e where e: "block_end (Iblocks (Ibc proc) b) = Some e" "k \<le> e" "k \<noteq> e"
    using slot_info [OF assms(1,2)] assms(3) by metis
  then have "at_slot proc' b (k + 1)"
    using assms(2,4) pc by (auto simp: at_slot_def slot_pc_Suc XrInst_def)
  then show ?thesis using assms by (simp add: XR_NEXT_NO_PC_def proc_ok_def goes_def)
qed

lemma early_ok:
  assumes "code_ok (Ibc proc')" "CyclesGoal proc' = CyclesGoal proc" "Reg proc 32 = 0 \<Longrightarrow> Reg proc' 32 = 0"
  shows "proc_ok proc b k (XR_EARLY_EXIT proc' j)"
  using assms by (simp add: XR_EARLY_EXIT_def proc_ok_def goes_def)

lemma charge: "unat (c :: u8) \<le> 32 \<Longrightarrow> 0 < c \<Longrightarrow> \<exists>d. 0 < d \<and> d \<le> 32 \<and> (x :: u32) + ucast c = x + d"
  by (intro exI [of _ "ucast c"]) (simp add: word_less_nat_alt word_le_nat_alt unat_ucast_mod)

lemma trivial_ok:
  assumes "code_ok (Ibc proc)" "at_slot proc b k" "excepts proc proc'" 
  shows "proc_ok proc b k (XR_TRIVIAL_EXIT proc' b)"
proof -
  have "Ibc proc' = Ibc proc" "CyclesDone proc' = CyclesDone proc" "CyclesGoal proc' = CyclesGoal proc"
      "Reg proc 32 = 0 \<longrightarrow> Reg proc' 32 = 0"
    using assms(3) by (auto simp: excepts_def ctl_def)
  then show ?thesis
    using slot_info [OF assms(1,2)] assms(1) charge [of "IbCycles (Iblocks (Ibc proc) b)" "CyclesDone proc"]
    by (auto simp: XR_TRIVIAL_EXIT_def proc_ok_def goes_def charged_def word_le_nat_alt)
qed

lemma dispatch_ok:
  assumes "code_ok (Ibc proc')" "b \<in> active (Ibc proc')" "d \<in> active (Ibc proc')" "Pc proc' = IbPc (Iblocks (Ibc proc') d)"
    and "CyclesDone proc' = CyclesDone proc" "Dispatches proc' = Dispatches proc"
    and "CyclesGoal proc' = CyclesGoal proc" "Reg proc 32 = 0 \<Longrightarrow> Reg proc' 32 = 0"
  shows "proc_ok proc b k (XR_DISPATCH proc' b d)"
proof -
  have b: "block_ok (Iblocks (Ibc proc') b)" using assms(1,2) by (simp add: code_ok_def)
  obtain e where "block_end (Iblocks (Ibc proc') d) = Some e" using code_okD [OF assms(1,3)] by metis
  then have "at_slot (proc'\<lparr>CyclesDone := x, Dispatches := y\<rparr>) d 0" for x y
    using assms(3,4) by (simp add: at_slot_def slot_pc_def)
  then show ?thesis
    using assms charge [of "IbCycles (Iblocks (Ibc proc') b)" "CyclesDone proc"] b
    by (auto simp: XR_DISPATCH_def Let_def proc_ok_def goes_def charged_def block_ok_def word_le_nat_alt)
qed

section \<open>Handlers of one processor\<close>

lemma reg_handler:
  "(\<exists>v. XrRegImpl f proc b k = XR_NEXT (XR_SET_RD proc b k v) b k) \<or>
   f = ExecuteDivSigned \<and> XrRegImpl f proc b k = (TailAbort, proc)"
  by (cases f)
    (auto simp: XrExecuteNor_def XrExecuteOr_def XrExecuteXor_def XrExecuteAnd_def XrExecuteSltSigned_def XrExecuteSlt_def
      XrExecuteSub_def XrExecuteAdd_def XrExecuteLsh_def XrExecuteRsh_def XrExecuteAsh_def XrExecuteRor_def XrExecuteMod_def
      XrExecuteDivSigned_def XrExecuteDiv_def XrExecuteMul_def Let_def)

lemma imm_handler: "\<exists>v. XrImmImpl f proc b k = XR_NEXT (XR_SET_RD proc b k v) b k"
  by (cases f)
    (auto simp: XrExecuteOri_def XrExecuteXori_def XrExecuteAndi_def XrExecuteSltiSigned_def XrExecuteSlti_def XrExecuteSubi_def
      XrExecuteAddi_def XrExecuteAdr_def)

lemma set_rd_ok:
  assumes "code_ok (Ibc proc)" "at_slot proc b k" "opens (XrInst proc b k)" "unat (Imm8_1 (XrInst proc b k)) < 32"
  shows "proc_ok proc b k (XR_NEXT (XR_SET_RD proc b k v) b k)"
  unfolding XR_NEXT_def by (rule next_ok) (use assms in \<open>auto simp: XR_SET_RD_def opens_def\<close>)

lemma excepts_misc:
  "excepts a b \<Longrightarrow> excepts a (b\<lparr>Locked := l\<rparr>)" "excepts a b \<Longrightarrow> excepts a (b\<lparr>Halted := h\<rparr>)"
  "excepts a b \<Longrightarrow> excepts a (b\<lparr>Pc := pc\<rparr>)" "excepts a b \<Longrightarrow> excepts a (b\<lparr>PauseCalls := n\<rparr>)"
  "excepts a b \<Longrightarrow> excepts a (b\<lparr>NmiMaskCounter := i\<rparr>)" "excepts a b \<Longrightarrow> excepts a (XrRfeRestore b)"
  by (simp_all add: excepts_def ctl_def XrRfeRestore_def Let_def)

lemma early_excepts:
  assumes "code_ok (Ibc proc)" "excepts proc proc'"
  shows "proc_ok proc b k (XR_EARLY_EXIT proc' j)"
  using assms by (intro early_ok) (auto simp: excepts_def ctl_def)

lemma virtual_ok:
  assumes "code_ok (Ibc proc)" "at_slot proc b k" "is_virtual (Func (XrInst proc b k))"
  shows "proc_ok proc b k (XR_NEXT_NO_PC (proc\<lparr>Reg := (Reg proc)(33 := v)\<rparr>) b k)"
  by (rule next_ok) (use assms in \<open>auto simp: is_virtual_def\<close>)

lemma sys_handler:
  assumes ok: "code_ok (Ibc proc)" and at: "at_slot proc b k" and f: "Func (XrInst proc b k) = FSys f" "XrSysImpl f = Some impl"
  shows "proc_ok proc b k (impl proc b k)"
proof -
  have wt: "well_typed (XrInst proc b k)" using slot_info [OF ok at] by blast
  note ex = excepts_misc
  note early = early_excepts [OF ok] note trivial = trivial_ok [OF ok at] note virtual = virtual_ok [OF ok at]
  have nxt: "proc_ok proc b k (XR_NEXT proc' b k)"
    if "excepts proc proc'" "Pc proc' = Pc proc" "Dispatches proc' = Dispatches proc"
      "\<not> ends_block (FSys f)" "\<not> is_virtual (FSys f)" for proc'
    unfolding XR_NEXT_def by (rule next_ok [OF ok at]) (use that f in \<open>auto simp: excepts_def ctl_def\<close>)
  show ?thesis
  proof (cases f)
    case ExecuteMfcr
    have "proc_ok proc b k (XR_NEXT (XR_SET_RD (proc\<lparr>NmiMaskCounter := NMI_MASK_CYCLES\<rparr>) b k v) b k)" for v
      unfolding XR_NEXT_def
      by (rule next_ok [OF ok at]) (use wt f ExecuteMfcr in \<open>auto simp: XR_SET_RD_def XrInst_def well_typed_def is_virtual_def\<close>)
    then show ?thesis using f early ExecuteMfcr by (auto simp: XrExecuteMfcr_def Let_def)
  next
    case ExecutePause
    then show ?thesis using f early nxt ex by (auto simp: XrExecutePause_def Let_def is_virtual_def)
  qed (use f early trivial virtual ex in
    \<open>auto simp: XrExecuteIllegalInstruction_def XrExecuteSys_def XrExecuteBrk_def XrExecuteRfe_def XrExecuteHlt_def
      XrExecuteVirtualLsh_def XrExecuteVirtualRsh_def XrExecuteVirtualAsh_def XrExecuteVirtualRor_def is_virtual_def Let_def\<close>)
qed

section \<open>Handlers on the machine\<close>

lemma on_proc_ok:
  assumes "\<And>q. q \<noteq> p \<Longrightarrow> archs m1 q = archs m q" "proc_ok (proc_of m p) b k (g (proc_of m1 p))"
  shows "step_ok p m b k (on_proc p g m1)"
  using assms by (auto simp: step_ok_def on_proc_def archs_upd_proc case_prod_beta) (simp add: upd_proc_def)

lemma fault_ok:
  assumes "code_ok (Ibc (proc_of m p))" "faulted p m m1"
  shows "step_ok p m b k (mEARLY_EXIT p j m1)"
  unfolding mEARLY_EXIT_def
  by (rule on_proc_ok) (use assms early_excepts in \<open>auto simp: faulted_def\<close>)

lemma next_archs_ok:
  assumes ok: "code_ok (Ibc (proc_of m p))" "at_slot (proc_of m p) b k" "opens (inst_of p b k m)" and m1: "archs m1 = archs m"
    and f: "Ibc (f (proc_of m1 p)) = Ibc (proc_of m1 p)" "Pc (f (proc_of m1 p)) = Pc (proc_of m1 p)"
      "CyclesDone (f (proc_of m1 p)) = CyclesDone (proc_of m1 p)" "Dispatches (f (proc_of m1 p)) = Dispatches (proc_of m1 p)"
      "CyclesGoal (f (proc_of m1 p)) = CyclesGoal (proc_of m1 p)" "Reg (f (proc_of m1 p)) 32 = Reg (proc_of m1 p) 32"
  shows "step_ok p m b k (mNEXT p b k (upd_proc p f m1))"
proof -
  note a = arch_fields [OF archs_same [OF m1, of p]]
  have "proc_ok (proc_of m p) b k (XR_NEXT (f (proc_of m1 p)) b k)"
    unfolding XR_NEXT_def by (rule next_ok [OF ok(1,2)]) (use ok(3) in \<open>simp_all add: a f inst_of_def opens_def\<close>)
  then show ?thesis
    unfolding mNEXT_def by (intro on_proc_ok) (simp_all add: archs_upd_proc m1, simp add: upd_proc_def)
qed

subsection \<open>Memory\<close>

definition runs :: "XrHandler \<Rightarrow> CitronTable \<Rightarrow> nat \<Rightarrow> nat \<Rightarrow> nat \<Rightarrow> Machine \<Rightarrow> bool" where
  "runs h ports p b k m \<longleftrightarrow> (\<exists>r. h ports p b k m = Some r \<and> step_ok p m b k r)"

context quiet_bus
begin

lemma load_runs:
  assumes ok: "code_ok (Ibc (proc_of m p))" "at_slot (proc_of m p) b k" "opens (inst_of p b k m)"
    and d: "unat (Imm8_1 (inst_of p b k m)) < 32"
  shows "runs (load_inst n addr) ports p b k m"
proof -
  let ?rd = "unat (Imm8_1 (inst_of p b k m))"
  obtain st dest m1 where r: "XrAccess ports p (addr (proc_of m p) b k) False (Reg (proc_of m p) ?rd) 0 n False m = Some (st, dest, m1)"
      "access_kept p m (st, dest, m1)"
    using access_returns [of p "addr (proc_of m p) b k" False "Reg (proc_of m p) ?rd" 0 n False m] by auto
  show ?thesis
  proof (cases "st = 0")
    case True
    then show ?thesis using r fault_ok [OF ok(1)] by (simp add: runs_def load_inst_def access_kept_def)
  next
    case False
    then have "archs m1 = archs m" using r(2) by (simp add: access_kept_def)
    then show ?thesis
      using False r(1) d unfolding runs_def load_inst_def Let_def
      by (auto intro!: next_archs_ok [OF ok] split: option.split)
  qed
qed

lemma store_runs:
  assumes ok: "code_ok (Ibc (proc_of m p))" "at_slot (proc_of m p) b k" "opens (inst_of p b k m)"
  shows "runs (store_inst n addr val) ports p b k m"
proof -
  obtain st dest m1 where r: "XrAccess ports p (addr (proc_of m p) b k) True 0 (val (proc_of m p) b k) n False m = Some (st, dest, m1)"
      "access_kept p m (st, dest, m1)"
    using access_returns [of p "addr (proc_of m p) b k" True 0 "val (proc_of m p) b k" n False m] by auto
  show ?thesis
  proof (cases "st = 0")
    case True
    then show ?thesis using r fault_ok [OF ok(1)] by (simp add: runs_def store_inst_def access_kept_def)
  next
    case False
    then have "archs m1 = archs m" using r(2) by (simp add: access_kept_def)
    then show ?thesis using False r(1) next_archs_ok [OF ok, of m1 "\<lambda>proc. proc"] by (simp add: runs_def store_inst_def upd_proc_def)
  qed
qed

lemma sc_runs:
  assumes ok: "code_ok (Ibc (proc_of m p))" "at_slot (proc_of m p) b k" "opens (inst_of p b k m)"
    and d: "unat (Imm8_1 (inst_of p b k m)) < 32"
  shows "runs XrExecuteSC ports p b k m"
proof (cases "Locked (proc_of m p)")
  case False
  then show ?thesis
    using next_archs_ok [OF ok, of m "\<lambda>proc. XR_SET_RD proc b k 0"] d
    by (simp add: runs_def XrExecuteSC_def Let_def XR_SET_RD_def inst_of_def)
next
  case True
  obtain st dest m1 where r: "XrAccess ports p (XR_REG_RA (proc_of m p) b k) True 0 (XR_REG_RB (proc_of m p) b k) 4 True m =
        Some (st, dest, m1)" "access_kept p m (st, dest, m1)"
    using access_returns [of p "XR_REG_RA (proc_of m p) b k" True 0 "XR_REG_RB (proc_of m p) b k" 4 True m] by auto
  show ?thesis
  proof (cases "st = 0")
    case s: True
    then show ?thesis using r True fault_ok [OF ok(1)] by (simp add: runs_def XrExecuteSC_def access_kept_def)
  next
    case False
    then have m1: "archs m1 = archs m" using r(2) by (simp add: access_kept_def)
    have "XrInst (proc_of m1 p) b k = inst_of p b k m"
      using arch_fields(1) [OF archs_same [OF m1, of p]] by (simp add: XrInst_def inst_of_def)
    then show ?thesis
      using True False r(1) d next_archs_ok [OF ok m1, of "\<lambda>proc. XR_SET_RD proc b k (if st = 2 then 0 else 1)"]
      by (simp add: runs_def XrExecuteSC_def Let_def XR_SET_RD_def)
  qed
qed

lemma ll_runs:
  assumes ok: "code_ok (Ibc (proc_of m p))" "at_slot (proc_of m p) b k" "opens (inst_of p b k m)"
    and d: "unat (Imm8_1 (inst_of p b k m)) < 32"
  shows "runs XrExecuteLL ports p b k m"
proof -
  let ?rd = "unat (Imm8_1 (inst_of p b k m))"
  obtain st dest m1 where r: "XrAccess ports p (XR_REG_RA (proc_of m p) b k) False (Reg (proc_of m p) ?rd) 0 4 False m =
        Some (st, dest, m1)" "access_kept p m (st, dest, m1)"
    using access_returns [of p "XR_REG_RA (proc_of m p) b k" False "Reg (proc_of m p) ?rd" 0 4 False m] by auto
  show ?thesis
  proof (cases "st = 0")
    case True
    then show ?thesis using r fault_ok [OF ok(1)] by (simp add: runs_def XrExecuteLL_def access_kept_def)
  next
    case False
    then have "archs m1 = archs m" using r(2) by (simp add: access_kept_def)
    then show ?thesis
      using False r(1) d unfolding runs_def XrExecuteLL_def Let_def
      by (auto intro!: next_archs_ok [OF ok] split: option.split)
  qed
qed

lemma barrier_runs:
  assumes "code_ok (Ibc (proc_of m p))" "at_slot (proc_of m p) b k" "opens (inst_of p b k m)"
  shows "runs XrExecuteWmb ports p b k m" "runs XrExecuteMb ports p b k m"
  using next_archs_ok [OF assms, of "XrFlushWriteBuffer ports p m" "\<lambda>proc. proc"]
  by (simp_all add: runs_def XrExecuteWmb_def XrExecuteMb_def upd_proc_def)

lemma mem_runs:
  assumes ok: "code_ok (Ibc (proc_of m p))" "at_slot (proc_of m p) b k" and f: "Func (inst_of p b k m) = FMem f"
  shows "runs (XrMemImpl f) ports p b k m"
proof -
  have wt: "well_typed (inst_of p b k m)" using slot_info [OF ok] by (metis inst_of_def)
  then have o: "opens (inst_of p b k m)" by (simp add: opens_def f is_virtual_def)
  note rules = load_runs [OF ok o] store_runs [OF ok o] sc_runs [OF ok o] ll_runs [OF ok o]
  show ?thesis
    using wt by (cases f)
      (simp_all add: well_typed_def f rules XrExecuteStoreLongRegOffset_def XrExecuteStoreIntRegOffset_def XrExecuteStoreByteRegOffset_def
        XrExecuteLoadLongRegOffset_def XrExecuteLoadIntRegOffset_def XrExecuteLoadByteRegOffset_def
        XrExecuteStoreLongImmOffsetImm_def XrExecuteStoreIntImmOffsetImm_def XrExecuteStoreByteImmOffsetImm_def
        XrExecuteStoreLongImmOffsetReg_def XrExecuteStoreIntImmOffsetReg_def XrExecuteStoreByteImmOffsetReg_def
        XrExecuteLoadLongImmOffset_def XrExecuteLoadIntImmOffset_def XrExecuteLoadByteImmOffset_def)
qed

end

subsection \<open>Control registers\<close>

lemma invalidate_code_ok: "code_ok c \<Longrightarrow> code_ok (XrInvalidateIblockCache c)"
  using invalidate_cache_ok [of c] by (simp add: code_ok_def)

lemma invalidate_vpn_code_ok: "code_ok c \<Longrightarrow> code_ok (XrInvalidateIblockCacheByVpn vpn c)"
  using invalidate_vpn_ok [of c vpn] by (auto simp: code_ok_def shrinks_def block_ok_def)

lemma upd_proc_same [simp]: "XrProcessorTable (upd_proc p f m) p = f (XrProcessorTable m p)"
  by (simp add: upd_proc_def)

lemma early_upd_ok:
  assumes "code_ok (Ibc (f (proc_of m1 p)))" "CyclesGoal (f (proc_of m1 p)) = CyclesGoal (proc_of m p)"
    "Reg (proc_of m p) 32 = 0 \<Longrightarrow> Reg (f (proc_of m1 p)) 32 = 0" "\<And>q. q \<noteq> p \<Longrightarrow> archs m1 q = archs m q"
  shows "step_ok p m b k (mEARLY_EXIT p j (upd_proc p f m1))"
  unfolding mEARLY_EXIT_def by (rule on_proc_ok) (use assms early_ok in \<open>auto simp: archs_upd_proc\<close>)

lemma next_upd_ok:
  assumes ok: "code_ok (Ibc (proc_of m p))" "at_slot (proc_of m p) b k" "opens (inst_of p b k m)"
    and f: "Ibc (f (proc_of m1 p)) = Ibc (proc_of m p)" "Pc (f (proc_of m1 p)) = Pc (proc_of m p)"
      "CyclesDone (f (proc_of m1 p)) = CyclesDone (proc_of m p)" "Dispatches (f (proc_of m1 p)) = Dispatches (proc_of m p)"
      "CyclesGoal (f (proc_of m1 p)) = CyclesGoal (proc_of m p)" "Reg (f (proc_of m1 p)) 32 = Reg (proc_of m p) 32"
    and q: "\<And>q. q \<noteq> p \<Longrightarrow> archs m1 q = archs m q"
  shows "step_ok p m b k (mNEXT p b k (upd_proc p f m1))"
proof -
  have "proc_ok (proc_of m p) b k (XR_NEXT (f (proc_of m1 p)) b k)"
    unfolding XR_NEXT_def by (rule next_ok [OF ok(1,2)]) (use ok(3) in \<open>simp_all add: f inst_of_def opens_def\<close>)
  then show ?thesis unfolding mNEXT_def by (intro on_proc_ok) (simp_all add: archs_upd_proc q)
qed

lemma ex_Some_if:
  "(\<exists>r. (if c then x else y) = Some r \<and> P r) \<longleftrightarrow> (if c then \<exists>r. x = Some r \<and> P r else \<exists>r. y = Some r \<and> P r)"
  by simp

lemma ex_Some: "(\<exists>r. Some x = Some r \<and> P r) \<longleftrightarrow> P x"
  by simp

lemma if_intro: "(c \<Longrightarrow> x) \<Longrightarrow> (\<not> c \<Longrightarrow> y) \<Longrightarrow> if c then x else y"
  by simp

context quiet_bus
begin

lemma mtcr_runs:
  assumes ok: "code_ok (Ibc (proc_of m p))" "at_slot (proc_of m p) b k" and f: "Func (inst_of p b k m) = FSys ExecuteMtcr"
  shows "runs XrExecuteMtcr ports p b k m"
proof -
  define proc where "proc = proc_of m p"
  have "well_typed (inst_of p b k m)" using slot_info [OF ok] by (metis inst_of_def)
  then have o: "opens (inst_of p b k m)" by (simp add: opens_def f is_virtual_def)
  define m1 where "m1 = upd_proc p (\<lambda>proc. proc\<lparr>NmiMaskCounter := NMI_MASK_CYCLES\<rparr>) m"
  have p1: "proc_of m1 p = proc\<lparr>NmiMaskCounter := NMI_MASK_CYCLES\<rparr>" "\<And>q. q \<noteq> p \<Longrightarrow> archs m1 q = archs m q"
    by (simp_all add: m1_def proc_def archs_upd_proc)
  have fl: "\<And>q. q \<noteq> p \<Longrightarrow> archs (XrFlushWriteBuffer ports p m1) q = archs m q" using p1(2) by simp
  note a = arch_fields [OF archs_same [OF flush_archs [of p m1], of p]]
  note early = early_upd_ok [where m = m and p = p and b = b and k = k] note nxt = next_upd_ok [OF ok o]
  have c: "code_ok (Ibc proc)" using ok(1) by (simp add: proc_def)
  have exc: "step_ok p m b k (mEARLY_EXIT p k (upd_proc p (\<lambda>proc. XrBasicException proc XR_EXC_PRV (Pc proc)) m))"
    by (intro fault_ok ok(1) faulted_upd) simp
  show ?thesis
    unfolding runs_def XrExecuteMtcr_def Let_def m1_def [symmetric] proc_def [symmetric] ex_Some_if ex_Some
    apply (intro if_intro)
    apply (rule exc)
    apply (rule early; simp add: p1 c invalidate_code_ok proc_def [symmetric])
    apply (rule nxt; simp add: a p1 fl proc_def [symmetric])
    apply (rule early; auto simp: p1 c invalidate_code_ok invalidate_vpn_code_ok proc_def [symmetric])
    apply (rule nxt; auto simp: p1 tb_write_def Let_def proc_def [symmetric])
    done
qed

end

subsection \<open>Control flow\<close>

lemma path_pc_end:
  "path_pc ib k = Some pc \<Longrightarrow> end_func ib \<noteq> Some (FFlow ExecuteJalr)"
  by (auto simp: path_pc_def end_func_def split: option.splits if_splits)

lemma no_ptable:
  assumes "code_ok c" "b \<in> active c" "path_pc (Iblocks c b) k = Some pc"
  shows "\<not> HasPtable (Iblocks c b)"
  using assms path_pc_end [OF assms(3)] by (auto simp: code_ok_def ibc_ok_def jalr_ok_def)

lemma same_shape_code_ok: "same_shape c c' \<Longrightarrow> code_ok c \<Longrightarrow> ibc_ok c' \<Longrightarrow> code_ok c'"
  by (auto simp: code_ok_def same_shape_def block_ok_def)

text \<open>The state in which a handler leaves its block: \<open>m1\<close> differs from \<open>m\<close> in registers and the program counter.\<close>

definition leaving :: "nat \<Rightarrow> Machine \<Rightarrow> Machine \<Rightarrow> bool" where
  "leaving p m m1 \<longleftrightarrow> (\<forall>q. q \<noteq> p \<longrightarrow> archs m1 q = archs m q) \<and>
     CyclesDone (proc_of m1 p) = CyclesDone (proc_of m p) \<and> Dispatches (proc_of m1 p) = Dispatches (proc_of m p) \<and>
     CyclesGoal (proc_of m1 p) = CyclesGoal (proc_of m p) \<and> (Reg (proc_of m p) 32 = 0 \<longrightarrow> Reg (proc_of m1 p) 32 = 0)"

lemma leaving_dispatch:
  assumes "leaving p m m1" "code_ok (Ibc (proc_of m1 p))" "b \<in> active (Ibc (proc_of m1 p))" "d \<in> active (Ibc (proc_of m1 p))"
    "Pc (proc_of m1 p) = IbPc (Iblocks (Ibc (proc_of m1 p)) d)"
  shows "step_ok p m b k (mDISPATCH p b d m1)"
  unfolding mDISPATCH_def by (rule on_proc_ok) (use assms in \<open>auto simp: leaving_def intro!: dispatch_ok\<close>)

lemma leaving_fault:
  assumes "leaving p m m1" "code_ok (Ibc (proc_of m1 p))" "faulted p m1 m2"
  shows "step_ok p m b k (mEARLY_EXIT p j m2)"
  unfolding mEARLY_EXIT_def
  by (rule on_proc_ok) (use assms in \<open>auto simp: leaving_def faulted_def excepts_def ctl_def intro!: early_ok\<close>)

lemma leaving_fetched:
  assumes "leaving p m m1" "fetched p h m1 m2 d"
  shows "leaving p m m2" "Pc (proc_of m2 p) = Pc (proc_of m1 p)"
proof -
  have a: "archs m2 = (archs m1)(p := arch ((proc_of m1 p)\<lparr>Ibc := Ibc (proc_of m2 p)\<rparr>))"
    using assms(2) by (simp add: fetched_def Let_def)
  then have "arch (proc_of m2 p) = arch ((proc_of m1 p)\<lparr>Ibc := Ibc (proc_of m2 p)\<rparr>)" by (metis archs_def fun_upd_same)
  from arch_fields [OF this] show "leaving p m m2" "Pc (proc_of m2 p) = Pc (proc_of m1 p)"
    using assms(1) a by (simp_all add: leaving_def)
qed

lemma leaving_link:
  assumes lv: "leaving p m m1" and ft: "fetched p (Some b) m1 m2 d" and b: "b \<in> active (Ibc (proc_of m1 p))"
    and c: "Iblocks (g (Ibc (proc_of m2 p))) = Iblocks (Ibc (proc_of m2 p))" "IblockLruList (g (Ibc (proc_of m2 p))) = IblockLruList (Ibc (proc_of m2 p))"
    and link: "ibc_ok (XrCreateCachedPointerToBlock d ptr (g (Ibc (proc_of m2 p))))"
      "same_shape (g (Ibc (proc_of m2 p))) (XrCreateCachedPointerToBlock d ptr (g (Ibc (proc_of m2 p))))"
  shows "step_ok p m b k (mDISPATCH p b d (upd_proc p (\<lambda>proc. proc\<lparr>Ibc := XrCreateCachedPointerToBlock d ptr (g (Ibc proc))\<rparr>) m2))"
proof -
  let ?c = "Ibc (proc_of m2 p)"
  have f: "code_ok ?c" "d \<in> active ?c" "IbPc (Iblocks ?c d) = Pc (proc_of m1 p)" "b \<in> active ?c"
    using ft b by (auto simp: fetched_def Let_def stays_def)
  have k: "code_ok (XrCreateCachedPointerToBlock d ptr (g ?c))"
    using link f(1) c by (auto simp: code_ok_def same_shape_def block_ok_def)
  have ac: "active (XrCreateCachedPointerToBlock d ptr (g ?c)) = active ?c"
      "IbPc (Iblocks (XrCreateCachedPointerToBlock d ptr (g ?c)) d) = IbPc (Iblocks ?c d)"
    using link(2) c by (simp_all add: same_shape_def)
  show ?thesis
  proof (rule leaving_dispatch)
    show "leaving p m (upd_proc p (\<lambda>proc. proc\<lparr>Ibc := XrCreateCachedPointerToBlock d ptr (g (Ibc proc))\<rparr>) m2)"
      using leaving_fetched(1) [OF lv ft] by (simp add: leaving_def archs_upd_proc)
  qed (use k f ac leaving_fetched(2) [OF lv ft] in simp_all)
qed

context quiet_bus
begin

lemma flow_runs:
  assumes lv: "leaving p m m1" and ok: "code_ok (Ibc (proc_of m1 p))" and b: "b \<in> active (Ibc (proc_of m1 p))"
    and path: "path < 2" "path_pc (Iblocks (Ibc (proc_of m1 p)) b) path = Some (Pc (proc_of m1 p))"
  shows "\<exists>r. flow_dispatch path ports p b k m1 = Some r \<and> step_ok p m b k r"
proof -
  let ?c = "Ibc (proc_of m1 p)"
  have np: "\<not> HasPtable (Iblocks ?c b)" using no_ptable [OF ok b path(2)] .
  show ?thesis
  proof (cases "CachedPaths (Iblocks ?c b) path")
    case (Some d)
    have "paths_ok ?c" using ok by (simp add: code_ok_def ibc_ok_def)
    from paths_okD [OF this, of "BlockPath b path" d] have "d \<in> active ?c" "Pc (proc_of m1 p) = IbPc (Iblocks ?c d)"
      using b path np Some by simp_all
    then show ?thesis using leaving_dispatch [OF lv ok b] np Some by (simp add: flow_dispatch_def Let_def)
  next
    case None
    obtain r m2 where d: "XrDecodeInstructions ports p (Some b) m1 = (r, m2)" by force
    note dk = decode_kept [OF d ok]
    show ?thesis
    proof (cases r)
      case r: None
      then show ?thesis using dk leaving_fault [OF lv ok] np None by (simp add: flow_dispatch_def Let_def d)
    next
      case (Some t)
      then have ft: "fetched p (Some b) m1 m2 t" using dk by simp
      let ?c2 = "Ibc (proc_of m2 p)"
      have c2: "code_ok ?c2" "t \<in> active ?c2" "IbPc (Iblocks ?c2 t) = Pc (proc_of m1 p)" "stays ?c ?c2 b"
        using ft b by (simp_all add: fetched_def Let_def)
      then have o: "blocks_ok ?c2" "ptables_ok ?c2" "vpages_ok ?c2" "jalr_ok ?c2" "paths_ok ?c2"
        by (simp_all add: code_ok_def ibc_ok_def)
      have s: "Insts (Iblocks ?c2 b) = Insts (Iblocks ?c b)" "IbPc (Iblocks ?c2 b) = IbPc (Iblocks ?c b)" "\<not> HasPtable (Iblocks ?c2 b)"
        using c2(4) np by (simp_all add: stays_def)
      have ref: "ref_pc ?c2 (BlockPath b path) = Some (IbPc (Iblocks ?c2 t))"
        using path(2) by (simp add: path_pc_cong(3) [OF s(1,2)] c2(3))
      have pt: "\<not> (\<exists>b0. BlockPath b path = BlockPath b0 0 \<and> HasPtable (Iblocks ?c2 b0))" using s(3) by auto
      note link = create_pointer_ok [OF o(1-4) c2(2) ref pt paths_okD [OF o(5)]]
      have "step_ok p m b k (mDISPATCH p b t (upd_proc p (\<lambda>proc.
          proc\<lparr>Ibc := XrCreateCachedPointerToBlock t (BlockPath b path) (Ibc proc)\<rparr>) m2))"
        using leaving_link [OF lv ft b, of "\<lambda>c. c" "BlockPath b path" k] link by simp
      then show ?thesis using np None Some by (simp add: flow_dispatch_def Let_def d)
    qed
  qed
qed

lemma flow_upd_runs:
  assumes ok: "code_ok (Ibc (proc_of m p))" "at_slot (proc_of m p) b k" "ends_block (Func (inst_of p b k m))"
    and f: "Ibc (f (proc_of m p)) = Ibc (proc_of m p)" "CyclesDone (f (proc_of m p)) = CyclesDone (proc_of m p)"
      "Dispatches (f (proc_of m p)) = Dispatches (proc_of m p)" "CyclesGoal (f (proc_of m p)) = CyclesGoal (proc_of m p)"
      "Reg (f (proc_of m p)) 32 = Reg (proc_of m p) 32"
    and path: "path < 2" "Func (inst_of p b k m) \<noteq> FFlow ExecuteJalr"
      "Pc (f (proc_of m p)) = (if path = 1 then Pc (proc_of m p) + 4
         else if Func (inst_of p b k m) = FFlow SpecialLinkageInstruction then Pc (proc_of m p) else Imm32_1 (inst_of p b k m))"
  shows "\<exists>r. flow_dispatch path ports p b k (upd_proc p f m) = Some r \<and> step_ok p m b k r"
proof -
  obtain e where "block_end (Iblocks (Ibc (proc_of m p)) b) = Some e" "k = e"
    using slot_info [OF ok(1,2)] ok(3) by (metis inst_of_def)
  then have "path_pc (Iblocks (Ibc (proc_of m p)) b) path = Some (Pc (f (proc_of m p)))"
    using path ok(2) by (auto simp: path_pc_def inst_of_def XrInst_def at_slot_def)
  moreover have "leaving p m (upd_proc p f m)" using f by (simp add: leaving_def archs_upd_proc)
  ultimately show ?thesis using ok(1,2) f(1) path(1) by (intro flow_runs) (simp_all add: at_slot_def)
qed

lemma branch_runs:
  assumes "code_ok (Ibc (proc_of m p))" "at_slot (proc_of m p) b k"
    and "Func (inst_of p b k m) = FFlow f" "f \<noteq> ExecuteJalr" "f \<noteq> SpecialLinkageInstruction"
  shows "runs (branch_inst cond) ports p b k m"
  unfolding runs_def branch_inst_def Let_def ex_Some_if
  by (intro if_intro flow_upd_runs assms(1,2); simp add: assms(3-5) [unfolded inst_of_def] inst_of_def)

text \<open>A prediction table is there, or is taken; its slots are tracked pointers of the block.\<close>

lemma jalr_table_ok:
  assumes ok: "code_ok c" "b \<in> active c" and e: "block_end (Iblocks c b) = Some e" "Func (Insts (Iblocks c b) e) = FFlow ExecuteJalr"
  shows "\<exists>t c'. jalr_table b c = Some (t, c') \<and> code_ok c' \<and> active c' = active c \<and> ptable_of c' b = Some t \<and>
    IbPc (Iblocks c' b) = IbPc (Iblocks c b)"
proof -
  have i: "ibc_ok c" "paths_ok c" "ptables_ok c" using ok(1) by (simp_all add: code_ok_def ibc_ok_def)
  show ?thesis
  proof (cases "HasPtable (Iblocks c b)")
    case True
    then obtain t where "CachedPaths (Iblocks c b) 0 = Some t" using ptables_okD(2) [OF i(3) ok(2)] by auto
    then show ?thesis using True ok by (auto simp: jalr_table_def ptable_of_def)
  next
    case False
    have "CachedPaths (Iblocks c b) 0 \<noteq> Some d" for d
      using paths_okD [OF i(2), of "BlockPath b 0" d] False ok(2) e by (auto simp: path_pc_def)
    then have n: "CachedPaths (Iblocks c b) 0 = None" by auto
    have "end_func (Iblocks c b) = Some (FFlow ExecuteJalr)" using e by (simp add: end_func_def)
    from attach_ptable_ok [OF i(1) ok(2) False this] obtain t c1 where t: "XrAllocatePtable c = Some (t, c1)"
      "ibc_ok (upd_iblock b (\<lambda>ib. ib\<lparr>CachedPaths := (CachedPaths ib)(0 := Some t), HasPtable := True\<rparr>) c1)"
      "IblockLruList c1 = IblockLruList c" "Iblocks c1 = Iblocks c" by blast
    then show ?thesis using n ok by (auto simp: jalr_table_def code_ok_def block_ok_def ptable_of_def)
  qed
qed

end

lemma ptable_link:
  assumes ok: "code_ok c" and b: "b \<in> active c" "ptable_of c b = Some t" and d: "d \<in> active c" "IbPc (Iblocks c d) = pc" and i: "i < 8"
  defines "c' \<equiv> upd_ptable t (\<lambda>pt. pt\<lparr>PtPcs := (PtPcs pt)(i := pc)\<rparr>) c"
  shows "ibc_ok (XrCreateCachedPointerToBlock d (PtablePath t i) c')"
    "same_shape c' (XrCreateCachedPointerToBlock d (PtablePath t i) c')"
proof -
  have o: "blocks_ok c" "ptables_ok c" "vpages_ok c" "jalr_ok c" "paths_ok c" using ok by (simp_all add: code_ok_def ibc_ok_def)
  have p: "ptable_of c' = ptable_of c" by (simp add: c'_def ptable_of_def fun_eq_iff)
  have f: "Iblocks c' = Iblocks c" "IblockLruList c' = IblockLruList c" "IblockFreeList c' = IblockFreeList c"
      "IblockHashBuckets c' = IblockHashBuckets c" "PtableFreeList c' = PtableFreeList c" "VpageFreeList c' = VpageFreeList c"
      "Vpages c' = Vpages c" "VpageHashBuckets c' = VpageHashBuckets c" "pages c' = pages c"
    by (simp_all add: c'_def pages_def)
  have "blocks_ok c' = blocks_ok c" unfolding blocks_ok_def f ..
  moreover have "ptables_ok c' = ptables_ok c" unfolding ptables_ok_def f p ..
  moreover have "vpages_ok c' = vpages_ok c" unfolding vpages_ok_def f ..
  moreover have "jalr_ok c' = jalr_ok c" unfolding jalr_ok_def f ..
  ultimately have o': "blocks_ok c'" "ptables_ok c'" "vpages_ok c'" "jalr_ok c'" using o by simp_all
  have l: "live c' r = live c r" for r by (cases r) (simp_all add: f p)
  have dr: "path_deref c' r = path_deref c r" for r by (cases r) (simp_all add: f c'_def)
  have rp: "ref_pc c' r = ref_pc c r" if "r \<noteq> PtablePath t i" for r using that by (cases r) (auto simp: f c'_def)
  have paths: "d' \<in> active c' \<and> tracked c' d' r \<and> ref_pc c' r = Some (IbPc (Iblocks c' d'))"
    if "r \<noteq> PtablePath t i" "live c' r" "path_deref c' r = Some d'" for r d'
    using paths_okD [OF o(5), of r d'] that by (simp add: l dr rp f tracked_def)
  have ref: "ref_pc c' (PtablePath t i) = Some (IbPc (Iblocks c' d))" using d by (simp add: c'_def)
  have d': "d \<in> active c'" using d(1) by (simp add: f)
  have np: "\<not> (\<exists>b0. PtablePath t i = BlockPath b0 0 \<and> HasPtable (Iblocks c' b0))" by simp
  show "ibc_ok (XrCreateCachedPointerToBlock d (PtablePath t i) c')"
    by (rule create_pointer_ok(1) [OF o' d' ref np paths])
  show "same_shape c' (XrCreateCachedPointerToBlock d (PtablePath t i) c')"
    by (rule create_pointer_ok(2) [OF o' d' ref np paths])
qed

lemma three_bits: "unat (x AND 7 :: u32) < 8"
proof -
  have "(7 :: u32) = mask 3" by (simp add: mask_eq_exp_minus_1)
  then have "unat (x AND 7) = unat x mod 8" by (simp only: unat_and_mask) simp
  then show ?thesis by simp
qed

context quiet_bus
begin

lemma jalr_runs:
  assumes ok: "code_ok (Ibc (proc_of m p))" "at_slot (proc_of m p) b k" and f: "Func (inst_of p b k m) = FFlow ExecuteJalr"
  shows "runs XrExecuteJalr ports p b k m"
proof -
  define i where "i = inst_of p b k m"
  define pc where "pc = Reg (proc_of m p) (unat (Imm8_2 i)) + Imm32_1 i"
  define m1 where "m1 = upd_proc p (\<lambda>proc. proc\<lparr>Reg := (Reg proc)(unat (Imm8_1 i) := Pc proc + 4), Pc := pc\<rparr>) m"
  obtain e where e: "block_end (Iblocks (Ibc (proc_of m p)) b) = Some e" "k = e" "well_typed i"
    using slot_info [OF ok] f by (metis inst_of_def i_def ends_block.simps(1))
  have b: "b \<in> active (Ibc (proc_of m p))" using ok(2) by (simp add: at_slot_def)
  have "unat (Imm8_1 i) < 32" using e(3) f by (simp add: well_typed_def i_def)
  then have lv: "leaving p m m1" by (simp add: leaving_def m1_def archs_upd_proc)
  have m1: "Ibc (proc_of m1 p) = Ibc (proc_of m p)" "Pc (proc_of m1 p) = pc" by (simp_all add: m1_def)
  have una: "step_ok p m b k (mEARLY_EXIT p k (upd_proc p (\<lambda>proc.
      XrBasicException (proc\<lparr>Cr := (Cr proc)(EBADADDR := pc)\<rparr>) XR_EXC_UNA pc) m1))"
    by (rule leaving_fault [OF lv]) (use ok(1) in \<open>simp_all add: m1 faulted_upd\<close>)
  have "Func (Insts (Iblocks (Ibc (proc_of m p)) b) e) = FFlow ExecuteJalr"
    using f e(2) by (simp add: inst_of_def XrInst_def)
  from jalr_table_ok [OF ok(1) b e(1) this] obtain t c where t: "jalr_table b (Ibc (proc_of m p)) = Some (t, c)" "code_ok c"
    "active c = active (Ibc (proc_of m p))" "ptable_of c b = Some t" by blast
  define m2 where "m2 = upd_proc p (\<lambda>proc. proc\<lparr>Ibc := c\<rparr>) m1"
  have m2: "Ibc (proc_of m2 p) = c" "Pc (proc_of m2 p) = pc" by (simp_all add: m2_def m1)
  have lv2: "leaving p m m2" using lv by (simp add: leaving_def m2_def archs_upd_proc)
  define j where "j = unat (drop_bit 2 pc AND 7)"
  have j: "j < 8" unfolding j_def by (rule three_bits)
  have bc: "b \<in> active c" "code_ok (Ibc (proc_of m2 p))" "b \<in> active (Ibc (proc_of m2 p))" using b t by (simp_all add: m2)
  have rest: "\<exists>r. (case (if PtPcs (Ptables c t) j = pc then PtIblocks (Ptables c t) j else None) of
        Some d \<Rightarrow> Some (mDISPATCH p b d m2)
      | None \<Rightarrow> (case XrDecodeInstructions ports p (Some b) m2 of
           (None, m) \<Rightarrow> Some (mEARLY_EXIT p k m)
         | (Some d, m) \<Rightarrow> Some (mDISPATCH p b d (upd_proc p (\<lambda>proc.
             proc\<lparr>Ibc := XrCreateCachedPointerToBlock d (PtablePath t j)
               (upd_ptable t (\<lambda>pt. pt\<lparr>PtPcs := (PtPcs pt)(j := pc)\<rparr>) (Ibc proc))\<rparr>) m)))) = Some r \<and> step_ok p m b k r"
  proof (cases "if PtPcs (Ptables c t) j = pc then PtIblocks (Ptables c t) j else None")
    case (Some d)
    have "paths_ok c" using t(2) by (simp add: code_ok_def ibc_ok_def)
    moreover have "live c (PtablePath t j)" using j bc(1) t(4) by auto
    moreover have x: "PtIblocks (Ptables c t) j = Some d" "PtPcs (Ptables c t) j = pc" using Some by (auto split: if_splits)
    ultimately have "d \<in> active c" "IbPc (Iblocks c d) = pc" using paths_okD [of c "PtablePath t j" d] by simp_all
    then show ?thesis using leaving_dispatch [OF lv2 bc(2,3)] Some m2 by simp
  next
    case None
    obtain r m3 where d: "XrDecodeInstructions ports p (Some b) m2 = (r, m3)" by force
    note dk = decode_kept [OF d bc(2)]
    show ?thesis
    proof (cases r)
      case r: None
      then show ?thesis using dk leaving_fault [OF lv2 bc(2)] None by (simp add: d)
    next
      case (Some x)
      then have ft: "fetched p (Some b) m2 m3 x" using dk by simp
      then have c3: "code_ok (Ibc (proc_of m3 p))" "x \<in> active (Ibc (proc_of m3 p))" "IbPc (Iblocks (Ibc (proc_of m3 p)) x) = pc"
          "stays c (Ibc (proc_of m3 p)) b"
        using bc(1) by (simp_all add: fetched_def Let_def m2)
      then have "b \<in> active (Ibc (proc_of m3 p))" "ptable_of (Ibc (proc_of m3 p)) b = Some t" using t(4) by (simp_all add: stays_def)
      note link = ptable_link [OF c3(1) this c3(2,3) j]
      show ?thesis
        using leaving_link [OF lv2 ft bc(3), of "upd_ptable t (\<lambda>pt. pt\<lparr>PtPcs := (PtPcs pt)(j := pc)\<rparr>)" "PtablePath t j" k] link None
        by (simp add: d Some)
    qed
  qed
  show ?thesis
    unfolding runs_def XrExecuteJalr_def Let_def i_def [symmetric] pc_def [symmetric] m1_def [symmetric] ex_Some_if ex_Some
    by (intro if_intro una) (use rest in \<open>simp only: m1 t option.case prod.case m2_def [symmetric] j_def [symmetric]\<close>)
qed

lemma flow_handler_runs:
  assumes ok: "code_ok (Ibc (proc_of m p))" "at_slot (proc_of m p) b k" and f: "Func (inst_of p b k m) = FFlow f"
  shows "runs (XrFlowImpl f) ports p b k m"
proof -
  have jump: "\<exists>r. flow_dispatch XR_TRUE_PATH ports p b k (upd_proc p g m) = Some r \<and> step_ok p m b k r"
    if "f \<noteq> ExecuteJalr" "Ibc (g (proc_of m p)) = Ibc (proc_of m p)" "CyclesDone (g (proc_of m p)) = CyclesDone (proc_of m p)"
      "Dispatches (g (proc_of m p)) = Dispatches (proc_of m p)" "CyclesGoal (g (proc_of m p)) = CyclesGoal (proc_of m p)"
      "Reg (g (proc_of m p)) 32 = Reg (proc_of m p) 32"
      "Pc (g (proc_of m p)) = (if f = SpecialLinkageInstruction then Pc (proc_of m p) else Imm32_1 (inst_of p b k m))" for g
    by (rule flow_upd_runs [OF ok]) (use that in \<open>simp_all add: f\<close>)
  have same: "upd_proc p (\<lambda>proc. proc) m = m" by (simp add: upd_proc_def)
  have pc: "XrInst (proc_of m p) b k = inst_of p b k m" by (simp add: inst_of_def)
  note branch = branch_runs [OF ok f]
  show ?thesis
  proof (cases f)
    case ExecuteJalr
    then show ?thesis using jalr_runs [OF ok] f by simp
  next
    case SpecialLinkageInstruction
    then show ?thesis using jump [of "\<lambda>proc. proc"] by (simp add: runs_def XrSpecialLinkageInstruction_def same)
  qed (use branch jump in \<open>simp_all add: runs_def XrExecuteB_def XrExecuteJ_def XrExecuteJal_def pc
      XrExecuteBpo_def XrExecuteBpe_def XrExecuteBge_def XrExecuteBle_def XrExecuteBgt_def XrExecuteBlt_def XrExecuteBne_def
      XrExecuteBeq_def\<close>)
qed

lemma local_runs:
  assumes "proc_ok (proc_of m p) b k (h (proc_of m p) b k)"
  shows "runs (on_local h) ports p b k m"
  using on_proc_ok [of p m m b k "\<lambda>proc. h proc b k"] assms by (simp add: runs_def on_local_def)

lemma inst_runs:
  assumes ok: "code_ok (Ibc (proc_of m p))" "at_slot (proc_of m p) b k"
  shows "runs XrExecuteInst ports p b k m"
proof -
  have wt: "well_typed (inst_of p b k m)" using slot_info [OF ok] by (metis inst_of_def)
  have i: "XrInst (proc_of m p) b k = inst_of p b k m" by (simp add: inst_of_def)
  have "runs (XrImpl (Func (inst_of p b k m))) ports p b k m"
  proof (cases "Func (inst_of p b k m)")
    case (FReg f)
    have "proc_ok (proc_of m p) b k (XrRegImpl f (proc_of m p) b k)"
      using reg_handler [of f "proc_of m p" b k] set_rd_ok [OF ok] wt ok(1) FReg
      by (auto simp: i opens_def is_virtual_def well_typed_def) (simp add: proc_ok_def goes_def i)
    then show ?thesis using local_runs [of m p b k "XrRegImpl f"] FReg by simp
  next
    case (FImm f)
    have "proc_ok (proc_of m p) b k (XrImmImpl f (proc_of m p) b k)"
      using imm_handler [of f "proc_of m p" b k] set_rd_ok [OF ok] wt FImm
      by (auto simp: i opens_def is_virtual_def well_typed_def)
    then show ?thesis using local_runs [of m p b k "XrImmImpl f"] FImm by simp
  next
    case (FMem f)
    then show ?thesis using mem_runs [OF ok] by simp
  next
    case (FFlow f)
    then show ?thesis using flow_handler_runs [OF ok] by simp
  next
    case (FSys f)
    show ?thesis
    proof (cases "XrSysImpl f")
      case (Some impl)
      then show ?thesis using sys_handler [OF ok] local_runs [of m p b k impl] FSys by (simp add: i)
    next
      case None
      then have "f \<in> {ExecuteWmb, ExecuteMb, ExecuteMtcr}" by (cases f) simp_all
      moreover have "opens (inst_of p b k m)" if "f \<in> {ExecuteWmb, ExecuteMb}"
        using that wt FSys by (auto simp: opens_def is_virtual_def)
      ultimately show ?thesis using barrier_runs [OF ok] mtcr_runs [OF ok] FSys None by auto
    qed
  qed
  then show ?thesis by (simp add: runs_def XrExecuteInst_def)
qed

end

end
