(* ===== verification/Chain.thy ===== *)
theory Chain
  imports StepInv
begin

text \<open>
  Chains of tail calls. Every chain that starts with the check of conditions ends, whatever code the guest runs,
  and leaves the block cache of its processor well formed; the loop around the chains need not
  end, because a handler that raises an exception in the first slot of a block charges no cycles.
\<close>

section \<open>Check of conditions\<close>

definition checked :: "nat \<Rightarrow> Machine \<Rightarrow> XrTail \<times> Machine \<Rightarrow> bool" where
  "checked p m r \<longleftrightarrow> (case r of (t, m') \<Rightarrow>
     (\<forall>q. q \<noteq> p \<longrightarrow> archs m' q = archs m q) \<and> code_ok (Ibc (proc_of m' p)) \<and>
     CyclesGoal (proc_of m' p) = CyclesGoal (proc_of m p) \<and> unat (CyclesDone (proc_of m p)) \<le> unat (CyclesDone (proc_of m' p)) \<and>
     (Reg (proc_of m p) 32 = 0 \<longrightarrow> Reg (proc_of m' p) 32 = 0) \<and>
     (case t of TailInst b k \<Rightarrow> k = 0 \<and> at_slot (proc_of m' p) b 0 \<and> CyclesDone (proc_of m' p) < CyclesGoal (proc_of m' p)
      | TailReturn \<Rightarrow> True | _ \<Rightarrow> False))"

lemma faulted_checked:
  assumes "faulted p m m1" "checked p m1 r"
  shows "checked p m r"
  using assms by (auto simp: checked_def faulted_def excepts_def ctl_def)

lemma checked_return:
  assumes "code_ok (Ibc (proc_of m p))"
  shows "checked p m (TailReturn, upd_proc p (\<lambda>proc. proc\<lparr>NoMore := True\<rparr>) m)"
  using assms by (simp add: checked_def archs_upd_proc)

lemma fetched_checked:
  assumes "fetched p h m m1 b" "CyclesDone (proc_of m p) < CyclesGoal (proc_of m p)"
  shows "checked p m (TailInst b 0, m1)"
proof -
  have a: "archs m1 = (archs m)(p := arch ((proc_of m p)\<lparr>Ibc := Ibc (proc_of m1 p)\<rparr>))"
    using assms(1) by (simp add: fetched_def Let_def)
  then have "arch (proc_of m1 p) = arch ((proc_of m p)\<lparr>Ibc := Ibc (proc_of m1 p)\<rparr>)" by (metis archs_def fun_upd_same)
  note f = arch_fields [OF this]
  have c: "code_ok (Ibc (proc_of m1 p))" "b \<in> active (Ibc (proc_of m1 p))" "IbPc (Iblocks (Ibc (proc_of m1 p)) b) = Pc (proc_of m p)"
    using assms(1) by (simp_all add: fetched_def Let_def)
  obtain e where "block_end (Iblocks (Ibc (proc_of m1 p)) b) = Some e" using code_okD [OF c(1,2)] by metis
  then have "at_slot (proc_of m1 p) b 0" using c f by (simp add: at_slot_def slot_pc_def)
  then show ?thesis using c f a assms(2) by (simp add: checked_def)
qed

context quiet_bus
begin

lemma check_runs:
  assumes "code_ok (Ibc (proc_of m p))" "unat (CyclesGoal (proc_of m p)) \<le> 2 ^ 32 - 64"
  shows "\<exists>r. check_retry ports p None m = Some r \<and> checked p m r"
  using assms
proof (induction "unat (CyclesGoal (proc_of m p)) - unat (CyclesDone (proc_of m p))" arbitrary: m rule: less_induct)
  case less
  define proc where "proc = proc_of m p"
  show ?case
  proof (cases "CyclesDone proc \<ge> CyclesGoal proc \<or> Halted proc \<or> PauseCalls proc \<ge> XR_PAUSE_MAX")
    case True
    then show ?thesis
      using checked_return [OF less.prems(1)] by (subst check_retry.simps) (auto simp: Let_def proc_def)
  next
    case False
    then have go: "\<not> CyclesGoal proc \<le> CyclesDone proc" "\<not> Halted proc" "\<not> XR_PAUSE_MAX \<le> PauseCalls proc" by blast+
    define m1 where "m1 = (if NmiMaskCounter proc \<noteq> 0
      then upd_proc p (\<lambda>proc. proc\<lparr>NmiMaskCounter := NmiMaskCounter proc - 1\<rparr>) m else m)"
    define m2 where "m2 = (if InterruptPending (LsicTab m1 (ProcId proc)) \<and> Cr proc RS AND RS_INT \<noteq> 0
      then upd_proc p (\<lambda>proc. (XrBasicException proc XR_EXC_INT (Pc proc))\<lparr>Progress := XR_POLL_MAX\<rparr>) m1 else m1)"
    have pr: "excepts a b \<Longrightarrow> excepts a (b\<lparr>Progress := x\<rparr>)" for a b x by (simp add: excepts_def ctl_def)
    have f1: "faulted p m m1" by (auto simp: m1_def faulted_archs intro!: faulted_upd excepts_misc)
    have "faulted p m1 m2" by (auto simp: m2_def faulted_archs intro!: faulted_upd pr)
    with f1 have f2: "faulted p m m2" by (auto simp: faulted_def intro: excepts_trans)
    then have s: "Ibc (proc_of m2 p) = Ibc proc" "CyclesDone (proc_of m2 p) = CyclesDone proc" "CyclesGoal (proc_of m2 p) = CyclesGoal proc"
      by (simp_all add: faulted_def excepts_def ctl_def proc_def)
    have ok: "code_ok (Ibc (proc_of m2 p))" using less.prems(1) by (simp add: s proc_def)
    have lt: "CyclesDone (proc_of m2 p) < CyclesGoal (proc_of m2 p)" using False by (simp add: s not_le)
    obtain r m3 where d: "XrDecodeInstructions ports p None m2 = (r, m3)" by force
    have eq: "check_retry ports p None m = (case r of
        None \<Rightarrow> check_retry ports p None (upd_proc p (\<lambda>proc. proc\<lparr>CyclesDone := CyclesDone proc + of_nat XR_IBLOCK_INSTS\<rparr>) m3)
      | Some b \<Rightarrow> Some (TailInst b 0, m3))"
      using d by (subst check_retry.simps) (simp add: go Let_def proc_def [symmetric] m1_def [symmetric] m2_def [symmetric])
    show ?thesis
    proof (cases r)
      case (Some b)
      then have "fetched p None m2 m3 b" using decode_kept [OF d ok] by simp
      then show ?thesis using fetched_checked [OF _ lt] faulted_checked [OF f2] Some by (auto simp: eq)
    next
      case None
      then have f3: "faulted p m2 m3" using decode_kept [OF d ok] by simp
      define m4 where "m4 = upd_proc p (\<lambda>proc. proc\<lparr>CyclesDone := CyclesDone proc + of_nat XR_IBLOCK_INSTS\<rparr>) m3"
      have s3: "Ibc (proc_of m3 p) = Ibc proc" "CyclesDone (proc_of m3 p) = CyclesDone proc" "CyclesGoal (proc_of m3 p) = CyclesGoal proc"
          "Reg proc 32 = 0 \<longrightarrow> Reg (proc_of m3 p) 32 = 0" "\<forall>q. q \<noteq> p \<longrightarrow> archs m3 q = archs m q"
        using f3 s f2 by (auto simp: faulted_def excepts_def ctl_def proc_def)
      have n: "unat (CyclesDone proc + 32) = unat (CyclesDone proc) + 32"
        using lt less.prems(2) unfolding s by (subst unat_add_lem [THEN iffD1]) (simp_all add: word_less_nat_alt proc_def)
      have s4: "Ibc (proc_of m4 p) = Ibc proc" "CyclesDone (proc_of m4 p) = CyclesDone proc + 32" "CyclesGoal (proc_of m4 p) = CyclesGoal proc"
          "Reg (proc_of m4 p) = Reg (proc_of m3 p)" "\<forall>q. q \<noteq> p \<longrightarrow> archs m4 q = archs m q"
        using s3 by (simp_all add: m4_def archs_upd_proc)
      have "\<exists>r. check_retry ports p None m4 = Some r \<and> checked p m4 r"
      proof (rule less.hyps)
        show "unat (CyclesGoal (proc_of m4 p)) - unat (CyclesDone (proc_of m4 p)) < unat (CyclesGoal (proc_of m p)) - unat (CyclesDone (proc_of m p))"
          using lt n unfolding s4 s by (simp add: word_less_nat_alt proc_def)
      qed (use less.prems in \<open>simp_all add: s4 proc_def\<close>)
      moreover have "checked p m r" if "checked p m4 r" for r
        using that s3(4) n unfolding checked_def s4 by (auto simp: proc_def s4)
      ultimately show ?thesis using None by (auto simp: eq m4_def)
    qed
  qed
qed

lemma conditions_run:
  assumes "code_ok (Ibc (proc_of m p))" "unat (CyclesGoal (proc_of m p)) \<le> 2 ^ 32 - 64"
  shows "\<exists>r. XrCheckConditions ports p None m = Some r \<and> checked p m r"
proof -
  define m1 where "m1 = (if WbCycles (proc_of m p) \<noteq> 0
    then XrFlushWriteBuffer ports p (upd_proc p (\<lambda>proc. proc\<lparr>WbCycles := 0\<rparr>) m) else m)"
  have m1: "archs m1 = archs m" by (simp add: m1_def archs_keep)
  have "\<exists>r. check_retry ports p None m1 = Some r \<and> checked p m1 r"
    by (rule check_runs) (use assms arch_fields [OF archs_same [OF m1, of p]] in simp_all)
  then show ?thesis
    using faulted_checked [OF faulted_archs [OF m1]] by (auto simp: XrCheckConditions_def m1_def [symmetric])
qed

end

section \<open>A chain ends\<close>

text \<open>
  A dispatch returns every 32nd time, so that the cycles can exceed the goal by at most the cycles of 32 blocks.
\<close>

definition since_return :: "u8 \<Rightarrow> nat" where
  "since_return d = (unat d + 31) mod 32"

lemma since_return_le: "since_return d \<le> 31"
  by (simp add: since_return_def)

lemma since_return_step:
  assumes "d AND 31 \<noteq> 0"
  shows "since_return (d + 1) = since_return d + 1"
proof -
  have "(31 :: u8) = mask 5" by (simp add: mask_eq_exp_minus_1)
  then have "unat (d AND 31) = unat d mod 32" by (simp only: unat_and_mask) simp
  then have n: "unat d mod 32 \<noteq> 0" using assms by (metis unat_eq_zero)
  have "unat (d + 1) mod 32 = (unat d + 1) mod 256 mod 32" by (simp add: unat_word_ariths)
  also have "\<dots> = (unat d + 1) mod 32" by (rule mod_mod_cancel) simp
  finally have "(unat (d + 1) + 31) mod 32 = (unat d + 1 + 31) mod 32" by (metis mod_add_left_eq)
  moreover have "(x + 1 + 31) mod 32 = (x + 31) mod 32 + 1" if "x mod 32 \<noteq> 0" for x :: nat
  proof -
    have "x + 31 = (x mod 32 - 1) + 32 * (x div 32 + 1)" using that mult_div_mod_eq [of 32 x] by simp
    then have "(x + 31) mod 32 = (x mod 32 - 1) mod 32" by (simp only: mod_mult_self2)
    then show ?thesis using that by simp
  qed
  ultimately show ?thesis unfolding since_return_def using n by simp
qed

definition chain_inv :: "nat \<Rightarrow> XrTail \<Rightarrow> Machine \<Rightarrow> bool" where
  "chain_inv p t m \<longleftrightarrow> code_ok (Ibc (proc_of m p)) \<and> unat (CyclesGoal (proc_of m p)) \<le> 2 ^ 32 - 2048 \<and>
     (case t of TailInst b k \<Rightarrow> at_slot (proc_of m p) b k \<and>
          unat (CyclesDone (proc_of m p)) < unat (CyclesGoal (proc_of m p)) + 32 * since_return (Dispatches (proc_of m p))
      | _ \<Rightarrow> True)"

text \<open>What decreases: the cycles that are left, then the slots of the block that are left.\<close>

definition chain_rank :: "nat \<Rightarrow> XrTail \<Rightarrow> Machine \<Rightarrow> nat" where
  "chain_rank p t m = 100 * (unat (CyclesGoal (proc_of m p)) + 2048 - unat (CyclesDone (proc_of m p))) +
     (case t of TailInst b k \<Rightarrow> 34 - k | TailCheckConditions \<Rightarrow> 40 | _ \<Rightarrow> 0)"

lemma charged_unat:
  assumes "charged proc proc'" "unat (CyclesDone proc) < 2 ^ 32 - 64"
  shows "unat (CyclesDone proc) < unat (CyclesDone proc')" "unat (CyclesDone proc') \<le> unat (CyclesDone proc) + 32"
proof -
  obtain c where c: "0 < c" "c \<le> 32" "CyclesDone proc' = CyclesDone proc + c" using assms(1) by (auto simp: charged_def)
  then have u: "0 < unat c" "unat c \<le> 32" by (simp_all add: word_less_nat_alt word_le_nat_alt)
  then have "unat (CyclesDone proc') = unat (CyclesDone proc) + unat c"
    unfolding c(3) using assms(2) by (subst unat_add_lem [THEN iffD1]) simp_all
  with u show "unat (CyclesDone proc) < unat (CyclesDone proc')" "unat (CyclesDone proc') \<le> unat (CyclesDone proc) + 32" by simp_all
qed

lemma goes_rank:
  assumes inv: "chain_inv p (TailInst b k) m" and st: "step_ok p m b k (t, m')"
  shows "chain_inv p t m'" "t = TailReturn \<or> t = TailAbort \<or> chain_rank p t m' < chain_rank p (TailInst b k) m"
proof -
  let ?a = "proc_of m p" let ?b = "proc_of m' p"
  have i: "code_ok (Ibc ?a)" "unat (CyclesGoal ?a) \<le> 2 ^ 32 - 2048" "at_slot ?a b k"
      "unat (CyclesDone ?a) < unat (CyclesGoal ?a) + 32 * since_return (Dispatches ?a)"
    using inv by (simp_all add: chain_inv_def)
  have s: "code_ok (Ibc ?b)" "CyclesGoal ?b = CyclesGoal ?a" "goes ?a b k t ?b"
    using st by (simp_all add: step_ok_def proc_ok_def)
  have b: "unat (CyclesDone ?a) < unat (CyclesGoal ?a) + 1024" using i(4) since_return_le [of "Dispatches ?a"] by simp
  have lim: "unat (CyclesDone ?a) < 2 ^ 32 - 64" using b i(2) by simp
  have k: "k < 34" using slot_info [OF i(1,3)] by (metis le_less_trans)
  note ch = charged_unat [OF _ lim]
  have "chain_inv p t m' \<and> (t = TailReturn \<or> t = TailAbort \<or> chain_rank p t m' < chain_rank p (TailInst b k) m)"
  proof (cases t)
    case (TailInst b' k')
    show ?thesis
    proof (cases "charged ?a ?b")
      case True
      have at: "at_slot ?b b' k'" using s(3) TailInst by (simp add: goes_def)
      have "CyclesDone ?b \<noteq> CyclesDone ?a" using ch(1) [OF True] by auto
      then have "Dispatches ?b = Dispatches ?a + 1" "Dispatches ?a AND 31 \<noteq> 0" using s(3) TailInst by (auto simp: goes_def)
      then have "since_return (Dispatches ?b) = since_return (Dispatches ?a) + 1" using since_return_step by simp
      then show ?thesis using at s i ch [OF True] b TailInst by (simp add: chain_inv_def chain_rank_def)
    next
      case False
      then show ?thesis using s i k TailInst by (auto simp: goes_def chain_inv_def chain_rank_def)
    qed
  next
    case TailCheckConditions
    then have c: "charged ?a ?b" using s(3) by (simp add: goes_def)
    show ?thesis using ch(1) [OF c] TailCheckConditions s(1,2) i(2) b by (simp add: chain_inv_def chain_rank_def)
  qed (use s i in \<open>simp_all add: chain_inv_def\<close>)
  then show "chain_inv p t m'" "t = TailReturn \<or> t = TailAbort \<or> chain_rank p t m' < chain_rank p (TailInst b k) m" by auto
qed

definition chain_done :: "nat \<Rightarrow> Machine \<Rightarrow> Machine \<Rightarrow> bool" where
  "chain_done p m m' \<longleftrightarrow> code_ok (Ibc (proc_of m' p)) \<and> CyclesGoal (proc_of m' p) = CyclesGoal (proc_of m p) \<and>
     (Reg (proc_of m p) 32 = 0 \<longrightarrow> Reg (proc_of m' p) 32 = 0) \<and> (\<forall>q. q \<noteq> p \<longrightarrow> archs m' q = archs m q)"

lemma chain_done_step:
  "step_ok p m b k (t, m1) \<Longrightarrow> chain_done p m1 m' \<Longrightarrow> chain_done p m m'"
  "checked p m (t, m1) \<Longrightarrow> chain_done p m1 m' \<Longrightarrow> chain_done p m m'"
  by (simp_all add: step_ok_def proc_ok_def checked_def chain_done_def)

lemma checked_rank:
  assumes "chain_inv p TailCheckConditions m" "checked p m (t, m')"
  shows "chain_inv p t m'" "t = TailReturn \<or> chain_rank p t m' < chain_rank p TailCheckConditions m"
proof -
  have l: "unat (CyclesDone (proc_of m' p)) < unat (CyclesGoal (proc_of m' p)) + x"
    if "CyclesDone (proc_of m' p) < CyclesGoal (proc_of m' p)" for x
    using that by (simp add: word_less_nat_alt)
  show "chain_inv p t m'"
    using assms l by (cases t) (auto simp: checked_def chain_inv_def)
  show "t = TailReturn \<or> chain_rank p t m' < chain_rank p TailCheckConditions m"
    using assms by (cases t) (auto simp: checked_def chain_rank_def)
qed

context quiet_bus
begin

lemma chain_runs: "chain_inv p t m \<Longrightarrow> \<exists>m'. run_chain ports p t m = Some m' \<and> chain_done p m m'"
proof (induction "chain_rank p t m" arbitrary: t m rule: less_induct)
  case less
  have ok: "code_ok (Ibc (proc_of m p))" "unat (CyclesGoal (proc_of m p)) \<le> 2 ^ 32 - 64"
    using less.prems by (auto simp: chain_inv_def)
  have stop: "\<exists>m'. run_chain ports p t m = Some m' \<and> chain_done p m m'"
    if "t = TailReturn \<or> t = TailAbort" "code_ok (Ibc (proc_of m p))" for t m
    using that by (subst run_chain.simps) (simp add: chain_done_def)
  show ?case
  proof (cases t)
    case (TailInst b k)
    then have "at_slot (proc_of m p) b k" using less.prems by (simp add: chain_inv_def)
    from inst_runs [OF ok(1) this] obtain t1 m1 where e: "XrExecuteInst ports p b k m = Some (t1, m1)" "step_ok p m b k (t1, m1)"
      by (auto simp: runs_def)
    note g = goes_rank [OF less.prems [unfolded TailInst] e(2)]
    have "\<exists>m'. run_chain ports p t1 m1 = Some m' \<and> chain_done p m1 m'"
      using g less.hyps [of t1 m1] stop [of t1 m1] TailInst by (auto simp: chain_inv_def)
    then show ?thesis
      using chain_done_step(1) [OF e(2)] TailInst e(1) by (subst run_chain.simps) (auto simp: tail_step_def)
  next
    case TailCheckConditions
    from conditions_run [OF ok] obtain t1 m1 where e: "XrCheckConditions ports p None m = Some (t1, m1)" "checked p m (t1, m1)"
      by auto
    note g = checked_rank [OF less.prems [unfolded TailCheckConditions] e(2)]
    have "\<exists>m'. run_chain ports p t1 m1 = Some m' \<and> chain_done p m1 m'"
      using g less.hyps [of t1 m1] stop [of t1 m1] TailCheckConditions by (auto simp: chain_inv_def)
    then show ?thesis
      using chain_done_step(2) [OF e(2)] TailCheckConditions e(1) by (subst run_chain.simps) (auto simp: tail_step_def)
  qed (use stop ok in simp_all)
qed

end

section \<open>Properties\<close>

text \<open>The other processors keep their registers and block caches.\<close>

definition undisturbed :: "nat \<Rightarrow> Machine \<Rightarrow> Machine \<Rightarrow> bool" where
  "undisturbed p m m' \<longleftrightarrow> (\<forall>q. q \<noteq> p \<longrightarrow>
     (let a = proc_of m q; a' = proc_of m' q
      in Ibc a' = Ibc a \<and> Reg a' = Reg a \<and> Cr a' = Cr a \<and> Pc a' = Pc a \<and> CyclesDone a' = CyclesDone a))"

lemma archs_undisturbed: "(\<And>q. q \<noteq> p \<Longrightarrow> archs m' q = archs m q) \<Longrightarrow> undisturbed p m m'"
  unfolding undisturbed_def Let_def archs_def by (intro allI impI conjI arch_fields) simp_all

text \<open>
  Claim C2. The interpreter never leaves its code: from a slot of an active block whose program counter is the processor's,
  every handler returns, keeps the block cache well formed and hands over, if it goes on, to a slot of an
  active block at the right program counter, also along a cached pointer; only a trapping signed division stops the
  host. The registers and the block caches of other processors stay as they are.
\<close>

theorem interpreter_step_sound:
  assumes "code_ok (Ibc (proc_of m p))" "at_slot (proc_of m p) b k"
  shows "\<exists>t m'. XrExecuteInst (CitronPorts st) p b k m = Some (t, m') \<and> code_ok (Ibc (proc_of m' p)) \<and>
    (case t of TailInst b' k' \<Rightarrow> at_slot (proc_of m' p) b' k'
     | TailAbort \<Rightarrow> Func (inst_of p b k m) = FReg ExecuteDivSigned | _ \<Rightarrow> True) \<and>
    undisturbed p m m'"
proof -
  obtain t m' where r: "XrExecuteInst (CitronPorts st) p b k m = Some (t, m')" "step_ok p m b k (t, m')"
    using machine.inst_runs [where st = st, OF assms] by (auto simp: runs_def)
  then have "goes (proc_of m p) b k t (proc_of m' p)" "\<And>q. q \<noteq> p \<Longrightarrow> archs m' q = archs m q" "code_ok (Ibc (proc_of m' p))"
    by (simp_all add: step_ok_def proc_ok_def)
  then show ?thesis using r(1) archs_undisturbed by (intro exI conjI) (auto simp: goes_def inst_of_def split: XrTail.splits)
qed


text \<open>The block cache a processor starts with is well formed.\<close>

lemma start_code_ok:
  "code_ok (Ibc (proc_of (XrInitializeProcessor junk n m) n))"
  "Reg (proc_of (XrInitializeProcessor junk n m) n) XR_FAKE_ZERO_REGISTER = 0"
  using init_ok [of "Ibc junk"]
  by (simp_all add: XrInitializeProcessor_def Let_def XrReset_def code_ok_def) (simp add: iblock_cache_init_def)

section \<open>Concrete machines\<close>

text \<open>A processor whose only block was decoded at \<open>pc\<close> from 32 copies of a word.\<close>

definition block_sample :: "u32 \<Rightarrow> u32 \<Rightarrow> nat \<times> XrIblockCache" where
  "block_sample word pc =
    (case iblock_new None pc 0xFFFFFFFF 0 (iblock_cache_init (Ibc proc_zero)) of
       Some (b, c) \<Rightarrow>
         let r = decode_loop proc_zero (\<lambda>_. word) 32 0 (Insts (Iblocks c b)) 0 pc 0
         in (b, upd_iblock b (\<lambda>ib. ib\<lparr>Insts := fst r, IbCycles := snd r\<rparr>) c)
     | None \<Rightarrow> (0, Ibc proc_zero))"

definition machine_sample :: "u32 \<Rightarrow> u32 \<Rightarrow> Machine" where
  "machine_sample word pc = upd_proc 0 (\<lambda>proc. proc\<lparr>Ibc := snd (block_sample word pc), Pc := pc, CyclesGoal := 20000\<rparr>) machine_zero"

lemma block_sample_ok:
  defines "b \<equiv> \<lambda>w pc. fst (block_sample w pc)" and "c \<equiv> \<lambda>w pc. snd (block_sample w pc)"
  shows "code_ok (c w pc)" "active (c w pc) = {b w pc}" "IbPc (Iblocks (c w pc) (b w pc)) = pc"
    "XrLookupIblock pc 0xFFFFFFFF (c w pc) = Some (b w pc)"
    "\<exists>insts. Insts (Iblocks (c w pc) (b w pc)) = fst (decode_loop proc_zero (\<lambda>_. w) 32 0 insts 0 pc 0)"
proof -
  have "code_ok (iblock_cache_init (Ibc proc_zero))" "active (iblock_cache_init (Ibc proc_zero)) = {}"
    using init_ok [of "Ibc proc_zero"] by (simp_all add: code_ok_def) (simp_all add: iblock_cache_init_def)
  with new_block [OF this(1), where n = 32 and hazard = None and pc = pc and asid = "0xFFFFFFFF" and flags = 0 and proc = proc_zero and ir = "\<lambda>_. w" and w = 0] obtain b' c1 where
    n: "iblock_new None pc 0xFFFFFFFF 0 (iblock_cache_init (Ibc proc_zero)) = Some (b', c1)"
    and p: "\<forall>c'. c' = upd_iblock b' (\<lambda>ib. ib\<lparr>Insts := fst (decode_loop proc_zero (\<lambda>_. w) 32 0 (Insts (Iblocks c1 b')) 0 pc 0),
        IbCycles := snd (decode_loop proc_zero (\<lambda>_. w) 32 0 (Insts (Iblocks c1 b')) 0 pc 0)\<rparr>) c1 \<longrightarrow>
      code_ok c' \<and> b' \<in> active c' \<and> IbPc (Iblocks c' b') = pc \<and> IbAsid (Iblocks c' b') = 0xFFFFFFFF \<and> active c' \<subseteq> {b'}"
    by auto
  have e: "b w pc = b'" "c w pc = upd_iblock b' (\<lambda>ib. ib\<lparr>Insts := fst (decode_loop proc_zero (\<lambda>_. w) 32 0 (Insts (Iblocks c1 b')) 0 pc 0),
        IbCycles := snd (decode_loop proc_zero (\<lambda>_. w) 32 0 (Insts (Iblocks c1 b')) 0 pc 0)\<rparr>) c1"
    by (simp_all add: b_def c_def block_sample_def n Let_def)
  have q: "code_ok (c w pc)" "b' \<in> active (c w pc)" "IbPc (Iblocks (c w pc) b') = pc" "IbAsid (Iblocks (c w pc) b') = 0xFFFFFFFF"
      "active (c w pc) \<subseteq> {b'}"
    using p e(2) by blast+
  show "code_ok (c w pc)" "active (c w pc) = {b w pc}" "IbPc (Iblocks (c w pc) (b w pc)) = pc" using q e(1) by auto
  have "blocks_ok (c w pc)" using q(1) by (simp add: code_ok_def ibc_ok_def)
  from lookup_cases [OF this, where pc = pc and asid = "0xFFFFFFFF"] show "XrLookupIblock pc 0xFFFFFFFF (c w pc) = Some (b w pc)"
    using q e(1) by (auto split: option.splits)
  show "\<exists>insts. Insts (Iblocks (c w pc) (b w pc)) = fst (decode_loop proc_zero (\<lambda>_. w) 32 0 insts 0 pc 0)"
    using e by auto
qed

lemma machine_sample_ok:
  "code_ok (Ibc (proc_of (machine_sample w pc) 0))" "at_slot (proc_of (machine_sample w pc) 0) (fst (block_sample w pc)) 0"
  "CyclesGoal (proc_of (machine_sample w pc) 0) = 20000"
proof -
  note b = block_sample_ok [of w pc]
  obtain e where "block_end (Iblocks (snd (block_sample w pc)) (fst (block_sample w pc))) = Some e"
    using code_okD [OF b(1), of "fst (block_sample w pc)"] b(2) by auto
  then show "code_ok (Ibc (proc_of (machine_sample w pc) 0))" "CyclesGoal (proc_of (machine_sample w pc) 0) = 20000"
    "at_slot (proc_of (machine_sample w pc) 0) (fst (block_sample w pc)) 0"
    using b by (simp_all add: machine_sample_def at_slot_def slot_pc_def)
qed

text \<open>\<open>329852\<close> is \<open>ADDI r1, r1, 5\<close>.\<close>

theorem interpreter_step_sound_witness:
  "\<exists>t m'. XrExecuteInst (CitronPorts EBUSSUCCESS) 0 (fst (block_sample 329852 0x1000)) 0 (machine_sample 329852 0x1000) = Some (t, m') \<and>
    code_ok (Ibc (proc_of m' 0)) \<and>
    (case t of TailInst b' k' \<Rightarrow> at_slot (proc_of m' 0) b' k'
     | TailAbort \<Rightarrow> Func (inst_of 0 (fst (block_sample 329852 0x1000)) 0 (machine_sample 329852 0x1000)) = FReg ExecuteDivSigned
     | _ \<Rightarrow> True) \<and> undisturbed 0 (machine_sample 329852 0x1000) m'"
  by (rule interpreter_step_sound) (rule machine_sample_ok)+


end
