(* ===== verification/BlockCache.thy ===== *)
theory BlockCache
  imports Chain
begin

text \<open>
  What the block cache promises to the interpreter: a new block is always found, and invalidating
  a page removes its blocks and no others.
\<close>

section \<open>Invalidation and lookup\<close>

lemma find_filter: "(\<And>x. P x \<Longrightarrow> Q x) \<Longrightarrow> List.find P (filter Q xs) = List.find P xs"
  by (induction xs) auto

lemma find_none_filter: "(\<And>x. x \<in> set xs \<Longrightarrow> P x \<Longrightarrow> \<not> Q x) \<Longrightarrow> List.find P (filter Q xs) = None"
  by (auto simp: find_None_iff)

lemma drop_buckets:
  "IblockHashBuckets (drop_iblock b c) h =
    (if h = XR_IBLOCK_HASH (IbPc (Iblocks c b)) then remove1 b (IblockHashBuckets c h) else IblockHashBuckets c h)"
proof -
  note s = invalidate_pointers(1) [of c b]
  have "IblockHashBuckets (XrInvalidateIblockPointers b c) = IblockHashBuckets c"
    "IbPc (Iblocks (XrInvalidateIblockPointers b c) b) = IbPc (Iblocks c b)"
    using s by (simp_all add: same_shape_def)
  then show ?thesis by (simp add: free_fields Let_def)
qed

lemma drop_all_buckets:
  assumes "ibc_ok c" "distinct bs" "set bs \<subseteq> active c"
  shows "IblockHashBuckets (fold drop_iblock bs c) h = filter (\<lambda>b. b \<notin> set bs) (IblockHashBuckets c h)"
  using assms
proof (induction bs arbitrary: c)
  case (Cons b bs)
  have b: "b \<in> active c" using Cons.prems by simp
  note d = drop_ok [OF Cons.prems(1) b]
  have bs: "set bs \<subseteq> active (drop_iblock b c)" using Cons.prems d(2) by auto
  have k: "distinct (IblockHashBuckets c h)"
    "b \<in> set (IblockHashBuckets c h) \<longleftrightarrow> XR_IBLOCK_HASH (IbPc (Iblocks c b)) = h"
    using Cons.prems(1) b by (auto simp: ibc_ok_def blocks_ok_def)
  have "IblockHashBuckets (drop_iblock b c) h = filter (\<lambda>x. x \<noteq> b) (IblockHashBuckets c h)"
    using k by (auto simp: drop_buckets distinct_remove1_removeAll removeAll_filter_not_eq neq_commute intro!: filter_True [symmetric])
  moreover have "IblockHashBuckets (fold drop_iblock bs (drop_iblock b c)) h =
      filter (\<lambda>b. b \<notin> set bs) (IblockHashBuckets (drop_iblock b c) h)"
    using Cons.IH [OF d(1)] Cons.prems(2) bs by simp
  ultimately show ?case by (simp add: conj_commute)
qed simp

lemma lookup_free:
  assumes "XrLookupIblock pc asid c = None" "blocks_ok c" "b \<in> active c"
  shows "\<not> (IbPc (Iblocks c b) = pc \<and> IbAsid (Iblocks c b) = asid)"
  using lookup_cases [OF assms(2), where pc = pc and asid = asid] assms(1,3) by simp

section \<open>Properties\<close>

text \<open>Of every hash bucket the blocks remain that are still in use.\<close>

lemma page_buckets:
  assumes "ibc_ok c"
  shows "IblockHashBuckets (XrInvalidateIblockCacheByVpn vpn c) h =
    filter (\<lambda>b. b \<in> active (XrInvalidateIblockCacheByVpn vpn c)) (IblockHashBuckets c h)"
proof -
  let ?c = "XrInvalidateIblockCacheByVpn vpn c"
  have vp: "vpages_ok c" using assms by (simp add: ibc_ok_def)
  have s: "set (IblockHashBuckets c h) \<subseteq> active c" using assms by (auto simp: ibc_ok_def blocks_ok_def)
  show ?thesis
  proof (cases "List.find (\<lambda>v. VpVpn (Vpages c v) = vpn) (VpageHashBuckets c (XR_VPN_BUCKET_INDEX vpn))")
    case None
    then have "?c = c" by (simp add: XrInvalidateIblockCacheByVpn_def)
    then show ?thesis using s by (auto intro: filter_True [symmetric])
  next
    case (Some v)
    then have v: "v \<in> pages c" "VpVpn (Vpages c v) = vpn" using find_page [OF vp, of vpn] by simp_all
    let ?l = "IblockVpnList (Vpages c v)"
    have l: "set ?l = {b \<in> active c. IbPc (Iblocks c b) AND NOT 0xFFF = vpn}" by (rule page_blocks [OF vp v])
    have d: "distinct ?l" "set ?l \<subseteq> active c" using vpages_okD(5) [OF vp] l by auto
    have c: "?c = fold drop_iblock ?l c" using Some by (simp add: XrInvalidateIblockCacheByVpn_def XrInvalidateVpage_def)
    have "IblockHashBuckets ?c h = filter (\<lambda>b. b \<notin> set ?l) (IblockHashBuckets c h)"
      unfolding c by (rule drop_all_buckets [OF assms d])
    also have "\<dots> = filter (\<lambda>b. b \<in> active ?c) (IblockHashBuckets c h)"
      by (rule filter_cong [OF refl]) (use s l invalidate_vpn_ok(3) [OF assms, of vpn] in auto)
    finally show ?thesis .
  qed
qed

text \<open>
  Claim C11. Invalidating a page removes exactly its blocks: a lookup finds nothing on that page any more and the block it
  found before on every other page, with the instructions it had; the cache stays well formed.
\<close>

theorem invalidate_page_exact:
  assumes "ibc_ok c"
  shows "ibc_ok (XrInvalidateIblockCacheByVpn vpn c) \<and>
    XrLookupIblock pc asid (XrInvalidateIblockCacheByVpn vpn c) =
      (if pc AND NOT 0xFFF = vpn then None else XrLookupIblock pc asid c) \<and>
    Insts (Iblocks (XrInvalidateIblockCacheByVpn vpn c) b) = Insts (Iblocks c b)"
proof -
  let ?c = "XrInvalidateIblockCacheByVpn vpn c" let ?h = "XR_IBLOCK_HASH pc"
  let ?P = "\<lambda>b. IbPc (Iblocks c b) = pc \<and> IbAsid (Iblocks c b) = asid"
  note i = invalidate_vpn_ok [OF assms, of vpn]
  note b = page_buckets [OF assms, of vpn ?h]
  have s: "\<And>b. IbPc (Iblocks ?c b) = IbPc (Iblocks c b)" "\<And>b. IbAsid (Iblocks ?c b) = IbAsid (Iblocks c b)"
      "Insts (Iblocks ?c b) = Insts (Iblocks c b)"
    using i(2) by (simp_all add: shrinks_def)
  have "XrLookupIblock pc asid ?c = List.find ?P (filter (\<lambda>b. b \<in> active ?c) (IblockHashBuckets c ?h))"
    unfolding XrLookupIblock_def b s ..
  also have "\<dots> = (if pc AND NOT 0xFFF = vpn then None else XrLookupIblock pc asid c)"
  proof (cases "pc AND NOT 0xFFF = vpn")
    case True
    then show ?thesis using i(3) by (auto intro: find_none_filter)
  next
    case False
    have "set (IblockHashBuckets c ?h) \<subseteq> active c" using assms by (auto simp: ibc_ok_def blocks_ok_def)
    then have "filter (\<lambda>b. b \<in> active ?c) (IblockHashBuckets c ?h) =
        filter (\<lambda>b. IbPc (Iblocks c b) AND NOT 0xFFF \<noteq> vpn) (IblockHashBuckets c ?h)"
      by (intro filter_cong [OF refl]) (use i(3) in auto)
    moreover have "List.find ?P (filter (\<lambda>b. IbPc (Iblocks c b) AND NOT 0xFFF \<noteq> vpn) (IblockHashBuckets c ?h)) =
        List.find ?P (IblockHashBuckets c ?h)"
      by (rule find_filter) (use False in blast)
    ultimately show ?thesis using False by (simp add: XrLookupIblock_def)
  qed
  finally show ?thesis using i(1) s(3) by blast
qed

text \<open>
  Claim C10. Taking a block for a program counter that has none never fails, even when all are in use: the
  next lookup finds the new block, and the block that is being executed is not reclaimed.
\<close>

theorem new_block_found:
  assumes "ibc_ok c" "XrLookupIblock pc asid c = None"
  shows "\<exists>b c'. iblock_new hazard pc asid flags c = Some (b, c') \<and> ibc_ok c' \<and> XrLookupIblock pc asid c' = Some b \<and>
    (\<forall>h \<in> set (IblockLruList c). hazard = Some h \<longrightarrow> h \<in> set (IblockLruList c') \<and> h \<noteq> b \<and> Insts (Iblocks c' h) = Insts (Iblocks c h))"
proof -
  from iblock_new_ok [OF assms(1), of hazard pc asid flags] obtain b c' c1 where
    n: "iblock_new hazard pc asid flags c = Some (b, c')" "ibc_ok c'" "shrinks c c1" "active c1 \<subseteq> active c"
      "\<forall>h \<in> active c. hazard = Some h \<longrightarrow> h \<in> active c1" "b \<notin> active c1" "active c' = insert b (active c1)"
      "\<forall>b'. b' \<noteq> b \<longrightarrow> Iblocks c' b' = Iblocks c1 b'" "IbPc (Iblocks c' b) = pc" "IbAsid (Iblocks c' b) = asid"
    by blast
  have s: "\<And>h. IbPc (Iblocks c1 h) = IbPc (Iblocks c h)" "\<And>h. IbAsid (Iblocks c1 h) = IbAsid (Iblocks c h)"
      "\<And>h. Insts (Iblocks c1 h) = Insts (Iblocks c h)"
    using n(3) by (simp_all add: shrinks_def)
  have old: "blocks_ok c" using assms(1) by (simp add: ibc_ok_def)
  have one: "h = b" if "h \<in> active c'" "IbPc (Iblocks c' h) = pc" "IbAsid (Iblocks c' h) = asid" for h
  proof (rule ccontr)
    assume "h \<noteq> b"
    then have "h \<in> active c" "Iblocks c' h = Iblocks c1 h" using that(1) n(4,7,8) by auto
    then show False using lookup_free [OF assms(2) old, of h] that(2,3) s by simp
  qed
  have "blocks_ok c'" using n(2) by (simp add: ibc_ok_def)
  from lookup_cases [OF this, where pc = pc and asid = asid] have "XrLookupIblock pc asid c' = Some b"
    using one n(7,9,10) by (auto split: option.splits)
  moreover have "h \<in> active c' \<and> h \<noteq> b \<and> Insts (Iblocks c' h) = Insts (Iblocks c h)" if "h \<in> active c" "hazard = Some h" for h
  proof -
    have h: "h \<in> active c1" "h \<noteq> b" using that n(5,6) by auto
    then have "Iblocks c' h = Iblocks c1 h" using n(8) by blast
    then show ?thesis using h n(7) s(3) by simp
  qed
  ultimately show ?thesis using n(1,2) by blast
qed

section \<open>Witnesses\<close>

lemma sample_ok: "ibc_ok (snd (block_sample w pc))"
  using block_sample_ok(1) [where w = w and pc = pc] by (simp add: code_ok_def)

theorem invalidate_page_exact_witness:
  "XrLookupIblock 0x1900 0xFFFFFFFF (XrInvalidateIblockCacheByVpn 0x1000 (snd (block_sample 2219 0x1900))) = None"
  using invalidate_page_exact [OF sample_ok, where vpn = "0x1000" and pc = "0x1900" and asid = "0xFFFFFFFF"] by simp

lemma sample_miss: "XrLookupIblock 0x2000 0xFFFFFFFF (snd (block_sample 2219 0x1900)) = None"
proof -
  note b = block_sample_ok [where w = 2219 and pc = "0x1900"]
  have "blocks_ok (snd (block_sample 2219 0x1900))" using sample_ok by (simp add: ibc_ok_def)
  from lookup_cases [OF this, where pc = "0x2000" and asid = "0xFFFFFFFF"] show ?thesis
    using b(2,3) by (auto split: option.splits)
qed

theorem new_block_found_witness:
  "\<exists>b c'. iblock_new (Some (fst (block_sample 2219 0x1900))) 0x2000 0xFFFFFFFF 0 (snd (block_sample 2219 0x1900)) = Some (b, c') \<and> ibc_ok c' \<and>
    XrLookupIblock 0x2000 0xFFFFFFFF c' = Some b \<and>
    (\<forall>h \<in> set (IblockLruList (snd (block_sample 2219 0x1900))). Some (fst (block_sample 2219 0x1900)) = Some h \<longrightarrow>
      h \<in> set (IblockLruList c') \<and> h \<noteq> b \<and> Insts (Iblocks c' h) = Insts (Iblocks (snd (block_sample 2219 0x1900)) h))"
  by (rule new_block_found [OF sample_ok sample_miss])

end
