(* ===== verification/Livelock.thy ===== *)
theory Livelock
  imports Chain
begin

text \<open>
  A loop of \<open>XrExecuteFast\<close> that never ends. A handler that raises an exception leaves its block through
  \<open>XR_EARLY_EXIT\<close>, which charges the slots before it; in the first slot of a block that is no cycle. When the
  handler of unaligned accesses begins with an unaligned access, each chain ends where it began.
\<close>

section \<open>The state\<close>

text \<open>The program counter is at the vector of unaligned accesses, whose first instruction is an unaligned load.\<close>

definition stuck_code :: "XrProcessor \<Rightarrow> nat \<Rightarrow> bool" where
  "stuck_code proc b \<longleftrightarrow> Cr proc EB \<noteq> 0 \<and> Cr proc RS AND 7 = 0 \<and> Pc proc = Cr proc EB OR push_bit 8 XR_EXC_UNA \<and>
     XrLookupIblock (Cr proc EB OR push_bit 8 XR_EXC_UNA) 0xFFFFFFFF (Ibc proc) = Some b \<and>
     Func (XrInst proc b 0) = FMem ExecuteLoadLongImmOffset \<and> imm_offset_ra proc b 0 AND 3 \<noteq> 0"

definition running :: "XrProcessor \<Rightarrow> bool" where
  "running proc \<longleftrightarrow> CyclesDone proc < CyclesGoal proc \<and> \<not> Halted proc \<and> PauseCalls proc < XR_PAUSE_MAX \<and> WbCycles proc = 0 \<and>
     \<not> NoMore proc"

lemma low_mode:
  fixes rs :: u32
  assumes "rs AND 7 = 0"
  shows "rs AND RS_USER = 0" "rs AND RS_INT = 0" "rs AND RS_MMU = 0"
proof -
  have "rs AND (7 AND k) = 0" for k using assms by (simp flip: and.assoc)
  from this [of 1] this [of 2] this [of 4] show "rs AND RS_USER = 0" "rs AND RS_INT = 0" "rs AND RS_MMU = 0" by simp_all
qed

lemma low_mode_exception:
  assumes "Cr proc EB \<noteq> 0" "Cr proc RS AND 7 = 0"
  shows "Cr (XrBasicException proc exc pc) RS AND 7 = 0"
proof -
  have m: "(7 :: u32) = mask 3" by (simp add: mask_eq_exp_minus_1)
  have "\<not> bit (Cr proc RS) n" if "n < 3" for n
  proof -
    have "\<not> bit (Cr proc RS AND mask 3) n" using assms(2) by (simp add: m)
    then show ?thesis using that by (simp add: bit_simps)
  qed
  then show ?thesis unfolding m by (intro bit_eqI) (auto simp: bit_simps bit_basic_exception assms(1))
qed

lemma basic_exception_other:
  assumes "Cr proc EB \<noteq> 0"
  shows "Ibc (XrBasicException proc exc pc) = Ibc proc" "CyclesDone (XrBasicException proc exc pc) = CyclesDone proc"
    "CyclesGoal (XrBasicException proc exc pc) = CyclesGoal proc" "Halted (XrBasicException proc exc pc) = Halted proc"
    "PauseCalls (XrBasicException proc exc pc) = PauseCalls proc" "WbCycles (XrBasicException proc exc pc) = WbCycles proc"
    "NoMore (XrBasicException proc exc pc) = NoMore proc"
  using assms by (simp_all add: XrBasicException_def XrVectorException_def XrSetEcause_def XrPushMode_def Let_def)

section \<open>Every chain returns to it\<close>

lemma stuck_fault:
  assumes "stuck_code proc b" "running proc" and f: "f = XrBasicException (proc\<lparr>NmiMaskCounter := n, Cr := (Cr proc)(EBADADDR := a)\<rparr>) XR_EXC_UNA pc"
  shows "stuck_code f b" "running f"
  using assms low_mode_exception [of "proc\<lparr>NmiMaskCounter := n, Cr := (Cr proc)(EBADADDR := a)\<rparr>" XR_EXC_UNA pc]
  by (simp_all add: stuck_code_def running_def XrInst_def imm_offset_ra_def XR_REG_RA_def basic_exception_other basic_exception_simps)

lemma stuck_check:
  assumes "stuck_code (proc_of m p) b" "running (proc_of m p)"
  shows "XrCheckConditions ports p None m = Some (TailInst b 0,
    if NmiMaskCounter (proc_of m p) \<noteq> 0
    then upd_proc p (\<lambda>proc. proc\<lparr>NmiMaskCounter := NmiMaskCounter proc - 1\<rparr>) m else m)"
proof -
  have r: "CyclesDone (proc_of m p) < CyclesGoal (proc_of m p)" "\<not> Halted (proc_of m p)" "PauseCalls (proc_of m p) < XR_PAUSE_MAX"
      "WbCycles (proc_of m p) = 0"
    using assms(2) by (simp_all add: running_def)
  have s: "XrLookupIblock (Pc (proc_of m p)) 0xFFFFFFFF (Ibc (proc_of m p)) = Some b"
    using assms(1) by (simp add: stuck_code_def)
  have rs: "Cr (proc_of m p) RS AND 7 = 0" using assms(1) by (simp add: stuck_code_def)
  note l = low_mode [OF rs]
  show ?thesis
    using r s l unfolding XrCheckConditions_def
    by (subst check_retry.simps) (simp add: XrDecodeInstructions_def XR_CURRENT_ASID_def Let_def upd_proc_def not_le linorder_not_less)
qed

lemma stuck_chain:
  assumes "stuck_code (proc_of m p) b" "running (proc_of m p)" "\<not> Crashed m"
  shows "\<exists>m'. run_chain ports p TailCheckConditions m = Some m' \<and> stuck_code (proc_of m' p) b \<and> running (proc_of m' p) \<and> \<not> Crashed m'"
proof -
  define m1 where "m1 = (if NmiMaskCounter (proc_of m p) \<noteq> 0
    then upd_proc p (\<lambda>proc. proc\<lparr>NmiMaskCounter := NmiMaskCounter proc - 1\<rparr>) m else m)"
  define n where "n = NmiMaskCounter (proc_of m1 p)"
  have m1: "proc_of m1 p = (proc_of m p)\<lparr>NmiMaskCounter := n\<rparr>" "Crashed m1 = Crashed m"
    by (simp_all add: m1_def n_def upd_proc_def)
  define a where "a = imm_offset_ra (proc_of m1 p) b 0"
  have a: "a AND 3 \<noteq> 0" "Func (XrInst (proc_of m1 p) b 0) = FMem ExecuteLoadLongImmOffset"
    using assms(1) by (simp_all add: a_def stuck_code_def m1 imm_offset_ra_def XR_REG_RA_def XrInst_def)
  define m2 where "m2 = access_fault p a XR_EXC_UNA m1"
  have x: "XrExecuteInst ports p b 0 m1 = Some (TailReturn, m2)"
    using a by (simp add: XrExecuteInst_def inst_of_def XrExecuteLoadLongImmOffset_def load_inst_def XrAccess_def a_def [symmetric]
        Let_def m2_def [symmetric] mEARLY_EXIT_def on_proc_def XR_EARLY_EXIT_def) (simp add: upd_proc_def)
  have "run_chain ports p TailCheckConditions m = Some m2"
    using stuck_check [OF assms(1,2), of ports] x
    by (subst run_chain.simps) (simp add: tail_step_def m1_def [symmetric], subst run_chain.simps,
        simp add: tail_step_def, subst run_chain.simps, simp)
  moreover have "proc_of m2 p = XrBasicException ((proc_of m p)\<lparr>NmiMaskCounter := n, Cr := (Cr (proc_of m p))(EBADADDR := a)\<rparr>)
      XR_EXC_UNA (Pc (proc_of m p))" "Crashed m2 = Crashed m"
    by (simp_all add: m2_def access_fault_def upd_proc_def m1 Let_def)
  ultimately show ?thesis using stuck_fault [OF assms(1,2)] assms(3) by auto
qed

lemma stuck_cycles:
  assumes "run_cycles ports p m = Some m'"
  shows "\<not> (stuck_code (proc_of m p) b \<and> running (proc_of m p) \<and> \<not> Crashed m)"
proof (rule run_cycles.raw_induct [where P = "\<lambda>ports p m m'. \<not> (stuck_code (proc_of m p) b \<and> running (proc_of m p) \<and> \<not> Crashed m)",
      OF _ assms])
  fix f :: "CitronTable \<Rightarrow> nat \<Rightarrow> Machine \<Rightarrow> Machine option" and ports p m m'
  assume ih: "\<And>ports p m m'. f ports p m = Some m' \<Longrightarrow> \<not> (stuck_code (proc_of m p) b \<and> running (proc_of m p) \<and> \<not> Crashed m)"
    and st: "(if NoMore (proc_of m p) \<or> Crashed m then Some m
      else do { m \<leftarrow> run_chain ports p TailCheckConditions m; f ports p m }) = Some m'"
  show "\<not> (stuck_code (proc_of m p) b \<and> running (proc_of m p) \<and> \<not> Crashed m)"
  proof
    assume s: "stuck_code (proc_of m p) b \<and> running (proc_of m p) \<and> \<not> Crashed m"
    with stuck_chain [of m p b ports] obtain m1 where
      "run_chain ports p TailCheckConditions m = Some m1" "stuck_code (proc_of m1 p) b" "running (proc_of m1 p)" "\<not> Crashed m1"
      by blast
    with st s ih [of ports p m1 m'] show False by (simp add: running_def)
  qed
qed

section \<open>Property\<close>

text \<open>
  Claim C13. An unaligned load in the first instruction of the handler of unaligned accesses makes
  \<open>XrExecuteFast\<close> loop for ever: every chain returns after no cycles, so the goal is never reached.
\<close>

theorem unaligned_handler_livelock:
  assumes "stuck_code (proc_of m p) b" "Running (proc_of m p)" "\<not> Halted (proc_of m p)" "\<not> UserBreak (proc_of m p)"
    "Progress (proc_of m p) > 0" "WbCycles (proc_of m p) = 0" "\<not> Crashed m" "0 < cycles"
  shows "XrExecuteFast (CitronPorts st) p cycles m = None"
proof -
  define m1 where "m1 = upd_proc p (\<lambda>proc. proc\<lparr>CyclesGoal := cycles, CyclesDone := 0, PauseCalls := 0, NoMore := False\<rparr>) m"
  have "stuck_code (proc_of m1 p) b" "running (proc_of m1 p)" "\<not> Crashed m1"
    using assms by (simp_all add: m1_def upd_proc_def stuck_code_def running_def XrInst_def imm_offset_ra_def XR_REG_RA_def)
  then have "run_cycles (CitronPorts st) p m1 = None"
    using stuck_cycles [of "CitronPorts st" p m1] by (cases "run_cycles (CitronPorts st) p m1") auto
  then show ?thesis
    using assms by (simp add: XrExecuteFast_def Let_def m1_def upd_proc_def)
qed

text \<open>\<open>2219\<close> is \<open>MOV r2, LONG [r1]\<close>; its address is 1.\<close>

definition livelock_sample :: Machine where
  "livelock_sample = upd_proc 0 (\<lambda>proc. proc\<lparr>Reg := (Reg proc)(1 := 1), Cr := (Cr proc)(EB := 0x1000, RS := 0),
     Running := True, Halted := False, UserBreak := False, Progress := 1, WbCycles := 0\<rparr>) (machine_sample 2219 0x1900)"

lemma livelock_slot:
  "let i = Insts (Iblocks (snd (block_sample 2219 pc)) (fst (block_sample 2219 pc))) 0
   in Func i = FMem ExecuteLoadLongImmOffset \<and> Imm8_2 i = 1 \<and> Imm32_1 i = 0"
proof -
  obtain insts where i: "Insts (Iblocks (snd (block_sample 2219 pc)) (fst (block_sample 2219 pc))) =
      fst (decode_loop proc_zero (\<lambda>_. 2219) 32 0 insts 0 pc 0)"
    using block_sample_ok(5) [where w = 2219 and pc = pc] by auto
  have "decode_loop proc_zero (\<lambda>_. 2219) (Suc 31) 0 insts 0 pc 0 =
    decode_loop proc_zero (\<lambda>_. 2219) 31 1 (snd (XrDecodeLoadLongImmOffset proc_zero insts 0 2219 pc)) 1 (pc + 4) 1"
    by (subst decode_loop.simps(2)) (simp add: XrDecodeLowThree_def XrDecodeMajor_def XrDecodeLowSix_def XrDecodeLoadLongImmOffset_def)
  moreover have "Suc 31 = 32" by simp
  ultimately have "fst (decode_loop proc_zero (\<lambda>_. 2219) 32 0 insts 0 pc 0) 0 =
      snd (XrDecodeLoadLongImmOffset proc_zero insts 0 2219 pc) 0"
    using decode_loop_keeps [of 0 1] by (metis zero_less_one)
  then show ?thesis by (simp add: i XrDecodeLoadLongImmOffset_def XR_REDIRECT_ZERO_SRC_def)
qed

lemma livelock_sample_stuck: "stuck_code (proc_of livelock_sample 0) (fst (block_sample 2219 0x1900))"
  using livelock_slot [of "0x1900"] block_sample_ok(4) [where w = 2219 and pc = "0x1900"]
  by (simp add: livelock_sample_def stuck_code_def machine_sample_def upd_proc_def XrInst_def imm_offset_ra_def XR_REG_RA_def Let_def)

theorem unaligned_handler_livelock_witness:
  "XrExecuteFast (CitronPorts EBUSSUCCESS) 0 20000 livelock_sample = None"
  by (rule unaligned_handler_livelock [OF livelock_sample_stuck])
     (simp_all add: livelock_sample_def machine_sample_def upd_proc_def machine_zero_def)

end
