(* ===== verification/CacheCtrl.thy ===== *)
theory CacheCtrl
  imports Execute
begin

text \<open>
  The page invalidation of the cache control registers (\<open>XrExecuteMtcr\<close>,
  \<^verbatim>\<open>src/src/xr17032fast.c\<close> lines 1183-1248): which lines it reaches.
\<close>

section \<open>Sets of a page\<close>

lemma set_number_nat: "set_number a = unat a div 16 mod 1024"
proof -
  have "(1023 :: u32) = mask 10" by (simp add: mask_eq_exp_minus_1)
  then have "set_number a = unat (drop_bit 4 a) mod 1024" unfolding set_number_def by (simp only: unat_and_mask) simp
  also have "unat (drop_bit 4 a) = unat a div 16" by (subst unat_drop_bit) simp
  finally show ?thesis .
qed

lemma and_shifted_mask:
  fixes a :: "'a::len word"
  shows "a AND push_bit n (mask m) = push_bit n (drop_bit n a AND mask m)"
    and "a AND NOT (mask n) = push_bit n (drop_bit n a)"
  by (rule bit_eqI; auto simp: bit_simps)+

lemma unat_push: "unat (push_bit n w) = unat w * 2 ^ n mod 2 ^ LENGTH('a)" for w :: "'a::len word"
  unfolding unsigned_push_bit_eq take_bit_eq_mod by (simp only: push_bit_eq_mult)

lemma unat_u32: "unat (a :: u32) < 4294967296"
  using unsigned_less [of a] by simp

lemma page_nat: "unat (a AND 0xFFFFF000 :: u32) = unat a div 4096 * 4096"
proof -
  have "(0xFFFFF000 :: u32) = NOT (mask 12)" by (simp add: mask_eq_exp_minus_1)
  then have "a AND 0xFFFFF000 = push_bit 12 (drop_bit 12 a)" by (simp only: and_shifted_mask(2))
  then have "unat (a AND 0xFFFFF000) = unat a div 4096 * 4096 mod 2 ^ 32"
    by (simp only: unat_push unat_drop_bit) simp
  moreover have "unat a div 4096 * 4096 < 2 ^ 32" by (rule le_less_trans [OF div_times_less_eq_dividend])
      (use unat_u32 [of a] in simp)
  ultimately show ?thesis by simp
qed

lemma page_mod_4: "(v AND 0x3000 = (0x3000 :: u32)) = (unat v div 4096 mod 4 = 3)"
proof -
  have h: "(0x3000 :: u32) = push_bit 12 (mask 2)" by (simp add: mask_eq_exp_minus_1)
  have "unat (v AND 0x3000) = unat v div 4096 mod 4 * 4096 mod 2 ^ 32"
    unfolding h and_shifted_mask(1) unat_push unat_and_mask unat_drop_bit by simp
  then have "unat (v AND 0x3000) = unat v div 4096 mod 4 * 4096" by simp
  then show ?thesis by (simp add: word_unat_eq_iff)
qed

text \<open>The sets of a line in a page, of the page and of the page after it.\<close>

lemma page_sets:
  assumes "t div 4096 = v div (4096 :: nat)" "v < 2 ^ 32"
  shows "v div 4096 * 4096 div 16 mod 1024 = 256 * (v div 4096 mod 4)"
    and "\<exists>r < 256. t div 16 mod 1024 = 256 * (v div 4096 mod 4) + r"
    and "(v div 4096 * 4096 + 4096) mod 2 ^ 32 div 16 mod 1024 = 256 * (Suc (v div 4096) mod 4)"
proof -
  have m: "256 * k mod 1024 = 256 * (k mod 4)" for k :: nat by (simp add: mult_mod_right)
  define k where "k = v div 4096"
  have p: "k * 4096 div 16 = 256 * k" for k :: nat by simp
  show "v div 4096 * 4096 div 16 mod 1024 = 256 * (v div 4096 mod 4)" unfolding p m ..
  have "t div 16 = 256 * k + t div 16 mod 256"
    using assms(1) mult_div_mod_eq [of 256 "t div 16"] by (simp add: k_def div_mult2_eq [symmetric])
  moreover have "(256 * k + r) mod 1024 = 256 * (k mod 4) + r" if "r < 256" for r
  proof -
    have "(256 * k + r) div 256 = k" using that by simp
    moreover have "(256 * k + r) mod 256 = r" using that by simp
    ultimately have "(256 * k + r) mod (256 * 4) = 256 * (k mod 4) + r" by (simp only: mod_mult2_eq)
    then show ?thesis by simp
  qed
  ultimately show "\<exists>r < 256. t div 16 mod 1024 = 256 * (v div 4096 mod 4) + r"
    by (metis k_def mod_less_divisor zero_less_numeral)
  have "k * 4096 + 4096 = 4096 * Suc k" "(2 :: nat) ^ 32 = 4096 * 2 ^ 20" by simp_all
  then have "(k * 4096 + 4096) mod 2 ^ 32 = 4096 * (Suc k mod 2 ^ 20)" by (simp only: mult_mod_right)
  then have "(k * 4096 + 4096) mod 2 ^ 32 div 16 mod 1024 = 256 * (Suc k mod 2 ^ 20) mod 1024" by simp
  also have "\<dots> = 256 * (Suc k mod 2 ^ 20 mod 4)" by (rule m)
  also have "Suc k mod 2 ^ 20 mod 4 = Suc k mod 4" by (rule mod_mod_cancel) simp
  finally show "(v div 4096 * 4096 + 4096) mod 2 ^ 32 div 16 mod 1024 = 256 * (Suc (v div 4096) mod 4)" by (simp add: k_def)
qed

section \<open>Property\<close>

text \<open>
  Claim C12. A page invalidation of a cache whose lines are in their sets: every line of the page is invalidated and no other, except
  that for a page whose number is 3 modulo 4 nothing happens, since the end of the set range wraps to 0.
\<close>

theorem cache_page_invalidate:
  assumes "v AND 3 = 2" "i div 2 = set_number (tags i)"
  shows "cache_ctrl v tags flags i =
    (if tags i AND 0xFFFFF000 = v AND 0xFFFFF000 \<and> v AND 0x3000 \<noteq> 0x3000 then XR_LINE_INVALID else flags i)"
proof (cases "tags i AND 0xFFFFF000 = v AND 0xFFFFF000")
  case False
  then show ?thesis using assms(1) by (simp add: cache_ctrl_def Let_def invalidate_lines_def)
next
  case True
  then have t: "unat (tags i) div 4096 = unat v div 4096" by (metis page_nat mult_cancel2 zero_neq_numeral)
  have v: "unat v < 2 ^ 32" using unsigned_less [of v] by simp
  let ?j = "unat v div 4096 mod 4" let ?p = "v AND 0xFFFFF000"
  have lo: "set_number ?p = 256 * ?j"
    unfolding set_number_nat page_nat by (rule page_sets(1) [OF t v])
  have hi: "set_number (?p + 4096) = 256 * (Suc (unat v div 4096) mod 4)"
  proof -
    have "unat (?p + 4096) = (unat v div 4096 * 4096 + 4096) mod 2 ^ 32" by (simp add: unat_word_ariths page_nat)
    then show ?thesis unfolding set_number_nat by (simp only: page_sets(3) [OF t v])
  qed
  obtain r where r: "r < 256" "i div 2 = 256 * ?j + r"
    using page_sets(2) [OF t v] assms(2) by (auto simp: set_number_nat)
  have "set_number ?p * 2 \<le> i" using r by (simp add: lo)
  moreover have "i < set_number (?p + 4096) * 2 \<longleftrightarrow> ?j \<noteq> 3"
  proof -
    have "Suc (unat v div 4096) mod 4 = (if ?j = 3 then 0 else Suc ?j)" by (simp add: mod_Suc)
    moreover have "i < 2 * (i div 2) + 2" "2 * (i div 2) \<le> i" by presburger+
    ultimately show ?thesis using r by (auto simp: hi)
  qed
  ultimately show ?thesis
    using assms(1) True by (simp add: cache_ctrl_def Let_def invalidate_lines_def page_mod_4)
qed

theorem cache_page_invalidate_witness:
  "cache_ctrl 0x5002 (\<lambda>i. of_nat (i div 2 * 16) + 0x4000) (\<lambda>_. 1) 512 = XR_LINE_INVALID \<and>
   cache_ctrl 0x7002 (\<lambda>i. of_nat (i div 2 * 16) + 0x4000) (\<lambda>_. 1) 1536 = 1"
  using cache_page_invalidate [of "0x5002" 512 "\<lambda>i. of_nat (i div 2 * 16) + 0x4000" "\<lambda>_. 1"]
    cache_page_invalidate [of "0x7002" 1536 "\<lambda>i. of_nat (i div 2 * 16) + 0x4000" "\<lambda>_. 1"]
  by (simp add: set_number_def)

end
