(* ===== verification/CLib.thy ===== *)
theory CLib
  imports XrPrelude "HOL-Library.Char_ord"
begin

text \<open>
  What the program uses of the C library on strings: \<open>strtol\<close> and \<open>atoi\<close> (an \<open>int\<close> has 32 bits, a \<open>long\<close> 64), and
  the hexadecimal conversions of \<open>sprintf\<close>. A C string is the list of its bytes without the final zero.
\<close>

section \<open>Strings\<close>

definition cstr :: "string \<Rightarrow> u8 list" where
  "cstr = map of_char"

definition isspace :: "u8 \<Rightarrow> bool" where
  "isspace c \<longleftrightarrow> c = 32 \<or> 9 \<le> c \<and> c \<le> 13"

definition digit_value :: "u8 \<Rightarrow> nat option" where
  "digit_value c =
    (if 48 \<le> c \<and> c \<le> 57 then Some (unat c - 48)
     else if 97 \<le> c \<and> c \<le> 122 then Some (unat c - 87)
     else if 65 \<le> c \<and> c \<le> 90 then Some (unat c - 55)
     else None)"

text \<open>The value of the digits a string begins with.\<close>

fun digits :: "nat \<Rightarrow> nat \<Rightarrow> u8 list \<Rightarrow> nat" where
  "digits base acc [] = acc"
| "digits base acc (c # s) =
    (case digit_value c of
       Some d \<Rightarrow> if d < base then digits base (acc * base + d) s else acc
     | None \<Rightarrow> acc)"

definition is_digit :: "nat \<Rightarrow> u8 \<Rightarrow> bool" where
  "is_digit base c \<longleftrightarrow> (case digit_value c of Some d \<Rightarrow> d < base | None \<Rightarrow> False)"

text \<open>The prefix \<^verbatim>\<open>0x\<close> counts only before a hexadecimal digit.\<close>

definition skip_prefix :: "nat \<Rightarrow> u8 list \<Rightarrow> u8 list" where
  "skip_prefix base s =
    (if base = 16 \<and> length s > 2 \<and> s ! 0 = 48 \<and> (s ! 1 = 120 \<or> s ! 1 = 88) \<and> is_digit 16 (s ! 2) then drop 2 s else s)"

definition LONG_MAX :: int where "LONG_MAX = 2 ^ 63 - 1"

definition strtol :: "u8 list \<Rightarrow> nat \<Rightarrow> int" where
  "strtol s base =
    (let s = dropWhile isspace s;
         neg = (s \<noteq> [] \<and> hd s = 45);
         s = (if s \<noteq> [] \<and> (hd s = 45 \<or> hd s = 43) then tl s else s);
         v = int (digits base 0 (skip_prefix base s))
     in if neg then max (- LONG_MAX - 1) (- v) else min LONG_MAX v)"

definition atoi :: "u8 list \<Rightarrow> int" where
  "atoi s = sint (word_of_int (strtol s 10) :: u32)"

section \<open>Hexadecimal output\<close>

definition hex_digit :: "nat \<Rightarrow> u8" where
  "hex_digit d = (if d < 10 then 48 + of_nat d else 87 + of_nat d)"

definition hex_digit_upper :: "nat \<Rightarrow> u8" where
  "hex_digit_upper d = (if d < 10 then 48 + of_nat d else 55 + of_nat d)"

text \<open>\<open>n\<close> digits with leading zeros, as \<^verbatim>\<open>%08x\<close> writes a number below \<open>16 ^ n\<close>; further digits are added in front.\<close>

fun hex_digits :: "(nat \<Rightarrow> u8) \<Rightarrow> nat \<Rightarrow> nat \<Rightarrow> u8 list" where
  "hex_digits dig 0 v = []"
| "hex_digits dig (Suc n) v = hex_digits dig n (v div 16) @ [dig (v mod 16)]"

definition sprintf_x8 :: "u32 \<Rightarrow> u8 list" where
  "sprintf_x8 v = hex_digits hex_digit 8 (unat v)"

definition sprintf_X8 :: "u32 \<Rightarrow> u8 list" where
  "sprintf_X8 v = hex_digits hex_digit_upper 8 (unat v)"

definition sprintf_X :: "nat \<Rightarrow> u64 \<Rightarrow> u8 list" where
  "sprintf_X n v = hex_digits hex_digit_upper n (unat v)"

text \<open>\<^verbatim>\<open>%10s\<close> pads on the left, \<^verbatim>\<open>%-10s\<close> on the right.\<close>

definition pad_left :: "nat \<Rightarrow> u8 list \<Rightarrow> u8 list" where
  "pad_left n s = replicate (n - length s) 32 @ s"

definition pad_right :: "nat \<Rightarrow> u8 list \<Rightarrow> u8 list" where
  "pad_right n s = s @ replicate (n - length s) 32"

section \<open>What is printed is read back\<close>

lemma hex_digit_value [simp]:
  assumes "d < 16"
  shows "digit_value (hex_digit d) = Some d" "digit_value (hex_digit_upper d) = Some d"
proof -
  have "d = 0 \<or> d = 1 \<or> d = 2 \<or> d = 3 \<or> d = 4 \<or> d = 5 \<or> d = 6 \<or> d = 7 \<or> d = 8 \<or> d = 9 \<or> d = 10 \<or> d = 11 \<or>
      d = 12 \<or> d = 13 \<or> d = 14 \<or> d = 15" using assms by arith
  then show "digit_value (hex_digit d) = Some d" "digit_value (hex_digit_upper d) = Some d"
    by (elim disjE; simp add: digit_value_def hex_digit_def hex_digit_upper_def)+
qed

lemma digits_append:
  "\<forall>c \<in> set s. is_digit base c \<Longrightarrow> digits base acc (s @ t) = digits base (digits base acc s) t"
  by (induction s arbitrary: acc) (auto simp: is_digit_def split: option.splits)

lemma length_hex_digits [simp]: "length (hex_digits dig n v) = n"
  by (induction n arbitrary: v) auto

lemma hex_digits_digits:
  assumes "\<And>d. d < 16 \<Longrightarrow> digit_value (dig d) = Some d"
  shows "\<forall>c \<in> set (hex_digits dig n v). is_digit 16 c"
  using assms by (induction n arbitrary: v) (auto simp: is_digit_def)

lemma digits_hex:
  assumes "\<And>d. d < 16 \<Longrightarrow> digit_value (dig d) = Some d"
  shows "digits 16 acc (hex_digits dig n v) = acc * 16 ^ n + v mod 16 ^ n"
proof (induction n arbitrary: v)
  case (Suc n)
  have "digits 16 acc (hex_digits dig (Suc n) v) = (acc * 16 ^ n + v div 16 mod 16 ^ n) * 16 + v mod 16"
    using hex_digits_digits [of dig n "v div 16"] assms by (simp add: digits_append Suc)
  also have "\<dots> = acc * 16 ^ Suc n + v mod 16 ^ Suc n"
    using mod_mult2_eq [of v 16 "16 ^ n"] by (simp add: algebra_simps)
  finally show ?case .
qed simp

end
