(* ===== verification/Startup.thy ===== *)
theory Startup
  imports CLib Board Chain
begin

text \<open>
  Start-up, \<^verbatim>\<open>src/src/main.c\<close> lines 101-393: the command line, the division of
  processors and memory among the nodes, and the order in which the machine is built. The files of the host are a
  function from names to contents, \<^term>\<open>None\<close> when opening fails. Window creation is left out.
\<close>

section \<open>Command line\<close>

record XrNumaNode =
  RamSize :: u32
  ProcessorCount :: u32

text \<open>
  The variables the options set. \<open>ReturnOne\<close> is the error exit of \<open>main\<close>, \<open>Overrun\<close> an access outside an array.
\<close>

record XrStart =
  StMachine :: Machine
  Headless :: bool
  RAMDumpOnExit :: bool
  KinnowDumpOnExit :: bool
  XrProcessorFrequency :: int
  SerialRXFile :: "u8 list option"
  SerialTXFile :: bool
  XrPrintCache :: bool
  DKSPrint :: bool
  TTY132ColumnMode :: bool
  Threads :: int
  EasyProcCount :: int
  EasyMemCount :: u32
  ExplicitNodes :: bool
  XrNumaNodes :: "nat \<Rightarrow> XrNumaNode"

datatype StartError = ReturnOne | Overrun

type_synonym HostFiles = "u8 list \<Rightarrow> u8 list option"

abbreviation (input) "RAM_PER_NODE \<equiv> 0x4000000 :: int"
abbreviation (input) "RAMMAXIMUM \<equiv> 0x10000000 :: u32"
abbreviation (input) "XR_PROC_PER_NODE_MAX \<equiv> 4 :: nat"

text \<open>An option that takes one value, and one that names a file.\<close>

definition with_value :: "u8 list list \<Rightarrow> (u8 list \<Rightarrow> XrStart) \<Rightarrow> StartError + XrStart \<times> nat" where
  "with_value args f = (case args of [] \<Rightarrow> Inl ReturnOne | v # _ \<Rightarrow> Inr (f v, 1))"

definition with_file :: "HostFiles \<Rightarrow> u8 list list \<Rightarrow> (u8 list \<Rightarrow> XrStart option) \<Rightarrow> StartError + XrStart \<times> nat" where
  "with_file host args f =
    (case args of
       [] \<Rightarrow> Inl ReturnOne
     | v # _ \<Rightarrow> (case host v of
         None \<Rightarrow> Inl ReturnOne
       | Some bs \<Rightarrow> (case f bs of None \<Rightarrow> Inl ReturnOne | Some st \<Rightarrow> Inr (st, 1))))"

definition file_bytes :: "u8 list \<Rightarrow> bytes" where
  "file_bytes bs = (\<lambda>i. if i < length bs then bs ! i else 0)"

definition node_option :: "u8 list list \<Rightarrow> XrStart \<Rightarrow> StartError + XrStart \<times> nat" where
  "node_option args st =
    (if length args \<ge> 3 then
       let nodeid = atoi (args ! 0); nodeprocs = atoi (args ! 1); noderam = atoi (args ! 2)
       in if nodeid \<ge> int XR_NODE_MAX then Inl ReturnOne
          else if nodeprocs > int XR_PROC_PER_NODE_MAX then Inl ReturnOne
          else if noderam > RAM_PER_NODE then Inl ReturnOne
          else if nodeid < 0 then Inl Overrun
          else Inr (st\<lparr>XrNumaNodes := (XrNumaNodes st)(nat nodeid := \<lparr>RamSize = word_of_int noderam, ProcessorCount = word_of_int nodeprocs\<rparr>),
                       ExplicitNodes := True\<rparr>, 3)
     else Inl ReturnOne)"

text \<open>One option \<open>a\<close>, with the arguments after it; also how many of them it takes.\<close>

definition parse_option :: "HostFiles \<Rightarrow> u8 list \<Rightarrow> u8 list list \<Rightarrow> XrStart \<Rightarrow> StartError + XrStart \<times> nat" where
  "parse_option host a args st =
    (if a = cstr ''-dks'' then
       with_file host args (\<lambda>bs. map_option (\<lambda>m. st\<lparr>StMachine := m\<rparr>) (DKSAttachImage (file_bytes bs) (length bs) (StMachine st)))
     else if a = cstr ''-headless'' then Inr (st\<lparr>Headless := True\<rparr>, 0)
     else if a = cstr ''-nvram'' then with_file host args (\<lambda>bs. Some (st\<lparr>StMachine := NVRAMLoadFile bs (StMachine st)\<rparr>))
     else if a = cstr ''-rom'' then with_file host args (\<lambda>bs. Some (st\<lparr>StMachine := ROMLoadFile bs (StMachine st)\<rparr>))
     else if a = cstr ''-dumpram'' then Inr (st\<lparr>RAMDumpOnExit := True\<rparr>, 0)
     else if a = cstr ''-dumpfb'' then Inr (st\<lparr>KinnowDumpOnExit := True\<rparr>, 0)
     else if a = cstr ''-asyncdisk'' then
       Inr (st\<lparr>StMachine := (StMachine st)\<lparr>Dks := (Dks (StMachine st))\<lparr>DKSAsynchronous := True\<rparr>\<rparr>\<rparr>, 0)
     else if a = cstr ''-asyncserial'' then Inr (st\<lparr>StMachine := (StMachine st)\<lparr>SerialAsynchronous := True\<rparr>\<rparr>, 0)
     else if a = cstr ''-ramsize'' then with_value args (\<lambda>v. st\<lparr>EasyMemCount := word_of_int (atoi v)\<rparr>)
     else if a = cstr ''-cpuhz'' then with_value args (\<lambda>v. st\<lparr>XrProcessorFrequency := atoi v\<rparr>)
     else if a = cstr ''-serialrx'' then with_file host args (\<lambda>bs. Some (st\<lparr>SerialRXFile := Some bs\<rparr>))
     else if a = cstr ''-serialtx'' then with_file host args (\<lambda>bs. Some (st\<lparr>SerialTXFile := True\<rparr>))
     else if a = cstr ''-cacheprint'' then Inr (st\<lparr>XrPrintCache := True\<rparr>, 0)
     else if a = cstr ''-diskprint'' then Inr (st\<lparr>DKSPrint := True\<rparr>, 0)
     else if a = cstr ''-132column'' then Inr (st\<lparr>TTY132ColumnMode := True\<rparr>, 0)
     else if a = cstr ''-cpus'' then with_value args (\<lambda>v. st\<lparr>EasyProcCount := atoi v\<rparr>)
     else if a = cstr ''-threads'' then with_value args (\<lambda>v. st\<lparr>Threads := atoi v\<rparr>)
     else if a = cstr ''-node'' then node_option args st
     else Inl ReturnOne)"

fun parse_args :: "HostFiles \<Rightarrow> u8 list list \<Rightarrow> XrStart \<Rightarrow> StartError + XrStart" where
  "parse_args host [] st = Inr st"
| "parse_args host (a # args) st =
    (case parse_option host a args st of
       Inl e \<Rightarrow> Inl e
     | Inr (st, n) \<Rightarrow> parse_args host (drop n args) st)"

section \<open>Nodes\<close>

text \<open>Full nodes from node \<open>i\<close> on, while \<open>n\<close> nodes and four processors are left.\<close>

fun fill_procs :: "nat \<Rightarrow> nat \<Rightarrow> nat \<Rightarrow> (nat \<Rightarrow> XrNumaNode) \<Rightarrow> nat \<times> nat \<times> (nat \<Rightarrow> XrNumaNode)" where
  "fill_procs 0 i procs nodes = (i, procs, nodes)"
| "fill_procs (Suc n) i procs nodes =
    (if procs < XR_PROC_PER_NODE_MAX then (i, procs, nodes)
     else fill_procs n (i + 1) (procs - XR_PROC_PER_NODE_MAX)
            (nodes(i := (nodes i)\<lparr>ProcessorCount := of_nat XR_PROC_PER_NODE_MAX\<rparr>)))"

fun fill_ram :: "nat \<Rightarrow> nat \<Rightarrow> u32 \<Rightarrow> u32 \<Rightarrow> (nat \<Rightarrow> XrNumaNode) \<Rightarrow> u32 \<times> (nat \<Rightarrow> XrNumaNode)" where
  "fill_ram 0 i per mem nodes = (mem, nodes)"
| "fill_ram (Suc n) i per mem nodes = fill_ram n (i + 1) per (mem - per) (nodes(i := (nodes i)\<lparr>RamSize := per\<rparr>))"

definition node_cap :: "u32 \<Rightarrow> u32" where
  "node_cap ram = (if ram > 0x4000000 then 0x4000000 else ram)"

fun fill_rest :: "nat \<Rightarrow> nat \<Rightarrow> u32 \<Rightarrow> (nat \<Rightarrow> XrNumaNode) \<Rightarrow> nat \<Rightarrow> XrNumaNode" where
  "fill_rest 0 i mem nodes = nodes"
| "fill_rest (Suc n) i mem nodes =
    (if mem = 0 then nodes
     else fill_rest n (i + 1) (mem - node_cap mem) (nodes(i := (nodes i)\<lparr>RamSize := node_cap mem\<rparr>)))"

definition easy_nodes :: "int \<Rightarrow> u32 \<Rightarrow> (nat \<Rightarrow> XrNumaNode) \<Rightarrow> (nat \<Rightarrow> XrNumaNode) option" where
  "easy_nodes procs mem nodes =
    (if procs \<le> 0 \<or> procs > int XR_PROC_MAX then None
     else if mem > RAMMAXIMUM then None
     else
       let (nodecount, left, nodes) = fill_procs XR_NODE_MAX 0 (nat procs) nodes;
           nodes = (if left \<noteq> 0 then nodes(nodecount := (nodes nodecount)\<lparr>ProcessorCount := of_nat left\<rparr>) else nodes);
           nodecount = (if left \<noteq> 0 then nodecount + 1 else nodecount);
           per = mem div of_nat nodecount; mem = of_nat nodecount * per;
           (mem, nodes) = fill_ram nodecount 0 (node_cap per) mem nodes
       in Some (fill_rest (XR_NODE_MAX - nodecount) nodecount mem nodes))"

section \<open>Building the machine\<close>

text \<open>\<open>XrProcessorCount\<close>, an \<open>int\<close>.\<close>

definition processor_count :: "(nat \<Rightarrow> XrNumaNode) \<Rightarrow> int" where
  "processor_count nodes = sint (sum_list (map (\<lambda>i. ProcessorCount (nodes i)) [0..<XR_NODE_MAX]))"

definition thread_count :: "int \<Rightarrow> int \<Rightarrow> int" where
  "thread_count threads procs = (if threads > procs \<or> threads = 0 then (procs + 1) div 2 else threads)"

text \<open>
  The order of \<open>main\<close> after the options; \<open>heap\<close>, \<open>sec\<close> and \<open>usec\<close> are as in \<open>EBusInit\<close>, \<open>junk\<close> is fresh memory. The result also has
  the number of threads. A node with more than four processors (a negative count) or a negative number of threads runs
  over a table.
\<close>

definition xr_main :: "HostFiles \<Rightarrow> (nat \<Rightarrow> bytes option) \<Rightarrow> int \<Rightarrow> int \<Rightarrow> XrProcessor \<Rightarrow> u8 list list \<Rightarrow> XrStart \<Rightarrow>
    StartError + XrStart \<times> int" where
  "xr_main host heap sec usec junk args st =
    (case parse_args host args st of
       Inl e \<Rightarrow> Inl e
     | Inr st \<Rightarrow>
         (case (if ExplicitNodes st then Some (XrNumaNodes st) else easy_nodes (EasyProcCount st) (EasyMemCount st) (XrNumaNodes st)) of
            None \<Rightarrow> Inl ReturnOne
          | Some nodes \<Rightarrow>
              let threads = thread_count (Threads st) (processor_count nodes)
              in (case EBusInit heap (\<lambda>i. RamSize (nodes i)) sec usec (TTY132ColumnMode st) (SerialRXFile st) (SerialTXFile st)
                    (Headless st) (StMachine st) of
                    None \<Rightarrow> Inl ReturnOne
                  | Some m \<Rightarrow>
                      if \<exists>i \<in> {0..<XR_NODE_MAX}. ProcessorCount (nodes i) > of_nat XR_PROC_PER_NODE_MAX then Inl Overrun
                      else if threads < 0 then Inl Overrun
                      else Inr (st\<lparr>XrNumaNodes := nodes,
                             StMachine := XrInitializeProcessors (\<lambda>i. unat (ProcessorCount (nodes i))) junk m\<rparr>, threads))))"

section \<open>The division among the nodes\<close>

lemma fill_procs_closed:
  "p \<le> 4 * k \<Longrightarrow> fill_procs k i p nodes =
    (i + p div 4, p mod 4, \<lambda>j. if i \<le> j \<and> j < i + p div 4 then (nodes j)\<lparr>ProcessorCount := 4\<rparr> else nodes j)"
proof (induction k arbitrary: i p nodes)
  case (Suc k)
  show ?case
  proof (cases "p < 4")
    case False
    have d: "p div 4 = Suc ((p - 4) div 4)" "p mod 4 = (p - 4) mod 4" using False by (simp_all add: le_div_geq le_mod_geq)
    show ?thesis using Suc.prems False d by (auto simp: Suc.IH fun_eq_iff)
  qed (auto simp: fun_eq_iff)
qed (auto simp: fun_eq_iff)

lemma fill_ram_closed:
  "fill_ram n i per mem nodes =
    (mem - of_nat n * per, \<lambda>j. if i \<le> j \<and> j < i + n then (nodes j)\<lparr>RamSize := per\<rparr> else nodes j)"
proof (induction n arbitrary: i mem nodes)
  case (Suc n)
  show ?case by (auto simp: Suc.IH fun_eq_iff algebra_simps)
qed (auto simp: fun_eq_iff)

lemma fill_rest_procs [simp]: "ProcessorCount (fill_rest n i mem nodes j) = ProcessorCount (nodes j)"
  by (induction n arbitrary: i mem nodes) simp_all

lemma fill_rest_below: "j < i \<Longrightarrow> fill_rest n i mem nodes j = nodes j"
  by (induction n arbitrary: i mem nodes) simp_all

lemma node_cap: "unat (node_cap mem) = min (unat mem) 0x4000000" "node_cap mem \<le> mem" "node_cap mem \<le> 0x4000000"
  by (auto simp: node_cap_def min_def word_less_nat_alt word_le_nat_alt)

lemma min_rest: "min a k + min (a - min a k) m = min a (k + m)" for a k m :: nat
  by arith

lemma fill_rest_ram:
  assumes "\<And>j. i \<le> j \<Longrightarrow> RamSize (nodes j) = 0"
  shows "(\<Sum>j = i..<i + n. unat (RamSize (fill_rest n i mem nodes j))) = min (unat mem) (n * 0x4000000)"
  using assms
proof (induction n arbitrary: i mem nodes)
  case (Suc n)
  show ?case
  proof (cases "mem = 0")
    case False
    let ?nodes = "nodes(i := (nodes i)\<lparr>RamSize := node_cap mem\<rparr>)"
    have "(\<Sum>j = Suc i..<Suc i + n. unat (RamSize (fill_rest n (Suc i) (mem - node_cap mem) ?nodes j))) =
        min (unat (mem - node_cap mem)) (n * 0x4000000)"
      by (rule Suc.IH) (use Suc.prems in simp)
    moreover have "unat (mem - node_cap mem) = unat mem - unat (node_cap mem)" by (rule unat_sub [OF node_cap(2)])
    moreover have "{i..<i + Suc n} = insert i {Suc i..<Suc i + n}" by auto
    ultimately show ?thesis
      using False by (simp add: fill_rest_below node_cap(1) min_rest del: sum.op_ivl_Suc)
  qed (use Suc.prems in simp)
qed simp

lemma fill_rest_cap:
  assumes "\<And>j. RamSize (nodes j) \<le> 0x4000000"
  shows "RamSize (fill_rest n i mem nodes j) \<le> 0x4000000"
  using assms by (induction n arbitrary: i mem nodes) (simp_all add: node_cap(3))

section \<open>Property\<close>

abbreviation no_nodes :: "nat \<Rightarrow> XrNumaNode" where
  "no_nodes \<equiv> \<lambda>_. \<lparr>RamSize = 0, ProcessorCount = 0\<rparr>"

text \<open>The nodes once they have their processors, and their even share of the memory.\<close>

definition proc_nodes :: "nat \<Rightarrow> nat \<Rightarrow> XrNumaNode" where
  "proc_nodes procs j = \<lparr>RamSize = 0, ProcessorCount = of_nat (if j < procs div 4 then 4 else if j = procs div 4 then procs mod 4 else 0)\<rparr>"

definition share_nodes :: "nat \<Rightarrow> u32 \<Rightarrow> nat \<Rightarrow> nat \<Rightarrow> XrNumaNode" where
  "share_nodes c q procs j = (if j < c then (proc_nodes procs j)\<lparr>RamSize := node_cap q\<rparr> else proc_nodes procs j)"

abbreviation share_rest :: "nat \<Rightarrow> u32 \<Rightarrow> u32" where
  "share_rest c q \<equiv> of_nat c * q - of_nat c * node_cap q"

lemma easy_nodes_closed:
  assumes "0 < procs" "procs \<le> XR_PROC_MAX" "mem \<le> RAMMAXIMUM"
  defines "c \<equiv> (procs + 3) div 4"
  shows "easy_nodes (int procs) mem no_nodes =
    Some (fill_rest (4 - c) c (share_rest c (mem div of_nat c)) (share_nodes c (mem div of_nat c) procs))"
proof -
  let ?n1 = "\<lambda>j. if j < procs div 4 then (no_nodes j)\<lparr>ProcessorCount := 4\<rparr> else no_nodes j"
  have c: "c = (if procs mod 4 \<noteq> 0 then procs div 4 + 1 else procs div 4)"
    using assms(1,2) unfolding c_def by presburger
  have f: "fill_procs 4 0 procs no_nodes = (procs div 4, procs mod 4, ?n1)"
    using fill_procs_closed [of procs 4 0 no_nodes] assms(2) by simp
  have n: "proc_nodes procs = (if procs mod 4 \<noteq> 0 then ?n1(procs div 4 := (?n1 (procs div 4))\<lparr>ProcessorCount := of_nat (procs mod 4)\<rparr>) else ?n1)"
    by (auto simp: proc_nodes_def fun_eq_iff)
  show ?thesis
    unfolding share_nodes_def [abs_def] n c
    using assms(1-3) by (cases "procs mod 4 = 0") (simp_all add: easy_nodes_def f fill_ram_closed Let_def not_less)
qed

text \<open>The even shares and what is left for further nodes add up to all of the memory that was divided.\<close>

lemma shares_sum:
  assumes "0 < c" "c \<le> 4" "mem \<le> RAMMAXIMUM"
  defines "q \<equiv> mem div of_nat c"
  shows "(\<Sum>n = 0..<4. unat (RamSize (fill_rest (4 - c) c (share_rest c q) (share_nodes c q procs) n))) = c * (unat mem div c)"
proof -
  let ?nodes = "fill_rest (4 - c) c (share_rest c q) (share_nodes c q procs)"
  have uc: "unat (of_nat c :: u32) = c" using assms(2) by (simp add: unat_of_nat)
  then have uq: "unat q = unat mem div c" by (simp add: q_def unat_div)
  have m: "unat mem \<le> 0x10000000" using assms(3) by (simp add: word_le_nat_alt)
  have cq: "c * unat q \<le> unat mem" by (simp add: uq)
  have le: "unat (node_cap q) \<le> unat q" by (simp add: node_cap(1))
  have mult: "unat (of_nat c * x) = c * unat x" if "c * unat x \<le> unat mem" for x :: u32
    using that m uc by (simp add: unat_word_ariths)
  have "c * unat (node_cap q) \<le> unat mem" using cq le by (meson le_trans mult_le_mono2)
  note u = mult [OF cq] mult [OF this]
  have "of_nat c * node_cap q \<le> of_nat c * q" using le u by (simp add: word_le_nat_alt)
  then have rest: "unat (share_rest c q) = c * unat q - c * unat (node_cap q)" by (simp add: unat_sub u)
  have lim: "unat (share_rest c q) \<le> (4 - c) * 0x4000000"
  proof (cases "unat q \<le> 0x4000000")
    case False
    then have "unat (share_rest c q) = c * unat q - c * 0x4000000" by (simp add: rest node_cap(1))
    then show ?thesis using cq m assms(2) by (simp add: diff_mult_distrib)
  qed (simp add: rest node_cap(1))
  have "(\<Sum>n = c..<c + (4 - c). unat (RamSize (?nodes n))) = min (unat (share_rest c q)) ((4 - c) * 0x4000000)"
    by (rule fill_rest_ram) (simp add: share_nodes_def proc_nodes_def)
  then have "(\<Sum>n = c..<4. unat (RamSize (?nodes n))) = unat (share_rest c q)" using lim assms(2) by simp
  moreover have "(\<Sum>n = 0..<c. unat (RamSize (?nodes n))) = c * unat (node_cap q)"
    by (simp add: fill_rest_below share_nodes_def)
  moreover have "c * unat (node_cap q) \<le> c * unat q" using le by simp
  ultimately show ?thesis
    using sum.atLeastLessThan_concat [of 0 c 4 "\<lambda>n. unat (RamSize (?nodes n))"] assms(2) by (simp add: rest uq)
qed

lemma proc_numbers: "p mod 4 < (if p div 4 < n div 4 then 4 else if p div 4 = n div 4 then n mod 4 else 0) \<longleftrightarrow> p < (n :: nat)"
proof -
  obtain a b where p: "p = 4 * a + b" "b < 4" "p div 4 = a" "p mod 4 = b" by (metis mult_div_mod_eq mod_less_divisor zero_less_numeral)
  obtain a' b' where n: "n = 4 * a' + b'" "b' < 4" "n div 4 = a'" "n mod 4 = b'"
    by (metis mult_div_mod_eq mod_less_divisor zero_less_numeral)
  show ?thesis unfolding p(3,4) n(3,4) using p(1,2) n(1,2) by auto
qed

text \<open>
  Claim C33. Without explicit nodes the start-up distributes exactly the processors asked for, numbered from 0 without a gap, over as few
  nodes as possible, and all of the memory but the remainder of its division among those nodes, never more than 64MB in a node.
\<close>

theorem easy_nodes_distribute:
  assumes "0 < procs" "procs \<le> XR_PROC_MAX" "mem \<le> RAMMAXIMUM"
  shows "\<exists>nodes. easy_nodes (int procs) mem no_nodes = Some nodes \<and>
    (\<forall>p < XR_PROC_MAX. p mod 4 < unat (ProcessorCount (nodes (p div 4))) \<longleftrightarrow> p < procs) \<and>
    (\<Sum>n = 0..<XR_NODE_MAX. unat (RamSize (nodes n))) = (procs + 3) div 4 * (unat mem div ((procs + 3) div 4)) \<and>
    (\<forall>n. RamSize (nodes n) \<le> 0x4000000)"
proof -
  define c where "c = (procs + 3) div 4"
  define q where "q = mem div of_nat c"
  let ?nodes = "fill_rest (4 - c) c (share_rest c q) (share_nodes c q procs)"
  have c: "0 < c" "c \<le> 4" using assms(1,2) unfolding c_def by presburger+
  have "unat (ProcessorCount (?nodes j)) = (if j < procs div 4 then 4 else if j = procs div 4 then procs mod 4 else 0)" for j
  proof -
    have "unat (of_nat (procs mod 4) :: u32) = procs mod 4" by (simp add: unat_of_nat)
    then show ?thesis by (auto simp: share_nodes_def proc_nodes_def)
  qed
  then have "p mod 4 < unat (ProcessorCount (?nodes (p div 4))) \<longleftrightarrow> p < procs" for p using proc_numbers [of p procs] by simp
  moreover have "RamSize (?nodes n) \<le> 0x4000000" for n
    by (rule fill_rest_cap) (simp add: share_nodes_def proc_nodes_def node_cap(3))
  moreover have "(\<Sum>n = 0..<4. unat (RamSize (?nodes n))) = c * (unat mem div c)"
    unfolding q_def by (rule shares_sum [OF c assms(3)])
  ultimately show ?thesis using easy_nodes_closed [OF assms] unfolding c_def q_def by auto
qed

theorem easy_nodes_distribute_witness:
  "\<exists>nodes. easy_nodes (int 6) 0x400000 no_nodes = Some nodes \<and>
    (\<forall>p < XR_PROC_MAX. p mod 4 < unat (ProcessorCount (nodes (p div 4))) \<longleftrightarrow> p < 6) \<and>
    (\<Sum>n = 0..<XR_NODE_MAX. unat (RamSize (nodes n))) = (6 + 3) div 4 * (unat (0x400000 :: u32) div ((6 + 3) div 4)) \<and>
    (\<forall>n. RamSize (nodes n) \<le> 0x4000000)"
  by (rule easy_nodes_distribute) simp_all

section \<open>The machine that is built\<close>

text \<open>No option touches the table of processors.\<close>

definition same_procs :: "XrStart \<Rightarrow> StartError + XrStart \<times> nat \<Rightarrow> bool" where
  "same_procs st r \<longleftrightarrow> (case r of Inl e \<Rightarrow> True
     | Inr (st', n) \<Rightarrow> XrProcessorPresent (StMachine st') = XrProcessorPresent (StMachine st))"

lemma same_procs_simps [simp]:
  "same_procs st (Inl e)"
  "same_procs st (Inr (st', n)) \<longleftrightarrow> XrProcessorPresent (StMachine st') = XrProcessorPresent (StMachine st)"
  "(\<And>v. XrProcessorPresent (StMachine (f v)) = XrProcessorPresent (StMachine st)) \<Longrightarrow> same_procs st (with_value args f)"
  "(\<And>v st'. g v = Some st' \<Longrightarrow> XrProcessorPresent (StMachine st') = XrProcessorPresent (StMachine st)) \<Longrightarrow>
    same_procs st (with_file host args g)"
  "same_procs st (node_option args st)"
  by (auto simp: same_procs_def with_value_def with_file_def node_option_def Let_def split: list.split option.split)

lemma attach_present: "DKSAttachImage bs n m = Some m' \<Longrightarrow> XrProcessorPresent m' = XrProcessorPresent m"
  by (auto simp: DKSAttachImage_def set_disk_def Let_def split: option.splits prod.splits)

lemma same_procs_if: "same_procs st x \<Longrightarrow> same_procs st y \<Longrightarrow> same_procs st (if c then x else y)"
  by simp

lemma parse_option_same: "same_procs st (parse_option host a args st)"
  unfolding parse_option_def
  by (intro same_procs_if same_procs_simps(3,4)) (auto simp: NVRAMLoadFile_def ROMLoadFile_def dest: attach_present)

lemma parse_option_present:
  "parse_option host a args st = Inr (st', n) \<Longrightarrow> XrProcessorPresent (StMachine st') = XrProcessorPresent (StMachine st)"
  using parse_option_same [of st host a args] by simp

lemma parse_args_present:
  "parse_args host args st = Inr st' \<Longrightarrow> XrProcessorPresent (StMachine st') = XrProcessorPresent (StMachine st)"
  by (induction host args st rule: parse_args.induct) (auto dest: parse_option_present split: sum.splits)

lemma EBusInit_present:
  "EBusInit heap noderam sec usec columns132 rx tx headless m = Some m' \<Longrightarrow> XrProcessorPresent m' = XrProcessorPresent m"
  by (auto simp: EBusInit_def PBoardInit_def SerialInit_def DKSInit_def RTCUpdateRealTime_def AmtsuInit_def KinnowInit_def
      Let_def set_kinnow_def KeyboardInit_def MouseInit_def set_device_def set_port_def split: option.splits if_splits)

lemma initialize_fields:
  "XrProcessorPresent (XrInitializeProcessor junk n m) = (XrProcessorPresent m)(n := True)"
  "q \<noteq> n \<Longrightarrow> proc_of (XrInitializeProcessor junk n m) q = proc_of m q"
  "proc_of (XrInitializeProcessor junk n m) n =
    XrReset (junk\<lparr>ProcId := n, TimerInterruptCounter := 0, CyclesThisRound := 0, Ibc := iblock_cache_init (Ibc junk)\<rparr>)"
  by (simp_all add: XrInitializeProcessor_def Let_def)

lemma initialize_all:
  assumes "distinct ns"
  shows "XrProcessorPresent (fold (XrInitializeProcessor junk) ns m) p \<longleftrightarrow> p \<in> set ns \<or> XrProcessorPresent m p"
    and "proc_of (fold (XrInitializeProcessor junk) ns m) p = (if p \<in> set ns
      then XrReset (junk\<lparr>ProcId := p, TimerInterruptCounter := 0, CyclesThisRound := 0, Ibc := iblock_cache_init (Ibc junk)\<rparr>)
      else proc_of m p)"
  using assms by (induction ns arbitrary: m) (auto simp: initialize_fields)

text \<open>The numbers of the processors of nodes with at most four processors each.\<close>

lemma node_processors:
  assumes "\<And>n. n < 4 \<Longrightarrow> count n \<le> (4 :: nat)"
  shows "distinct (concat (map (\<lambda>node. map (\<lambda>i. node * 4 + i) [0..<count node]) [0..<4]))"
    and "p \<in> set (concat (map (\<lambda>node. map (\<lambda>i. node * 4 + i) [0..<count node]) [0..<4])) \<longleftrightarrow> p < 16 \<and> p mod 4 < count (p div 4)"
proof -
  let ?ns = "\<lambda>k. concat (map (\<lambda>node. map (\<lambda>i. node * 4 + i) [0..<count node]) [0..<k])"
  have m: "p \<in> set (?ns k) \<longleftrightarrow> p < 4 * k \<and> p mod 4 < count (p div 4)" if "k \<le> 4" for k p
  proof
    assume "p \<in> set (?ns k)"
    then obtain n where "n < k" "n * 4 \<le> p" "p < count n + n * 4" by auto
    then obtain i where n: "n < k" "i < count n" "p = n * 4 + i" by (auto simp: le_iff_add)
    then have "i < 4" using assms [of n] that by simp
    then have "p div 4 = n" "p mod 4 = i" using n by simp_all
    then show "p < 4 * k \<and> p mod 4 < count (p div 4)" using n \<open>i < 4\<close> by simp
  next
    assume p: "p < 4 * k \<and> p mod 4 < count (p div 4)"
    moreover have "p < count (p div 4) + p div 4 * 4" using p div_mult_mod_eq [of p 4] by linarith
    moreover have "p div 4 < k" using p by (simp add: less_mult_imp_div_less mult.commute)
    ultimately show "p \<in> set (?ns k)" by (auto intro!: bexI [of _ "p div 4"])
  qed
  have d: "k \<le> 4 \<Longrightarrow> distinct (?ns k)" for k
  proof (induction k)
    case (Suc k)
    have "set (?ns k) \<inter> (\<lambda>i. k * 4 + i) ` {0..<count k} = {}"
    proof -
      have "x < 4 * k" if "x \<in> set (?ns k)" for x using m [of k x] that Suc.prems Suc_leD by blast
      then show ?thesis by fastforce
    qed
    then show ?case using Suc by (simp add: distinct_map inj_on_def)
  qed simp
  show "distinct (?ns 4)" by (rule d) simp
  show "p \<in> set (?ns 4) \<longleftrightarrow> p < 16 \<and> p mod 4 < count (p div 4)" using m [of 4 p] by simp
qed

text \<open>
  Claim C32. The machine that start-up hands to the scheduler has exactly the processors of its nodes, each with its number, at the
  reset address, in kernel mode, with the zero register zero and an empty well-formed block cache, and at least as many threads as none.
\<close>

theorem startup_machine:
  assumes "xr_main host heap sec usec junk args st = Inr (st', threads)" "\<And>p. \<not> XrProcessorPresent (StMachine st) p"
  shows "0 \<le> threads \<and> (\<forall>p. (XrProcessorPresent (StMachine st') p \<longleftrightarrow>
      p < XR_PROC_MAX \<and> p mod 4 < unat (ProcessorCount (XrNumaNodes st' (p div 4)))) \<and>
    (XrProcessorPresent (StMachine st') p \<longrightarrow>
      (let proc = proc_of (StMachine st') p
       in ProcId proc = p \<and> Pc proc = 0xFFFE1000 \<and> Cr proc RS = 0 \<and> Running proc \<and> Reg proc XR_FAKE_ZERO_REGISTER = 0 \<and>
          code_ok (Ibc proc) \<and> XrLookupIblock 0xFFFE1000 0xFFFFFFFF (Ibc proc) = None)))"
proof -
  obtain st1 nodes m where p: "parse_args host args st = Inr st1"
    and e: "EBusInit heap (\<lambda>i. RamSize (nodes i)) sec usec (TTY132ColumnMode st1) (SerialRXFile st1) (SerialTXFile st1)
                    (Headless st1) (StMachine st1) = Some m"
    and c: "\<And>i. i < 4 \<Longrightarrow> \<not> ProcessorCount (nodes i) > 4" "0 \<le> threads"
    and st': "st' = st1\<lparr>XrNumaNodes := nodes, StMachine := XrInitializeProcessors (\<lambda>i. unat (ProcessorCount (nodes i))) junk m\<rparr>"
    using assms(1) unfolding xr_main_def Let_def by (auto split: sum.splits option.splits if_splits)
  define count where "count = (\<lambda>i. unat (ProcessorCount (nodes i)))"
  have le: "count i \<le> 4" if "i < 4" for i using c(1) [OF that] by (simp add: count_def not_less word_le_nat_alt)
  note ns = node_processors [of count, OF le]
  have none: "\<not> XrProcessorPresent m p" for p
    using parse_args_present [OF p] EBusInit_present [OF e] assms(2) by simp
  note i = initialize_all [OF ns(1), where junk = junk and m = m]
  have m': "StMachine st' = fold (XrInitializeProcessor junk) (concat (map (\<lambda>node. map (\<lambda>i. node * 4 + i) [0..<count node]) [0..<4])) m"
    by (simp add: st' XrInitializeProcessors_def count_def)
  have init: "code_ok (iblock_cache_init (Ibc junk))" "XrLookupIblock 0xFFFE1000 0xFFFFFFFF (iblock_cache_init (Ibc junk)) = None"
    using init_ok [of "Ibc junk"] by (simp_all add: code_ok_def) (simp_all add: iblock_cache_init_def XrLookupIblock_def)
  have present: "XrProcessorPresent (StMachine st') p \<longleftrightarrow> p < 16 \<and> p mod 4 < count (p div 4)" for p
    using i(1) [of p] ns(2) [of p] none [of p] m' by metis
  have proc: "proc_of (StMachine st') p =
      XrReset (junk\<lparr>ProcId := p, TimerInterruptCounter := 0, CyclesThisRound := 0, Ibc := iblock_cache_init (Ibc junk)\<rparr>)"
    if "XrProcessorPresent (StMachine st') p" for p
    using i(2) [of p] ns(2) [of p] that present [of p] m' by metis
  have "XrNumaNodes st' = nodes" by (simp add: st')
  then show ?thesis
    using c(2) present proc init by (simp add: XrReset_def count_def)
qed

section \<open>Witness\<close>

text \<open>The program without arguments: one processor and 4MB.\<close>

definition start_zero :: XrStart where
  "start_zero = \<lparr>StMachine = machine_zero\<lparr>XrProcessorPresent := \<lambda>_. False\<rparr>, Headless = False, RAMDumpOnExit = False, KinnowDumpOnExit = False,
     XrProcessorFrequency = 20000000, SerialRXFile = None, SerialTXFile = False, XrPrintCache = False, DKSPrint = False,
     TTY132ColumnMode = False, Threads = 0, EasyProcCount = 1, EasyMemCount = 0x400000, ExplicitNodes = False, XrNumaNodes = no_nodes\<rparr>"

lemma fill_rest_none: "fill_rest n i 0 nodes = nodes"
  by (cases n) simp_all

definition one_node :: "nat \<Rightarrow> XrNumaNode" where
  "one_node = no_nodes(0 := \<lparr>RamSize = 0x400000, ProcessorCount = 1\<rparr>)"

lemma one_node_made: "easy_nodes 1 0x400000 no_nodes = Some one_node"
  using fill_procs_closed [of 1 4 0 no_nodes]
  by (simp add: easy_nodes_def fill_ram_closed node_cap_def fill_rest_none Let_def one_node_def fun_eq_iff)

lemma EBusInit_some:
  "(\<And>s. heap s \<noteq> None) \<Longrightarrow> \<exists>m'. EBusInit heap noderam sec usec columns132 rx tx headless m = Some m'"
  by (simp add: EBusInit_def RAMInit_def Let_def)

lemma one_node_count: "processor_count one_node = 1"
proof -
  have "[0..<4] = [0, 1, 2, 3 :: nat]" by (simp add: upt_rec)
  then show ?thesis by (simp add: processor_count_def one_node_def)
qed

lemma start_zero_runs:
  "\<exists>st'. xr_main (\<lambda>_. None) (\<lambda>_. Some (\<lambda>_. 0)) 0 0 proc_zero [] start_zero = Inr (st', 1)"
proof -
  obtain m where "EBusInit (\<lambda>_. Some (\<lambda>_. 0)) (\<lambda>i. RamSize (one_node i)) 0 0 False None False False
      (machine_zero\<lparr>XrProcessorPresent := \<lambda>_. False\<rparr>) = Some m"
    using EBusInit_some [of "\<lambda>_. Some (\<lambda>_. 0)"] by blast
  moreover have "\<not> ProcessorCount (one_node i) > 4" for i by (simp add: one_node_def)
  ultimately show ?thesis
    by (simp add: xr_main_def start_zero_def one_node_made thread_count_def one_node_count)
qed

theorem startup_machine_witness:
  "\<exists>st'. xr_main (\<lambda>_. None) (\<lambda>_. Some (\<lambda>_. 0)) 0 0 proc_zero [] start_zero = Inr (st', 1) \<and>
    (XrProcessorPresent (StMachine st') 0 \<longleftrightarrow> 0 < unat (ProcessorCount (XrNumaNodes st' 0)))"
proof -
  obtain st' where e: "xr_main (\<lambda>_. None) (\<lambda>_. Some (\<lambda>_. 0)) 0 0 proc_zero [] start_zero = Inr (st', 1)"
    using start_zero_runs by blast
  have "\<not> XrProcessorPresent (StMachine start_zero) p" for p by (simp add: start_zero_def)
  note m = startup_machine [OF e this]
  have "XrProcessorPresent (StMachine st') 0 \<longleftrightarrow> 0 < XR_PROC_MAX \<and> 0 mod 4 < unat (ProcessorCount (XrNumaNodes st' (0 div 4)))"
    using m by blast
  then show ?thesis using e by simp
qed

end
