(* ===== verification/Dbg.thy ===== *)
theory Dbg
  imports CLib TtyInv Board XrTb
begin

text \<open>
  The debugger inside the emulator, \<^verbatim>\<open>src/src/dbg.c\<close>: its command line on a terminal of its
  own, the commands, and the translation of guest addresses. \<^term>\<open>None\<close> is an access outside an array or through a
  null pointer. What \<open>sprintf\<close> writes must fit \<open>printbuf\<close>. \<open>junk\<close> is the contents of local variables before
  they are assigned.
\<close>

section \<open>State\<close>

abbreviation (input) "CMD_MAX \<equiv> 256 :: nat"

record Dbg =
  DbgTty :: TTY
  Cmdline :: "nat \<Rightarrow> u8"
  CmdIndex :: nat
  TokenBuf :: "u8 list"
  CmdNextToken :: "nat option"
  DbgSelectedCpu :: nat
  DbgMachine :: Machine

definition DbgRegNames :: "u8 list list" where
  "DbgRegNames = map cstr [''zero'', ''t0'', ''t1'', ''t2'', ''t3'', ''t4'', ''t5'', ''a0'', ''a1'', ''a2'', ''a3'', ''s0'',
     ''s1'', ''s2'', ''s3'', ''s4'', ''s5'', ''s6'', ''s7'', ''s8'', ''s9'', ''s10'', ''s11'', ''s12'',
     ''s13'', ''s14'', ''s15'', ''s16'', ''s17'', ''tp'', ''sp'', ''lr'']"

text \<open>An empty name is a null pointer.\<close>

definition DbgCrNames :: "u8 list list" where
  "DbgCrNames = map cstr [''rs'', ''whami'', [], [], [], ''eb'', ''epc'', ''ebadaddr'', [], ''tbmissaddr'', ''tbpc'', ''scratch0'',
     ''scratch1'', ''scratch2'', ''scratch3'', ''scratch4'', ''itbpte'', ''itbtag'', ''itbindex'', ''itbctrl'',
     ''icachectrl'', ''itbaddr'', [], [], ''dtbpte'', ''dtbtag'', ''dtbindex'', ''dtbctrl'', ''dcachectrl'',
     ''dtbaddr'', [], []]"

definition DbgTbFlags :: "u8 list list" where
  "DbgTbFlags = map cstr [''V'', ''W'', ''K'', ''N'', ''G'']"

section \<open>Tokens\<close>

text \<open>The loop over delimiters; \<open>n\<close> bytes of the line are left.\<close>

fun skip_delimiter :: "(nat \<Rightarrow> u8) \<Rightarrow> u8 \<Rightarrow> nat \<Rightarrow> nat \<Rightarrow> nat option" where
  "skip_delimiter buffer delimiter 0 i = None"
| "skip_delimiter buffer delimiter (Suc n) i = (if buffer i = delimiter then skip_delimiter buffer delimiter n (i + 1) else Some i)"

fun copy_token :: "(nat \<Rightarrow> u8) \<Rightarrow> u8 \<Rightarrow> nat \<Rightarrow> nat \<Rightarrow> u8 list \<times> nat" where
  "copy_token buffer delimiter 0 i = ([], i)"
| "copy_token buffer delimiter (Suc n) i =
    (if buffer i = delimiter \<or> buffer i = 0 then ([], i)
     else let (token, j) = copy_token buffer delimiter n (i + 1) in (buffer i # token, j))"

text \<open>The token and the position after it; the inner \<^term>\<open>None\<close> is the null pointer at the end of the string.\<close>

definition RtlTokenize :: "(nat \<Rightarrow> u8) \<Rightarrow> nat \<Rightarrow> nat \<Rightarrow> u8 \<Rightarrow> (u8 list \<times> nat) option option" where
  "RtlTokenize buffer i bufsize delimiter =
    (case skip_delimiter buffer delimiter (CMD_MAX - i) i of
       None \<Rightarrow> None
     | Some i \<Rightarrow> if buffer i = 0 then Some None else Some (Some (copy_token buffer delimiter (bufsize - 1) i)))"

definition DbgNextToken :: "Dbg \<Rightarrow> (bool \<times> Dbg) option" where
  "DbgNextToken d =
    (case CmdNextToken d of
       None \<Rightarrow> Some (False, d)
     | Some i \<Rightarrow>
         (case RtlTokenize (Cmdline d) i CMD_MAX 32 of
            None \<Rightarrow> None
          | Some None \<Rightarrow> Some (False, d\<lparr>CmdNextToken := None\<rparr>)
          | Some (Some (token, j)) \<Rightarrow> Some (True, d\<lparr>CmdNextToken := Some j, TokenBuf := token\<rparr>)))"

definition DbgParseAddress :: "u8 list \<Rightarrow> u32" where
  "DbgParseAddress addr =
    word_of_int (if addr \<noteq> [] \<and> addr ! 0 = 48 then
                   if length addr > 1 \<and> addr ! 1 = 120 then strtol addr 16 else strtol addr 8
                 else strtol addr 10)"

section \<open>Output\<close>

text \<open>
  What a terminal answers to a cursor query goes to its input, the debugger itself: \<open>dbg_type\<close> is \<open>DbgInput\<close> for a
  character that is neither a carriage return nor a backspace, which an answer has none of. The first argument
  bounds the nesting: an answer, echoed, asks for no further answer.
\<close>

fun dbg_put :: "nat \<Rightarrow> u8 \<Rightarrow> Dbg \<Rightarrow> Dbg option"
  and dbg_answers :: "nat \<Rightarrow> u8 list \<Rightarrow> Dbg \<Rightarrow> Dbg option"
  and dbg_type :: "nat \<Rightarrow> u8 \<Rightarrow> Dbg \<Rightarrow> Dbg option" where
  "dbg_put n c d =
    (case TTYPutCharacter c (DbgTty d) of
       None \<Rightarrow> None
     | Some (tty, answer) \<Rightarrow>
         if answer = [] then Some (d\<lparr>DbgTty := tty\<rparr>)
         else case n of 0 \<Rightarrow> None | Suc n \<Rightarrow> dbg_answers n answer (d\<lparr>DbgTty := tty\<rparr>))"
| "dbg_answers n [] d = Some d"
| "dbg_answers n (c # cs) d = (case dbg_type n c d of None \<Rightarrow> None | Some d \<Rightarrow> dbg_answers n cs d)"
| "dbg_type n c d =
    (if CmdIndex d < CMD_MAX - 1 then
       case dbg_put n c (d\<lparr>Cmdline := (Cmdline d)(CmdIndex d := c)\<rparr>) of
         None \<Rightarrow> None
       | Some d \<Rightarrow> Some (d\<lparr>CmdIndex := CmdIndex d + 1\<rparr>)
     else Some d)"

definition put_char :: "u8 \<Rightarrow> Dbg \<Rightarrow> Dbg option" where
  "put_char = dbg_put 1"

fun DbgPutString :: "u8 list \<Rightarrow> Dbg \<Rightarrow> Dbg option" where
  "DbgPutString [] d = Some d"
| "DbgPutString (c # str) d = do {
     d \<leftarrow> (if c = 10 then put_char 13 d else Some d);
     d \<leftarrow> put_char c d;
     DbgPutString str d }"

definition dbg_say :: "string \<Rightarrow> Dbg \<Rightarrow> Dbg option" where
  "dbg_say str = DbgPutString (cstr str)"

text \<open>\<open>sprintf\<close> to \<open>printbuf\<close>, then the output.\<close>

definition dbg_printf :: "u8 list \<Rightarrow> Dbg \<Rightarrow> Dbg option" where
  "dbg_printf s d = (if length s + 1 \<le> CMD_MAX then DbgPutString s d else None)"

definition DbgPrompt :: "Dbg \<Rightarrow> Dbg option" where
  "DbgPrompt = dbg_say ''emu>> ''"

text \<open>A string that ends in a line feed.\<close>

definition dbg_line :: "string \<Rightarrow> Dbg \<Rightarrow> Dbg option" where
  "dbg_line str = DbgPutString (cstr str @ [10])"

definition DbgHeader :: "Dbg \<Rightarrow> Dbg option" where
  "DbgHeader = dbg_line ''Emulator Level Debugger''"

section \<open>Translation\<close>

abbreviation (input) "DBG_TRANSLATE_PHYSICAL \<equiv> 1 :: u32"
abbreviation (input) "DBG_TRANSLATE_BYPASS_TB \<equiv> 2 :: u32"
abbreviation (input) "DBG_TRANSLATE_BYPASS_PT \<equiv> 4 :: u32"
abbreviation (input) "DBG_TRANSLATE_PRINT \<equiv> 8 :: u32"
abbreviation (input) "DBG_TRANSLATE_ISTREAM \<equiv> 16 :: u32"
abbreviation (input) "DBG_TRANSLATE_FIGURE_IT_OUT \<equiv> 32 :: u32"
abbreviation (input) "DBG_TRANSLATE_BYPASS_TB_FOR_PGTB \<equiv> 64 :: u32"

definition dbg_proc :: "Dbg \<Rightarrow> XrProcessor option" where
  "dbg_proc d = (if XrProcessorPresent (DbgMachine d) (DbgSelectedCpu d)
     then Some (XrProcessorTable (DbgMachine d) (DbgSelectedCpu d)) else None)"

definition dbg_when :: "u32 \<Rightarrow> (Dbg \<Rightarrow> Dbg option) \<Rightarrow> Dbg \<Rightarrow> Dbg option" where
  "dbg_when flags act d = (if flags AND DBG_TRANSLATE_PRINT \<noteq> 0 then act d else Some d)"

definition DbgTranslateAddressTb :: "(nat \<Rightarrow> u64) \<Rightarrow> u32 \<Rightarrow> u32 \<Rightarrow> nat \<Rightarrow> (nat \<times> u64) option" where
  "DbgTranslateAddressTb tb addr asid tbsize =
    (let vpn = drop_bit 12 addr; matching = push_bit 20 asid OR vpn
     in map_option (\<lambda>i. (i, tb i))
          (List.find (\<lambda>i. let mask = (if tb i AND 16 \<noteq> 0 then 0xFFFFF else 0xFFFFFFFF) :: u32
                          in drop_bit 32 (tb i) AND ucast mask = ucast (matching AND mask)) [0..<tbsize]))"

definition tbe_phys :: "u64 \<Rightarrow> u32 \<Rightarrow> u32" where
  "tbe_phys tbe addr = ucast (push_bit 12 (drop_bit 5 tbe)) OR (addr AND 0xFFF)"

definition pte_phys :: "u32 \<Rightarrow> u32 \<Rightarrow> u32" where
  "pte_phys pte addr = push_bit 12 (drop_bit 5 pte) OR (addr AND 0xFFF)"

text \<open>A word from the bus; a successful read may leave bytes of the variable as they were.\<close>

definition dbg_read :: "CitronTable \<Rightarrow> u32 \<Rightarrow> u32 \<Rightarrow> Dbg \<Rightarrow> u32 option \<times> Dbg" where
  "dbg_read ports junk addr d =
    (let (st, bs, m) = EBusRead ports addr 4 (DbgSelectedCpu d) (DbgMachine d)
     in (if st = EBUSSUCCESS then Some (u32_of_bytes (bs @ drop (length bs) (bytes_of_u32 junk))) else None, d\<lparr>DbgMachine := m\<rparr>))"

definition tb_text :: "string \<Rightarrow> nat \<Rightarrow> u64 \<Rightarrow> u8 list" where
  "tb_text name index tbe = cstr name @ [91] @ sprintf_d (of_nat index) @ cstr '']='' @ sprintf_X 16 tbe @ [32]"

type_synonym DbgTranslation = "Dbg \<Rightarrow> (u32 option \<times> Dbg) option"

definition load_pte :: "CitronTable \<Rightarrow> (nat \<Rightarrow> u32) \<Rightarrow> u32 \<Rightarrow> u32 \<Rightarrow> u32 \<Rightarrow> DbgTranslation" where
  "load_pte ports junk physpteaddr addr flags d =
    (case dbg_read ports (junk 2) physpteaddr d of
       (None, d) \<Rightarrow> do {
         d \<leftarrow> dbg_when flags (dbg_printf (cstr ''PteBusError@Phys['' @ sprintf_x8 physpteaddr @ cstr ''] '')) d;
         Some (None, d) }
     | (Some pte, d) \<Rightarrow> do {
         d \<leftarrow> dbg_when flags (dbg_printf (cstr ''Pte@Phys['' @ sprintf_X8 physpteaddr @ cstr '']='' @ sprintf_X8 pte @ [32])) d;
         Some (if pte AND 1 = 0 then None else Some (pte_phys pte addr), d) })"

definition load_pde :: "CitronTable \<Rightarrow> (nat \<Rightarrow> u32) \<Rightarrow> u32 \<Rightarrow> u32 \<Rightarrow> u32 \<Rightarrow> u32 \<Rightarrow> DbgTranslation" where
  "load_pde ports junk physpdeaddr ptevaddr addr flags d =
    (case dbg_read ports (junk 1) physpdeaddr d of
       (None, d) \<Rightarrow> do {
         d \<leftarrow> dbg_when flags (dbg_printf (cstr ''PdeBusError@Phys['' @ sprintf_x8 physpdeaddr @ cstr ''] '')) d;
         Some (None, d) }
     | (Some pde, d) \<Rightarrow> do {
         d \<leftarrow> dbg_when flags (dbg_printf (cstr ''Pde@Phys['' @ sprintf_X8 physpdeaddr @ cstr '']='' @ sprintf_X8 pde @ [32])) d;
         if pde AND 1 = 0 then Some (None, d) else load_pte ports junk (pte_phys pde ptevaddr) addr flags d })"

text \<open>The page tables; \<open>physpdeaddr\<close> is not assigned when no entry maps the page directory (\<open>junk 0\<close>).\<close>

definition dbg_walk :: "CitronTable \<Rightarrow> (nat \<Rightarrow> u32) \<Rightarrow> XrProcessor \<Rightarrow> u32 \<Rightarrow> u32 \<Rightarrow> u32 \<Rightarrow> u32 \<Rightarrow> DbgTranslation" where
  "dbg_walk ports junk proc pgtb asid addr flags d =
    (if pgtb = 0 then do { d \<leftarrow> dbg_when flags (dbg_say ''NoPageTable '') d; Some (None, d) }
     else
       let ptevaddr = pgtb + push_bit 2 (drop_bit 12 addr)
       in case (if flags AND DBG_TRANSLATE_BYPASS_TB_FOR_PGTB = 0
                then DbgTranslateAddressTb (Dtb proc) ptevaddr asid XR_TB_SIZE else None) of
            Some (index, pttbe) \<Rightarrow> do {
              d \<leftarrow> dbg_when flags (dbg_printf (tb_text ''Pde@DTB'' index pttbe)) d;
              if pttbe AND 1 = 0 then Some (None, d) else load_pte ports junk (tbe_phys pttbe ptevaddr) addr flags d }
          | None \<Rightarrow>
              if addr AND 0xFFC00000 = pgtb then do { d \<leftarrow> dbg_when flags (dbg_say ''NoPageDirTbe '') d; Some (None, d) }
              else
                let pdevaddr = pgtb + push_bit 2 (drop_bit 12 ptevaddr)
                in case DbgTranslateAddressTb (Dtb proc) pdevaddr asid XR_TB_SIZE of
                     Some (index, pdtbe) \<Rightarrow> do {
                       d \<leftarrow> dbg_when flags (dbg_printf (tb_text ''PdTbe@DTB'' index pdtbe)) d;
                       if pdtbe AND 1 = 0 then Some (None, d)
                       else load_pde ports junk (tbe_phys pdtbe pdevaddr) ptevaddr addr flags d }
                   | None \<Rightarrow> load_pde ports junk (junk 0) ptevaddr addr flags d)"

definition DbgTranslateVirtual :: "CitronTable \<Rightarrow> (nat \<Rightarrow> u32) \<Rightarrow> XrProcessor \<Rightarrow> u32 \<Rightarrow> u32 \<Rightarrow> DbgTranslation" where
  "DbgTranslateVirtual ports junk proc addr flags d =
    (let istream = (flags AND DBG_TRANSLATE_ISTREAM \<noteq> 0);
         tb = (if istream then Itb proc else Dtb proc);
         asid = drop_bit 20 (Cr proc (if istream then ITBTAG else DTBTAG))
     in case (if flags AND DBG_TRANSLATE_BYPASS_TB = 0 then DbgTranslateAddressTb tb addr asid XR_TB_SIZE else None) of
          Some (index, tbe) \<Rightarrow> do {
            d \<leftarrow> dbg_when flags (dbg_printf (tb_text (if istream then ''ITB'' else ''DTB'') index tbe)) d;
            Some (if tbe AND 1 \<noteq> 0 then Some (tbe_phys tbe addr) else None, d) }
        | None \<Rightarrow>
            if flags AND DBG_TRANSLATE_BYPASS_PT = 0
            then dbg_walk ports junk proc (Cr proc (if istream then ITBADDR else DTBADDR) AND 0xFFC00000) asid addr flags d
            else Some (None, d))"

definition DbgTranslateAddress :: "CitronTable \<Rightarrow> (nat \<Rightarrow> u32) \<Rightarrow> u32 \<Rightarrow> u32 \<Rightarrow> DbgTranslation" where
  "DbgTranslateAddress ports junk addr flags d =
    (case dbg_proc d of
       None \<Rightarrow> None
     | Some proc \<Rightarrow>
         let flags = (if flags AND DBG_TRANSLATE_FIGURE_IT_OUT \<noteq> 0
               then (flags AND DBG_TRANSLATE_PRINT) OR (if Cr proc RS AND 4 = 0 then DBG_TRANSLATE_PHYSICAL else 0)
               else flags)
         in do {
           (phys, d) \<leftarrow> (if flags AND DBG_TRANSLATE_PHYSICAL = 0 then DbgTranslateVirtual ports junk proc addr flags d
                         else Some (Some addr, d));
           d \<leftarrow> dbg_when flags (case phys of
                 Some a \<Rightarrow> dbg_printf (cstr ''PHYS='' @ sprintf_x8 a @ [10])
               | None \<Rightarrow> dbg_line ''PHYS=Invalid'') d;
           Some (phys, d) })"

definition decode_flag :: "u8 \<Rightarrow> u32 \<Rightarrow> u32" where
  "decode_flag c flag =
    (if c = 112 then (flag OR DBG_TRANSLATE_PHYSICAL) AND NOT DBG_TRANSLATE_FIGURE_IT_OUT
     else if c = 118 then flag AND NOT DBG_TRANSLATE_PHYSICAL AND NOT DBG_TRANSLATE_FIGURE_IT_OUT
     else if c = 105 then flag OR DBG_TRANSLATE_ISTREAM
     else if c = 116 then flag OR DBG_TRANSLATE_BYPASS_TB
     else if c = 103 then flag OR DBG_TRANSLATE_BYPASS_TB_FOR_PGTB
     else if c = 122 then flag OR DBG_TRANSLATE_PRINT
     else flag)"

definition DbgDecodeTranslateFlags :: "u8 list \<Rightarrow> u32 \<Rightarrow> u32" where
  "DbgDecodeTranslateFlags flags oldflags = fold decode_flag (tl flags) oldflags"

section \<open>Commands\<close>

definition DbgHelpTexts :: "(string \<times> string) list" where
  "DbgHelpTexts =
    [(''help'', ''Display this help text.''),
     (''clear'', ''Clear the console.''),
     (''reg'', ''Dump register contents.''),
     (''lsic'', ''Dump LSIC state for the CPU.''),
     (''cr'', ''Dump control register contents.''),
     (''tb'', ''Dump translation buffer contents''),
     (''pause'', ''Pause CPU execution.''),
     (''resume'', ''Resume CPU execution.''),
     (''cpu'', ''Switch to examining the specified CPU's context.''),
     (''translate'', ''Translate a virtual address from the perspective of the current CPU.''),
     (''poke'', ''Poke a new value into the given address.''),
     (''peek'', ''Peek the value at the given address.'')]"

text \<open>A loop over a list, each round of which prints.\<close>

fun dbg_each :: "('a \<Rightarrow> Dbg \<Rightarrow> Dbg option) \<Rightarrow> 'a list \<Rightarrow> Dbg \<Rightarrow> Dbg option" where
  "dbg_each f [] d = Some d"
| "dbg_each f (x # xs) d = do { d \<leftarrow> f x d; dbg_each f xs d }"

definition DbgCommandHelp :: "Dbg \<Rightarrow> Dbg option" where
  "DbgCommandHelp = dbg_each (\<lambda>(name, help). dbg_printf ([32] @ pad_right 10 (cstr name) @ cstr help @ [10])) DbgHelpTexts"

definition DbgCommandClear :: "Dbg \<Rightarrow> Dbg option" where
  "DbgCommandClear d = DbgPutString ([27] @ cstr ''[0m'' @ [27] @ cstr ''[1;1H'' @ [27] @ cstr ''[2J'') d \<bind> DbgHeader"

definition DbgCommandReg :: "Dbg \<Rightarrow> Dbg option" where
  "DbgCommandReg d =
    (case dbg_proc d of
       None \<Rightarrow> None
     | Some proc \<Rightarrow> do {
         d \<leftarrow> dbg_each (\<lambda>i d. do {
                d \<leftarrow> (if i > 1 \<and> (i - 1) mod 8 = 0 then DbgPutString [10] d else Some d);
                dbg_printf (pad_left 3 (DbgRegNames ! i) @ [61] @ sprintf_x8 (Reg proc i) @ [32]) d }) [1..<32] d;
         dbg_printf (cstr '' pc='' @ sprintf_x8 (Pc proc) @ [10]) d })"

definition DbgCommandLsic :: "Dbg \<Rightarrow> Dbg option" where
  "DbgCommandLsic d =
    (let lsic = LsicTab (DbgMachine d) (DbgSelectedCpu d)
     in dbg_printf (cstr ''PEND0='' @ sprintf_x8 (Registers lsic LSIC_PENDING_0) @ cstr '' PEND1='' @ sprintf_x8 (Registers lsic LSIC_PENDING_1) @
          cstr '' MASK0='' @ sprintf_x8 (Registers lsic LSIC_MASK_0) @ cstr '' MASK1='' @ sprintf_x8 (Registers lsic LSIC_MASK_1) @
          cstr '' IPL='' @ sprintf_x8 (Registers lsic LSIC_IPL) @ cstr '' LOMASK='' @ sprintf_x8 (LowIplMask lsic) @
          cstr '' HIMASK='' @ sprintf_x8 (HighIplMask lsic) @ [10]) d)"

text \<open>The names that are there, each with how many were printed before it.\<close>

definition cr_list :: "(nat \<times> nat) list" where
  "cr_list = (let is = filter (\<lambda>i. DbgCrNames ! i \<noteq> []) [0..<32] in zip is [0..<length is])"

definition DbgCommandCr :: "Dbg \<Rightarrow> Dbg option" where
  "DbgCommandCr d =
    (case dbg_proc d of
       None \<Rightarrow> None
     | Some proc \<Rightarrow> do {
         d \<leftarrow> dbg_each (\<lambda>(i, printed) d. do {
                d \<leftarrow> (if printed \<noteq> 0 \<and> printed mod 5 = 0 then DbgPutString [10] d else Some d);
                dbg_printf (pad_left 10 (DbgCrNames ! i) @ [61] @ sprintf_x8 (Cr proc i) @ [32]) d }) cr_list d;
         DbgPutString [10] d })"

definition DbgCommandCpu :: "Dbg \<Rightarrow> Dbg option" where
  "DbgCommandCpu d = do {
     (got, d) \<leftarrow> DbgNextToken d;
     if \<not> got then dbg_line ''Usage: cpu [num]'' d
     else
       let cpunum = strtol (TokenBuf d) 10
       in if cpunum \<ge> int XR_PROC_MAX then dbg_line ''No such processor'' d
          else if cpunum < 0 then None
          else if \<not> XrProcessorPresent (DbgMachine d) (nat cpunum) then dbg_line ''No such processor'' d
          else Some (d\<lparr>DbgSelectedCpu := nat cpunum\<rparr>) }"

definition DbgDumpTb :: "(nat \<Rightarrow> u64) \<Rightarrow> nat \<Rightarrow> Dbg \<Rightarrow> Dbg option" where
  "DbgDumpTb tb tbsize d = do {
     d \<leftarrow> dbg_each (\<lambda>i. dbg_say ''VirPN PhyPN ASN FLAG  '') [0..<4] d;
     d \<leftarrow> dbg_each (\<lambda>i d. do {
            d \<leftarrow> (if i mod 4 = 0 then DbgPutString [10] d else Some d);
            d \<leftarrow> dbg_printf (sprintf_X 5 (drop_bit 32 (tb i) AND 0xFFFFF) @ [32] @ sprintf_X 5 (drop_bit 5 (tb i) AND 0xFFFFF) @ [32] @
                   sprintf_X 3 (drop_bit 52 (tb i) AND 0xFFF) @ [32]) d;
            d \<leftarrow> dbg_each (\<lambda>j. if bit (tb i) j then DbgPutString (DbgTbFlags ! j) else DbgPutString [32]) [0..<5] d;
            DbgPutString [32] d }) [0..<tbsize] d;
     DbgPutString [10] d }"

definition DbgCommandTb :: "Dbg \<Rightarrow> Dbg option" where
  "DbgCommandTb d =
    (case dbg_proc d of
       None \<Rightarrow> None
     | Some proc \<Rightarrow> do {
         d \<leftarrow> dbg_line ''ITB Contents'' d;
         d \<leftarrow> DbgDumpTb (Itb proc) XR_TB_SIZE d;
         d \<leftarrow> DbgPutString (10 # cstr ''DTB Contents'' @ [10]) d;
         DbgDumpTb (Dtb proc) XR_TB_SIZE d })"

definition dbg_set_running :: "bool \<Rightarrow> Dbg \<Rightarrow> Dbg" where
  "dbg_set_running r d =
    (let m = DbgMachine d; p = DbgSelectedCpu d
     in d\<lparr>DbgMachine := m\<lparr>XrProcessorTable := (XrProcessorTable m)(p := (XrProcessorTable m p)\<lparr>Running := r\<rparr>)\<rparr>\<rparr>)"

definition DbgCommandPause :: "Dbg \<Rightarrow> Dbg option" where
  "DbgCommandPause d =
    (case dbg_proc d of
       None \<Rightarrow> None
     | Some proc \<Rightarrow> if \<not> Running proc then dbg_line ''Already paused'' d
                    else dbg_line ''Paused'' (dbg_set_running False d))"

definition DbgCommandResume :: "Dbg \<Rightarrow> Dbg option" where
  "DbgCommandResume d =
    (case dbg_proc d of
       None \<Rightarrow> None
     | Some proc \<Rightarrow> if Running proc then dbg_line ''Already resumed'' d
                    else dbg_line ''Resumed'' (dbg_set_running True d))"

text \<open>The flags after the other arguments.\<close>

definition dbg_flags :: "u32 \<Rightarrow> Dbg \<Rightarrow> (u32 \<times> Dbg) option" where
  "dbg_flags flags d = do {
     (got, d) \<leftarrow> DbgNextToken d;
     Some (if got \<and> TokenBuf d \<noteq> [] \<and> hd (TokenBuf d) = 45 then DbgDecodeTranslateFlags (TokenBuf d) flags else flags, d) }"

definition DbgCommandTranslate :: "CitronTable \<Rightarrow> (nat \<Rightarrow> u32) \<Rightarrow> Dbg \<Rightarrow> Dbg option" where
  "DbgCommandTranslate ports junk d = do {
     (got, d) \<leftarrow> DbgNextToken d;
     if \<not> got then dbg_line ''Usage: translate [addr] (-giptvz)'' d
     else do {
       let addr = DbgParseAddress (TokenBuf d);
       (flags, d) \<leftarrow> dbg_flags DBG_TRANSLATE_PRINT d;
       (phys, d) \<leftarrow> DbgTranslateAddress ports junk addr flags d;
       Some d } }"

definition dbg_no_phys :: "u32 \<Rightarrow> Dbg \<Rightarrow> Dbg option" where
  "dbg_no_phys flags d =
    (if flags AND DBG_TRANSLATE_PRINT = 0 then dbg_line ''Failed to translate address, use -z for more info'' d else Some d)"

definition DbgCommandPoke :: "CitronTable \<Rightarrow> (nat \<Rightarrow> u32) \<Rightarrow> Dbg \<Rightarrow> Dbg option" where
  "DbgCommandPoke ports junk d = do {
     (got, d) \<leftarrow> DbgNextToken d;
     if \<not> got then dbg_line ''Usage: poke [addr] [value] (-giptvz)'' d
     else do {
       let addr = DbgParseAddress (TokenBuf d);
       (got, d) \<leftarrow> DbgNextToken d;
       if \<not> got then dbg_line ''Usage: poke [addr] [value] (-giptvz)'' d
       else do {
         let val = DbgParseAddress (TokenBuf d);
         if addr AND 3 \<noteq> 0 then dbg_line ''Unaligned address'' d
         else do {
           (flags, d) \<leftarrow> dbg_flags 0 d;
           (phys, d) \<leftarrow> DbgTranslateAddress ports junk addr flags d;
           case phys of
             None \<Rightarrow> dbg_no_phys flags d
           | Some a \<Rightarrow> do {
               d \<leftarrow> dbg_printf (cstr ''Phys['' @ sprintf_x8 a @ cstr '']='' @ sprintf_x8 val @ [32]) d;
               let (st, m) = EBusWrite ports a (bytes_of_u32 val) 4 (DbgSelectedCpu d) (DbgMachine d);
               let d = d\<lparr>DbgMachine := m\<rparr>;
               d \<leftarrow> (if st \<noteq> EBUSSUCCESS then dbg_say ''Bus error on write'' d else Some d);
               DbgPutString [10] d } } } } }"

definition DbgCommandPeek :: "CitronTable \<Rightarrow> (nat \<Rightarrow> u32) \<Rightarrow> Dbg \<Rightarrow> Dbg option" where
  "DbgCommandPeek ports junk d = do {
     (got, d) \<leftarrow> DbgNextToken d;
     if \<not> got then dbg_line ''Usage: peek [addr] (-giptvz)'' d
     else do {
       let addr = DbgParseAddress (TokenBuf d);
       if addr AND 3 \<noteq> 0 then dbg_line ''Unaligned address'' d
       else do {
         (flags, d) \<leftarrow> dbg_flags 0 d;
         (phys, d) \<leftarrow> DbgTranslateAddress ports junk addr flags d;
         case phys of
           None \<Rightarrow> dbg_no_phys flags d
         | Some a \<Rightarrow> do {
             d \<leftarrow> dbg_printf (cstr ''Phys['' @ sprintf_x8 a @ cstr '']='') d;
             case dbg_read ports (junk 3) a d of
               (None, d) \<Rightarrow> dbg_line ''Bus error on read'' d
             | (Some v, d) \<Rightarrow> dbg_printf (sprintf_x8 v @ [10]) d } } } }"

definition dbg_command :: "CitronTable \<Rightarrow> (nat \<Rightarrow> u32) \<Rightarrow> u8 list \<Rightarrow> Dbg \<Rightarrow> Dbg option" where
  "dbg_command ports junk name =
    (if name = cstr ''help'' then DbgCommandHelp
     else if name = cstr ''clear'' then DbgCommandClear
     else if name = cstr ''reg'' then DbgCommandReg
     else if name = cstr ''lsic'' then DbgCommandLsic
     else if name = cstr ''cr'' then DbgCommandCr
     else if name = cstr ''tb'' then DbgCommandTb
     else if name = cstr ''pause'' then DbgCommandPause
     else if name = cstr ''resume'' then DbgCommandResume
     else if name = cstr ''cpu'' then DbgCommandCpu
     else if name = cstr ''translate'' then DbgCommandTranslate ports junk
     else if name = cstr ''poke'' then DbgCommandPoke ports junk
     else if name = cstr ''peek'' then DbgCommandPeek ports junk
     else dbg_printf (name @ cstr '' is not a recognized command.'' @ [10]))"

section \<open>Input\<close>

definition DbgProcessInput :: "CitronTable \<Rightarrow> (nat \<Rightarrow> u32) \<Rightarrow> Dbg \<Rightarrow> Dbg option" where
  "DbgProcessInput ports junk d = do {
     (got, d) \<leftarrow> DbgNextToken (d\<lparr>CmdNextToken := Some 0\<rparr>);
     d \<leftarrow> (if got then dbg_command ports junk (TokenBuf d) d else Some d);
     DbgPrompt d }"

definition DbgInput :: "CitronTable \<Rightarrow> (nat \<Rightarrow> u32) \<Rightarrow> u16 \<Rightarrow> Dbg \<Rightarrow> Dbg option" where
  "DbgInput ports junk c d =
    (if c = 13 then do {
       d \<leftarrow> put_char 13 d; d \<leftarrow> put_char 10 d;
       if CmdIndex d < CMD_MAX
       then DbgProcessInput ports junk (d\<lparr>Cmdline := (Cmdline d)(CmdIndex d := 0), CmdIndex := 0\<rparr>)
       else None }
     else if c = 8 then
       if CmdIndex d \<noteq> 0 then do {
         d \<leftarrow> put_char 8 d; d \<leftarrow> put_char 32 d; d \<leftarrow> put_char 8 d;
         Some (d\<lparr>CmdIndex := CmdIndex d - 1\<rparr>) }
       else Some d
     else dbg_type 1 (ucast c) d)"

definition DbgInit :: "Dbg \<Rightarrow> Dbg option" where
  "DbgInit d = DbgHeader (d\<lparr>DbgTty := TTYCreate 132 24\<rparr>) \<bind> DbgPrompt"

end
