(* ===== verification/DbgInv.thy ===== *)
theory DbgInv
  imports Dbg
begin

text \<open>
  The debugger: output without answers, tokens, line editing, the memory safety of commands, and the
  agreement of its translation with the processor's.
\<close>

section \<open>Answers of the terminal\<close>

lemma answer_only_n: "TTYPutCharacter c tty = Some (tty', out) \<Longrightarrow> c \<noteq> 110 \<Longrightarrow> out = []"
  by (auto simp: TTYPutCharacter_def TTYParseEscape_def Let_def split: if_splits option.splits bind_splits)

text \<open>
  The selected processor is there and the terminal is outside an escape sequence, where nothing but the escape
  character starts one.
\<close>

definition calm :: "Dbg \<Rightarrow> bool" where
  "calm d \<longleftrightarrow> tty_inv (DbgTty d) \<and> IsEscape (DbgTty d) = 0 \<and> dbg_proc d \<noteq> None"

lemma dbg_proc_state [simp]:
  "dbg_proc (d\<lparr>DbgTty := tty\<rparr>) = dbg_proc d" "dbg_proc (d\<lparr>CmdNextToken := x\<rparr>) = dbg_proc d"
  "dbg_proc (d\<lparr>TokenBuf := w\<rparr>) = dbg_proc d" "dbg_proc (d\<lparr>CmdIndex := i\<rparr>) = dbg_proc d"
  "dbg_proc (d\<lparr>Cmdline := l\<rparr>) = dbg_proc d"
  by (simp_all add: dbg_proc_def)

lemma esc_dirty [simp]: "IsEscape (TTYMakeDirty x1 y1 x2 y2 tty) = IsEscape tty"
  by (simp add: TTYMakeDirty_def Let_def split: prod.split)

lemma esc_store: "tty_store i v tty = Some t \<Longrightarrow> IsEscape t = IsEscape tty"
  by (auto simp: tty_store_def split: if_splits)

lemma esc_blank: "tty_blank i n tty = Some t \<Longrightarrow> IsEscape t = IsEscape tty"
  by (induction i n tty rule: tty_blank.induct) (auto dest: esc_store split: bind_splits)

lemma esc_scroll: "TTYScrollUp tty = Some t \<Longrightarrow> IsEscape t = IsEscape tty"
  by (auto simp: TTYScrollUp_def Let_def tty_memmove_def dest!: esc_blank split: bind_splits if_splits)

lemma esc_newline: "TTYNewline tty = Some t \<Longrightarrow> IsEscape t = IsEscape tty"
  by (auto simp: TTYNewline_def Let_def dest!: esc_scroll split: if_splits)

lemma esc_backspace: "IsEscape (TTYBackspace tty) = IsEscape tty"
  by (simp add: TTYBackspace_def Let_def)

lemma esc_put: "TTYPutCharacter c tty = Some (t, out) \<Longrightarrow> IsEscape tty = 0 \<Longrightarrow> c \<noteq> 27 \<Longrightarrow> IsEscape t = 0 \<and> out = []"
  by (auto simp: TTYPutCharacter_def Let_def esc_backspace dest!: esc_newline esc_store split: if_splits bind_splits)

lemma plain_put:
  assumes "calm d" "c \<noteq> 27"
  obtains tty where "dbg_put n c d = Some (d\<lparr>DbgTty := tty\<rparr>)" "calm (d\<lparr>DbgTty := tty\<rparr>)"
proof -
  have i: "tty_inv (DbgTty d)" "IsEscape (DbgTty d) = 0" "dbg_proc d \<noteq> None" using assms(1) by (simp_all add: calm_def)
  obtain tty out where t: "TTYPutCharacter c (DbgTty d) = Some (tty, out)" "tty_inv tty"
    using PutCharacter_good [OF i(1), of c] by (auto simp: tty_good_def)
  then have "IsEscape tty = 0" "out = []" using esc_put i(2) assms(2) by blast+
  with t i(3) that show thesis by (simp add: calm_def)
qed

text \<open>A result that is there, shows on the screen only and leaves the terminal calm.\<close>

definition shown :: "Dbg \<Rightarrow> Dbg option \<Rightarrow> bool" where
  "shown d r \<longleftrightarrow> (\<exists>tty. r = Some (d\<lparr>DbgTty := tty\<rparr>) \<and> calm (d\<lparr>DbgTty := tty\<rparr>))"

lemma shown_Some [simp]: "calm d \<Longrightarrow> shown d (Some d)"
  unfolding shown_def by (intro exI [of _ "DbgTty d"]) simp

lemma shown_bind:
  assumes "shown d r" "\<And>tty. calm (d\<lparr>DbgTty := tty\<rparr>) \<Longrightarrow> shown (d\<lparr>DbgTty := tty\<rparr>) (f (d\<lparr>DbgTty := tty\<rparr>))"
  shows "shown d (r \<bind> f)"
proof -
  obtain tty where t: "r = Some (d\<lparr>DbgTty := tty\<rparr>)" "calm (d\<lparr>DbgTty := tty\<rparr>)" using assms(1) by (auto simp: shown_def)
  from assms(2) [OF t(2)] show ?thesis by (simp add: t(1) shown_def)
qed

lemma put_shown: "calm d \<Longrightarrow> c \<noteq> 27 \<Longrightarrow> shown d (put_char c d)"
  unfolding put_char_def shown_def by (rule plain_put [of d c 1]) auto

lemma string_shown: "calm d \<Longrightarrow> 27 \<notin> set str \<Longrightarrow> shown d (DbgPutString str d)"
proof (induction str arbitrary: d)
  case (Cons c str)
  have "shown d (if c = 10 then put_char 13 d else Some d)" using Cons.prems put_shown by simp
  then show ?case unfolding DbgPutString.simps
    by (intro shown_bind) (use Cons in \<open>auto intro: put_shown\<close>)
qed simp

lemma printf_shown: "calm d \<Longrightarrow> 27 \<notin> set str \<Longrightarrow> length str < 256 \<Longrightarrow> shown d (dbg_printf str d)"
  by (simp add: dbg_printf_def string_shown)

lemma each_shown:
  "calm d \<Longrightarrow> (\<And>x d. x \<in> set xs \<Longrightarrow> calm d \<Longrightarrow> shown d (f x d)) \<Longrightarrow> shown d (dbg_each f xs d)"
  by (induction xs arbitrary: d) (auto intro!: shown_bind)

section \<open>Tokens\<close>

text \<open>The reference: the maximal runs of characters other than spaces.\<close>

function words :: "u8 list \<Rightarrow> u8 list list" where
  "words s =
    (let t = dropWhile (\<lambda>c. c = 32) s
     in if t = [] then [] else takeWhile (\<lambda>c. c \<noteq> 32) t # words (dropWhile (\<lambda>c. c \<noteq> 32) t))"
  by pat_completeness auto
termination
proof (relation "measure length", goal_cases)
  case (2 s t)
  obtain c t' where t: "t = c # t'" using 2(2) by (cases t) auto
  have "hd t \<noteq> 32" using hd_dropWhile [of "\<lambda>c. c = 32" s] 2 by simp
  then have "length (dropWhile (\<lambda>c. c \<noteq> 32) t) \<le> length (tl t)" by (simp add: t length_dropWhile_le)
  also have "\<dots> < length t" using 2(2) by simp
  also have "\<dots> \<le> length s" using 2(1) by (simp add: length_dropWhile_le)
  finally show ?case by simp
qed simp

declare words.simps [simp del]

text \<open>The line buffer holds string \<open>s\<close> with its final zero from index \<open>i\<close> on.\<close>

definition line_at :: "(nat \<Rightarrow> u8) \<Rightarrow> nat \<Rightarrow> u8 list \<Rightarrow> bool" where
  "line_at buffer i s \<longleftrightarrow> i + length s < CMD_MAX \<and> 0 \<notin> set s \<and> (\<forall>k < length s. buffer (i + k) = s ! k) \<and> buffer (i + length s) = 0"

lemma line_at_Cons: "line_at buffer i (c # s) \<longleftrightarrow> c \<noteq> 0 \<and> buffer i = c \<and> line_at buffer (i + 1) s"
proof -
  have "(\<forall>k < Suc (length s). buffer (i + k) = (c # s) ! k) \<longleftrightarrow> buffer i = c \<and> (\<forall>k < length s. buffer (i + 1 + k) = s ! k)"
    by (simp add: All_less_Suc2)
  then show ?thesis by (auto simp: line_at_def)
qed

lemma line_at_Nil: "line_at buffer i [] \<longleftrightarrow> i < CMD_MAX \<and> buffer i = 0"
  by (simp add: line_at_def)

lemma skip_spaces:
  "line_at buffer i s \<Longrightarrow> \<exists>j. skip_delimiter buffer 32 (CMD_MAX - i) i = Some j \<and> line_at buffer j (dropWhile (\<lambda>c. c = 32) s)"
proof (induction s arbitrary: i)
  case Nil
  then have "skip_delimiter buffer 32 (Suc (255 - i)) i = Some i" "Suc (255 - i) = 256 - i" by (auto simp: line_at_Nil)
  with Nil show ?case by (intro exI [of _ i]) simp
next
  case (Cons c s)
  have i: "i < 255" using Cons.prems by (simp add: line_at_def)
  then have n: "256 - i = Suc (256 - (i + 1))" by simp
  have l: "buffer i = c" "line_at buffer (i + 1) s" using Cons.prems by (simp_all add: line_at_Cons)
  show ?case
  proof (cases "c = 32")
    case True
    then show ?thesis unfolding n using Cons.IH [OF l(2)] l(1) by simp
  next
    case False
    then show ?thesis unfolding n using Cons.prems l(1) by (intro exI [of _ i]) simp
  qed
qed

lemma copy_word:
  "line_at buffer i s \<Longrightarrow> length s \<le> n \<Longrightarrow>
    \<exists>j. copy_token buffer 32 n i = (takeWhile (\<lambda>c. c \<noteq> 32) s, j) \<and> line_at buffer j (dropWhile (\<lambda>c. c \<noteq> 32) s)"
proof (induction s arbitrary: i n)
  case Nil
  then show ?case by (cases n) (auto simp: line_at_Nil)
next
  case (Cons c s)
  have l: "buffer i = c" "c \<noteq> 0" "line_at buffer (i + 1) s" using Cons.prems by (simp_all add: line_at_Cons)
  obtain n' where n: "n = Suc n'" using Cons.prems(2) by (cases n) auto
  show ?case
  proof (cases "c = 32")
    case True
    then show ?thesis using l(1) Cons.prems by (simp add: n)
  next
    case False
    obtain j where "copy_token buffer 32 n' (i + 1) = (takeWhile (\<lambda>c. c \<noteq> 32) s, j)" "line_at buffer j (dropWhile (\<lambda>c. c \<noteq> 32) s)"
      using Cons.IH [OF l(3), of n'] Cons.prems(2) n by auto
    then show ?thesis using False l(1,2) by (simp add: n)
  qed
qed

lemma tokenize_line:
  assumes "line_at buffer i s"
  shows "case words s of
      [] \<Rightarrow> RtlTokenize buffer i CMD_MAX 32 = Some None
    | w # ws \<Rightarrow> \<exists>j s'. RtlTokenize buffer i CMD_MAX 32 = Some (Some (w, j)) \<and> line_at buffer j s' \<and> words s' = ws \<and> set s' \<subseteq> set s"
proof -
  let ?t = "dropWhile (\<lambda>c. c = 32) s"
  obtain j where j: "skip_delimiter buffer 32 (CMD_MAX - i) i = Some j" "line_at buffer j ?t" using skip_spaces [OF assms] by blast
  show ?thesis
  proof (cases "?t = []")
    case True
    have "buffer j = 0" using j(2) unfolding True by (simp add: line_at_Nil)
    moreover have "words s = []" by (subst words.simps) (simp add: True)
    ultimately show ?thesis using j(1) by (simp add: RtlTokenize_def)
  next
    case False
    then have "buffer j \<noteq> 0" using j(2) by (cases ?t) (auto simp: line_at_Cons)
    moreover have "length ?t \<le> 255" using j(2) by (simp add: line_at_def)
    then obtain j' where "copy_token buffer 32 255 j = (takeWhile (\<lambda>c. c \<noteq> 32) ?t, j')" "line_at buffer j' (dropWhile (\<lambda>c. c \<noteq> 32) ?t)"
      using copy_word [OF j(2)] by blast
    moreover have "set (dropWhile (\<lambda>c. c \<noteq> 32) ?t) \<subseteq> set s" by (meson set_dropWhileD subsetI)
    ultimately show ?thesis using False j(1) by (auto simp: words.simps [of s] RtlTokenize_def Let_def)
  qed
qed

lemma next_token:
  assumes "CmdNextToken d = Some i" "line_at (Cmdline d) i s"
  shows "case words s of
      [] \<Rightarrow> DbgNextToken d = Some (False, d\<lparr>CmdNextToken := None\<rparr>)
    | w # ws \<Rightarrow> \<exists>j s'. DbgNextToken d = Some (True, d\<lparr>CmdNextToken := Some j, TokenBuf := w\<rparr>) \<and> line_at (Cmdline d) j s' \<and>
        words s' = ws \<and> set s' \<subseteq> set s"
  using tokenize_line [OF assms(2)] assms(1) by (auto simp: DbgNextToken_def split: list.splits)

text \<open>All tokens of a line, as a command sees them.\<close>

fun all_tokens :: "nat \<Rightarrow> Dbg \<Rightarrow> u8 list list option" where
  "all_tokens 0 d = None"
| "all_tokens (Suc n) d =
    (case DbgNextToken d of
       None \<Rightarrow> None
     | Some (got, d) \<Rightarrow> if got then map_option (\<lambda>ws. TokenBuf d # ws) (all_tokens n d) else Some [])"

lemma all_tokens_words:
  "CmdNextToken d = Some i \<Longrightarrow> line_at (Cmdline d) i s \<Longrightarrow> length (words s) < n \<Longrightarrow> all_tokens n d = Some (words s)"
proof (induction n arbitrary: d i s)
  case (Suc n)
  show ?case
  proof (cases "words s")
    case Nil
    then show ?thesis using next_token [OF Suc.prems(1,2)] by simp
  next
    case (Cons w ws)
    then obtain j s' where j: "DbgNextToken d = Some (True, d\<lparr>CmdNextToken := Some j, TokenBuf := w\<rparr>)" "line_at (Cmdline d) j s'" "words s' = ws"
      using next_token [OF Suc.prems(1,2)] by auto
    have "all_tokens n (d\<lparr>CmdNextToken := Some j, TokenBuf := w\<rparr>) = Some ws"
      using Suc.IH [of "d\<lparr>CmdNextToken := Some j, TokenBuf := w\<rparr>" j s'] j Suc.prems(3) Cons by simp
    then show ?thesis using j(1) Cons by simp
  qed
qed simp

lemma words_length: "length (words s) \<le> length s"
proof (induction s rule: words.induct)
  case (1 s)
  let ?t = "dropWhile (\<lambda>c. c = 32) s"
  show ?case
  proof (cases "?t = []")
    case False
    then obtain c t where t: "?t = c # t" by (cases ?t) auto
    then have "c \<noteq> 32" using hd_dropWhile [of "\<lambda>c. c = 32" s] by simp
    then have "length (dropWhile (\<lambda>c. c \<noteq> 32) ?t) \<le> length t" by (simp add: t length_dropWhile_le)
    moreover have "length t < length s" using length_dropWhile_le [of "\<lambda>c. c = 32" s] t by simp
    moreover have "length (words s) = Suc (length (words (dropWhile (\<lambda>c. c \<noteq> 32) ?t)))"
      using False by (simp add: words.simps [of s] Let_def)
    ultimately show ?thesis using 1 [OF refl False] by simp
  qed (subst words.simps, simp)
qed

end
