(* ===== verification/DbgSafe.thy ===== *)
theory DbgSafe
  imports DbgInv Frame
begin

text \<open>
  The commands of the debugger and its input: what they do to memory, and what a line of keys leaves in the buffer.
\<close>

section \<open>Output\<close>

text \<open>Strings without the escape character.\<close>

lemma hex_no_esc [simp]: "27 \<notin> set (sprintf_x8 v)" "27 \<notin> set (sprintf_X8 v)" "27 \<notin> set (sprintf_X n w)"
proof -
  have "\<not> is_digit 16 27" by (simp add: is_digit_def digit_value_def)
  then show "27 \<notin> set (sprintf_x8 v)" "27 \<notin> set (sprintf_X8 v)" "27 \<notin> set (sprintf_X n w)"
    using hex_digits_digits [of hex_digit] hex_digits_digits [of hex_digit_upper]
    by (auto simp: sprintf_x8_def sprintf_X8_def sprintf_X_def)
qed

lemma hex_length [simp]: "length (sprintf_x8 v) = 8" "length (sprintf_X8 v) = 8" "length (sprintf_X n w) = n"
  by (simp_all add: sprintf_x8_def sprintf_X8_def sprintf_X_def)

lemma pad_simps [simp]:
  "27 \<in> set (pad_left n s) \<longleftrightarrow> 27 \<in> set s" "27 \<in> set (pad_right n s) \<longleftrightarrow> 27 \<in> set s"
  "length (pad_left n s) = max n (length s)" "length (pad_right n s) = max n (length s)"
  by (auto simp: pad_left_def pad_right_def)

lemma index_text:
  assumes "i < 32"
  shows "27 \<notin> set (sprintf_d (of_nat i))" "length (sprintf_d (of_nat i)) \<le> 2"
proof -
  have u: "unat (of_nat i :: u32) = i" using assms by (simp add: unat_of_nat)
  then have e: "sprintf_d (of_nat i) = decimal i" using assms by (simp add: sprintf_small)
  have "chr_0 + of_nat d \<noteq> (27 :: u8)" if "d < 10" for d
  proof
    assume a: "chr_0 + of_nat d = (27 :: u8)"
    have "unat (chr_0 + of_nat d :: u8) = 48 + d" using that by (simp add: unat_word_ariths unat_of_nat)
    then show False unfolding a by simp
  qed
  then show "27 \<notin> set (sprintf_d (of_nat i))" unfolding e using decimal_digits by fastforce
  show "length (sprintf_d (of_nat i)) \<le> 2" unfolding e by (rule length_decimal) (use assms in simp_all)
qed

lemma say_shown: "calm d \<Longrightarrow> 27 \<notin> set (cstr str) \<Longrightarrow> shown d (dbg_say str d)"
  by (simp add: dbg_say_def string_shown)

lemma line_shown: "calm d \<Longrightarrow> 27 \<notin> set (cstr str) \<Longrightarrow> shown d (dbg_line str d)"
  by (simp add: dbg_line_def string_shown)

lemma when_shown: "calm d \<Longrightarrow> shown d (act d) \<Longrightarrow> shown d (dbg_when flags act d)"
  by (simp add: dbg_when_def)

text \<open>A step that returns with the terminal calm and the line index as it was.\<close>

definition fine :: "Dbg \<Rightarrow> Dbg option \<Rightarrow> bool" where
  "fine d r \<longleftrightarrow> (\<exists>d'. r = Some d' \<and> calm d' \<and> CmdIndex d' = CmdIndex d)"

definition finep :: "Dbg \<Rightarrow> ('a \<times> Dbg) option \<Rightarrow> bool" where
  "finep d r \<longleftrightarrow> (\<exists>x d'. r = Some (x, d') \<and> calm d' \<and> CmdIndex d' = CmdIndex d)"

lemma shown_fine: "shown d r \<Longrightarrow> fine d r"
  by (auto simp: shown_def fine_def)

lemma fine_Some [simp]: "fine d (Some d') \<longleftrightarrow> calm d' \<and> CmdIndex d' = CmdIndex d" "finep d (Some (x, d')) \<longleftrightarrow> calm d' \<and> CmdIndex d' = CmdIndex d"
  by (auto simp: fine_def finep_def)

lemma fine_then:
  "fine d r \<Longrightarrow> (\<And>d'. calm d' \<Longrightarrow> CmdIndex d' = CmdIndex d \<Longrightarrow> fine d (f d')) \<Longrightarrow> fine d (r \<bind> f)"
  "fine d r \<Longrightarrow> (\<And>d'. calm d' \<Longrightarrow> CmdIndex d' = CmdIndex d \<Longrightarrow> finep d (g d')) \<Longrightarrow> finep d (r \<bind> g)"
  "finep d q \<Longrightarrow> (\<And>x d'. calm d' \<Longrightarrow> CmdIndex d' = CmdIndex d \<Longrightarrow> fine d (h x d')) \<Longrightarrow> fine d (q \<bind> (\<lambda>(x, d). h x d))"
  "finep d q \<Longrightarrow> (\<And>x d'. calm d' \<Longrightarrow> CmdIndex d' = CmdIndex d \<Longrightarrow> finep d (k x d')) \<Longrightarrow> finep d (q \<bind> (\<lambda>(x, d). k x d))"
  by (auto simp: fine_def finep_def)

lemma fine_from: "CmdIndex d' = CmdIndex d \<Longrightarrow> fine d' r \<Longrightarrow> fine d r" "CmdIndex d' = CmdIndex d \<Longrightarrow> finep d' q \<Longrightarrow> finep d q"
  by (simp_all add: fine_def finep_def)

section \<open>Translation\<close>

lemma tb_index: "DbgTranslateAddressTb tb addr asid 32 = Some (i, tbe) \<Longrightarrow> i < 32 \<and> tbe = tb i"
  by (auto simp: DbgTranslateAddressTb_def Let_def dest!: find_upt_SomeD)

lemma tb_text_fine:
  assumes "calm d" "i < 32" "27 \<notin> set (cstr name)" "length name \<le> 100"
  shows "shown d (dbg_when flags (dbg_printf (tb_text name i tbe)) d)"
  using assms index_text [OF assms(2)]
  by (intro when_shown printf_shown) (auto simp: tb_text_def cstr_def)

lemma dbg_proc_present: "dbg_proc d \<noteq> None \<longleftrightarrow> XrProcessorPresent (DbgMachine d) (DbgSelectedCpu d)"
  by (simp add: dbg_proc_def)

lemma machine_calm:
  assumes "calm d" "cores m = cores (DbgMachine d)"
  shows "calm (d\<lparr>DbgMachine := m\<rparr>)"
  using assms(1) cores_present [OF assms(2)] unfolding calm_def dbg_proc_present by simp

lemma dbg_read_calm:
  assumes "calm d" "dbg_read (CitronPorts st) junk a d = (x, d1)"
  shows "calm d1 \<and> CmdIndex d1 = CmdIndex d"
proof -
  obtain s bs m where r: "EBusRead (CitronPorts st) a 4 (DbgSelectedCpu d) (DbgMachine d) = (s, bs, m)" by (metis prod.collapse)
  have "cores m = cores (DbgMachine d)" using machine.bus_read [of st a 4 "DbgSelectedCpu d" "DbgMachine d"] by (simp add: r)
  from machine_calm [OF assms(1) this] show ?thesis using assms(2) by (auto simp: dbg_read_def r)
qed

lemma when_then:
  "calm d \<Longrightarrow> shown d (act d) \<Longrightarrow> (\<And>d'. calm d' \<Longrightarrow> CmdIndex d' = CmdIndex d \<Longrightarrow> finep d (f d')) \<Longrightarrow>
    finep d (dbg_when flags act d \<bind> f)"
  by (intro fine_then(2) shown_fine when_shown)

lemma load_pte_fine:
  assumes "calm d"
  shows "finep d (load_pte (CitronPorts st) junk p addr flags d)"
proof -
  obtain x d1 where r: "dbg_read (CitronPorts st) (junk 2) p d = (x, d1)" by force
  have c: "calm d1" "CmdIndex d1 = CmdIndex d" using dbg_read_calm [OF assms r] by simp_all
  show ?thesis
    by (rule fine_from(2) [OF c(2)], unfold load_pte_def r, cases x)
       (simp_all add: when_then printf_shown c cstr_def)
qed

lemma load_pde_fine:
  assumes "calm d"
  shows "finep d (load_pde (CitronPorts st) junk p ptevaddr addr flags d)"
proof -
  obtain x d1 where r: "dbg_read (CitronPorts st) (junk 1) p d = (x, d1)" by force
  have c: "calm d1" "CmdIndex d1 = CmdIndex d" using dbg_read_calm [OF assms r] by simp_all
  have p: "finep d1 (load_pte (CitronPorts st) junk q addr flags d2)" if "calm d2" "CmdIndex d2 = CmdIndex d1" for q d2
    by (rule fine_from(2) [OF that(2) load_pte_fine [OF that(1)]])
  show ?thesis
    by (rule fine_from(2) [OF c(2)], unfold load_pde_def r, cases x)
       (simp_all add: when_then printf_shown c p cstr_def)
qed

lemma tb_then:
  assumes "calm d" "i < 32" "27 \<notin> set (cstr name)" "length name \<le> 100"
    and "\<And>d'. calm d' \<Longrightarrow> CmdIndex d' = CmdIndex d \<Longrightarrow> finep d (f d')"
  shows "finep d (dbg_when flags (dbg_printf (tb_text name i t)) d \<bind> f)"
  by (rule fine_then(2) [OF shown_fine [OF tb_text_fine [OF assms(1-4)]] assms(5)])

lemma say_then:
  assumes "calm d" "27 \<notin> set (cstr str)" "\<And>d'. calm d' \<Longrightarrow> CmdIndex d' = CmdIndex d \<Longrightarrow> finep d (f d')"
  shows "finep d (dbg_when flags (dbg_say str) d \<bind> f)"
  by (rule fine_then(2) [OF shown_fine [OF when_shown [where act = "dbg_say str"]] assms(3)]) (simp_all add: assms(1,2) say_shown)

lemma load_fine:
  "calm d' \<Longrightarrow> CmdIndex d' = CmdIndex d \<Longrightarrow> finep d (load_pte (CitronPorts st) junk p addr flags d')"
  "calm d' \<Longrightarrow> CmdIndex d' = CmdIndex d \<Longrightarrow> finep d (load_pde (CitronPorts st) junk p ptevaddr addr flags d')"
  by (rule fine_from(2); assumption?; simp add: load_pte_fine load_pde_fine)+

lemma walk_fine:
  assumes "calm d"
  shows "finep d (dbg_walk (CitronPorts st) junk proc pgtb asid addr flags d)"
  unfolding dbg_walk_def Let_def using assms
  by (auto split: option.split dest!: tb_index simp: cstr_def intro!: tb_then say_then load_fine)

lemma virtual_fine:
  assumes "calm d"
  shows "finep d (DbgTranslateVirtual (CitronPorts st) junk proc addr flags d)"
  unfolding DbgTranslateVirtual_def Let_def using assms
  by (auto split: option.split dest!: tb_index simp: cstr_def intro!: tb_then walk_fine)

lemma address_fine:
  assumes "calm d"
  shows "finep d (DbgTranslateAddress (CitronPorts st) junk addr flags d)"
proof -
  define say where "say = (\<lambda>phys. case phys of Some a \<Rightarrow> dbg_printf (cstr ''PHYS='' @ sprintf_x8 a @ [10]) | None \<Rightarrow> dbg_line ''PHYS=Invalid'')"
  obtain proc where proc: "dbg_proc d = Some proc" using assms by (auto simp: calm_def)
  have s: "shown d' (say phys d')" if "calm d'" for phys d'
    using that by (cases phys) (simp_all add: say_def printf_shown line_shown cstr_def)
  have w: "finep d (dbg_when f (say phys) d' \<bind> (\<lambda>d. Some (phys, d)))" if "calm d'" "CmdIndex d' = CmdIndex d" for f phys d'
    by (rule fine_from(2) [OF that(2)], rule when_then [where act = "say phys"]) (simp_all add: that s)
  show ?thesis
    using assms unfolding DbgTranslateAddress_def proc option.case Let_def say_def [symmetric]
    by (auto intro!: fine_then(4) w virtual_fine)
qed

section \<open>Commands that only print\<close>

declare DbgPutString.simps [simp del]

lemma names_short:
  "n \<in> set DbgRegNames \<Longrightarrow> 27 \<notin> set n \<and> length n \<le> 4"
  "n \<in> set DbgCrNames \<Longrightarrow> 27 \<notin> set n \<and> length n \<le> 10"
  "(n', h) \<in> set DbgHelpTexts \<Longrightarrow> 27 \<notin> set (cstr n') \<and> 27 \<notin> set (cstr h) \<and> length n' \<le> 10 \<and> length h \<le> 100"
  "n \<in> set DbgTbFlags \<Longrightarrow> 27 \<notin> set n"
  by (auto simp: DbgRegNames_def DbgCrNames_def DbgHelpTexts_def DbgTbFlags_def cstr_def)

lemma names_many: "length DbgRegNames = 32" "length DbgCrNames = 32" "length DbgTbFlags = 5"
  by (simp_all add: DbgRegNames_def DbgCrNames_def DbgTbFlags_def)

lemma help_shown: "calm d \<Longrightarrow> shown d (DbgCommandHelp d)"
  unfolding DbgCommandHelp_def
  by (rule each_shown) (auto dest!: names_short(3) intro!: printf_shown simp: cstr_def)

lemma reg_shown:
  assumes "calm d" "dbg_proc d = Some proc"
  shows "shown d (DbgCommandReg d)"
proof -
  have n: "27 \<notin> set (DbgRegNames ! i)" "length (DbgRegNames ! i) < 246" if "i < 32" for i
    using names_short(1) [of "DbgRegNames ! i"] that by (simp_all add: names_many)
  show ?thesis
    unfolding DbgCommandReg_def assms(2) option.case
    by (intro shown_bind each_shown) (auto intro!: string_shown printf_shown n simp: assms cstr_def n)
qed

lemma lsic_shown: "calm d \<Longrightarrow> shown d (DbgCommandLsic d)"
  unfolding DbgCommandLsic_def Let_def by (rule printf_shown) (simp_all add: cstr_def)

lemma cr_shown:
  assumes "calm d" "dbg_proc d = Some proc"
  shows "shown d (DbgCommandCr d)"
proof -
  have n: "27 \<notin> set (DbgCrNames ! i)" "length (DbgCrNames ! i) < 246" if "i < 32" for i
    using names_short(2) [of "DbgCrNames ! i"] that by (simp_all add: names_many)
  have c: "i < 32" if "(i, k) \<in> set cr_list" for i k
    using that by (auto simp: cr_list_def Let_def dest!: set_zip_leftD)
  show ?thesis
    unfolding DbgCommandCr_def assms(2) option.case
    by (intro shown_bind each_shown)
       (auto intro!: shown_bind string_shown printf_shown simp: assms cstr_def n c split: prod.splits)
qed

lemma tb_dump_shown: "calm d \<Longrightarrow> shown d (DbgDumpTb tb n d)"
proof -
  have f: "27 \<notin> set (DbgTbFlags ! j)" if "j < 5" for j
    using names_short(4) [of "DbgTbFlags ! j"] that by (simp add: names_many)
  show "calm d \<Longrightarrow> shown d (DbgDumpTb tb n d)"
    unfolding DbgDumpTb_def
    by (intro shown_bind each_shown) (auto intro!: shown_bind each_shown string_shown printf_shown say_shown simp: cstr_def f)
qed

lemma tb_shown:
  assumes "calm d" "dbg_proc d = Some proc"
  shows "shown d (DbgCommandTb d)"
  unfolding DbgCommandTb_def assms(2) option.case
  by (intro shown_bind) (auto intro!: line_shown string_shown tb_dump_shown simp: assms cstr_def)

text \<open>The clearing sequence leaves the terminal where it was, outside an escape.\<close>

definition moves :: "nat \<Rightarrow> u8 \<Rightarrow> nat \<Rightarrow> bool" where
  "moves j c k \<longleftrightarrow> c \<noteq> 110 \<and> c \<noteq> 10 \<and>
     (\<forall>t t' out. IsEscape t = j \<longrightarrow> TTYPutCharacter c t = Some (t', out) \<longrightarrow> IsEscape t' = k)"

fun path :: "nat \<Rightarrow> (u8 \<times> nat) list \<Rightarrow> nat \<Rightarrow> bool" where
  "path j [] k \<longleftrightarrow> j = k"
| "path j ((c, i) # cs) k \<longleftrightarrow> moves j c i \<and> path i cs k"

lemma put_move:
  assumes "moves j c i" "tty_inv (DbgTty d)" "IsEscape (DbgTty d) = j"
  obtains t where "put_char c d = Some (d\<lparr>DbgTty := t\<rparr>)" "tty_inv t" "IsEscape t = i" "c \<noteq> 10"
proof -
  obtain t out where t: "TTYPutCharacter c (DbgTty d) = Some (t, out)" "tty_inv t"
    using PutCharacter_good [OF assms(2), of c] by (auto simp: tty_good_def)
  have m: "c \<noteq> 110" "c \<noteq> 10" "IsEscape t = i" using assms(1,3) t(1) unfolding moves_def by blast+
  have "out = []" by (rule answer_only_n [OF t(1) m(1)])
  then have p: "put_char c d = Some (d\<lparr>DbgTty := t\<rparr>)" by (simp add: put_char_def t(1))
  show thesis by (rule that [OF p t(2) m(3,2)])
qed

lemma path_put:
  "path j cs k \<Longrightarrow> tty_inv (DbgTty d) \<Longrightarrow> IsEscape (DbgTty d) = j \<Longrightarrow>
    \<exists>tty. DbgPutString (map fst cs) d = Some (d\<lparr>DbgTty := tty\<rparr>) \<and> tty_inv tty \<and> IsEscape tty = k"
proof (induction cs arbitrary: j d)
  case Nil
  have "DbgPutString (map fst []) d = Some (d\<lparr>DbgTty := DbgTty d\<rparr>)" by (simp add: DbgPutString.simps)
  moreover have "j = k" using Nil.prems(1) by simp
  ultimately show ?case using Nil.prems(2,3) by blast
next
  case (Cons p cs)
  obtain c i where p: "p = (c, i)" by (cases p)
  have m: "moves j c i" "path i cs k" using Cons.prems(1) unfolding p by simp_all
  obtain t where t: "put_char c d = Some (d\<lparr>DbgTty := t\<rparr>)" "tty_inv t" "IsEscape t = i" "c \<noteq> 10"
    by (rule put_move [OF m(1) Cons.prems(2,3)])
  have "tty_inv (DbgTty (d\<lparr>DbgTty := t\<rparr>))" "IsEscape (DbgTty (d\<lparr>DbgTty := t\<rparr>)) = i" using t(2,3) by simp_all
  from Cons.IH [OF m(2) this] obtain tty where
    y: "DbgPutString (map fst cs) (d\<lparr>DbgTty := t\<rparr>) = Some (d\<lparr>DbgTty := tty\<rparr>)" "tty_inv tty" "IsEscape tty = k"
    by auto
  have "DbgPutString (map fst (p # cs)) d = Some (d\<lparr>DbgTty := tty\<rparr>)"
    using t(1,4) y(1) unfolding p list.map fst_conv DbgPutString.simps by simp
  with y(2,3) show ?case by blast
qed

lemma moves_simps:
  "moves 0 27 1" "moves 1 91 1" "moves 1 48 1" "moves 1 49 1" "moves 1 50 1" "moves 1 59 1" "moves 1 109 0" "moves 1 72 0" "moves 1 74 0"
proof -
  show "moves 0 27 1" "moves 1 91 1" "moves 1 48 1" "moves 1 49 1" "moves 1 50 1" "moves 1 59 1"
    by (auto simp: moves_def TTYPutCharacter_def TTYParseEscape_def Let_def split: if_splits)
  have "IsEscape (TTYEscSetColor t) = IsEscape t" for t by (simp add: TTYEscSetColor_def Let_def)
  then show "moves 1 109 0" by (auto simp: moves_def TTYPutCharacter_def TTYParseEscape_def Let_def)
  have "IsEscape (TTYMoveCursor x y t) = IsEscape t" for x y t by (simp add: TTYMoveCursor_def Let_def)
  then show "moves 1 72 0" by (auto simp: moves_def TTYPutCharacter_def TTYParseEscape_def Let_def)
  have "TTYEscClear t = Some t' \<Longrightarrow> IsEscape t' = IsEscape t" for t t'
    by (auto simp: TTYEscClear_def Let_def dest!: esc_blank split: if_splits bind_splits)
  then show "moves 1 74 0" by (auto simp: moves_def TTYPutCharacter_def TTYParseEscape_def Let_def split: bind_splits)
qed

lemma clear_shown:
  assumes "calm d"
  shows "shown d (DbgCommandClear d)"
proof -
  let ?cs = "[(27, 1), (91, 1), (48, 1), (109, 0), (27, 1), (91, 1), (49, 1), (59, 1), (49, 1), (72, 0), (27, 1), (91, 1), (50, 1), (74, 0)]
    :: (u8 \<times> nat) list"
  have "path 0 ?cs 0" using moves_simps by simp
  from path_put [OF this, of d] assms obtain tty where
    t: "DbgPutString (map fst ?cs) d = Some (d\<lparr>DbgTty := tty\<rparr>)" "tty_inv tty" "IsEscape tty = 0"
    by (auto simp: calm_def)
  have e: "[27] @ cstr ''[0m'' @ [27] @ cstr ''[1;1H'' @ [27] @ cstr ''[2J'' = map fst ?cs" by (simp add: cstr_def)
  have c: "calm (d\<lparr>DbgTty := tty\<rparr>)" using t(2,3) assms by (simp add: calm_def)
  have "shown (d\<lparr>DbgTty := tty\<rparr>) (DbgHeader (d\<lparr>DbgTty := tty\<rparr>))"
    unfolding DbgHeader_def by (rule line_shown [OF c]) (simp add: cstr_def)
  then show ?thesis unfolding DbgCommandClear_def e t(1) by (simp add: shown_def)
qed

section \<open>Commands with arguments\<close>

text \<open>What a command finds: a line of printable characters behind the pointer and a processor.\<close>

definition line_left :: "Dbg \<Rightarrow> bool" where
  "line_left d \<longleftrightarrow> (case CmdNextToken d of None \<Rightarrow> True | Some i \<Rightarrow> \<exists>s. line_at (Cmdline d) i s \<and> 27 \<notin> set s)"

definition ready :: "Dbg \<Rightarrow> bool" where
  "ready d \<longleftrightarrow> calm d \<and> line_left d"

lemma token_state [simp]:
  "calm (d\<lparr>CmdNextToken := x\<rparr>) = calm d" "calm (d\<lparr>TokenBuf := w\<rparr>) = calm d"
  by (simp_all add: calm_def)

lemma ready_token:
  assumes "ready d"
  obtains got d' where "DbgNextToken d = Some (got, d')" "ready d'" "CmdIndex d' = CmdIndex d" "DbgMachine d' = DbgMachine d"
    "DbgSelectedCpu d' = DbgSelectedCpu d"
proof (cases "CmdNextToken d")
  case None
  then show thesis using assms by (intro that [of False d]) (simp_all add: DbgNextToken_def)
next
  case (Some i)
  then obtain s where s: "line_at (Cmdline d) i s" "27 \<notin> set s" using assms by (auto simp: ready_def line_left_def)
  show thesis
  proof (cases "words s")
    case Nil
    then have t: "DbgNextToken d = Some (False, d\<lparr>CmdNextToken := None\<rparr>)" using next_token [OF Some s(1)] by simp
    have "ready (d\<lparr>CmdNextToken := None\<rparr>)" using assms by (simp add: ready_def line_left_def)
    from that [OF t this] show thesis by simp
  next
    case (Cons w ws)
    then obtain j s' where j: "DbgNextToken d = Some (True, d\<lparr>CmdNextToken := Some j, TokenBuf := w\<rparr>)" "line_at (Cmdline d) j s'" "set s' \<subseteq> set s"
      using next_token [OF Some s(1)] by auto
    have "line_left (d\<lparr>CmdNextToken := Some j, TokenBuf := w\<rparr>)" using j(2,3) s(2) by (auto simp: line_left_def)
    then have "ready (d\<lparr>CmdNextToken := Some j, TokenBuf := w\<rparr>)" using assms by (simp add: ready_def)
    from that [OF j(1) this] show thesis by simp
  qed
qed

lemma ready_calm: "ready d \<Longrightarrow> calm d"
  by (simp add: ready_def)

lemma flags_ready:
  assumes "ready d"
  obtains flags d' where "dbg_flags f d = Some (flags, d')" "ready d'" "CmdIndex d' = CmdIndex d"
proof -
  obtain got d' where d': "DbgNextToken d = Some (got, d')" "ready d'" "CmdIndex d' = CmdIndex d"
    by (rule ready_token [OF assms])
  have "\<exists>flags. dbg_flags f d = Some (flags, d')" by (simp add: dbg_flags_def d'(1))
  with d'(2,3) that show thesis by blast
qed

lemma line_fine: "calm d' \<Longrightarrow> CmdIndex d' = CmdIndex d \<Longrightarrow> 27 \<notin> set (cstr str) \<Longrightarrow> fine d (dbg_line str d')"
  by (rule fine_from(1) [OF _ shown_fine [OF line_shown]])

lemma printf_fine: "calm d' \<Longrightarrow> CmdIndex d' = CmdIndex d \<Longrightarrow> 27 \<notin> set str \<Longrightarrow> length str < 256 \<Longrightarrow> fine d (dbg_printf str d')"
  by (rule fine_from(1) [OF _ shown_fine [OF printf_shown]])

lemma translate_fine: "calm d' \<Longrightarrow> CmdIndex d' = CmdIndex d \<Longrightarrow> finep d (DbgTranslateAddress (CitronPorts st) junk addr flags d')"
  by (rule fine_from(2) [OF _ address_fine])

text \<open>The steps that the commands with an address share: the optional flags, then the translation.\<close>

lemma flags_then:
  assumes "ready d1" "CmdIndex d1 = CmdIndex d" and "\<And>flags d'. ready d' \<Longrightarrow> CmdIndex d' = CmdIndex d \<Longrightarrow> fine d (k flags d')"
  shows "fine d (dbg_flags f d1 \<bind> (\<lambda>(flags, d). k flags d))"
proof -
  obtain flags d' where d': "dbg_flags f d1 = Some (flags, d')" "ready d'" "CmdIndex d' = CmdIndex d1"
    by (rule flags_ready [OF assms(1)])
  then show ?thesis using assms(2,3) by simp
qed

lemma token_then:
  assumes "ready d1" "CmdIndex d1 = CmdIndex d" and "\<And>got d'. ready d' \<Longrightarrow> CmdIndex d' = CmdIndex d \<Longrightarrow> fine d (k got d')"
  shows "fine d (DbgNextToken d1 \<bind> (\<lambda>(got, d). k got d))"
proof -
  obtain got d' where d': "DbgNextToken d1 = Some (got, d')" "ready d'" "CmdIndex d' = CmdIndex d1"
    by (rule ready_token [OF assms(1)])
  then show ?thesis using assms(2,3) by simp
qed

lemma translate_then:
  assumes "ready d1" "CmdIndex d1 = CmdIndex d" and "\<And>phys d'. calm d' \<Longrightarrow> CmdIndex d' = CmdIndex d \<Longrightarrow> fine d (k phys d')"
  shows "fine d (DbgTranslateAddress (CitronPorts st) junk addr flags d1 \<bind> (\<lambda>(phys, d). k phys d))"
  by (rule fine_then(3) [OF translate_fine [OF ready_calm [OF assms(1)] assms(2)] assms(3)])

lemma no_phys_fine: "calm d' \<Longrightarrow> CmdIndex d' = CmdIndex d \<Longrightarrow> fine d (dbg_no_phys flags d')"
  by (simp add: dbg_no_phys_def line_fine cstr_def)

lemma translate_command:
  assumes "ready d"
  shows "fine d (DbgCommandTranslate (CitronPorts st) junk d)"
  unfolding DbgCommandTranslate_def Let_def
proof (rule token_then [OF assms refl])
  fix got d1
  assume 1: "ready d1" "CmdIndex d1 = CmdIndex d"
  show "fine d (if \<not> got then dbg_line ''Usage: translate [addr] (-giptvz)'' d1
    else dbg_flags DBG_TRANSLATE_PRINT d1 \<bind> (\<lambda>(flags, d). DbgTranslateAddress (CitronPorts st) junk (DbgParseAddress (TokenBuf d1)) flags d \<bind>
      (\<lambda>(phys, d). Some d)))"
    using 1 ready_calm [OF 1(1)] by (auto intro!: line_fine flags_then translate_then simp: cstr_def)
qed

lemma read_fine:
  assumes "calm d1" "CmdIndex d1 = CmdIndex d"
  shows "fine d (case dbg_read (CitronPorts st) junk a d1 of
      (None, d) \<Rightarrow> dbg_line ''Bus error on read'' d | (Some v, d) \<Rightarrow> dbg_printf (sprintf_x8 v @ [10]) d)"
proof -
  obtain x d2 where r: "dbg_read (CitronPorts st) junk a d1 = (x, d2)" by force
  have c: "calm d2" "CmdIndex d2 = CmdIndex d" using dbg_read_calm [OF assms(1) r] assms(2) by simp_all
  show ?thesis unfolding r by (cases x) (simp_all add: c line_fine printf_fine cstr_def)
qed

lemma peek_command:
  assumes "ready d"
  shows "fine d (DbgCommandPeek (CitronPorts st) junk d)"
  unfolding DbgCommandPeek_def Let_def
proof (rule token_then [OF assms refl])
  fix got d1
  assume 1: "ready d1" "CmdIndex d1 = CmdIndex d"
  define a where "a = DbgParseAddress (TokenBuf d1)"
  define ok where "ok = (\<lambda>flags d. DbgTranslateAddress (CitronPorts st) junk a flags d \<bind> (\<lambda>(phys, d).
    case phys of None \<Rightarrow> dbg_no_phys flags d
    | Some a \<Rightarrow> dbg_printf (cstr ''Phys['' @ sprintf_x8 a @ cstr '']='') d \<bind> (\<lambda>d.
        case dbg_read (CitronPorts st) (junk 3) a d of
          (None, d) \<Rightarrow> dbg_line ''Bus error on read'' d | (Some v, d) \<Rightarrow> dbg_printf (sprintf_x8 v @ [10]) d)))"
  have ok: "fine d (ok flags d2)" if "ready d2" "CmdIndex d2 = CmdIndex d" for flags d2
    unfolding ok_def using that
    by (auto intro!: translate_then fine_then(1) printf_fine read_fine no_phys_fine simp: cstr_def split: option.split)
  show "fine d (if \<not> got then dbg_line ''Usage: peek [addr] (-giptvz)'' d1
     else if DbgParseAddress (TokenBuf d1) AND 3 \<noteq> 0 then dbg_line ''Unaligned address'' d1
     else dbg_flags 0 d1 \<bind> (\<lambda>(flags, d). DbgTranslateAddress (CitronPorts st) junk (DbgParseAddress (TokenBuf d1)) flags d \<bind> (\<lambda>(phys, d).
    case phys of None \<Rightarrow> dbg_no_phys flags d
    | Some a \<Rightarrow> dbg_printf (cstr ''Phys['' @ sprintf_x8 a @ cstr '']='') d \<bind> (\<lambda>d.
        case dbg_read (CitronPorts st) (junk 3) a d of
          (None, d) \<Rightarrow> dbg_line ''Bus error on read'' d | (Some v, d) \<Rightarrow> dbg_printf (sprintf_x8 v @ [10]) d))))"
    unfolding a_def [symmetric] ok_def [symmetric]
    using 1 ready_calm [OF 1(1)] by (auto intro!: line_fine flags_then ok simp: cstr_def)
qed

text \<open>What \<open>poke\<close> does once the physical address is known.\<close>

lemma poke_write_fine:
  assumes "calm d1" "CmdIndex d1 = CmdIndex d"
  shows "fine d (dbg_printf (cstr ''Phys['' @ sprintf_x8 a @ cstr '']='' @ sprintf_x8 v @ [32]) d1 \<bind> (\<lambda>d.
    let (s, m) = EBusWrite (CitronPorts st) a (bytes_of_u32 v) 4 (DbgSelectedCpu d) (DbgMachine d); d = d\<lparr>DbgMachine := m\<rparr>
    in (if s \<noteq> EBUSSUCCESS then dbg_say ''Bus error on write'' d else Some d) \<bind> (\<lambda>d. DbgPutString [10] d)))"
proof (rule fine_then(1))
  show "fine d (dbg_printf (cstr ''Phys['' @ sprintf_x8 a @ cstr '']='' @ sprintf_x8 v @ [32]) d1)"
    by (rule printf_fine [OF assms]) (simp_all add: cstr_def)
next
  fix d2
  assume 2: "calm d2" "CmdIndex d2 = CmdIndex d"
  obtain s m where w: "EBusWrite (CitronPorts st) a (bytes_of_u32 v) 4 (DbgSelectedCpu d2) (DbgMachine d2) = (s, m)" by force
  have "cores m = cores (DbgMachine d2)"
    using machine.bus_write [of st a "bytes_of_u32 v" 4 "DbgSelectedCpu d2" "DbgMachine d2"] by (simp add: w)
  from machine_calm [OF 2(1) this] have c: "calm (d2\<lparr>DbgMachine := m\<rparr>)" .
  have "shown (d2\<lparr>DbgMachine := m\<rparr>) ((if s \<noteq> EBUSSUCCESS then dbg_say ''Bus error on write'' (d2\<lparr>DbgMachine := m\<rparr>)
    else Some (d2\<lparr>DbgMachine := m\<rparr>)) \<bind> (\<lambda>d. DbgPutString [10] d))"
    by (rule shown_bind) (use c in \<open>simp_all add: say_shown string_shown cstr_def\<close>)
  from shown_fine [OF this] have "fine d ((if s \<noteq> EBUSSUCCESS then dbg_say ''Bus error on write'' (d2\<lparr>DbgMachine := m\<rparr>)
    else Some (d2\<lparr>DbgMachine := m\<rparr>)) \<bind> (\<lambda>d. DbgPutString [10] d))"
    by (rule fine_from(1) [rotated]) (simp add: 2)
  then show "fine d (let (s, m) = EBusWrite (CitronPorts st) a (bytes_of_u32 v) 4 (DbgSelectedCpu d2) (DbgMachine d2); d = d2\<lparr>DbgMachine := m\<rparr>
    in (if s \<noteq> EBUSSUCCESS then dbg_say ''Bus error on write'' d else Some d) \<bind> (\<lambda>d. DbgPutString [10] d))"
    unfolding w Let_def prod.case .
qed

lemma poke_command:
  assumes "ready d"
  shows "fine d (DbgCommandPoke (CitronPorts st) junk d)"
  unfolding DbgCommandPoke_def Let_def
  by (auto intro!: token_then flags_then translate_then line_fine no_phys_fine poke_write_fine [unfolded Let_def]
      simp: assms ready_calm split: option.split) (simp_all add: cstr_def)

lemma cpu_command:
  assumes "ready d" "\<And>w d'. DbgNextToken d = Some (True, d') \<Longrightarrow> 0 \<le> strtol (TokenBuf d') 10"
  shows "fine d (DbgCommandCpu d)"
proof -
  obtain got d1 where 1: "DbgNextToken d = Some (got, d1)" "ready d1" "CmdIndex d1 = CmdIndex d" by (rule ready_token [OF assms(1)])
  have n: "got \<Longrightarrow> 0 \<le> strtol (TokenBuf d1) 10" using assms(2) [of d1] 1(1) by simp
  have l: "fine d (dbg_line str d1)" if "27 \<notin> set (cstr str)" for str
    by (rule line_fine [OF ready_calm [OF 1(2)] 1(3) that])
  have "calm (d1\<lparr>DbgSelectedCpu := p\<rparr>)" if "XrProcessorPresent (DbgMachine d1) p" for p
    using ready_calm [OF 1(2)] that unfolding calm_def dbg_proc_present by simp
  then show ?thesis using n l 1(3) by (auto simp: DbgCommandCpu_def 1(1) Let_def cstr_def not_less)
qed

lemma running_calm: "calm d \<Longrightarrow> calm (dbg_set_running r d)" "CmdIndex (dbg_set_running r d) = CmdIndex d"
  unfolding calm_def dbg_proc_present by (simp_all add: dbg_set_running_def Let_def)

lemma pause_command:
  assumes "calm d"
  shows "fine d (DbgCommandPause d)" "fine d (DbgCommandResume d)"
proof -
  obtain proc where p: "dbg_proc d = Some proc" using assms by (auto simp: calm_def)
  show "fine d (DbgCommandPause d)" "fine d (DbgCommandResume d)"
    unfolding DbgCommandPause_def DbgCommandResume_def p option.case
    by (auto intro!: line_fine running_calm simp: assms cstr_def)
qed

section \<open>A line\<close>

text \<open>
  The lines that are safe: the first word is short enough for the message about an unknown command, and
  \<open>cpu\<close> is not given a negative number.
\<close>

definition dbg_commands :: "u8 list list" where
  "dbg_commands = map cstr [''help'', ''clear'', ''reg'', ''lsic'', ''cr'', ''tb'', ''pause'', ''resume'', ''cpu'', ''translate'', ''poke'', ''peek'']"

definition line_ok :: "u8 list \<Rightarrow> bool" where
  "line_ok s \<longleftrightarrow> (case words s of [] \<Rightarrow> True | w # ws \<Rightarrow>
     length w + 30 < CMD_MAX \<and> (w = cstr ''cpu'' \<longrightarrow> (case ws of [] \<Rightarrow> True | v # _ \<Rightarrow> 0 \<le> strtol v 10)))"

lemma command_fine:
  assumes "ready d" "27 \<notin> set w" "length w + 30 < CMD_MAX"
    and "\<And>d'. w = cstr ''cpu'' \<Longrightarrow> DbgNextToken d = Some (True, d') \<Longrightarrow> 0 \<le> strtol (TokenBuf d') 10"
  shows "fine d (dbg_command (CitronPorts st) junk w d)"
proof -
  note c = ready_calm [OF assms(1)]
  obtain proc where p: "dbg_proc d = Some proc" using c by (auto simp: calm_def)
  have l: "length (w @ cstr '' is not a recognized command.'' @ [10]) < 256" using assms(3) by (simp add: cstr_def)
  have e: "27 \<notin> set (w @ cstr '' is not a recognized command.'' @ [10])" using assms(2) by (simp add: cstr_def)
  show ?thesis
    unfolding dbg_command_def
    using shown_fine [OF help_shown [OF c]] shown_fine [OF clear_shown [OF c]] shown_fine [OF reg_shown [OF c p]]
      shown_fine [OF lsic_shown [OF c]] shown_fine [OF cr_shown [OF c p]] shown_fine [OF tb_shown [OF c p]]
      pause_command [OF c] cpu_command [OF assms(1)] assms(4)
      translate_command [OF assms(1), of st junk] poke_command [OF assms(1), of st junk] peek_command [OF assms(1), of st junk]
      printf_fine [OF c refl e l]
    by (auto split: if_splits)
qed

lemma prompt_fine: "calm d' \<Longrightarrow> CmdIndex d' = CmdIndex d \<Longrightarrow> fine d (DbgPrompt d')"
  unfolding DbgPrompt_def by (rule fine_from(1) [OF _ shown_fine [OF say_shown]]) (simp_all add: cstr_def)

lemma while_subset: "set (takeWhile P xs) \<subseteq> set xs" "set (dropWhile P xs) \<subseteq> set xs"
  by (auto dest: set_takeWhileD set_dropWhileD)

lemma words_set: "w \<in> set (words s) \<Longrightarrow> set w \<subseteq> set s"
proof (induction s rule: words.induct)
  case (1 s)
  let ?t = "dropWhile (\<lambda>c. c = 32) s"
  have t: "set ?t \<subseteq> set s" by (rule while_subset(2))
  show ?case
  proof (cases "?t = []")
    case True
    then show ?thesis using 1(2) by (subst (asm) words.simps) simp
  next
    case False
    then have "w = takeWhile (\<lambda>c. c \<noteq> 32) ?t \<or> w \<in> set (words (dropWhile (\<lambda>c. c \<noteq> 32) ?t))"
      using 1(2) by (subst (asm) words.simps) (simp add: Let_def split: if_splits)
    then show ?thesis
    proof
      assume "w = takeWhile (\<lambda>c. c \<noteq> 32) ?t"
      then show ?thesis using while_subset(1) [of "\<lambda>c. c \<noteq> 32" ?t] t by simp
    next
      assume "w \<in> set (words (dropWhile (\<lambda>c. c \<noteq> 32) ?t))"
      from 1(1) [OF refl False this] show ?thesis using while_subset(2) [of "\<lambda>c. c \<noteq> 32" ?t] t by (rule order_trans [OF _ order_trans])
    qed
  qed
qed

lemma process_fine:
  assumes "calm d" "line_at (Cmdline d) 0 s" "27 \<notin> set s" "line_ok s"
  shows "fine d (DbgProcessInput (CitronPorts st) junk d)"
proof -
  define d0 where "d0 = d\<lparr>CmdNextToken := Some 0\<rparr>"
  have d0: "CmdNextToken d0 = Some 0" "line_at (Cmdline d0) 0 s" "calm d0" "CmdIndex d0 = CmdIndex d"
    using assms by (simp_all add: d0_def)
  note t = next_token [OF d0(1,2)]
  show ?thesis
  proof (cases "words s")
    case Nil
    then show ?thesis using t d0 by (simp add: DbgProcessInput_def d0_def [symmetric] prompt_fine)
  next
    case (Cons w ws)
    obtain j s' where j: "DbgNextToken d0 = Some (True, d0\<lparr>CmdNextToken := Some j, TokenBuf := w\<rparr>)" "line_at (Cmdline d0) j s'" "words s' = ws"
      "set s' \<subseteq> set s" using t Cons by auto
    define d1 where "d1 = d0\<lparr>CmdNextToken := Some j, TokenBuf := w\<rparr>"
    have d1: "CmdNextToken d1 = Some j" "line_at (Cmdline d1) j s'" "ready d1" "CmdIndex d1 = CmdIndex d" "TokenBuf d1 = w"
      using d0 j(2,4) assms(3) by (auto simp: d1_def ready_def line_left_def)
    have w: "27 \<notin> set w" using words_set [of w s] Cons assms(3) by auto
    have ok: "length w + 30 < CMD_MAX" "w = cstr ''cpu'' \<Longrightarrow> (case ws of [] \<Rightarrow> True | v # _ \<Rightarrow> 0 \<le> strtol v 10)"
      using assms(4) by (simp_all add: line_ok_def Cons)
    have n: "0 \<le> strtol (TokenBuf d') 10" if "w = cstr ''cpu''" "DbgNextToken d1 = Some (True, d')" for d'
      using next_token [OF d1(1,2)] ok(2) [OF that(1)] that(2) j(3) by (auto split: list.splits)
    have "fine d1 (dbg_command (CitronPorts st) junk w d1)" by (rule command_fine [OF d1(3) w ok(1) n])
    then have "fine d (dbg_command (CitronPorts st) junk w d1)" by (rule fine_from(1) [OF d1(4)])
    then have "fine d (dbg_command (CitronPorts st) junk w d1 \<bind> DbgPrompt)" by (rule fine_then(1)) (rule prompt_fine)
    then show ?thesis using j(1) d1(5) by (simp add: DbgProcessInput_def d0_def [symmetric] d1_def [symmetric])
  qed
qed

section \<open>Keys\<close>

definition dbg_inv :: "Dbg \<Rightarrow> bool" where
  "dbg_inv d \<longleftrightarrow> calm d \<and> CmdIndex d < CMD_MAX \<and> (\<forall>k < CmdIndex d. Cmdline d k \<noteq> 27)"

text \<open>The line typed so far, up to a zero character.\<close>

definition typed :: "Dbg \<Rightarrow> u8 list" where
  "typed d = takeWhile (\<lambda>c. c \<noteq> 0) (map (Cmdline d) [0..<CmdIndex d])"

lemma typed_line:
  assumes "CmdIndex d < CMD_MAX"
  shows "line_at ((Cmdline d)(CmdIndex d := 0)) 0 (typed d)"
proof -
  let ?m = "map (Cmdline d) [0..<CmdIndex d]"
  have l: "length (typed d) \<le> CmdIndex d" using length_takeWhile_le [of "\<lambda>c. c \<noteq> 0" ?m] by (simp add: typed_def)
  have k: "Cmdline d k = typed d ! k" if "k < length (typed d)" for k
    using that l takeWhile_nth [of k "\<lambda>c. c \<noteq> 0" ?m] by (simp add: typed_def)
  have "Cmdline d (length (typed d)) = 0" if "length (typed d) < CmdIndex d"
    using that nth_length_takeWhile [of "\<lambda>c. c \<noteq> 0" ?m] by (simp add: typed_def)
  moreover have "0 \<notin> set (typed d)" by (auto simp: typed_def dest!: set_takeWhileD)
  ultimately show ?thesis using l k assms by (auto simp: line_at_def)
qed

lemma typed_plain: "dbg_inv d \<Longrightarrow> 27 \<notin> set (typed d)"
  by (auto simp: dbg_inv_def typed_def dest!: set_takeWhileD)

lemma puts_shown:
  assumes "calm d" "27 \<notin> set [a, b]"
  shows "shown d (put_char a d \<bind> (\<lambda>d. put_char b d))"
  by (rule shown_bind) (use assms in \<open>simp_all add: put_shown\<close>)

lemma type_plain:
  assumes "dbg_inv d" "c \<noteq> 27"
  obtains tty where "dbg_type 1 c d = Some (if CmdIndex d < CMD_MAX - 1
      then d\<lparr>DbgTty := tty, Cmdline := (Cmdline d)(CmdIndex d := c), CmdIndex := CmdIndex d + 1\<rparr> else d)"
    "dbg_inv (if CmdIndex d < CMD_MAX - 1
      then d\<lparr>DbgTty := tty, Cmdline := (Cmdline d)(CmdIndex d := c), CmdIndex := CmdIndex d + 1\<rparr> else d)"
proof (cases "CmdIndex d < CMD_MAX - 1")
  case True
  let ?d = "d\<lparr>Cmdline := (Cmdline d)(CmdIndex d := c)\<rparr>"
  have "calm ?d" using assms(1) by (simp add: dbg_inv_def calm_def)
  then obtain tty where t: "dbg_put 1 c ?d = Some (?d\<lparr>DbgTty := tty\<rparr>)" "calm (?d\<lparr>DbgTty := tty\<rparr>)"
    by (rule plain_put [OF _ assms(2)])
  have "\<forall>k < CmdIndex d + 1. ((Cmdline d)(CmdIndex d := c)) k \<noteq> 27" using assms by (auto simp: dbg_inv_def less_Suc_eq)
  then show thesis using True t by (intro that [of tty]) (simp_all add: dbg_inv_def calm_def)
next
  case False
  then show thesis using assms(1) by (intro that [of "DbgTty d"]) simp_all
qed

lemma backspace_plain:
  assumes "dbg_inv d" "CmdIndex d \<noteq> 0"
  obtains tty where "DbgInput ports junk 8 d = Some (d\<lparr>DbgTty := tty, CmdIndex := CmdIndex d - 1\<rparr>)"
    "dbg_inv (d\<lparr>DbgTty := tty, CmdIndex := CmdIndex d - 1\<rparr>)"
proof -
  have c: "calm d" using assms(1) by (simp add: dbg_inv_def)
  have "shown d (put_char 8 d \<bind> (\<lambda>d. put_char 32 d \<bind> (\<lambda>d. put_char 8 d)))"
    by (intro shown_bind) (use c in \<open>simp_all add: put_shown puts_shown\<close>)
  then obtain tty where t: "put_char 8 d \<bind> (\<lambda>d. put_char 32 d \<bind> (\<lambda>d. put_char 8 d)) = Some (d\<lparr>DbgTty := tty\<rparr>)" "calm (d\<lparr>DbgTty := tty\<rparr>)"
    by (auto simp: shown_def)
  have "put_char 8 d \<bind> (\<lambda>d. put_char 32 d \<bind> (\<lambda>d. put_char 8 d \<bind> (\<lambda>d. Some (d\<lparr>CmdIndex := CmdIndex d - 1\<rparr>)))) =
      Some (d\<lparr>DbgTty := tty, CmdIndex := CmdIndex d - 1\<rparr>)"
    using arg_cong [OF t(1), of "\<lambda>r. r \<bind> (\<lambda>d. Some (d\<lparr>CmdIndex := CmdIndex d - 1\<rparr>))"] by simp
  then show thesis using assms t(2) by (intro that [of tty]) (auto simp: DbgInput_def dbg_inv_def calm_def)
qed

section \<open>Properties\<close>

fun dbg_keys :: "CitronTable \<Rightarrow> (nat \<Rightarrow> u32) \<Rightarrow> u16 list \<Rightarrow> Dbg \<Rightarrow> Dbg option" where
  "dbg_keys ports junk [] d = Some d"
| "dbg_keys ports junk (c # cs) d = do { d \<leftarrow> DbgInput ports junk c d; dbg_keys ports junk cs d }"

text \<open>The reference editor: a backspace takes the last character away, and there is room for 255.\<close>

definition edit_key :: "u16 \<Rightarrow> u8 list \<Rightarrow> u8 list" where
  "edit_key c s = (if c = 8 then butlast s else if length s < CMD_MAX - 1 then s @ [ucast c] else s)"

definition edited :: "u16 list \<Rightarrow> u8 list" where
  "edited cs = fold edit_key cs []"

text \<open>
  Claim C28. As long as no escape key is pressed and the lines that are entered are safe, the debugger takes
  every key: nothing is accessed outside its buffers, its screen and the processor table, the terminal is left outside
  an escape sequence and the line inside its buffer.
\<close>

theorem dbg_input_safe:
  assumes "dbg_inv d" "(ucast c :: u8) \<noteq> 27" "c = 13 \<Longrightarrow> line_ok (typed d)"
  shows "\<exists>d'. DbgInput (CitronPorts st) junk c d = Some d' \<and> dbg_inv d' \<and> (c = 13 \<longrightarrow> CmdIndex d' = 0)"
proof -
  consider "c = 13" | "c = 8" "CmdIndex d = 0" | "c = 8" "CmdIndex d \<noteq> 0" | "c \<noteq> 13" "c \<noteq> 8" by blast
  then show ?thesis
  proof cases
    case 1
    have i: "calm d" "CmdIndex d < CMD_MAX" using assms(1) by (simp_all add: dbg_inv_def)
    obtain tty where t: "put_char 13 d \<bind> (\<lambda>d. put_char 10 d) = Some (d\<lparr>DbgTty := tty\<rparr>)" "calm (d\<lparr>DbgTty := tty\<rparr>)"
      using puts_shown [OF i(1), of 13 10] by (auto simp: shown_def)
    define d1 where "d1 = d\<lparr>DbgTty := tty, Cmdline := (Cmdline d)(CmdIndex d := 0), CmdIndex := 0\<rparr>"
    have d1: "calm d1" "CmdIndex d1 = 0" "line_at (Cmdline d1) 0 (typed d)"
      using t(2) typed_line [OF i(2)] by (simp_all add: d1_def calm_def)
    have "fine d1 (DbgProcessInput (CitronPorts st) junk d1)"
      by (rule process_fine [OF d1(1,3) typed_plain [OF assms(1)] assms(3) [OF 1]])
    then obtain d' where d': "DbgProcessInput (CitronPorts st) junk d1 = Some d'" "calm d'" "CmdIndex d' = 0"
      using d1(2) by (auto simp: fine_def)
    have "DbgInput (CitronPorts st) junk c d = (put_char 13 d \<bind> (\<lambda>d. put_char 10 d)) \<bind>
        (\<lambda>d. if CmdIndex d < CMD_MAX then DbgProcessInput (CitronPorts st) junk (d\<lparr>Cmdline := (Cmdline d)(CmdIndex d := 0), CmdIndex := 0\<rparr>) else None)"
      using 1 by (simp add: DbgInput_def)
    also have "\<dots> = Some d'" using i(2) d'(1) by (simp add: t(1) d1_def)
    finally show ?thesis using d'(2,3) by (simp add: dbg_inv_def)
  next
    case 2
    then show ?thesis using assms(1) by (simp add: DbgInput_def)
  next
    case 3
    then show ?thesis using backspace_plain [OF assms(1) 3(2), of "CitronPorts st" junk] by auto
  next
    case 4
    have "DbgInput (CitronPorts st) junk c d = dbg_type 1 (ucast c) d" using 4 by (simp add: DbgInput_def)
    then show ?thesis using type_plain [OF assms(1,2)] 4(1) by metis
  qed
qed

end
