(* ===== verification/DbgSpec.thy ===== *)
theory DbgSpec
  imports DbgSafe
begin

text \<open>
  What the debugger makes of a line: the editing of keys, its tokens, the numbers in it, a word that is
  too long; and the agreement of its translation with the processor's.
\<close>

section \<open>Samples\<close>

definition dbg_sample :: "nat \<Rightarrow> Dbg" where
  "dbg_sample i = \<lparr>DbgTty = TTYCreate 132 24, Cmdline = (\<lambda>k. if k < i then 97 else 0), CmdIndex = i, TokenBuf = [],
     CmdNextToken = None, DbgSelectedCpu = 0, DbgMachine = machine_zero\<rparr>"

lemma sample_inv: "i < CMD_MAX \<Longrightarrow> dbg_inv (dbg_sample i)"
  using sample_80_24(2) by (simp add: dbg_sample_def dbg_inv_def calm_def dbg_proc_def machine_zero_def TTYCreate_def)

lemma dbg_input_safe_witness: "\<exists>d'. DbgInput (CitronPorts EBUSSUCCESS) (\<lambda>_. 0) 13 (dbg_sample 0) = Some d' \<and> dbg_inv d' \<and> CmdIndex d' = 0"
proof -
  have "line_ok (typed (dbg_sample 0))" by (simp add: line_ok_def typed_def dbg_sample_def words.simps)
  then show ?thesis using dbg_input_safe [OF sample_inv, of 0 13 EBUSSUCCESS "\<lambda>_. 0"] by simp
qed

section \<open>The edited line\<close>

definition line_is :: "Dbg \<Rightarrow> u8 list \<Rightarrow> bool" where
  "line_is d s \<longleftrightarrow> dbg_inv d \<and> CmdIndex d = length s \<and> (\<forall>k < length s. Cmdline d k = s ! k) \<and> 0 \<notin> set s"

lemma line_is_at: "line_is d s \<Longrightarrow> line_at ((Cmdline d)(CmdIndex d := 0)) 0 s"
  by (simp add: line_is_def line_at_def dbg_inv_def)

lemma plain_key: "c < 256 \<Longrightarrow> c \<noteq> k \<Longrightarrow> k < 256 \<Longrightarrow> (ucast c :: u8) \<noteq> ucast k" for c k :: u16
proof
  assume a: "c < 256" "c \<noteq> k" "k < 256" "(ucast c :: u8) = ucast k"
  have "unat c mod 256 = unat k mod 256" using arg_cong [OF a(4), of unat] by (simp add: unsigned_ucast_eq take_bit_eq_mod)
  moreover have "unat c < 256" "unat k < 256" using a(1,3) by (simp_all add: word_less_nat_alt)
  ultimately show False using a(2) by (simp add: word_unat_eq_iff)
qed

lemma edit_step:
  assumes "line_is d s" "c < 256" "c \<noteq> 0" "c \<noteq> 13" "c \<noteq> 27"
  obtains d' where "DbgInput ports junk c d = Some d'" "line_is d' (edit_key c s)"
proof -
  have i: "dbg_inv d" "CmdIndex d = length s" "length s < 256" "\<forall>k < length s. Cmdline d k = s ! k" "0 \<notin> set s"
    using assms(1) unfolding line_is_def dbg_inv_def by auto
  have c: "(ucast c :: u8) \<noteq> 27" "(ucast c :: u8) \<noteq> 0"
    using plain_key [OF assms(2,5)] plain_key [OF assms(2,3)] by simp_all
  consider "c = 8" "s = []" | "c = 8" "s \<noteq> []" | "c \<noteq> 8" by blast
  then show thesis
  proof cases
    case 1
    then have "DbgInput ports junk c d = Some d" "edit_key c s = s" using i(2) by (simp_all add: DbgInput_def edit_key_def)
    then show thesis using assms(1) by (intro that [of d]) simp_all
  next
    case 2
    then obtain tty where t: "DbgInput ports junk c d = Some (d\<lparr>DbgTty := tty, CmdIndex := CmdIndex d - 1\<rparr>)"
      "dbg_inv (d\<lparr>DbgTty := tty, CmdIndex := CmdIndex d - 1\<rparr>)"
      using backspace_plain [OF i(1), of ports junk] i(2) by auto
    show thesis using 2 t(2) i by (intro that [OF t(1)]) (auto simp: line_is_def edit_key_def nth_butlast dest: in_set_butlastD)
  next
    case 3
    have k: "DbgInput ports junk c d = dbg_type 1 (ucast c) d" using 3 assms(4) by (simp add: DbgInput_def)
    show thesis
    proof (rule type_plain [OF i(1) c(1)])
      fix tty
      assume t: "dbg_type 1 (ucast c) d = Some (if CmdIndex d < CMD_MAX - 1
          then d\<lparr>DbgTty := tty, Cmdline := (Cmdline d)(CmdIndex d := ucast c), CmdIndex := CmdIndex d + 1\<rparr> else d)"
        "dbg_inv (if CmdIndex d < CMD_MAX - 1
          then d\<lparr>DbgTty := tty, Cmdline := (Cmdline d)(CmdIndex d := ucast c), CmdIndex := CmdIndex d + 1\<rparr> else d)"
      show thesis
        using 3 t(2) i c(2) assms(1)
        by (intro that [OF k [unfolded t(1)]]) (auto simp: line_is_def edit_key_def nth_append less_Suc_eq)
    qed
  qed
qed

lemma edit_keys:
  "line_is d s \<Longrightarrow> \<forall>c \<in> set cs. c < 256 \<and> c \<noteq> 0 \<and> c \<noteq> 13 \<and> c \<noteq> 27 \<Longrightarrow>
    \<exists>d'. dbg_keys ports junk cs d = Some d' \<and> line_is d' (fold edit_key cs s)"
proof (induction cs arbitrary: d s)
  case (Cons c cs)
  obtain d1 where "DbgInput ports junk c d = Some d1" "line_is d1 (edit_key c s)"
    by (rule edit_step [OF Cons.prems(1), of c ports junk]) (use Cons.prems(2) in auto)
  then show ?case using Cons by simp
qed auto

text \<open>
  Claim C31. Keys typed into an empty line, backspaces and more keys than fit included, leave a line whose tokens, taken one by one as
  the commands take them, are exactly the words of the edited line.
\<close>

theorem dbg_tokens:
  assumes "dbg_inv d" "CmdIndex d = 0" "\<forall>c \<in> set cs. c < 256 \<and> c \<noteq> 0 \<and> c \<noteq> 13 \<and> c \<noteq> 27"
  shows "\<exists>d'. dbg_keys ports junk cs d = Some d' \<and>
    all_tokens CMD_MAX (d'\<lparr>Cmdline := (Cmdline d')(CmdIndex d' := 0), CmdNextToken := Some 0\<rparr>) = Some (words (edited cs))"
proof -
  have "line_is d []" using assms(1,2) by (simp add: line_is_def)
  then obtain d' where d': "dbg_keys ports junk cs d = Some d'" "line_is d' (edited cs)"
    using edit_keys [OF _ assms(3)] unfolding edited_def by blast
  have "length (edited cs) < CMD_MAX" using d'(2) by (simp add: line_is_def dbg_inv_def)
  then have "length (words (edited cs)) < CMD_MAX" using words_length [of "edited cs"] by simp
  from all_tokens_words [OF _ _ this, of "d'\<lparr>Cmdline := (Cmdline d')(CmdIndex d' := 0), CmdNextToken := Some 0\<rparr>" 0]
  show ?thesis using d'(1) line_is_at [OF d'(2)] by simp
qed

lemma dbg_tokens_witness:
  "\<exists>d'. dbg_keys (CitronPorts EBUSSUCCESS) (\<lambda>_. 0) [112, 113, 8, 32, 32, 49] (dbg_sample 0) = Some d' \<and>
    all_tokens CMD_MAX (d'\<lparr>Cmdline := (Cmdline d')(CmdIndex d' := 0), CmdNextToken := Some 0\<rparr>) = Some [[112], [49]]"
proof -
  have "words (edited [112, 113, 8, 32, 32, 49]) = [[112], [49]]"
    by (simp add: edited_def edit_key_def words.simps)
  then show ?thesis
    using dbg_tokens [OF sample_inv, of 0 "[112, 113, 8, 32, 32, 49]" "CitronPorts EBUSSUCCESS" "\<lambda>_. 0"] by (simp add: dbg_sample_def)
qed

text \<open>
  An address as the debugger prints it, with \<^verbatim>\<open>0x\<close> in front, is read back as the same address.
\<close>

theorem dbg_address_roundtrip: "DbgParseAddress (cstr ''0x'' @ sprintf_x8 v) = v"
proof -
  have "hex_digits hex_digit 8 (unat v) \<noteq> []" using length_hex_digits [of hex_digit 8 "unat v"] by fastforce
  then obtain h t where h: "hex_digits hex_digit 8 (unat v) = h # t" by (cases "hex_digits hex_digit 8 (unat v)") auto
  then have "is_digit 16 h" using hex_digits_digits [of hex_digit 8 "unat v"] by simp
  moreover have "digits 16 0 (h # t) = unat v mod 2 ^ 32"
    using digits_hex [of hex_digit 0 8 "unat v", OF hex_digit_value(1)] unfolding h by simp
  moreover have "unat v < 2 ^ 32" by (rule order_less_le_trans [OF unsigned_less]) simp
  ultimately have "strtol (cstr ''0x'' @ h # t) 16 = min LONG_MAX (int (unat v))"
    by (simp add: strtol_def cstr_def isspace_def skip_prefix_def)
  moreover have "int (unat v) < 2 ^ 32" unfolding of_nat_unat by (rule order_less_le_trans [OF unsigned_less]) simp
  ultimately show ?thesis unfolding DbgParseAddress_def sprintf_x8_def h by (simp add: cstr_def LONG_MAX_def)
qed

text \<open>
  A line whose first word has more than 225 characters and is no command makes the debugger write past the end of
  its print buffer.
\<close>

theorem dbg_long_word_overflows:
  assumes "dbg_inv d" "CmdIndex d < CMD_MAX" "words (typed d) = w # ws" "225 < length w"
  shows "DbgInput ports junk 13 d = None"
proof -
  have c: "calm d" using assms(1) by (simp add: dbg_inv_def)
  obtain tty where t: "put_char 13 d \<bind> (\<lambda>d. put_char 10 d) = Some (d\<lparr>DbgTty := tty\<rparr>)"
    using puts_shown [OF c, of 13 10] by (auto simp: shown_def)
  define d0 where "d0 = d\<lparr>DbgTty := tty, Cmdline := (Cmdline d)(CmdIndex d := 0), CmdIndex := 0, CmdNextToken := Some 0\<rparr>"
  have d0: "CmdNextToken d0 = Some 0" "line_at (Cmdline d0) 0 (typed d)" using typed_line [OF assms(2)] by (simp_all add: d0_def)
  obtain d1 where d1: "DbgNextToken d0 = Some (True, d1)" "TokenBuf d1 = w" using next_token [OF d0] assms(3) by auto
  have "dbg_command ports junk w d1 = dbg_printf (w @ cstr '' is not a recognized command.'' @ [10]) d1"
  proof -
    have "w \<noteq> cstr n" if "length n < 10" for n using assms(4) that by (auto simp: cstr_def)
    then show ?thesis by (simp add: dbg_command_def)
  qed
  also have "\<dots> = None" using assms(4) by (simp add: dbg_printf_def cstr_def)
  finally have p: "DbgProcessInput ports junk (d\<lparr>DbgTty := tty, Cmdline := (Cmdline d)(CmdIndex d := 0), CmdIndex := 0\<rparr>) = None"
    using d1 by (simp add: DbgProcessInput_def d0_def)
  have "DbgInput ports junk 13 d = (put_char 13 d \<bind> (\<lambda>d. put_char 10 d)) \<bind>
      (\<lambda>d. if CmdIndex d < CMD_MAX then DbgProcessInput ports junk (d\<lparr>Cmdline := (Cmdline d)(CmdIndex d := 0), CmdIndex := 0\<rparr>) else None)"
    by (simp add: DbgInput_def)
  then show ?thesis using p by (simp add: t)
qed

lemma words_run: "n \<noteq> 0 \<Longrightarrow> words (replicate n 97) = [replicate n 97]"
  by (simp add: words.simps)

lemma dbg_long_word_overflows_witness: "DbgInput (CitronPorts EBUSSUCCESS) (\<lambda>_. 0) 13 (dbg_sample 226) = None"
proof -
  have "map (\<lambda>k. if k < 226 then 97 else 0) [0..<226] = (replicate 226 97 :: u8 list)"
    by (rule nth_equalityI) simp_all
  then have "typed (dbg_sample 226) = replicate 226 97" by (simp add: typed_def dbg_sample_def takeWhile_eq_all_conv)
  then have "words (typed (dbg_sample 226)) = [replicate 226 97]" by (simp add: words_run)
  from dbg_long_word_overflows [OF sample_inv _ this] show ?thesis by (simp add: dbg_sample_def)
qed

section \<open>Translation\<close>

lemma tag_mask: "push_bit 20 (drop_bit 20 tag) = tag AND 0xFFF00000" for tag :: u32
proof -
  have m: "(0xFFF00000 :: u32) = NOT (mask 20)" by (simp add: mask_eq_exp_minus_1)
  show ?thesis unfolding m by (rule bit_eqI) (auto simp: bit_simps)
qed

lemma lookup_same:
  "DbgTranslateAddressTb tb addr (drop_bit 20 tag) n =
    map_option (\<lambda>i. (i, tb i)) (List.find (\<lambda>i. tb_match ((tag AND 0xFFF00000) OR drop_bit 12 addr) (tb i)) [0..<n])"
  unfolding DbgTranslateAddressTb_def Let_def tb_match_def tag_mask ..

lemma phys_same: "tbe_phys tbe addr = ucast (push_bit 7 (tbe AND 0x1FFFFE0) + ucast (addr AND 0xFFF))"
proof -
  have m: "(0xFFF :: u32) = mask 12" "(0x1FFFFE0 :: u64) = push_bit 5 (mask 20)" by (simp_all add: mask_eq_exp_minus_1)
  have "push_bit 7 (tbe AND 0x1FFFFE0) + ucast (addr AND 0xFFF) = push_bit 7 (tbe AND 0x1FFFFE0) OR ucast (addr AND 0xFFF)"
    unfolding m by (rule disjunctive_add) (auto simp: bit_simps)
  then show ?thesis unfolding tbe_phys_def m by (auto intro!: bit_eqI simp: bit_simps)
qed



end
