(* ===== verification/TextFont.thy ===== *)
theory TextFont
  imports XrPrelude
begin

text \<open>
  The bitmap fonts of \<^verbatim>\<open>src/src/text.h\<close>: one or two bytes for each of the ten lines of a glyph. The arrays are
  written in parts of 32 lines of the source.
\<close>

section \<open>\<^verbatim>\<open>TextFont80COL\<close>\<close>

definition TextFont80COL_0 :: "u8 list" where
  "TextFont80COL_0 =
    [0x00, 0x00, 0x00, 0x00, 0x00, 0x00, 0x00, 0x00, 0x00, 0x00,
     0x00, 0x00, 0x00, 0x00, 0x00, 0x00, 0x00, 0x00, 0x00, 0x00,
     0x00, 0x00, 0x3F, 0x00, 0x40, 0x80, 0x52, 0x80, 0x40, 0x80,
     0x5E, 0x80, 0x4C, 0x80, 0x21, 0x00, 0x1E, 0x00, 0x00, 0x00,
     0x00, 0x00, 0x3F, 0x00, 0x7F, 0x80, 0x6D, 0x80, 0x7F, 0x80,
     0x61, 0x80, 0x73, 0x80, 0x3F, 0x00, 0x1E, 0x00, 0x00, 0x00,
     0x00, 0x00, 0x3B, 0x80, 0x7F, 0xC0, 0x7F, 0xC0, 0x7F, 0xC0,
     0x3F, 0x80, 0x1F, 0x00, 0x0E, 0x00, 0x04, 0x00, 0x00, 0x00,
     0x04, 0x00, 0x0E, 0x00, 0x1F, 0x00, 0x3F, 0x80, 0x7F, 0xC0,
     0x3F, 0x80, 0x1F, 0x00, 0x0E, 0x00, 0x04, 0x00, 0x00, 0x00,
     0x00, 0x00, 0x0E, 0x00, 0x1F, 0x00, 0x0E, 0x00, 0x3F, 0x80,
     0x7F, 0xC0, 0x35, 0x80, 0x04, 0x00, 0x0E, 0x00, 0x00, 0x00,
     0x04, 0x00, 0x0E, 0x00, 0x1F, 0x00, 0x3F, 0x80, 0x7F, 0xC0,
     0x7F, 0xC0, 0x35, 0x80, 0x04, 0x00, 0x0E, 0x00, 0x00, 0x00,
     0x00, 0x00, 0x00, 0x00, 0x00, 0x00, 0x0C, 0x00, 0x1E, 0x00,
     0x1E, 0x00, 0x0C, 0x00, 0x00, 0x00, 0x00, 0x00, 0x00, 0x00,
     0xFF, 0xC0, 0xFF, 0xC0, 0xFF, 0xC0, 0xF3, 0xC0, 0xE1, 0xC0,
     0xE1, 0xC0, 0xF3, 0xC0, 0xFF, 0xC0, 0xFF, 0xC0, 0xFF, 0xC0,
     0x00, 0x00, 0x00, 0x00, 0x1E, 0x00, 0x33, 0x00, 0x21, 0x00,
     0x21, 0x00, 0x33, 0x00, 0x1E, 0x00, 0x00, 0x00, 0x00, 0x00,
     0xFF, 0xC0, 0xFF, 0xC0, 0xE1, 0xC0, 0xCC, 0xC0, 0xDE, 0xC0,
     0xDE, 0xC0, 0xCC, 0xC0, 0xE1, 0xC0, 0xFF, 0xC0, 0xFF, 0xC0,
     0x00, 0x00, 0x07, 0x80, 0x03, 0x80, 0x07, 0x80, 0x3E, 0x80,
     0x66, 0x00, 0x66, 0x00, 0x66, 0x00, 0x3C, 0x00, 0x00, 0x00,
     0x00, 0x00, 0x1E, 0x00, 0x33, 0x00, 0x33, 0x00, 0x33, 0x00,
     0x1E, 0x00, 0x0C, 0x00, 0x3F, 0x00, 0x0C, 0x00, 0x00, 0x00,
     0x04, 0x00, 0x06, 0x00, 0x07, 0x00, 0x05, 0x00, 0x05, 0x00,
     0x04, 0x00, 0x1C, 0x00, 0x3C, 0x00, 0x18, 0x00, 0x00, 0x00,
     0x00, 0x00, 0x1F, 0x80, 0x1F, 0x80, 0x10, 0x80, 0x10, 0x80,
     0x11, 0x80, 0x33, 0x80, 0x71, 0x00, 0x20, 0x00, 0x00, 0x00,
     0x00, 0x00, 0x0C, 0x00, 0x6D, 0x80, 0x1E, 0x00, 0x73, 0x80,
     0x73, 0x80, 0x1E, 0x00, 0x6D, 0x80, 0x0C, 0x00, 0x00, 0x00]"

definition TextFont80COL_1 :: "u8 list" where
  "TextFont80COL_1 =
    [0x10, 0x00, 0x18, 0x00, 0x1C, 0x00, 0x1E, 0x00, 0x1F, 0x00,
     0x1E, 0x00, 0x1C, 0x00, 0x18, 0x00, 0x10, 0x00, 0x00, 0x00,
     0x01, 0x00, 0x03, 0x00, 0x07, 0x00, 0x0F, 0x00, 0x1F, 0x00,
     0x0F, 0x00, 0x07, 0x00, 0x03, 0x00, 0x01, 0x00, 0x00, 0x00,
     0x00, 0x00, 0x0C, 0x00, 0x1E, 0x00, 0x3F, 0x00, 0x0C, 0x00,
     0x0C, 0x00, 0x3F, 0x00, 0x1E, 0x00, 0x0C, 0x00, 0x00, 0x00,
     0x00, 0x00, 0x33, 0x00, 0x33, 0x00, 0x33, 0x00, 0x33, 0x00,
     0x33, 0x00, 0x00, 0x00, 0x33, 0x00, 0x00, 0x00, 0x00, 0x00,
     0x00, 0x00, 0x3F, 0x80, 0x6D, 0x80, 0x6D, 0x80, 0x3D, 0x80,
     0x0D, 0x80, 0x0D, 0x80, 0x0D, 0x80, 0x00, 0x00, 0x00, 0x00,
     0x00, 0x00, 0x1F, 0x00, 0x30, 0x00, 0x1F, 0x00, 0x31, 0x80,
     0x1F, 0x00, 0x01, 0x80, 0x1F, 0x00, 0x00, 0x00, 0x00, 0x00,
     0x00, 0x00, 0x00, 0x00, 0x00, 0x00, 0x00, 0x00, 0x00, 0x00,
     0x7F, 0x80, 0x7F, 0x80, 0x7F, 0x80, 0x00, 0x00, 0x00, 0x00,
     0x00, 0x00, 0x0C, 0x00, 0x1E, 0x00, 0x3F, 0x00, 0x0C, 0x00,
     0x0C, 0x00, 0x3F, 0x00, 0x1E, 0x00, 0x0C, 0x00, 0xFF, 0xC0,
     0x00, 0x00, 0x0C, 0x00, 0x1E, 0x00, 0x3F, 0x00, 0x0C, 0x00,
     0x0C, 0x00, 0x0C, 0x00, 0x0C, 0x00, 0x0C, 0x00, 0x00, 0x00,
     0x00, 0x00, 0x0C, 0x00, 0x0C, 0x00, 0x0C, 0x00, 0x0C, 0x00,
     0x0C, 0x00, 0x3F, 0x00, 0x1E, 0x00, 0x0C, 0x00, 0x00, 0x00,
     0x00, 0x00, 0x00, 0x00, 0x06, 0x00, 0x03, 0x00, 0x7F, 0x80,
     0x03, 0x00, 0x06, 0x00, 0x00, 0x00, 0x00, 0x00, 0x00, 0x00,
     0x00, 0x00, 0x00, 0x00, 0x18, 0x00, 0x30, 0x00, 0x7F, 0x80,
     0x30, 0x00, 0x18, 0x00, 0x00, 0x00, 0x00, 0x00, 0x00, 0x00,
     0x00, 0x00, 0x00, 0x00, 0x00, 0x00, 0x00, 0x00, 0x60, 0x00,
     0x60, 0x00, 0x60, 0x00, 0x7F, 0x80, 0x00, 0x00, 0x00, 0x00,
     0x00, 0x00, 0x00, 0x00, 0x11, 0x00, 0x31, 0x80, 0x7F, 0xC0,
     0x31, 0x80, 0x11, 0x00, 0x00, 0x00, 0x00, 0x00, 0x00, 0x00,
     0x00, 0x00, 0x00, 0x00, 0x04, 0x00, 0x0E, 0x00, 0x1F, 0x00,
     0x3F, 0x80, 0x7F, 0xC0, 0x00, 0x00, 0x00, 0x00, 0x00, 0x00,
     0x00, 0x00, 0x00, 0x00, 0x7F, 0xC0, 0x3F, 0x80, 0x1F, 0x00,
     0x0E, 0x00, 0x04, 0x00, 0x00, 0x00, 0x00, 0x00, 0x00, 0x00]"

definition TextFont80COL_2 :: "u8 list" where
  "TextFont80COL_2 =
    [0x00, 0x00, 0x00, 0x00, 0x00, 0x00, 0x00, 0x00, 0x00, 0x00,
     0x00, 0x00, 0x00, 0x00, 0x00, 0x00, 0x00, 0x00, 0x00, 0x00,
     0x00, 0x00, 0x0C, 0x00, 0x1E, 0x00, 0x1E, 0x00, 0x0C, 0x00,
     0x0C, 0x00, 0x00, 0x00, 0x0C, 0x00, 0x00, 0x00, 0x00, 0x00,
     0x00, 0x00, 0x1B, 0x00, 0x1B, 0x00, 0x1B, 0x00, 0x00, 0x00,
     0x00, 0x00, 0x00, 0x00, 0x00, 0x00, 0x00, 0x00, 0x00, 0x00,
     0x00, 0x00, 0x1B, 0x00, 0x1B, 0x00, 0x7F, 0xC0, 0x1B, 0x00,
     0x7F, 0xC0, 0x1B, 0x00, 0x1B, 0x00, 0x00, 0x00, 0x00, 0x00,
     0x04, 0x00, 0x1F, 0x00, 0x35, 0x80, 0x34, 0x00, 0x1F, 0x00,
     0x05, 0x80, 0x35, 0x80, 0x1F, 0x00, 0x04, 0x00, 0x00, 0x00,
     0x00, 0x00, 0x31, 0x80, 0x33, 0x00, 0x06, 0x00, 0x0C, 0x00,
     0x19, 0x80, 0x31, 0x80, 0x00, 0x00, 0x00, 0x00, 0x00, 0x00,
     0x00, 0x00, 0x1C, 0x00, 0x33, 0x00, 0x33, 0x00, 0x1F, 0x80,
     0x33, 0x00, 0x33, 0x00, 0x1D, 0x80, 0x00, 0x00, 0x00, 0x00,
     0x00, 0x00, 0x0E, 0x00, 0x0C, 0x00, 0x18, 0x00, 0x00, 0x00,
     0x00, 0x00, 0x00, 0x00, 0x00, 0x00, 0x00, 0x00, 0x00, 0x00,
     0x00, 0x00, 0x06, 0x00, 0x0C, 0x00, 0x18, 0x00, 0x18, 0x00,
     0x18, 0x00, 0x0C, 0x00, 0x06, 0x00, 0x00, 0x00, 0x00, 0x00,
     0x00, 0x00, 0x18, 0x00, 0x0C, 0x00, 0x06, 0x00, 0x06, 0x00,
     0x06, 0x00, 0x0C, 0x00, 0x18, 0x00, 0x00, 0x00, 0x00, 0x00,
     0x00, 0x00, 0x00, 0x00, 0x33, 0x00, 0x1E, 0x00, 0x7F, 0x80,
     0x1E, 0x00, 0x33, 0x00, 0x00, 0x00, 0x00, 0x00, 0x00, 0x00,
     0x00, 0x00, 0x00, 0x00, 0x0C, 0x00, 0x0C, 0x00, 0x3F, 0x00,
     0x0C, 0x00, 0x0C, 0x00, 0x00, 0x00, 0x00, 0x00, 0x00, 0x00,
     0x00, 0x00, 0x00, 0x00, 0x00, 0x00, 0x00, 0x00, 0x00, 0x00,
     0x00, 0x00, 0x0C, 0x00, 0x0C, 0x00, 0x18, 0x00, 0x00, 0x00,
     0x00, 0x00, 0x00, 0x00, 0x00, 0x00, 0x00, 0x00, 0x3F, 0x00,
     0x00, 0x00, 0x00, 0x00, 0x00, 0x00, 0x00, 0x00, 0x00, 0x00,
     0x00, 0x00, 0x00, 0x00, 0x00, 0x00, 0x00, 0x00, 0x00, 0x00,
     0x00, 0x00, 0x0C, 0x00, 0x0C, 0x00, 0x00, 0x00, 0x00, 0x00,
     0x00, 0x00, 0x01, 0x80, 0x03, 0x00, 0x06, 0x00, 0x0C, 0x00,
     0x18, 0x00, 0x30, 0x00, 0x60, 0x00, 0x00, 0x00, 0x00, 0x00]"

definition TextFont80COL_3 :: "u8 list" where
  "TextFont80COL_3 =
    [0x00, 0x00, 0x1F, 0x00, 0x33, 0x80, 0x37, 0x80, 0x3F, 0x80,
     0x3D, 0x80, 0x39, 0x80, 0x1F, 0x00, 0x00, 0x00, 0x00, 0x00,
     0x00, 0x00, 0x0C, 0x00, 0x1C, 0x00, 0x0C, 0x00, 0x0C, 0x00,
     0x0C, 0x00, 0x0C, 0x00, 0x3F, 0x00, 0x00, 0x00, 0x00, 0x00,
     0x00, 0x00, 0x1F, 0x00, 0x31, 0x80, 0x01, 0x80, 0x0F, 0x00,
     0x18, 0x00, 0x31, 0x80, 0x3F, 0x80, 0x00, 0x00, 0x00, 0x00,
     0x00, 0x00, 0x1F, 0x00, 0x31, 0x80, 0x01, 0x80, 0x07, 0x00,
     0x01, 0x80, 0x31, 0x80, 0x1F, 0x00, 0x00, 0x00, 0x00, 0x00,
     0x00, 0x00, 0x07, 0x00, 0x0F, 0x00, 0x1B, 0x00, 0x33, 0x00,
     0x3F, 0x80, 0x03, 0x00, 0x07, 0x80, 0x00, 0x00, 0x00, 0x00,
     0x00, 0x00, 0x3F, 0x80, 0x30, 0x00, 0x30, 0x00, 0x3F, 0x00,
     0x01, 0x80, 0x31, 0x80, 0x1F, 0x00, 0x00, 0x00, 0x00, 0x00,
     0x00, 0x00, 0x0F, 0x00, 0x18, 0x00, 0x30, 0x00, 0x3F, 0x00,
     0x31, 0x80, 0x31, 0x80, 0x1F, 0x00, 0x00, 0x00, 0x00, 0x00,
     0x00, 0x00, 0x3F, 0x80, 0x31, 0x80, 0x01, 0x80, 0x03, 0x00,
     0x06, 0x00, 0x0C, 0x00, 0x0C, 0x00, 0x00, 0x00, 0x00, 0x00,
     0x00, 0x00, 0x1F, 0x00, 0x31, 0x80, 0x31, 0x80, 0x1F, 0x00,
     0x31, 0x80, 0x31, 0x80, 0x1F, 0x00, 0x00, 0x00, 0x00, 0x00,
     0x00, 0x00, 0x1F, 0x00, 0x31, 0x80, 0x31, 0x80, 0x1F, 0x80,
     0x01, 0x80, 0x03, 0x00, 0x1E, 0x00, 0x00, 0x00, 0x00, 0x00,
     0x00, 0x00, 0x00, 0x00, 0x0C, 0x00, 0x0C, 0x00, 0x00, 0x00,
     0x00, 0x00, 0x0C, 0x00, 0x0C, 0x00, 0x00, 0x00, 0x00, 0x00,
     0x00, 0x00, 0x00, 0x00, 0x0C, 0x00, 0x0C, 0x00, 0x00, 0x00,
     0x00, 0x00, 0x0C, 0x00, 0x0C, 0x00, 0x18, 0x00, 0x00, 0x00,
     0x00, 0x00, 0x03, 0x00, 0x06, 0x00, 0x0C, 0x00, 0x18, 0x00,
     0x0C, 0x00, 0x06, 0x00, 0x03, 0x00, 0x00, 0x00, 0x00, 0x00,
     0x00, 0x00, 0x00, 0x00, 0x00, 0x00, 0x3F, 0x00, 0x00, 0x00,
     0x3F, 0x00, 0x00, 0x00, 0x00, 0x00, 0x00, 0x00, 0x00, 0x00,
     0x00, 0x00, 0x18, 0x00, 0x0C, 0x00, 0x06, 0x00, 0x03, 0x00,
     0x06, 0x00, 0x0C, 0x00, 0x18, 0x00, 0x00, 0x00, 0x00, 0x00,
     0x00, 0x00, 0x1E, 0x00, 0x33, 0x00, 0x03, 0x00, 0x03, 0x00,
     0x06, 0x00, 0x0C, 0x00, 0x00, 0x00, 0x0C, 0x00, 0x00, 0x00]"

definition TextFont80COL_4 :: "u8 list" where
  "TextFont80COL_4 =
    [0x00, 0x00, 0x3F, 0x00, 0x61, 0x80, 0x67, 0x80, 0x6D, 0x80,
     0x67, 0x80, 0x60, 0x00, 0x3F, 0x00, 0x00, 0x00, 0x00, 0x00,
     0x00, 0x00, 0x1F, 0x00, 0x31, 0x80, 0x31, 0x80, 0x3F, 0x80,
     0x31, 0x80, 0x31, 0x80, 0x31, 0x80, 0x00, 0x00, 0x00, 0x00,
     0x00, 0x00, 0x3F, 0x00, 0x31, 0x80, 0x31, 0x80, 0x3F, 0x00,
     0x31, 0x80, 0x31, 0x80, 0x3F, 0x00, 0x00, 0x00, 0x00, 0x00,
     0x00, 0x00, 0x1F, 0x00, 0x31, 0x80, 0x30, 0x00, 0x30, 0x00,
     0x30, 0x00, 0x31, 0x80, 0x1F, 0x00, 0x00, 0x00, 0x00, 0x00,
     0x00, 0x00, 0x3E, 0x00, 0x33, 0x00, 0x31, 0x80, 0x31, 0x80,
     0x31, 0x80, 0x33, 0x00, 0x3E, 0x00, 0x00, 0x00, 0x00, 0x00,
     0x00, 0x00, 0x3F, 0x80, 0x30, 0x00, 0x30, 0x00, 0x3F, 0x00,
     0x30, 0x00, 0x30, 0x00, 0x3F, 0x80, 0x00, 0x00, 0x00, 0x00,
     0x00, 0x00, 0x3F, 0x80, 0x30, 0x00, 0x30, 0x00, 0x3F, 0x00,
     0x30, 0x00, 0x30, 0x00, 0x30, 0x00, 0x00, 0x00, 0x00, 0x00,
     0x00, 0x00, 0x1F, 0x00, 0x31, 0x80, 0x30, 0x00, 0x33, 0x80,
     0x31, 0x80, 0x31, 0x80, 0x1F, 0x00, 0x00, 0x00, 0x00, 0x00,
     0x00, 0x00, 0x31, 0x80, 0x31, 0x80, 0x31, 0x80, 0x3F, 0x80,
     0x31, 0x80, 0x31, 0x80, 0x31, 0x80, 0x00, 0x00, 0x00, 0x00,
     0x00, 0x00, 0x1E, 0x00, 0x0C, 0x00, 0x0C, 0x00, 0x0C, 0x00,
     0x0C, 0x00, 0x0C, 0x00, 0x1E, 0x00, 0x00, 0x00, 0x00, 0x00,
     0x00, 0x00, 0x07, 0x00, 0x03, 0x00, 0x03, 0x00, 0x03, 0x00,
     0x33, 0x00, 0x33, 0x00, 0x1E, 0x00, 0x00, 0x00, 0x00, 0x00,
     0x00, 0x00, 0x31, 0x80, 0x31, 0x80, 0x33, 0x00, 0x3E, 0x00,
     0x33, 0x00, 0x31, 0x80, 0x31, 0x80, 0x00, 0x00, 0x00, 0x00,
     0x00, 0x00, 0x30, 0x00, 0x30, 0x00, 0x30, 0x00, 0x30, 0x00,
     0x30, 0x00, 0x30, 0x00, 0x3F, 0x80, 0x00, 0x00, 0x00, 0x00,
     0x00, 0x00, 0x61, 0x80, 0x73, 0x80, 0x7F, 0x80, 0x6D, 0x80,
     0x61, 0x80, 0x61, 0x80, 0x61, 0x80, 0x00, 0x00, 0x00, 0x00,
     0x00, 0x00, 0x31, 0x80, 0x39, 0x80, 0x3D, 0x80, 0x37, 0x80,
     0x33, 0x80, 0x31, 0x80, 0x31, 0x80, 0x00, 0x00, 0x00, 0x00,
     0x00, 0x00, 0x1F, 0x00, 0x31, 0x80, 0x31, 0x80, 0x31, 0x80,
     0x31, 0x80, 0x31, 0x80, 0x1F, 0x00, 0x00, 0x00, 0x00, 0x00]"

definition TextFont80COL_5 :: "u8 list" where
  "TextFont80COL_5 =
    [0x00, 0x00, 0x3F, 0x00, 0x31, 0x80, 0x31, 0x80, 0x3F, 0x00,
     0x30, 0x00, 0x30, 0x00, 0x30, 0x00, 0x00, 0x00, 0x00, 0x00,
     0x00, 0x00, 0x1F, 0x00, 0x31, 0x80, 0x31, 0x80, 0x31, 0x80,
     0x31, 0x80, 0x33, 0x80, 0x1F, 0x00, 0x03, 0x80, 0x00, 0x00,
     0x00, 0x00, 0x3F, 0x00, 0x31, 0x80, 0x31, 0x80, 0x3F, 0x00,
     0x33, 0x00, 0x31, 0x80, 0x31, 0x80, 0x00, 0x00, 0x00, 0x00,
     0x00, 0x00, 0x1F, 0x00, 0x31, 0x80, 0x30, 0x00, 0x1F, 0x00,
     0x01, 0x80, 0x31, 0x80, 0x1F, 0x00, 0x00, 0x00, 0x00, 0x00,
     0x00, 0x00, 0x7F, 0x80, 0x0C, 0x00, 0x0C, 0x00, 0x0C, 0x00,
     0x0C, 0x00, 0x0C, 0x00, 0x0C, 0x00, 0x00, 0x00, 0x00, 0x00,
     0x00, 0x00, 0x31, 0x80, 0x31, 0x80, 0x31, 0x80, 0x31, 0x80,
     0x31, 0x80, 0x31, 0x80, 0x1F, 0x00, 0x00, 0x00, 0x00, 0x00,
     0x00, 0x00, 0x31, 0x80, 0x31, 0x80, 0x31, 0x80, 0x31, 0x80,
     0x1B, 0x00, 0x0E, 0x00, 0x04, 0x00, 0x00, 0x00, 0x00, 0x00,
     0x00, 0x00, 0x61, 0x80, 0x61, 0x80, 0x61, 0x80, 0x6D, 0x80,
     0x7F, 0x80, 0x73, 0x80, 0x61, 0x80, 0x00, 0x00, 0x00, 0x00,
     0x00, 0x00, 0x61, 0x80, 0x33, 0x00, 0x1E, 0x00, 0x0C, 0x00,
     0x1E, 0x00, 0x33, 0x00, 0x61, 0x80, 0x00, 0x00, 0x00, 0x00,
     0x00, 0x00, 0x61, 0x80, 0x61, 0x80, 0x33, 0x00, 0x1E, 0x00,
     0x0C, 0x00, 0x0C, 0x00, 0x0C, 0x00, 0x00, 0x00, 0x00, 0x00,
     0x00, 0x00, 0x3F, 0x80, 0x03, 0x00, 0x06, 0x00, 0x0C, 0x00,
     0x18, 0x00, 0x30, 0x00, 0x3F, 0x80, 0x00, 0x00, 0x00, 0x00,
     0x00, 0x00, 0x1E, 0x00, 0x18, 0x00, 0x18, 0x00, 0x18, 0x00,
     0x18, 0x00, 0x18, 0x00, 0x1E, 0x00, 0x00, 0x00, 0x00, 0x00,
     0x00, 0x00, 0x60, 0x00, 0x30, 0x00, 0x18, 0x00, 0x0C, 0x00,
     0x06, 0x00, 0x03, 0x00, 0x00, 0x00, 0x00, 0x00, 0x00, 0x00,
     0x00, 0x00, 0x1E, 0x00, 0x06, 0x00, 0x06, 0x00, 0x06, 0x00,
     0x06, 0x00, 0x06, 0x00, 0x1E, 0x00, 0x00, 0x00, 0x00, 0x00,
     0x00, 0x00, 0x04, 0x00, 0x0E, 0x00, 0x1B, 0x00, 0x31, 0x80,
     0x00, 0x00, 0x00, 0x00, 0x00, 0x00, 0x00, 0x00, 0x00, 0x00,
     0x00, 0x00, 0x00, 0x00, 0x00, 0x00, 0x00, 0x00, 0x00, 0x00,
     0x00, 0x00, 0x00, 0x00, 0x00, 0x00, 0xFF, 0xC0, 0x00, 0x00]"

definition TextFont80COL_6 :: "u8 list" where
  "TextFont80COL_6 =
    [0x00, 0x00, 0x1C, 0x00, 0x0C, 0x00, 0x06, 0x00, 0x00, 0x00,
     0x00, 0x00, 0x00, 0x00, 0x00, 0x00, 0x00, 0x00, 0x00, 0x00,
     0x00, 0x00, 0x00, 0x00, 0x00, 0x00, 0x1F, 0x00, 0x01, 0x80,
     0x1F, 0x80, 0x31, 0x80, 0x1F, 0x80, 0x00, 0x00, 0x00, 0x00,
     0x00, 0x00, 0x30, 0x00, 0x30, 0x00, 0x3F, 0x00, 0x31, 0x80,
     0x31, 0x80, 0x31, 0x80, 0x3F, 0x00, 0x00, 0x00, 0x00, 0x00,
     0x00, 0x00, 0x00, 0x00, 0x00, 0x00, 0x1F, 0x00, 0x31, 0x80,
     0x30, 0x00, 0x31, 0x80, 0x1F, 0x00, 0x00, 0x00, 0x00, 0x00,
     0x00, 0x00, 0x01, 0x80, 0x01, 0x80, 0x1F, 0x80, 0x31, 0x80,
     0x31, 0x80, 0x31, 0x80, 0x1F, 0x80, 0x00, 0x00, 0x00, 0x00,
     0x00, 0x00, 0x00, 0x00, 0x00, 0x00, 0x1F, 0x00, 0x31, 0x80,
     0x3F, 0x80, 0x30, 0x00, 0x1F, 0x00, 0x00, 0x00, 0x00, 0x00,
     0x00, 0x00, 0x0F, 0x00, 0x18, 0x00, 0x18, 0x00, 0x3E, 0x00,
     0x18, 0x00, 0x18, 0x00, 0x18, 0x00, 0x00, 0x00, 0x00, 0x00,
     0x00, 0x00, 0x00, 0x00, 0x00, 0x00, 0x1F, 0x80, 0x31, 0x80,
     0x31, 0x80, 0x31, 0x80, 0x1F, 0x80, 0x01, 0x80, 0x1F, 0x00,
     0x00, 0x00, 0x30, 0x00, 0x30, 0x00, 0x3F, 0x00, 0x31, 0x80,
     0x31, 0x80, 0x31, 0x80, 0x31, 0x80, 0x00, 0x00, 0x00, 0x00,
     0x00, 0x00, 0x0C, 0x00, 0x00, 0x00, 0x1C, 0x00, 0x0C, 0x00,
     0x0C, 0x00, 0x0C, 0x00, 0x1E, 0x00, 0x00, 0x00, 0x00, 0x00,
     0x00, 0x00, 0x06, 0x00, 0x00, 0x00, 0x0E, 0x00, 0x06, 0x00,
     0x06, 0x00, 0x06, 0x00, 0x06, 0x00, 0x06, 0x00, 0x1C, 0x00,
     0x00, 0x00, 0x30, 0x00, 0x30, 0x00, 0x31, 0x80, 0x33, 0x00,
     0x3E, 0x00, 0x33, 0x00, 0x31, 0x80, 0x00, 0x00, 0x00, 0x00,
     0x00, 0x00, 0x1C, 0x00, 0x0C, 0x00, 0x0C, 0x00, 0x0C, 0x00,
     0x0C, 0x00, 0x0C, 0x00, 0x07, 0x00, 0x00, 0x00, 0x00, 0x00,
     0x00, 0x00, 0x00, 0x00, 0x00, 0x00, 0x33, 0x00, 0x7F, 0x80,
     0x6D, 0x80, 0x6D, 0x80, 0x61, 0x80, 0x00, 0x00, 0x00, 0x00,
     0x00, 0x00, 0x00, 0x00, 0x00, 0x00, 0x3F, 0x00, 0x31, 0x80,
     0x31, 0x80, 0x31, 0x80, 0x31, 0x80, 0x00, 0x00, 0x00, 0x00,
     0x00, 0x00, 0x00, 0x00, 0x00, 0x00, 0x1F, 0x00, 0x31, 0x80,
     0x31, 0x80, 0x31, 0x80, 0x1F, 0x00, 0x00, 0x00, 0x00, 0x00]"

definition TextFont80COL_7 :: "u8 list" where
  "TextFont80COL_7 =
    [0x00, 0x00, 0x00, 0x00, 0x00, 0x00, 0x3F, 0x00, 0x31, 0x80,
     0x31, 0x80, 0x3F, 0x00, 0x30, 0x00, 0x30, 0x00, 0x00, 0x00,
     0x00, 0x00, 0x00, 0x00, 0x00, 0x00, 0x1F, 0x80, 0x31, 0x80,
     0x31, 0x80, 0x1F, 0x80, 0x01, 0x80, 0x01, 0xC0, 0x00, 0x00,
     0x00, 0x00, 0x00, 0x00, 0x00, 0x00, 0x3F, 0x00, 0x31, 0x80,
     0x30, 0x00, 0x30, 0x00, 0x30, 0x00, 0x00, 0x00, 0x00, 0x00,
     0x00, 0x00, 0x00, 0x00, 0x00, 0x00, 0x1F, 0x80, 0x30, 0x00,
     0x1F, 0x00, 0x01, 0x80, 0x3F, 0x00, 0x00, 0x00, 0x00, 0x00,
     0x00, 0x00, 0x18, 0x00, 0x18, 0x00, 0x3E, 0x00, 0x18, 0x00,
     0x18, 0x00, 0x18, 0x00, 0x0F, 0x00, 0x00, 0x00, 0x00, 0x00,
     0x00, 0x00, 0x00, 0x00, 0x00, 0x00, 0x31, 0x80, 0x31, 0x80,
     0x31, 0x80, 0x31, 0x80, 0x1F, 0x80, 0x00, 0x00, 0x00, 0x00,
     0x00, 0x00, 0x00, 0x00, 0x00, 0x00, 0x31, 0x80, 0x31, 0x80,
     0x1B, 0x00, 0x0E, 0x00, 0x04, 0x00, 0x00, 0x00, 0x00, 0x00,
     0x00, 0x00, 0x00, 0x00, 0x00, 0x00, 0x61, 0x80, 0x6D, 0x80,
     0x6D, 0x80, 0x7F, 0x80, 0x33, 0x00, 0x00, 0x00, 0x00, 0x00,
     0x00, 0x00, 0x00, 0x00, 0x00, 0x00, 0x31, 0x80, 0x1B, 0x00,
     0x0E, 0x00, 0x1B, 0x00, 0x31, 0x80, 0x00, 0x00, 0x00, 0x00,
     0x00, 0x00, 0x00, 0x00, 0x00, 0x00, 0x31, 0x80, 0x31, 0x80,
     0x31, 0x80, 0x1F, 0x80, 0x01, 0x80, 0x1F, 0x00, 0x00, 0x00,
     0x00, 0x00, 0x00, 0x00, 0x00, 0x00, 0x3F, 0x00, 0x06, 0x00,
     0x0C, 0x00, 0x18, 0x00, 0x3F, 0x00, 0x00, 0x00, 0x00, 0x00,
     0x00, 0x00, 0x0E, 0x00, 0x18, 0x00, 0x18, 0x00, 0x30, 0x00,
     0x18, 0x00, 0x18, 0x00, 0x0E, 0x00, 0x00, 0x00, 0x00, 0x00,
     0x0C, 0x00, 0x0C, 0x00, 0x0C, 0x00, 0x0C, 0x00, 0x00, 0x00,
     0x0C, 0x00, 0x0C, 0x00, 0x0C, 0x00, 0x0C, 0x00, 0x00, 0x00,
     0x00, 0x00, 0x1C, 0x00, 0x06, 0x00, 0x06, 0x00, 0x03, 0x00,
     0x06, 0x00, 0x06, 0x00, 0x1C, 0x00, 0x00, 0x00, 0x00, 0x00,
     0x00, 0x00, 0x00, 0x00, 0x00, 0x00, 0x38, 0x00, 0x6D, 0x80,
     0x07, 0x00, 0x00, 0x00, 0x00, 0x00, 0x00, 0x00, 0x00, 0x00,
     0x00, 0x00, 0x04, 0x00, 0x0E, 0x00, 0x1B, 0x00, 0x31, 0x80,
     0x31, 0x80, 0x31, 0x80, 0x3F, 0x80, 0x00, 0x00, 0x00, 0x00]"

definition TextFont80COL_8 :: "u8 list" where
  "TextFont80COL_8 =
    [0x00, 0x00, 0x1F, 0x00, 0x31, 0x80, 0x30, 0x00, 0x30, 0x00,
     0x30, 0x00, 0x31, 0x80, 0x1F, 0x00, 0x0C, 0x00, 0x18, 0x00,
     0x00, 0x00, 0x1B, 0x00, 0x00, 0x00, 0x31, 0x80, 0x31, 0x80,
     0x31, 0x80, 0x31, 0x80, 0x1F, 0x80, 0x00, 0x00, 0x00, 0x00,
     0x06, 0x00, 0x0C, 0x00, 0x00, 0x00, 0x1F, 0x00, 0x31, 0x80,
     0x3F, 0x80, 0x30, 0x00, 0x1F, 0x00, 0x00, 0x00, 0x00, 0x00,
     0x0E, 0x00, 0x1B, 0x00, 0x00, 0x00, 0x1F, 0x00, 0x01, 0x80,
     0x1F, 0x80, 0x31, 0x80, 0x1F, 0x80, 0x00, 0x00, 0x00, 0x00,
     0x00, 0x00, 0x1B, 0x00, 0x00, 0x00, 0x1F, 0x00, 0x01, 0x80,
     0x1F, 0x80, 0x31, 0x80, 0x1F, 0x80, 0x00, 0x00, 0x00, 0x00,
     0x0C, 0x00, 0x06, 0x00, 0x00, 0x00, 0x1F, 0x00, 0x01, 0x80,
     0x1F, 0x80, 0x31, 0x80, 0x1F, 0x80, 0x00, 0x00, 0x00, 0x00,
     0x0E, 0x00, 0x1B, 0x00, 0x0E, 0x00, 0x1F, 0x00, 0x01, 0x80,
     0x1F, 0x80, 0x31, 0x80, 0x1F, 0x80, 0x00, 0x00, 0x00, 0x00,
     0x00, 0x00, 0x00, 0x00, 0x00, 0x00, 0x1F, 0x00, 0x31, 0x80,
     0x30, 0x00, 0x31, 0x80, 0x1F, 0x00, 0x0C, 0x00, 0x18, 0x00,
     0x0E, 0x00, 0x1B, 0x00, 0x00, 0x00, 0x1F, 0x00, 0x31, 0x80,
     0x3F, 0x80, 0x30, 0x00, 0x1F, 0x00, 0x00, 0x00, 0x00, 0x00,
     0x00, 0x00, 0x1B, 0x00, 0x00, 0x00, 0x1F, 0x00, 0x31, 0x80,
     0x3F, 0x80, 0x30, 0x00, 0x1F, 0x00, 0x00, 0x00, 0x00, 0x00,
     0x0C, 0x00, 0x06, 0x00, 0x00, 0x00, 0x1F, 0x00, 0x31, 0x80,
     0x3F, 0x80, 0x30, 0x00, 0x1F, 0x00, 0x00, 0x00, 0x00, 0x00,
     0x00, 0x00, 0x36, 0x00, 0x00, 0x00, 0x1C, 0x00, 0x0C, 0x00,
     0x0C, 0x00, 0x0C, 0x00, 0x1E, 0x00, 0x00, 0x00, 0x00, 0x00,
     0x1C, 0x00, 0x36, 0x00, 0x00, 0x00, 0x1C, 0x00, 0x0C, 0x00,
     0x0C, 0x00, 0x0C, 0x00, 0x1E, 0x00, 0x00, 0x00, 0x00, 0x00,
     0x18, 0x00, 0x0C, 0x00, 0x00, 0x00, 0x1C, 0x00, 0x0C, 0x00,
     0x0C, 0x00, 0x0C, 0x00, 0x1E, 0x00, 0x00, 0x00, 0x00, 0x00,
     0x00, 0x00, 0x1B, 0x00, 0x00, 0x00, 0x1F, 0x00, 0x31, 0x80,
     0x3F, 0x80, 0x31, 0x80, 0x31, 0x80, 0x00, 0x00, 0x00, 0x00,
     0x0E, 0x00, 0x1B, 0x00, 0x0E, 0x00, 0x1F, 0x00, 0x31, 0x80,
     0x3F, 0x80, 0x31, 0x80, 0x31, 0x80, 0x00, 0x00, 0x00, 0x00]"

definition TextFont80COL_9 :: "u8 list" where
  "TextFont80COL_9 =
    [0x06, 0x00, 0x0C, 0x00, 0x00, 0x00, 0x3F, 0x80, 0x30, 0x00,
     0x3F, 0x00, 0x30, 0x00, 0x3F, 0x80, 0x00, 0x00, 0x00, 0x00,
     0x00, 0x00, 0x00, 0x00, 0x00, 0x00, 0x3B, 0x80, 0x0E, 0xC0,
     0x3F, 0xC0, 0x6E, 0x00, 0x3B, 0x80, 0x00, 0x00, 0x00, 0x00,
     0x00, 0x00, 0x1F, 0x80, 0x36, 0x00, 0x66, 0x00, 0x7F, 0x80,
     0x66, 0x00, 0x66, 0x00, 0x67, 0x80, 0x00, 0x00, 0x00, 0x00,
     0x0E, 0x00, 0x1B, 0x00, 0x00, 0x00, 0x1F, 0x00, 0x31, 0x80,
     0x31, 0x80, 0x31, 0x80, 0x1F, 0x00, 0x00, 0x00, 0x00, 0x00,
     0x00, 0x00, 0x1B, 0x00, 0x00, 0x00, 0x1F, 0x00, 0x31, 0x80,
     0x31, 0x80, 0x31, 0x80, 0x1F, 0x00, 0x00, 0x00, 0x00, 0x00,
     0x0C, 0x00, 0x06, 0x00, 0x00, 0x00, 0x1F, 0x00, 0x31, 0x80,
     0x31, 0x80, 0x31, 0x80, 0x1F, 0x00, 0x00, 0x00, 0x00, 0x00,
     0x0E, 0x00, 0x1B, 0x00, 0x00, 0x00, 0x31, 0x80, 0x31, 0x80,
     0x31, 0x80, 0x31, 0x80, 0x1F, 0x80, 0x00, 0x00, 0x00, 0x00,
     0x0C, 0x00, 0x06, 0x00, 0x00, 0x00, 0x31, 0x80, 0x31, 0x80,
     0x31, 0x80, 0x31, 0x80, 0x1F, 0x80, 0x00, 0x00, 0x00, 0x00,
     0x00, 0x00, 0x1B, 0x00, 0x00, 0x00, 0x31, 0x80, 0x31, 0x80,
     0x31, 0x80, 0x1F, 0x80, 0x01, 0x80, 0x1F, 0x00, 0x00, 0x00,
     0x00, 0x00, 0x1B, 0x00, 0x00, 0x00, 0x1F, 0x00, 0x31, 0x80,
     0x31, 0x80, 0x31, 0x80, 0x1F, 0x00, 0x00, 0x00, 0x00, 0x00,
     0x00, 0x00, 0x1B, 0x00, 0x00, 0x00, 0x31, 0x80, 0x31, 0x80,
     0x31, 0x80, 0x31, 0x80, 0x1F, 0x80, 0x00, 0x00, 0x00, 0x00,
     0x00, 0x00, 0x00, 0x00, 0x04, 0x00, 0x1F, 0x00, 0x35, 0x80,
     0x34, 0x00, 0x35, 0x80, 0x1F, 0x00, 0x04, 0x00, 0x00, 0x00,
     0x00, 0x00, 0x0F, 0x00, 0x19, 0x80, 0x18, 0x00, 0x3E, 0x00,
     0x18, 0x00, 0x18, 0x00, 0x30, 0x00, 0x3F, 0x80, 0x00, 0x00,
     0x00, 0x00, 0x61, 0x80, 0x61, 0x80, 0x33, 0x00, 0x1E, 0x00,
     0x3F, 0x00, 0x0C, 0x00, 0x3F, 0x00, 0x0C, 0x00, 0x00, 0x00,
     0x00, 0x00, 0x7F, 0x00, 0x61, 0x80, 0x6D, 0x80, 0x6D, 0x80,
     0x7F, 0x00, 0x6C, 0x00, 0x6C, 0x00, 0x67, 0x00, 0x00, 0x00,
     0x00, 0x00, 0x07, 0x00, 0x0C, 0x00, 0x0C, 0x00, 0x1E, 0x00,
     0x0C, 0x00, 0x0C, 0x00, 0x0C, 0x00, 0x38, 0x00, 0x00, 0x00]"

definition TextFont80COL_10 :: "u8 list" where
  "TextFont80COL_10 =
    [0x06, 0x00, 0x0C, 0x00, 0x00, 0x00, 0x1F, 0x00, 0x01, 0x80,
     0x1F, 0x80, 0x31, 0x80, 0x1F, 0x80, 0x00, 0x00, 0x00, 0x00,
     0x0C, 0x00, 0x18, 0x00, 0x00, 0x00, 0x1C, 0x00, 0x0C, 0x00,
     0x0C, 0x00, 0x0C, 0x00, 0x1E, 0x00, 0x00, 0x00, 0x00, 0x00,
     0x06, 0x00, 0x0C, 0x00, 0x00, 0x00, 0x1F, 0x00, 0x31, 0x80,
     0x31, 0x80, 0x31, 0x80, 0x1F, 0x00, 0x00, 0x00, 0x00, 0x00,
     0x06, 0x00, 0x0C, 0x00, 0x00, 0x00, 0x31, 0x80, 0x31, 0x80,
     0x31, 0x80, 0x31, 0x80, 0x1F, 0x80, 0x00, 0x00, 0x00, 0x00,
     0x1D, 0x80, 0x37, 0x00, 0x00, 0x00, 0x3F, 0x00, 0x31, 0x80,
     0x31, 0x80, 0x31, 0x80, 0x31, 0x80, 0x00, 0x00, 0x00, 0x00,
     0x1D, 0x80, 0x37, 0x00, 0x00, 0x00, 0x39, 0x80, 0x3D, 0x80,
     0x37, 0x80, 0x33, 0x80, 0x31, 0x80, 0x00, 0x00, 0x00, 0x00,
     0x00, 0x00, 0x1E, 0x00, 0x03, 0x00, 0x1F, 0x00, 0x33, 0x00,
     0x1F, 0x00, 0x00, 0x00, 0x00, 0x00, 0x00, 0x00, 0x00, 0x00,
     0x00, 0x00, 0x1E, 0x00, 0x33, 0x00, 0x33, 0x00, 0x33, 0x00,
     0x1E, 0x00, 0x00, 0x00, 0x00, 0x00, 0x00, 0x00, 0x00, 0x00,
     0x00, 0x00, 0x0C, 0x00, 0x00, 0x00, 0x0C, 0x00, 0x18, 0x00,
     0x30, 0x00, 0x30, 0x00, 0x33, 0x00, 0x1E, 0x00, 0x00, 0x00,
     0x00, 0x00, 0x00, 0x00, 0x00, 0x00, 0x00, 0x00, 0x3F, 0x80,
     0x30, 0x00, 0x30, 0x00, 0x30, 0x00, 0x00, 0x00, 0x00, 0x00,
     0x00, 0x00, 0x00, 0x00, 0x00, 0x00, 0x00, 0x00, 0x3F, 0x80,
     0x01, 0x80, 0x01, 0x80, 0x01, 0x80, 0x00, 0x00, 0x00, 0x00,
     0x00, 0x00, 0x20, 0x80, 0x21, 0x00, 0x22, 0x00, 0x24, 0x00,
     0x0B, 0x00, 0x11, 0x80, 0x23, 0x00, 0x43, 0x80, 0x00, 0x00,
     0x00, 0x00, 0x20, 0x80, 0x21, 0x00, 0x22, 0x00, 0x24, 0x00,
     0x0A, 0x80, 0x12, 0x80, 0x23, 0x80, 0x40, 0x80, 0x00, 0x00,
     0x00, 0x00, 0x0C, 0x00, 0x00, 0x00, 0x0C, 0x00, 0x0C, 0x00,
     0x1E, 0x00, 0x1E, 0x00, 0x0C, 0x00, 0x00, 0x00, 0x00, 0x00,
     0x00, 0x00, 0x00, 0x00, 0x19, 0x80, 0x33, 0x00, 0x66, 0x00,
     0x33, 0x00, 0x19, 0x80, 0x00, 0x00, 0x00, 0x00, 0x00, 0x00,
     0x00, 0x00, 0x00, 0x00, 0x66, 0x00, 0x33, 0x00, 0x19, 0x80,
     0x33, 0x00, 0x66, 0x00, 0x00, 0x00, 0x00, 0x00, 0x00, 0x00]"

definition TextFont80COL_11 :: "u8 list" where
  "TextFont80COL_11 =
    [0x22, 0x00, 0x88, 0x80, 0x22, 0x00, 0x88, 0x80, 0x22, 0x00,
     0x88, 0x80, 0x22, 0x00, 0x88, 0x80, 0x22, 0x00, 0x88, 0x80,
     0x55, 0x40, 0xAA, 0x80, 0x55, 0x40, 0xAA, 0x80, 0x55, 0x40,
     0xAA, 0x80, 0x55, 0x40, 0xAA, 0x80, 0x55, 0x40, 0xAA, 0x80,
     0xBB, 0x80, 0xEE, 0xC0, 0xBB, 0x80, 0xEE, 0xC0, 0xBB, 0x80,
     0xEE, 0xC0, 0xBB, 0x80, 0xEE, 0xC0, 0xBB, 0x80, 0xEE, 0xC0,
     0x0C, 0x00, 0x0C, 0x00, 0x0C, 0x00, 0x0C, 0x00, 0x0C, 0x00,
     0x0C, 0x00, 0x0C, 0x00, 0x0C, 0x00, 0x0C, 0x00, 0x0C, 0x00,
     0x0C, 0x00, 0x0C, 0x00, 0x0C, 0x00, 0x0C, 0x00, 0xFC, 0x00,
     0xFC, 0x00, 0x0C, 0x00, 0x0C, 0x00, 0x0C, 0x00, 0x0C, 0x00,
     0x0C, 0x00, 0x0C, 0x00, 0xFC, 0x00, 0xFC, 0x00, 0x0C, 0x00,
     0x0C, 0x00, 0xFC, 0x00, 0xFC, 0x00, 0x0C, 0x00, 0x0C, 0x00,
     0x33, 0x00, 0x33, 0x00, 0x33, 0x00, 0x33, 0x00, 0xF3, 0x00,
     0xF3, 0x00, 0x33, 0x00, 0x33, 0x00, 0x33, 0x00, 0x33, 0x00,
     0x00, 0x00, 0x00, 0x00, 0x00, 0x00, 0x00, 0x00, 0xFF, 0x00,
     0xFF, 0x00, 0x33, 0x00, 0x33, 0x00, 0x33, 0x00, 0x33, 0x00,
     0x00, 0x00, 0x00, 0x00, 0xFC, 0x00, 0xFC, 0x00, 0x0C, 0x00,
     0x0C, 0x00, 0xFC, 0x00, 0xFC, 0x00, 0x0C, 0x00, 0x0C, 0x00,
     0x33, 0x00, 0x33, 0x00, 0xF3, 0x00, 0xF3, 0x00, 0x03, 0x00,
     0x03, 0x00, 0xF3, 0x00, 0xF3, 0x00, 0x33, 0x00, 0x33, 0x00,
     0x33, 0x00, 0x33, 0x00, 0x33, 0x00, 0x33, 0x00, 0x33, 0x00,
     0x33, 0x00, 0x33, 0x00, 0x33, 0x00, 0x33, 0x00, 0x33, 0x00,
     0x00, 0x00, 0x00, 0x00, 0xFF, 0x00, 0xFF, 0x00, 0x03, 0x00,
     0x03, 0x00, 0xF3, 0x00, 0xF3, 0x00, 0x33, 0x00, 0x33, 0x00,
     0x33, 0x00, 0x33, 0x00, 0xF3, 0x00, 0xF3, 0x00, 0x03, 0x00,
     0x03, 0x00, 0xFF, 0x00, 0xFF, 0x00, 0x00, 0x00, 0x00, 0x00,
     0x33, 0x00, 0x33, 0x00, 0x33, 0x00, 0x33, 0x00, 0xFF, 0x00,
     0xFF, 0x00, 0x00, 0x00, 0x00, 0x00, 0x00, 0x00, 0x00, 0x00,
     0x18, 0x00, 0x18, 0x00, 0xF8, 0x00, 0xF8, 0x00, 0x18, 0x00,
     0x18, 0x00, 0xF8, 0x00, 0xF8, 0x00, 0x00, 0x00, 0x00, 0x00,
     0x00, 0x00, 0x00, 0x00, 0x00, 0x00, 0x00, 0x00, 0xFC, 0x00,
     0xFC, 0x00, 0x0C, 0x00, 0x0C, 0x00, 0x0C, 0x00, 0x0C, 0x00]"

definition TextFont80COL_12 :: "u8 list" where
  "TextFont80COL_12 =
    [0x0C, 0x00, 0x0C, 0x00, 0x0C, 0x00, 0x0C, 0x00, 0x0F, 0xC0,
     0x0F, 0xC0, 0x00, 0x00, 0x00, 0x00, 0x00, 0x00, 0x00, 0x00,
     0x0C, 0x00, 0x0C, 0x00, 0x0C, 0x00, 0x0C, 0x00, 0xFF, 0xC0,
     0xFF, 0xC0, 0x00, 0x00, 0x00, 0x00, 0x00, 0x00, 0x00, 0x00,
     0x00, 0x00, 0x00, 0x00, 0x00, 0x00, 0x00, 0x00, 0xFF, 0xC0,
     0xFF, 0xC0, 0x0C, 0x00, 0x0C, 0x00, 0x0C, 0x00, 0x0C, 0x00,
     0x0C, 0x00, 0x0C, 0x00, 0x0C, 0x00, 0x0C, 0x00, 0x0F, 0xC0,
     0x0F, 0xC0, 0x0C, 0x00, 0x0C, 0x00, 0x0C, 0x00, 0x0C, 0x00,
     0x00, 0x00, 0x00, 0x00, 0x00, 0x00, 0x00, 0x00, 0xFF, 0xC0,
     0xFF, 0xC0, 0x00, 0x00, 0x00, 0x00, 0x00, 0x00, 0x00, 0x00,
     0x0C, 0x00, 0x0C, 0x00, 0x0C, 0x00, 0x0C, 0x00, 0xFF, 0xC0,
     0xFF, 0xC0, 0x0C, 0x00, 0x0C, 0x00, 0x0C, 0x00, 0x0C, 0x00,
     0x0C, 0x00, 0x0C, 0x00, 0x0F, 0xC0, 0x0F, 0xC0, 0x0C, 0x00,
     0x0C, 0x00, 0x0F, 0xC0, 0x0F, 0xC0, 0x0C, 0x00, 0x0C, 0x00,
     0x33, 0x00, 0x33, 0x00, 0x33, 0x00, 0x33, 0x00, 0x33, 0xC0,
     0x33, 0xC0, 0x33, 0x00, 0x33, 0x00, 0x33, 0x00, 0x33, 0x00,
     0x33, 0x00, 0x33, 0x00, 0x33, 0xC0, 0x33, 0xC0, 0x30, 0x00,
     0x30, 0x00, 0x3F, 0xC0, 0x3F, 0xC0, 0x00, 0x00, 0x00, 0x00,
     0x00, 0x00, 0x00, 0x00, 0x3F, 0xC0, 0x3F, 0xC0, 0x30, 0x00,
     0x30, 0x00, 0x33, 0xC0, 0x33, 0xC0, 0x33, 0x00, 0x33, 0x00,
     0x33, 0x00, 0x33, 0x00, 0xF3, 0xC0, 0xF3, 0xC0, 0x00, 0x00,
     0x00, 0x00, 0xFF, 0xC0, 0xFF, 0xC0, 0x00, 0x00, 0x00, 0x00,
     0x00, 0x00, 0x00, 0x00, 0xFF, 0xC0, 0xFF, 0xC0, 0x00, 0x00,
     0x00, 0x00, 0xF3, 0xC0, 0xF3, 0xC0, 0x33, 0x00, 0x33, 0x00,
     0x33, 0x00, 0x33, 0x00, 0x33, 0xC0, 0x33, 0xC0, 0x30, 0x00,
     0x30, 0x00, 0x33, 0xC0, 0x33, 0xC0, 0x33, 0x00, 0x33, 0x00,
     0x00, 0x00, 0x00, 0x00, 0xFF, 0xC0, 0xFF, 0xC0, 0x00, 0x00,
     0x00, 0x00, 0xFF, 0xC0, 0xFF, 0xC0, 0x00, 0x00, 0x00, 0x00,
     0x33, 0x00, 0x33, 0x00, 0xF3, 0xC0, 0xF3, 0xC0, 0x00, 0x00,
     0x00, 0x00, 0xF3, 0xC0, 0xF3, 0xC0, 0x33, 0x00, 0x33, 0x00,
     0x0C, 0x00, 0x0C, 0x00, 0xFF, 0xC0, 0xFF, 0xC0, 0x00, 0x00,
     0x00, 0x00, 0xFF, 0xC0, 0xFF, 0xC0, 0x00, 0x00, 0x00, 0x00]"

definition TextFont80COL_13 :: "u8 list" where
  "TextFont80COL_13 =
    [0x33, 0x00, 0x33, 0x00, 0x33, 0x00, 0x33, 0x00, 0xFF, 0xC0,
     0xFF, 0xC0, 0x00, 0x00, 0x00, 0x00, 0x00, 0x00, 0x00, 0x00,
     0x00, 0x00, 0x00, 0x00, 0xFF, 0xC0, 0xFF, 0xC0, 0x00, 0x00,
     0x00, 0x00, 0xFF, 0xC0, 0xFF, 0xC0, 0x0C, 0x00, 0x0C, 0x00,
     0x00, 0x00, 0x00, 0x00, 0x00, 0x00, 0x00, 0x00, 0xFF, 0xC0,
     0xFF, 0xC0, 0x33, 0x00, 0x33, 0x00, 0x33, 0x00, 0x33, 0x00,
     0x33, 0x00, 0x33, 0x00, 0x33, 0x00, 0x33, 0x00, 0x3F, 0xC0,
     0x3F, 0xC0, 0x00, 0x00, 0x00, 0x00, 0x00, 0x00, 0x00, 0x00,
     0x0C, 0x00, 0x0C, 0x00, 0x0F, 0xC0, 0x0F, 0xC0, 0x0C, 0x00,
     0x0C, 0x00, 0x0F, 0xC0, 0x0F, 0xC0, 0x00, 0x00, 0x00, 0x00,
     0x00, 0x00, 0x00, 0x00, 0x0F, 0xC0, 0x0F, 0xC0, 0x0C, 0x00,
     0x0C, 0x00, 0x0F, 0xC0, 0x0F, 0xC0, 0x0C, 0x00, 0x0C, 0x00,
     0x00, 0x00, 0x00, 0x00, 0x00, 0x00, 0x00, 0x00, 0x3F, 0xC0,
     0x3F, 0xC0, 0x33, 0x00, 0x33, 0x00, 0x33, 0x00, 0x33, 0x00,
     0x33, 0x00, 0x33, 0x00, 0x33, 0x00, 0x33, 0x00, 0xF3, 0xC0,
     0xF3, 0xC0, 0x33, 0x00, 0x33, 0x00, 0x33, 0x00, 0x33, 0x00,
     0x0C, 0x00, 0x0C, 0x00, 0xFF, 0xC0, 0xFF, 0xC0, 0x00, 0x00,
     0x00, 0x00, 0xFF, 0xC0, 0xFF, 0xC0, 0x0C, 0x00, 0x0C, 0x00,
     0x0C, 0x00, 0x0C, 0x00, 0x0C, 0x00, 0x0C, 0x00, 0xFC, 0x00,
     0xFC, 0x00, 0x00, 0x00, 0x00, 0x00, 0x00, 0x00, 0x00, 0x00,
     0x00, 0x00, 0x00, 0x00, 0x00, 0x00, 0x00, 0x00, 0x0F, 0xC0,
     0x0F, 0xC0, 0x0C, 0x00, 0x0C, 0x00, 0x0C, 0x00, 0x0C, 0x00,
     0xFF, 0xC0, 0xFF, 0xC0, 0xFF, 0xC0, 0xFF, 0xC0, 0xFF, 0xC0,
     0xFF, 0xC0, 0xFF, 0xC0, 0xFF, 0xC0, 0xFF, 0xC0, 0xFF, 0xC0,
     0x00, 0x00, 0x00, 0x00, 0x00, 0x00, 0x00, 0x00, 0x00, 0x00,
     0xFF, 0xC0, 0xFF, 0xC0, 0xFF, 0xC0, 0xFF, 0xC0, 0xFF, 0xC0,
     0xF8, 0x00, 0xF8, 0x00, 0xF8, 0x00, 0xF8, 0x00, 0xF8, 0x00,
     0xF8, 0x00, 0xF8, 0x00, 0xF8, 0x00, 0xF8, 0x00, 0xF8, 0x00,
     0x07, 0xC0, 0x07, 0xC0, 0x07, 0xC0, 0x07, 0xC0, 0x07, 0xC0,
     0x07, 0xC0, 0x07, 0xC0, 0x07, 0xC0, 0x07, 0xC0, 0x07, 0xC0,
     0xFF, 0xC0, 0xFF, 0xC0, 0xFF, 0xC0, 0xFF, 0xC0, 0xFF, 0xC0,
     0x00, 0x00, 0x00, 0x00, 0x00, 0x00, 0x00, 0x00, 0x00, 0x00]"

definition TextFont80COL_14 :: "u8 list" where
  "TextFont80COL_14 =
    [0x00, 0x00, 0x00, 0x00, 0x00, 0x00, 0x1D, 0x80, 0x37, 0x00,
     0x32, 0x00, 0x37, 0x00, 0x1D, 0x80, 0x00, 0x00, 0x00, 0x00,
     0x00, 0x00, 0x1E, 0x00, 0x33, 0x00, 0x33, 0x00, 0x36, 0x00,
     0x33, 0x00, 0x31, 0x80, 0x37, 0x00, 0x30, 0x00, 0x00, 0x00,
     0x00, 0x00, 0x3F, 0x80, 0x31, 0x80, 0x30, 0x00, 0x30, 0x00,
     0x30, 0x00, 0x30, 0x00, 0x30, 0x00, 0x00, 0x00, 0x00, 0x00,
     0x00, 0x00, 0x00, 0x00, 0x7F, 0x80, 0x33, 0x00, 0x33, 0x00,
     0x33, 0x00, 0x33, 0x00, 0x33, 0x00, 0x00, 0x00, 0x00, 0x00,
     0x00, 0x00, 0x3F, 0x80, 0x18, 0x00, 0x0C, 0x00, 0x06, 0x00,
     0x0C, 0x00, 0x18, 0x00, 0x3F, 0x80, 0x00, 0x00, 0x00, 0x00,
     0x00, 0x00, 0x00, 0x00, 0x00, 0x00, 0x1F, 0x80, 0x36, 0x00,
     0x33, 0x00, 0x33, 0x00, 0x1E, 0x00, 0x00, 0x00, 0x00, 0x00,
     0x00, 0x00, 0x00, 0x00, 0x00, 0x00, 0x63, 0x00, 0x63, 0x00,
     0x67, 0x00, 0x7D, 0x80, 0x60, 0x00, 0x60, 0x00, 0x00, 0x00,
     0x00, 0x00, 0x00, 0x00, 0x00, 0x00, 0x3F, 0x00, 0x0C, 0x00,
     0x0C, 0x00, 0x0C, 0x00, 0x06, 0x00, 0x00, 0x00, 0x00, 0x00,
     0x00, 0x00, 0x1E, 0x00, 0x0C, 0x00, 0x3F, 0x00, 0x6D, 0x80,
     0x6D, 0x80, 0x3F, 0x00, 0x0C, 0x00, 0x1E, 0x00, 0x00, 0x00,
     0x00, 0x00, 0x1E, 0x00, 0x33, 0x00, 0x33, 0x00, 0x3F, 0x00,
     0x33, 0x00, 0x33, 0x00, 0x1E, 0x00, 0x00, 0x00, 0x00, 0x00,
     0x00, 0x00, 0x1F, 0x00, 0x31, 0x80, 0x31, 0x80, 0x31, 0x80,
     0x31, 0x80, 0x1B, 0x00, 0x3B, 0x80, 0x00, 0x00, 0x00, 0x00,
     0x00, 0x00, 0x1F, 0x00, 0x0C, 0x00, 0x06, 0x00, 0x1F, 0x00,
     0x31, 0x80, 0x31, 0x80, 0x1F, 0x00, 0x00, 0x00, 0x00, 0x00,
     0x00, 0x00, 0x00, 0x00, 0x00, 0x00, 0x3B, 0x80, 0x66, 0xC0,
     0x64, 0xC0, 0x6C, 0xC0, 0x3B, 0x80, 0x00, 0x00, 0x00, 0x00,
     0x00, 0x00, 0x00, 0x00, 0x01, 0x80, 0x3F, 0x00, 0x67, 0x80,
     0x6D, 0x80, 0x79, 0x80, 0x3F, 0x00, 0x60, 0x00, 0x00, 0x00,
     0x00, 0x00, 0x00, 0x00, 0x00, 0x00, 0x1F, 0x00, 0x30, 0x00,
     0x1E, 0x00, 0x30, 0x00, 0x1F, 0x00, 0x00, 0x00, 0x00, 0x00,
     0x00, 0x00, 0x1F, 0x00, 0x31, 0x80, 0x31, 0x80, 0x31, 0x80,
     0x31, 0x80, 0x31, 0x80, 0x31, 0x80, 0x00, 0x00, 0x00, 0x00]"

definition TextFont80COL_15 :: "u8 list" where
  "TextFont80COL_15 =
    [0x00, 0x00, 0x00, 0x00, 0x3F, 0x00, 0x00, 0x00, 0x3F, 0x00,
     0x00, 0x00, 0x3F, 0x00, 0x00, 0x00, 0x00, 0x00, 0x00, 0x00,
     0x00, 0x00, 0x0C, 0x00, 0x0C, 0x00, 0x3F, 0x00, 0x0C, 0x00,
     0x0C, 0x00, 0x00, 0x00, 0x3F, 0x00, 0x00, 0x00, 0x00, 0x00,
     0x00, 0x00, 0x06, 0x00, 0x0C, 0x00, 0x18, 0x00, 0x0C, 0x00,
     0x06, 0x00, 0x00, 0x00, 0x3F, 0x00, 0x00, 0x00, 0x00, 0x00,
     0x00, 0x00, 0x18, 0x00, 0x0C, 0x00, 0x06, 0x00, 0x0C, 0x00,
     0x18, 0x00, 0x00, 0x00, 0x3F, 0x00, 0x00, 0x00, 0x00, 0x00,
     0x00, 0x00, 0x07, 0x00, 0x0D, 0x80, 0x0D, 0x80, 0x0C, 0x00,
     0x0C, 0x00, 0x0C, 0x00, 0x0C, 0x00, 0x0C, 0x00, 0x0C, 0x00,
     0x0C, 0x00, 0x0C, 0x00, 0x0C, 0x00, 0x0C, 0x00, 0x0C, 0x00,
     0x0C, 0x00, 0x6C, 0x00, 0x6C, 0x00, 0x38, 0x00, 0x00, 0x00,
     0x00, 0x00, 0x00, 0x00, 0x0C, 0x00, 0x00, 0x00, 0x3F, 0x00,
     0x00, 0x00, 0x0C, 0x00, 0x00, 0x00, 0x00, 0x00, 0x00, 0x00,
     0x00, 0x00, 0x38, 0x00, 0x6D, 0x80, 0x07, 0x00, 0x00, 0x00,
     0x38, 0x00, 0x6D, 0x80, 0x07, 0x00, 0x00, 0x00, 0x00, 0x00,
     0x00, 0x00, 0x0E, 0x00, 0x1B, 0x00, 0x1B, 0x00, 0x0E, 0x00,
     0x00, 0x00, 0x00, 0x00, 0x00, 0x00, 0x00, 0x00, 0x00, 0x00,
     0x00, 0x00, 0x00, 0x00, 0x00, 0x00, 0x0C, 0x00, 0x0C, 0x00,
     0x00, 0x00, 0x00, 0x00, 0x00, 0x00, 0x00, 0x00, 0x00, 0x00,
     0x00, 0x00, 0x00, 0x00, 0x00, 0x00, 0x00, 0x00, 0x0C, 0x00,
     0x00, 0x00, 0x00, 0x00, 0x00, 0x00, 0x00, 0x00, 0x00, 0x00,
     0x00, 0x00, 0x07, 0xC0, 0x06, 0x00, 0x06, 0x00, 0x66, 0x00,
     0x36, 0x00, 0x1E, 0x00, 0x0E, 0x00, 0x06, 0x00, 0x02, 0x00,
     0x00, 0x00, 0x3E, 0x00, 0x33, 0x00, 0x33, 0x00, 0x33, 0x00,
     0x33, 0x00, 0x00, 0x00, 0x00, 0x00, 0x00, 0x00, 0x00, 0x00,
     0x00, 0x00, 0x1E, 0x00, 0x03, 0x00, 0x0E, 0x00, 0x18, 0x00,
     0x1F, 0x00, 0x00, 0x00, 0x00, 0x00, 0x00, 0x00, 0x00, 0x00,
     0x00, 0x00, 0x00, 0x00, 0x00, 0x00, 0x1E, 0x00, 0x1E, 0x00,
     0x1E, 0x00, 0x1E, 0x00, 0x00, 0x00, 0x00, 0x00, 0x00, 0x00,
     0x00, 0x00, 0x00, 0x00, 0x00, 0x00, 0x00, 0x00, 0x00, 0x00,
     0x00, 0x00, 0x00, 0x00, 0x00, 0x00, 0x00, 0x00, 0x00, 0x00]"

definition TextFont80COL :: "u8 list" where
  "TextFont80COL = concat
    [TextFont80COL_0, TextFont80COL_1, TextFont80COL_2, TextFont80COL_3,
     TextFont80COL_4, TextFont80COL_5, TextFont80COL_6, TextFont80COL_7,
     TextFont80COL_8, TextFont80COL_9, TextFont80COL_10, TextFont80COL_11,
     TextFont80COL_12, TextFont80COL_13, TextFont80COL_14, TextFont80COL_15]"

lemma length_TextFont80COL_0 [simp]: "length TextFont80COL_0 = 320"
  by (simp add: TextFont80COL_0_def)

lemma length_TextFont80COL_1 [simp]: "length TextFont80COL_1 = 320"
  by (simp add: TextFont80COL_1_def)

lemma length_TextFont80COL_2 [simp]: "length TextFont80COL_2 = 320"
  by (simp add: TextFont80COL_2_def)

lemma length_TextFont80COL_3 [simp]: "length TextFont80COL_3 = 320"
  by (simp add: TextFont80COL_3_def)

lemma length_TextFont80COL_4 [simp]: "length TextFont80COL_4 = 320"
  by (simp add: TextFont80COL_4_def)

lemma length_TextFont80COL_5 [simp]: "length TextFont80COL_5 = 320"
  by (simp add: TextFont80COL_5_def)

lemma length_TextFont80COL_6 [simp]: "length TextFont80COL_6 = 320"
  by (simp add: TextFont80COL_6_def)

lemma length_TextFont80COL_7 [simp]: "length TextFont80COL_7 = 320"
  by (simp add: TextFont80COL_7_def)

lemma length_TextFont80COL_8 [simp]: "length TextFont80COL_8 = 320"
  by (simp add: TextFont80COL_8_def)

lemma length_TextFont80COL_9 [simp]: "length TextFont80COL_9 = 320"
  by (simp add: TextFont80COL_9_def)

lemma length_TextFont80COL_10 [simp]: "length TextFont80COL_10 = 320"
  by (simp add: TextFont80COL_10_def)

lemma length_TextFont80COL_11 [simp]: "length TextFont80COL_11 = 320"
  by (simp add: TextFont80COL_11_def)

lemma length_TextFont80COL_12 [simp]: "length TextFont80COL_12 = 320"
  by (simp add: TextFont80COL_12_def)

lemma length_TextFont80COL_13 [simp]: "length TextFont80COL_13 = 320"
  by (simp add: TextFont80COL_13_def)

lemma length_TextFont80COL_14 [simp]: "length TextFont80COL_14 = 320"
  by (simp add: TextFont80COL_14_def)

lemma length_TextFont80COL_15 [simp]: "length TextFont80COL_15 = 320"
  by (simp add: TextFont80COL_15_def)

lemma length_TextFont80COL: "length TextFont80COL = 5120"
  by (simp add: TextFont80COL_def)

section \<open>\<^verbatim>\<open>TextFont132COL\<close>\<close>

definition TextFont132COL_0 :: "u8 list" where
  "TextFont132COL_0 =
    [0x00, 0x00, 0x00, 0x00, 0x00, 0x00, 0x00, 0x00, 0x00, 0x00,
     0x00, 0x00, 0x28, 0x00, 0x00, 0x44, 0x38, 0x00, 0x00, 0x00,
     0x00, 0x38, 0x7C, 0x54, 0x7C, 0x7C, 0x44, 0x38, 0x00, 0x00,
     0x00, 0x00, 0x28, 0x7C, 0x7C, 0x38, 0x10, 0x00, 0x00, 0x00,
     0x00, 0x00, 0x10, 0x38, 0x7C, 0x38, 0x10, 0x00, 0x00, 0x00,
     0x00, 0x00, 0x38, 0x38, 0x7C, 0x7C, 0x10, 0x38, 0x00, 0x00,
     0x00, 0x00, 0x10, 0x38, 0x7C, 0x7C, 0x10, 0x38, 0x00, 0x00,
     0x00, 0x00, 0x00, 0x38, 0x38, 0x38, 0x00, 0x00, 0x00, 0x00,
     0x00, 0x7C, 0x7C, 0x44, 0x44, 0x44, 0x7C, 0x7C, 0x00, 0x00,
     0x00, 0x00, 0x38, 0x44, 0x44, 0x44, 0x38, 0x00, 0x00, 0x00,
     0x00, 0x7C, 0x44, 0x10, 0x38, 0x10, 0x44, 0x7C, 0x00, 0x00,
     0x00, 0x1C, 0x0C, 0x14, 0x30, 0x48, 0x48, 0x30, 0x00, 0x00,
     0x00, 0x38, 0x44, 0x44, 0x38, 0x10, 0x38, 0x10, 0x00, 0x00,
     0x00, 0x10, 0x18, 0x14, 0x14, 0x30, 0x70, 0x20, 0x00, 0x00,
     0x00, 0x0C, 0x34, 0x24, 0x24, 0x2C, 0x6C, 0x60, 0x00, 0x00,
     0x00, 0x00, 0x54, 0x38, 0x6C, 0x38, 0x54, 0x00, 0x00, 0x00,
     0x00, 0x00, 0x40, 0x70, 0x7C, 0x70, 0x40, 0x00, 0x00, 0x00,
     0x00, 0x00, 0x04, 0x1C, 0x7C, 0x1C, 0x04, 0x00, 0x00, 0x00,
     0x00, 0x10, 0x38, 0x54, 0x10, 0x54, 0x38, 0x10, 0x00, 0x00,
     0x00, 0x28, 0x28, 0x28, 0x28, 0x28, 0x00, 0x28, 0x00, 0x00,
     0x00, 0x34, 0x54, 0x54, 0x34, 0x14, 0x14, 0x14, 0x00, 0x00,
     0x00, 0x38, 0x44, 0x40, 0x38, 0x44, 0x38, 0x04, 0x44, 0x38,
     0x00, 0x00, 0x00, 0x7C, 0x7C, 0x7C, 0x00, 0x00, 0x00, 0x00,
     0x00, 0x10, 0x38, 0x54, 0x10, 0x54, 0x38, 0x7C, 0x00, 0x00,
     0x00, 0x00, 0x10, 0x38, 0x54, 0x10, 0x10, 0x00, 0x00, 0x00,
     0x00, 0x00, 0x10, 0x10, 0x54, 0x38, 0x10, 0x00, 0x00, 0x00,
     0x00, 0x00, 0x10, 0x08, 0x7C, 0x08, 0x10, 0x00, 0x00, 0x00,
     0x00, 0x00, 0x10, 0x20, 0x7C, 0x20, 0x10, 0x00, 0x00, 0x00,
     0x00, 0x00, 0x40, 0x40, 0x40, 0x40, 0x7C, 0x00, 0x00, 0x00,
     0x00, 0x00, 0x28, 0x44, 0x7C, 0x44, 0x28, 0x00, 0x00, 0x00,
     0x00, 0x10, 0x10, 0x38, 0x38, 0x7C, 0x7C, 0x7C, 0x00, 0x00,
     0x00, 0x7C, 0x7C, 0x7C, 0x38, 0x38, 0x10, 0x10, 0x00, 0x00]"

definition TextFont132COL_1 :: "u8 list" where
  "TextFont132COL_1 =
    [0x00, 0x00, 0x00, 0x00, 0x00, 0x00, 0x00, 0x00, 0x00, 0x00,
     0x00, 0x10, 0x10, 0x10, 0x10, 0x10, 0x00, 0x10, 0x00, 0x00,
     0x00, 0x28, 0x28, 0x28, 0x00, 0x00, 0x00, 0x00, 0x00, 0x00,
     0x00, 0x28, 0x28, 0x7C, 0x28, 0x7C, 0x28, 0x28, 0x00, 0x00,
     0x00, 0x38, 0x54, 0x50, 0x38, 0x14, 0x54, 0x38, 0x00, 0x00,
     0x00, 0x60, 0x64, 0x08, 0x10, 0x20, 0x4C, 0x0C, 0x00, 0x00,
     0x00, 0x20, 0x50, 0x50, 0x20, 0x54, 0x48, 0x34, 0x00, 0x00,
     0x00, 0x10, 0x10, 0x10, 0x00, 0x00, 0x00, 0x00, 0x00, 0x00,
     0x00, 0x08, 0x10, 0x20, 0x20, 0x20, 0x10, 0x08, 0x00, 0x00,
     0x00, 0x20, 0x10, 0x08, 0x08, 0x08, 0x10, 0x20, 0x00, 0x00,
     0x00, 0x10, 0x54, 0x38, 0x10, 0x38, 0x54, 0x10, 0x00, 0x00,
     0x00, 0x00, 0x10, 0x10, 0x7C, 0x10, 0x10, 0x00, 0x00, 0x00,
     0x00, 0x00, 0x00, 0x00, 0x00, 0x00, 0x10, 0x10, 0x20, 0x00,
     0x00, 0x00, 0x00, 0x00, 0x38, 0x00, 0x00, 0x00, 0x00, 0x00,
     0x00, 0x00, 0x00, 0x00, 0x00, 0x00, 0x00, 0x10, 0x00, 0x00,
     0x08, 0x08, 0x10, 0x10, 0x20, 0x20, 0x40, 0x40, 0x00, 0x00,
     0x00, 0x10, 0x28, 0x44, 0x44, 0x44, 0x28, 0x10, 0x00, 0x00,
     0x00, 0x10, 0x30, 0x10, 0x10, 0x10, 0x10, 0x38, 0x00, 0x00,
     0x00, 0x38, 0x44, 0x04, 0x18, 0x20, 0x40, 0x7C, 0x00, 0x00,
     0x00, 0x7C, 0x04, 0x08, 0x18, 0x04, 0x44, 0x38, 0x00, 0x00,
     0x00, 0x08, 0x18, 0x28, 0x48, 0x7C, 0x08, 0x08, 0x00, 0x00,
     0x00, 0x7C, 0x40, 0x78, 0x04, 0x04, 0x44, 0x38, 0x00, 0x00,
     0x00, 0x18, 0x20, 0x40, 0x78, 0x44, 0x44, 0x38, 0x00, 0x00,
     0x00, 0x7C, 0x04, 0x08, 0x10, 0x20, 0x20, 0x20, 0x00, 0x00,
     0x00, 0x38, 0x44, 0x44, 0x38, 0x44, 0x44, 0x38, 0x00, 0x00,
     0x00, 0x38, 0x44, 0x44, 0x3C, 0x04, 0x08, 0x30, 0x00, 0x00,
     0x00, 0x00, 0x00, 0x10, 0x00, 0x00, 0x00, 0x10, 0x00, 0x00,
     0x00, 0x00, 0x00, 0x10, 0x00, 0x00, 0x10, 0x10, 0x20, 0x00,
     0x00, 0x08, 0x10, 0x20, 0x40, 0x20, 0x10, 0x08, 0x00, 0x00,
     0x00, 0x00, 0x00, 0x7C, 0x00, 0x7C, 0x00, 0x00, 0x00, 0x00,
     0x00, 0x20, 0x10, 0x08, 0x04, 0x08, 0x10, 0x20, 0x00, 0x00,
     0x00, 0x38, 0x44, 0x08, 0x10, 0x10, 0x00, 0x10, 0x00, 0x00]"

definition TextFont132COL_2 :: "u8 list" where
  "TextFont132COL_2 =
    [0x00, 0x38, 0x44, 0x5C, 0x54, 0x5C, 0x40, 0x38, 0x00, 0x00,
     0x00, 0x10, 0x28, 0x44, 0x44, 0x7C, 0x44, 0x44, 0x00, 0x00,
     0x00, 0x78, 0x44, 0x44, 0x78, 0x44, 0x44, 0x78, 0x00, 0x00,
     0x00, 0x38, 0x44, 0x40, 0x40, 0x40, 0x44, 0x38, 0x00, 0x00,
     0x00, 0x78, 0x44, 0x44, 0x44, 0x44, 0x44, 0x78, 0x00, 0x00,
     0x00, 0x7C, 0x40, 0x40, 0x78, 0x40, 0x40, 0x7C, 0x00, 0x00,
     0x00, 0x7C, 0x40, 0x40, 0x78, 0x40, 0x40, 0x40, 0x00, 0x00,
     0x00, 0x38, 0x44, 0x40, 0x40, 0x4C, 0x44, 0x3C, 0x00, 0x00,
     0x00, 0x44, 0x44, 0x44, 0x7C, 0x44, 0x44, 0x44, 0x00, 0x00,
     0x00, 0x38, 0x10, 0x10, 0x10, 0x10, 0x10, 0x38, 0x00, 0x00,
     0x00, 0x04, 0x04, 0x04, 0x04, 0x04, 0x44, 0x38, 0x00, 0x00,
     0x00, 0x44, 0x48, 0x50, 0x60, 0x50, 0x48, 0x44, 0x00, 0x00,
     0x00, 0x40, 0x40, 0x40, 0x40, 0x40, 0x40, 0x7C, 0x00, 0x00,
     0x00, 0x44, 0x6C, 0x54, 0x54, 0x44, 0x44, 0x44, 0x00, 0x00,
     0x00, 0x44, 0x44, 0x64, 0x54, 0x4C, 0x44, 0x44, 0x00, 0x00,
     0x00, 0x38, 0x44, 0x44, 0x44, 0x44, 0x44, 0x38, 0x00, 0x00,
     0x00, 0x78, 0x44, 0x44, 0x78, 0x40, 0x40, 0x40, 0x00, 0x00,
     0x00, 0x38, 0x44, 0x44, 0x44, 0x54, 0x48, 0x34, 0x00, 0x00,
     0x00, 0x78, 0x44, 0x44, 0x78, 0x50, 0x48, 0x44, 0x00, 0x00,
     0x00, 0x38, 0x44, 0x40, 0x38, 0x04, 0x44, 0x38, 0x00, 0x00,
     0x00, 0x7C, 0x10, 0x10, 0x10, 0x10, 0x10, 0x10, 0x00, 0x00,
     0x00, 0x44, 0x44, 0x44, 0x44, 0x44, 0x44, 0x38, 0x00, 0x00,
     0x00, 0x44, 0x44, 0x44, 0x28, 0x28, 0x10, 0x10, 0x00, 0x00,
     0x00, 0x44, 0x44, 0x44, 0x54, 0x54, 0x54, 0x28, 0x00, 0x00,
     0x00, 0x44, 0x44, 0x28, 0x10, 0x28, 0x44, 0x44, 0x00, 0x00,
     0x00, 0x44, 0x44, 0x28, 0x10, 0x10, 0x10, 0x10, 0x00, 0x00,
     0x00, 0x7C, 0x04, 0x08, 0x10, 0x20, 0x40, 0x7C, 0x00, 0x00,
     0x00, 0x3C, 0x20, 0x20, 0x20, 0x20, 0x20, 0x3C, 0x00, 0x00,
     0x00, 0x00, 0x40, 0x20, 0x10, 0x08, 0x04, 0x00, 0x00, 0x00,
     0x00, 0x78, 0x08, 0x08, 0x08, 0x08, 0x08, 0x78, 0x00, 0x00,
     0x00, 0x10, 0x28, 0x44, 0x00, 0x00, 0x00, 0x00, 0x00, 0x00,
     0x00, 0x00, 0x00, 0x00, 0x00, 0x00, 0x00, 0x7C, 0x00, 0x00]"

definition TextFont132COL_3 :: "u8 list" where
  "TextFont132COL_3 =
    [0x00, 0x20, 0x10, 0x08, 0x00, 0x00, 0x00, 0x00, 0x00, 0x00,
     0x00, 0x00, 0x00, 0x38, 0x04, 0x3C, 0x44, 0x3C, 0x00, 0x00,
     0x00, 0x40, 0x40, 0x78, 0x44, 0x44, 0x44, 0x78, 0x00, 0x00,
     0x00, 0x00, 0x00, 0x3C, 0x40, 0x40, 0x40, 0x3C, 0x00, 0x00,
     0x00, 0x04, 0x04, 0x3C, 0x44, 0x44, 0x44, 0x3C, 0x00, 0x00,
     0x00, 0x00, 0x00, 0x38, 0x44, 0x7C, 0x40, 0x38, 0x00, 0x00,
     0x00, 0x08, 0x10, 0x10, 0x38, 0x10, 0x10, 0x10, 0x00, 0x00,
     0x00, 0x00, 0x00, 0x3C, 0x44, 0x44, 0x44, 0x3C, 0x04, 0x38,
     0x00, 0x40, 0x40, 0x78, 0x44, 0x44, 0x44, 0x44, 0x00, 0x00,
     0x00, 0x10, 0x00, 0x30, 0x10, 0x10, 0x10, 0x38, 0x00, 0x00,
     0x00, 0x10, 0x00, 0x10, 0x10, 0x10, 0x10, 0x10, 0x10, 0x20,
     0x00, 0x20, 0x20, 0x24, 0x28, 0x30, 0x28, 0x24, 0x00, 0x00,
     0x00, 0x30, 0x10, 0x10, 0x10, 0x10, 0x10, 0x38, 0x00, 0x00,
     0x00, 0x00, 0x00, 0x68, 0x54, 0x54, 0x54, 0x54, 0x00, 0x00,
     0x00, 0x00, 0x00, 0x78, 0x44, 0x44, 0x44, 0x44, 0x00, 0x00,
     0x00, 0x00, 0x00, 0x38, 0x44, 0x44, 0x44, 0x38, 0x00, 0x00,
     0x00, 0x00, 0x00, 0x78, 0x44, 0x44, 0x44, 0x78, 0x40, 0x40,
     0x00, 0x00, 0x00, 0x3C, 0x44, 0x44, 0x44, 0x3C, 0x04, 0x04,
     0x00, 0x00, 0x00, 0x2C, 0x30, 0x20, 0x20, 0x20, 0x00, 0x00,
     0x00, 0x00, 0x00, 0x3C, 0x40, 0x38, 0x04, 0x78, 0x00, 0x00,
     0x00, 0x10, 0x10, 0x38, 0x10, 0x10, 0x10, 0x08, 0x00, 0x00,
     0x00, 0x00, 0x00, 0x44, 0x44, 0x44, 0x44, 0x3C, 0x00, 0x00,
     0x00, 0x00, 0x00, 0x44, 0x44, 0x28, 0x28, 0x10, 0x00, 0x00,
     0x00, 0x00, 0x00, 0x44, 0x44, 0x54, 0x54, 0x28, 0x00, 0x00,
     0x00, 0x00, 0x00, 0x44, 0x28, 0x10, 0x28, 0x44, 0x00, 0x00,
     0x00, 0x00, 0x00, 0x44, 0x44, 0x44, 0x44, 0x3C, 0x04, 0x38,
     0x00, 0x00, 0x00, 0x7C, 0x08, 0x10, 0x20, 0x7C, 0x00, 0x00,
     0x00, 0x0C, 0x10, 0x10, 0x20, 0x10, 0x10, 0x0C, 0x00, 0x00,
     0x00, 0x10, 0x10, 0x10, 0x10, 0x10, 0x10, 0x10, 0x00, 0x00,
     0x00, 0x60, 0x10, 0x10, 0x08, 0x10, 0x10, 0x60, 0x00, 0x00,
     0x00, 0x20, 0x54, 0x08, 0x00, 0x00, 0x00, 0x00, 0x00, 0x00,
     0x00, 0x10, 0x28, 0x44, 0x44, 0x44, 0x44, 0x7C, 0x00, 0x00]"

definition TextFont132COL_4 :: "u8 list" where
  "TextFont132COL_4 =
    [0x00, 0x38, 0x44, 0x40, 0x40, 0x40, 0x44, 0x38, 0x10, 0x20,
     0x00, 0x00, 0x28, 0x00, 0x44, 0x44, 0x44, 0x3C, 0x00, 0x00,
     0x00, 0x08, 0x10, 0x38, 0x44, 0x7C, 0x40, 0x38, 0x00, 0x00,
     0x00, 0x10, 0x28, 0x38, 0x04, 0x3C, 0x44, 0x3C, 0x00, 0x00,
     0x00, 0x28, 0x00, 0x38, 0x04, 0x3C, 0x44, 0x3C, 0x00, 0x00,
     0x00, 0x20, 0x10, 0x38, 0x04, 0x3C, 0x44, 0x3C, 0x00, 0x00,
     0x00, 0x10, 0x00, 0x38, 0x04, 0x3C, 0x44, 0x3C, 0x00, 0x00,
     0x00, 0x00, 0x00, 0x3C, 0x40, 0x40, 0x40, 0x3C, 0x08, 0x10,
     0x00, 0x10, 0x28, 0x38, 0x44, 0x7C, 0x40, 0x38, 0x00, 0x00,
     0x00, 0x28, 0x00, 0x38, 0x44, 0x7C, 0x40, 0x38, 0x00, 0x00,
     0x00, 0x20, 0x10, 0x38, 0x44, 0x7C, 0x40, 0x38, 0x00, 0x00,
     0x00, 0x28, 0x00, 0x30, 0x10, 0x10, 0x10, 0x38, 0x00, 0x00,
     0x00, 0x10, 0x28, 0x00, 0x30, 0x10, 0x10, 0x38, 0x00, 0x00,
     0x00, 0x20, 0x10, 0x00, 0x30, 0x10, 0x10, 0x38, 0x00, 0x00,
     0x00, 0x28, 0x00, 0x38, 0x44, 0x7C, 0x44, 0x44, 0x00, 0x00,
     0x00, 0x10, 0x00, 0x38, 0x44, 0x7C, 0x44, 0x44, 0x00, 0x00,
     0x00, 0x08, 0x10, 0x7C, 0x40, 0x78, 0x40, 0x7C, 0x00, 0x00,
     0x00, 0x00, 0x00, 0x28, 0x14, 0x3C, 0x50, 0x38, 0x00, 0x00,
     0x00, 0x3C, 0x50, 0x50, 0x58, 0x70, 0x50, 0x5C, 0x00, 0x00,
     0x00, 0x10, 0x28, 0x00, 0x38, 0x44, 0x44, 0x38, 0x00, 0x00,
     0x00, 0x00, 0x28, 0x00, 0x38, 0x44, 0x44, 0x38, 0x00, 0x00,
     0x00, 0x20, 0x10, 0x00, 0x38, 0x44, 0x44, 0x38, 0x00, 0x00,
     0x00, 0x10, 0x28, 0x00, 0x44, 0x44, 0x44, 0x3C, 0x00, 0x00,
     0x00, 0x20, 0x10, 0x44, 0x44, 0x44, 0x44, 0x3C, 0x00, 0x00,
     0x00, 0x28, 0x00, 0x44, 0x44, 0x44, 0x44, 0x3C, 0x04, 0x38,
     0x00, 0x28, 0x00, 0x38, 0x44, 0x44, 0x44, 0x38, 0x00, 0x00,
     0x00, 0x28, 0x00, 0x44, 0x44, 0x44, 0x44, 0x38, 0x00, 0x00,
     0x00, 0x00, 0x10, 0x3C, 0x50, 0x50, 0x50, 0x3C, 0x10, 0x00,
     0x00, 0x18, 0x24, 0x20, 0x70, 0x20, 0x20, 0x7C, 0x00, 0x00,
     0x00, 0x44, 0x28, 0x7C, 0x10, 0x7C, 0x10, 0x10, 0x00, 0x00,
     0x00, 0x60, 0x50, 0x60, 0x48, 0x5C, 0x48, 0x44, 0x00, 0x00,
     0x00, 0x08, 0x10, 0x10, 0x38, 0x10, 0x10, 0x10, 0x10, 0x20]"

definition TextFont132COL_5 :: "u8 list" where
  "TextFont132COL_5 =
    [0x00, 0x08, 0x10, 0x38, 0x04, 0x3C, 0x44, 0x3C, 0x00, 0x00,
     0x00, 0x08, 0x10, 0x00, 0x30, 0x10, 0x10, 0x38, 0x00, 0x00,
     0x00, 0x08, 0x10, 0x00, 0x38, 0x44, 0x44, 0x38, 0x00, 0x00,
     0x00, 0x08, 0x10, 0x44, 0x44, 0x44, 0x44, 0x3C, 0x00, 0x00,
     0x00, 0x14, 0x28, 0x78, 0x44, 0x44, 0x44, 0x44, 0x00, 0x00,
     0x00, 0x14, 0x28, 0x00, 0x64, 0x54, 0x4C, 0x44, 0x00, 0x00,
     0x00, 0x38, 0x04, 0x3C, 0x44, 0x3C, 0x00, 0x7C, 0x00, 0x00,
     0x00, 0x38, 0x44, 0x44, 0x44, 0x38, 0x00, 0x7C, 0x00, 0x00,
     0x00, 0x00, 0x00, 0x10, 0x00, 0x10, 0x10, 0x20, 0x44, 0x38,
     0x00, 0x00, 0x00, 0x7C, 0x40, 0x40, 0x00, 0x00, 0x00, 0x00,
     0x00, 0x00, 0x00, 0x7C, 0x04, 0x04, 0x00, 0x00, 0x00, 0x00,
     0x00, 0x40, 0x40, 0x40, 0x40, 0x58, 0x04, 0x08, 0x10, 0x1C,
     0x00, 0x20, 0x20, 0x20, 0x20, 0x24, 0x0C, 0x14, 0x1C, 0x04,
     0x00, 0x00, 0x00, 0x10, 0x00, 0x10, 0x10, 0x10, 0x10, 0x10,
     0x00, 0x00, 0x00, 0x00, 0x24, 0x48, 0x24, 0x00, 0x00, 0x00,
     0x00, 0x00, 0x00, 0x00, 0x48, 0x24, 0x48, 0x00, 0x00, 0x00,
     0x00, 0x54, 0x00, 0x28, 0x00, 0x54, 0x00, 0x28, 0x00, 0x54,
     0x00, 0x48, 0x24, 0x10, 0x48, 0x24, 0x10, 0x48, 0x24, 0x10,
     0x00, 0x54, 0x7C, 0x28, 0x7C, 0x54, 0x7C, 0x28, 0x7C, 0x54,
     0x00, 0x10, 0x10, 0x10, 0x10, 0x10, 0x10, 0x10, 0x10, 0x10,
     0x00, 0x10, 0x10, 0x10, 0x10, 0x70, 0x10, 0x10, 0x10, 0x10,
     0x00, 0x10, 0x10, 0x10, 0x70, 0x10, 0x70, 0x10, 0x10, 0x10,
     0x00, 0x28, 0x28, 0x28, 0x28, 0x68, 0x28, 0x28, 0x28, 0x28,
     0x00, 0x00, 0x00, 0x00, 0x00, 0x78, 0x28, 0x28, 0x28, 0x28,
     0x00, 0x00, 0x00, 0x00, 0x70, 0x10, 0x70, 0x10, 0x10, 0x10,
     0x00, 0x28, 0x28, 0x28, 0x68, 0x08, 0x68, 0x28, 0x28, 0x28,
     0x00, 0x28, 0x28, 0x28, 0x28, 0x28, 0x28, 0x28, 0x28, 0x28,
     0x00, 0x00, 0x00, 0x00, 0x78, 0x08, 0x68, 0x28, 0x28, 0x28,
     0x00, 0x28, 0x28, 0x28, 0x68, 0x08, 0x78, 0x00, 0x00, 0x00,
     0x00, 0x28, 0x28, 0x28, 0x28, 0x78, 0x00, 0x00, 0x00, 0x00,
     0x00, 0x10, 0x10, 0x10, 0x70, 0x10, 0x70, 0x00, 0x00, 0x00,
     0x00, 0x00, 0x00, 0x00, 0x00, 0x70, 0x10, 0x10, 0x10, 0x10]"

definition TextFont132COL_6 :: "u8 list" where
  "TextFont132COL_6 =
    [0x00, 0x10, 0x10, 0x10, 0x10, 0x1C, 0x00, 0x00, 0x00, 0x00,
     0x00, 0x10, 0x10, 0x10, 0x10, 0x7C, 0x00, 0x00, 0x00, 0x00,
     0x00, 0x00, 0x00, 0x00, 0x00, 0x7C, 0x10, 0x10, 0x10, 0x10,
     0x00, 0x10, 0x10, 0x10, 0x10, 0x1C, 0x10, 0x10, 0x10, 0x10,
     0x00, 0x00, 0x00, 0x00, 0x00, 0x7C, 0x00, 0x00, 0x00, 0x00,
     0x00, 0x10, 0x10, 0x10, 0x10, 0x7C, 0x10, 0x10, 0x10, 0x10,
     0x00, 0x10, 0x10, 0x10, 0x1C, 0x10, 0x1C, 0x10, 0x10, 0x10,
     0x00, 0x28, 0x28, 0x28, 0x28, 0x2C, 0x28, 0x28, 0x28, 0x28,
     0x00, 0x28, 0x28, 0x28, 0x2C, 0x20, 0x3C, 0x00, 0x00, 0x00,
     0x00, 0x00, 0x00, 0x00, 0x3C, 0x20, 0x2C, 0x28, 0x28, 0x28,
     0x00, 0x28, 0x28, 0x28, 0x6C, 0x00, 0x7C, 0x00, 0x00, 0x00,
     0x00, 0x00, 0x00, 0x00, 0x7C, 0x00, 0x6C, 0x28, 0x28, 0x28,
     0x00, 0x28, 0x28, 0x28, 0x2C, 0x20, 0x2C, 0x28, 0x28, 0x28,
     0x00, 0x00, 0x00, 0x00, 0x7C, 0x00, 0x7C, 0x00, 0x00, 0x00,
     0x00, 0x28, 0x28, 0x28, 0x6C, 0x00, 0x6C, 0x28, 0x28, 0x28,
     0x00, 0x10, 0x10, 0x10, 0x7C, 0x00, 0x7C, 0x00, 0x00, 0x00,
     0x00, 0x28, 0x28, 0x28, 0x28, 0x7C, 0x00, 0x00, 0x00, 0x00,
     0x00, 0x00, 0x00, 0x00, 0x7C, 0x00, 0x7C, 0x10, 0x10, 0x10,
     0x00, 0x00, 0x00, 0x00, 0x00, 0x7C, 0x28, 0x28, 0x28, 0x28,
     0x00, 0x28, 0x28, 0x28, 0x28, 0x3C, 0x00, 0x00, 0x00, 0x00,
     0x00, 0x10, 0x10, 0x10, 0x1C, 0x10, 0x1C, 0x00, 0x00, 0x00,
     0x00, 0x00, 0x00, 0x00, 0x1C, 0x10, 0x1C, 0x10, 0x10, 0x10,
     0x00, 0x00, 0x00, 0x00, 0x00, 0x3C, 0x28, 0x28, 0x28, 0x28,
     0x00, 0x28, 0x28, 0x28, 0x28, 0x7C, 0x28, 0x28, 0x28, 0x28,
     0x00, 0x10, 0x10, 0x10, 0x7C, 0x10, 0x7C, 0x10, 0x10, 0x10,
     0x00, 0x10, 0x10, 0x10, 0x10, 0x70, 0x00, 0x00, 0x00, 0x00,
     0x00, 0x00, 0x00, 0x00, 0x00, 0x1C, 0x10, 0x10, 0x10, 0x10,
     0xFC, 0xFC, 0xFC, 0xFC, 0xFC, 0xFC, 0xFC, 0xFC, 0xFC, 0xFC,
     0x00, 0x00, 0x00, 0x00, 0x00, 0xFC, 0xFC, 0xFC, 0xFC, 0xFC,
     0xE0, 0xE0, 0xE0, 0xE0, 0xE0, 0xE0, 0xE0, 0xE0, 0xE0, 0xE0,
     0x1C, 0x1C, 0x1C, 0x1C, 0x1C, 0x1C, 0x1C, 0x1C, 0x1C, 0x1C,
     0xFC, 0xFC, 0xFC, 0xFC, 0xFC, 0x00, 0x00, 0x00, 0x00, 0x00]"

definition TextFont132COL_7 :: "u8 list" where
  "TextFont132COL_7 =
    [0x00, 0x00, 0x00, 0x34, 0x48, 0x48, 0x48, 0x34, 0x00, 0x00,
     0x00, 0x30, 0x48, 0x48, 0x58, 0x44, 0x44, 0x58, 0x40, 0x40,
     0x00, 0x7C, 0x40, 0x40, 0x40, 0x40, 0x40, 0x40, 0x00, 0x00,
     0x00, 0x00, 0x00, 0x7C, 0x28, 0x28, 0x28, 0x24, 0x00, 0x00,
     0x00, 0x7C, 0x40, 0x20, 0x10, 0x20, 0x40, 0x7C, 0x00, 0x00,
     0x00, 0x00, 0x00, 0x3C, 0x48, 0x44, 0x44, 0x38, 0x00, 0x00,
     0x00, 0x00, 0x00, 0x48, 0x48, 0x48, 0x48, 0x74, 0x40, 0x40,
     0x00, 0x00, 0x00, 0x7C, 0x10, 0x10, 0x10, 0x08, 0x00, 0x00,
     0x00, 0x10, 0x38, 0x54, 0x54, 0x54, 0x38, 0x10, 0x00, 0x00,
     0x00, 0x38, 0x44, 0x44, 0x7C, 0x44, 0x44, 0x38, 0x00, 0x00,
     0x00, 0x38, 0x44, 0x44, 0x44, 0x44, 0x28, 0x6C, 0x00, 0x00,
     0x00, 0x3C, 0x40, 0x38, 0x44, 0x44, 0x44, 0x38, 0x00, 0x00,
     0x00, 0x00, 0x28, 0x54, 0x54, 0x54, 0x28, 0x00, 0x00, 0x00,
     0x00, 0x10, 0x10, 0x38, 0x54, 0x54, 0x54, 0x38, 0x10, 0x10,
     0x00, 0x00, 0x00, 0x3C, 0x40, 0x38, 0x40, 0x3C, 0x00, 0x00,
     0x00, 0x00, 0x38, 0x44, 0x44, 0x44, 0x44, 0x00, 0x00, 0x00,
     0x00, 0x00, 0x7C, 0x00, 0x7C, 0x00, 0x7C, 0x00, 0x00, 0x00,
     0x00, 0x10, 0x10, 0x7C, 0x10, 0x10, 0x00, 0x7C, 0x00, 0x00,
     0x00, 0x60, 0x18, 0x04, 0x18, 0x60, 0x0C, 0x70, 0x00, 0x00,
     0x00, 0x0C, 0x30, 0x40, 0x30, 0x0C, 0x60, 0x1C, 0x00, 0x00,
     0x00, 0x00, 0x00, 0x08, 0x14, 0x10, 0x10, 0x10, 0x10, 0x10,
     0x00, 0x10, 0x10, 0x10, 0x10, 0x10, 0x50, 0x20, 0x00, 0x00,
     0x00, 0x00, 0x10, 0x00, 0x7C, 0x00, 0x10, 0x00, 0x00, 0x00,
     0x00, 0x00, 0x20, 0x54, 0x08, 0x20, 0x54, 0x08, 0x00, 0x00,
     0x00, 0x18, 0x24, 0x18, 0x00, 0x00, 0x00, 0x00, 0x00, 0x00,
     0x00, 0x00, 0x00, 0x10, 0x38, 0x10, 0x00, 0x00, 0x00, 0x00,
     0x00, 0x00, 0x00, 0x00, 0x10, 0x00, 0x00, 0x00, 0x00, 0x00,
     0x00, 0x1C, 0x10, 0x10, 0x10, 0x50, 0x30, 0x10, 0x00, 0x00,
     0x00, 0x00, 0x00, 0x30, 0x28, 0x28, 0x00, 0x00, 0x00, 0x00,
     0x00, 0x30, 0x08, 0x10, 0x20, 0x38, 0x00, 0x00, 0x00, 0x00,
     0x00, 0x7C, 0x7C, 0x7C, 0x7C, 0x7C, 0x7C, 0x7C, 0x00, 0x00,
     0x00, 0x00, 0x00, 0x00, 0x00, 0x00, 0x00, 0x00, 0x00, 0x00]"

definition TextFont132COL :: "u8 list" where
  "TextFont132COL = concat
    [TextFont132COL_0, TextFont132COL_1, TextFont132COL_2, TextFont132COL_3,
     TextFont132COL_4, TextFont132COL_5, TextFont132COL_6, TextFont132COL_7]"

lemma length_TextFont132COL_0 [simp]: "length TextFont132COL_0 = 320"
  by (simp add: TextFont132COL_0_def)

lemma length_TextFont132COL_1 [simp]: "length TextFont132COL_1 = 320"
  by (simp add: TextFont132COL_1_def)

lemma length_TextFont132COL_2 [simp]: "length TextFont132COL_2 = 320"
  by (simp add: TextFont132COL_2_def)

lemma length_TextFont132COL_3 [simp]: "length TextFont132COL_3 = 320"
  by (simp add: TextFont132COL_3_def)

lemma length_TextFont132COL_4 [simp]: "length TextFont132COL_4 = 320"
  by (simp add: TextFont132COL_4_def)

lemma length_TextFont132COL_5 [simp]: "length TextFont132COL_5 = 320"
  by (simp add: TextFont132COL_5_def)

lemma length_TextFont132COL_6 [simp]: "length TextFont132COL_6 = 320"
  by (simp add: TextFont132COL_6_def)

lemma length_TextFont132COL_7 [simp]: "length TextFont132COL_7 = 320"
  by (simp add: TextFont132COL_7_def)

lemma length_TextFont132COL: "length TextFont132COL = 2560"
  by (simp add: TextFont132COL_def)

end
