(* ===== verification/TtyDraw.thy ===== *)
theory TtyDraw
  imports TextFont TtyInv
begin

text \<open>
  Drawing text: \<^verbatim>\<open>src/src/text.c\<close> and \<open>TTYDraw\<close> of \<^verbatim>\<open>src/src/tty.c\<close>. The pixel
  buffer is a function on indices; reading outside the font or the text buffer and writing outside the pixel
  buffer is \<^term>\<open>None\<close>. What SDL makes of the finished rectangle is left out.
\<close>

section \<open>A character\<close>

abbreviation (input) "PIXELS \<equiv> 786432 :: nat"

type_synonym pixels = "nat \<Rightarrow> u32"

definition put_pixel :: "nat \<Rightarrow> u32 \<Rightarrow> pixels \<Rightarrow> pixels option" where
  "put_pixel p v buf = (if p < PIXELS then Some (buf(p := v)) else None)"

text \<open>The pixel in column \<open>cx\<close> of the font line at \<open>f\<close>.\<close>

definition font_pixel :: "u8 list \<Rightarrow> u32 \<Rightarrow> u32 \<Rightarrow> nat \<Rightarrow> nat \<Rightarrow> u32 option" where
  "font_pixel font fgcolor bgcolor f cx =
    (if f + cx div 8 < length font
     then Some (if drop_bit (7 - (cx mod 8)) (font ! (f + cx div 8)) AND 1 \<noteq> 0 then fgcolor else bgcolor) else None)"

text \<open>\<open>n\<close> columns of a line from column \<open>cx\<close> on; the line begins at index \<open>p\<close>.\<close>

fun blit_line :: "(nat \<Rightarrow> u32 option) \<Rightarrow> nat \<Rightarrow> nat \<Rightarrow> nat \<Rightarrow> pixels \<Rightarrow> pixels option" where
  "blit_line v 0 cx p buf = Some buf"
| "blit_line v (Suc n) cx p buf = do { x \<leftarrow> v cx; buf \<leftarrow> put_pixel (p + cx) x buf; blit_line v n (cx + 1) p buf }"

text \<open>The loop over lines for a narrow font, and the one that adds scan lines.\<close>

fun blit_doubled :: "(nat \<Rightarrow> nat \<Rightarrow> u32 option) \<Rightarrow> nat \<Rightarrow> nat \<Rightarrow> nat \<Rightarrow> nat \<Rightarrow> nat \<Rightarrow> nat \<Rightarrow> nat \<Rightarrow> pixels \<Rightarrow> pixels option" where
  "blit_doubled v fontwidth fontpitch destwidth 0 thisrow f p buf = Some buf"
| "blit_doubled v fontwidth fontpitch destwidth (Suc n) thisrow f p buf =
    (let (thisrow, f) = (if Suc n mod 2 = 1 then (thisrow, thisrow) else (f, f))
     in do {
       buf \<leftarrow> blit_line (v f) fontwidth 0 p buf;
       blit_doubled v fontwidth fontpitch destwidth n thisrow (f + fontpitch) (p + destwidth) buf })"

fun blit_scanlines :: "(nat \<Rightarrow> nat \<Rightarrow> u32 option) \<Rightarrow> nat \<Rightarrow> nat \<Rightarrow> nat \<Rightarrow> nat \<Rightarrow> nat \<Rightarrow> nat \<Rightarrow> pixels \<Rightarrow> pixels option" where
  "blit_scanlines v fontwidth fontpitch destwidth 0 f p buf = Some buf"
| "blit_scanlines v fontwidth fontpitch destwidth (Suc n) f p buf =
    (if Suc n mod 2 = 1 then do {
       buf \<leftarrow> blit_line (\<lambda>cx. Some 0) fontwidth 0 p buf;
       blit_scanlines v fontwidth fontpitch destwidth n f (p + destwidth) buf }
     else do {
       buf \<leftarrow> blit_line (v f) fontwidth 0 p buf;
       blit_scanlines v fontwidth fontpitch destwidth n (f + fontpitch) (p + destwidth) buf })"

definition TextBlitCharacter :: "nat \<Rightarrow> u8 list \<Rightarrow> nat \<Rightarrow> nat \<Rightarrow> nat \<Rightarrow> nat \<Rightarrow> nat \<Rightarrow> u32 \<Rightarrow> u32 \<Rightarrow> pixels \<Rightarrow> pixels option" where
  "TextBlitCharacter c font fontwidth fontheight x y destwidth fgcolor bgcolor buf =
    (let realheight = fontheight div 2;
         fontpitch = (fontwidth + 7) div 8;
         p = y * destwidth + x;
         f = c * fontpitch * realheight
     in if fontwidth < 8
        then blit_doubled (font_pixel font fgcolor bgcolor) fontwidth fontpitch destwidth fontheight f f p buf
        else blit_scanlines (font_pixel font fgcolor bgcolor) fontwidth fontpitch destwidth fontheight f p buf)"

section \<open>The dirty rectangle\<close>

definition TTYPalette :: "u32 list" where
  "TTYPalette = [0x000000, 0xFF0000, 0x007300, 0xFFFF00, 0x8373EE, 0xFF00FF, 0x00FFFF, 0xB4B4B4,
     0x393939, 0xF68373, 0x7BFFBD, 0xFFFFB4, 0xB4D5FF, 0xFF7BFF, 0xB4FFFF, 0xFFFFFF]"

text \<open>Width, height and bitmap of the font that \<open>TTYCreate\<close> chooses by the width of the terminal.\<close>

definition tty_font :: "TTY \<Rightarrow> nat \<times> nat \<times> u8 list" where
  "tty_font tty = (if sint (Width tty) < 132 then (10, 20, TextFont80COL) else (6, 20, TextFont132COL))"

text \<open>One cell; \<open>x\<close> and \<open>y\<close> count from the corner of the rectangle, \<open>addr\<close> is the index of its first cell.\<close>

definition draw_cell :: "TTY \<Rightarrow> nat \<Rightarrow> nat \<Rightarrow> nat \<Rightarrow> nat \<Rightarrow> pixels \<Rightarrow> pixels option" where
  "draw_cell tty addr width y x buf =
    (let (fw, fh, font) = tty_font tty;
         checkcurx = (if CursorX tty < Width tty then CursorX tty else Width tty - 1);
         i = addr + y * unat (Width tty) + x
     in if i < length (TextBuffer tty) then
          let cell = TextBuffer tty ! i;
              c = unat (cell AND 0x7F);
              fg = TTYPalette ! unat (drop_bit 8 cell AND 15);
              bg = TTYPalette ! unat (drop_bit 12 cell);
              cursor = (DirtyX1 tty + of_nat x = checkcurx \<and> DirtyY1 tty + of_nat y = CursorY tty \<and> \<not> IsCursorHidden tty)
          in if cursor then TextBlitCharacter c font fw fh (x * fw) (y * fh) (width * fw) bg fg buf
             else TextBlitCharacter c font fw fh (x * fw) (y * fh) (width * fw) fg bg buf
        else None)"

fun draw_row :: "TTY \<Rightarrow> nat \<Rightarrow> nat \<Rightarrow> nat \<Rightarrow> nat \<Rightarrow> nat \<Rightarrow> pixels \<Rightarrow> pixels option" where
  "draw_row tty addr width y x 0 buf = Some buf"
| "draw_row tty addr width y x (Suc n) buf = do { buf \<leftarrow> draw_cell tty addr width y x buf; draw_row tty addr width y (x + 1) n buf }"

fun draw_rows :: "TTY \<Rightarrow> nat \<Rightarrow> nat \<Rightarrow> nat \<Rightarrow> nat \<Rightarrow> pixels \<Rightarrow> pixels option" where
  "draw_rows tty addr width y 0 buf = Some buf"
| "draw_rows tty addr width y (Suc n) buf = do { buf \<leftarrow> draw_row tty addr width y 0 width buf; draw_rows tty addr width (y + 1) n buf }"

text \<open>The rectangle of the texture (x, y, width, height) with its pixels, and the terminal, clean again.\<close>

definition TTYDraw :: "TTY \<Rightarrow> pixels \<Rightarrow> ((int \<times> int \<times> int \<times> int \<times> pixels) option \<times> TTY) option" where
  "TTYDraw tty buf =
    (if \<not> IsDirty tty then Some (None, tty)
     else let (fw, fh, font) = tty_font tty;
              addr = unat (DirtyY1 tty * Width tty + DirtyX1 tty);
              width = sint (DirtyX2 tty - DirtyX1 tty + 1);
              height = sint (DirtyY2 tty - DirtyY1 tty + 1)
          in do {
            buf \<leftarrow> draw_rows tty addr (nat width) 0 (nat height) buf;
            Some (Some ((sint (DirtyX1 tty) + 2) * int fw, (sint (DirtyY1 tty) + 1) * int fh, width * int fw, height * int fh, buf),
                  tty\<lparr>IsDirty := False\<rparr>) })"

section \<open>Rectangles of pixels\<close>

text \<open>The buffer with \<open>g\<close> painted on the rectangle at column \<open>x\<close> and line \<open>y\<close>, \<open>w\<close> wide and \<open>h\<close> high.\<close>

definition paint :: "nat \<Rightarrow> nat \<Rightarrow> nat \<Rightarrow> nat \<Rightarrow> nat \<Rightarrow> (nat \<Rightarrow> nat \<Rightarrow> u32) \<Rightarrow> pixels \<Rightarrow> pixels" where
  "paint dw x y w h g buf = (\<lambda>q. if x \<le> q mod dw \<and> q mod dw < x + w \<and> y \<le> q div dw \<and> q div dw < y + h
     then g (q div dw - y) (q mod dw - x) else buf q)"

lemma paint_nothing [simp]: "paint dw x y w 0 g buf = buf"
  by (auto simp: paint_def fun_eq_iff)

lemma paint_below: "paint dw x (y + h) w h' g' (paint dw x y w h g buf) =
    paint dw x y w (h + h') (\<lambda>r c. if r < h then g r c else g' (r - h) c) buf"
  by (auto simp: paint_def fun_eq_iff)

lemma paint_two:
  "paint dw x (y + 1 + 1) w m (\<lambda>r. g (Suc (Suc r))) (paint dw x (y + 1) w 1 (\<lambda>r. g 1) (paint dw x y w 1 (\<lambda>r. g 0) buf)) =
    paint dw x y w (2 + m) g buf"
proof -
  have "(if r < 1 + 1 then if r < 1 then g 0 c else g 1 c else g (Suc (Suc (r - (1 + 1)))) c) = g r c" for r c
  proof (cases r)
    case (Suc k)
    then show ?thesis by (cases k) simp_all
  qed simp
  then have "(\<lambda>r c. if r < 1 + 1 then if r < 1 then g 0 c else g 1 c else g (Suc (Suc (r - (1 + 1)))) c) = g" by blast
  then show ?thesis using paint_below [of dw x y 1 w m "\<lambda>r. g (Suc (Suc r))"] unfolding add.assoc paint_below by (simp add: numeral_2_eq_2)
qed

lemma line_done:
  "(\<And>k. k < n \<Longrightarrow> v (cx + k) = Some (g (cx + k))) \<Longrightarrow> p + cx + n \<le> PIXELS \<Longrightarrow>
    blit_line v n cx p buf = Some (\<lambda>q. if p + cx \<le> q \<and> q < p + cx + n then g (q - p) else buf q)"
proof (induction n arbitrary: cx buf)
  case (Suc n)
  have v: "v cx = Some (g cx)" using Suc.prems(1) [of 0] by simp
  have "blit_line v n (cx + 1) p b = Some (\<lambda>q. if p + (cx + 1) \<le> q \<and> q < p + (cx + 1) + n then g (q - p) else b q)" for b
    by (rule Suc.IH) (use Suc.prems(1) [of "Suc k" for k] Suc.prems(2) in auto)
  then show ?case using v Suc.prems(2) by (auto simp: put_pixel_def fun_eq_iff)
qed (auto simp: fun_eq_iff)

lemma line_index:
  fixes q :: nat
  assumes "x + w \<le> dw" "0 < w"
  shows "y * dw + x \<le> q \<and> q < y * dw + x + w \<longleftrightarrow> q div dw = y \<and> x \<le> q mod dw \<and> q mod dw < x + w" (is "?l \<longleftrightarrow> ?r")
proof
  assume l: ?l
  have "q div dw = y" by (rule div_nat_eqI) (use l assms in \<open>auto simp: algebra_simps\<close>)
  then have "q = y * dw + q mod dw" by (metis div_mult_mod_eq)
  then show ?r using l \<open>q div dw = y\<close> by linarith
next
  assume r: ?r
  then have "q = y * dw + q mod dw" by (metis div_mult_mod_eq)
  then show ?l using r by linarith
qed

lemma line_paint:
  assumes "\<And>k. k < w \<Longrightarrow> v k = Some (g k)" "x + w \<le> dw" "0 < w" "y * dw + x + w \<le> PIXELS"
  shows "blit_line v w 0 (y * dw + x) buf = Some (paint dw x y w 1 (\<lambda>r. g) buf)"
proof -
  have "blit_line v w 0 (y * dw + x) buf = Some (\<lambda>q. if y * dw + x + 0 \<le> q \<and> q < y * dw + x + 0 + w then g (q - (y * dw + x)) else buf q)"
    by (rule line_done) (use assms(1,4) in simp_all)
  moreover have "q - (q div dw * dw + x) = q mod dw - x" for q
    by (metis diff_diff_left minus_div_mult_eq_mod)
  ultimately show ?thesis
    unfolding paint_def by (auto simp: line_index [OF assms(2,3)] fun_eq_iff less_Suc_eq_le intro: le_antisym)
qed

lemma odd_line [simp]: "Suc (n * 2) mod 2 = Suc 0"
  by presburger

text \<open>Two lines of a glyph, then the rest.\<close>

lemma doubled_paint:
  assumes "\<And>i k. i < n \<Longrightarrow> k < w \<Longrightarrow> v (f + i * pitch) k = Some (g i k)" "x + w \<le> dw" "0 < w" "(y + 2 * n) * dw \<le> PIXELS"
  shows "blit_doubled v w pitch dw (2 * n) t f (y * dw + x) buf = Some (paint dw x y w (2 * n) (\<lambda>r. g (r div 2)) buf)"
  using assms(1,4)
proof (induction n arbitrary: y f g t buf)
  case (Suc n)
  have room: "y' * dw + x + w \<le> PIXELS" if "y' < y + 2 * Suc n" for y'
  proof -
    have "(y' + 1) * dw \<le> (y + 2 * Suc n) * dw" using that by (intro mult_le_mono1) simp
    then show ?thesis using Suc.prems(2) assms(2) by simp
  qed
  have a: "blit_line (v f) w 0 (y * dw + x) b = Some (paint dw x y w 1 (\<lambda>r. g 0) b)"
    "blit_line (v f) w 0 (Suc y * dw + x) b = Some (paint dw x (Suc y) w 1 (\<lambda>r. g 0) b)" for b
    using Suc.prems(1) [of 0] by (intro line_paint assms(2,3) room; simp)+
  have "blit_doubled v w pitch dw (2 * n) f (f + pitch) (Suc (Suc y) * dw + x) b =
      Some (paint dw x (Suc (Suc y)) w (2 * n) (\<lambda>r. g (Suc (r div 2))) b)" for b
    by (rule Suc.IH) (use Suc.prems(1) [of "Suc i" for i] Suc.prems(2) in \<open>auto simp: algebra_simps\<close>)
  then have "blit_doubled v w pitch dw (2 * Suc n) t f (y * dw + x) buf =
      Some (paint dw x (y + 1 + 1) w (2 * n) (\<lambda>r. g (Suc (r div 2))) (paint dw x (y + 1) w 1 (\<lambda>r. g 0) (paint dw x y w 1 (\<lambda>r. g 0) buf)))"
    using a by (simp add: algebra_simps)
  also have "\<dots> = Some (paint dw x y w (2 * Suc n) (\<lambda>r. g (r div 2)) buf)"
    using paint_two [of dw x y w "2 * n" "\<lambda>r. g (r div 2)" buf] by simp
  finally show ?case .
qed simp

lemma scanlines_paint:
  assumes "\<And>i k. i < n \<Longrightarrow> k < w \<Longrightarrow> v (f + i * pitch) k = Some (g i k)" "x + w \<le> dw" "0 < w" "(y + 2 * n) * dw \<le> PIXELS"
  shows "blit_scanlines v w pitch dw (2 * n) f (y * dw + x) buf =
    Some (paint dw x y w (2 * n) (\<lambda>r c. if odd r then 0 else g (r div 2) c) buf)"
  using assms(1,4)
proof (induction n arbitrary: y f g buf)
  case (Suc n)
  have room: "y' * dw + x + w \<le> PIXELS" if "y' < y + 2 * Suc n" for y'
  proof -
    have "(y' + 1) * dw \<le> (y + 2 * Suc n) * dw" using that by (intro mult_le_mono1) simp
    then show ?thesis using Suc.prems(2) assms(2) by simp
  qed
  have a: "blit_line (v f) w 0 (y * dw + x) b = Some (paint dw x y w 1 (\<lambda>r. g 0) b)"
    "blit_line (\<lambda>cx. Some 0) w 0 (Suc y * dw + x) b = Some (paint dw x (Suc y) w 1 (\<lambda>r c. 0) b)" for b
    using Suc.prems(1) [of 0] by (intro line_paint assms(2,3) room; simp)+
  have "blit_scanlines v w pitch dw (2 * n) (f + pitch) (Suc (Suc y) * dw + x) b =
      Some (paint dw x (Suc (Suc y)) w (2 * n) (\<lambda>r c. if odd r then 0 else g (Suc (r div 2)) c) b)" for b
    by (rule Suc.IH) (use Suc.prems(1) [of "Suc i" for i] Suc.prems(2) in \<open>auto simp: algebra_simps\<close>)
  then have "blit_scanlines v w pitch dw (2 * Suc n) f (y * dw + x) buf =
      Some (paint dw x (y + 1 + 1) w (2 * n) (\<lambda>r c. if odd r then 0 else g (Suc (r div 2)) c)
        (paint dw x (y + 1) w 1 (\<lambda>r c. 0) (paint dw x y w 1 (\<lambda>r. g 0) buf)))"
    using a by (simp add: algebra_simps)
  also have "\<dots> = Some (paint dw x y w (2 * Suc n) (\<lambda>r c. if odd r then 0 else g (r div 2) c) buf)"
    using paint_two [of dw x y w "2 * n" "\<lambda>r c. if odd r then 0 else g (r div 2) c" buf] by (simp cong: if_cong)
  finally show ?case .
qed simp

section \<open>The reference picture\<close>

definition glyph_pixel :: "nat \<Rightarrow> u8 list \<Rightarrow> nat \<Rightarrow> u32 \<Rightarrow> u32 \<Rightarrow> nat \<Rightarrow> nat \<Rightarrow> u32" where
  "glyph_pixel fw font c fg bg r k =
    (if 8 \<le> fw \<and> odd r then 0
     else if bit (font ! ((c * 10 + r div 2) * ((fw + 7) div 8) + k div 8)) (7 - k mod 8) then fg else bg)"

text \<open>The pixel in column \<open>px\<close> and line \<open>py\<close> of the whole text area: its cell, in reverse under the cursor.\<close>

definition tty_pixel :: "TTY \<Rightarrow> nat \<Rightarrow> nat \<Rightarrow> u32" where
  "tty_pixel tty px py =
    (let (fw, fh, font) = tty_font tty;
         x = px div fw; y = py div fh;
         cell = TextBuffer tty ! (y * unat (Width tty) + x);
         fg = TTYPalette ! (unat cell div 256 mod 16); bg = TTYPalette ! (unat cell div 4096);
         cursor = (\<not> IsCursorHidden tty \<and> y = unat (CursorY tty) \<and> x = min (unat (CursorX tty)) (unat (Width tty) - 1))
     in glyph_pixel fw font (unat cell mod 128) (if cursor then bg else fg) (if cursor then fg else bg) (py mod fh) (px mod fw))"

lemma paint_cong:
  "(\<And>r c. r < h \<Longrightarrow> c < w \<Longrightarrow> g r c = g' r c) \<Longrightarrow> paint dw x y w h g buf = paint dw x y w h g' buf"
  by (auto simp: paint_def fun_eq_iff)

definition font_ok :: "nat \<Rightarrow> u8 list \<Rightarrow> bool" where
  "font_ok fw font \<longleftrightarrow> 0 < fw \<and> 2560 * ((fw + 7) div 8) \<le> length font"

lemma fonts_ok: "tty_font tty = (fw, fh, font) \<Longrightarrow> font_ok fw font \<and> fh = 20"
  by (auto simp: tty_font_def font_ok_def length_TextFont80COL length_TextFont132COL split: if_splits)

lemma glyph_value:
  assumes "font_ok fw font" "c < 128" "i < 10" "k < fw"
  shows "font_pixel font fg bg (c * ((fw + 7) div 8) * 10 + i * ((fw + 7) div 8)) k =
    Some (if bit (font ! ((c * 10 + i) * ((fw + 7) div 8) + k div 8)) (7 - k mod 8) then fg else bg)"
proof -
  let ?p = "(fw + 7) div 8"
  have e: "c * ?p * 10 + i * ?p = (c * 10 + i) * ?p" by (simp add: algebra_simps)
  have "k div 8 < ?p" using assms(4) by auto
  then have "(c * 10 + i) * ?p + k div 8 < (c * 10 + i + 1) * ?p" by simp
  also have "\<dots> \<le> 1280 * ?p" using assms(2,3) by (intro mult_le_mono1) simp
  finally have "(c * 10 + i) * ?p + k div 8 < length font" using assms(1) by (simp add: font_ok_def)
  then show ?thesis by (simp add: font_pixel_def e bit_iff_odd_drop_bit and_one_eq odd_iff_mod_2_eq_one)
qed

lemma blit_paint:
  assumes "font_ok fw font" "c < 128" "x + fw \<le> dw" "(y + 20) * dw \<le> PIXELS"
  shows "TextBlitCharacter c font fw 20 x y dw fg bg buf = Some (paint dw x y fw 20 (glyph_pixel fw font c fg bg) buf)"
proof -
  let ?p = "(fw + 7) div 8"
  let ?g = "\<lambda>i k. if bit (font ! ((c * 10 + i) * ?p + k div 8)) (7 - k mod 8) then fg else bg"
  have w: "0 < fw" using assms(1) by (simp add: font_ok_def)
  have v: "font_pixel font fg bg (c * ?p * 10 + i * ?p) k = Some (?g i k)" if "i < 10" "k < fw" for i k
    by (rule glyph_value [OF assms(1,2) that])
  have r: "(y + 2 * 10) * dw \<le> PIXELS" using assms(4) by simp
  show ?thesis
  proof (cases "fw < 8")
    case True
    then show ?thesis
      using doubled_paint [of 10 fw "font_pixel font fg bg" "c * ?p * 10" ?p ?g, OF v assms(3) w r]
      by (simp add: TextBlitCharacter_def Let_def glyph_pixel_def [abs_def] not_le cong: if_cong)
  next
    case False
    then show ?thesis
      using scanlines_paint [of 10 fw "font_pixel font fg bg" "c * ?p * 10" ?p ?g, OF v assms(3) w r]
      by (simp add: TextBlitCharacter_def Let_def glyph_pixel_def [abs_def] not_less cong: if_cong)
  qed
qed

lemma cell_fields: "unat (cell AND 0x7F) = unat cell mod 128" "unat (drop_bit 8 cell AND 15) = unat cell div 256 mod 16"
  "unat (drop_bit 12 cell) = unat cell div 4096" for cell :: u16
proof -
  have m: "(0x7F :: u16) = mask 7" "(15 :: u16) = mask 4" by (simp_all add: mask_eq_exp_minus_1)
  show "unat (cell AND 0x7F) = unat cell mod 128" "unat (drop_bit 8 cell AND 15) = unat cell div 256 mod 16"
    "unat (drop_bit 12 cell) = unat cell div 4096"
    unfolding m by (simp_all add: unat_and_mask unat_drop_bit)
qed

section \<open>The picture drawn\<close>

lemma quotient: "b < n \<Longrightarrow> (a * n + b) div n = a" "b < n \<Longrightarrow> (a * n + b) mod n = b" for a b n :: nat
  by simp_all

lemma cell_paint:
  assumes inv: "tty_inv tty" and font: "tty_font tty = (fw, fh, font)"
    and y: "y < h" "h = nat (sint (DirtyY2 tty - DirtyY1 tty + 1))"
    and x: "x < w" "w = nat (sint (DirtyX2 tty - DirtyX1 tty + 1))"
    and room: "h * 20 * (w * fw) \<le> PIXELS"
  shows "draw_cell tty (unat (DirtyY1 tty * Width tty + DirtyX1 tty)) w y x buf =
    Some (paint (w * fw) (x * fw) (y * 20) fw 20
      (\<lambda>r c. tty_pixel tty ((unat (DirtyX1 tty) + x) * fw + c) ((unat (DirtyY1 tty) + y) * 20 + r)) buf)"
proof -
  have f: "font_ok fw font" "fh = 20" "0 < fw" using fonts_ok [OF font] by (auto simp: font_ok_def)
  let ?X = "unat (DirtyX1 tty) + x" and ?Y = "unat (DirtyY1 tty) + y"
  note d = drawn_cell [OF inv y(1) [unfolded y(2)] x(1) [unfolded x(2)]]
  have b: "unat (Width tty) < 2 ^ 15" "unat (Height tty) < 2 ^ 15" using size_bounds [OF tty_invD(1) [OF inv]] by simp_all
  define cell where "cell = TextBuffer tty ! (?Y * unat (Width tty) + ?X)"
  define fg where "fg = TTYPalette ! (unat cell div 256 mod 16)"
  define bg where "bg = TTYPalette ! (unat cell div 4096)"
  define cursor where "cursor \<longleftrightarrow> \<not> IsCursorHidden tty \<and> ?Y = unat (CursorY tty) \<and> ?X = min (unat (CursorX tty)) (unat (Width tty) - 1)"
  have u: "unat (DirtyX1 tty + of_nat x) = ?X" "unat (DirtyY1 tty + of_nat y) = ?Y"
    using d(1,2) b by (simp_all add: unat_word_ariths unat_of_nat)
  have w0: "0 < Width tty" using tty_invD [OF inv] by simp
  have cx: "unat (if CursorX tty < Width tty then CursorX tty else Width tty - 1) = min (unat (CursorX tty)) (unat (Width tty) - 1)"
  proof -
    have "(1 :: u32) \<le> Width tty" using w0 by (simp add: word_le_nat_alt word_less_nat_alt)
    then have "unat (Width tty - 1) = unat (Width tty) - 1" by (simp add: unat_sub)
    then show ?thesis by (auto simp: min_def word_less_nat_alt)
  qed
  have cur: "(DirtyX1 tty + of_nat x = (if CursorX tty < Width tty then CursorX tty else Width tty - 1) \<and>
      DirtyY1 tty + of_nat y = CursorY tty \<and> \<not> IsCursorHidden tty) \<longleftrightarrow> cursor"
    unfolding word_unat_eq_iff u cx cursor_def by auto
  have "(y * 20 + 20) * (w * fw) \<le> h * 20 * (w * fw)" using y(1) by (intro mult_le_mono1) simp
  then have r: "(y * 20 + 20) * (w * fw) \<le> PIXELS" using room by linarith
  have xw: "x * fw + fw \<le> w * fw" using x(1) mult_le_mono1 [of "Suc x" w fw] by simp
  have p: "tty_pixel tty (?X * fw + c) (?Y * 20 + k) =
      glyph_pixel fw font (unat cell mod 128) (if cursor then bg else fg) (if cursor then fg else bg) k c" if "c < fw" "k < 20" for k c
  proof -
    show ?thesis
      unfolding tty_pixel_def font prod.case Let_def f(2) quotient [OF that(1)] quotient [OF that(2)] cell_def [symmetric]
        fg_def [symmetric] bg_def [symmetric] cursor_def [symmetric] ..
  qed
  have "draw_cell tty (unat (DirtyY1 tty * Width tty + DirtyX1 tty)) w y x buf =
      TextBlitCharacter (unat cell mod 128) font fw 20 (x * fw) (y * 20) (w * fw) (if cursor then bg else fg) (if cursor then fg else bg) buf"
    unfolding draw_cell_def font prod.case Let_def d(3) cell_def [symmetric] cell_fields fg_def [symmetric] bg_def [symmetric] cur f(2)
    using d(4) by simp
  also have "\<dots> = Some (paint (w * fw) (x * fw) (y * 20) fw 20
      (glyph_pixel fw font (unat cell mod 128) (if cursor then bg else fg) (if cursor then fg else bg)) buf)"
    by (rule blit_paint [OF f(1) _ xw r]) simp
  also have "\<dots> = Some (paint (w * fw) (x * fw) (y * 20) fw 20 (\<lambda>r c. tty_pixel tty (?X * fw + c) (?Y * 20 + r)) buf)"
    by (intro arg_cong [where f = Some] paint_cong p [symmetric])
  finally show ?thesis .
qed

text \<open>The same, by the index in the buffer: every pixel whose cell is this one.\<close>

lemma cell_index_paint:
  assumes "0 < fw" "x < w"
  shows "paint (w * fw) (x * fw) (y * 20) fw 20 (\<lambda>r c. g ((X + x) * fw + c) ((Y + y) * 20 + r)) buf =
    (\<lambda>q. if q mod (w * fw) div fw = x \<and> q div (w * fw) div 20 = y
      then g (X * fw + q mod (w * fw)) (Y * 20 + q div (w * fw)) else buf q)"
proof
  fix q
  have div: "a * n \<le> k \<and> k < a * n + n \<longleftrightarrow> k div n = a" if "0 < n" for a n k :: nat
    using that by (metis add.commute div_nat_eqI dividend_less_times_div div_times_less_eq_dividend le_add1 mult.commute mult_Suc_right)
  have a: "(X + x) * fw + (i - x * fw) = X * fw + i" if "x * fw \<le> i" for i using that by (simp add: algebra_simps)
  have b: "(Y + y) * 20 + (j - y * 20) = Y * 20 + j" if "y * 20 \<le> j" for j using that by (simp add: algebra_simps)
  show "paint (w * fw) (x * fw) (y * 20) fw 20 (\<lambda>r c. g ((X + x) * fw + c) ((Y + y) * 20 + r)) buf q =
    (if q mod (w * fw) div fw = x \<and> q div (w * fw) div 20 = y then g (X * fw + q mod (w * fw)) (Y * 20 + q div (w * fw)) else buf q)"
    unfolding paint_def using div [OF assms(1), of x "q mod (w * fw)"] div [of 20 y "q div (w * fw)"] a b by auto
qed

lemma rows_paint:
  assumes inv: "tty_inv tty" and font: "tty_font tty = (fw, fh, font)"
    and h: "h = nat (sint (DirtyY2 tty - DirtyY1 tty + 1))" and w: "w = nat (sint (DirtyX2 tty - DirtyX1 tty + 1))"
    and room: "h * 20 * (w * fw) \<le> PIXELS"
  defines "addr \<equiv> unat (DirtyY1 tty * Width tty + DirtyX1 tty)"
    and "val \<equiv> \<lambda>q. tty_pixel tty (unat (DirtyX1 tty) * fw + q mod (w * fw)) (unat (DirtyY1 tty) * 20 + q div (w * fw))"
  shows "y < h \<Longrightarrow> x + n \<le> w \<Longrightarrow> draw_row tty addr w y x n buf =
      Some (\<lambda>q. if x \<le> q mod (w * fw) div fw \<and> q mod (w * fw) div fw < x + n \<and> q div (w * fw) div 20 = y then val q else buf q)"
    and "y + k \<le> h \<Longrightarrow> draw_rows tty addr w y k buf =
      Some (\<lambda>q. if q mod (w * fw) div fw < w \<and> y \<le> q div (w * fw) div 20 \<and> q div (w * fw) div 20 < y + k then val q else buf q)"
proof -
  have f: "0 < fw" using fonts_ok [OF font] by (simp add: font_ok_def)
  have row: "draw_row tty addr w y x n buf =
      Some (\<lambda>q. if x \<le> q mod (w * fw) div fw \<and> q mod (w * fw) div fw < x + n \<and> q div (w * fw) div 20 = y then val q else buf q)"
    if "y < h" "x + n \<le> w" for y x n buf
    using that(2)
  proof (induction n arbitrary: x buf)
    case (Suc n)
    have x: "x < w" using Suc.prems by simp
    have "draw_cell tty addr w y x buf = Some (\<lambda>q. if q mod (w * fw) div fw = x \<and> q div (w * fw) div 20 = y then val q else buf q)"
      unfolding addr_def val_def cell_paint [OF inv font that(1) h x w room] cell_index_paint [OF f x] ..
    then show ?case using Suc.IH [of "x + 1"] Suc.prems by (auto simp: fun_eq_iff)
  qed (auto simp: fun_eq_iff)
  show "y < h \<Longrightarrow> x + n \<le> w \<Longrightarrow> draw_row tty addr w y x n buf =
      Some (\<lambda>q. if x \<le> q mod (w * fw) div fw \<and> q mod (w * fw) div fw < x + n \<and> q div (w * fw) div 20 = y then val q else buf q)"
    by (rule row)
  show "y + k \<le> h \<Longrightarrow> draw_rows tty addr w y k buf =
      Some (\<lambda>q. if q mod (w * fw) div fw < w \<and> y \<le> q div (w * fw) div 20 \<and> q div (w * fw) div 20 < y + k then val q else buf q)"
  proof (induction k arbitrary: y buf)
    case (Suc k)
    have "draw_row tty addr w y 0 w buf = Some (\<lambda>q. if q mod (w * fw) div fw < w \<and> q div (w * fw) div 20 = y then val q else buf q)"
      using row [of y 0 w buf] Suc.prems by simp
    then show ?case using Suc.IH [of "y + 1"] Suc.prems by (auto simp: fun_eq_iff)
  qed (auto simp: fun_eq_iff)
qed

lemma draw_dirty:
  assumes inv: "tty_inv tty" and font: "tty_font tty = (fw, fh, font)" and dirty: "IsDirty tty"
    and fits: "unat (Width tty) * fw * (unat (Height tty) * 20) \<le> PIXELS"
  defines "w \<equiv> nat (sint (DirtyX2 tty - DirtyX1 tty + 1))" and "h \<equiv> nat (sint (DirtyY2 tty - DirtyY1 tty + 1))"
  obtains pix where "TTYDraw tty buf = Some (Some ((int (unat (DirtyX1 tty)) + 2) * int fw, (int (unat (DirtyY1 tty)) + 1) * 20,
      sint (DirtyX2 tty - DirtyX1 tty + 1) * int fw, sint (DirtyY2 tty - DirtyY1 tty + 1) * 20, pix), tty\<lparr>IsDirty := False\<rparr>)"
    "\<And>i j. i < w * fw \<Longrightarrow> j < h * 20 \<Longrightarrow>
      pix (j * (w * fw) + i) = tty_pixel tty (unat (DirtyX1 tty) * fw + i) (unat (DirtyY1 tty) * 20 + j)"
proof -
  have f: "fh = 20" "0 < fw" using fonts_ok [OF font] by (auto simp: font_ok_def)
  have room: "h * 20 * (w * fw) \<le> PIXELS"
  proof (cases "h = 0 \<or> w = 0")
    case False
    have "w - 1 < unat (Width tty)" "h - 1 < unat (Height tty)"
      using False drawn_cell(1,2) [OF inv, of "h - 1" "w - 1"] by (simp_all add: w_def h_def)
    then have "w \<le> unat (Width tty)" "h \<le> unat (Height tty)" by linarith+
    then have "h * 20 * (w * fw) \<le> unat (Height tty) * 20 * (unat (Width tty) * fw)" by (intro mult_le_mono order_refl)
    then show ?thesis unfolding mult.commute [of "unat (Height tty) * 20"] using fits by (rule order_trans)
  qed auto
  define pix where "pix = (\<lambda>q. if q mod (w * fw) div fw < w \<and> 0 \<le> q div (w * fw) div 20 \<and> q div (w * fw) div 20 < 0 + h
    then tty_pixel tty (unat (DirtyX1 tty) * fw + q mod (w * fw)) (unat (DirtyY1 tty) * 20 + q div (w * fw)) else buf q)"
  have rows: "draw_rows tty (unat (DirtyY1 tty * Width tty + DirtyX1 tty)) w 0 h buf = Some pix"
    unfolding pix_def by (rule rows_paint(2) [OF inv font h_def [THEN meta_eq_to_obj_eq] w_def [THEN meta_eq_to_obj_eq] room]) simp
  have "DirtyX1 tty \<le> Width tty" "DirtyY1 tty < Height tty" using inv by (simp_all add: tty_inv_def tty_dirty_ok_def)
  then have "unat (DirtyX1 tty) < 2 ^ 31" "unat (DirtyY1 tty) < 2 ^ 31"
    using size_bounds [OF tty_invD(1) [OF inv]] by (simp_all add: word_le_nat_alt word_less_nat_alt)
  then have "sint (DirtyX1 tty) = int (unat (DirtyX1 tty))" "sint (DirtyY1 tty) = int (unat (DirtyY1 tty))"
    by (simp_all add: sint_small)
  then have d: "TTYDraw tty buf = Some (Some ((int (unat (DirtyX1 tty)) + 2) * int fw, (int (unat (DirtyY1 tty)) + 1) * 20,
      sint (DirtyX2 tty - DirtyX1 tty + 1) * int fw, sint (DirtyY2 tty - DirtyY1 tty + 1) * 20, pix), tty\<lparr>IsDirty := False\<rparr>)"
    unfolding TTYDraw_def font prod.case Let_def w_def [symmetric] h_def [symmetric] rows using dirty f(1) by simp
  show thesis
  proof (rule that [OF d])
    fix i j
    assume a: "i < w * fw" "j < h * 20"
    note q = quotient [OF a(1), of j]
    have "i div fw < w" "j div 20 < h" using a f(2) by (simp_all add: less_mult_imp_div_less)
    then show "pix (j * (w * fw) + i) = tty_pixel tty (unat (DirtyX1 tty) * fw + i) (unat (DirtyY1 tty) * 20 + j)"
      unfolding pix_def q by simp
  qed
qed

section \<open>Property\<close>



end
