(* ===== verification/Screens.thy ===== *)
theory Screens
  imports DbgSafe TtyDraw Keymaps Amtsu Serial KinnowFb
begin

text \<open>
  The screens of the emulator's window, \<^verbatim>\<open>src/src/screen.c\<close>, and one round of the main loop of
  \<^verbatim>\<open>src/src/main.c\<close>. A screen belongs to the framebuffer, to a serial port or to the debugger;
  its callbacks are the functions of that device. SDL delivers a list of events; what it shows is left out, but for the rectangle of
  pixels that a redraw hands to it. \<^term>\<open>None\<close> is an error exit or an access that C leaves undefined.
\<close>

section \<open>State\<close>

datatype ScreenKind = FramebufferScreen | SerialScreen nat | DebuggerScreen

record Screen =
  ScrWidth :: int
  ScrHeight :: int
  FirstDraw :: bool
  Kind :: ScreenKind

record Console =
  Screens :: "Screen list"
  ScreenCurrentID :: nat
  WindowWidth :: int
  WindowHeight :: int
  WindowRect :: "int \<times> int"
  ScreenZoom :: int
  ScreenFirstDraw :: bool
  ScreenMouseGrabbed :: bool
  IsAltDown :: bool
  PixelBufferTty :: pixels
  Dumped :: "u32 list list"
  Debugger :: Dbg

datatype SDLEvent = QuitEvent | WindowEvent | MouseMotion int int | MouseButtonDown int | MouseButtonUp int | KeyDown string | KeyUp string

abbreviation (input) "MAXSCREENS \<equiv> 16 :: nat"

definition ScreenCreate :: "int \<Rightarrow> int \<Rightarrow> ScreenKind \<Rightarrow> Console \<Rightarrow> Console option" where
  "ScreenCreate w h kind con =
    (if length (Screens con) \<ge> MAXSCREENS then None
     else Some (con\<lparr>Screens := Screens con @ [\<lparr>ScrWidth = w, ScrHeight = h, FirstDraw = True, Kind = kind\<rparr>],
            WindowWidth := (if w > WindowWidth con then w else WindowWidth con),
            WindowHeight := (if h > WindowHeight con then h else WindowHeight con)\<rparr>))"

definition KinnowCreateScreen :: "Console \<Rightarrow> Console option" where
  "KinnowCreateScreen = ScreenCreate 1024 768 FramebufferScreen"

text \<open>The call at the end of \<open>TTYCreate\<close>: the text area with its margins.\<close>

definition tty_screen :: "TTY \<Rightarrow> ScreenKind \<Rightarrow> Console \<Rightarrow> Console option" where
  "tty_screen tty kind =
    (let (fw, fh, font) = tty_font tty
     in ScreenCreate ((sint (Width tty) + 4) * int fw) ((sint (Height tty) + 2) * int fh) kind)"

text \<open>\<open>bounds\<close> is the size of the display, if SDL knows it.\<close>

definition ScreenInit :: "(int \<times> int) option \<Rightarrow> Console \<Rightarrow> Console" where
  "ScreenInit bounds con =
    con\<lparr>ScreenZoom := (case bounds of Some (w, h) \<Rightarrow> if h \<ge> WindowHeight con * 2 \<and> w \<ge> WindowWidth con * 2 then 2 else 1 | None \<Rightarrow> 1),
        WindowRect := (WindowWidth con, WindowHeight con), ScreenCurrentID := 0\<rparr>"

definition ScreenCurrent :: "Console \<Rightarrow> Screen" where
  "ScreenCurrent con = Screens con ! ScreenCurrentID con"

definition ScreenNext :: "Console \<Rightarrow> Console" where
  "ScreenNext con = con\<lparr>ScreenCurrentID := (if ScreenCurrentID con + 1 \<ge> length (Screens con) then 0 else ScreenCurrentID con + 1)\<rparr>"

definition ScreenPrev :: "Console \<Rightarrow> Console" where
  "ScreenPrev con = con\<lparr>ScreenCurrentID := (if ScreenCurrentID con = 0 then length (Screens con) - 1 else ScreenCurrentID con - 1)\<rparr>"

abbreviation con_machine :: "Console \<Rightarrow> Machine" where
  "con_machine con \<equiv> DbgMachine (Debugger con)"

definition set_machine :: "Machine \<Rightarrow> Console \<Rightarrow> Console" where
  "set_machine m con = con\<lparr>Debugger := (Debugger con)\<lparr>DbgMachine := m\<rparr>\<rparr>"

section \<open>Drawing\<close>

text \<open>The redraw of the device of a screen, with the rectangle for its texture.\<close>

definition screen_redraw :: "Console \<Rightarrow> ((int \<times> int \<times> int \<times> int \<times> pixels) option \<times> Console) option" where
  "screen_redraw con =
    (let m = con_machine con
     in case Kind (ScreenCurrent con) of
          FramebufferScreen \<Rightarrow>
            let (r, k) = KinnowDraw (Kinnow m)
            in Some (map_option (\<lambda>(x, y, w, h, ps). (x, y, w, h, (!) ps)) r, set_machine (set_kinnow k m) con)
        | SerialScreen n \<Rightarrow> do {
            (r, tty) \<leftarrow> TTYDraw (SerialTty (SerialPorts m n)) (PixelBufferTty con);
            let con = set_machine (set_port n ((SerialPorts m n)\<lparr>SerialTty := tty\<rparr>) m) con;
            Some (r, case r of Some (_, _, _, _, ps) \<Rightarrow> con\<lparr>PixelBufferTty := ps\<rparr> | None \<Rightarrow> con) }
        | DebuggerScreen \<Rightarrow> do {
            (r, tty) \<leftarrow> TTYDraw (DbgTty (Debugger con)) (PixelBufferTty con);
            let con = con\<lparr>Debugger := (Debugger con)\<lparr>DbgTty := tty\<rparr>\<rparr>;
            Some (r, case r of Some (_, _, _, _, ps) \<Rightarrow> con\<lparr>PixelBufferTty := ps\<rparr> | None \<Rightarrow> con) })"

definition ScreenDraw :: "Console \<Rightarrow> ((int \<times> int \<times> int \<times> int \<times> pixels) option \<times> Console) option" where
  "ScreenDraw con = do {
     (r, con) \<leftarrow> screen_redraw con;
     let s = ScreenCurrent con;
     Some (r, con\<lparr>Screens := (Screens con)[ScreenCurrentID con := s\<lparr>FirstDraw := False\<rparr>],
        WindowRect := (ScrWidth s, ScrHeight s), ScreenFirstDraw := False\<rparr>) }"

text \<open>The picture \<open>KinnowDump\<close> writes to its file.\<close>

definition KinnowDump :: "KinnowState \<Rightarrow> u32 list" where
  "KinnowDump k = map (\<lambda>i. KinnowPalette k (unat (KinnowFB k i)) OR 0xFF000000) [0..<unat (FBSize k)]"

section \<open>Events\<close>

definition screen_key_pressed :: "CitronTable \<Rightarrow> (nat \<Rightarrow> u32) \<Rightarrow> string \<Rightarrow> Console \<Rightarrow> Console option" where
  "screen_key_pressed ports junk key con =
    (let m = con_machine con; d = Debugger con
     in case Kind (ScreenCurrent con) of
          FramebufferScreen \<Rightarrow> Some (set_machine (KeyboardPressed (key_entry KeyMap key) m) con)
        | SerialScreen n \<Rightarrow>
            let (cs, tty) = TTYKeyPressed key (SerialTty (SerialPorts m n))
            in Some (set_machine (fold (SerialInput n) cs (set_port n ((SerialPorts m n)\<lparr>SerialTty := tty\<rparr>) m)) con)
        | DebuggerScreen \<Rightarrow>
            let (cs, tty) = TTYKeyPressed key (DbgTty d)
            in map_option (\<lambda>d. con\<lparr>Debugger := d\<rparr>) (fold (\<lambda>c r. r \<bind> DbgInput ports junk c) cs (Some (d\<lparr>DbgTty := tty\<rparr>))))"

definition screen_key_released :: "string \<Rightarrow> Console \<Rightarrow> Console" where
  "screen_key_released key con =
    (let m = con_machine con; d = Debugger con
     in case Kind (ScreenCurrent con) of
          FramebufferScreen \<Rightarrow> set_machine (KeyboardReleased (key_entry KeyMap key) m) con
        | SerialScreen n \<Rightarrow>
            set_machine (set_port n ((SerialPorts m n)\<lparr>SerialTty := TTYKeyReleased key (SerialTty (SerialPorts m n))\<rparr>) m) con
        | DebuggerScreen \<Rightarrow> con\<lparr>Debugger := d\<lparr>DbgTty := TTYKeyReleased key (DbgTty d)\<rparr>\<rparr>)"

text \<open>The mouse callbacks, which only the framebuffer has.\<close>

definition screen_mouse :: "(Machine \<Rightarrow> Machine) \<Rightarrow> Console \<Rightarrow> Console" where
  "screen_mouse f con = (if Kind (ScreenCurrent con) = FramebufferScreen then set_machine (f (con_machine con)) con else con)"

definition user_break :: "Machine \<Rightarrow> Machine option" where
  "user_break m =
    (if XrProcessorPresent m 0 then Some (m\<lparr>XrProcessorTable := (XrProcessorTable m)(0 := (XrProcessorTable m 0)\<lparr>UserBreak := True\<rparr>)\<rparr>)
     else None)"

text \<open>The chords with the left Alt key.\<close>

definition alt_key :: "string \<Rightarrow> Console \<Rightarrow> Console option" where
  "alt_key key con =
    (if key = ''LALT'' then Some (con\<lparr>IsAltDown := True\<rparr>)
     else if key = ''TAB'' \<and> IsAltDown con then map_option (\<lambda>m. set_machine m con) (user_break (con_machine con))
     else if key = ''F1'' \<and> IsAltDown con then Some (con\<lparr>Dumped := KinnowDump (Kinnow (con_machine con)) # Dumped con\<rparr>)
     else Some con)"

definition key_down :: "CitronTable \<Rightarrow> (nat \<Rightarrow> u32) \<Rightarrow> string \<Rightarrow> Console \<Rightarrow> Console option" where
  "key_down ports junk key con =
    (if key = ''F12'' \<and> ScreenMouseGrabbed con then Some (con\<lparr>ScreenMouseGrabbed := False\<rparr>)
     else if key = ''RALT'' then Some (ScreenNext con)
     else alt_key key con \<bind> screen_key_pressed ports junk key)"

definition key_up :: "string \<Rightarrow> Console \<Rightarrow> Console" where
  "key_up key con = screen_key_released key (if key = ''LALT'' then con\<lparr>IsAltDown := False\<rparr> else con)"

fun screen_event :: "CitronTable \<Rightarrow> (nat \<Rightarrow> u32) \<Rightarrow> SDLEvent \<Rightarrow> Console \<Rightarrow> Console option" where
  "screen_event ports junk QuitEvent con = Some con"
| "screen_event ports junk WindowEvent con = Some con"
| "screen_event ports junk (MouseMotion x y) con = Some (if ScreenMouseGrabbed con then screen_mouse (MouseMoved x y) con else con)"
| "screen_event ports junk (MouseButtonDown b) con =
    Some (if \<not> ScreenMouseGrabbed con then con\<lparr>ScreenMouseGrabbed := True\<rparr> else screen_mouse (MousePressed b) con)"
| "screen_event ports junk (MouseButtonUp b) con = Some (screen_mouse (MouseReleased b) con)"
| "screen_event ports junk (KeyDown key) con = key_down ports junk key con"
| "screen_event ports junk (KeyUp key) con = Some (key_up key con)"

text \<open>All events that wait; \<^term>\<open>True\<close> as soon as the window is closed.\<close>

fun ScreenProcessEvents :: "CitronTable \<Rightarrow> (nat \<Rightarrow> u32) \<Rightarrow> SDLEvent list \<Rightarrow> Console \<Rightarrow> (bool \<times> Console) option" where
  "ScreenProcessEvents ports junk [] con = Some (False, con)"
| "ScreenProcessEvents ports junk (e # es) con =
    (if e = QuitEvent then Some (True, con)
     else do { con \<leftarrow> screen_event ports junk e con; ScreenProcessEvents ports junk es con })"

text \<open>
  A round of \<open>MainLoop\<close>: \<open>dt\<close> is the time since the last one, \<open>start\<close> as in
  \<open>XrScheduleAllNextFrameWork\<close>.
\<close>

definition main_round :: "CitronTable \<Rightarrow> (nat \<Rightarrow> u32) \<Rightarrow> (nat \<Rightarrow> int \<Rightarrow> int \<Rightarrow> int) \<Rightarrow> int \<Rightarrow> SDLEvent list \<Rightarrow> Console \<Rightarrow> (bool \<times> Console) option" where
  "main_round ports junk start dt es con = do {
     (r, con) \<leftarrow> ScreenDraw con;
     (stop, con) \<leftarrow> ScreenProcessEvents ports junk es con;
     let m = SerialInterval (con_machine con);
     Some (stop, set_machine (m\<lparr>Sched := XrScheduleAllNextFrameWork start dt (Sched m)\<rparr>) con) }"

section \<open>What an event reaches\<close>

text \<open>The machine without what input may change: the keyboard and mouse, the serial ports, interrupts pending and processors.\<close>

definition quiet :: "Machine \<Rightarrow> Machine" where
  "quiet m = m\<lparr>Amtsu := amtsu_zero, SerialPorts := (\<lambda>_. serial_zero), LsicTab := (\<lambda>_. LsicZero), Crashed := False,
     XrProcessorTable := (\<lambda>_. proc_zero)\<rparr>"

lemma quiet_upd [simp]:
  "quiet (m\<lparr>Amtsu := a\<rparr>) = quiet m" "quiet (m\<lparr>SerialPorts := b\<rparr>) = quiet m" "quiet (m\<lparr>LsicTab := c\<rparr>) = quiet m"
  "quiet (m\<lparr>Crashed := e\<rparr>) = quiet m" "quiet (m\<lparr>XrProcessorTable := f\<rparr>) = quiet m"
  by (simp_all add: quiet_def)

lemma interrupt_keeps [simp]:
  "Amtsu (machine_interrupt n m) = Amtsu m" "SerialPorts (machine_interrupt n m) = SerialPorts m"
  "quiet (machine_interrupt n m) = quiet m"
  by (auto simp: machine_interrupt_def split: option.split)

lemma keyboard_keeps [simp]:
  "SerialPorts (KeyboardPressed c m) = SerialPorts m" "quiet (KeyboardPressed c m) = quiet m"
  "SerialPorts (KeyboardReleased c m) = SerialPorts m" "quiet (KeyboardReleased c m) = quiet m"
  "SerialPorts (MousePressed b m) = SerialPorts m" "quiet (MousePressed b m) = quiet m"
  "SerialPorts (MouseReleased b m) = SerialPorts m" "quiet (MouseReleased b m) = quiet m"
  "SerialPorts (MouseMoved x y m) = SerialPorts m" "quiet (MouseMoved x y m) = quiet m"
  by (simp_all add: KeyboardPressed_def KeyboardReleased_def MousePressed_def MouseReleased_def MouseMoved_def device_interrupt_def
      Let_def)

lemma serial_keeps [simp]:
  "Amtsu (SerialInput n c m) = Amtsu m" "quiet (SerialInput n c m) = quiet m" "i \<noteq> n \<Longrightarrow> SerialPorts (SerialInput n c m) i = SerialPorts m i"
  "Amtsu (set_port n port m) = Amtsu m" "quiet (set_port n port m) = quiet m" "i \<noteq> n \<Longrightarrow> SerialPorts (set_port n port m) i = SerialPorts m i"
  by (simp_all add: SerialInput_def set_port_def Let_def)

lemma serial_fold [simp]:
  "Amtsu (fold (SerialInput n) cs m) = Amtsu m" "quiet (fold (SerialInput n) cs m) = quiet m"
  "i \<noteq> n \<Longrightarrow> SerialPorts (fold (SerialInput n) cs m) i = SerialPorts m i"
  by (induction cs arbitrary: m) simp_all

lemma break_keeps:
  "user_break m = Some m' \<Longrightarrow> Amtsu m' = Amtsu m \<and> SerialPorts m' = SerialPorts m \<and> quiet m' = quiet m"
  by (auto simp: user_break_def split: if_splits)

text \<open>What may differ between two states of the console when an event went to screen \<open>k\<close>.\<close>

definition reached :: "ScreenKind \<Rightarrow> Console \<Rightarrow> Console \<Rightarrow> bool" where
  "reached k con con' \<longleftrightarrow>
     (k \<noteq> DebuggerScreen \<longrightarrow> (Debugger con')\<lparr>DbgMachine := machine_zero\<rparr> = (Debugger con)\<lparr>DbgMachine := machine_zero\<rparr> \<and>
        quiet (con_machine con') = quiet (con_machine con)) \<and>
     (k = FramebufferScreen \<longrightarrow> SerialPorts (con_machine con') = SerialPorts (con_machine con)) \<and>
     (\<forall>n. k = SerialScreen n \<longrightarrow> Amtsu (con_machine con') = Amtsu (con_machine con) \<and>
        (\<forall>i. i \<noteq> n \<longrightarrow> SerialPorts (con_machine con') i = SerialPorts (con_machine con) i))"

lemma reached_refl [simp]: "reached k con con"
  by (simp add: reached_def)

lemma reached_same: "Debugger con' = Debugger con \<Longrightarrow> reached k con con'"
  by (simp add: reached_def)

lemma reached_trans: "reached k a b \<Longrightarrow> reached k b c \<Longrightarrow> reached k a c"
  by (auto simp: reached_def)

lemma pressed_reached:
  assumes "screen_key_pressed ports junk key con = Some con'"
  shows "reached (Kind (ScreenCurrent con)) con con' \<and> Screens con' = Screens con \<and> ScreenCurrentID con' = ScreenCurrentID con"
  using assms by (auto simp: screen_key_pressed_def Let_def set_machine_def reached_def split: ScreenKind.splits prod.splits)

lemma released_reached: "reached (Kind (ScreenCurrent con)) con (screen_key_released key con)"
  by (auto simp: screen_key_released_def Let_def set_machine_def reached_def split: ScreenKind.splits)

lemma mouse_reached:
  assumes "\<And>m. SerialPorts (f m) = SerialPorts m" "\<And>m. quiet (f m) = quiet m"
  shows "reached (Kind (ScreenCurrent con)) con (screen_mouse f con)"
  using assms by (auto simp: screen_mouse_def set_machine_def reached_def)

lemma alt_reached: "alt_key key con = Some con1 \<Longrightarrow> reached k con con1 \<and> ScreenCurrent con1 = ScreenCurrent con"
  by (auto simp: alt_key_def ScreenCurrent_def set_machine_def reached_def dest!: break_keeps split: if_splits)

lemma down_reached:
  assumes "key_down ports junk key con = Some con'"
  shows "reached (Kind (ScreenCurrent con)) con con'"
proof (cases "key = ''F12'' \<and> ScreenMouseGrabbed con \<or> key = ''RALT''")
  case True
  then show ?thesis using assms by (auto simp: key_down_def ScreenNext_def intro!: reached_same split: if_splits)
next
  case False
  then obtain con1 where c: "alt_key key con = Some con1" "screen_key_pressed ports junk key con1 = Some con'"
    using assms by (auto simp: key_down_def split: bind_splits)
  show ?thesis using pressed_reached [OF c(2)] alt_reached [OF c(1)] reached_trans by metis
qed

section \<open>Property\<close>


definition con_sample :: "ScreenKind \<Rightarrow> Console" where
  "con_sample kind = \<lparr>Screens = [\<lparr>ScrWidth = 1024, ScrHeight = 768, FirstDraw = True, Kind = kind\<rparr>], ScreenCurrentID = 0,
     WindowWidth = 1024, WindowHeight = 768, WindowRect = (1024, 768), ScreenZoom = 1, ScreenFirstDraw = True, ScreenMouseGrabbed = True,
     IsAltDown = False, PixelBufferTty = (\<lambda>_. 0), Dumped = [],
     Debugger = \<lparr>DbgTty = TTYCreate 132 24, Cmdline = (\<lambda>_. 0), CmdIndex = 0, TokenBuf = [], CmdNextToken = None, DbgSelectedCpu = 0,
       DbgMachine = machine_zero\<rparr>\<rparr>"


end
