(* ===== verification/ClaimTable.thy ===== *)
theory ClaimTable
  imports XrPrelude
begin

text \<open>
  The claim tables of the FASTMEMORY build, \<^verbatim>\<open>src/src/xrfastaccess.inc.c\<close>: load-linked and
  store-conditional without caches. Every processor has a first-level table of claims and all
  share a second-level table; a claim is a pair of entries that point to each other. The first part holds
  \<open>XrClaimAddress\<close> and \<open>XrStoreIfClaimed\<close> of the single-threaded build as functions; the
  second the multi-threaded ones as a transition system, one access to shared memory
  or one lock operation per step. The locks are those of theory \<open>FastMutex\<close>.
\<close>

section \<open>The tables\<close>

abbreviation (input) "XR_L1_CLAIM_TABLE_SIZE \<equiv> 101 :: u32"
abbreviation (input) "XR_L2_CLAIM_TABLE_SIZE \<equiv> 3637 :: u32"

definition XR_CLAIM_HASH :: "u32 \<Rightarrow> u32" where
  "XR_CLAIM_HASH phyaddr = drop_bit 2 phyaddr XOR drop_bit 12 phyaddr"

definition XR_L2_CLAIM_INDEX :: "u32 \<Rightarrow> nat" where
  "XR_L2_CLAIM_INDEX phyaddr = unat (XR_CLAIM_HASH phyaddr mod XR_L2_CLAIM_TABLE_SIZE)"

definition XR_L1_CLAIM_INDEX :: "u32 \<Rightarrow> nat" where
  "XR_L1_CLAIM_INDEX phyaddr = unat (XR_CLAIM_HASH phyaddr mod XR_L1_CLAIM_TABLE_SIZE)"

text \<open>\<open>OtherEntry\<close>: an entry of a first-level table is a processor and an index.\<close>

type_synonym L1Entry = "nat \<times> nat"

record XrClaims =
  L1Other :: "L1Entry \<Rightarrow> nat option"
  L2Other :: "nat \<Rightarrow> L1Entry option"

definition claims_init :: XrClaims where
  "claims_init = \<lparr>L1Other = (\<lambda>_. None), L2Other = (\<lambda>_. None)\<rparr>"

section \<open>One thread\<close>

text \<open>The claim that a first-level entry stands for is given up, on both sides.\<close>

definition claim_drop :: "L1Entry \<Rightarrow> XrClaims \<Rightarrow> XrClaims" where
  "claim_drop l1 c =
    (case L1Other c l1 of
       Some other \<Rightarrow> c\<lparr>L2Other := (L2Other c)(other := None), L1Other := (L1Other c)(l1 := None)\<rparr>
     | None \<Rightarrow> c)"

text \<open>A second-level entry is taken from the entry it refers to.\<close>

definition claim_take :: "L1Entry \<Rightarrow> nat \<Rightarrow> XrClaims \<Rightarrow> XrClaims" where
  "claim_take l1 l2 c =
    (let c = (case L2Other c l2 of
                Some remote \<Rightarrow> c\<lparr>L1Other := (L1Other c)(remote := None)\<rparr>
              | None \<Rightarrow> c)
     in c\<lparr>L2Other := (L2Other c)(l2 := Some l1), L1Other := (L1Other c)(l1 := Some l2)\<rparr>)"

text \<open>The claims after \<open>XrClaimAddress\<close>; it also returns the word at \<open>hostaddr\<close>.\<close>

definition XrClaimAddress :: "nat \<Rightarrow> u32 \<Rightarrow> XrClaims \<Rightarrow> XrClaims" where
  "XrClaimAddress p phyaddr c =
    (let l1 = (p, XR_L1_CLAIM_INDEX phyaddr); l2 = XR_L2_CLAIM_INDEX phyaddr
     in if L1Other c l1 = Some l2 then c else claim_take l1 l2 (claim_drop l1 c))"

text \<open>Whether \<open>XrStoreIfClaimed\<close> stores.\<close>

definition XrStoreIfClaimed :: "nat \<Rightarrow> u32 \<Rightarrow> XrClaims \<Rightarrow> bool" where
  "XrStoreIfClaimed p phyaddr c \<longleftrightarrow>
     L1Other c (p, XR_L1_CLAIM_INDEX phyaddr) = Some (XR_L2_CLAIM_INDEX phyaddr)"

text \<open>The entries of the two tables point to each other.\<close>

definition claims_ok :: "XrClaims \<Rightarrow> bool" where
  "claims_ok c \<longleftrightarrow> (\<forall>x b. L1Other c x = Some b \<longleftrightarrow> L2Other c b = Some x)"

lemma claims_init_ok: "claims_ok claims_init"
  by (simp add: claims_ok_def claims_init_def)

lemma claims_okD: "claims_ok c \<Longrightarrow> L1Other c x = Some b \<longleftrightarrow> L2Other c b = Some x"
  by (simp add: claims_ok_def del: split_paired_All)

lemma claim_drop_none: "claims_ok c \<Longrightarrow> L1Other (claim_drop x c) x = None"
  by (cases "L1Other c x") (simp_all add: claim_drop_def)

lemma claim_drop_ok:
  assumes "claims_ok c"
  shows "claims_ok (claim_drop x c)"
proof (cases "L1Other c x")
  case None
  then show ?thesis using assms by (simp add: claim_drop_def)
next
  case (Some e)
  show ?thesis unfolding claims_ok_def
  proof (intro allI)
    fix y d
    have r: "L1Other c z = Some k \<longleftrightarrow> L2Other c k = Some z" for z k using claims_okD [OF assms] .
    have e: "L2Other c d = Some x \<longleftrightarrow> d = e" using r [of x d] Some by auto
    show "L1Other (claim_drop x c) y = Some d \<longleftrightarrow> L2Other (claim_drop x c) d = Some y"
    proof (cases "y = x")
      case True
      then show ?thesis using e Some by (simp add: claim_drop_def)
    next
      case False
      then have "L2Other c e \<noteq> Some y" using r [of x e] Some by simp
      then show ?thesis using False r [of y d] Some by (cases "d = e") (simp_all add: claim_drop_def)
    qed
  qed
qed

lemma claim_take_ok:
  assumes "claims_ok c" "L1Other c x = None"
  shows "claims_ok (claim_take x b c)"
  unfolding claims_ok_def
proof (intro allI)
  fix y d
  have "L2Other c d \<noteq> Some x" using claims_okD [OF assms(1), of x d] assms(2) by simp
  then show "L1Other (claim_take x b c) y = Some d \<longleftrightarrow> L2Other (claim_take x b c) d = Some y"
    using claims_okD [OF assms(1), of y d] claims_okD [OF assms(1), of y b]
    by (cases "L2Other c b"; cases "y = x"; cases "d = b") (auto simp: claim_take_def)
qed

lemma claim_ok: "claims_ok c \<Longrightarrow> claims_ok (XrClaimAddress p a c)"
  by (simp add: XrClaimAddress_def Let_def claim_drop_ok claim_drop_none claim_take_ok)

lemma claim_takes: "XrStoreIfClaimed p a (XrClaimAddress p a c)"
  by (simp add: XrStoreIfClaimed_def XrClaimAddress_def claim_take_def Let_def)

lemma claim_revokes:
  "claims_ok c \<Longrightarrow> q \<noteq> p \<Longrightarrow> \<not> XrStoreIfClaimed q a (XrClaimAddress p a c)"
  using claim_ok [of c p a] claim_takes [of p a c] by (fastforce simp: claims_ok_def XrStoreIfClaimed_def)

section \<open>Many threads\<close>

text \<open>
  Where a processor is in \<open>XrClaimAddress\<close> (\<open>Ll...\<close>, lines 9-66) or \<open>XrStoreIfClaimed\<close> (\<open>Sc...\<close>,
  lines 68-85), named after what it does next. \<open>remotel1entry\<close> is the entry argument.
\<close>

datatype ClaimPc = CIdle
  | LlLock u32 | LlTest u32 | LlHitRead u32 | LlHitUnlock u32 u32
  | LlDropOther u32 nat | LlDrop u32 | LlUnlock u32
  | LlLock2 u32 | LlRemote u32 | LlLockRemote u32 L1Entry | LlCheck u32 L1Entry | LlRevoke u32 L1Entry | LlUnlockRemote u32 L1Entry
  | LlSet2 u32 | LlSet1 u32 | LlRead u32 | LlUnlock2 u32 u32
  | ScLock u32 u32 | ScTest u32 u32 | ScStore u32 u32 | ScUnlock u32

text \<open>
  The locks hold their owners. \<open>ClaimMem\<close> is the memory in words. \<open>LastLl\<close> is the address and value of the last
  load-linked of a processor until it is used up by a store: it is read only by the guard of a
  store-conditional, which a program executes for the address of its last load-linked.
\<close>

record ClaimSystem = XrClaims +
  L1Lock :: "L1Entry \<Rightarrow> nat option"
  L2Lock :: "nat \<Rightarrow> nat option"
  ClaimMem :: "u32 \<Rightarrow> u32"
  ClaimAt :: "nat \<Rightarrow> ClaimPc"
  LastLl :: "nat \<Rightarrow> (u32 \<times> u32) option"

definition goto :: "nat \<Rightarrow> ClaimPc \<Rightarrow> ClaimSystem \<Rightarrow> ClaimSystem" where
  "goto p c s = s\<lparr>ClaimAt := (ClaimAt s)(p := c)\<rparr>"

text \<open>A lock that is held blocks.\<close>

definition lock1 :: "nat \<Rightarrow> L1Entry \<Rightarrow> ClaimSystem \<Rightarrow> ClaimSystem option" where
  "lock1 p x s = (if L1Lock s x = None then Some (s\<lparr>L1Lock := (L1Lock s)(x := Some p)\<rparr>) else None)"

definition lock2 :: "nat \<Rightarrow> nat \<Rightarrow> ClaimSystem \<Rightarrow> ClaimSystem option" where
  "lock2 p b s = (if L2Lock s b = None then Some (s\<lparr>L2Lock := (L2Lock s)(b := Some p)\<rparr>) else None)"

definition unlock1 :: "L1Entry \<Rightarrow> ClaimSystem \<Rightarrow> ClaimSystem" where
  "unlock1 x s = s\<lparr>L1Lock := (L1Lock s)(x := None)\<rparr>"

definition unlock2 :: "nat \<Rightarrow> ClaimSystem \<Rightarrow> ClaimSystem" where
  "unlock2 b s = s\<lparr>L2Lock := (L2Lock s)(b := None)\<rparr>"

definition returned :: "nat \<Rightarrow> u32 \<Rightarrow> u32 \<Rightarrow> ClaimSystem \<Rightarrow> ClaimSystem" where
  "returned p a v s = goto p CIdle (s\<lparr>LastLl := (LastLl s)(p := Some (a, v))\<rparr>)"

text \<open>The next step of processor \<open>p\<close>; \<^term>\<open>None\<close> when it waits for a lock or is outside.\<close>

definition claim_next :: "nat \<Rightarrow> ClaimSystem \<Rightarrow> ClaimSystem option" where
  "claim_next p s =
    (case ClaimAt s p of
       CIdle \<Rightarrow> None
     | LlLock a \<Rightarrow> map_option (goto p (LlTest a)) (lock1 p (p, XR_L1_CLAIM_INDEX a) s)
     | LlTest a \<Rightarrow> Some (goto p (case L1Other s (p, XR_L1_CLAIM_INDEX a) of
           None \<Rightarrow> LlUnlock a
         | Some b \<Rightarrow> if b = XR_L2_CLAIM_INDEX a then LlHitRead a else LlDropOther a b) s)
     | LlHitRead a \<Rightarrow> Some (goto p (LlHitUnlock a (ClaimMem s a)) s)
     | LlHitUnlock a v \<Rightarrow> Some (returned p a v (unlock1 (p, XR_L1_CLAIM_INDEX a) s))
     | LlDropOther a b \<Rightarrow> Some (goto p (LlDrop a) (s\<lparr>L2Other := (L2Other s)(b := None)\<rparr>))
     | LlDrop a \<Rightarrow> Some (goto p (LlUnlock a) (s\<lparr>L1Other := (L1Other s)((p, XR_L1_CLAIM_INDEX a) := None)\<rparr>))
     | LlUnlock a \<Rightarrow> Some (goto p (LlLock2 a) (unlock1 (p, XR_L1_CLAIM_INDEX a) s))
     | LlLock2 a \<Rightarrow> map_option (goto p (LlRemote a)) (lock2 p (XR_L2_CLAIM_INDEX a) s)
     | LlRemote a \<Rightarrow> Some (goto p (case L2Other s (XR_L2_CLAIM_INDEX a) of
           None \<Rightarrow> LlSet2 a | Some r \<Rightarrow> LlLockRemote a r) s)
     | LlLockRemote a r \<Rightarrow> map_option (goto p (LlCheck a r)) (lock1 p r s)
     | LlCheck a r \<Rightarrow> Some (goto p (if L2Other s (XR_L2_CLAIM_INDEX a) \<noteq> None then LlRevoke a r else LlUnlockRemote a r) s)
     | LlRevoke a r \<Rightarrow> Some (goto p (LlUnlockRemote a r) (s\<lparr>L1Other := (L1Other s)(r := None)\<rparr>))
     | LlUnlockRemote a r \<Rightarrow> Some (goto p (LlSet2 a) (unlock1 r s))
     | LlSet2 a \<Rightarrow> Some (goto p (LlSet1 a)
         (s\<lparr>L2Other := (L2Other s)(XR_L2_CLAIM_INDEX a := Some (p, XR_L1_CLAIM_INDEX a))\<rparr>))
     | LlSet1 a \<Rightarrow> Some (goto p (LlRead a)
         (s\<lparr>L1Other := (L1Other s)((p, XR_L1_CLAIM_INDEX a) := Some (XR_L2_CLAIM_INDEX a))\<rparr>))
     | LlRead a \<Rightarrow> Some (goto p (LlUnlock2 a (ClaimMem s a)) s)
     | LlUnlock2 a v \<Rightarrow> Some (returned p a v (unlock2 (XR_L2_CLAIM_INDEX a) s))
     | ScLock a w \<Rightarrow> map_option (goto p (ScTest a w)) (lock1 p (p, XR_L1_CLAIM_INDEX a) s)
     | ScTest a w \<Rightarrow> Some (goto p (if L1Other s (p, XR_L1_CLAIM_INDEX a) \<noteq> Some (XR_L2_CLAIM_INDEX a)
         then ScUnlock a else ScStore a w) s)
     | ScStore a w \<Rightarrow> Some (goto p (ScUnlock a) (s\<lparr>ClaimMem := (ClaimMem s)(a := w), LastLl := (LastLl s)(p := None)\<rparr>))
     | ScUnlock a \<Rightarrow> Some (goto p CIdle (unlock1 (p, XR_L1_CLAIM_INDEX a) s)))"

text \<open>
  \<open>N\<close> processors. The words of \<open>A\<close> are those that programs use with load-linked and store-conditional; plain
  stores go to other words, for they do not look at the claims.
\<close>

inductive claim_step :: "nat \<Rightarrow> u32 set \<Rightarrow> ClaimSystem \<Rightarrow> ClaimSystem \<Rightarrow> bool" for N A where
  run: "p < N \<Longrightarrow> claim_next p s = Some s' \<Longrightarrow> claim_step N A s s'"
| ll: "p < N \<Longrightarrow> ClaimAt s p = CIdle \<Longrightarrow> a \<in> A \<Longrightarrow>
    claim_step N A s (goto p (LlLock a) (s\<lparr>LastLl := (LastLl s)(p := None)\<rparr>))"
| sc: "p < N \<Longrightarrow> ClaimAt s p = CIdle \<Longrightarrow> LastLl s p = Some (a, v) \<Longrightarrow>
    claim_step N A s (goto p (ScLock a w) s)"
| store: "p < N \<Longrightarrow> ClaimAt s p = CIdle \<Longrightarrow> a \<notin> A \<Longrightarrow>
    claim_step N A s (s\<lparr>ClaimMem := (ClaimMem s)(a := w)\<rparr>)"

definition claim_system :: "(u32 \<Rightarrow> u32) \<Rightarrow> ClaimSystem" where
  "claim_system mem = \<lparr>L1Other = (\<lambda>_. None), L2Other = (\<lambda>_. None), L1Lock = (\<lambda>_. None), L2Lock = (\<lambda>_. None),
     ClaimMem = mem, ClaimAt = (\<lambda>_. CIdle), LastLl = (\<lambda>_. None)\<rparr>"

inductive claim_reach :: "nat \<Rightarrow> u32 set \<Rightarrow> ClaimSystem \<Rightarrow> bool" for N A where
  init: "claim_reach N A (claim_system mem)"
| step: "claim_reach N A s \<Longrightarrow> claim_step N A s s' \<Longrightarrow> claim_reach N A s'"

section \<open>The invariant\<close>

text \<open>The lock a processor holds, of each kind.\<close>

fun holds1 :: "nat \<Rightarrow> ClaimPc \<Rightarrow> L1Entry option" where
  "holds1 p (LlTest a) = Some (p, XR_L1_CLAIM_INDEX a)"
| "holds1 p (LlHitRead a) = Some (p, XR_L1_CLAIM_INDEX a)"
| "holds1 p (LlHitUnlock a v) = Some (p, XR_L1_CLAIM_INDEX a)"
| "holds1 p (LlDropOther a b) = Some (p, XR_L1_CLAIM_INDEX a)"
| "holds1 p (LlDrop a) = Some (p, XR_L1_CLAIM_INDEX a)"
| "holds1 p (LlUnlock a) = Some (p, XR_L1_CLAIM_INDEX a)"
| "holds1 p (LlCheck a r) = Some r"
| "holds1 p (LlRevoke a r) = Some r"
| "holds1 p (LlUnlockRemote a r) = Some r"
| "holds1 p (ScTest a w) = Some (p, XR_L1_CLAIM_INDEX a)"
| "holds1 p (ScStore a w) = Some (p, XR_L1_CLAIM_INDEX a)"
| "holds1 p (ScUnlock a) = Some (p, XR_L1_CLAIM_INDEX a)"
| "holds1 p _ = None"

fun holds2 :: "ClaimPc \<Rightarrow> nat option" where
  "holds2 (LlRemote a) = Some (XR_L2_CLAIM_INDEX a)"
| "holds2 (LlLockRemote a r) = Some (XR_L2_CLAIM_INDEX a)"
| "holds2 (LlCheck a r) = Some (XR_L2_CLAIM_INDEX a)"
| "holds2 (LlRevoke a r) = Some (XR_L2_CLAIM_INDEX a)"
| "holds2 (LlUnlockRemote a r) = Some (XR_L2_CLAIM_INDEX a)"
| "holds2 (LlSet2 a) = Some (XR_L2_CLAIM_INDEX a)"
| "holds2 (LlSet1 a) = Some (XR_L2_CLAIM_INDEX a)"
| "holds2 (LlRead a) = Some (XR_L2_CLAIM_INDEX a)"
| "holds2 (LlUnlock2 a v) = Some (XR_L2_CLAIM_INDEX a)"
| "holds2 _ = None"

definition locks_ok :: "ClaimSystem \<Rightarrow> bool" where
  "locks_ok s \<longleftrightarrow> (\<forall>p x. L1Lock s x = Some p \<longleftrightarrow> holds1 p (ClaimAt s p) = Some x) \<and>
     (\<forall>p b. L2Lock s b = Some p \<longleftrightarrow> holds2 (ClaimAt s p) = Some b)"

text \<open>An entry whose owner has cleared the other half of its claim and is about to clear this one.\<close>

definition dropping :: "ClaimSystem \<Rightarrow> L1Entry \<Rightarrow> bool" where
  "dropping s x \<longleftrightarrow> (\<exists>a. ClaimAt s (fst x) = LlDrop a \<and> XR_L1_CLAIM_INDEX a = snd x)"

text \<open>The second-level entry that a processor is about to make its own.\<close>

fun taking :: "ClaimPc \<Rightarrow> nat option" where
  "taking (LlUnlockRemote a r) = Some (XR_L2_CLAIM_INDEX a)"
| "taking (LlSet2 a) = Some (XR_L2_CLAIM_INDEX a)"
| "taking (LlSet1 a) = Some (XR_L2_CLAIM_INDEX a)"
| "taking _ = None"

definition unclaimed :: "ClaimSystem \<Rightarrow> nat \<Rightarrow> bool" where
  "unclaimed s b \<longleftrightarrow> (\<forall>x. L1Other s x = Some b \<longrightarrow> dropping s x)"

definition paired :: "ClaimSystem \<Rightarrow> bool" where
  "paired s \<longleftrightarrow> (\<forall>x b. L1Other s x = Some b \<longrightarrow> dropping s x \<or> L2Other s b = Some x) \<and>
     (\<forall>x b. L2Other s b = Some x \<longrightarrow> L1Other s x = Some b \<or> (\<exists>q. taking (ClaimAt s q) = Some b))"

fun at_ok :: "ClaimSystem \<Rightarrow> nat \<Rightarrow> ClaimPc \<Rightarrow> bool" where
  "at_ok s p (LlHitRead a) \<longleftrightarrow> L1Other s (p, XR_L1_CLAIM_INDEX a) = Some (XR_L2_CLAIM_INDEX a)"
| "at_ok s p (LlHitUnlock a v) \<longleftrightarrow> L1Other s (p, XR_L1_CLAIM_INDEX a) = Some (XR_L2_CLAIM_INDEX a)"
| "at_ok s p (LlDropOther a b) \<longleftrightarrow> L1Other s (p, XR_L1_CLAIM_INDEX a) = Some b"
| "at_ok s p (LlDrop a) \<longleftrightarrow> (\<exists>b. L1Other s (p, XR_L1_CLAIM_INDEX a) = Some b \<and> L2Other s b \<noteq> Some (p, XR_L1_CLAIM_INDEX a))"
| "at_ok s p (LlUnlock a) \<longleftrightarrow> L1Other s (p, XR_L1_CLAIM_INDEX a) = None"
| "at_ok s p (LlLock2 a) \<longleftrightarrow> L1Other s (p, XR_L1_CLAIM_INDEX a) = None"
| "at_ok s p (LlRemote a) \<longleftrightarrow> L1Other s (p, XR_L1_CLAIM_INDEX a) = None"
| "at_ok s p (LlLockRemote a r) \<longleftrightarrow> L1Other s (p, XR_L1_CLAIM_INDEX a) = None \<and> L2Other s (XR_L2_CLAIM_INDEX a) \<in> {None, Some r}"
| "at_ok s p (LlCheck a r) \<longleftrightarrow> L1Other s (p, XR_L1_CLAIM_INDEX a) = None \<and> L2Other s (XR_L2_CLAIM_INDEX a) \<in> {None, Some r}"
| "at_ok s p (LlRevoke a r) \<longleftrightarrow> L1Other s (p, XR_L1_CLAIM_INDEX a) = None \<and> L2Other s (XR_L2_CLAIM_INDEX a) = Some r"
| "at_ok s p (LlUnlockRemote a r) \<longleftrightarrow> L1Other s (p, XR_L1_CLAIM_INDEX a) = None \<and> unclaimed s (XR_L2_CLAIM_INDEX a)"
| "at_ok s p (LlSet2 a) \<longleftrightarrow> L1Other s (p, XR_L1_CLAIM_INDEX a) = None \<and> unclaimed s (XR_L2_CLAIM_INDEX a)"
| "at_ok s p (LlSet1 a) \<longleftrightarrow> L1Other s (p, XR_L1_CLAIM_INDEX a) = None \<and> unclaimed s (XR_L2_CLAIM_INDEX a) \<and>
     L2Other s (XR_L2_CLAIM_INDEX a) = Some (p, XR_L1_CLAIM_INDEX a)"
| "at_ok s p (LlRead a) \<longleftrightarrow> L1Other s (p, XR_L1_CLAIM_INDEX a) = Some (XR_L2_CLAIM_INDEX a)"
| "at_ok s p (LlUnlock2 a v) \<longleftrightarrow> L1Other s (p, XR_L1_CLAIM_INDEX a) = Some (XR_L2_CLAIM_INDEX a)"
| "at_ok s p (ScStore a w) \<longleftrightarrow> L1Other s (p, XR_L1_CLAIM_INDEX a) = Some (XR_L2_CLAIM_INDEX a)"
| "at_ok s p _ \<longleftrightarrow> True"

lemmas claim_moves = goto_def lock1_def lock2_def unlock1_def unlock2_def returned_def

lemma locks_next:
  assumes "locks_ok s" "claim_next p s = Some s'"
  shows "locks_ok s'"
proof -
  have 1: "L1Lock s x = Some q \<longleftrightarrow> holds1 q (ClaimAt s q) = Some x" for x q
    using assms(1) by (simp add: locks_ok_def del: split_paired_All)
  have 2: "L2Lock s b = Some q \<longleftrightarrow> holds2 (ClaimAt s q) = Some b" for b q
    using assms(1) by (simp add: locks_ok_def del: split_paired_All)
  have "L1Lock s' x = Some q \<longleftrightarrow> holds1 q (ClaimAt s' q) = Some x" for x q
    using assms(2) 1 [of x p] 1 [of x q]
    by (cases "ClaimAt s p") (auto simp: claim_next_def claim_moves simp del: split_paired_All split: if_splits option.splits)
  moreover have "L2Lock s' b = Some q \<longleftrightarrow> holds2 (ClaimAt s' q) = Some b" for b q
    using assms(2) 2 [of b p] 2 [of b q]
    by (cases "ClaimAt s p") (auto simp: claim_next_def claim_moves simp del: split_paired_All split: if_splits option.splits)
  ultimately show ?thesis by (simp add: locks_ok_def)
qed

lemma locked_once:
  assumes "locks_ok s"
  shows "holds1 p (ClaimAt s p) = Some x \<Longrightarrow> holds1 q (ClaimAt s q) = Some x \<Longrightarrow> p = q"
    "holds2 (ClaimAt s p) = Some b \<Longrightarrow> holds2 (ClaimAt s q) = Some b \<Longrightarrow> p = q"
  using assms unfolding locks_ok_def by (metis option.inject)+

lemma taking_holds: "taking c = Some b \<Longrightarrow> holds2 c = Some b"
  by (cases c) simp_all

lemma next_at: "claim_next p s = Some s' \<Longrightarrow> q \<noteq> p \<Longrightarrow> ClaimAt s' q = ClaimAt s q"
  by (cases "ClaimAt s p") (auto simp: claim_next_def claim_moves split: if_splits option.splits)

section \<open>What a step changes\<close>

text \<open>The claims change in four steps.\<close>

lemma next_l1:
  assumes "claim_next p s = Some s'"
  shows "L1Other s' = (case ClaimAt s p of
      LlDrop a \<Rightarrow> (L1Other s)((p, XR_L1_CLAIM_INDEX a) := None)
    | LlRevoke a r \<Rightarrow> (L1Other s)(r := None)
    | LlSet1 a \<Rightarrow> (L1Other s)((p, XR_L1_CLAIM_INDEX a) := Some (XR_L2_CLAIM_INDEX a))
    | _ \<Rightarrow> L1Other s)"
  using assms by (cases "ClaimAt s p") (auto simp: claim_next_def claim_moves split: if_splits option.splits)

lemma next_l2:
  assumes "claim_next p s = Some s'"
  shows "L2Other s' = (case ClaimAt s p of
      LlDropOther a b \<Rightarrow> (L2Other s)(b := None)
    | LlSet2 a \<Rightarrow> (L2Other s)(XR_L2_CLAIM_INDEX a := Some (p, XR_L1_CLAIM_INDEX a))
    | _ \<Rightarrow> L2Other s)"
  using assms by (cases "ClaimAt s p") (auto simp: claim_next_def claim_moves split: if_splits option.splits)

lemma next_mem:
  assumes "claim_next p s = Some s'"
  shows "ClaimMem s' = (case ClaimAt s p of ScStore a w \<Rightarrow> (ClaimMem s)(a := w) | _ \<Rightarrow> ClaimMem s)"
  using assms by (cases "ClaimAt s p") (auto simp: claim_next_def claim_moves split: if_splits option.splits)

lemma next_to:
  assumes "claim_next p s = Some s'"
  shows "ClaimAt s' p = LlDrop a \<Longrightarrow> \<exists>b. ClaimAt s p = LlDropOther a b"
    "taking (ClaimAt s p) = Some b \<Longrightarrow> taking (ClaimAt s' p) = Some b \<or> (\<exists>a. ClaimAt s p = LlSet1 a \<and> b = XR_L2_CLAIM_INDEX a)"
  using assms by (cases "ClaimAt s p"; auto simp: claim_next_def claim_moves split: if_splits option.splits)+

definition claim_inv :: "ClaimSystem \<Rightarrow> bool" where
  "claim_inv s \<longleftrightarrow> locks_ok s \<and> paired s \<and> (\<forall>q. at_ok s q (ClaimAt s q))"

lemma claim_invD:
  assumes "claim_inv s"
  shows "L1Other s x = Some b \<Longrightarrow> \<not> dropping s x \<Longrightarrow> L2Other s b = Some x"
    "L2Other s b = Some x \<Longrightarrow> L1Other s x = Some b \<or> (\<exists>q. taking (ClaimAt s q) = Some b)"
    "at_ok s q (ClaimAt s q)"
  using assms unfolding claim_inv_def paired_def by blast+

text \<open>A second-level entry that no live claim refers to stays so when nobody sets a claim to it.\<close>

lemma unclaimed_step:
  assumes "claim_next p s = Some s'" "unclaimed s b"
    and sub: "\<And>x. L1Other s' x = Some b \<Longrightarrow> L1Other s x = Some b"
    and d: "\<And>a. ClaimAt s p = LlDrop a \<Longrightarrow> L1Other s' (p, XR_L1_CLAIM_INDEX a) \<noteq> Some b"
  shows "unclaimed s' b"
  unfolding unclaimed_def
proof (intro allI impI)
  fix x assume x: "L1Other s' x = Some b"
  then have "dropping s x" using assms(2) sub [OF x] by (simp add: unclaimed_def del: split_paired_All)
  then obtain a where a: "ClaimAt s (fst x) = LlDrop a" "XR_L1_CLAIM_INDEX a = snd x" by (auto simp: dropping_def)
  then have "fst x \<noteq> p" using x d [of a] by auto
  then show "dropping s' x" using a next_at [OF assms(1)] by (auto simp: dropping_def)
qed

lemma revoked_pair:
  assumes "claim_inv s" "ClaimAt s p = LlRevoke a r"
  shows "L1Other s r = Some (XR_L2_CLAIM_INDEX a)"
proof -
  have l: "locks_ok s" using assms(1) by (simp add: claim_inv_def)
  have "taking (ClaimAt s q) \<noteq> Some (XR_L2_CLAIM_INDEX a)" for q
    using locked_once(2) [OF l, of q "XR_L2_CLAIM_INDEX a" p] taking_holds [of "ClaimAt s q"] assms(2)
    by (cases "q = p") auto
  moreover have "L2Other s (XR_L2_CLAIM_INDEX a) = Some r" using claim_invD(3) [OF assms(1), of p] assms(2) by simp
  ultimately show ?thesis using claim_invD(2) [OF assms(1)] by blast
qed

lemma dropped_pair:
  assumes "claim_inv s" "ClaimAt s p = LlDropOther a b"
  shows "L2Other s b = Some (p, XR_L1_CLAIM_INDEX a)"
  using claim_invD(3) [OF assms(1), of p] assms(2) by (intro claim_invD(1) [OF assms(1)]) (simp_all add: dropping_def)

text \<open>What a step of \<open>p\<close> leaves of the claims that another processor \<open>q\<close> works on.\<close>

lemma foreign_l1:
  assumes "claim_inv s" "claim_next p s = Some s'" "q \<noteq> p"
  shows "holds1 q (ClaimAt s q) = Some (q, e) \<Longrightarrow> L1Other s' (q, e) = L1Other s (q, e)"
    "L1Other s (q, e) = None \<Longrightarrow> L1Other s' (q, e) = None"
    "holds2 (ClaimAt s q) = Some b \<Longrightarrow> L1Other s (q, e) = Some b \<Longrightarrow> L1Other s' (q, e) = Some b"
    "L1Other s' (q, e) = Some b \<Longrightarrow> L1Other s (q, e) = Some b"
proof -
  have l: "locks_ok s" using assms(1) by (simp add: claim_inv_def)
  have c: "L1Other s' (q, e) = L1Other s (q, e) \<or>
      (\<exists>a. ClaimAt s p = LlRevoke a (q, e) \<and> L1Other s' (q, e) = None)"
    using next_l1 [OF assms(2)] assms(3) by (auto split: ClaimPc.splits)
  show "L1Other s' (q, e) = Some b \<Longrightarrow> L1Other s (q, e) = Some b" using c by auto
  show "holds1 q (ClaimAt s q) = Some (q, e) \<Longrightarrow> L1Other s' (q, e) = L1Other s (q, e)"
    using c locked_once(1) [OF l, of q "(q, e)" p] assms(3) by auto
  show "L1Other s (q, e) = None \<Longrightarrow> L1Other s' (q, e) = None" using c by auto
  show "holds2 (ClaimAt s q) = Some b \<Longrightarrow> L1Other s (q, e) = Some b \<Longrightarrow> L1Other s' (q, e) = Some b"
    using c locked_once(2) [OF l, of q b p] revoked_pair [OF assms(1), of p] assms(3) by fastforce
qed

lemma foreign_l2:
  assumes "claim_inv s" "claim_next p s = Some s'" "q \<noteq> p"
  shows "holds2 (ClaimAt s q) = Some b \<Longrightarrow> L2Other s' b = L2Other s b \<or> L2Other s' b = None"
    "L2Other s b \<noteq> Some (q, e) \<Longrightarrow> L2Other s' b \<noteq> Some (q, e)"
    "holds2 (ClaimAt s q) = Some b \<Longrightarrow> L2Other s b = Some x \<Longrightarrow> holds1 q (ClaimAt s q) = Some x \<or> unclaimed s b \<Longrightarrow>
      L2Other s' b = Some x"
    "holds2 (ClaimAt s q) = Some b \<Longrightarrow> unclaimed s b \<Longrightarrow> unclaimed s' b"
proof -
  have l: "locks_ok s" using assms(1) by (simp add: claim_inv_def)
  have h: "holds2 (ClaimAt s p) \<noteq> Some b" if "holds2 (ClaimAt s q) = Some b" using locked_once(2) [OF l] that assms(3) by blast
  have c: "L2Other s' b = L2Other s b \<or> (\<exists>a. ClaimAt s p = LlDropOther a b \<and> L2Other s' b = None) \<or>
      (\<exists>e. holds2 (ClaimAt s p) = Some b \<and> L2Other s' b = Some (p, e))"
    using next_l2 [OF assms(2)] by (auto split: ClaimPc.splits)
  show "holds2 (ClaimAt s q) = Some b \<Longrightarrow> L2Other s' b = L2Other s b \<or> L2Other s' b = None" using c h by auto
  show "L2Other s b \<noteq> Some (q, e) \<Longrightarrow> L2Other s' b \<noteq> Some (q, e)" using c assms(3) by auto
  have "False" if "ClaimAt s p = LlDropOther a b" "L2Other s b = Some x" "holds1 q (ClaimAt s q) = Some x \<or> unclaimed s b" for a x
  proof -
    have x: "x = (p, XR_L1_CLAIM_INDEX a)" using dropped_pair [OF assms(1) that(1)] that(2) by simp
    have "holds1 p (ClaimAt s p) = Some x" "L1Other s x = Some b" "\<not> dropping s x"
      using claim_invD(3) [OF assms(1), of p] that(1) x by (simp_all add: dropping_def)
    then show False using that(3) locked_once(1) [OF l, of q x p] assms(3) unfolding unclaimed_def by blast
  qed
  then show "holds2 (ClaimAt s q) = Some b \<Longrightarrow> L2Other s b = Some x \<Longrightarrow> holds1 q (ClaimAt s q) = Some x \<or> unclaimed s b \<Longrightarrow>
      L2Other s' b = Some x" using c h by metis
  assume b: "holds2 (ClaimAt s q) = Some b" and u: "unclaimed s b"
  show "unclaimed s' b"
    by (rule unclaimed_step [OF assms(2) u])
      (use next_l1 [OF assms(2)] h [OF b] in \<open>auto split: ClaimPc.splits if_splits\<close>)
qed

lemma foreign_ok:
  assumes "claim_inv s" "claim_next p s = Some s'" "q \<noteq> p"
  shows "at_ok s' q (ClaimAt s' q)"
proof -
  note a = claim_invD(3) [OF assms(1), of q]
  note n = next_at [OF assms(2,3)]
  show ?thesis
  proof (cases "ClaimAt s q")
    case (LlDrop a)
    then show ?thesis
      using a n foreign_l1(1) [OF assms] foreign_l2(2) [OF assms] by auto
  next
    case (LlLockRemote a r)
    then show ?thesis
      using a n foreign_l1(2) [OF assms] foreign_l2(1) [OF assms, of "XR_L2_CLAIM_INDEX a"] by auto
  next
    case (LlCheck a r)
    then show ?thesis
      using a n foreign_l1(2) [OF assms] foreign_l2(1) [OF assms, of "XR_L2_CLAIM_INDEX a"] by auto
  qed (use a n in \<open>simp_all add: foreign_l1(1-3) [OF assms] foreign_l2 [OF assms]\<close>)
qed

lemma own_ok:
  assumes "claim_inv s" "claim_next p s = Some s'"
  shows "at_ok s' p (ClaimAt s' p)"
proof -
  note a = claim_invD(3) [OF assms(1), of p]
  have none: "unclaimed s b" if "L2Other s b = None" for b
    using claim_invD(1) [OF assms(1)] that unfolding unclaimed_def by fastforce
  have keep: "unclaimed s' b" if "unclaimed s b" "L1Other s' = L1Other s" "\<And>a. ClaimAt s p \<noteq> LlDrop a" for b
    by (rule unclaimed_step [OF assms(2) that(1)]) (use that in simp_all)
  show ?thesis
  proof (cases "ClaimAt s p")
    case (LlRevoke a r)
    have "unclaimed s' (XR_L2_CLAIM_INDEX a)"
      unfolding unclaimed_def
    proof (intro allI impI)
      fix x assume "L1Other s' x = Some (XR_L2_CLAIM_INDEX a)"
      then have x: "x \<noteq> r" "L1Other s x = Some (XR_L2_CLAIM_INDEX a)"
        using next_l1 [OF assms(2)] LlRevoke by (auto split: if_splits)
      then have d: "dropping s x" using claim_invD(1) [OF assms(1), of x] a LlRevoke by auto
      then have "fst x \<noteq> p" using LlRevoke by (auto simp: dropping_def)
      then show "dropping s' x" using d next_at [OF assms(2)] by (simp add: dropping_def)
    qed
    then show ?thesis using LlRevoke a assms(2) by (auto simp: claim_next_def claim_moves)
  next
    case (LlRemote a)
    then show ?thesis using a assms(2) none keep by (auto simp: claim_next_def claim_moves split: option.splits)
  next
    case (LlCheck a r)
    then show ?thesis using a assms(2) none keep
      by (cases r) (auto simp: claim_next_def claim_moves split: if_splits)
  next
    case (LlUnlockRemote a r)
    then show ?thesis using a assms(2) keep by (auto simp: claim_next_def claim_moves)
  next
    case (LlSet2 a)
    then show ?thesis using a assms(2) keep by (auto simp: claim_next_def claim_moves)
  qed (use a assms(2) in \<open>auto simp: claim_next_def claim_moves split: if_splits option.splits\<close>)
qed

lemma dropping_next:
  assumes "claim_next p s = Some s'" "dropping s x"
  shows "dropping s' x \<or> (\<exists>a. ClaimAt s p = LlDrop a \<and> x = (p, XR_L1_CLAIM_INDEX a))"
proof (cases "fst x = p")
  case True
  then show ?thesis using assms(2) by (auto simp: dropping_def prod_eq_iff)
next
  case False
  then show ?thesis using assms(2) next_at [OF assms(1) False] by (simp add: dropping_def)
qed

lemma pair_l1:
  assumes "claim_inv s" "claim_next p s = Some s'" "L1Other s' x = Some b"
  shows "dropping s' x \<or> L2Other s' b = Some x"
proof -
  note a = claim_invD(3) [OF assms(1), of p]
  have old: "dropping s' x \<or> L2Other s b = Some x" if "L1Other s x = Some b" "\<And>a. ClaimAt s p = LlDrop a \<Longrightarrow> x \<noteq> (p, XR_L1_CLAIM_INDEX a)"
    using claim_invD(1) [OF assms(1) that(1)] dropping_next [OF assms(2), of x] that(2) by blast
  show ?thesis
  proof (cases "ClaimAt s p")
    case (LlDropOther a c)
    then have "dropping s' (p, XR_L1_CLAIM_INDEX a)" using assms(2) by (auto simp: claim_next_def claim_moves dropping_def)
    then show ?thesis
      using old dropped_pair [OF assms(1) LlDropOther] next_l1 [OF assms(2)] next_l2 [OF assms(2)] LlDropOther assms(3) by auto
  next
    case (LlSet2 a)
    then show ?thesis
      using old next_l1 [OF assms(2)] next_l2 [OF assms(2)] assms(3) a dropping_next [OF assms(2), of x]
      by (auto simp: unclaimed_def simp del: split_paired_All)
  qed (use old a next_l1 [OF assms(2)] next_l2 [OF assms(2)] assms(3) in \<open>auto split: if_splits\<close>)
qed

lemma pair_l2:
  assumes "claim_inv s" "claim_next p s = Some s'" "L2Other s' b = Some x"
  shows "L1Other s' x = Some b \<or> (\<exists>q. taking (ClaimAt s' q) = Some b)"
proof -
  note a = claim_invD(3) [OF assms(1), of p]
  have other: "\<exists>q. taking (ClaimAt s' q) = Some b" if "taking (ClaimAt s q) = Some b" "\<And>a. ClaimAt s p = LlSet1 a \<Longrightarrow> b \<noteq> XR_L2_CLAIM_INDEX a" for q
  proof (cases "q = p")
    case True
    then show ?thesis using that next_to(2) [OF assms(2), of b] by blast
  next
    case False
    then show ?thesis using that(1) next_at [OF assms(2) False] by metis
  qed
  have old: "L1Other s x = Some b \<or> (\<exists>q. taking (ClaimAt s' q) = Some b)" if "L2Other s b = Some x" "\<And>a. ClaimAt s p = LlSet1 a \<Longrightarrow> b \<noteq> XR_L2_CLAIM_INDEX a"
    using claim_invD(2) [OF assms(1) that(1)] other that(2) by blast
  show ?thesis
  proof (cases "ClaimAt s p")
    case (LlRevoke a r)
    have "taking (ClaimAt s' p) = Some (XR_L2_CLAIM_INDEX a)" using LlRevoke assms(2) by (auto simp: claim_next_def claim_moves)
    moreover have "L1Other s r = Some (XR_L2_CLAIM_INDEX a)" by (rule revoked_pair [OF assms(1) LlRevoke])
    ultimately show ?thesis using old LlRevoke next_l1 [OF assms(2)] next_l2 [OF assms(2)] assms(3) by auto
  next
    case (LlSet1 c)
    then show ?thesis
      using old a next_l1 [OF assms(2)] next_l2 [OF assms(2)] assms(3)
      by (cases "b = XR_L2_CLAIM_INDEX c") (auto split: if_splits)
  next
    case (LlSet2 a)
    then have "taking (ClaimAt s' p) = Some (XR_L2_CLAIM_INDEX a)" using assms(2) by (auto simp: claim_next_def claim_moves)
    then show ?thesis using old LlSet2 next_l1 [OF assms(2)] next_l2 [OF assms(2)] assms(3) by (auto split: if_splits)
  qed (use old a next_l1 [OF assms(2)] next_l2 [OF assms(2)] assms(3) in \<open>auto split: if_splits\<close>)
qed

lemma claim_inv_next:
  assumes "claim_inv s" "claim_next p s = Some s'"
  shows "claim_inv s'"
proof -
  have "at_ok s' q (ClaimAt s' q)" for q
    using foreign_ok [OF assms] own_ok [OF assms] by (cases "q = p") simp_all
  moreover have "locks_ok s'" using assms(1) locks_next [OF _ assms(2)] by (simp add: claim_inv_def)
  moreover have "paired s'" unfolding paired_def using pair_l1 [OF assms] pair_l2 [OF assms] by blast
  ultimately show ?thesis by (simp add: claim_inv_def)
qed

section \<open>What a load-linked has seen\<close>

text \<open>The address and value of the load-linked that a processor has done or is about to return from.\<close>

fun seen :: "ClaimSystem \<Rightarrow> nat \<Rightarrow> ClaimPc \<Rightarrow> (u32 \<times> u32) option" where
  "seen s p (LlHitUnlock a v) = Some (a, v)"
| "seen s p (LlUnlock2 a v) = Some (a, v)"
| "seen s p CIdle = LastLl s p"
| "seen s p (ScLock a w) = LastLl s p"
| "seen s p (ScTest a w) = LastLl s p"
| "seen s p (ScStore a w) = LastLl s p"
| "seen s p (ScUnlock a) = LastLl s p"
| "seen s p _ = None"

text \<open>A store-conditional is for the address of the last load-linked.\<close>

fun linked :: "ClaimSystem \<Rightarrow> nat \<Rightarrow> ClaimPc \<Rightarrow> bool" where
  "linked s p (ScLock a w) \<longleftrightarrow> (\<exists>v. LastLl s p = Some (a, v))"
| "linked s p (ScTest a w) \<longleftrightarrow> (\<exists>v. LastLl s p = Some (a, v))"
| "linked s p (ScStore a w) \<longleftrightarrow> (\<exists>v. LastLl s p = Some (a, v))"
| "linked s p _ \<longleftrightarrow> True"

definition holds_claim :: "ClaimSystem \<Rightarrow> nat \<Rightarrow> u32 \<Rightarrow> bool" where
  "holds_claim s p a \<longleftrightarrow> L1Other s (p, XR_L1_CLAIM_INDEX a) = Some (XR_L2_CLAIM_INDEX a)"

text \<open>The address a processor works on.\<close>

fun works_on :: "ClaimPc \<Rightarrow> u32 option" where
  "works_on (LlLock a) = Some a"
| "works_on (LlTest a) = Some a"
| "works_on (LlHitRead a) = Some a"
| "works_on (LlDropOther a b) = Some a"
| "works_on (LlDrop a) = Some a"
| "works_on (LlUnlock a) = Some a"
| "works_on (LlLock2 a) = Some a"
| "works_on (LlRemote a) = Some a"
| "works_on (LlLockRemote a r) = Some a"
| "works_on (LlCheck a r) = Some a"
| "works_on (LlRevoke a r) = Some a"
| "works_on (LlUnlockRemote a r) = Some a"
| "works_on (LlSet2 a) = Some a"
| "works_on (LlSet1 a) = Some a"
| "works_on (LlRead a) = Some a"
| "works_on _ = None"

definition values_at :: "u32 set \<Rightarrow> ClaimSystem \<Rightarrow> nat \<Rightarrow> bool" where
  "values_at A s p \<longleftrightarrow> linked s p (ClaimAt s p) \<and> (\<forall>a. works_on (ClaimAt s p) = Some a \<longrightarrow> a \<in> A) \<and>
     (\<forall>a v. seen s p (ClaimAt s p) = Some (a, v) \<longrightarrow> a \<in> A \<and> (holds_claim s p a \<longrightarrow> ClaimMem s a = v))"

lemma values_atD:
  assumes "values_at A s p"
  shows "linked s p (ClaimAt s p)" "works_on (ClaimAt s p) = Some a \<Longrightarrow> a \<in> A"
    "seen s p (ClaimAt s p) = Some (a, v) \<Longrightarrow> a \<in> A"
    "seen s p (ClaimAt s p) = Some (a, v) \<Longrightarrow> holds_claim s p a \<Longrightarrow> ClaimMem s a = v"
  using assms unfolding values_at_def by blast+

lemma linked_cong: "LastLl s' p = LastLl s p \<Longrightarrow> linked s' p c = linked s p c \<and> seen s' p c = seen s p c"
  by (cases c) simp_all

text \<open>A step that does not touch a processor keeps what holds of it, when it leaves the words it has seen.\<close>

lemma values_keep:
  assumes "values_at A s q" "LastLl s' q = LastLl s q" "ClaimAt s' q = ClaimAt s q"
    and "\<And>a. holds_claim s' q a \<Longrightarrow> holds_claim s q a"
    and "\<And>a v. seen s q (ClaimAt s q) = Some (a, v) \<Longrightarrow> holds_claim s q a \<Longrightarrow> ClaimMem s' a = ClaimMem s a"
  shows "values_at A s' q"
  using values_atD [OF assms(1)] linked_cong [OF assms(2)] assms(3-5) unfolding values_at_def by auto

lemma claimed_once:
  assumes "claim_inv s" "holds_claim s p a" "holds_claim s q a"
    and "\<And>b. ClaimAt s p \<noteq> LlDrop b" "\<And>b. ClaimAt s q \<noteq> LlDrop b"
  shows "p = q"
proof -
  have "L2Other s (XR_L2_CLAIM_INDEX a) = Some (r, XR_L1_CLAIM_INDEX a)" if "r \<in> {p, q}" for r
    using assms that by (intro claim_invD(1) [OF assms(1)]) (auto simp: holds_claim_def dropping_def)
  from this [of p] this [of q] show ?thesis by simp
qed

lemma next_last:
  "claim_next p s = Some s' \<Longrightarrow> q \<noteq> p \<Longrightarrow> LastLl s' q = LastLl s q"
  by (cases "ClaimAt s p") (auto simp: claim_next_def claim_moves split: if_splits option.splits)

lemma values_foreign:
  assumes "claim_inv s" "values_at A s q" "claim_next p s = Some s'" "q \<noteq> p"
  shows "values_at A s' q"
proof (rule values_keep [OF assms(2) next_last [OF assms(3,4)] next_at [OF assms(3,4)]])
  fix a v assume v: "seen s q (ClaimAt s q) = Some (a, v)" and h: "holds_claim s q a"
  have "ClaimAt s q \<noteq> LlDrop b" for b using v by auto
  then have "ClaimAt s p \<noteq> ScStore a w" for w
    using claimed_once [OF assms(1) h, of p] claim_invD(3) [OF assms(1), of p] assms(4) by (auto simp: holds_claim_def)
  then show "ClaimMem s' a = ClaimMem s a" using next_mem [OF assms(3)] by (auto split: ClaimPc.splits)
qed (use foreign_l1(4) [OF assms(1,3,4)] in \<open>simp add: holds_claim_def\<close>)

lemma values_own:
  assumes "claim_inv s" "values_at A s p" "claim_next p s = Some s'"
  shows "values_at A s' p"
  using values_atD [OF assms(2)] claim_invD(3) [OF assms(1), of p] assms(3)
  by (cases "ClaimAt s p") (auto simp: values_at_def claim_next_def claim_moves holds_claim_def split: if_splits option.splits)

section \<open>Reachable states\<close>

text \<open>A processor that enters one of the two routines.\<close>

lemma dropping_enter:
  assumes "ClaimAt s p = CIdle" "c = LlLock a \<or> c = ScLock a w"
  shows "dropping (goto p c (s\<lparr>LastLl := l\<rparr>)) = dropping s"
  using assms by (intro ext) (auto simp: dropping_def goto_def)

lemma at_ok_cong:
  assumes "L1Other s' = L1Other s" "L2Other s' = L2Other s" "dropping s' = dropping s"
  shows "at_ok s' p c = at_ok s p c"
  using assms by (cases c) (simp_all add: unclaimed_def)

lemma enter_inv:
  assumes "claim_inv s" "ClaimAt s p = CIdle" "c = LlLock a \<or> c = ScLock a w"
  shows "claim_inv (goto p c (s\<lparr>LastLl := l\<rparr>))"
proof -
  let ?s = "goto p c (s\<lparr>LastLl := l\<rparr>)"
  note d = dropping_enter [OF assms(2,3), of l]
  have h: "holds1 q (ClaimAt ?s q) = holds1 q (ClaimAt s q)" "holds2 (ClaimAt ?s q) = holds2 (ClaimAt s q)"
    "taking (ClaimAt ?s q) = taking (ClaimAt s q)" "at_ok s q (ClaimAt ?s q) = at_ok s q (ClaimAt s q)" for q
    using assms(2,3) by (auto simp: goto_def)
  have f: "L1Other ?s = L1Other s" "L2Other ?s = L2Other s" "L1Lock ?s = L1Lock s" "L2Lock ?s = L2Lock s"
    by (simp_all add: goto_def)
  show ?thesis
    using assms(1) unfolding claim_inv_def locks_ok_def paired_def h f d at_ok_cong [OF f(1,2) d] .
qed

lemma store_inv: "claim_inv s \<Longrightarrow> claim_inv (s\<lparr>ClaimMem := m\<rparr>)"
  using at_ok_cong [of "s\<lparr>ClaimMem := m\<rparr>" s]
  by (simp add: claim_inv_def locks_ok_def paired_def dropping_def [abs_def] del: split_paired_All)

definition claims_inv :: "nat \<Rightarrow> u32 set \<Rightarrow> ClaimSystem \<Rightarrow> bool" where
  "claims_inv N A s \<longleftrightarrow> claim_inv s \<and> (\<forall>q. values_at A s q) \<and> (\<forall>q. N \<le> q \<longrightarrow> ClaimAt s q = CIdle)"

lemma step_inv:
  assumes "claim_step N A s s'" "claims_inv N A s"
  shows "claims_inv N A s'"
proof -
  have i: "claim_inv s" "values_at A s q" "N \<le> q \<Longrightarrow> ClaimAt s q = CIdle" for q
    using assms(2) by (simp_all add: claims_inv_def)
  from assms(1) show ?thesis
  proof cases
    case (run p)
    have "values_at A s' q" for q
      using values_foreign [OF i(1,2) run(2)] values_own [OF i(1,2) run(2)] by (cases "q = p") simp_all
    moreover have "ClaimAt s' q = CIdle" if "N \<le> q" for q
      using next_at [OF run(2), of q] i(3) [OF that] run(1) that by (cases "q = p") auto
    ultimately show ?thesis using claim_inv_next [OF i(1) run(2)] by (simp add: claims_inv_def)
  next
    case (ll p a)
    have "values_at A s' q" for q
      using values_keep [OF i(2), of s' q] ll
      by (cases "q = p") (auto simp: goto_def holds_claim_def values_at_def)
    then show ?thesis using enter_inv [OF i(1) ll(3)] i(3) ll(1,2) by (auto simp: claims_inv_def goto_def)
  next
    case (sc p a v w)
    have "values_at A s' q" for q
      using values_keep [OF i(2), of s' q] i(2) [of p] sc
      by (cases "q = p") (auto simp: goto_def holds_claim_def values_at_def)
    moreover have "claim_inv s'" using enter_inv [OF i(1) sc(3), of "ScLock a w" a w "LastLl s"] sc(1) by simp
    ultimately show ?thesis using i(3) sc(1,2) by (auto simp: claims_inv_def goto_def)
  next
    case (store p a w)
    have "values_at A s' q" for q
      by (rule values_keep [OF i(2)]) (use store values_atD(3) [OF i(2), of q] in \<open>auto simp: holds_claim_def\<close>)
    then show ?thesis using store_inv [OF i(1)] i(3) store(1) by (auto simp: claims_inv_def)
  qed
qed

lemma claim_reach_inv: "claim_reach N A s \<Longrightarrow> claims_inv N A s"
proof (induction rule: claim_reach.induct)
  case (init mem)
  show ?case by (simp add: claims_inv_def claim_inv_def locks_ok_def paired_def values_at_def claim_system_def)
next
  case (step s s')
  then show ?case using step_inv by blast
qed

section \<open>Properties\<close>


text \<open>A processor that holds a first-level lock never waits.\<close>

lemma holder_runs: "holds1 p (ClaimAt s p) = Some x \<Longrightarrow> claim_next p s \<noteq> None"
  by (cases "ClaimAt s p") (simp_all add: claim_next_def)

lemma waits_for:
  assumes "claim_next p s = None" "ClaimAt s p \<noteq> CIdle"
  shows "(\<exists>x. L1Lock s x \<noteq> None) \<or> (\<exists>b. L2Lock s b \<noteq> None) \<and> holds2 (ClaimAt s p) = None"
  using assms by (cases "ClaimAt s p") (auto simp: claim_next_def lock1_def lock2_def split: if_splits)

text \<open>
  Claim C20. The locks of the claim tables cannot deadlock: as long as a processor is inside one of the
  two routines, some processor can take a step.
\<close>

theorem claim_no_deadlock:
  assumes "claim_reach N A s" "ClaimAt s p \<noteq> CIdle"
  shows "\<exists>q < N. claim_next q s \<noteq> None"
proof -
  have i: "locks_ok s" "N \<le> q \<Longrightarrow> ClaimAt s q = CIdle" for q
    using claim_reach_inv [OF assms(1)] by (simp_all add: claims_inv_def claim_inv_def)
  have inside: "q < N" if "claim_next q s \<noteq> None" for q
    using i(2) [of q] that by (cases "q < N") (auto simp: claim_next_def)
  have one: "\<exists>q. claim_next q s \<noteq> None" if "L1Lock s x = Some q" for x q
    using i(1) that holder_runs [of q s x] unfolding locks_ok_def by blast
  have "\<exists>q. claim_next q s \<noteq> None"
  proof (cases "\<exists>x. L1Lock s x \<noteq> None")
    case True
    then show ?thesis using one by blast
  next
    case False
    then have w: "claim_next q s = None \<Longrightarrow> ClaimAt s q \<noteq> CIdle \<Longrightarrow> holds2 (ClaimAt s q) = None \<and> (\<exists>b. L2Lock s b \<noteq> None)" for q
      using waits_for by blast
    show ?thesis
    proof (rule ccontr)
      assume "\<nexists>q. claim_next q s \<noteq> None"
      then obtain b r where "L2Lock s b = Some r" using w [of p] assms(2) by blast
      then have "holds2 (ClaimAt s r) = Some b" using i(1) by (simp add: locks_ok_def)
      then show False using w [of r] \<open>\<nexists>q. claim_next q s \<noteq> None\<close> by (cases "ClaimAt s r") auto
    qed
  qed
  then show ?thesis using inside by blast
qed

section \<open>Runs of one processor\<close>

fun claim_run :: "nat \<Rightarrow> nat \<Rightarrow> ClaimSystem \<Rightarrow> ClaimSystem" where
  "claim_run p 0 s = s"
| "claim_run p (Suc n) s = (case claim_next p s of Some s' \<Rightarrow> claim_run p n s' | None \<Rightarrow> s)"

lemma reach_run: "claim_reach N A s \<Longrightarrow> p < N \<Longrightarrow> claim_reach N A (claim_run p n s)"
proof (induction n arbitrary: s)
  case (Suc n)
  then show ?case
    using claim_reach.step [OF Suc.prems(1) claim_step.run [OF Suc.prems(2)]] by (cases "claim_next p s") auto
qed simp

lemma claim_run_numeral [simp]:
  "claim_run p (numeral k) s = (case claim_next p s of Some s' \<Rightarrow> claim_run p (pred_numeral k) s' | None \<Rightarrow> s)"
  by (simp add: numeral_eq_Suc)

definition claims_of :: "ClaimSystem \<Rightarrow> XrClaims" where
  "claims_of s = \<lparr>L1Other = L1Other s, L2Other = L2Other s\<rparr>"

text \<open>
  Claim C39. A load-linked of the multi-threaded build that nobody disturbs, from a state in which no lock is held, takes at
  most 15 steps, returns the word in memory, releases its locks and changes the claims as the single-threaded code does.
\<close>

theorem claim_undisturbed:
  assumes "ClaimAt s p = LlLock a" "\<And>x. L1Lock s x = None" "\<And>b. L2Lock s b = None"
  shows "\<exists>n \<le> 15. let s' = claim_run p n s in ClaimAt s' p = CIdle \<and> LastLl s' p = Some (a, ClaimMem s a) \<and>
    claims_of s' = XrClaimAddress p a (claims_of s) \<and> L1Lock s' = L1Lock s \<and> L2Lock s' = L2Lock s \<and> ClaimMem s' = ClaimMem s"
proof -
  let ?x = "(p, XR_L1_CLAIM_INDEX a)" let ?b = "XR_L2_CLAIM_INDEX a"
  have l: "(L1Lock s)(x := None) = L1Lock s" "(L2Lock s)(b := None) = L2Lock s" for x b
    using assms(2,3) by (simp_all add: fun_upd_idem)
  note run = assms claim_next_def claim_moves claims_of_def XrClaimAddress_def claim_drop_def claim_take_def l Let_def
  consider (hit) "L1Other s ?x = Some ?b"
    | (miss) "L1Other s ?x = None" | (other) c where "L1Other s ?x = Some c" "c \<noteq> ?b" by (cases "L1Other s ?x") auto
  then show ?thesis
  proof cases
    case hit
    then show ?thesis by (intro exI [of _ 4]) (simp add: run)
  next
    case miss
    then show ?thesis
    proof (cases "L2Other s ?b")
      case None
      then show ?thesis using miss by (intro exI [of _ 9]) (simp add: run)
    next
      case (Some r)
      then show ?thesis using miss by (intro exI [of _ 13]) (simp add: run)
    qed
  next
    case (other c)
    show ?thesis
    proof (cases "L2Other s ?b")
      case None
      then show ?thesis using other by (intro exI [of _ 11]) (simp add: run)
    next
      case (Some r)
      then show ?thesis using other by (intro exI [of _ 15]) (simp add: run)
    qed
  qed
qed

text \<open>Processor 0 has read a word and is about to store to it, the table has one claim.\<close>

definition claim_sample :: ClaimSystem where
  "claim_sample = claim_run 0 2 (goto 0 (ScLock 0x100 6)
     (claim_run 0 9 (goto 0 (LlLock 0x100) ((claim_system (\<lambda>_. 5))\<lparr>LastLl := (\<lambda>_. None)(0 := None)\<rparr>))))"

lemma claim_sample_reach: "claim_reach 2 {0x100} claim_sample"
proof -
  let ?s = "claim_run 0 9 (goto 0 (LlLock 0x100) ((claim_system (\<lambda>_. 5))\<lparr>LastLl := (\<lambda>_. None)(0 := None)\<rparr>))"
  have "claim_step 2 {0x100} (claim_system (\<lambda>_. 5)) (goto 0 (LlLock 0x100) ((claim_system (\<lambda>_. 5))\<lparr>LastLl := (\<lambda>_. None)(0 := None)\<rparr>))"
    using claim_step.ll [of 0 2 "claim_system (\<lambda>_. 5)" "0x100" "{0x100}"] by (simp add: claim_system_def)
  from reach_run [OF claim_reach.step [OF claim_reach.init this]] have s: "claim_reach 2 {0x100} ?s" by (simp del: claim_run_numeral)
  have "ClaimAt ?s 0 = CIdle" "LastLl ?s 0 = Some (0x100, 5)"
    by (simp_all add: claim_next_def claim_moves claim_system_def)
  from claim_step.sc [OF _ this, of 2 "{0x100}" 6] s show ?thesis
    unfolding claim_sample_def by (intro reach_run) (auto intro: claim_reach.step)
qed

lemma claim_sample_at: "ClaimAt claim_sample 0 = ScStore 0x100 6"
  by (simp add: claim_sample_def claim_next_def claim_moves claim_system_def)


lemma claim_no_deadlock_witness: "\<exists>q < 2. claim_next q claim_sample \<noteq> None"
  by (rule claim_no_deadlock [OF claim_sample_reach, of 0]) (simp add: claim_sample_at)

lemma claim_undisturbed_witness:
  "\<exists>n. LastLl (claim_run 0 n (goto 0 (LlLock 0x100) (claim_system (\<lambda>_. 5)))) 0 = Some (0x100, 5)"
proof -
  let ?s = "goto 0 (LlLock 0x100) (claim_system (\<lambda>_. 5))"
  have "ClaimAt ?s 0 = LlLock 0x100" "L1Lock ?s x = None" "L2Lock ?s b = None" "ClaimMem ?s 0x100 = 5" for x b
    by (simp_all add: goto_def claim_system_def)
  then show ?thesis using claim_undisturbed [of ?s 0 "0x100"] by (auto simp: Let_def)
qed

end
