(* ===== verification/FastAccess.thy ===== *)
theory FastAccess
  imports ClaimTable Execute Coherence
begin

text \<open>
  Memory accesses of the FASTMEMORY build, \<^verbatim>\<open>src/src/xrfastaccess.inc.c\<close>: there are no simulated
  caches. Every block remembers for its loads and its stores the last four translations together
  with a host pointer, through which it reaches RAM directly. Processors, bus and devices are
  those of the default build. The fields the build adds to a processor and to its blocks are kept beside the machine, by
  processor and by block. Of the claim tables this is the single-threaded version; theory \<open>ClaimTable\<close>
  treats the other.
\<close>

section \<open>State\<close>

text \<open>
  A pointer to an entry of the data translation buffer is its index. A block's entries live in memory from \<^verbatim>\<open>malloc\<close>
  and only \<open>MatchingDtbe\<close> is initialised: \<^term>\<open>None\<close> is a \<open>DtbePointer\<close> that was never written.
\<close>

record XrIblockDtbEntry =
  HostPointer :: "HostPointer option"
  MatchingDtbe :: u64
  DtbePointer :: "nat option"

record FastMachine =
  FastM :: Machine
  DtbLastEntry :: "nat \<Rightarrow> XrIblockDtbEntry"
  DtbLoadCache :: "nat \<Rightarrow> nat \<Rightarrow> nat \<Rightarrow> XrIblockDtbEntry"
  DtbStoreCache :: "nat \<Rightarrow> nat \<Rightarrow> nat \<Rightarrow> XrIblockDtbEntry"
  Claims :: XrClaims

abbreviation (input) "XR_IBLOCK_DTB_CACHE_SIZE \<equiv> 4 :: nat"
abbreviation (input) "TB_INVALID_MATCHING \<equiv> 0xFFFFFFFF00000000 :: u64"

definition XR_IBLOCK_DTB_CACHE_INDEX :: "u32 \<Rightarrow> nat" where
  "XR_IBLOCK_DTB_CACHE_INDEX address = unat (drop_bit 12 address AND 3)"

text \<open>The page an entry maps, and the physical address of an access to it.\<close>

definition dtbe_page :: "u64 \<Rightarrow> u32" where
  "dtbe_page tbe = ucast (push_bit 12 (drop_bit 5 tbe))"

definition dtbe_phys :: "u64 \<Rightarrow> u32 \<Rightarrow> u32" where
  "dtbe_phys tbe address = ucast (push_bit 12 (drop_bit 5 tbe) OR ucast (address AND 0xFFF))"

definition fast_upd :: "nat \<Rightarrow> (XrProcessor \<Rightarrow> XrProcessor) \<Rightarrow> FastMachine \<Rightarrow> FastMachine" where
  "fast_upd p f fm = fm\<lparr>FastM := upd_proc p f (FastM fm)\<rparr>"

section \<open>Translation\<close>

definition FastLookupItb :: "XrProcessor \<Rightarrow> u32 \<Rightarrow> u64 option \<times> XrProcessor" where
  "FastLookupItb proc virtual =
    (let vpn = drop_bit 12 virtual;
         matching = (Cr proc ITBTAG AND 0xFFF00000) OR vpn
     in case List.find (\<lambda>i. tb_match matching (Itb proc i)) [0..<XR_TB_SIZE] of
          Some i \<Rightarrow> (Some (Itb proc i), proc)
        | None \<Rightarrow>
            let proc = proc\<lparr>Cr := (Cr proc)(ITBTAG := matching,
                           ITBADDR := (Cr proc ITBADDR AND 0xFFC00000) OR push_bit 2 vpn),
                         LastTbMissWasWrite := False\<rparr>
            in (None, XrVectorException (tb_miss_enter virtual proc) XR_EXC_ITB))"

text \<open>The lookup of data addresses also returns where it found the entry.\<close>

definition FastLookupDtb :: "XrProcessor \<Rightarrow> u32 \<Rightarrow> bool \<Rightarrow> (nat \<times> u64) option \<times> XrProcessor" where
  "FastLookupDtb proc virtual writing =
    (let vpn = drop_bit 12 virtual;
         matching = (Cr proc DTBTAG AND 0xFFF00000) OR vpn
     in case List.find (\<lambda>i. tb_match matching (Dtb proc i)) [0..<XR_TB_SIZE] of
          Some i \<Rightarrow> (Some (i, Dtb proc i), proc)
        | None \<Rightarrow>
            let proc = proc\<lparr>Cr := (Cr proc)(DTBTAG := matching,
                           DTBADDR := (Cr proc DTBADDR AND 0xFFC00000) OR push_bit 2 vpn),
                         LastTbMissWasWrite := writing\<rparr>
            in (None, XrVectorException (tb_miss_enter virtual proc) XR_EXC_DTB))"

definition XrPageFault :: "XrProcessor \<Rightarrow> u32 \<Rightarrow> bool \<Rightarrow> XrProcessor" where
  "XrPageFault proc virtual writing =
    (let (proc, writing) =
       (if Cr proc RS AND RS_TBMISS \<noteq> 0
        then (proc\<lparr>Cr := (Cr proc)(EBADADDR := Cr proc TBMISSADDR, EPC := Cr proc TBPC,
                    RS := Cr proc RS AND NOT RS_TBMISS)\<rparr>, LastTbMissWasWrite proc)
        else (XrPushMode (proc\<lparr>Cr := (Cr proc)(EBADADDR := virtual, EPC := Pc proc)\<rparr>), writing))
     in XrVectorException (XrSetEcause proc (if writing then XR_EXC_PGW else XR_EXC_PGF))
          (if writing then XR_EXC_PGW else XR_EXC_PGF))"

definition XrTranslateIstream :: "XrProcessor \<Rightarrow> u32 \<Rightarrow> (u32 \<times> u32) option \<times> XrProcessor" where
  "XrTranslateIstream proc virtual =
    (let vpn = drop_bit 12 virtual;
         (r, proc) = (if ItbLastVpn proc = vpn then (Some (ItbLastResult proc), proc) else FastLookupItb proc virtual)
     in case r of
          None \<Rightarrow> (None, proc)
        | Some tbe \<Rightarrow>
            if tbe AND PTE_VALID = 0 then (None, XrPageFault proc virtual False)
            else if tbe AND PTE_KERNEL \<noteq> 0 \<and> Cr proc RS AND RS_USER \<noteq> 0 then
              (None, XrBasicException (proc\<lparr>Cr := (Cr proc)(EBADADDR := virtual)\<rparr>) XR_EXC_PGF (Pc proc))
            else (Some (ucast (push_bit 7 (tbe AND 0x1FFFFE0) + ucast (virtual AND 0xFFF)), ucast (tbe AND 31)),
                  proc\<lparr>ItbLastVpn := vpn, ItbLastResult := tbe\<rparr>))"

text \<open>The translation of a data address; the result is what is written to the block's entry.\<close>

definition XrTranslateDstream :: "nat \<Rightarrow> u32 \<Rightarrow> bool \<Rightarrow> FastMachine \<Rightarrow> XrIblockDtbEntry option \<times> FastMachine" where
  "XrTranslateDstream p virtual writing fm =
    (let m = FastM fm; proc = proc_of m p; vpn = drop_bit 12 virtual; last = DtbLastEntry fm p;
         (r, proc) =
           (if vpn = DtbLastVpn proc then (Some (None, MatchingDtbe last), proc)
            else case FastLookupDtb proc virtual writing of
                   (None, proc) \<Rightarrow> (None, proc)
                 | (Some (i, tbe), proc) \<Rightarrow> (Some (Some i, tbe), proc));
         code = (if writing then XR_EXC_PGW else XR_EXC_PGF)
     in case r of
          None \<Rightarrow> (None, fast_upd p (\<lambda>_. proc) fm)
        | Some (tbeptr, tbe) \<Rightarrow>
            if tbe AND PTE_VALID = 0 then (None, fast_upd p (\<lambda>_. XrPageFault proc virtual writing) fm)
            else if tbe AND PTE_KERNEL \<noteq> 0 \<and> Cr proc RS AND RS_USER \<noteq> 0 then
              (None, fast_upd p (\<lambda>_. XrBasicException (proc\<lparr>Cr := (Cr proc)(EBADADDR := virtual)\<rparr>) code (Pc proc)) fm)
            else if writing \<and> tbe AND PTE_WRITABLE = 0 then
              (None, fast_upd p (\<lambda>_. XrBasicException (proc\<lparr>Cr := (Cr proc)(EBADADDR := virtual)\<rparr>) code (Pc proc)) fm)
            else if vpn \<noteq> DtbLastVpn proc then
              let entry = \<lparr>HostPointer = EBusTranslate (dtbe_page tbe) m, MatchingDtbe = tbe, DtbePointer = tbeptr\<rparr>
              in (Some entry, fast_upd p (\<lambda>_. proc\<lparr>DtbLastVpn := vpn\<rparr>) (fm\<lparr>DtbLastEntry := (DtbLastEntry fm)(p := entry)\<rparr>))
            else (Some (last\<lparr>MatchingDtbe := tbe\<rparr>), fm))"

section \<open>Accesses\<close>

text \<open>Bytes behind a host pointer.\<close>

fun host_read :: "HostPointer \<Rightarrow> nat \<Rightarrow> nat \<Rightarrow> Machine \<Rightarrow> u8 list" where
  "host_read (RamPointer s i) off n m = peek (RAMSlots (RamBoards m) s) (i + off) n"
| "host_read (RomPointer i) off n m = peek (BootROM m) (i + off) n"

fun host_write :: "HostPointer \<Rightarrow> nat \<Rightarrow> u8 list \<Rightarrow> nat \<Rightarrow> Machine \<Rightarrow> Machine" where
  "host_write (RamPointer s i) off src n m =
    m\<lparr>RamBoards := (RamBoards m)\<lparr>RAMSlots := (RAMSlots (RamBoards m))(s :=
        CopyWithLength (RAMSlots (RamBoards m) s) (i + off) src n)\<rparr>\<rparr>"
| "host_write (RomPointer i) off src n m = m\<lparr>BootROM := CopyWithLength (BootROM m) (i + off) src n\<rparr>"

definition XrDirectEBusWrite :: "CitronTable \<Rightarrow> nat \<Rightarrow> u32 \<Rightarrow> u32 \<Rightarrow> nat \<Rightarrow> Machine \<Rightarrow> bool \<times> Machine" where
  "XrDirectEBusWrite ports p address srcvalue len m =
    (let (st, m) = EBusWrite ports address (bytes_of_u32 srcvalue) len p m in (st = EBUSSUCCESS, m))"

definition XrDirectEBusRead :: "CitronTable \<Rightarrow> nat \<Rightarrow> u32 \<Rightarrow> u32 \<Rightarrow> nat \<Rightarrow> Machine \<Rightarrow> u32 option \<times> Machine" where
  "XrDirectEBusRead ports p address old len m =
    (let (st, bs, m) = EBusRead ports address len p m
     in (if st = EBUSSUCCESS then Some (store_dest old bs AND XrAccessMasks len) else None, m))"

text \<open>The tails of the two accesses: the bus, with an exception when nothing answers.\<close>

definition fast_bus_write :: "CitronTable \<Rightarrow> nat \<Rightarrow> u32 \<Rightarrow> u32 \<Rightarrow> nat \<Rightarrow> FastMachine \<Rightarrow> nat \<times> FastMachine" where
  "fast_bus_write ports p address srcvalue len fm =
    (let (ok, m) = XrDirectEBusWrite ports p address srcvalue len (FastM fm)
     in if ok then (1, fm\<lparr>FastM := m\<rparr>) else (0, fm\<lparr>FastM := access_fault p address XR_EXC_BUS m\<rparr>))"

definition fast_bus_read :: "CitronTable \<Rightarrow> nat \<Rightarrow> u32 \<Rightarrow> u32 \<Rightarrow> nat \<Rightarrow> FastMachine \<Rightarrow> nat \<times> u32 option \<times> FastMachine" where
  "fast_bus_read ports p address old len fm =
    (let (r, m) = XrDirectEBusRead ports p address old len (FastM fm)
     in case r of
          Some v \<Rightarrow> (1, Some v, fm\<lparr>FastM := m\<rparr>)
        | None \<Rightarrow> (0, None, fm\<lparr>FastM := access_fault p address XR_EXC_BUS m\<rparr>))"

text \<open>
  Whether a block's entry does not serve an access; \<^term>\<open>None\<close>: the comparison reads through a pointer that was
  never written.
\<close>

definition entry_misses :: "XrIblockDtbEntry \<Rightarrow> u32 \<Rightarrow> (nat \<Rightarrow> u64) \<Rightarrow> bool option" where
  "entry_misses entry matching dtb =
    (if drop_bit 32 (MatchingDtbe entry) \<noteq> ucast matching then Some True
     else map_option (\<lambda>i. dtb i \<noteq> MatchingDtbe entry) (DtbePointer entry))"

definition fast_matching :: "XrProcessor \<Rightarrow> u32 \<Rightarrow> u32" where
  "fast_matching proc address = (Cr proc DTBTAG AND 0xFFF00000) OR drop_bit 12 address"

text \<open>The entry an access works with, after the block's entry has been refilled if need be.\<close>

definition store_entry :: "nat \<Rightarrow> nat \<Rightarrow> u32 \<Rightarrow> FastMachine \<Rightarrow> (XrIblockDtbEntry option \<times> FastMachine) option" where
  "store_entry p block address fm =
    (let proc = proc_of (FastM fm) p; k = XR_IBLOCK_DTB_CACHE_INDEX address; entry = DtbStoreCache fm p block k
     in map_option (\<lambda>miss.
          if miss \<or> MatchingDtbe entry AND PTE_WRITABLE = 0 then
            case XrTranslateDstream p address True fm of
              (None, fm) \<Rightarrow> (None, fm)
            | (Some e, fm) \<Rightarrow> (Some e, fm\<lparr>DtbStoreCache := (DtbStoreCache fm)(p := (DtbStoreCache fm p)(block := (DtbStoreCache fm p block)(k := e)))\<rparr>)
          else (Some entry, fm))
        (entry_misses entry (fast_matching proc address) (Dtb proc)))"

definition load_entry :: "nat \<Rightarrow> nat \<Rightarrow> u32 \<Rightarrow> FastMachine \<Rightarrow> (XrIblockDtbEntry option \<times> FastMachine) option" where
  "load_entry p block address fm =
    (let proc = proc_of (FastM fm) p; k = XR_IBLOCK_DTB_CACHE_INDEX address; entry = DtbLoadCache fm p block k
     in map_option (\<lambda>miss.
          if miss then
            case XrTranslateDstream p address False fm of
              (None, fm) \<Rightarrow> (None, fm)
            | (Some e, fm) \<Rightarrow> (Some e, fm\<lparr>DtbLoadCache := (DtbLoadCache fm)(p := (DtbLoadCache fm p)(block := (DtbLoadCache fm p block)(k := e)))\<rparr>)
          else (Some entry, fm))
        (entry_misses entry (fast_matching proc address) (Dtb proc)))"

definition FastAccessWrite ::
    "CitronTable \<Rightarrow> nat \<Rightarrow> nat \<Rightarrow> u32 \<Rightarrow> u32 \<Rightarrow> nat \<Rightarrow> bool \<Rightarrow> FastMachine \<Rightarrow> (nat \<times> FastMachine) option" where
  "FastAccessWrite ports p block address srcvalue len sc fm =
    (if address AND (of_nat len - 1) \<noteq> 0 then Some (0, fm\<lparr>FastM := access_fault p address XR_EXC_UNA (FastM fm)\<rparr>)
     else if Cr (proc_of (FastM fm) p) RS AND RS_MMU = 0 then Some (fast_bus_write ports p address srcvalue len fm)
     else map_option (\<lambda>(found, fm).
       case found of
         None \<Rightarrow> (0, fm)
       | Some entry \<Rightarrow>
           let phyaddr = dtbe_phys (MatchingDtbe entry) address; off = unat (address AND 0xFFF)
           in case HostPointer entry of
                Some h \<Rightarrow>
                  if sc then
                    if XrStoreIfClaimed p phyaddr (Claims fm)
                    then (1, fm\<lparr>FastM := host_write h off (bytes_of_u32 srcvalue) 4 (FastM fm)\<rparr>)
                    else (2, fm)
                  else (1, fm\<lparr>FastM := host_write h off (bytes_of_u32 srcvalue) len (FastM fm)\<rparr>)
              | None \<Rightarrow> fast_bus_write ports p phyaddr srcvalue len fm)
       (store_entry p block address fm))"

text \<open>\<open>old\<close> is what the destination held, as for the accesses of the default build.\<close>

definition FastAccessRead ::
    "CitronTable \<Rightarrow> nat \<Rightarrow> nat \<Rightarrow> u32 \<Rightarrow> u32 \<Rightarrow> nat \<Rightarrow> bool \<Rightarrow> FastMachine \<Rightarrow> (nat \<times> u32 option \<times> FastMachine) option" where
  "FastAccessRead ports p block address old len ll fm =
    (if address AND (of_nat len - 1) \<noteq> 0 then Some (0, None, fm\<lparr>FastM := access_fault p address XR_EXC_UNA (FastM fm)\<rparr>)
     else if Cr (proc_of (FastM fm) p) RS AND RS_MMU = 0 then Some (fast_bus_read ports p address old len fm)
     else map_option (\<lambda>(found, fm).
       case found of
         None \<Rightarrow> (0, None, fm)
       | Some entry \<Rightarrow>
           let phyaddr = dtbe_phys (MatchingDtbe entry) address; off = unat (address AND 0xFFF)
           in case HostPointer entry of
                Some h \<Rightarrow>
                  if ll then (1, Some (u32_of_bytes (host_read h off 4 (FastM fm))), fm\<lparr>Claims := XrClaimAddress p phyaddr (Claims fm)\<rparr>)
                  else (1, Some (u32_of_bytes (host_read h off len (FastM fm))), fm)
              | None \<Rightarrow> fast_bus_read ports p phyaddr old len fm)
       (load_entry p block address fm))"

section \<open>Fetching a block\<close>

definition fast_fetch_count :: "u32 \<Rightarrow> nat" where
  "fast_fetch_count pc =
    (if (pc + 127) AND 0xFFFFF000 \<noteq> pc AND 0xFFFFF000
     then unat (drop_bit 2 (((pc + 0x1000) AND 0xFFFFF000) - pc)) else XR_IBLOCK_INSTS)"

text \<open>A new block has no translations.\<close>

definition fresh_entries :: "(nat \<Rightarrow> XrIblockDtbEntry) \<Rightarrow> nat \<Rightarrow> XrIblockDtbEntry" where
  "fresh_entries entries = (\<lambda>k. if k < XR_IBLOCK_DTB_CACHE_SIZE then (entries k)\<lparr>MatchingDtbe := TB_INVALID_MATCHING\<rparr> else entries k)"

text \<open>Instructions are read through a host pointer, from the program counter on.\<close>

definition FastDecodeInstructions :: "nat \<Rightarrow> nat option \<Rightarrow> FastMachine \<Rightarrow> nat option \<times> FastMachine" where
  "FastDecodeInstructions p hazard fm =
    (let proc = proc_of (FastM fm) p; pc = Pc proc; asid = XR_CURRENT_ASID proc
     in case XrLookupIblock pc asid (Ibc proc) of
          Some b \<Rightarrow>
            if PteFlags (Iblocks (Ibc proc) b) AND 4 \<noteq> 0 \<and> Cr proc RS AND RS_USER \<noteq> 0 then
              (None, fast_upd p (\<lambda>proc. XrBasicException (proc\<lparr>Cr := (Cr proc)(EBADADDR := pc)\<rparr>) XR_EXC_PGF pc) fm)
            else (Some b, fm)
        | None \<Rightarrow>
            let (translated, proc) = (if Cr proc RS AND RS_MMU \<noteq> 0 then XrTranslateIstream proc pc else (Some (pc, 0), proc));
                fm = fast_upd p (\<lambda>_. proc) fm
            in case translated of
                 None \<Rightarrow> (None, fm)
               | Some (fetchpc, flags) \<Rightarrow>
                   (case EBusTranslate fetchpc (FastM fm) of
                      None \<Rightarrow> (None, fast_upd p (\<lambda>proc. XrBasicException (proc\<lparr>Cr := (Cr proc)(EBADADDR := pc)\<rparr>) XR_EXC_BUS pc) fm)
                    | Some ir \<Rightarrow>
                        (case iblock_new hazard pc asid flags (Ibc proc) of
                           None \<Rightarrow> (None, fm\<lparr>FastM := (FastM fm)\<lparr>Crashed := True\<rparr>\<rparr>)
                         | Some (b, c) \<Rightarrow>
                             let (insts, cycles) = decode_loop proc (\<lambda>i. u32_of_bytes (host_read ir (4 * i) 4 (FastM fm)))
                                   (fast_fetch_count pc) 0 (Insts (Iblocks c b)) 0 pc 0
                             in (Some b, (fast_upd p (\<lambda>proc. proc\<lparr>Ibc := upd_iblock b (\<lambda>ib. ib\<lparr>Insts := insts, IbCycles := cycles\<rparr>) c\<rparr>) fm)
                                  \<lparr>DtbLoadCache := (DtbLoadCache fm)(p := (DtbLoadCache fm p)(b := fresh_entries (DtbLoadCache fm p b))),
                                   DtbStoreCache := (DtbStoreCache fm)(p := (DtbStoreCache fm p)(b := fresh_entries (DtbStoreCache fm p b)))\<rparr>))))"

section \<open>Translation agrees with the default build\<close>

lemma FastLookupItb_eq: "FastLookupItb = XrLookupItb"
  by (intro ext) (simp only: FastLookupItb_def XrLookupItb_def)

lemma FastLookupDtb_eq:
  "XrLookupDtb proc v w = (case FastLookupDtb proc v w of (r, proc) \<Rightarrow> (map_option snd r, proc))"
  by (simp add: FastLookupDtb_def XrLookupDtb_def Let_def split: option.splits)

lemma XrPageFault_eq: "XrPageFault = page_fault"
  by (intro ext) (simp add: XrPageFault_def page_fault_def page_fault_code_def Let_def)

text \<open>Instruction addresses: the two builds run the same code.\<close>

lemma istream_agrees: "XrTranslateIstream proc v = XrTranslate proc v False True"
  by (simp add: XrTranslateIstream_def XrTranslate_def tb_entry_def FastLookupItb_eq XrPageFault_eq page_fault_code_def
      Let_def split: prod.splits option.splits)

text \<open>What the default build would hold as its hint.\<close>

definition slow_view :: "FastMachine \<Rightarrow> nat \<Rightarrow> XrProcessor" where
  "slow_view fm p = (proc_of (FastM fm) p)\<lparr>DtbLastResult := ucast (MatchingDtbe (DtbLastEntry fm p))\<rparr>"

lemma low_bits:
  assumes "ucast (a :: u64) = (ucast (b :: u64) :: u32)" "n < 32"
  shows "bit a n = bit b n"
proof -
  have "bit (ucast a :: u32) n = bit (ucast b :: u32) n" using assms(1) by simp
  then show ?thesis using assms(2) by (simp add: bit_simps)
qed

lemma bit_dtbe_phys: "bit (dtbe_phys e v) n \<longleftrightarrow> n < 32 \<and> (if n < 12 then bit v n else bit e (n - 7))"
proof -
  have m: "(0xFFF :: u32) = mask 12" by (simp add: mask_eq_exp_minus_1)
  show ?thesis unfolding dtbe_phys_def m by (auto simp: bit_simps)
qed

lemma bit_dtbe_page: "bit (dtbe_page e) n \<longleftrightarrow> n < 32 \<and> 12 \<le> n \<and> bit e (n - 7)"
  by (auto simp: dtbe_page_def bit_simps)

text \<open>The frame lies in the low half of an entry, of which the default build's hint keeps a copy.\<close>

lemma frame_same:
  assumes "ucast (e :: u64) = (ucast (t :: u64) :: u32)"
  shows "ucast (push_bit 7 (t AND 0x1FFFFE0) + ucast (v AND 0xFFF)) = dtbe_phys e v"
proof -
  have m: "(0x1FFFFE0 :: u64) = push_bit 5 (mask 20)" "(0xFFF :: u32) = mask 12"
    by (simp_all add: mask_eq_exp_minus_1)
  have "push_bit 7 (t AND 0x1FFFFE0) AND ucast (v AND 0xFFF) = 0"
    unfolding m by (rule bit_eqI) (auto simp: bit_simps)
  then have "push_bit 7 (t AND 0x1FFFFE0) + ucast (v AND 0xFFF) = push_bit 7 (t AND 0x1FFFFE0) OR ucast (v AND 0xFFF)"
    by (rule disjunctive_add_eq_or)
  moreover have "ucast (push_bit 7 (t AND 0x1FFFFE0) OR ucast (v AND 0xFFF)) = dtbe_phys e v"
  proof (rule bit_word_eqI)
    fix n assume "n < LENGTH(32)"
    then have n: "n < 32" by simp
    show "bit (ucast (push_bit 7 (t AND 0x1FFFFE0) OR ucast (v AND 0xFFF)) :: u32) n = bit (dtbe_phys e v) n"
      using n low_bits [OF assms, of "n - 7"] unfolding m bit_dtbe_phys by (auto simp: bit_simps)
  qed
  ultimately show ?thesis by simp
qed

section \<open>The invariant of the entries\<close>

text \<open>
  An entry of a block is fresh, or it is a valid entry that was in the buffer, with the pointer to the page it
  maps. The hint of the processor is in the buffer.
\<close>

definition maps_page :: "Machine \<Rightarrow> XrIblockDtbEntry \<Rightarrow> bool" where
  "maps_page m e \<longleftrightarrow> (\<exists>i < XR_TB_SIZE. DtbePointer e = Some i) \<and> HostPointer e = EBusTranslate (dtbe_page (MatchingDtbe e)) m"

definition entry_ok :: "Machine \<Rightarrow> XrIblockDtbEntry \<Rightarrow> bool" where
  "entry_ok m e \<longleftrightarrow> MatchingDtbe e = TB_INVALID_MATCHING \<or> maps_page m e \<and> MatchingDtbe e AND PTE_VALID \<noteq> 0"

definition fast_ok :: "nat \<Rightarrow> FastMachine \<Rightarrow> bool" where
  "fast_ok p fm \<longleftrightarrow> ram_inv (RamBoards (FastM fm)) \<and>
     (\<forall>b k. entry_ok (FastM fm) (DtbLoadCache fm p b k) \<and> entry_ok (FastM fm) (DtbStoreCache fm p b k)) \<and>
     (let proc = proc_of (FastM fm) p; last = DtbLastEntry fm p
      in DtbLastVpn proc = - 1 \<or>
        maps_page (FastM fm) last \<and>
        (\<exists>i < XR_TB_SIZE. tb_match ((Cr proc DTBTAG AND 0xFFF00000) OR DtbLastVpn proc) (Dtb proc i) \<and> Dtb proc i = MatchingDtbe last))"

text \<open>At most one entry of the data translation buffer matches, as the architecture asks of its software.\<close>

definition one_match :: "XrProcessor \<Rightarrow> u32 \<Rightarrow> bool" where
  "one_match proc address \<longleftrightarrow> (\<forall>i < XR_TB_SIZE. \<forall>j < XR_TB_SIZE.
     tb_match (fast_matching proc address) (Dtb proc i) \<and> tb_match (fast_matching proc address) (Dtb proc j) \<longrightarrow> i = j)"

lemma translate_cong:
  assumes "RAMSlotSizes (RamBoards m') = RAMSlotSizes (RamBoards m)"
  shows "EBusTranslate a m' = EBusTranslate a m"
  using assms by (simp add: EBusTranslate_def RAMTranslate_def RAMTranslateExt_def Let_def)

lemma entry_ok_cong:
  assumes "RAMSlotSizes (RamBoards m') = RAMSlotSizes (RamBoards m)"
  shows "entry_ok m' e = entry_ok m e" "maps_page m' e = maps_page m e"
  by (simp_all add: entry_ok_def maps_page_def translate_cong [OF assms])

text \<open>A successful translation of the default build, seen from the fast one.\<close>

lemma dstream_some:
  assumes "fast_ok p fm" "XrTranslate (slow_view fm p) v w False = (Some (pa, f), q)"
  obtains e fm' i where "XrTranslateDstream p v w fm = (Some e, fm')" "i < XR_TB_SIZE"
    "tb_match (fast_matching (proc_of (FastM fm) p) v) (Dtb (proc_of (FastM fm) p) i)" "MatchingDtbe e = Dtb (proc_of (FastM fm) p) i"
    "dtbe_phys (MatchingDtbe e) v = pa" "maps_page (FastM fm) e" "MatchingDtbe e AND PTE_VALID \<noteq> 0"
    "MatchingDtbe e AND PTE_KERNEL \<noteq> 0 \<longrightarrow> Cr (proc_of (FastM fm) p) RS AND RS_USER = 0"
    "fm' = fm\<lparr>FastM := FastM fm', DtbLastEntry := DtbLastEntry fm'\<rparr>" "RamBoards (FastM fm') = RamBoards (FastM fm)"
    "fast_ok p fm'"
proof -
  let ?proc = "proc_of (FastM fm) p" let ?last = "DtbLastEntry fm p"
  from assms(2) obtain tbe where t: "tb_entry (slow_view fm p) v w False = (Some tbe, slow_view fm p)"
      "tbe AND PTE_VALID \<noteq> 0" "tbe AND PTE_KERNEL \<noteq> 0 \<longrightarrow> Cr ?proc RS AND RS_USER = 0"
      "w \<longrightarrow> tbe AND PTE_WRITABLE \<noteq> 0" "pa = ucast (push_bit 7 (tbe AND 0x1FFFFE0) + ucast (v AND 0xFFF))"
    by (cases rule: XrTranslate_Some) (simp add: slow_view_def)
  have inv: "ram_inv (RamBoards (FastM fm))" "\<And>b k. entry_ok (FastM fm) (DtbLoadCache fm p b k)" "\<And>b k. entry_ok (FastM fm) (DtbStoreCache fm p b k)"
    using assms(1) by (simp_all add: fast_ok_def)
  show thesis
  proof (cases "DtbLastVpn ?proc = drop_bit 12 v")
    case True
    then have h: "DtbLastVpn ?proc \<noteq> - 1" using vpn_neq_minus_1 [of v] by simp
    then obtain i where i: "maps_page (FastM fm) ?last" "i < XR_TB_SIZE" "tb_match (fast_matching ?proc v) (Dtb ?proc i)"
        "Dtb ?proc i = MatchingDtbe ?last"
      using assms(1) True by (auto simp: fast_ok_def fast_matching_def Let_def)
    have tbe: "tbe = ucast (ucast (MatchingDtbe ?last) :: u32)" using t(1) True by (simp add: tb_entry_def slow_view_def)
    then have low: "MatchingDtbe ?last AND m = tbe AND m" if "m AND 0xFFFFFFFF = m" for m using low_half_and [OF that] by simp
    have "XrTranslateDstream p v w fm = (Some ?last, fm)"
      using True t(2-4) by (auto simp: XrTranslateDstream_def Let_def low)
    moreover have "dtbe_phys (MatchingDtbe ?last) v = pa" unfolding t(5) tbe by (rule frame_same [symmetric]) simp
    ultimately show thesis by (rule that [OF _ i(2,3) i(4) [symmetric] _ i(1)]) (use t(2,3) assms(1) low in simp_all)
  next
    case False
    then obtain i where i: "List.find (\<lambda>i. tb_match (fast_matching ?proc v) (Dtb ?proc i)) [0..<XR_TB_SIZE] = Some i" "tbe = Dtb ?proc i"
      using t(1) by (auto simp: tb_entry_def slow_view_def XrLookupDtb_def fast_matching_def Let_def split: option.splits)
    have m: "i < XR_TB_SIZE" "tb_match (fast_matching ?proc v) (Dtb ?proc i)" using find_upt_SomeD [OF i(1)] by simp_all
    let ?e = "\<lparr>HostPointer = EBusTranslate (dtbe_page tbe) (FastM fm), MatchingDtbe = tbe, DtbePointer = Some i\<rparr>"
    let ?fm = "fast_upd p (\<lambda>_. ?proc\<lparr>DtbLastVpn := drop_bit 12 v\<rparr>) (fm\<lparr>DtbLastEntry := (DtbLastEntry fm)(p := ?e)\<rparr>)"
    have l: "FastLookupDtb ?proc v w = (Some (i, tbe), ?proc)" using i by (simp add: FastLookupDtb_def fast_matching_def Let_def)
    have "XrTranslateDstream p v w fm = (Some ?e, ?fm)"
      using False t(2-4) by (auto simp: XrTranslateDstream_def Let_def l)
    moreover have mp: "maps_page (FastM fm) ?e" using m(1) by (simp add: maps_page_def)
    moreover have "fast_ok p ?fm"
    proof -
      have s: "RAMSlotSizes (RamBoards (FastM ?fm)) = RAMSlotSizes (RamBoards (FastM fm))" by (simp add: fast_upd_def upd_proc_def)
      show ?thesis
        using inv mp m i(2) unfolding fast_ok_def entry_ok_cong [OF s]
        by (auto simp: fast_upd_def upd_proc_def Let_def fast_matching_def)
    qed
    moreover have "dtbe_phys tbe v = pa" unfolding t(5) by (rule frame_same [symmetric]) simp
    ultimately show thesis using m t(2,3) i(2) by (intro that [of ?e ?fm i]) (simp_all add: fast_upd_def upd_proc_def)
  qed
qed

section \<open>Direct accesses\<close>

text \<open>The page of an access that lies in RAM is reached by the host pointer.\<close>

lemma translate_ram:
  assumes "ram_window a" "ram_acc a n (RamBoards m)" "0 < n"
  shows "EBusTranslate a m = Some (RamPointer (ram_slot a) (ram_off a))"
proof -
  have "RAMTranslate a (RamBoards m) = Some (ram_slot a, ram_off a)"
    using assms(2,3) ram_simps(2) [of a] by (simp add: RAMTranslate_def Let_def ram_simps(1) ram_acc_def word_le_nat_alt)
  moreover have "RAMTranslateExt x = RAMTranslate (x + EBUSBRANCHSIZE)" for x
    by (intro ext) (simp add: RAMTranslateExt_def RAMTranslate_def Let_def)
  ultimately show ?thesis using assms(1) by (rule_tac bus_ram_cases [of a]) (simp_all add: EBusTranslate_def)
qed

definition page_in_ram :: "Machine \<Rightarrow> u32 \<Rightarrow> bool" where
  "page_in_ram m pa \<longleftrightarrow> ram_window (pa AND NOT 0xFFF) \<and> ram_acc (pa AND NOT 0xFFF) 4096 (RamBoards m)"

text \<open>An aligned access stays in its page.\<close>

lemma access_in_page: "access_ok v len \<Longrightarrow> unat (v AND 0xFFF) + len \<le> 4096"
proof -
  assume "access_ok v len"
  then have l: "unat v mod 16 + len \<le> 16" using access_in_line [of v len] by (simp add: line_off_mod)
  have "unat (v AND mask 12) = unat v mod 4096" by (simp only: unat_and_mask) simp
  then have u: "unat (v AND 0xFFF) = unat v mod 4096" by (simp add: mask_eq_exp_minus_1)
  have "unat v mod 4096 = 16 * (unat v div 16 mod 256) + unat v mod 16"
    using mod_mult2_eq [of "unat v" 16 256] by simp
  moreover have "unat v div 16 mod 256 < 256" by simp
  ultimately show ?thesis unfolding u using l by linarith
qed

lemma page_split: "dtbe_page e = dtbe_phys e v AND NOT 0xFFF" "dtbe_phys e v = dtbe_page e + of_nat (unat (v AND 0xFFF))"
proof -
  have m: "(0xFFF :: u32) = mask 12" by (simp add: mask_eq_exp_minus_1)
  show "dtbe_page e = dtbe_phys e v AND NOT 0xFFF"
    unfolding m by (rule bit_word_eqI) (auto simp: bit_dtbe_page bit_dtbe_phys bit_simps)
  have "dtbe_phys e v = dtbe_page e OR (v AND 0xFFF)"
    unfolding m by (rule bit_word_eqI) (auto simp: bit_dtbe_page bit_dtbe_phys bit_simps)
  also have "\<dots> = dtbe_page e + (v AND 0xFFF)"
    unfolding m by (rule disjunctive_add [symmetric]) (auto simp: bit_dtbe_page bit_simps)
  finally show "dtbe_phys e v = dtbe_page e + of_nat (unat (v AND 0xFFF))" by simp
qed

lemma page_offset:
  assumes "ram_inv (RamBoards m)" "page_in_ram m (dtbe_phys e v)" "access_ok v len"
  shows "EBusTranslate (dtbe_page e) m = Some (RamPointer (ram_slot (dtbe_page e)) (ram_off (dtbe_page e)))"
    "ram_slot (dtbe_phys e v) = ram_slot (dtbe_page e)" "ram_off (dtbe_phys e v) = ram_off (dtbe_page e) + unat (v AND 0xFFF)"
    "ram_window (dtbe_phys e v)" "ram_acc (dtbe_phys e v) len (RamBoards m)"
proof -
  let ?i = "unat (v AND 0xFFF)"
  have r: "ram_window (dtbe_page e)" "ram_acc (dtbe_page e) 4096 (RamBoards m)"
    using assms(2) by (simp_all add: page_in_ram_def page_split(1) [of e v])
  show "EBusTranslate (dtbe_page e) m = Some (RamPointer (ram_slot (dtbe_page e)) (ram_off (dtbe_page e)))"
    by (rule translate_ram [OF r]) simp
  have l: "?i + len \<le> 4096" "0 < len" using access_in_page [OF assms(3)] assms(3) by (auto simp: access_ok_def)
  then have "ram_off (dtbe_page e) + ?i < 2 ^ 25" using ram_acc_bound [OF assms(1) r(2)] by linarith
  from ram_step [OF this]
  show s: "ram_slot (dtbe_phys e v) = ram_slot (dtbe_page e)" "ram_off (dtbe_phys e v) = ram_off (dtbe_page e) + ?i"
    unfolding page_split(2) [of e v] by blast+
  show "ram_window (dtbe_phys e v)"
    using ram_window_step [OF assms(1) r(2), of ?i 28] r(1) l unfolding page_split(2) [of e v] ram_window_def by simp
  show "ram_acc (dtbe_phys e v) len (RamBoards m)" using r(2) l(1) unfolding ram_acc_def s by linarith
qed

text \<open>The bus access at the physical address is the access through the host pointer.\<close>

lemma host_access:
  assumes "ram_inv (RamBoards m)" "page_in_ram m (dtbe_phys e v)" "access_ok v len"
    and "EBusTranslate (dtbe_page e) m = Some h"
  shows "EBusRead ports (dtbe_phys e v) len p m = (EBUSSUCCESS, host_read h (unat (v AND 0xFFF)) len m, m)"
    and "EBusWrite ports (dtbe_phys e v) bs len p m = (EBUSSUCCESS, host_write h (unat (v AND 0xFFF)) bs len m)"
proof -
  note o = page_offset [OF assms(1-3)]
  have l: "len \<le> 4096" using assms(3) by (auto simp: access_ok_def)
  have h: "h = RamPointer (ram_slot (dtbe_page e)) (ram_off (dtbe_page e))" using o(1) assms(4) by simp
  show "EBusRead ports (dtbe_phys e v) len p m = (EBUSSUCCESS, host_read h (unat (v AND 0xFFF)) len m, m)"
    using o l by (simp add: bus_ram_read RAMRead_eq h)
  show "EBusWrite ports (dtbe_phys e v) bs len p m = (EBUSSUCCESS, host_write h (unat (v AND 0xFFF)) bs len m)"
    using o l by (simp add: bus_ram_write RAMWrite_eq h CopyWithLength_def)
qed

text \<open>An entry of the block that passes the comparison is the entry the default build finds.\<close>

lemma matches_tb: "drop_bit 32 e = ucast matching \<Longrightarrow> tb_match matching e"
  by (simp add: tb_match_def Let_def unsigned_and_eq)

lemma entry_hit:
  assumes "fast_ok p fm" "XrTranslate (slow_view fm p) v w False = (Some (pa, f), q)"
    and "one_match (proc_of (FastM fm) p) v" "fast_matching (proc_of (FastM fm) p) v \<noteq> 0xFFFFFFFF"
    and "entry_ok (FastM fm) e"
  obtains (miss) "entry_misses e (fast_matching (proc_of (FastM fm) p) v) (Dtb (proc_of (FastM fm) p)) = Some True"
    | (hit) "entry_misses e (fast_matching (proc_of (FastM fm) p) v) (Dtb (proc_of (FastM fm) p)) = Some False"
      "dtbe_phys (MatchingDtbe e) v = pa" "maps_page (FastM fm) e"
proof (cases "drop_bit 32 (MatchingDtbe e) = ucast (fast_matching (proc_of (FastM fm) p) v)")
  case False
  then show thesis using miss by (simp add: entry_misses_def)
next
  case True
  let ?proc = "proc_of (FastM fm) p"
  have "MatchingDtbe e \<noteq> TB_INVALID_MATCHING"
  proof
    assume "MatchingDtbe e = TB_INVALID_MATCHING"
    then have "ucast (fast_matching ?proc v) = (0xFFFFFFFF :: u64)" using True by simp
    then have "ucast (ucast (fast_matching ?proc v) :: u64) = (0xFFFFFFFF :: u32)" by simp
    then show False using assms(4) by simp
  qed
  then have mp: "maps_page (FastM fm) e" using assms(5) by (simp add: entry_ok_def)
  then obtain j where j: "j < XR_TB_SIZE" "DtbePointer e = Some j" by (auto simp: maps_page_def)
  show thesis
  proof (cases "Dtb ?proc j = MatchingDtbe e")
    case False
    then show thesis using True j miss by (simp add: entry_misses_def)
  next
    case same: True
    obtain e' :: XrIblockDtbEntry and i where i: "i < XR_TB_SIZE" "tb_match (fast_matching ?proc v) (Dtb ?proc i)"
        "MatchingDtbe e' = Dtb ?proc i" "dtbe_phys (MatchingDtbe e') v = pa"
      by (rule dstream_some [OF assms(1,2)])
    have "tb_match (fast_matching ?proc v) (Dtb ?proc j)" using matches_tb [OF True] same by simp
    then have "i = j" using assms(3) i(1,2) j(1) unfolding one_match_def by blast
    then show thesis using True same j i(3,4) mp by (intro hit) (simp_all add: entry_misses_def)
  qed
qed

text \<open>What an access finds when the default build's translation succeeds.\<close>

definition serves :: "nat \<Rightarrow> u32 \<Rightarrow> u32 \<Rightarrow> FastMachine \<Rightarrow> XrIblockDtbEntry \<Rightarrow> FastMachine \<Rightarrow> bool" where
  "serves p v pa fm e fm' \<longleftrightarrow> dtbe_phys (MatchingDtbe e) v = pa \<and> maps_page (FastM fm) e \<and>
     RamBoards (FastM fm') = RamBoards (FastM fm) \<and> fast_ok p fm'"

lemma load_entry_serves:
  assumes "fast_ok p fm" "XrTranslate (slow_view fm p) v False False = (Some (pa, f), q)"
    and "one_match (proc_of (FastM fm) p) v" "fast_matching (proc_of (FastM fm) p) v \<noteq> 0xFFFFFFFF"
  shows "\<exists>e fm'. load_entry p block v fm = Some (Some e, fm') \<and> serves p v pa fm e fm'"
proof -
  let ?e = "DtbLoadCache fm p block (XR_IBLOCK_DTB_CACHE_INDEX v)"
  have "entry_ok (FastM fm) ?e" using assms(1) by (simp add: fast_ok_def)
  from assms this show ?thesis
  proof (cases rule: entry_hit)
    case hit
    then show ?thesis using assms(1) by (auto simp: load_entry_def serves_def Let_def)
  next
    case miss
    obtain e fm' where e: "XrTranslateDstream p v False fm = (Some e, fm')" "dtbe_phys (MatchingDtbe e) v = pa"
        "maps_page (FastM fm) e" "MatchingDtbe e AND PTE_VALID \<noteq> 0" "fm' = fm\<lparr>FastM := FastM fm', DtbLastEntry := DtbLastEntry fm'\<rparr>"
        "RamBoards (FastM fm') = RamBoards (FastM fm)" "fast_ok p fm'"
      using dstream_some [OF assms(1,2)] by metis
    have "entry_ok (FastM fm') e" using e(3,4,6) entry_ok_cong(2) [of "FastM fm'" "FastM fm"] by (simp add: entry_ok_def)
    then show ?thesis using miss e by (auto simp: load_entry_def serves_def fast_ok_def Let_def)
  qed
qed

lemma store_entry_serves:
  assumes "fast_ok p fm" "XrTranslate (slow_view fm p) v True False = (Some (pa, f), q)"
    and "one_match (proc_of (FastM fm) p) v" "fast_matching (proc_of (FastM fm) p) v \<noteq> 0xFFFFFFFF"
  shows "\<exists>e fm'. store_entry p block v fm = Some (Some e, fm') \<and> serves p v pa fm e fm'"
proof -
  let ?e = "DtbStoreCache fm p block (XR_IBLOCK_DTB_CACHE_INDEX v)"
  obtain e fm' where e: "XrTranslateDstream p v True fm = (Some e, fm')" "dtbe_phys (MatchingDtbe e) v = pa"
      "maps_page (FastM fm) e" "MatchingDtbe e AND PTE_VALID \<noteq> 0" "fm' = fm\<lparr>FastM := FastM fm', DtbLastEntry := DtbLastEntry fm'\<rparr>"
      "RamBoards (FastM fm') = RamBoards (FastM fm)" "fast_ok p fm'"
    using dstream_some [OF assms(1,2)] by metis
  have r: "entry_ok (FastM fm') e" using e(3,4,6) entry_ok_cong(2) [of "FastM fm'" "FastM fm"] by (simp add: entry_ok_def)
  have "entry_ok (FastM fm) ?e" using assms(1) by (simp add: fast_ok_def)
  from assms this show ?thesis
  proof (cases rule: entry_hit)
    case hit
    then show ?thesis using assms(1) r e by (cases "MatchingDtbe ?e AND PTE_WRITABLE = 0") (auto simp: store_entry_def serves_def fast_ok_def Let_def)
  next
    case miss
    then show ?thesis using r e by (auto simp: store_entry_def serves_def fast_ok_def Let_def)
  qed
qed

section \<open>Properties\<close>

lemma fast_ok_cong:
  assumes "RAMSlotSizes (RamBoards m') = RAMSlotSizes (RamBoards (FastM fm))" "proc_of m' p = proc_of (FastM fm) p"
  shows "fast_ok p (fm\<lparr>FastM := m'\<rparr>) = fast_ok p fm" "fast_ok p (fm\<lparr>Claims := c\<rparr>) = fast_ok p fm"
  by (simp_all add: fast_ok_def entry_ok_cong [OF assms(1)] assms ram_inv_def)


lemma dstream_claims: "Claims (snd (XrTranslateDstream p v w fm)) = Claims fm"
  by (simp add: XrTranslateDstream_def Let_def fast_upd_def split: prod.splits option.splits)

lemma store_entry_claims: "store_entry p block v fm = Some (r, fm') \<Longrightarrow> Claims fm' = Claims fm"
  using dstream_claims [of p v True fm]
  by (auto simp: store_entry_def Let_def split: prod.splits option.splits if_splits)


text \<open>A machine whose processors run in user mode with page 5 mapped to the second page of RAM, and fresh blocks.\<close>

definition fresh_entry :: XrIblockDtbEntry where
  "fresh_entry = \<lparr>HostPointer = None, MatchingDtbe = TB_INVALID_MATCHING, DtbePointer = None\<rparr>"

definition fast_sample :: FastMachine where
  "fast_sample = \<lparr>FastM = machine_zero\<lparr>XrProcessorTable := (\<lambda>_. tb_sample 7)\<rparr>, DtbLastEntry = (\<lambda>_. fresh_entry),
     DtbLoadCache = (\<lambda>_ _ _. fresh_entry), DtbStoreCache = (\<lambda>_ _ _. fresh_entry), Claims = claims_init\<rparr>"

lemma fast_sample_ok: "fast_ok 0 fast_sample" "Cr (proc_of (FastM fast_sample) 0) RS AND RS_MMU \<noteq> 0"
  "one_match (proc_of (FastM fast_sample) 0) 0x5124" "fast_matching (proc_of (FastM fast_sample) 0) 0x5124 \<noteq> 0xFFFFFFFF"
  "page_in_ram (FastM fast_sample) 0x1124" "access_ok 0x5124 4"
proof -
  show "fast_ok 0 fast_sample"
    by (simp add: fast_ok_def fast_sample_def entry_ok_def fresh_entry_def machine_zero_def ram_inv_def ram_sized_def tb_sample_simps)
  show "one_match (proc_of (FastM fast_sample) 0) 0x5124"
    using tb_sample_match by (auto simp: one_match_def fast_sample_def fast_matching_def tb_sample_simps)
qed (simp_all add: fast_sample_def fast_matching_def tb_sample_simps page_in_ram_def ram_window_def ram_acc_def ram_off_def
    ram_slot_def machine_zero_def access_ok_def)

lemma fast_sample_translate:
  "\<exists>f q. XrTranslate (slow_view fast_sample 0) 0x5124 w False = (Some (0x1124, f), q)"
proof -
  let ?v = "slow_view fast_sample 0"
  have v: "Dtb ?v = Dtb (tb_sample 7)" "Cr ?v = Cr (tb_sample 7)" "DtbLastVpn ?v = DtbLastVpn (tb_sample 7)"
    by (simp_all add: slow_view_def fast_sample_def)
  have "List.find (\<lambda>i. tb_match 5 (Dtb ?v i)) [0..<32] = Some 7"
    unfolding v by (rule find_upt_Some) (simp_all add: tb_sample_simps tb_sample_match)
  then show ?thesis
    by (simp add: XrTranslate_def tb_entry_def XrLookupDtb_def Let_def v tb_sample_simps del: upt_rec_numeral)
qed



section \<open>Where the builds differ\<close>

text \<open>
  Claim C40. A block's entry is used without looking at the mode: once an entry for a kernel page has been
  cached, the block reads the page in user mode too, while the default build raises a page fault.
\<close>

theorem fast_user_reads_kernel_page:
  assumes "fast_ok p fm" "access_ok v len" "one_match (proc_of (FastM fm) p) v"
    and mode: "Cr (proc_of (FastM fm) p) RS AND RS_MMU \<noteq> 0" "Cr (proc_of (FastM fm) p) RS AND RS_USER \<noteq> 0"
    and hit: "entry_misses (DtbLoadCache fm p block (XR_IBLOCK_DTB_CACHE_INDEX v))
      (fast_matching (proc_of (FastM fm) p) v) (Dtb (proc_of (FastM fm) p)) = Some False"
    and kernel: "MatchingDtbe (DtbLoadCache fm p block (XR_IBLOCK_DTB_CACHE_INDEX v)) AND PTE_KERNEL \<noteq> 0"
    and host: "HostPointer (DtbLoadCache fm p block (XR_IBLOCK_DTB_CACHE_INDEX v)) = Some h"
  shows "FastAccessRead ports p block v old len False fm =
      Some (1, Some (u32_of_bytes (host_read h (unat (v AND 0xFFF)) len (FastM fm))), fm) \<and>
    fst (XrTranslate (slow_view fm p) v False False) = None"
proof
  let ?e = "DtbLoadCache fm p block (XR_IBLOCK_DTB_CACHE_INDEX v)" let ?proc = "proc_of (FastM fm) p"
  show "FastAccessRead ports p block v old len False fm =
      Some (1, Some (u32_of_bytes (host_read h (unat (v AND 0xFFF)) len (FastM fm))), fm)"
    using assms(2) mode(1) hit host by (auto simp: FastAccessRead_def load_entry_def access_ok_def Let_def)
  show "fst (XrTranslate (slow_view fm p) v False False) = None"
  proof (rule ccontr)
    assume "fst (XrTranslate (slow_view fm p) v False False) \<noteq> None"
    then obtain pa f q where t: "XrTranslate (slow_view fm p) v False False = (Some (pa, f), q)"
      by (cases "XrTranslate (slow_view fm p) v False False") auto
    obtain e :: XrIblockDtbEntry and i where i: "i < XR_TB_SIZE" "tb_match (fast_matching ?proc v) (Dtb ?proc i)"
        "MatchingDtbe e = Dtb ?proc i" "MatchingDtbe e AND PTE_KERNEL \<noteq> 0 \<longrightarrow> Cr ?proc RS AND RS_USER = 0"
      by (rule dstream_some [OF assms(1) t])
    have m: "drop_bit 32 (MatchingDtbe ?e) = ucast (fast_matching ?proc v)"
      using hit by (auto simp: entry_misses_def split: if_splits)
    obtain j where j: "DtbePointer ?e = Some j" "Dtb ?proc j = MatchingDtbe ?e"
      using hit by (auto simp: entry_misses_def split: if_splits)
    have "entry_ok (FastM fm) ?e" using assms(1) by (simp add: fast_ok_def)
    then have "j < XR_TB_SIZE" using j(1) kernel by (auto simp: entry_ok_def maps_page_def)
    then have "i = j" using assms(3) i(1,2) matches_tb [OF m] j(2) unfolding one_match_def by metis
    then show False using i(3,4) j(2) kernel mode(2) by simp
  qed
qed

text \<open>The sample with a kernel page, which block 3 has read in kernel mode.\<close>

definition fast_kernel_sample :: FastMachine where
  "fast_kernel_sample =
    (let proc = (tb_sample 7)\<lparr>Dtb := (Dtb (tb_sample 7))(7 := 0x0000000500000027)\<rparr>;
         e = \<lparr>HostPointer = Some (RamPointer 0 0x1000), MatchingDtbe = 0x0000000500000027, DtbePointer = Some 7\<rparr>
     in fast_sample\<lparr>FastM := machine_zero\<lparr>XrProcessorTable := (\<lambda>_. proc)\<rparr>,
          DtbLoadCache := (\<lambda>_. (\<lambda>_ _. fresh_entry)(3 := (\<lambda>_. fresh_entry)(1 := e)))\<rparr>)"

lemma fast_user_reads_kernel_page_witness:
  "FastAccessRead dma_ports 0 3 0x5124 0 4 False fast_kernel_sample = Some (1, Some 0, fast_kernel_sample) \<and>
    fst (XrTranslate (slow_view fast_kernel_sample 0) 0x5124 False False) = None"
proof -
  have p: "proc_of (FastM fast_kernel_sample) 0 = (tb_sample 7)\<lparr>Dtb := (Dtb (tb_sample 7))(7 := 0x0000000500000027)\<rparr>"
    and k: "XR_IBLOCK_DTB_CACHE_INDEX 0x5124 = 1"
    and e: "DtbLoadCache fast_kernel_sample 0 3 1 =
      \<lparr>HostPointer = Some (RamPointer 0 0x1000), MatchingDtbe = 0x0000000500000027, DtbePointer = Some 7\<rparr>"
    and s: "RAMSlots (RamBoards (FastM fast_kernel_sample)) = (\<lambda>_ _. 0)"
    by (simp_all add: fast_kernel_sample_def XR_IBLOCK_DTB_CACHE_INDEX_def fast_sample_def machine_zero_def Let_def)
  have t: "tb_match 5 0x0000000500000027" "EBusTranslate 0x1000 (FastM fast_kernel_sample) = Some (RamPointer 0 0x1000)"
    by (simp_all add: tb_match_def EBusTranslate_def RAMTranslate_def fast_kernel_sample_def fast_sample_def machine_zero_def Let_def)
  have g: "dtbe_page 0x0000000500000027 = 0x1000" by (simp add: dtbe_page_def)
  have "fast_ok 0 fast_kernel_sample"
    using t(2) by (auto simp: fast_ok_def entry_ok_def maps_page_def g fast_kernel_sample_def fast_sample_def fresh_entry_def
        machine_zero_def ram_inv_def ram_sized_def tb_sample_simps Let_def)
  moreover have "one_match (proc_of (FastM fast_kernel_sample) 0) 0x5124"
    unfolding one_match_def p using tb_sample_match t(1) by (auto simp: fast_matching_def tb_sample_simps)
  ultimately show ?thesis
    using fast_user_reads_kernel_page [of 0 fast_kernel_sample "0x5124" 4 3 "RamPointer 0 0x1000" dma_ports 0]
    by (simp add: access_ok_def p k e [unfolded One_nat_def] e s entry_misses_def fast_matching_def tb_sample_simps peek_def upt_rec)
qed

text \<open>An entry that was never filled matches the last page of the last address space, and its pointer is followed.\<close>

lemma fast_fresh_entry_wild:
  assumes "Cr (proc_of (FastM fm) p) RS AND RS_MMU \<noteq> 0" "access_ok v len" "fast_matching (proc_of (FastM fm) p) v = 0xFFFFFFFF"
    and "DtbLoadCache fm p block (XR_IBLOCK_DTB_CACHE_INDEX v) = fresh_entry"
  shows "FastAccessRead ports p block v old len ll fm = None"
  using assms by (auto simp: FastAccessRead_def load_entry_def entry_misses_def fresh_entry_def access_ok_def Let_def)

section \<open>New blocks\<close>

text \<open>The block that a fetch returns is one the cache had, or its entries match nothing yet.\<close>

lemma fetched_fresh:
  assumes "FastDecodeInstructions p hazard fm = (Some b, fm')" "k < XR_IBLOCK_DTB_CACHE_SIZE"
  shows "fm' = fm \<and> XrLookupIblock (Pc (proc_of (FastM fm) p)) (XR_CURRENT_ASID (proc_of (FastM fm) p)) (Ibc (proc_of (FastM fm) p)) = Some b \<or>
    entry_ok (FastM fm') (DtbLoadCache fm' p b k) \<and> entry_ok (FastM fm') (DtbStoreCache fm' p b k)"
  using assms
  by (auto simp: FastDecodeInstructions_def fresh_entries_def entry_ok_def Let_def split: option.splits prod.splits if_splits)

end
